(* ===== verification/Prelude.thy ===== *)
theory Prelude
  imports Main "HOL-Library.Word"
begin

text \<open>
  What every component shares: the reading of Go's error returns as a sum type, of a
  function that may panic as a three-way outcome, Go's \<open>time.Time\<close> and
  \<open>time.Duration\<close> as integers counting nanoseconds, and the generic lemmas on maps,
  lists and outcomes that the component proofs use through the simplifier.
\<close>

named_theorems go_defs \<open>unfolding rules for the small predicates of the domain entities\<close>
named_theorems step_invs \<open>one lemma per operation: the operation keeps its component's invariant\<close>

subsection \<open>Errors and panics\<close>

text \<open>
  A function that returns \<open>(T, error)\<close> is modelled as \<open>'e + 'a\<close>: \<open>Err\<close> for a
  non-nil error, \<open>Ok\<close> for the value. A function that can also panic is modelled with
  \<open>('e, 'a) outcome\<close>.
\<close>

abbreviation Err :: "'e \<Rightarrow> 'e + 'a" where "Err \<equiv> Inl"
abbreviation Ok :: "'a \<Rightarrow> 'e + 'a" where "Ok \<equiv> Inr"

datatype ('e, 'a) outcome = Return 'a | Fail 'e | Panic

fun bind_outcome :: "('e, 'a) outcome \<Rightarrow> ('a \<Rightarrow> ('e, 'b) outcome) \<Rightarrow> ('e, 'b) outcome" where
  "bind_outcome (Return x) f = f x"
| "bind_outcome (Fail e) f = Fail e"
| "bind_outcome Panic f = Panic"

text \<open>A library call that panics on some arguments returns an option; \<open>None\<close> is the panic.\<close>

fun or_panic :: "'a option \<Rightarrow> ('a \<Rightarrow> ('e, 'b) outcome) \<Rightarrow> ('e, 'b) outcome" where
  "or_panic None f = Panic"
| "or_panic (Some x) f = f x"

lemma bind_outcome_Return [simp]: "bind_outcome m f = Return y \<longleftrightarrow> (\<exists>x. m = Return x \<and> f x = Return y)"
  by (cases m) auto

lemma or_panic_Return [simp]: "or_panic m f = Return y \<longleftrightarrow> (\<exists>x. m = Some x \<and> f x = Return y)"
  by (cases m) auto

lemma or_panic_Fail [simp]: "or_panic m f = Fail e \<longleftrightarrow> (\<exists>x. m = Some x \<and> f x = Fail e)"
  by (cases m) auto

lemma or_panic_Panic: "or_panic m f = Panic \<longleftrightarrow> m = None \<or> (\<exists>x. m = Some x \<and> f x = Panic)"
  by (cases m) auto

text \<open>\<open>if err != nil { return err }\<close>: the next step runs on the value only.\<close>

definition and_then :: "'e + 'a \<Rightarrow> ('a \<Rightarrow> 'e + 'b) \<Rightarrow> 'e + 'b" where
  "and_then m f = (case m of Inl e \<Rightarrow> Inl e | Inr x \<Rightarrow> f x)"

lemma and_then_simps [simp]: "and_then (Inl e) f = Inl e" "and_then (Inr x) f = f x"
  by (simp_all add: and_then_def)

lemma and_then_Ok: "and_then m f = Inr y \<longleftrightarrow> (\<exists>x. m = Inr x \<and> f x = Inr y)"
  by (cases m) auto

subsection \<open>Time\<close>

text \<open>
  Instants and durations count nanoseconds. The zero instant \<open>time.Time{}\<close> is \<open>0\<close>, so
  \<open>IsZero\<close> is equality with \<open>0\<close>. The clock is never read inside a definition: every
  operation that calls \<open>time.Now()\<close> takes the instant as an argument.
\<close>

type_synonym time = int
type_synonym duration = int

definition millisecond :: duration where "millisecond = 1000000"
definition second :: duration where "second = 1000 * millisecond"
definition minute :: duration where "minute = 60 * second"
definition hour :: duration where "hour = 60 * minute"

lemmas time_units = millisecond_def second_def minute_def hour_def

subsection \<open>Numbers as text\<close>

text \<open>What \<open>%d\<close> prints.\<close>

definition digit_char :: "nat \<Rightarrow> char" where
  "digit_char n = char_of (48 + n)"

fun nat_text :: "nat \<Rightarrow> string" where
  "nat_text n = (if n < 10 then [digit_char n] else nat_text (n div 10) @ [digit_char (n mod 10)])"

declare nat_text.simps [simp del]

definition int_text :: "int \<Rightarrow> string" where
  "int_text i = (if i < 0 then CHR ''-'' # nat_text (nat (- i)) else nat_text (nat i))"

fun text_value :: "string \<Rightarrow> nat" where
  "text_value s = fold (\<lambda>c v. 10 * v + (of_char c - 48)) s 0"

lemma digit_value: "n < 10 \<Longrightarrow> of_char (digit_char n) - 48 = n"
  by (simp add: digit_char_def)

lemma text_value_nat_text: "text_value (nat_text n) = n"
proof (induction n rule: nat_text.induct)
  case (1 n)
  show ?case
  proof (cases "n < 10")
    case True
    then show ?thesis by (simp add: nat_text.simps [of n] digit_value)
  next
    case False
    then show ?thesis using 1 by (simp add: nat_text.simps [of n] digit_value)
  qed
qed

lemma nat_text_inj [simp]: "nat_text m = nat_text n \<longleftrightarrow> m = n"
  by (metis text_value_nat_text)

lemma of_char_digit: "n < 10 \<Longrightarrow> (of_char (digit_char n) :: nat) = 48 + n"
  by (simp add: digit_char_def)

lemma nat_text_digits: "c \<in> set (nat_text n) \<Longrightarrow> c \<noteq> CHR ''-''"
proof (induction n rule: nat_text.induct)
  case (1 n)
  have d: "digit_char k \<noteq> CHR ''-''" if "k < 10" for k
  proof
    assume "digit_char k = CHR ''-''"
    then have "(of_char (digit_char k) :: nat) = 45" by simp
    then show False using of_char_digit [OF that] by simp
  qed
  have "CHR ''-'' \<noteq> digit_char (n mod 10)" by (rule d [symmetric]) simp
  then show ?case using 1 d by (cases "n < 10") (auto simp: nat_text.simps [of n])
qed

lemma int_text_inj [simp]: "int_text i = int_text j \<longleftrightarrow> i = j"
proof -
  have n: "CHR ''-'' # xs \<noteq> nat_text n" for xs n
    using nat_text_digits [of "CHR ''-''" n] by (metis list.set_intros(1))
  have "nat_text n \<noteq> CHR ''-'' # xs" for xs n using n [of xs n] by simp
  with n show ?thesis by (auto simp: int_text_def)
qed

subsection \<open>Maps\<close>

lemma dom_restrict_insert: "dom (m(k := None)) = dom m - {k}"
  by auto

lemma finite_dom_upd [simp]: "finite (dom (m(k \<mapsto> v))) = finite (dom m)"
  by simp

lemma finite_dom_del: "finite (dom m) \<Longrightarrow> finite (dom (m(k := None)))"
  by (rule finite_subset [of _ "dom m"]) auto

lemma card_dom_upd_new: "finite (dom m) \<Longrightarrow> m k = None \<Longrightarrow> card (dom (m(k \<mapsto> v))) = Suc (card (dom m))"
  by (simp add: domIff)

lemma card_dom_upd_old: "m k = Some w \<Longrightarrow> card (dom (m(k \<mapsto> v))) = card (dom m)"
  by (simp add: domI insert_absorb)

lemma card_dom_del_le: "finite (dom m) \<Longrightarrow> card (dom (m(k := None))) \<le> card (dom m)"
  by (rule card_mono) auto

text \<open>A total over the values of a finite map.\<close>

definition map_sum_of :: "('v \<Rightarrow> 'a::comm_monoid_add) \<Rightarrow> ('k \<rightharpoonup> 'v) \<Rightarrow> 'a" where
  "map_sum_of f m = (\<Sum>k\<in>dom m. f (the (m k)))"

lemma map_sum_of_empty [simp]: "map_sum_of f Map.empty = 0"
  by (simp add: map_sum_of_def)

lemma map_sum_of_new:
  assumes "finite (dom m)" "m k = None"
  shows "map_sum_of f (m(k \<mapsto> v)) = f v + map_sum_of f m"
proof -
  have "(\<Sum>j\<in>dom m. f (the ((m(k \<mapsto> v)) j))) = (\<Sum>j\<in>dom m. f (the (m j)))"
    using assms(2) by (intro sum.cong) auto
  moreover have "k \<notin> dom m" using assms(2) by auto
  ultimately show ?thesis using assms(1) by (simp add: map_sum_of_def)
qed

lemma map_sum_of_old:
  fixes f :: "'v \<Rightarrow> 'a::ab_group_add"
  assumes "finite (dom m)" "m k = Some w"
  shows "map_sum_of f (m(k \<mapsto> v)) = map_sum_of f m - f w + f v"
proof -
  have k: "k \<in> dom m" using assms(2) by auto
  have "(\<Sum>j\<in>dom m - {k}. f (the ((m(k \<mapsto> v)) j))) = (\<Sum>j\<in>dom m - {k}. f (the (m j)))"
    by (intro sum.cong) auto
  then show ?thesis
    using k assms by (simp add: map_sum_of_def insert_absorb sum.remove [OF assms(1) k])
qed

subsection \<open>Association lists updated in place\<close>

text \<open>
  A table whose rows carry a key: \<open>replace_row key r rows\<close> replaces every row with the
  key of \<open>r\<close>, as an SQL \<open>UPDATE\<close> by primary key does.
\<close>

definition row_of :: "('r \<Rightarrow> 'k) \<Rightarrow> 'r list \<Rightarrow> 'k \<Rightarrow> 'r option" where
  "row_of key rows k = find (\<lambda>r. key r = k) rows"

lemma row_of_Nil [simp]: "row_of key [] k = None"
  by (simp add: row_of_def)

lemma row_of_Cons [simp]: "row_of key (r # rs) k = (if key r = k then Some r else row_of key rs k)"
  by (simp add: row_of_def)

lemma row_of_append: "row_of key (rs @ ts) k = (case row_of key rs k of None \<Rightarrow> row_of key ts k | Some r \<Rightarrow> Some r)"
  by (induction rs) auto

lemma row_of_Some_key: "row_of key rs k = Some r \<Longrightarrow> key r = k"
  by (induction rs) (auto split: if_splits)

lemma row_of_Some_set: "row_of key rs k = Some r \<Longrightarrow> r \<in> set rs"
  by (induction rs) (auto split: if_splits)

lemma row_of_None_iff: "row_of key rs k = None \<longleftrightarrow> k \<notin> key ` set rs"
  by (induction rs) auto

lemma row_of_distinct: "distinct (map key rs) \<Longrightarrow> r \<in> set rs \<Longrightarrow> row_of key rs (key r) = Some r"
  by (induction rs) force+

lemma row_of_map_upd:
  assumes "\<And>r. key (f r) = key r"
  shows "row_of key (map f rs) k = map_option f (row_of key rs k)"
  using assms by (induction rs) auto

subsection \<open>Counters of fixed width\<close>

lemma unat_succ: "(x :: 'a::len word) \<noteq> - 1 \<Longrightarrow> unat (x + 1) = Suc (unat x)"
  using unatSuc [of x] by (metis add.commute add_eq_0_iff minus_minus)

lemma unat_succ_less: "(x :: 'a::len word) < y \<Longrightarrow> unat (x + 1) = Suc (unat x)"
  by (rule unat_succ) auto

lemma word_less_succ: "(x :: 'a::len word) < - 1 \<Longrightarrow> x < x + 1"
  by (simp add: word_less_nat_alt unat_succ_less)

lemma word_succ_le: "(x :: 'a::len word) < y \<Longrightarrow> x + 1 \<le> y"
  by (simp add: word_le_nat_alt word_less_nat_alt unat_succ_less [unfolded word_less_nat_alt] Suc_leI)

end
