(* ===== verification/Decimal.thy ===== *)
theory Decimal
  imports Prelude Complex_Main
begin

text \<open>
  Money. The program does all monetary arithmetic with the third-party type
  \<open>decimal.Decimal\<close>, so the decimal type is a parameter of the model: every definition is
  polymorphic in a type \<open>'d\<close> of the class \<open>linordered_idom\<close>, whose operations stand for
  \<open>Add\<close>, \<open>Sub\<close>, \<open>Mul\<close>, \<open>Neg\<close>, \<open>Abs\<close> and the comparisons (exact arithmetic on an
  ordered ring, which is what the decimals of unbounded precision are). The two operations
  that are not ring operations, \<open>Div\<close> (which rounds) and \<open>Mod\<close>, are the fields of
  \<open>dec_lib\<close>; \<open>None\<close> is the library's panic. \<open>Shift\<close> (multiplication by a power of ten)
  is a field as well. What a property relies on of these is a named hypothesis below.
\<close>

record 'd dec_lib =
  dec_div :: "'d \<Rightarrow> 'd \<Rightarrow> 'd option"
  dec_mod :: "'d \<Rightarrow> 'd \<Rightarrow> 'd option"
  dec_shift :: "'d \<Rightarrow> int \<Rightarrow> 'd"

definition from_int :: "int \<Rightarrow> 'd::linordered_idom" where
  "from_int n = of_int n"

text \<open>\<open>Div\<close> and \<open>Mod\<close> panic exactly on a zero divisor.\<close>

definition div_total :: "'d::linordered_idom dec_lib \<Rightarrow> bool" where
  "div_total D \<longleftrightarrow> (\<forall>a b. b \<noteq> 0 \<longrightarrow> dec_div D a b \<noteq> None)"

definition mod_total :: "'d::linordered_idom dec_lib \<Rightarrow> bool" where
  "mod_total D \<longleftrightarrow> (\<forall>a b. b \<noteq> 0 \<longrightarrow> dec_mod D a b \<noteq> None)"

definition div_panics_on_zero :: "'d::linordered_idom dec_lib \<Rightarrow> bool" where
  "div_panics_on_zero D \<longleftrightarrow> (\<forall>a. dec_div D a 0 = None)"

definition mod_panics_on_zero :: "'d::linordered_idom dec_lib \<Rightarrow> bool" where
  "mod_panics_on_zero D \<longleftrightarrow> (\<forall>a. dec_mod D a 0 = None)"

text \<open>The remainder is zero exactly on the multiples of the divisor.\<close>

definition mod_detects_multiples :: "'d::linordered_idom dec_lib \<Rightarrow> bool" where
  "mod_detects_multiples D \<longleftrightarrow>
     (\<forall>a b r. dec_mod D a b = Some r \<longrightarrow> (r = 0 \<longleftrightarrow> (\<exists>k. a = of_int k * b)))"

text \<open>Rounding never changes the sign of a quotient and is monotone.\<close>

definition div_sign :: "'d::linordered_idom dec_lib \<Rightarrow> bool" where
  "div_sign D \<longleftrightarrow> (\<forall>a b q. dec_div D a b = Some q \<longrightarrow> 0 \<le> a \<longrightarrow> 0 < b \<longrightarrow> 0 \<le> q \<and> (a \<le> b \<longrightarrow> q \<le> 1))"

text \<open>A quotient that is representable is exact.\<close>

definition div_exact :: "'d::linordered_idom dec_lib \<Rightarrow> 'd \<Rightarrow> 'd \<Rightarrow> bool" where
  "div_exact D a b \<longleftrightarrow> (\<exists>q. dec_div D a b = Some q \<and> q * b = a)"

text \<open>\<open>Div\<close> rounds to a fixed number of digits, so a quotient is within some \<open>eps\<close> of the exact one.\<close>

definition div_near :: "'d::linordered_idom dec_lib \<Rightarrow> 'd \<Rightarrow> bool" where
  "div_near D eps \<longleftrightarrow> 0 \<le> eps \<and> (\<forall>a b q. dec_div D a b = Some q \<longrightarrow> \<bar>q * b - a\<bar> \<le> eps * \<bar>b\<bar>)"

text \<open>\<open>Shift\<close> moves the decimal point, exactly.\<close>

definition shift_exact :: "'d::linordered_idom dec_lib \<Rightarrow> bool" where
  "shift_exact D \<longleftrightarrow> (\<forall>a n. dec_shift D a (- int n) * 10 ^ n = a)"

lemma div_nearD: "div_near D eps \<Longrightarrow> dec_div D a b = Some q \<Longrightarrow> \<bar>q * b - a\<bar> \<le> eps * \<bar>b\<bar>"
  by (simp add: div_near_def)

lemma div_totalD: "div_total D \<Longrightarrow> b \<noteq> 0 \<Longrightarrow> \<exists>q. dec_div D a b = Some q"
  by (auto simp: div_total_def)

lemma mod_totalD: "mod_total D \<Longrightarrow> b \<noteq> 0 \<Longrightarrow> \<exists>q. dec_mod D a b = Some q"
  by (auto simp: mod_total_def)

lemma div_signD:
  "div_sign D \<Longrightarrow> dec_div D a b = Some q \<Longrightarrow> 0 \<le> a \<Longrightarrow> 0 < b \<Longrightarrow> 0 \<le> q"
  "div_sign D \<Longrightarrow> dec_div D a b = Some q \<Longrightarrow> 0 \<le> a \<Longrightarrow> a \<le> b \<Longrightarrow> 0 < b \<Longrightarrow> q \<le> 1"
  unfolding div_sign_def by blast+

text \<open>
  Two concrete instances, used by the witnesses: exact division on the rationals, and
  truncating division on the integers.
\<close>

definition rat_dec :: "rat dec_lib" where
  "rat_dec =
     \<lparr>dec_div = (\<lambda>a b. if b = 0 then None else Some (a / b)),
      dec_mod = (\<lambda>a b. if b = 0 then None else Some (a - b * of_int \<lfloor>a / b\<rfloor>)),
      dec_shift = (\<lambda>a n. if 0 \<le> n then a * 10 ^ nat n else a / 10 ^ nat (- n))\<rparr>"

definition int_dec :: "int dec_lib" where
  "int_dec =
     \<lparr>dec_div = (\<lambda>a b. if b = 0 then None else Some (a div b)),
      dec_mod = (\<lambda>a b. if b = 0 then None else Some (a mod b)),
      dec_shift = (\<lambda>a n. if 0 \<le> n then a * 10 ^ nat n else a div 10 ^ nat (- n))\<rparr>"

lemma rat_dec_laws [simp]:
  "div_total rat_dec" "mod_total rat_dec" "div_panics_on_zero rat_dec" "mod_panics_on_zero rat_dec"
  by (simp_all add: div_total_def mod_total_def div_panics_on_zero_def mod_panics_on_zero_def rat_dec_def)

lemma rat_dec_sign [simp]: "div_sign rat_dec"
  by (auto simp: div_sign_def rat_dec_def split: if_splits)

lemma rat_dec_near [simp]: "div_near rat_dec 0"
  by (auto simp: div_near_def rat_dec_def split: if_splits)

lemma rat_dec_shift [simp]: "shift_exact rat_dec"
proof -
  have "dec_shift rat_dec a (- int n) * 10 ^ n = a" for a n
    by (cases "n = 0") (simp_all add: rat_dec_def)
  then show ?thesis by (simp add: shift_exact_def)
qed

lemma rat_dec_exact [simp]: "b \<noteq> 0 \<Longrightarrow> div_exact rat_dec a b"
  by (simp add: div_exact_def rat_dec_def)

lemma int_dec_laws [simp]:
  "div_total int_dec" "mod_total int_dec" "div_panics_on_zero int_dec" "mod_panics_on_zero int_dec"
  by (simp_all add: div_total_def mod_total_def div_panics_on_zero_def mod_panics_on_zero_def int_dec_def)

lemma int_dec_multiples [simp]: "mod_detects_multiples int_dec"
proof -
  have "(a mod b = 0) = (\<exists>k. a = k * b)" for a b :: int
    by (metis mod_eq_0_iff_dvd dvd_def mult.commute)
  then show ?thesis
    by (auto simp: mod_detects_multiples_def int_dec_def split: if_splits)
qed

end
