(* ===== verification/Entity.thy ===== *)
theory Entity
  imports Decimal
begin

text \<open>
  The domain entities of \<open>internal/domain/entity\<close>: orders, positions, symbols, balances,
  strategies and the runtime status. Go's string enumerations (\<open>type OrderStatus string\<close>)
  can hold any string, so each is a datatype with one constructor per named constant and
  one for any other string. Optional instants (\<open>*time.Time\<close>) are \<open>time option\<close>.
\<close>

subsection \<open>Orders (order.go)\<close>

datatype order_side = OrderSideBuy | OrderSideSell | OrderSideOther string
datatype order_type = OrderTypeLimit | OrderTypeMarket | OrderTypeOther string
datatype order_status =
    OrderStatusPending | OrderStatusSubmitted | OrderStatusPartial
  | OrderStatusFilled | OrderStatusCanceled | OrderStatusRejected | OrderStatusOther string
datatype time_in_force = TimeInForceGTC | TimeInForceIOC | TimeInForceFOK | TimeInForceOther string

record 'd order =
  o_ID :: string
  o_ClientOrderID :: string
  o_ExchangeOrderID :: string
  o_StrategyID :: string
  o_Symbol :: string
  o_Side :: order_side
  o_Type :: order_type
  o_Status :: order_status
  o_TimeInForce :: time_in_force
  o_Quantity :: 'd
  o_Price :: 'd
  o_FilledQty :: 'd
  o_RemainingQty :: 'd
  o_AvgFillPrice :: 'd
  o_CreatedAtUTC :: time
  o_UpdatedAtUTC :: time
  o_SubmittedAtUTC :: "time option"
  o_FilledAtUTC :: "time option"

definition IsTerminal :: "'d order \<Rightarrow> bool" where [go_defs]:
  "IsTerminal ord \<longleftrightarrow> o_Status ord = OrderStatusFilled \<or>
     o_Status ord = OrderStatusCanceled \<or> o_Status ord = OrderStatusRejected"

definition IsPartiallyFilled :: "'d::linordered_idom order \<Rightarrow> bool" where [go_defs]:
  "IsPartiallyFilled ord \<longleftrightarrow> o_Status ord = OrderStatusPartial \<and> o_FilledQty ord > 0"

definition IsPending :: "'d order \<Rightarrow> bool" where [go_defs]:
  "IsPending ord \<longleftrightarrow> o_Status ord = OrderStatusPending"

definition IsActive :: "'d order \<Rightarrow> bool" where [go_defs]:
  "IsActive ord \<longleftrightarrow> o_Status ord = OrderStatusSubmitted \<or> o_Status ord = OrderStatusPartial"

subsection \<open>Positions (position.go)\<close>

datatype position_side = PositionSideLong | PositionSideShort | PositionSideFlat | PositionSideOther string

record 'd position =
  p_ID :: string
  p_StrategyID :: string
  p_Symbol :: string
  p_Side :: position_side
  p_Quantity :: 'd
  p_EntryPrice :: 'd
  p_CurrentPrice :: 'd
  p_UnrealizedPnL :: 'd
  p_RealizedPnL :: 'd
  p_OpenedAtUTC :: time
  p_UpdatedAtUTC :: time
  p_ClosedAtUTC :: "time option"

definition IsFlat :: "'d::linordered_idom position \<Rightarrow> bool" where [go_defs]:
  "IsFlat p \<longleftrightarrow> p_Quantity p = 0 \<or> p_Side p = PositionSideFlat"

definition IsOpen :: "'d::linordered_idom position \<Rightarrow> bool" where [go_defs]:
  "IsOpen p \<longleftrightarrow> \<not> IsFlat p"

definition UpdateUnrealizedPnL :: "'d::linordered_idom position \<Rightarrow> 'd \<Rightarrow> time \<Rightarrow> 'd position" where
  "UpdateUnrealizedPnL p currentPrice now =
     (let priceDiff = currentPrice - p_EntryPrice p;
          priceDiff' = (if p_Side p = PositionSideShort then - priceDiff else priceDiff)
      in p\<lparr>p_CurrentPrice := currentPrice,
           p_UnrealizedPnL := priceDiff' * p_Quantity p,
           p_UpdatedAtUTC := now\<rparr>)"

definition TotalPnL :: "'d::linordered_idom position \<Rightarrow> 'd" where
  "TotalPnL p = p_RealizedPnL p + p_UnrealizedPnL p"

subsection \<open>Symbols (symbol.go)\<close>

datatype symbol_status =
    SymbolStatusTrading | SymbolStatusMaintenance | SymbolStatusSuspended | SymbolStatusDelisted
  | SymbolStatusOther string

record 'd symbol =
  s_Name :: string
  s_BaseCurrency :: string
  s_QuoteCurrency :: string
  s_Status :: symbol_status
  s_MinOrderQty :: 'd
  s_MaxOrderQty :: 'd
  s_MinPrice :: 'd
  s_MaxPrice :: 'd
  s_TickSize :: 'd
  s_StepSize :: 'd
  s_MinNotional :: 'd
  s_MakerFee :: 'd
  s_TakerFee :: 'd
  s_UpdatedAtUTC :: time

definition IsTrading :: "'d symbol \<Rightarrow> bool" where [go_defs]:
  "IsTrading s \<longleftrightarrow> s_Status s = SymbolStatusTrading"

definition IsMaintenance :: "'d symbol \<Rightarrow> bool" where [go_defs]:
  "IsMaintenance s \<longleftrightarrow> s_Status s = SymbolStatusMaintenance"

definition IsSuspended :: "'d symbol \<Rightarrow> bool" where [go_defs]:
  "IsSuspended s \<longleftrightarrow> s_Status s = SymbolStatusSuspended"

definition IsDelisted :: "'d symbol \<Rightarrow> bool" where [go_defs]:
  "IsDelisted s \<longleftrightarrow> s_Status s = SymbolStatusDelisted"

definition BlocksNewEntries :: "'d symbol \<Rightarrow> bool" where [go_defs]:
  "BlocksNewEntries s \<longleftrightarrow> s_Status s \<noteq> SymbolStatusTrading"

definition RequiresForcedClose :: "'d symbol \<Rightarrow> bool" where [go_defs]:
  "RequiresForcedClose s \<longleftrightarrow> s_Status s = SymbolStatusDelisted"

text \<open>\<open>None\<close> is the panic of \<open>Mod\<close> on a zero step; the range check comes before it.\<close>

definition ValidateQuantity :: "'d::linordered_idom dec_lib \<Rightarrow> 'd symbol \<Rightarrow> 'd \<Rightarrow> bool option" where
  "ValidateQuantity D s qty =
     (if qty < s_MinOrderQty s \<or> qty > s_MaxOrderQty s then Some False
      else map_option (\<lambda>remainder. remainder = 0) (dec_mod D qty (s_StepSize s)))"

definition ValidatePrice :: "'d::linordered_idom dec_lib \<Rightarrow> 'd symbol \<Rightarrow> 'd \<Rightarrow> bool option" where
  "ValidatePrice D s price =
     (if price < s_MinPrice s \<or> price > s_MaxPrice s then Some False
      else map_option (\<lambda>remainder. remainder = 0) (dec_mod D price (s_TickSize s)))"

definition ValidateNotional :: "'d::linordered_idom symbol \<Rightarrow> 'd \<Rightarrow> 'd \<Rightarrow> bool" where
  "ValidateNotional s qty price \<longleftrightarrow> qty * price \<ge> s_MinNotional s"

subsection \<open>Balances (balance.go)\<close>

record 'd balance =
  b_Asset :: string
  b_Total :: 'd
  b_Available :: 'd
  b_Locked :: 'd
  b_UpdatedAtUTC :: time

definition balance_IsZero :: "'d::linordered_idom balance \<Rightarrow> bool" where [go_defs]:
  "balance_IsZero b \<longleftrightarrow> b_Total b = 0 \<and> b_Available b = 0 \<and> b_Locked b = 0"

definition HasSufficientAvailable :: "'d::linordered_idom balance \<Rightarrow> 'd \<Rightarrow> bool" where [go_defs]:
  "HasSufficientAvailable b required \<longleftrightarrow> b_Available b \<ge> required"

record 'd account_balance =
  ab_Balances :: "'d balance list"
  ab_UpdatedAtUTC :: time

text \<open>The first balance of the asset, in slice order.\<close>

fun first_balance :: "'d balance list \<Rightarrow> string \<Rightarrow> 'd balance option" where
  "first_balance [] asset = None"
| "first_balance (b # bs) asset = (if b_Asset b = asset then Some b else first_balance bs asset)"

definition GetBalance :: "'d account_balance \<Rightarrow> string \<Rightarrow> 'd balance option" where
  "GetBalance ab asset = first_balance (ab_Balances ab) asset"

fun equity_loop :: "(string \<rightharpoonup> 'd) \<Rightarrow> 'd::linordered_idom balance list \<Rightarrow> 'd \<Rightarrow> 'd" where
  "equity_loop prices [] acc = acc"
| "equity_loop prices (bal # bals) acc =
     (if b_Asset bal = ''USD'' \<or> b_Asset bal = ''USDT'' then equity_loop prices bals (acc + b_Total bal)
      else case prices (b_Asset bal) of
             Some price \<Rightarrow> equity_loop prices bals (acc + b_Total bal * price)
           | None \<Rightarrow> equity_loop prices bals acc)"

definition TotalEquityUSD :: "'d::linordered_idom account_balance \<Rightarrow> (string \<rightharpoonup> 'd) \<Rightarrow> 'd" where
  "TotalEquityUSD ab prices = equity_loop prices (ab_Balances ab) 0"

subsection \<open>Strategies (strategy.go)\<close>

datatype strategy_status =
    StrategyStatusIdle | StrategyStatusActive | StrategyStatusPaused | StrategyStatusStopped
  | StrategyStatusOther string
datatype strategy_type = StrategyTypeBacktest | StrategyTypePaper | StrategyTypeLive | StrategyTypeOther string

record 'd strategy =
  st_ID :: string
  st_Name :: string
  st_Type :: strategy_type
  st_Status :: strategy_status
  st_Symbol :: string
  st_MaxPositionSize :: 'd
  st_MaxDailyLoss :: 'd
  st_CurrentPnL :: 'd
  st_DailyPnL :: 'd
  st_TotalTrades :: int
  st_WinningTrades :: int
  st_LosingTrades :: int
  st_CreatedAtUTC :: time
  st_UpdatedAtUTC :: time
  st_StartedAtUTC :: "time option"
  st_StoppedAtUTC :: "time option"

definition strategy_IsActive :: "'d strategy \<Rightarrow> bool" where [go_defs]:
  "strategy_IsActive s \<longleftrightarrow> st_Status s = StrategyStatusActive"

definition strategy_IsPaused :: "'d strategy \<Rightarrow> bool" where [go_defs]:
  "strategy_IsPaused s \<longleftrightarrow> st_Status s = StrategyStatusPaused"

definition strategy_IsStopped :: "'d strategy \<Rightarrow> bool" where [go_defs]:
  "strategy_IsStopped s \<longleftrightarrow> st_Status s = StrategyStatusStopped"

definition CanTrade :: "'d strategy \<Rightarrow> bool" where [go_defs]:
  "CanTrade s \<longleftrightarrow> st_Status s = StrategyStatusActive"

definition HasReachedDailyLossLimit :: "'d::linordered_idom strategy \<Rightarrow> bool" where
  "HasReachedDailyLossLimit s =
     (if st_MaxDailyLoss s = 0 then False else st_DailyPnL s \<le> - st_MaxDailyLoss s)"

definition WinRate :: "'d::linordered_idom dec_lib \<Rightarrow> 'd strategy \<Rightarrow> 'd option" where
  "WinRate D s =
     (if st_TotalTrades s = 0 then Some 0
      else map_option (\<lambda>q. q * from_int 100)
             (dec_div D (from_int (st_WinningTrades s)) (from_int (st_TotalTrades s))))"

definition UpdatePnL :: "'d::linordered_idom strategy \<Rightarrow> 'd \<Rightarrow> time \<Rightarrow> 'd strategy" where
  "UpdatePnL s tradePnL now =
     (let s1 = s\<lparr>st_CurrentPnL := st_CurrentPnL s + tradePnL,
                 st_DailyPnL := st_DailyPnL s + tradePnL,
                 st_TotalTrades := st_TotalTrades s + 1\<rparr>;
          s2 = (if tradePnL > 0 then s1\<lparr>st_WinningTrades := st_WinningTrades s1 + 1\<rparr>
                else if tradePnL < 0 then s1\<lparr>st_LosingTrades := st_LosingTrades s1 + 1\<rparr>
                else s1)
      in s2\<lparr>st_UpdatedAtUTC := now\<rparr>)"

definition ResetDailyPnL :: "'d::linordered_idom strategy \<Rightarrow> time \<Rightarrow> 'd strategy" where
  "ResetDailyPnL s now = s\<lparr>st_DailyPnL := 0, st_UpdatedAtUTC := now\<rparr>"

subsection \<open>Runtime status (agent.go)\<close>

datatype run_mode =
    RunModeIdle | RunModeScanning | RunModePaperTrading | RunModeBacktesting
  | RunModeOptimizing | RunModeLiveTrading | RunModeHalted | RunModeOther string
datatype connectivity_state =
    ConnectivityStateConnected | ConnectivityStateReconnecting | ConnectivityStateNetworkWait
  | ConnectivityStateOther string
datatype license_state =
    LicenseStateDemo | LicenseStateLicensed | LicenseStateGrace | LicenseStateRiskOnly
  | LicenseStateUnlicensed | LicenseStateOther string
datatype integrity_state = IntegrityStateTrusted | IntegrityStateDegraded | IntegrityStateOther string

text \<open>The strings behind the constants, and the human-readable form.\<close>

fun run_mode_string :: "run_mode \<Rightarrow> string" where
  "run_mode_string RunModeIdle = ''idle''"
| "run_mode_string RunModeScanning = ''scanning''"
| "run_mode_string RunModePaperTrading = ''paper_trading''"
| "run_mode_string RunModeBacktesting = ''backtesting''"
| "run_mode_string RunModeOptimizing = ''optimizing''"
| "run_mode_string RunModeLiveTrading = ''live_trading''"
| "run_mode_string RunModeHalted = ''halted''"
| "run_mode_string (RunModeOther s) = s"

fun Display :: "run_mode \<Rightarrow> string" where
  "Display RunModeIdle = ''Idle''"
| "Display RunModeScanning = ''Scanning''"
| "Display RunModePaperTrading = ''Paper Trading''"
| "Display RunModeBacktesting = ''Backtesting''"
| "Display RunModeOptimizing = ''Optimizing''"
| "Display RunModeLiveTrading = ''Live Trading''"
| "Display RunModeHalted = ''Halted''"
| "Display (RunModeOther s) = s"

record status =
  Mode :: run_mode
  Connectivity :: connectivity_state
  License :: license_state
  Integrity :: integrity_state
  NTPDrift :: duration
  NewEntriesBlocked :: bool
  HaltReason :: string
  HaltedAtUTC :: "time option"
  Banner :: string
  AnalyticsDegraded :: bool
  LastUpdatedAtUTC :: time

subsection \<open>Routing (router.go)\<close>

datatype routing_mode = RoutingModeLive | RoutingModePaper | RoutingModeOther string

record router_config =
  rc_Mode :: routing_mode
  rc_EnableIdempotency :: bool
  rc_TimeoutSeconds :: int
  rc_MaxInFlightOrders :: int
  rc_EnableStatusFallback :: bool

definition DefaultRouterConfig :: router_config where
  "DefaultRouterConfig =
     \<lparr>rc_Mode = RoutingModePaper, rc_EnableIdempotency = True, rc_TimeoutSeconds = 30,
      rc_MaxInFlightOrders = 100, rc_EnableStatusFallback = True\<rparr>"

subsection \<open>Facts the components share\<close>

lemma status_classes_disjoint:
  "IsPending ord \<Longrightarrow> \<not> IsActive ord" "IsPending ord \<Longrightarrow> \<not> IsTerminal ord"
  "IsActive ord \<Longrightarrow> \<not> IsTerminal ord"
  by (auto simp: go_defs)

lemma ValidateQuantity_True:
  "ValidateQuantity D s q = Some True \<Longrightarrow>
     s_MinOrderQty s \<le> q \<and> q \<le> s_MaxOrderQty s \<and> dec_mod D q (s_StepSize s) = Some 0"
  by (auto simp: ValidateQuantity_def split: if_splits)

lemma ValidatePrice_True:
  "ValidatePrice D s p = Some True \<Longrightarrow>
     s_MinPrice s \<le> p \<and> p \<le> s_MaxPrice s \<and> dec_mod D p (s_TickSize s) = Some 0"
  by (auto simp: ValidatePrice_def split: if_splits)

lemma ValidateQuantity_total: "mod_total D \<Longrightarrow> s_StepSize s \<noteq> 0 \<Longrightarrow> \<exists>b. ValidateQuantity D s q = Some b"
  by (auto simp: ValidateQuantity_def dest: mod_totalD)

lemma ValidatePrice_total: "mod_total D \<Longrightarrow> s_TickSize s \<noteq> 0 \<Longrightarrow> \<exists>b. ValidatePrice D s q = Some b"
  by (auto simp: ValidatePrice_def dest: mod_totalD)

lemma GetBalance_asset: "GetBalance ab asset = Some b \<Longrightarrow> b_Asset b = asset \<and> b \<in> set (ab_Balances ab)"
proof -
  have "first_balance bs asset = Some b \<Longrightarrow> b_Asset b = asset \<and> b \<in> set bs" for bs
    by (induction bs) (auto split: if_splits)
  then show "GetBalance ab asset = Some b \<Longrightarrow> ?thesis" by (simp add: GetBalance_def)
qed

text \<open>The equity loop is a sum over the balances of their value in USD.\<close>

definition usd_value :: "(string \<rightharpoonup> 'd) \<Rightarrow> 'd::linordered_idom balance \<Rightarrow> 'd" where
  "usd_value prices bal =
     (if b_Asset bal \<in> {''USD'', ''USDT''} then b_Total bal
      else case prices (b_Asset bal) of Some price \<Rightarrow> b_Total bal * price | None \<Rightarrow> 0)"

lemma equity_loop_sum: "equity_loop prices bals acc = acc + sum_list (map (usd_value prices) bals)"
  by (induction bals arbitrary: acc) (auto simp: usd_value_def split: option.splits)

lemma TotalEquityUSD_sum: "TotalEquityUSD ab prices = sum_list (map (usd_value prices) (ab_Balances ab))"
  by (simp add: TotalEquityUSD_def equity_loop_sum)

lemma UpdatePnL_trades:
  assumes "st_WinningTrades s + st_LosingTrades s \<le> st_TotalTrades s"
  shows "st_WinningTrades (UpdatePnL s t now) + st_LosingTrades (UpdatePnL s t now) \<le> st_TotalTrades (UpdatePnL s t now)"
  using assms by (simp add: UpdatePnL_def Let_def)

end
