(* ===== verification/Risk.thy ===== *)
theory Risk
  imports Entity
begin

text \<open>
  The pre-trade risk engine of \<open>internal/domain/risk/engine.go\<close>. \<open>ValidateOrder\<close> is the
  chain of checks in the order the code makes them; it also returns the risk events the code
  hands to \<open>PublishAsync\<close>. A zero tick or step size makes \<open>Mod\<close> panic, so the result
  has a panic outcome. The engine's mutex only serialises callers and is not state.
\<close>

datatype risk_error =
    ErrPositionLimitExceeded | ErrDailyLossLimitExceeded | ErrInsufficientBalance
  | ErrSymbolNotTrading | ErrInvalidOrderQuantity | ErrInvalidOrderPrice | ErrInvalidNotional

datatype close_error = CannotCloseFlat | SideNotOpposite | QuantityExceedsPosition | CloseInvalidQuantity

datatype 'd risk_event =
    RiskViolationEvent (re_strategy: string) (re_kind: string) (re_current: 'd) (re_limit: 'd) (re_action: string)
  | RiskWarningEvent (re_strategy: string) (re_kind: string) (re_current: 'd) (re_limit: 'd) (re_pct: 'd)

definition publishRiskViolation ::
  "bool \<Rightarrow> string \<Rightarrow> string \<Rightarrow> 'd \<Rightarrow> 'd \<Rightarrow> string \<Rightarrow> 'd risk_event list" where
  "publishRiskViolation has_publisher strategyID violationType cur bound action =
     (if has_publisher then [RiskViolationEvent strategyID violationType cur bound action] else [])"

definition publishRiskWarning ::
  "bool \<Rightarrow> string \<Rightarrow> string \<Rightarrow> 'd \<Rightarrow> 'd \<Rightarrow> 'd \<Rightarrow> 'd risk_event list" where
  "publishRiskWarning has_publisher strategyID warningType cur bound pct =
     (if has_publisher then [RiskWarningEvent strategyID warningType cur bound pct] else [])"

text \<open>The price used for the notional and balance checks.\<close>

definition check_price :: "'d::linordered_idom order \<Rightarrow> 'd symbol \<Rightarrow> 'd position option \<Rightarrow> 'd" where
  "check_price ord smb currentPosition =
     (if o_Type ord = OrderTypeMarket then
        (case currentPosition of
           Some p \<Rightarrow> if p_CurrentPrice p \<noteq> 0 then p_CurrentPrice p else s_MaxPrice smb
         | None \<Rightarrow> s_MaxPrice smb)
      else o_Price ord)"

text \<open>The position size after the order, as the code estimates it.\<close>

definition new_position_size :: "'d::linordered_idom order \<Rightarrow> 'd position option \<Rightarrow> 'd" where
  "new_position_size ord currentPosition =
     (case currentPosition of
        None \<Rightarrow> o_Quantity ord
      | Some p \<Rightarrow>
          if \<not> IsFlat p \<and>
             ((o_Side ord = OrderSideBuy \<and> p_Side p = PositionSideLong) \<or>
              (o_Side ord = OrderSideSell \<and> p_Side p = PositionSideShort))
          then p_Quantity p + o_Quantity ord else o_Quantity ord)"

definition loss_warning ::
  "'d::linordered_idom dec_lib \<Rightarrow> bool \<Rightarrow> 'd strategy \<Rightarrow> 'd risk_event list option" where
  "loss_warning D has_publisher strat =
     (if st_MaxDailyLoss strat = 0 then Some []
      else map_option
        (\<lambda>threshold. if st_DailyPnL strat \<le> - threshold
           then publishRiskWarning has_publisher (st_ID strat) ''daily_loss_approaching''
                  (st_DailyPnL strat) (st_MaxDailyLoss strat) (from_int 80)
           else [])
        (dec_div D (st_MaxDailyLoss strat * from_int 8) (from_int 10)))"

definition ValidateOrder ::
  "'d::linordered_idom dec_lib \<Rightarrow> bool \<Rightarrow> 'd order \<Rightarrow> 'd strategy \<Rightarrow> 'd symbol \<Rightarrow>
   'd balance option \<Rightarrow> 'd position option \<Rightarrow> (risk_error \<times> 'd risk_event list, 'd risk_event list) outcome" where
  "ValidateOrder D has_publisher ord strat smb bal currentPosition =
     (if \<not> IsTrading smb then Fail (ErrSymbolNotTrading, []) else
      or_panic (ValidateQuantity D smb (o_Quantity ord)) (\<lambda>qty_ok.
      if \<not> qty_ok then Fail (ErrInvalidOrderQuantity, []) else
      or_panic (if o_Type ord = OrderTypeLimit then ValidatePrice D smb (o_Price ord) else Some True) (\<lambda>price_ok.
      if \<not> price_ok then Fail (ErrInvalidOrderPrice, []) else
      let price = check_price ord smb currentPosition in
      if \<not> ValidateNotional smb (o_Quantity ord) price then Fail (ErrInvalidNotional, [])
      else if HasReachedDailyLossLimit strat then
        Fail (ErrDailyLossLimitExceeded,
          publishRiskViolation has_publisher (st_ID strat) ''daily_loss_limit''
            (st_DailyPnL strat) (st_MaxDailyLoss strat) ''block_new_entries'')
      else
      let size = new_position_size ord currentPosition in
      if st_MaxPositionSize strat \<noteq> 0 \<and> size > st_MaxPositionSize strat then
        Fail (ErrPositionLimitExceeded,
          publishRiskViolation has_publisher (st_ID strat) ''position_size_limit''
            size (st_MaxPositionSize strat) ''reject_order'')
      else
      let requiredBalance = o_Quantity ord * price in
      if (case bal of None \<Rightarrow> False | Some b \<Rightarrow> \<not> HasSufficientAvailable b requiredBalance)
      then Fail (ErrInsufficientBalance, [])
      else or_panic (loss_warning D has_publisher strat) Return)))"

definition ValidatePositionClose ::
  "'d::linordered_idom dec_lib \<Rightarrow> 'd order \<Rightarrow> 'd position \<Rightarrow> 'd symbol \<Rightarrow> (close_error, unit) outcome" where
  "ValidatePositionClose D ord pos smb =
     (if IsFlat pos then Fail CannotCloseFlat
      else if (p_Side pos = PositionSideLong \<and> o_Side ord \<noteq> OrderSideSell) \<or>
              (p_Side pos = PositionSideShort \<and> o_Side ord \<noteq> OrderSideBuy) then Fail SideNotOpposite
      else if o_Quantity ord > p_Quantity pos then Fail QuantityExceedsPosition
      else or_panic (ValidateQuantity D smb (o_Quantity ord))
             (\<lambda>ok. if \<not> ok then Fail CloseInvalidQuantity else Return ()))"

definition ShouldForceClose :: "'d symbol \<Rightarrow> bool" where
  "ShouldForceClose smb = RequiresForcedClose smb"

definition ShouldBlockNewEntries :: "'d::linordered_idom strategy \<Rightarrow> 'd symbol \<Rightarrow> bool" where
  "ShouldBlockNewEntries strat smb \<longleftrightarrow> BlocksNewEntries smb \<or> HasReachedDailyLossLimit strat"

subsection \<open>The abstract risk policy\<close>

text \<open>What an accepted order satisfies, stated without the order of the checks.\<close>

definition within_risk_limits ::
  "'d::linordered_idom dec_lib \<Rightarrow> 'd order \<Rightarrow> 'd strategy \<Rightarrow> 'd symbol \<Rightarrow> 'd balance option \<Rightarrow> 'd position option \<Rightarrow> bool" where
  "within_risk_limits D ord strat smb bal pos \<longleftrightarrow>
     \<not> ShouldBlockNewEntries strat smb
   \<and> ValidateQuantity D smb (o_Quantity ord) = Some True
   \<and> (o_Type ord = OrderTypeLimit \<longrightarrow> ValidatePrice D smb (o_Price ord) = Some True)
   \<and> ValidateNotional smb (o_Quantity ord) (check_price ord smb pos)
   \<and> (st_MaxPositionSize strat = 0 \<or> new_position_size ord pos \<le> st_MaxPositionSize strat)
   \<and> (\<forall>b. bal = Some b \<longrightarrow> o_Quantity ord * check_price ord smb pos \<le> b_Available b)"

lemma loss_warning_total: "div_total D \<Longrightarrow> \<exists>evs. loss_warning D pub strat = Some evs"
  using div_totalD [of D 10] by (auto simp: loss_warning_def from_int_def)

lemma ValidateOrder_Return_imp:
  assumes "ValidateOrder D pub ord strat smb bal pos = Return evs"
  shows "within_risk_limits D ord strat smb bal pos \<and> loss_warning D pub strat = Some evs"
  using assms
  by (auto simp: ValidateOrder_def within_risk_limits_def ShouldBlockNewEntries_def Let_def go_defs
      split: if_splits option.splits)

lemma ValidateOrder_within:
  assumes "within_risk_limits D ord strat smb bal pos"
  shows "ValidateOrder D pub ord strat smb bal pos = or_panic (loss_warning D pub strat) Return"
  using assms
  by (auto simp: ValidateOrder_def within_risk_limits_def ShouldBlockNewEntries_def Let_def go_defs
      split: option.splits)

lemma ValidateOrder_no_panic:
  assumes "mod_total D" "div_total D" "s_StepSize smb \<noteq> 0" "s_TickSize smb \<noteq> 0"
  shows "ValidateOrder D pub ord strat smb bal pos \<noteq> Panic"
proof -
  obtain q where q: "ValidateQuantity D smb (o_Quantity ord) = Some q"
    using ValidateQuantity_total assms by blast
  obtain p where p: "ValidatePrice D smb (o_Price ord) = Some p"
    using ValidatePrice_total assms by blast
  obtain w where w: "loss_warning D pub strat = Some w"
    using loss_warning_total assms by blast
  show ?thesis
    by (simp add: ValidateOrder_def q p w Let_def)
qed

text \<open>An accepted order never publishes a violation; a rejected one never a warning.\<close>

lemma loss_warning_events:
  "loss_warning D pub strat = Some evs \<Longrightarrow> ev \<in> set evs \<Longrightarrow>
     pub \<and> ev = RiskWarningEvent (st_ID strat) ''daily_loss_approaching'' (st_DailyPnL strat) (st_MaxDailyLoss strat) (from_int 80)"
  by (auto simp: loss_warning_def publishRiskWarning_def split: if_splits)

subsection \<open>Exposure\<close>

text \<open>The signed size of a position, and the change a fully filled order makes to it.\<close>

definition signed_size :: "'d::linordered_idom position option \<Rightarrow> 'd" where
  "signed_size pos =
     (case pos of
        None \<Rightarrow> 0
      | Some p \<Rightarrow> (if p_Side p = PositionSideLong then p_Quantity p
                  else if p_Side p = PositionSideShort then - p_Quantity p else 0))"

definition signed_order :: "'d::linordered_idom order \<Rightarrow> 'd" where
  "signed_order ord =
     (if o_Side ord = OrderSideBuy then o_Quantity ord
      else if o_Side ord = OrderSideSell then - o_Quantity ord else 0)"

lemma new_size_bounds_exposure:
  assumes "0 \<le> o_Quantity ord" "\<And>p. pos = Some p \<Longrightarrow> 0 \<le> p_Quantity p"
    and "\<bar>signed_size pos\<bar> \<le> m" "new_position_size ord pos \<le> m"
  shows "\<bar>signed_size pos + signed_order ord\<bar> \<le> m"
  using assms
  by (cases pos) (auto simp: signed_size_def signed_order_def new_position_size_def IsFlat_def split: if_splits)

subsection \<open>Properties\<close>

text \<open>C1: What an accepted order guarantees. If \<open>ValidateOrder\<close> returns no error, the symbol is
  trading, the quantity is within the symbol's bounds and a multiple of its step, the price of a
  limit order is within bounds and a multiple of the tick, the notional reaches the minimum, the
  strategy is above its daily loss limit, the position estimate is within the strategy's limit
  and the given balance covers the order's cost.\<close>

theorem accepted_order_guarantees:
  fixes D :: "'d::linordered_idom dec_lib"
  assumes "ValidateOrder D pub ord strat smb bal pos = Return evs" and "mod_detects_multiples D"
  shows "IsTrading smb
    \<and> s_MinOrderQty smb \<le> o_Quantity ord \<and> o_Quantity ord \<le> s_MaxOrderQty smb
    \<and> (\<exists>k. o_Quantity ord = of_int k * s_StepSize smb)
    \<and> (o_Type ord = OrderTypeLimit \<longrightarrow> s_MinPrice smb \<le> o_Price ord \<and> o_Price ord \<le> s_MaxPrice smb
         \<and> (\<exists>k. o_Price ord = of_int k * s_TickSize smb))
    \<and> s_MinNotional smb \<le> o_Quantity ord * check_price ord smb pos
    \<and> (st_MaxDailyLoss strat \<noteq> 0 \<longrightarrow> - st_MaxDailyLoss strat < st_DailyPnL strat)
    \<and> (st_MaxPositionSize strat \<noteq> 0 \<longrightarrow> new_position_size ord pos \<le> st_MaxPositionSize strat)
    \<and> (\<forall>b. bal = Some b \<longrightarrow> o_Quantity ord * check_price ord smb pos \<le> b_Available b)"
proof -
  have w: "within_risk_limits D ord strat smb bal pos"
    using ValidateOrder_Return_imp [OF assms(1)] by simp
  have multiple: "dec_mod D a b = Some 0 \<Longrightarrow> \<exists>k. a = of_int k * b" for a b
    using assms(2) unfolding mod_detects_multiples_def by blast
  from w show ?thesis
    by (auto simp: within_risk_limits_def ShouldBlockNewEntries_def HasReachedDailyLossLimit_def
        ValidateNotional_def go_defs dest!: ValidateQuantity_True ValidatePrice_True
        intro: multiple split: if_splits)
qed

definition sample_symbol :: "int symbol" where
  "sample_symbol =
     \<lparr>s_Name = ''BTCUSDT'', s_BaseCurrency = ''BTC'', s_QuoteCurrency = ''USDT'',
      s_Status = SymbolStatusTrading, s_MinOrderQty = 1, s_MaxOrderQty = 100, s_MinPrice = 1,
      s_MaxPrice = 1000, s_TickSize = 5, s_StepSize = 2, s_MinNotional = 10, s_MakerFee = 0,
      s_TakerFee = 0, s_UpdatedAtUTC = 0\<rparr>"

definition sample_strategy :: "int strategy" where
  "sample_strategy =
     \<lparr>st_ID = ''s1'', st_Name = ''n'', st_Type = StrategyTypeLive, st_Status = StrategyStatusActive,
      st_Symbol = ''BTCUSDT'', st_MaxPositionSize = 10, st_MaxDailyLoss = 100, st_CurrentPnL = 0,
      st_DailyPnL = -80, st_TotalTrades = 0, st_WinningTrades = 0, st_LosingTrades = 0,
      st_CreatedAtUTC = 0, st_UpdatedAtUTC = 0, st_StartedAtUTC = None, st_StoppedAtUTC = None\<rparr>"

definition sample_order :: "int order" where
  "sample_order =
     \<lparr>o_ID = ''o1'', o_ClientOrderID = ''c1'', o_ExchangeOrderID = [], o_StrategyID = ''s1'',
      o_Symbol = ''BTCUSDT'', o_Side = OrderSideBuy, o_Type = OrderTypeLimit,
      o_Status = OrderStatusPending, o_TimeInForce = TimeInForceGTC, o_Quantity = 4, o_Price = 50,
      o_FilledQty = 0, o_RemainingQty = 4, o_AvgFillPrice = 0, o_CreatedAtUTC = 0,
      o_UpdatedAtUTC = 0, o_SubmittedAtUTC = None, o_FilledAtUTC = None\<rparr>"

lemmas samples = sample_symbol_def sample_strategy_def sample_order_def

lemma sample_accepted:
  "ValidateOrder int_dec True sample_order sample_strategy sample_symbol None None =
     Return [RiskWarningEvent ''s1'' ''daily_loss_approaching'' (-80) 100 80]"
  by (simp add: ValidateOrder_def samples go_defs ValidateQuantity_def ValidatePrice_def int_dec_def
      check_price_def ValidateNotional_def HasReachedDailyLossLimit_def new_position_size_def Let_def
      loss_warning_def publishRiskWarning_def from_int_def)

theorem accepted_order_guarantees_witness:
  "IsTrading sample_symbol \<and> (\<exists>k. o_Quantity sample_order = of_int k * s_StepSize sample_symbol)"
  using accepted_order_guarantees [OF sample_accepted int_dec_multiples] by blast

text \<open>The checks are complete and total. For a symbol with non-zero step and tick, and a
  decimal library whose \<open>Div\<close> and \<open>Mod\<close> only panic on zero divisors, \<open>ValidateOrder\<close> does not
  panic, and it accepts exactly the orders within the risk limits; the events of an accepted
  order are at most one warning, published exactly when there is a publisher and the daily loss
  has reached the 80\% threshold.\<close>

theorem ValidateOrder_decides:
  fixes D :: "'d::linordered_idom dec_lib"
  assumes "mod_total D" "div_total D" "s_StepSize smb \<noteq> 0" "s_TickSize smb \<noteq> 0"
  shows "ValidateOrder D pub ord strat smb bal pos \<noteq> Panic
    \<and> ((\<exists>evs. ValidateOrder D pub ord strat smb bal pos = Return evs) \<longleftrightarrow> within_risk_limits D ord strat smb bal pos)
    \<and> (\<forall>evs. ValidateOrder D pub ord strat smb bal pos = Return evs \<longrightarrow>
         evs = (if pub \<and> st_MaxDailyLoss strat \<noteq> 0 \<and>
                   (\<exists>t. dec_div D (st_MaxDailyLoss strat * 8) 10 = Some t \<and> st_DailyPnL strat \<le> - t)
                then [RiskWarningEvent (st_ID strat) ''daily_loss_approaching''
                        (st_DailyPnL strat) (st_MaxDailyLoss strat) 80]
                else []))"
proof -
  obtain w where w: "loss_warning D pub strat = Some w" using loss_warning_total assms(2) by blast
  have iff: "(\<exists>evs. ValidateOrder D pub ord strat smb bal pos = Return evs) \<longleftrightarrow> within_risk_limits D ord strat smb bal pos"
    using ValidateOrder_Return_imp ValidateOrder_within w by (metis or_panic.simps(2))
  have ev: "ValidateOrder D pub ord strat smb bal pos = Return evs \<Longrightarrow> loss_warning D pub strat = Some evs" for evs
    using ValidateOrder_Return_imp by blast
  show ?thesis
    using ValidateOrder_no_panic [OF assms] iff ev
    by (auto simp: loss_warning_def publishRiskWarning_def from_int_def split: if_splits)
qed

theorem ValidateOrder_decides_witness:
  "within_risk_limits int_dec sample_order sample_strategy sample_symbol None None"
proof -
  have "s_StepSize sample_symbol \<noteq> 0" "s_TickSize sample_symbol \<noteq> 0" by (simp_all add: sample_symbol_def)
  then show ?thesis
    using ValidateOrder_decides [of int_dec sample_symbol True sample_order sample_strategy None None] sample_accepted
    by simp
qed

text \<open>The position limit holds after the fill. If the position was within the strategy's
  limit and an order of non-negative quantity is accepted, then filling it completely, on
  whichever side, leaves the absolute position size within the limit, although the code only
  estimates the new size and never nets an opposite order against the position.\<close>

theorem accepted_order_keeps_position_limit:
  fixes D :: "'d::linordered_idom dec_lib"
  assumes "ValidateOrder D pub ord strat smb bal pos = Return evs"
    and "st_MaxPositionSize strat \<noteq> 0"
    and "0 \<le> o_Quantity ord" and "\<And>p. pos = Some p \<Longrightarrow> 0 \<le> p_Quantity p"
    and "\<bar>signed_size pos\<bar> \<le> st_MaxPositionSize strat"
  shows "\<bar>signed_size pos + signed_order ord\<bar> \<le> st_MaxPositionSize strat"
proof -
  have "new_position_size ord pos \<le> st_MaxPositionSize strat"
    using ValidateOrder_Return_imp [OF assms(1)] assms(2) by (auto simp: within_risk_limits_def)
  then show ?thesis using new_size_bounds_exposure assms(3-5) by blast
qed

theorem accepted_order_keeps_position_limit_witness:
  "\<bar>signed_size None + signed_order sample_order\<bar> \<le> st_MaxPositionSize sample_strategy"
  by (rule accepted_order_keeps_position_limit [OF sample_accepted])
     (simp_all add: samples signed_size_def)

end
