(* ===== verification/Circuit_Breaker.thy ===== *)
theory Circuit_Breaker
  imports Prelude "HOL-Library.Multiset"
begin

text \<open>
  The circuit breaker of \<open>internal/circuitbreaker/circuitbreaker.go\<close>. Every method runs under
  the breaker's mutex, so each is one atomic step on the record \<open>breaker\<close>; \<open>Execute\<close> is two
  such steps with the protected call in between, and callers interleave between them. Counters
  are 32-bit and the generation 64-bit words, as in the code. The instant read by
  \<open>time.Now()\<close> is the argument \<open>now\<close>; calls of \<open>OnStateChange\<close> are appended to
  \<open>cb_notified\<close>.
\<close>

datatype cb_error = ErrCircuitOpen | ErrTooManyRequests | CtxErr string | FnErr string

datatype cb_state = StateClosed | StateOpen | StateHalfOpen

fun cb_state_String :: "cb_state \<Rightarrow> string" where
  "cb_state_String StateClosed = ''Closed''"
| "cb_state_String StateOpen = ''Open''"
| "cb_state_String StateHalfOpen = ''HalfOpen''"

record counts =
  Requests :: "32 word"
  TotalSuccesses :: "32 word"
  TotalFailures :: "32 word"
  ConsecutiveSuccesses :: "32 word"
  ConsecutiveFailures :: "32 word"

definition zero_counts :: counts where
  "zero_counts = \<lparr>Requests = 0, TotalSuccesses = 0, TotalFailures = 0,
                  ConsecutiveSuccesses = 0, ConsecutiveFailures = 0\<rparr>"

record cb_config =
  cfg_MaxRequests :: "32 word"
  cfg_Interval :: duration
  cfg_Timeout :: duration
  cfg_ReadyToTrip :: "(counts \<Rightarrow> bool) option"
  cfg_OnStateChange :: bool

record breaker =
  cb_name :: string
  maxRequests :: "32 word"
  interval :: duration
  timeout :: duration
  readyToTrip :: "counts \<Rightarrow> bool"
  onStateChange :: bool
  cbstate :: cb_state
  generation :: "64 word"
  cnts :: counts
  expiry :: time
  halfOpenSuccess :: "32 word"
  cb_notified :: "(cb_state \<times> cb_state) list"

definition toNewGeneration :: "time \<Rightarrow> breaker \<Rightarrow> breaker" where
  "toNewGeneration now cb =
     (let cb1 = cb\<lparr>generation := generation cb + 1, cnts := zero_counts, halfOpenSuccess := 0\<rparr>
      in case cbstate cb of
           StateClosed \<Rightarrow> cb1\<lparr>expiry := if interval cb = 0 then 0 else now + interval cb\<rparr>
         | StateOpen \<Rightarrow> cb1\<lparr>expiry := now + timeout cb\<rparr>
         | StateHalfOpen \<Rightarrow> cb1\<lparr>expiry := 0\<rparr>)"

definition setState :: "cb_state \<Rightarrow> time \<Rightarrow> breaker \<Rightarrow> breaker" where
  "setState st now cb =
     (if cbstate cb = st then cb
      else let prev = cbstate cb;
               cb1 = toNewGeneration now (cb\<lparr>cbstate := st\<rparr>)
           in if onStateChange cb then cb1\<lparr>cb_notified := cb_notified cb1 @ [(prev, st)]\<rparr> else cb1)"

definition currentState :: "time \<Rightarrow> breaker \<Rightarrow> breaker" where
  "currentState now cb =
     (case cbstate cb of
        StateClosed \<Rightarrow> if expiry cb \<noteq> 0 \<and> expiry cb < now then toNewGeneration now cb else cb
      | StateOpen \<Rightarrow> if expiry cb < now then setState StateHalfOpen now cb else cb
      | StateHalfOpen \<Rightarrow> cb)"

definition cb_New :: "string \<Rightarrow> cb_config \<Rightarrow> time \<Rightarrow> breaker" where
  "cb_New name cfg now =
     toNewGeneration now
       \<lparr>cb_name = name,
        maxRequests = (if cfg_MaxRequests cfg = 0 then 1 else cfg_MaxRequests cfg),
        interval = (if cfg_Interval cfg = 0 then 60 * second else cfg_Interval cfg),
        timeout = (if cfg_Timeout cfg = 0 then 60 * second else cfg_Timeout cfg),
        readyToTrip = (case cfg_ReadyToTrip cfg of
            None \<Rightarrow> (\<lambda>c. ConsecutiveFailures c > 5) | Some f \<Rightarrow> f),
        onStateChange = cfg_OnStateChange cfg,
        cbstate = StateClosed, generation = 0, cnts = zero_counts, expiry = 0,
        halfOpenSuccess = 0, cb_notified = []\<rparr>"

definition beforeRequest :: "time \<Rightarrow> breaker \<Rightarrow> breaker \<times> (cb_error + 64 word)" where
  "beforeRequest now cb =
     (let cb1 = currentState now cb in
      if cbstate cb1 = StateOpen then (cb1, Err ErrCircuitOpen)
      else if cbstate cb1 = StateHalfOpen \<and> Requests (cnts cb1) \<ge> maxRequests cb1
        then (cb1, Err ErrTooManyRequests)
      else (cb1\<lparr>cnts := (cnts cb1)\<lparr>Requests := Requests (cnts cb1) + 1\<rparr>\<rparr>, Ok (generation cb1)))"

definition count_success :: "counts \<Rightarrow> counts" where
  "count_success c = c\<lparr>TotalSuccesses := TotalSuccesses c + 1,
     ConsecutiveSuccesses := ConsecutiveSuccesses c + 1, ConsecutiveFailures := 0\<rparr>"

definition onSuccess :: "cb_state \<Rightarrow> time \<Rightarrow> breaker \<Rightarrow> breaker" where
  "onSuccess st now cb =
     (case st of
        StateClosed \<Rightarrow> cb\<lparr>cnts := count_success (cnts cb)\<rparr>
      | StateHalfOpen \<Rightarrow>
          (let cb1 = cb\<lparr>cnts := count_success (cnts cb), halfOpenSuccess := halfOpenSuccess cb + 1\<rparr>
           in if halfOpenSuccess cb1 \<ge> maxRequests cb1 then setState StateClosed now cb1 else cb1)
      | StateOpen \<Rightarrow> cb)"

definition onFailure :: "cb_state \<Rightarrow> time \<Rightarrow> breaker \<Rightarrow> breaker" where
  "onFailure st now cb =
     (case st of
        StateClosed \<Rightarrow>
          (let c = cnts cb;
               cb1 = cb\<lparr>cnts := c\<lparr>TotalFailures := TotalFailures c + 1,
                 ConsecutiveFailures := ConsecutiveFailures c + 1, ConsecutiveSuccesses := 0\<rparr>\<rparr>
           in if readyToTrip cb1 (cnts cb1) then setState StateOpen now cb1 else cb1)
      | StateHalfOpen \<Rightarrow> setState StateOpen now cb
      | StateOpen \<Rightarrow> cb)"

definition afterRequest :: "time \<Rightarrow> 64 word \<Rightarrow> bool \<Rightarrow> breaker \<Rightarrow> breaker" where
  "afterRequest now before success cb =
     (let cb1 = currentState now cb in
      if generation cb1 \<noteq> before then cb1
      else if success then onSuccess (cbstate cb1) now cb1
      else onFailure (cbstate cb1) now cb1)"

definition cb_State :: "time \<Rightarrow> breaker \<Rightarrow> breaker \<times> cb_state" where
  "cb_State now cb = (let cb1 = currentState now cb in (cb1, cbstate cb1))"

text \<open>
  One caller's \<open>Execute\<close>, when no other caller runs in between: \<open>ctx_err\<close> is the context's
  error if it is done, \<open>fn\<close> the outcome of the protected function. A done context and a panic
  both leave without calling \<open>afterRequest\<close>.
\<close>

definition Execute ::
  "time \<Rightarrow> string option \<Rightarrow> (string, unit) outcome \<Rightarrow> time \<Rightarrow> breaker \<Rightarrow> breaker \<times> (cb_error, unit) outcome" where
  "Execute now ctx_err fn later cb =
     (case beforeRequest now cb of
        (cb1, Inl e) \<Rightarrow> (cb1, Fail e)
      | (cb1, Inr gen) \<Rightarrow>
          (case ctx_err of
             Some e \<Rightarrow> (cb1, Fail (CtxErr e))
           | None \<Rightarrow>
               (case fn of
                  Return u \<Rightarrow> (afterRequest later gen True cb1, Return u)
                | Fail e \<Rightarrow> (afterRequest later gen False cb1, Fail (FnErr e))
                | Panic \<Rightarrow> (cb1, Panic))))"

subsection \<open>Callers interleaved\<close>

text \<open>
  The breaker with the permits given out and not yet handed back. A permit is the generation
  \<open>beforeRequest\<close> returned. \<open>abandon\<close> is a caller that leaves between the two calls.
\<close>

type_synonym cb_sys = "breaker \<times> 64 word multiset"

inductive cb_step :: "cb_sys \<Rightarrow> cb_sys \<Rightarrow> bool" where
  admit: "beforeRequest now cb = (cb', Inr g) \<Longrightarrow> cb_step (cb, P) (cb', add_mset g P)"
| refuse: "beforeRequest now cb = (cb', Inl e) \<Longrightarrow> cb_step (cb, P) (cb', P)"
| finish: "g \<in># P \<Longrightarrow> cb_step (cb, P) (afterRequest now g ok cb, P - {#g#})"
| abandon: "g \<in># P \<Longrightarrow> cb_step (cb, P) (cb, P - {#g#})"
| observe: "cb_State now cb = (cb', st) \<Longrightarrow> cb_step (cb, P) (cb', P)"

inductive_cases cb_stepE: "cb_step s t"

text \<open>
  Runs from a new breaker. A run stops before the 64-bit generation would wrap (2^64 state
  changes); with a wrapped generation a stale permit could be taken for a current one.
\<close>

inductive cb_reachable :: "string \<Rightarrow> cb_config \<Rightarrow> cb_sys \<Rightarrow> bool" for name cfg where
  start: "cb_reachable name cfg (cb_New name cfg now, {#})"
| step: "cb_reachable name cfg s \<Longrightarrow> generation (fst s) < - 1 \<Longrightarrow> cb_step s t \<Longrightarrow> cb_reachable name cfg t"

text \<open>
  The invariant: permits are not from the future, and in the half-open state the permits of the
  current generation and the recorded successes together are covered by the requests admitted,
  of which there are at most \<open>maxRequests\<close>.
\<close>

definition cb_inv :: "cb_sys \<Rightarrow> bool" where
  "cb_inv s \<longleftrightarrow> (case s of (cb, P) \<Rightarrow>
     0 < maxRequests cb
   \<and> (\<forall>g \<in># P. g \<le> generation cb)
   \<and> (cbstate cb = StateHalfOpen \<longrightarrow>
        unat (halfOpenSuccess cb) + count P (generation cb) \<le> unat (Requests (cnts cb))
      \<and> Requests (cnts cb) \<le> maxRequests cb
      \<and> halfOpenSuccess cb < maxRequests cb))"

lemmas cb_defs = toNewGeneration_def setState_def currentState_def Let_def zero_counts_def

lemma toNewGeneration_simps [simp]:
  "generation (toNewGeneration now cb) = generation cb + 1"
  "cbstate (toNewGeneration now cb) = cbstate cb"
  "cnts (toNewGeneration now cb) = zero_counts"
  "halfOpenSuccess (toNewGeneration now cb) = 0"
  "maxRequests (toNewGeneration now cb) = maxRequests cb"
  "timeout (toNewGeneration now cb) = timeout cb"
  "readyToTrip (toNewGeneration now cb) = readyToTrip cb"
  by (simp_all add: toNewGeneration_def Let_def split: cb_state.splits)

lemma setState_simps [simp]:
  "cbstate (setState st now cb) = st"
  "maxRequests (setState st now cb) = maxRequests cb"
  "timeout (setState st now cb) = timeout cb"
  "readyToTrip (setState st now cb) = readyToTrip cb"
  by (simp_all add: setState_def Let_def)

lemma setState_changes:
  assumes "cbstate cb \<noteq> st"
  shows "generation (setState st now cb) = generation cb + 1"
    and "cnts (setState st now cb) = zero_counts"
    and "halfOpenSuccess (setState st now cb) = 0"
  using assms by (simp_all add: setState_def Let_def)

lemma setState_same [simp]: "cbstate cb = st \<Longrightarrow> setState st now cb = cb"
  by (simp add: setState_def)

lemma Requests_zero_counts [simp]: "Requests zero_counts = 0"
  by (simp add: zero_counts_def)

text \<open>The clock either changes nothing or starts a fresh generation.\<close>

lemma currentState_cases:
  obtains (same) "currentState now cb = cb"
  | (fresh) "generation (currentState now cb) = generation cb + 1"
      "Requests (cnts (currentState now cb)) = 0"
      "halfOpenSuccess (currentState now cb) = 0"
      "maxRequests (currentState now cb) = maxRequests cb"
proof (cases "cbstate cb")
  case StateClosed
  then show ?thesis using that by (cases "expiry cb \<noteq> 0 \<and> expiry cb < now") (auto simp: currentState_def)
next
  case StateOpen
  then show ?thesis using that
    by (cases "expiry cb < now") (auto simp: currentState_def setState_changes)
next
  case StateHalfOpen
  then show ?thesis using that by (auto simp: currentState_def)
qed

lemma fresh_count: 
  assumes "\<forall>g' \<in># P. g' \<le> (g::64 word)" "g < - 1"
  shows "count P (g + 1) = 0" "\<forall>g' \<in># P. g' \<le> g + 1"
proof -
  have lt: "g < g + 1" using assms(2) by (rule word_less_succ)
  then show "\<forall>g' \<in># P. g' \<le> g + 1" using assms(1) by (meson le_less_trans less_imp_le)
  show "count P (g + 1) = 0" using assms(1) lt by (metis count_inI leD)
qed

lemma currentState_inv [step_invs]:
  assumes "cb_inv (cb, P)" "generation cb < - 1"
  shows "cb_inv (currentState now cb, P)"
proof (cases rule: currentState_cases [of now cb])
  case same
  then show ?thesis using assms by simp
next
  case fresh
  have "\<forall>g \<in># P. g \<le> generation cb" using assms by (simp add: cb_inv_def)
  from fresh_count [OF this assms(2)] show ?thesis
    using assms fresh by (simp add: cb_inv_def)
qed


lemma beforeRequest_inv [step_invs]:
  assumes inv: "cb_inv (cb, P)" "generation cb < - 1" and b: "beforeRequest now cb = (cb', Inr g)"
  shows "cb_inv (cb', add_mset g P)"
proof -
  let ?c = "currentState now cb"
  have i: "cb_inv (?c, P)" using inv by (rule currentState_inv)
  have cb': "cb' = ?c\<lparr>cnts := (cnts ?c)\<lparr>Requests := Requests (cnts ?c) + 1\<rparr>\<rparr>" and g: "g = generation ?c"
    and room: "cbstate ?c = StateHalfOpen \<Longrightarrow> Requests (cnts ?c) < maxRequests ?c"
    using b by (auto simp: beforeRequest_def Let_def split: if_splits)
  have "cbstate ?c = StateHalfOpen \<Longrightarrow> unat (Requests (cnts ?c) + 1) = Suc (unat (Requests (cnts ?c)))"
    using room unat_succ_less by blast
  then show ?thesis
    using i room by (auto simp: cb_inv_def cb' g word_succ_le)
qed

lemma beforeRequest_refused [step_invs]:
  assumes "cb_inv (cb, P)" "generation cb < - 1" and "beforeRequest now cb = (cb', Inl e)"
  shows "cb_inv (cb', P)"
  using assms currentState_inv [OF assms(1,2)] by (auto simp: beforeRequest_def Let_def split: if_splits)

text \<open>A permit handed back is removed from the bag; only a current one is counted.\<close>

lemma cb_inv_remove: "cb_inv (cb, P) \<Longrightarrow> cb_inv (cb, P - {#g#})"
  by (auto simp: cb_inv_def dest: in_diffD)

lemma onSuccess_inv:
  assumes inv: "cb_inv (cb, P)" and g: "g \<in># P" "generation cb = g" and w: "g < - 1"
  shows "cb_inv (onSuccess (cbstate cb) now cb, P - {#g#})"
proof (cases "cbstate cb")
  case StateClosed
  then show ?thesis using inv by (auto simp: cb_inv_def onSuccess_def dest: in_diffD)
next
  case StateOpen
  then show ?thesis using cb_inv_remove [OF inv] by (simp add: onSuccess_def)
next
  case StateHalfOpen
  let ?cb1 = "cb\<lparr>cnts := count_success (cnts cb), halfOpenSuccess := halfOpenSuccess cb + 1\<rparr>"
  have old: "\<forall>g' \<in># P - {#g#}. g' \<le> generation cb"
    using inv by (auto simp: cb_inv_def dest: in_diffD)
  show ?thesis
  proof (cases "halfOpenSuccess ?cb1 \<ge> maxRequests ?cb1")
    case True
    then show ?thesis
      using inv StateHalfOpen fresh_count [OF old] w g
      by (simp add: onSuccess_def Let_def cb_inv_def setState_changes)
  next
    case False
    have "unat (halfOpenSuccess cb + 1) = Suc (unat (halfOpenSuccess cb))"
      using inv StateHalfOpen unat_succ_less by (fastforce simp: cb_inv_def)
    then show ?thesis
      using inv StateHalfOpen False g old
      by (auto simp: onSuccess_def Let_def cb_inv_def count_success_def not_le)
  qed
qed

lemma onFailure_inv:
  assumes inv: "cb_inv (cb, P)" and g: "g \<in># P" "generation cb = g" and w: "g < - 1"
  shows "cb_inv (onFailure (cbstate cb) now cb, P - {#g#})"
proof -
  have old: "\<forall>g' \<in># P - {#g#}. g' \<le> generation cb"
    using inv by (auto simp: cb_inv_def dest: in_diffD)
  have m: "0 < maxRequests cb" using inv by (simp add: cb_inv_def)
  from fresh_count [OF old] w g have new: "\<forall>g' \<in># P - {#g#}. g' \<le> g + 1" by simp
  show ?thesis
    using old new m g
    by (cases "cbstate cb") (simp_all add: onFailure_def Let_def cb_inv_def setState_changes)
qed

lemma afterRequest_inv [step_invs]:
  assumes inv: "cb_inv (cb, P)" "generation cb < - 1" and g: "g \<in># P"
  shows "cb_inv (afterRequest now g ok cb, P - {#g#})"
proof -
  let ?c = "currentState now cb"
  have i: "cb_inv (?c, P)" using inv by (rule currentState_inv)
  show ?thesis
  proof (cases "generation ?c = g")
    case False
    then show ?thesis using cb_inv_remove [OF i] by (simp add: afterRequest_def Let_def)
  next
    case True
    have "g \<le> generation cb" using inv g by (simp add: cb_inv_def)
    then have "g < - 1" using inv by simp
    then show ?thesis
      using onSuccess_inv [OF i g True] onFailure_inv [OF i g True] True
      by (simp add: afterRequest_def Let_def)
  qed
qed

lemma cb_step_inv:
  assumes "cb_step s t" "cb_inv s" "generation (fst s) < - 1"
  shows "cb_inv t"
  using assms
proof (induction rule: cb_step.induct)
  case (abandon g P cb)
  then show ?case by (simp add: cb_inv_remove)
next
  case (observe now cb cb' st P)
  then show ?case by (auto simp: cb_State_def Let_def intro: currentState_inv)
qed (simp_all add: beforeRequest_inv beforeRequest_refused afterRequest_inv)

lemma cb_reachable_inv: "cb_reachable name cfg s \<Longrightarrow> cb_inv s"
proof (induction rule: cb_reachable.induct)
  case (start now)
  show ?case
    by (simp add: cb_New_def cb_inv_def word_gt_0)
next
  case (step s t)
  then show ?case by (blast intro: cb_step_inv)
qed

subsection \<open>The half-open state without permits\<close>

text \<open>
  A half-open breaker whose requests are used up and whose current permits are all gone. No call
  changes it: the half-open state has no expiry, every request is refused, and every result that
  still arrives is stale.
\<close>

definition half_open_exhausted :: "cb_sys \<Rightarrow> bool" where
  "half_open_exhausted s \<longleftrightarrow> (case s of (cb, P) \<Rightarrow>
     cbstate cb = StateHalfOpen \<and> maxRequests cb \<le> Requests (cnts cb) \<and> generation cb \<notin># P)"

lemma exhausted_refuses:
  "half_open_exhausted (cb, P) \<Longrightarrow> beforeRequest now cb = (cb, Err ErrTooManyRequests)"
  by (simp add: half_open_exhausted_def beforeRequest_def currentState_def Let_def)

lemma exhausted_step:
  assumes "cb_step s t" "half_open_exhausted s"
  shows "half_open_exhausted t \<and> fst t = fst s"
  using assms
proof (induction rule: cb_step.induct)
  case (finish g P cb now ok)
  then have "afterRequest now g ok cb = cb"
    by (auto simp: half_open_exhausted_def afterRequest_def currentState_def Let_def)
  with finish show ?case by (auto simp: half_open_exhausted_def dest: in_diffD)
next
  case (abandon g P cb)
  then show ?case by (auto simp: half_open_exhausted_def dest: in_diffD)
next
  case (observe now cb cb' st P)
  then show ?case by (simp add: half_open_exhausted_def cb_State_def currentState_def Let_def)
qed (auto simp: exhausted_refuses)

subsection \<open>Consecutive probes\<close>

text \<open>\<open>n\<close> callers one after the other, each of whose calls succeeds.\<close>

fun succeed_n :: "nat \<Rightarrow> time \<Rightarrow> breaker \<Rightarrow> breaker" where
  "succeed_n 0 now cb = cb"
| "succeed_n (Suc n) now cb = succeed_n n now (fst (Execute now None (Return ()) now cb))"

lemma Execute_half_open_success:
  assumes h: "cbstate cb = StateHalfOpen" and r: "Requests (cnts cb) < maxRequests cb"
  shows "fst (Execute now None (Return ()) now cb) =
     (let cb1 = cb\<lparr>cnts := count_success ((cnts cb)\<lparr>Requests := Requests (cnts cb) + 1\<rparr>),
                   halfOpenSuccess := halfOpenSuccess cb + 1\<rparr>
      in if halfOpenSuccess cb + 1 \<ge> maxRequests cb then setState StateClosed now cb1 else cb1)"
  using assms
  by (simp add: Execute_def beforeRequest_def currentState_def afterRequest_def onSuccess_def Let_def)

lemma half_open_recovers:
  assumes "cbstate cb = StateHalfOpen" "halfOpenSuccess cb = Requests (cnts cb)"
    and "unat (Requests (cnts cb)) + Suc n = unat (maxRequests cb)"
  shows "cbstate (succeed_n (Suc n) now cb) = StateClosed \<and> cnts (succeed_n (Suc n) now cb) = zero_counts"
  using assms
proof (induction n arbitrary: cb)
  case 0
  have lt: "Requests (cnts cb) < maxRequests cb" using 0 by (simp add: word_less_nat_alt)
  have "maxRequests cb \<le> halfOpenSuccess cb + 1"
    using 0 unat_succ_less [OF lt] by (simp add: word_le_nat_alt)
  then show ?case using 0 lt by (simp add: Execute_half_open_success Let_def setState_changes)
next
  case (Suc n)
  have lt: "Requests (cnts cb) < maxRequests cb" using Suc.prems by (simp add: word_less_nat_alt)
  have u: "unat (Requests (cnts cb) + 1) = Suc (unat (Requests (cnts cb)))" by (rule unat_succ_less [OF lt])
  have nb: "\<not> maxRequests cb \<le> halfOpenSuccess cb + 1"
    using Suc.prems u by (simp add: word_le_nat_alt)
  let ?cb1 = "cb\<lparr>cnts := count_success ((cnts cb)\<lparr>Requests := Requests (cnts cb) + 1\<rparr>),
                   halfOpenSuccess := halfOpenSuccess cb + 1\<rparr>"
  have e: "fst (Execute now None (Return ()) now cb) = ?cb1"
    using Suc.prems lt nb by (simp add: Execute_half_open_success Let_def)
  have "cbstate (succeed_n (Suc n) now ?cb1) = StateClosed \<and> cnts (succeed_n (Suc n) now ?cb1) = zero_counts"
    by (rule Suc.IH) (use Suc.prems u in \<open>simp_all add: count_success_def\<close>)
  then show ?case using e by (metis succeed_n.simps(2))
qed


subsection \<open>Properties\<close>

text \<open>C8: The half-open quota under interleaving. However callers interleave, in the half-open state
  at most \<open>maxRequests\<close> probes of the current generation are in flight, and those in flight and
  the successes recorded so far are together at most the requests admitted.\<close>

theorem half_open_quota:
  assumes "cb_reachable name cfg (cb, P)" "cbstate cb = StateHalfOpen"
  shows "count P (generation cb) \<le> unat (maxRequests cb)
    \<and> unat (halfOpenSuccess cb) + count P (generation cb) \<le> unat (Requests (cnts cb))"
proof -
  have i: "cb_inv (cb, P)" using assms(1) by (rule cb_reachable_inv)
  then have "unat (Requests (cnts cb)) \<le> unat (maxRequests cb)"
    using assms(2) by (simp add: cb_inv_def word_le_nat_alt)
  with i assms(2) show ?thesis by (simp add: cb_inv_def)
qed

text \<open>The breaker that the engine puts around its NTP check (\<open>engine.New\<close>).\<close>

definition ntp_breaker_config :: cb_config where
  "ntp_breaker_config =
     \<lparr>cfg_MaxRequests = 3, cfg_Interval = 60 * second, cfg_Timeout = 30 * second,
      cfg_ReadyToTrip = Some (\<lambda>c. ConsecutiveFailures c \<ge> 3), cfg_OnStateChange = True\<rparr>"

definition cb0 :: breaker where "cb0 = cb_New ''ntp'' ntp_breaker_config 1"
definition fail_probe :: "time \<Rightarrow> breaker \<Rightarrow> breaker" where
  "fail_probe now cb = fst (Execute now None (Fail ''down'') now cb)"
definition canceled_probe :: "time \<Rightarrow> breaker \<Rightarrow> breaker" where
  "canceled_probe now cb = fst (Execute now (Some ''canceled'') (Return ()) now cb)"
definition tripped :: breaker where "tripped = fail_probe 4 (fail_probe 3 (fail_probe 2 cb0))"
definition late :: time where "late = 5 + 30 * second"

text \<open>One caller's \<open>Execute\<close> is a run of the interleaved system.\<close>

lemma beforeRequest_generation:
  assumes "beforeRequest now cb = (cb', r)" "generation cb < - 2"
  shows "generation cb' < - 1"
proof -
  have lt: "x < - 2 \<Longrightarrow> x < - 1" for x :: "64 word" by (erule less_trans) simp
  have g: "generation cb' = generation (currentState now cb)"
    using assms(1) by (auto simp: beforeRequest_def Let_def split: if_splits)
  show ?thesis
  proof (cases rule: currentState_cases [of now cb])
    case same
    then show ?thesis using g assms(2) lt by simp
  next
    case fresh
    have "generation cb + 1 \<le> - 2" by (rule word_succ_le [OF assms(2)])
    then have "generation cb + 1 < - 1" by (rule le_less_trans) simp
    then show ?thesis using fresh g by simp
  qed
qed

lemma cb_reachable_Execute:
  assumes "cb_reachable name cfg (cb, {#})" "generation cb < - 2"
  shows "cb_reachable name cfg (fst (Execute now ctx fn later cb), {#})"
proof (cases "beforeRequest now cb")
  case (Pair cb1 r)
  have lt: "generation cb < - 1" using assms(2) by (rule less_trans) simp
  show ?thesis
  proof (cases r)
    case (Inl e)
    then have "cb_step (cb, {#}) (cb1, {#})" using Pair refuse by simp
    then show ?thesis using cb_reachable.step [OF assms(1)] lt Pair Inl by (simp add: Execute_def)
  next
    case (Inr g)
    have "cb_step (cb, {#}) (cb1, {#g#})" using Pair Inr admit by simp
    then have r1: "cb_reachable name cfg (cb1, {#g#})" using cb_reachable.step [OF assms(1)] lt by simp
    have "cb_step (cb1, {#g#}) (cb1, {#g#} - {#g#})" by (rule abandon) simp
    moreover have "cb_step (cb1, {#g#}) (afterRequest later g b cb1, {#g#} - {#g#})" for b
      by (rule finish) simp
    ultimately show ?thesis
      using cb_reachable.step [OF r1] beforeRequest_generation [OF Pair assms(2)] Pair Inr
      by (simp add: Execute_def split: option.splits outcome.splits)
  qed
qed

lemma fail_probe_closed:
  fixes cb :: breaker
  defines "c \<equiv> cnts cb"
  defines "c2 \<equiv> c\<lparr>Requests := Requests c + 1, TotalFailures := TotalFailures c + 1,
                  ConsecutiveFailures := ConsecutiveFailures c + 1, ConsecutiveSuccesses := 0\<rparr>"
  assumes "cbstate cb = StateClosed" "now \<le> expiry cb"
  shows "fail_probe now cb =
    (if readyToTrip cb c2 then setState StateOpen now (cb\<lparr>cnts := c2\<rparr>) else cb\<lparr>cnts := c2\<rparr>)"
proof -
  have cur: "currentState now (cb\<lparr>cnts := x\<rparr>) = cb\<lparr>cnts := x\<rparr>" "currentState now cb = cb" for x
    using assms(3,4) by (simp_all add: currentState_def)
  show ?thesis
    using assms(3)
    by (simp add: fail_probe_def Execute_def beforeRequest_def afterRequest_def onFailure_def Let_def cur c_def c2_def)
qed

lemma cb0_fields:
  "cbstate cb0 = StateClosed" "expiry cb0 = 60 * second + 1" "generation cb0 = 1"
  "cnts cb0 = zero_counts" "readyToTrip cb0 = (\<lambda>c. ConsecutiveFailures c \<ge> 3)"
  "maxRequests cb0 = 3" "timeout cb0 = 30 * second" "onStateChange cb0"
  by (simp_all add: cb0_def cb_New_def ntp_breaker_config_def toNewGeneration_def time_units)

definition failures :: "32 word \<Rightarrow> counts" where
  "failures n = \<lparr>Requests = n, TotalSuccesses = 0, TotalFailures = n, ConsecutiveSuccesses = 0,
                ConsecutiveFailures = n\<rparr>"

lemma probe_steps:
  "fail_probe 2 cb0 = cb0\<lparr>cnts := failures 1\<rparr>"
  "fail_probe 3 (cb0\<lparr>cnts := failures 1\<rparr>) = cb0\<lparr>cnts := failures 2\<rparr>"
  "fail_probe 4 (cb0\<lparr>cnts := failures 2\<rparr>) = setState StateOpen 4 (cb0\<lparr>cnts := failures 3\<rparr>)"
  by (subst fail_probe_closed; simp add: cb0_fields zero_counts_def failures_def time_units word_le_nat_alt)+

lemma tripped_eq: "tripped = setState StateOpen 4 (cb0\<lparr>cnts := failures 3\<rparr>)"
  by (simp add: tripped_def probe_steps)

lemma tripped_open:
  "cbstate tripped = StateOpen" "generation tripped = 2" "expiry tripped = 4 + 30 * second"
  "maxRequests tripped = 3" "onStateChange tripped"
  by (simp_all add: tripped_eq setState_def toNewGeneration_def Let_def cb0_fields)

lemma small_generation: "(1 :: 64 word) < - 2" "(2 :: 64 word) < - 2" "(3 :: 64 word) < - 2"
  by (simp_all add: word_less_def)

lemma tripped_reachable: "cb_reachable ''ntp'' ntp_breaker_config (tripped, {#})"
proof -
  have "cb_reachable ''ntp'' ntp_breaker_config (cb0, {#})" by (simp add: cb0_def start)
  then have "cb_reachable ''ntp'' ntp_breaker_config (fail_probe 2 cb0, {#})"
    unfolding fail_probe_def by (rule cb_reachable_Execute) (simp add: cb0_fields small_generation)
  then have "cb_reachable ''ntp'' ntp_breaker_config (fail_probe 3 (fail_probe 2 cb0), {#})"
    unfolding fail_probe_def [of 3]
    by (rule cb_reachable_Execute) (simp add: probe_steps cb0_fields small_generation)
  then show ?thesis
    unfolding tripped_def fail_probe_def [of 4]
    by (rule cb_reachable_Execute) (simp add: probe_steps cb0_fields small_generation)
qed

definition wedged :: breaker where
  "wedged = canceled_probe late (canceled_probe late (canceled_probe late tripped))"

lemma canceled_steps:
  "cbstate (canceled_probe late tripped) = StateHalfOpen" "generation (canceled_probe late tripped) = 3"
  "Requests (cnts (canceled_probe late tripped)) = 1" "maxRequests (canceled_probe late tripped) = 3"
  by (simp_all add: canceled_probe_def Execute_def beforeRequest_def currentState_def tripped_open
      setState_changes late_def Let_def zero_counts_def time_units)

lemma canceled_half_open:
  assumes "cbstate cb = StateHalfOpen" "Requests (cnts cb) < maxRequests cb"
  shows "canceled_probe now cb = cb\<lparr>cnts := (cnts cb)\<lparr>Requests := Requests (cnts cb) + 1\<rparr>\<rparr>"
  using assms by (simp add: canceled_probe_def Execute_def beforeRequest_def currentState_def Let_def)

text \<open>A half-open breaker can be wedged for good. A caller whose context is already done takes
  a half-open permit and never hands it back. For the engine's NTP breaker there is a reachable
  state (three failures, the timeout, three callers with cancelled contexts) with no call in
  flight from which every continuation leaves the breaker unchanged, half-open, refusing every
  request at every later time.\<close>

theorem canceled_probes_wedge_breaker:
  "\<exists>cb. cb_reachable ''ntp'' ntp_breaker_config (cb, {#}) \<and>
     (\<forall>cb' P now. cb_step\<^sup>*\<^sup>* (cb, {#}) (cb', P) \<longrightarrow>
        cb' = cb \<and> cbstate cb' = StateHalfOpen \<and> beforeRequest now cb' = (cb', Err ErrTooManyRequests))"
proof -
  let ?c1 = "canceled_probe late tripped"
  let ?c2 = "canceled_probe late ?c1"
  have c2: "?c2 = ?c1\<lparr>cnts := (cnts ?c1)\<lparr>Requests := 2\<rparr>\<rparr>"
    by (subst canceled_half_open) (simp_all add: canceled_steps)
  have c3: "wedged = ?c1\<lparr>cnts := (cnts ?c1)\<lparr>Requests := 3\<rparr>\<rparr>"
    unfolding wedged_def by (subst canceled_half_open) (simp_all add: c2 canceled_steps)
  have "cb_reachable ''ntp'' ntp_breaker_config (?c1, {#})"
    unfolding canceled_probe_def by (rule cb_reachable_Execute [OF tripped_reachable]) (simp add: tripped_open small_generation)
  then have "cb_reachable ''ntp'' ntp_breaker_config (?c2, {#})"
    unfolding canceled_probe_def [of late ?c1] by (rule cb_reachable_Execute) (simp add: canceled_steps small_generation)
  then have reach: "cb_reachable ''ntp'' ntp_breaker_config (wedged, {#})"
    unfolding wedged_def canceled_probe_def [of late ?c2]
    by (rule cb_reachable_Execute) (simp add: c2 canceled_steps small_generation)
  have ex: "half_open_exhausted (wedged, {#})" by (simp add: half_open_exhausted_def c3 canceled_steps)
  have stay: "cb_step\<^sup>*\<^sup>* s t \<Longrightarrow> half_open_exhausted s \<Longrightarrow> half_open_exhausted t \<and> fst t = fst s" for s t
    by (induction rule: rtranclp_induct) (auto dest: exhausted_step)
  have "cb' = wedged \<and> cbstate cb' = StateHalfOpen \<and> beforeRequest now cb' = (cb', Err ErrTooManyRequests)"
    if "cb_step\<^sup>*\<^sup>* (wedged, {#}) (cb', P)" for cb' P now
    using stay [OF that ex] exhausted_refuses [of cb' P now] by (auto simp: half_open_exhausted_def)
  with reach show ?thesis by blast
qed

theorem canceled_probes_wedge_breaker_witness:
  "\<exists>cb. cbstate cb = StateHalfOpen \<and> beforeRequest (10 * hour) cb = (cb, Err ErrTooManyRequests)"
  using canceled_probes_wedge_breaker by blast

text \<open>Recovery. A breaker that has just become half-open (no request admitted yet) and whose
  next \<open>maxRequests\<close> callers, one after the other, all succeed is closed afterwards with its
  counters cleared.\<close>

theorem half_open_recovers_after_quota:
  assumes "cbstate cb = StateOpen" "expiry cb < now" "0 < maxRequests cb"
  shows "cbstate (succeed_n (unat (maxRequests cb)) now (currentState now cb)) = StateClosed
    \<and> cnts (succeed_n (unat (maxRequests cb)) now (currentState now cb)) = zero_counts"
proof -
  let ?c = "currentState now cb"
  have c: "cbstate ?c = StateHalfOpen" "halfOpenSuccess ?c = 0" "Requests (cnts ?c) = 0" "maxRequests ?c = maxRequests cb"
    using assms(1,2) by (simp_all add: currentState_def setState_changes)
  obtain n where n: "unat (maxRequests cb) = Suc n"
    using assms(3) by (metis gr0_implies_Suc unat_0 word_less_nat_alt)
  have "cbstate (succeed_n (Suc n) now ?c) = StateClosed \<and> cnts (succeed_n (Suc n) now ?c) = zero_counts"
    by (rule half_open_recovers) (simp_all add: c n)
  then show ?thesis by (simp add: n)
qed

theorem half_open_recovers_after_quota_witness:
  "cbstate (succeed_n (unat (maxRequests tripped)) late (currentState late tripped)) = StateClosed"
  using half_open_recovers_after_quota [of tripped late]
  by (simp add: tripped_open late_def time_units)

text \<open>An open breaker refuses without side effects until its timeout has passed, and a result
  that arrives from an earlier generation changes nothing but what the clock would have changed.\<close>

theorem open_refuses_and_stale_ignored:
  "(cbstate cb = StateOpen \<and> now \<le> expiry cb \<longrightarrow>
      Execute now ctx fn later cb = (cb, Fail ErrCircuitOpen) \<and> afterRequest now g success cb = cb)
   \<and> (g \<noteq> generation (currentState now cb) \<longrightarrow> afterRequest now g success cb = currentState now cb)"
  by (auto simp: Execute_def beforeRequest_def afterRequest_def currentState_def onSuccess_def onFailure_def Let_def)

theorem open_refuses_and_stale_ignored_witness:
  "Execute 5 None (Return ()) 6 tripped = (tripped, Fail ErrCircuitOpen)"
  using open_refuses_and_stale_ignored [of tripped 5 None "Return ()" 6 0 True]
  by (simp add: tripped_open time_units)

theorem half_open_quota_witness:
  "count {#} (generation (canceled_probe late tripped)) \<le> unat (maxRequests (canceled_probe late tripped))"
proof -
  have "cb_reachable ''ntp'' ntp_breaker_config (canceled_probe late tripped, {#})"
    unfolding canceled_probe_def by (rule cb_reachable_Execute [OF tripped_reachable]) (simp add: tripped_open small_generation)
  from half_open_quota [OF this canceled_steps(1)] show ?thesis by simp
qed

end
