(* ===== verification/Channel.thy ===== *)
theory Channel
  imports Prelude "HOL-Library.Multiset" "HOL-Library.AList"
begin

text \<open>
  Go's buffered channels, as the repository uses them: a FIFO buffer with a capacity and a
  closed flag, the non-blocking send (\<open>select\<close> with a \<open>default\<close> branch), and the two state
  machine interfaces that both \<open>internal/engine\<close> and \<open>internal/runtime\<close> provide: listeners
  notified through such channels, and a machine with a halted state.
\<close>

record 'a chan =
  buf :: "'a list"
  capacity :: nat
  closed :: bool

definition make_chan :: "nat \<Rightarrow> 'a chan" where
  "make_chan n = \<lparr>buf = [], capacity = n, closed = False\<rparr>"

text \<open>The outcome of \<open>select { case ch <- x: default: }\<close>; a send on a closed channel panics.\<close>

datatype 'a send = Sent "'a chan" | WouldBlock | SendPanic

definition try_send :: "'a \<Rightarrow> 'a chan \<Rightarrow> 'a send" where
  "try_send x ch =
     (if closed ch then SendPanic
      else if length (buf ch) < capacity ch then Sent (ch\<lparr>buf := buf ch @ [x]\<rparr>)
      else WouldBlock)"

text \<open>The channel after a non-blocking send to a channel that nobody closes.\<close>

definition offer :: "'a \<Rightarrow> 'a chan \<Rightarrow> 'a chan" where
  "offer x ch = (if length (buf ch) < capacity ch then ch\<lparr>buf := buf ch @ [x]\<rparr> else ch)"

definition chan_ok :: "'a chan \<Rightarrow> bool" where
  "chan_ok ch \<longleftrightarrow> length (buf ch) \<le> capacity ch"

lemma make_chan_ok [simp]: "chan_ok (make_chan n)" "buf (make_chan n) = []" "\<not> closed (make_chan n)"
  "capacity (make_chan n) = n"
  by (simp_all add: make_chan_def chan_ok_def)

lemma offer_ok [simp]: "chan_ok ch \<Longrightarrow> chan_ok (offer x ch)"
  by (auto simp: chan_ok_def offer_def)

lemma try_send_Sent: "try_send x ch = Sent ch' \<Longrightarrow>
    buf ch' = buf ch @ [x] \<and> capacity ch' = capacity ch \<and> closed ch' = closed ch \<and> \<not> closed ch \<and>
    length (buf ch) < capacity ch"
  by (auto simp: try_send_def split: if_splits)

lemma try_send_WouldBlock: "try_send x ch = WouldBlock \<longleftrightarrow> \<not> closed ch \<and> capacity ch \<le> length (buf ch)"
  by (auto simp: try_send_def)

subsection \<open>Listeners\<close>

text \<open>
  A machine's listeners are a table from listener id to a channel; the channels themselves live
  in a heap, because two listeners may share one. \<open>offer_all\<close> is the notification loop over the
  copied listeners; Go iterates a map in no fixed order, so the list is one such order.
\<close>

type_synonym 'a chan_heap = "nat \<Rightarrow> 'a chan"

definition offer_at :: "'a \<Rightarrow> nat \<Rightarrow> 'a chan_heap \<Rightarrow> 'a chan_heap" where
  "offer_at x c h = h(c := offer x (h c))"

definition offer_all :: "'a \<Rightarrow> nat list \<Rightarrow> 'a chan_heap \<Rightarrow> 'a chan_heap" where
  "offer_all x cs h = fold (offer_at x) cs h"

lemma offer_at_commute: "offer_at x c (offer_at x c' h) = offer_at x c' (offer_at x c h)"
  by (cases "c = c'") (auto simp: offer_at_def fun_upd_twist)

text \<open>The order in which the listeners are notified does not matter.\<close>

lemma offer_all_order:
  assumes "mset cs = mset ds"
  shows "offer_all x cs h = offer_all x ds h"
proof -
  have "fold (offer_at x) cs = fold (offer_at x) ds"
    by (rule fold_multiset_equiv) (use assms in \<open>auto simp: offer_at_commute fun_eq_iff\<close>)
  then show ?thesis by (simp add: offer_all_def)
qed

lemma offer_all_untouched: "c \<notin> set cs \<Longrightarrow> offer_all x cs h c = h c"
  unfolding offer_all_def by (induction cs arbitrary: h) (auto simp: offer_at_def)

lemma offer_all_Cons: "offer_all x (c # cs) h = offer_all x cs (offer_at x c h)"
  by (simp add: offer_all_def)

lemma offer_all_once:
  assumes "distinct cs" "c \<in> set cs"
  shows "offer_all x cs h c = offer x (h c)"
  using assms
proof (induction cs arbitrary: h)
  case Nil
  then show ?case by simp
next
  case (Cons d cs)
  then show ?case
    by (cases "c = d") (auto simp: offer_all_Cons offer_all_untouched offer_at_def)
qed

subsection \<open>Machines with a halted state\<close>

text \<open>
  The contract that both state machines promise. \<open>attempt m i s\<close> asks for mode \<open>m\<close> with the
  other inputs \<open>i\<close> (reason and instant); an error leaves the machine as it was.
\<close>

fun attempts :: "('m \<Rightarrow> 'i \<Rightarrow> 's \<Rightarrow> 'e + 's) \<Rightarrow> ('m \<times> 'i) list \<Rightarrow> 's \<Rightarrow> 's" where
  "attempts f [] s = s"
| "attempts f ((m, i) # xs) s = attempts f xs (case f m i s of Inl _ \<Rightarrow> s | Inr s' \<Rightarrow> s')"

locale halting_machine =
  fixes current :: "'s \<Rightarrow> 'm"
    and attempt :: "'m \<Rightarrow> 'i \<Rightarrow> 's \<Rightarrow> 'e + 's"
    and idle :: 'm
    and halted :: 'm
  assumes idle_halted: "idle \<noteq> halted"
    and attempt_reaches: "attempt m i s = Inr s' \<Longrightarrow> current s' = m"
    and halted_leaves_to_idle: "current s = halted \<Longrightarrow> attempt m i s = Inr s' \<Longrightarrow> m = idle \<or> m = halted"
    and halt_accepted: "current s \<noteq> halted \<Longrightarrow> \<exists>s'. attempt halted i s = Inr s'"
    and reset_accepted: "current s = halted \<Longrightarrow> \<exists>s'. attempt idle i s = Inr s'"
begin

lemma halted_sticky:
  assumes "current s = halted" "\<forall>(m, i) \<in> set xs. m \<noteq> idle"
  shows "current (attempts attempt xs s) = halted"
  using assms
proof (induction xs arbitrary: s)
  case Nil
  then show ?case by simp
next
  case (Cons x xs)
  obtain m i where x: "x = (m, i)" by (cases x)
  have "current (case attempt m i s of Inl _ \<Rightarrow> s | Inr s' \<Rightarrow> s') = halted"
    using Cons.prems x halted_leaves_to_idle attempt_reaches by (fastforce split: sum.splits)
  then show ?case using Cons x by simp
qed

lemma resume_needs_idle:
  assumes "current s = halted" "current (attempts attempt xs s) \<noteq> halted"
  shows "\<exists>i. (idle, i) \<in> set xs"
  using halted_sticky [of s xs] assms by force

lemma can_always_halt: "\<exists>s'. current s' = halted \<and> (s' = s \<or> attempt halted i s = Inr s')"
  using halt_accepted [of s i] attempt_reaches by (cases "current s = halted") blast+

lemma reset_is_possible: "current s = halted \<Longrightarrow> current (attempts attempt [(idle, i)] s) = idle"
  using reset_accepted [of s i] attempt_reaches by (auto split: sum.splits)

end

end
