(* ===== verification/Engine_State.thy ===== *)
theory Engine_State
  imports Channel
begin

text \<open>
  The engine's state machine, \<open>internal/engine/state.go\<close>. Its mutex makes each operation atomic;
  \<open>Transition\<close> notifies after releasing the lock, through non-blocking sends on a copy of the
  listener table.
\<close>

datatype estate =
    StateIdle | StateScanning | StateLiveTrading | StatePaperTrading
  | StateBacktesting | StateOptimizing | StateHalted | StateOther int

fun estate_String :: "estate \<Rightarrow> string" where
  "estate_String StateIdle = ''Idle''"
| "estate_String StateScanning = ''Scanning''"
| "estate_String StateLiveTrading = ''Live Trading''"
| "estate_String StatePaperTrading = ''Paper Trading''"
| "estate_String StateBacktesting = ''Backtesting''"
| "estate_String StateOptimizing = ''Optimizing''"
| "estate_String StateHalted = ''Halted''"
| "estate_String (StateOther n) = ''Unknown''"

record estate_transition =
  et_From :: estate
  et_To :: estate
  et_Timestamp :: time
  et_Reason :: string

record state_machine =
  currentState :: estate
  previousState :: estate
  transitionAt :: time
  listeners :: "(64 word \<times> nat) list"
  nextID :: "64 word"
  chans :: "estate_transition chan_heap"

datatype estate_error = InvalidTransitionError estate estate

fun estate_error_text :: "estate_error \<Rightarrow> string" where
  "estate_error_text (InvalidTransitionError from to) =
     ''invalid state transition from '' @ estate_String from @ '' to '' @ estate_String to"

definition NewStateMachine :: "estate_transition chan_heap \<Rightarrow> time \<Rightarrow> state_machine" where
  "NewStateMachine heap now =
     \<lparr>currentState = StateIdle, previousState = StateIdle, transitionAt = now,
      listeners = [], nextID = 1, chans = heap\<rparr>"

definition isValidTransition :: "estate \<Rightarrow> estate \<Rightarrow> bool" where
  "isValidTransition from to =
     (if from = to then False
      else if from = StateHalted \<and> to \<noteq> StateIdle then False
      else if to = StateHalted then True
      else if to = StateIdle then True
      else True)"

definition Transition :: "estate \<Rightarrow> string \<times> time \<Rightarrow> state_machine \<Rightarrow> estate_error + state_machine" where
  "Transition to arg machine =
     (case arg of (reason, now) \<Rightarrow>
        let from = currentState machine in
        if \<not> isValidTransition from to then Err (InvalidTransitionError from to)
        else
          let t = \<lparr>et_From = from, et_To = to, et_Timestamp = now, et_Reason = reason\<rparr>
          in Ok (machine\<lparr>previousState := from, currentState := to, transitionAt := now,
                    chans := offer_all t (map snd (listeners machine)) (chans machine)\<rparr>))"

definition Subscribe :: "nat \<Rightarrow> state_machine \<Rightarrow> state_machine \<times> 64 word" where
  "Subscribe ch machine =
     (let lid = nextID machine
      in (machine\<lparr>nextID := nextID machine + 1, listeners := AList.update lid ch (listeners machine)\<rparr>, lid))"

definition Unsubscribe :: "64 word \<Rightarrow> state_machine \<Rightarrow> state_machine" where
  "Unsubscribe lid machine = machine\<lparr>listeners := AList.delete lid (listeners machine)\<rparr>"

lemma Transition_Ok:
  "Transition to (reason, now) machine = Ok machine' \<Longrightarrow>
     isValidTransition (currentState machine) to \<and> currentState machine' = to \<and>
     previousState machine' = currentState machine \<and> transitionAt machine' = now \<and>
     listeners machine' = listeners machine \<and> nextID machine' = nextID machine"
  by (auto simp: Transition_def Let_def split: if_splits)

interpretation eng: halting_machine currentState Transition StateIdle StateHalted
proof
  show "StateIdle \<noteq> StateHalted" by simp
  fix m i s s'
  show "Transition m i s = Inr s' \<Longrightarrow> currentState s' = m"
    by (cases i) (auto dest: Transition_Ok)
  show "currentState s = StateHalted \<Longrightarrow> Transition m i s = Inr s' \<Longrightarrow> m = StateIdle \<or> m = StateHalted"
    by (cases i) (auto dest!: Transition_Ok simp: isValidTransition_def split: if_splits)
  show "currentState s \<noteq> StateHalted \<Longrightarrow> \<exists>s'. Transition StateHalted i s = Inr s'"
    by (cases i) (simp add: Transition_def isValidTransition_def Let_def)
  show "currentState s = StateHalted \<Longrightarrow> \<exists>s'. Transition StateIdle i s = Inr s'"
    by (cases i) (simp add: Transition_def isValidTransition_def Let_def)
qed

text \<open>
  Listener ids: an lid that was handed out is below \<open>nextID\<close>, so until the 64-bit counter wraps
  a subscription never replaces another one.
\<close>

definition listeners_ok :: "state_machine \<Rightarrow> bool" where
  "listeners_ok machine \<longleftrightarrow> distinct (map fst (listeners machine)) \<and>
     (\<forall>lid \<in> fst ` set (listeners machine). lid < nextID machine)"

lemma Subscribe_keeps_others:
  assumes "listeners_ok machine" "nextID machine < - 1" "Subscribe ch machine = (machine', lid)"
  shows "listeners_ok machine' \<and> lid \<notin> fst ` set (listeners machine) \<and>
         map_of (listeners machine') = (map_of (listeners machine))(lid \<mapsto> ch)"
proof -
  have lid: "lid = nextID machine" using assms(3) by (simp add: Subscribe_def Let_def)
  have new: "lid \<notin> fst ` set (listeners machine)" using assms(1) lid by (auto simp: listeners_ok_def)
  have lt: "nextID machine < nextID machine + 1" using assms(2) by (rule word_less_succ)
  then have "\<forall>k \<in> fst ` set (listeners machine). k < nextID machine + 1"
    using assms(1) by (fastforce simp: listeners_ok_def)
  moreover have m': "machine' = machine\<lparr>nextID := nextID machine + 1,
      listeners := AList.update lid ch (listeners machine)\<rparr>"
    using assms(3) lid by (auto simp: Subscribe_def Let_def)
  moreover have "fst ` set (listeners machine') = insert lid (fst ` set (listeners machine))"
    by (simp add: m' dom_update)
  ultimately have "\<forall>k \<in> fst ` set (listeners machine'). k < nextID machine'"
    using lt lid by simp
  moreover have "distinct (map fst (listeners machine'))"
    using assms(1) by (simp add: m' listeners_ok_def distinct_update)
  moreover have "map_of (listeners machine') = (map_of (listeners machine))(lid \<mapsto> ch)"
    by (simp add: m' update_conv')
  ultimately show ?thesis using new unfolding listeners_ok_def by blast
qed

subsection \<open>Properties\<close>

text \<open>The engine's state machine. A transition is refused exactly for the state the machine is
  already in and for leaving the halted state to anything but idle; the error then names both
  states. An accepted one moves to the target, remembers the state it left and puts one
  notification on every subscribed channel that has room, whatever order the listener table is
  walked in.\<close>

theorem engine_transition_contract:
  "case Transition to (reason, now) s of
     Inl e \<Rightarrow> e = InvalidTransitionError (currentState s) to \<and>
              (to = currentState s \<or> currentState s = StateHalted \<and> to \<noteq> StateIdle)
   | Inr s' \<Rightarrow> to \<noteq> currentState s \<and> (currentState s = StateHalted \<longrightarrow> to = StateIdle) \<and>
       currentState s' = to \<and> previousState s' = currentState s \<and> transitionAt s' = now \<and>
       (\<forall>order. mset order = mset (map snd (listeners s)) \<longrightarrow>
          chans s' = offer_all \<lparr>et_From = currentState s, et_To = to, et_Timestamp = now, et_Reason = reason\<rparr>
                       order (chans s))"
proof -
  have "offer_all t (map snd (listeners s)) (chans s) = offer_all t order (chans s)"
    if "mset order = mset (map snd (listeners s))" for t order
    using offer_all_order [OF that [symmetric]] .
  then show ?thesis
    by (auto simp: Transition_def isValidTransition_def Let_def)
qed

definition halted_sample :: state_machine where
  "halted_sample = \<lparr>currentState = StateHalted, previousState = StateLiveTrading, transitionAt = 5,
     listeners = [(1, 0)], nextID = 2, chans = (\<lambda>_. make_chan 1)\<rparr>"

theorem engine_transition_contract_witness:
  "chans (case Transition StateIdle (''reset'', 6) halted_sample of Inr s' \<Rightarrow> s' | Inl _ \<Rightarrow> halted_sample)
   = offer_all \<lparr>et_From = StateHalted, et_To = StateIdle, et_Timestamp = 6, et_Reason = ''reset''\<rparr>
       [0] (\<lambda>_. make_chan 1)"
  using engine_transition_contract [where to = StateIdle and reason = "''reset''" and now = 6 and s = halted_sample]
  by (simp add: halted_sample_def Transition_def isValidTransition_def Let_def)

text \<open>A halted engine stays halted through any sequence of transition requests that does not
  ask for idle, so an emergency halt can only be undone by an explicit reset; and a halt request
  is never refused.\<close>

theorem engine_halt_sticky:
  assumes "currentState s = StateHalted" "StateIdle \<notin> fst ` set requests"
  shows "currentState (attempts Transition requests s) = StateHalted"
  using eng.halted_sticky [OF assms(1), of requests] assms(2) by force

theorem engine_halt_sticky_witness:
  "currentState (attempts Transition [(StateLiveTrading, ''go'', 1), (StateHalted, ''x'', 2)] halted_sample)
     = StateHalted"
  by (rule engine_halt_sticky) (simp_all add: halted_sample_def)

end
