(* ===== verification/Trading_Gate.thy ===== *)
theory Trading_Gate
  imports Entity
begin

text \<open>
  The runtime safety gate of \<open>internal/service/tradinggate/gate.go\<close>: the checks a new trade
  entry passes, in the code's order, and the policy that configures them. The runtime reader
  is an argument: \<open>None\<close> for a nil gate or a nil reader, otherwise its answer.
\<close>

record policy =
  AllowedModes :: "run_mode list option"  \<comment> \<open>a nil map is \<open>None\<close>\<close>
  MaxNTPDrift :: duration
  RequireConnected :: bool
  RequireTrusted :: bool
  RequireLiveLicense :: bool

definition DefaultPolicy :: policy where
  "DefaultPolicy =
     \<lparr>AllowedModes = Some [RunModeLiveTrading, RunModePaperTrading],
      MaxNTPDrift = 500 * millisecond, RequireConnected = True,
      RequireTrusted = True, RequireLiveLicense = True\<rparr>"

datatype block_reason =
    ModeNotAllowed | ExplicitlyBlocked | ConnectivityNotHealthy | IntegrityDegraded
  | DriftExceeded | LicenseNotValid

fun reason_text :: "block_reason \<Rightarrow> string" where
  "reason_text ModeNotAllowed = ''runtime mode does not allow new entries''"
| "reason_text ExplicitlyBlocked = ''runtime explicitly blocked new entries''"
| "reason_text ConnectivityNotHealthy = ''exchange connectivity is not healthy''"
| "reason_text IntegrityDegraded = ''runtime integrity is degraded''"
| "reason_text DriftExceeded = ''NTP drift exceeds allowed threshold''"
| "reason_text LicenseNotValid = ''live trading license is not valid for new entries''"

datatype gate_error = ErrStatusUnavailable string | BlockError block_reason status

text \<open>\<open>tradinggate.New\<close>: a nil mode table is replaced by the whole default policy.\<close>

definition new_gate :: "policy \<Rightarrow> policy" where
  "new_gate pol = (case AllowedModes pol of None \<Rightarrow> DefaultPolicy | Some _ \<Rightarrow> pol)"

definition mode_allowed :: "policy \<Rightarrow> run_mode \<Rightarrow> bool" where
  "mode_allowed pol m = (case AllowedModes pol of None \<Rightarrow> False | Some ms \<Rightarrow> m \<in> set ms)"

definition isLiveLicenseAllowed :: "license_state \<Rightarrow> bool" where
  "isLiveLicenseAllowed s \<longleftrightarrow> s = LicenseStateLicensed \<or> s = LicenseStateGrace"

definition check_status :: "policy \<Rightarrow> status \<Rightarrow> gate_error + unit" where
  "check_status pol st =
     (if \<not> mode_allowed pol (Mode st) then Err (BlockError ModeNotAllowed st)
      else if NewEntriesBlocked st then Err (BlockError ExplicitlyBlocked st)
      else if RequireConnected pol \<and> Connectivity st \<noteq> ConnectivityStateConnected
        then Err (BlockError ConnectivityNotHealthy st)
      else if RequireTrusted pol \<and> Integrity st \<noteq> IntegrityStateTrusted
        then Err (BlockError IntegrityDegraded st)
      else if MaxNTPDrift pol > 0 \<and> NTPDrift st > MaxNTPDrift pol
        then Err (BlockError DriftExceeded st)
      else if RequireLiveLicense pol \<and> Mode st = RunModeLiveTrading \<and> \<not> isLiveLicenseAllowed (License st)
        then Err (BlockError LicenseNotValid st)
      else Ok ())"

definition CheckNewEntry :: "policy \<Rightarrow> (string + status) option \<Rightarrow> gate_error + unit" where
  "CheckNewEntry pol reader =
     (case reader of
        None \<Rightarrow> Ok ()
      | Some (Inl err) \<Rightarrow> Err (ErrStatusUnavailable err)
      | Some (Inr st) \<Rightarrow> check_status pol st)"

subsection \<open>The contract of a gate\<close>

text \<open>
  The order service and the router see a gate only through \<open>CheckNewEntry\<close>. What they rely on:
  an entry that passes was checked against a status the policy calls safe.
\<close>

definition safe_status :: "policy \<Rightarrow> status \<Rightarrow> bool" where
  "safe_status pol st \<longleftrightarrow>
     mode_allowed pol (Mode st) \<and> \<not> NewEntriesBlocked st
   \<and> (RequireConnected pol \<longrightarrow> Connectivity st = ConnectivityStateConnected)
   \<and> (RequireTrusted pol \<longrightarrow> Integrity st = IntegrityStateTrusted)
   \<and> (0 < MaxNTPDrift pol \<longrightarrow> NTPDrift st \<le> MaxNTPDrift pol)
   \<and> (RequireLiveLicense pol \<longrightarrow> Mode st = RunModeLiveTrading \<longrightarrow> isLiveLicenseAllowed (License st))"

locale entry_gate =
  fixes check :: "(string + status) option \<Rightarrow> gate_error + unit"
    and safe :: "status \<Rightarrow> bool"
  assumes check_safe: "check (Some (Inr st)) = Ok () \<longleftrightarrow> safe st"
    and check_unavailable: "check (Some (Inl e)) \<noteq> Ok ()"
begin

lemma passed_was_safe: "check (Some r) = Ok () \<Longrightarrow> \<exists>st. r = Inr st \<and> safe st"
  using check_safe check_unavailable by (cases r) auto

lemma unsafe_is_blocked: "\<not> safe st \<Longrightarrow> \<exists>e. check (Some (Inr st)) = Err e"
  using check_safe [of st] by (cases "check (Some (Inr st))") auto

end

lemma check_status_Ok_iff: "check_status pol st = Ok () \<longleftrightarrow> safe_status pol st"
  by (auto simp: check_status_def safe_status_def)

interpretation gate: entry_gate "CheckNewEntry pol" "safe_status pol" for pol
  by unfold_locales (simp_all add: CheckNewEntry_def check_status_Ok_iff)

text \<open>Every rejection names the first failing check, with the status it saw.\<close>

lemma check_status_Err: "check_status pol st = Err e \<Longrightarrow> \<exists>r. e = BlockError r st"
  by (auto simp: check_status_def split: if_splits)

lemma safe_status_default:
  "safe_status DefaultPolicy st \<longleftrightarrow>
     (Mode st = RunModePaperTrading \<or> Mode st = RunModeLiveTrading \<and> isLiveLicenseAllowed (License st))
   \<and> \<not> NewEntriesBlocked st \<and> Connectivity st = ConnectivityStateConnected
   \<and> Integrity st = IntegrityStateTrusted \<and> NTPDrift st \<le> 500 * millisecond"
  by (auto simp: safe_status_def DefaultPolicy_def mode_allowed_def time_units)


subsection \<open>Properties\<close>

text \<open>The production gate. With the default policy a new entry passes exactly when there is no
  runtime to ask, or the runtime answered with a status that is in paper trading, or in live
  trading with a licensed or grace licence, and is not blocked, connected, trusted and within
  500 ms of NTP drift; an unreadable runtime always blocks, and a block reports the status it saw.\<close>

theorem default_gate_passes_iff:
  "(CheckNewEntry (new_gate DefaultPolicy) reader = Ok () \<longleftrightarrow>
      reader = None \<or>
      (\<exists>st. reader = Some (Inr st)
        \<and> (Mode st = RunModePaperTrading \<or> Mode st = RunModeLiveTrading \<and> isLiveLicenseAllowed (License st))
        \<and> \<not> NewEntriesBlocked st \<and> Connectivity st = ConnectivityStateConnected
        \<and> Integrity st = IntegrityStateTrusted \<and> NTPDrift st \<le> 500 * millisecond))
   \<and> (CheckNewEntry (new_gate DefaultPolicy) (Some (Inl err)) = Err (ErrStatusUnavailable err))
   \<and> (CheckNewEntry (new_gate DefaultPolicy) (Some (Inr st)) \<in> {Ok ()} \<union> range (\<lambda>r. Err (BlockError r st)))"
proof -
  have pol: "new_gate DefaultPolicy = DefaultPolicy" by (simp add: new_gate_def DefaultPolicy_def)
  have "CheckNewEntry DefaultPolicy reader = Ok () \<longleftrightarrow> reader = None \<or> (\<exists>st. reader = Some (Inr st) \<and> safe_status DefaultPolicy st)"
    using gate.passed_was_safe [of DefaultPolicy] gate.check_safe [of DefaultPolicy]
    by (cases reader) (auto simp: CheckNewEntry_def)
  moreover have "check_status DefaultPolicy st \<in> {Ok ()} \<union> range (\<lambda>r. Err (BlockError r st))"
    using check_status_Err [of DefaultPolicy st] by (cases "check_status DefaultPolicy st") auto
  ultimately show ?thesis by (simp add: pol safe_status_default CheckNewEntry_def)
qed

end
