(* ===== verification/Runtime_Manager.thy ===== *)
theory Runtime_Manager
  imports Entity Channel Trading_Gate
begin

text \<open>
  The runtime state of the agent: \<open>internal/runtime\<close> (state machine, manager and the restore of
  a snapshot after a restart) and the repository of \<open>internal/providers/runtime\<close> that persists
  every change. A manager operation holds the manager's mutex, but \<open>Manager.Transition\<close> changes
  the state machine first and takes the mutex for the status afterwards, so it is two atomic
  steps; \<open>m_Transition\<close> is both in sequence, \<open>mgr_step\<close> lets callers interleave.
\<close>

subsection \<open>The state machine (statemachine.go)\<close>

record mode_transition =
  mt_From :: run_mode
  mt_To :: run_mode
  mt_Timestamp :: time
  mt_Reason :: string

record mode_machine =
  mm_current :: run_mode
  mm_previous :: run_mode
  mm_transitionAt :: time
  mm_listeners :: "(64 word \<times> nat) list"
  mm_nextID :: "64 word"
  mm_chans :: "mode_transition chan_heap"

datatype mode_error = InvalidModeTransition run_mode run_mode | DisclaimerRequired

definition mm_New :: "mode_transition chan_heap \<Rightarrow> time \<Rightarrow> mode_machine" where
  "mm_New heap now =
     \<lparr>mm_current = RunModeIdle, mm_previous = RunModeIdle, mm_transitionAt = now,
      mm_listeners = [], mm_nextID = 1, mm_chans = heap\<rparr>"

definition mm_Restore :: "run_mode \<Rightarrow> time \<Rightarrow> time \<Rightarrow> mode_machine \<Rightarrow> mode_machine" where
  "mm_Restore cur since now m =
     m\<lparr>mm_previous := mm_current m, mm_current := cur,
       mm_transitionAt := if since = 0 then now else since\<rparr>"

definition mm_notify :: "mode_transition \<Rightarrow> mode_machine \<Rightarrow> mode_machine" where
  "mm_notify t m = m\<lparr>mm_chans := offer_all t (map snd (mm_listeners m)) (mm_chans m)\<rparr>"

definition mm_Transition :: "run_mode \<Rightarrow> string \<times> time \<Rightarrow> mode_machine \<Rightarrow> mode_error + mode_machine" where
  "mm_Transition to arg m =
     (case arg of (reason, now) \<Rightarrow>
        let from = mm_current m;
            t = \<lparr>mt_From = from, mt_To = to, mt_Timestamp = now, mt_Reason = reason\<rparr>
        in if from = to then Ok m
           else if from = RunModeHalted \<and> to \<noteq> RunModeIdle then Err (InvalidModeTransition from to)
           else if to = RunModeHalted then
             Ok (mm_notify t (m\<lparr>mm_previous := from, mm_current := to, mm_transitionAt := now\<rparr>))
           else
             Ok (mm_notify t (m\<lparr>mm_previous := from, mm_current := to, mm_transitionAt := now\<rparr>)))"

definition mm_Subscribe :: "nat \<Rightarrow> mode_machine \<Rightarrow> mode_machine \<times> 64 word" where
  "mm_Subscribe ch m =
     (let lid = mm_nextID m
      in (m\<lparr>mm_nextID := mm_nextID m + 1, mm_listeners := AList.update lid ch (mm_listeners m)\<rparr>, lid))"

definition mm_Unsubscribe :: "64 word \<Rightarrow> mode_machine \<Rightarrow> mode_machine" where
  "mm_Unsubscribe lid m = m\<lparr>mm_listeners := AList.delete lid (mm_listeners m)\<rparr>"

lemma mm_Transition_Ok:
  "mm_Transition to (reason, now) m = Ok m' \<Longrightarrow>
     mm_current m' = to \<and> (mm_current m = RunModeHalted \<longrightarrow> to = RunModeIdle \<or> to = RunModeHalted)"
  by (auto simp: mm_Transition_def mm_notify_def Let_def split: if_splits)

interpretation rt: halting_machine mm_current mm_Transition RunModeIdle RunModeHalted
proof
  show "RunModeIdle \<noteq> RunModeHalted" by simp
  fix m i s s'
  show "mm_Transition m i s = Inr s' \<Longrightarrow> mm_current s' = m"
    by (cases i) (auto dest: mm_Transition_Ok)
  show "mm_current s = RunModeHalted \<Longrightarrow> mm_Transition m i s = Inr s' \<Longrightarrow> m = RunModeIdle \<or> m = RunModeHalted"
    by (cases i) (auto dest: mm_Transition_Ok)
  show "mm_current s \<noteq> RunModeHalted \<Longrightarrow> \<exists>s'. mm_Transition RunModeHalted i s = Inr s'"
    by (cases i) (simp add: mm_Transition_def Let_def)
  show "mm_current s = RunModeHalted \<Longrightarrow> \<exists>s'. mm_Transition RunModeIdle i s = Inr s'"
    by (cases i) (simp add: mm_Transition_def Let_def)
qed

subsection \<open>The manager (runtime.go, restore.go)\<close>

record manager =
  stateMachine :: mode_machine
  m_status :: status

definition NewManager :: "mode_transition chan_heap \<Rightarrow> time \<Rightarrow> manager" where
  "NewManager heap now =
     \<lparr>stateMachine = mm_New heap now,
      m_status = \<lparr>Mode = RunModeIdle, Connectivity = ConnectivityStateConnected,
        License = LicenseStateDemo, Integrity = IntegrityStateTrusted, NTPDrift = 0,
        NewEntriesBlocked = False, HaltReason = [], HaltedAtUTC = None, Banner = [],
        AnalyticsDegraded = False, LastUpdatedAtUTC = now\<rparr>\<rparr>"

definition Snapshot :: "manager \<Rightarrow> status" where
  "Snapshot m = m_status m"

definition haltedBanner :: "string \<Rightarrow> string" where
  "haltedBanner reason = (if reason = [] then ''halted'' else ''halted: '' @ reason)"

text \<open>The part of \<open>Transition\<close> under the manager's mutex.\<close>

definition commit_status :: "run_mode \<Rightarrow> string \<Rightarrow> time \<Rightarrow> status \<Rightarrow> status" where
  "commit_status to reason now st =
     (let st1 = st\<lparr>Mode := to\<rparr>;
          st2 = (if to = RunModeHalted then
                   st1\<lparr>HaltReason := reason, HaltedAtUTC := Some now, NewEntriesBlocked := True,
                       Banner := haltedBanner reason\<rparr>
                 else if to = RunModeIdle \<and> HaltReason st1 \<noteq> [] then
                   st1\<lparr>HaltReason := [], HaltedAtUTC := None, NewEntriesBlocked := False, Banner := []\<rparr>
                 else st1)
      in st2\<lparr>LastUpdatedAtUTC := now\<rparr>)"

definition m_Transition :: "run_mode \<Rightarrow> string \<times> time \<Rightarrow> manager \<Rightarrow> mode_error + manager" where
  "m_Transition to arg m =
     (case mm_Transition to arg (stateMachine m) of
        Inl e \<Rightarrow> Err e
      | Inr sm \<Rightarrow> Ok (m\<lparr>stateMachine := sm, m_status := commit_status to (fst arg) (snd arg) (m_status m)\<rparr>))"

definition CurrentState :: "manager \<Rightarrow> run_mode" where
  "CurrentState m = mm_current (stateMachine m)"

definition SetConnectivity :: "connectivity_state \<Rightarrow> time \<Rightarrow> manager \<Rightarrow> manager" where
  "SetConnectivity c now m = m\<lparr>m_status := (m_status m)\<lparr>Connectivity := c, LastUpdatedAtUTC := now\<rparr>\<rparr>"

definition SetLicense :: "license_state \<Rightarrow> time \<Rightarrow> manager \<Rightarrow> manager" where
  "SetLicense l now m =
     (let st1 = (m_status m)\<lparr>License := l\<rparr>;
          st2 = (if l = LicenseStateRiskOnly then st1\<lparr>Banner := ''license expired''\<rparr> else st1)
      in m\<lparr>m_status := st2\<lparr>LastUpdatedAtUTC := now\<rparr>\<rparr>)"

definition UpdateNTPDrift :: "duration \<Rightarrow> time \<Rightarrow> manager \<Rightarrow> manager" where
  "UpdateNTPDrift drift now m =
     (let st1 = (m_status m)\<lparr>NTPDrift := drift\<rparr>;
          st2 = (if drift > 500 * millisecond then st1\<lparr>NewEntriesBlocked := True\<rparr>
                 else if drift < 200 * millisecond then st1\<lparr>NewEntriesBlocked := False\<rparr>
                 else st1)
      in m\<lparr>m_status := st2\<lparr>LastUpdatedAtUTC := now\<rparr>\<rparr>)"

definition SetIntegrity :: "integrity_state \<Rightarrow> time \<Rightarrow> manager \<Rightarrow> manager" where
  "SetIntegrity i now m = m\<lparr>m_status := (m_status m)\<lparr>Integrity := i, LastUpdatedAtUTC := now\<rparr>\<rparr>"

definition EnableAnalyticsDegrade :: "time \<Rightarrow> manager \<Rightarrow> manager" where
  "EnableAnalyticsDegrade now m = m\<lparr>m_status := (m_status m)\<lparr>AnalyticsDegraded := True, LastUpdatedAtUTC := now\<rparr>\<rparr>"

definition m_StartLive :: "bool \<Rightarrow> time \<Rightarrow> manager \<Rightarrow> mode_error + manager" where
  "m_StartLive disclaimerAccepted now m =
     (if \<not> disclaimerAccepted then Err DisclaimerRequired
      else m_Transition RunModeLiveTrading (''live trading requested'', now) m)"

definition m_StartPaper :: "time \<Rightarrow> manager \<Rightarrow> mode_error + manager" where
  "m_StartPaper now m = m_Transition RunModePaperTrading (''paper trading requested'', now) m"

definition m_StopAll :: "time \<Rightarrow> manager \<Rightarrow> mode_error + manager" where
  "m_StopAll now m = m_Transition RunModeIdle (''stop all requested'', now) m"

definition fallbackTime :: "time \<Rightarrow> time \<Rightarrow> time" where
  "fallbackTime v fallback = (if v = 0 then fallback else v)"

definition active_mode :: "run_mode \<Rightarrow> bool" where
  "active_mode mode \<longleftrightarrow> mode \<in> {RunModeLiveTrading, RunModePaperTrading, RunModeScanning,
     RunModeBacktesting, RunModeOptimizing}"

text \<open>The switch on the snapshot's mode in \<open>RestoreSafetySnapshot\<close>.\<close>

definition restore_mode :: "status \<Rightarrow> time \<Rightarrow> status" where
  "restore_mode snapshot now =
     (if Mode snapshot = RunModeHalted then
        (let r1 = (if HaltReason snapshot = []
                   then snapshot\<lparr>HaltReason := ''restored halted runtime snapshot''\<rparr> else snapshot);
             r2 = (if HaltedAtUTC r1 = None \<or> HaltedAtUTC r1 = Some 0
                   then r1\<lparr>HaltedAtUTC := Some (fallbackTime (LastUpdatedAtUTC snapshot) now)\<rparr> else r1)
         in r2\<lparr>NewEntriesBlocked := True, Banner := haltedBanner (HaltReason r2)\<rparr>)
      else if active_mode (Mode snapshot) then
        (let reason = ''unclean restart from '' @ run_mode_string (Mode snapshot)
         in snapshot\<lparr>Mode := RunModeHalted, HaltReason := reason, HaltedAtUTC := Some now,
                     NewEntriesBlocked := True, Banner := haltedBanner reason, LastUpdatedAtUTC := now\<rparr>)
      else
        (let r1 = snapshot\<lparr>Mode := RunModeIdle, HaltReason := [], HaltedAtUTC := None, Banner := []\<rparr>
         in if LastUpdatedAtUTC r1 = 0 then r1\<lparr>LastUpdatedAtUTC := now\<rparr> else r1))"

definition restore_status :: "status \<Rightarrow> time \<Rightarrow> status" where
  "restore_status snapshot now =
     (let r0 = restore_mode snapshot now;
          r1 = (if Connectivity r0 = ConnectivityStateOther [] then r0\<lparr>Connectivity := ConnectivityStateConnected\<rparr> else r0);
          r2 = (if License r1 = LicenseStateOther [] then r1\<lparr>License := LicenseStateDemo\<rparr> else r1);
          r3 = (if Integrity r2 = IntegrityStateOther [] then r2\<lparr>Integrity := IntegrityStateTrusted\<rparr> else r2)
      in if LastUpdatedAtUTC r3 = 0 then r3\<lparr>LastUpdatedAtUTC := now\<rparr> else r3)"

definition RestoreSafetySnapshot :: "status \<Rightarrow> time \<Rightarrow> time \<Rightarrow> manager \<Rightarrow> manager" where
  "RestoreSafetySnapshot snapshot now later m =
     (let restored = restore_status snapshot now
      in m\<lparr>m_status := restored,
           stateMachine := mm_Restore (Mode restored) (LastUpdatedAtUTC restored) later (stateMachine m)\<rparr>)"

subsection \<open>Sequential use: one operation after another\<close>

datatype mgr_op =
    OpTransition run_mode string time
  | OpSetConnectivity connectivity_state time
  | OpSetLicense license_state time
  | OpUpdateNTPDrift duration time
  | OpSetIntegrity integrity_state time
  | OpEnableAnalyticsDegrade time
  | OpRestore status time time

fun mgr_apply :: "mgr_op \<Rightarrow> manager \<Rightarrow> manager" where
  "mgr_apply (OpTransition to reason now) m = (case m_Transition to (reason, now) m of Inl _ \<Rightarrow> m | Inr m' \<Rightarrow> m')"
| "mgr_apply (OpSetConnectivity c now) m = SetConnectivity c now m"
| "mgr_apply (OpSetLicense l now) m = SetLicense l now m"
| "mgr_apply (OpUpdateNTPDrift d now) m = UpdateNTPDrift d now m"
| "mgr_apply (OpSetIntegrity i now) m = SetIntegrity i now m"
| "mgr_apply (OpEnableAnalyticsDegrade now) m = EnableAnalyticsDegrade now m"
| "mgr_apply (OpRestore snap now later) m = RestoreSafetySnapshot snap now later m"

fun mgr_run :: "mgr_op list \<Rightarrow> manager \<Rightarrow> manager" where
  "mgr_run [] m = m"
| "mgr_run (x # xs) m = mgr_run xs (mgr_apply x m)"

text \<open>Status and machine agree, and a halted status says when and is closed to new entries by its mode.\<close>

definition mgr_agrees :: "manager \<Rightarrow> bool" where
  "mgr_agrees m \<longleftrightarrow> Mode (m_status m) = CurrentState m \<and>
     (CurrentState m = RunModeHalted \<longrightarrow> HaltedAtUTC (m_status m) \<noteq> None)"

lemma commit_status_simps [simp]:
  "Mode (commit_status to reason now st) = to"
  "to = RunModeHalted \<Longrightarrow> HaltedAtUTC (commit_status to reason now st) = Some now"
  by (simp_all add: commit_status_def Let_def)

lemma restore_mode_cases:
  "Mode (restore_mode st now) = (if Mode st = RunModeHalted \<or> active_mode (Mode st) then RunModeHalted else RunModeIdle)"
  by (simp add: restore_mode_def Let_def)

lemma restore_status_frame [simp]:
  "Mode (restore_status st now) = Mode (restore_mode st now)"
  "HaltReason (restore_status st now) = HaltReason (restore_mode st now)"
  "HaltedAtUTC (restore_status st now) = HaltedAtUTC (restore_mode st now)"
  "NewEntriesBlocked (restore_status st now) = NewEntriesBlocked (restore_mode st now)"
  "Banner (restore_status st now) = Banner (restore_mode st now)"
  by (simp_all add: restore_status_def Let_def)

lemma restore_mode_halted:
  assumes "Mode st = RunModeHalted \<or> active_mode (Mode st)"
  shows "HaltedAtUTC (restore_mode st now) \<noteq> None" "NewEntriesBlocked (restore_mode st now)"
    "HaltReason (restore_mode st now) \<noteq> []"
  using assms by (auto simp: restore_mode_def Let_def)

lemma m_Transition_agrees [step_invs]:
  assumes "m_Transition to arg m = Ok m'"
  shows "mgr_agrees m'"
proof -
  obtain reason now where arg: "arg = (reason, now)" by (cases arg)
  obtain sm where sm: "mm_Transition to (reason, now) (stateMachine m) = Inr sm"
    and m': "m' = m\<lparr>stateMachine := sm, m_status := commit_status to reason now (m_status m)\<rparr>"
    using assms by (auto simp: m_Transition_def arg split: sum.splits)
  have "mm_current sm = to" using mm_Transition_Ok [OF sm] by simp
  then show ?thesis by (auto simp: mgr_agrees_def CurrentState_def m')
qed

lemma mgr_apply_agrees [step_invs]: "mgr_agrees m \<Longrightarrow> mgr_agrees (mgr_apply x m)"
proof (cases x)
  case (OpTransition to reason now)
  then show "mgr_agrees m \<Longrightarrow> ?thesis" by (auto split: sum.splits intro: m_Transition_agrees)
next
  case (OpRestore snap now later)
  then show "mgr_agrees m \<Longrightarrow> ?thesis"
    using restore_mode_halted(1) [of snap now]
    by (auto simp: RestoreSafetySnapshot_def Let_def mgr_agrees_def CurrentState_def mm_Restore_def
        restore_mode_cases split: if_splits)
qed (simp_all add: mgr_agrees_def CurrentState_def SetConnectivity_def SetLicense_def UpdateNTPDrift_def
      SetIntegrity_def EnableAnalyticsDegrade_def Let_def)

lemma mgr_run_agrees: "mgr_agrees m \<Longrightarrow> mgr_agrees (mgr_run xs m)"
  by (induction xs arbitrary: m) (simp_all add: mgr_apply_agrees)

lemma NewManager_agrees [simp]: "mgr_agrees (NewManager heap now)"
  by (simp add: mgr_agrees_def NewManager_def CurrentState_def mm_New_def)

text \<open>While the machine is halted the production gate refuses, whatever else the status says.\<close>

lemma halted_gate_blocks:
  assumes "mgr_agrees m" "CurrentState m = RunModeHalted"
  shows "check_status DefaultPolicy (Snapshot m) \<noteq> Ok ()"
  using assms by (auto simp: check_status_Ok_iff safe_status_default mgr_agrees_def Snapshot_def)

interpretation mgr: halting_machine CurrentState m_Transition RunModeIdle RunModeHalted
proof
  show "RunModeIdle \<noteq> RunModeHalted" by simp
  fix m i s s'
  obtain reason :: string and now :: time where i: "i = (reason, now)" by (cases i)
  show "m_Transition m i s = Inr s' \<Longrightarrow> CurrentState s' = m"
    by (auto simp: m_Transition_def CurrentState_def i dest: mm_Transition_Ok split: sum.splits)
  show "CurrentState s = RunModeHalted \<Longrightarrow> m_Transition m i s = Inr s' \<Longrightarrow> m = RunModeIdle \<or> m = RunModeHalted"
    by (auto simp: m_Transition_def CurrentState_def i dest: mm_Transition_Ok split: sum.splits)
  show "CurrentState s \<noteq> RunModeHalted \<Longrightarrow> \<exists>s'. m_Transition RunModeHalted i s = Inr s'"
    using rt.halt_accepted [of "stateMachine s" i] by (auto simp: m_Transition_def CurrentState_def)
  show "CurrentState s = RunModeHalted \<Longrightarrow> \<exists>s'. m_Transition RunModeIdle i s = Inr s'"
    using rt.reset_accepted [of "stateMachine s" i] by (auto simp: m_Transition_def CurrentState_def)
qed


subsection \<open>Callers interleaved\<close>

text \<open>
  A \<open>Transition\<close> between its two steps is a pending pair of the mode and the reason. Everything
  else is one step, because it happens under one mutex.
\<close>

type_synonym mgr_sys = "manager \<times> (run_mode \<times> string) multiset"

inductive mgr_step :: "mgr_sys \<Rightarrow> mgr_sys \<Rightarrow> bool" where
  begin_transition: "mm_Transition to (reason, now) (stateMachine m) = Inr sm \<Longrightarrow>
     mgr_step (m, P) (m\<lparr>stateMachine := sm\<rparr>, add_mset (to, reason) P)"
| refused: "mm_Transition to (reason, now) (stateMachine m) = Inl e \<Longrightarrow> mgr_step (m, P) (m, P)"
| commit_transition: "(to, reason) \<in># P \<Longrightarrow>
     mgr_step (m, P) (m\<lparr>m_status := commit_status to reason now (m_status m)\<rparr>, P - {#(to, reason)#})"
| set_connectivity: "mgr_step (m, P) (SetConnectivity c now m, P)"
| set_license: "mgr_step (m, P) (SetLicense l now m, P)"
| update_drift: "mgr_step (m, P) (UpdateNTPDrift d now m, P)"
| set_integrity: "mgr_step (m, P) (SetIntegrity i now m, P)"
| analytics: "mgr_step (m, P) (EnableAnalyticsDegrade now m, P)"

inductive_cases mgr_stepE: "mgr_step s t"

text \<open>Even interleaved, the machine itself leaves the halted mode only for idle.\<close>

lemma mgr_step_machine:
  assumes "mgr_step s t" "CurrentState (fst s) = RunModeHalted"
  shows "CurrentState (fst t) = RunModeHalted \<or> CurrentState (fst t) = RunModeIdle"
  using assms
proof (induction rule: mgr_step.induct)
  case (begin_transition to reason now m sm P)
  then show ?case using mm_Transition_Ok [OF begin_transition(1)] by (auto simp: CurrentState_def)
qed (auto simp: CurrentState_def SetConnectivity_def SetLicense_def UpdateNTPDrift_def
       SetIntegrity_def EnableAnalyticsDegrade_def Let_def)

subsection \<open>Persistence and restart (providers/runtime/repository.go)\<close>

text \<open>
  The repository with its snapshot file. \<open>snap_file\<close> is what the last complete save left: \<open>None\<close> for
  no file, \<open>Some (Inl err)\<close> for a file that does not load, \<open>Some (Inr st)\<close> for a snapshot. The
  environment says of each save whether it succeeds; a failed save leaves the file as it was,
  because the store writes a temporary file and renames it.
\<close>

record repository =
  r_manager :: manager
  has_store :: bool
  snap_file :: "(string + status) option"

datatype repo_error = RepoMode mode_error | PersistFailed string

definition persist :: "string option \<Rightarrow> repository \<Rightarrow> repository \<times> (repo_error + unit)" where
  "persist save_err r =
     (if \<not> has_store r then (r, Ok ())
      else case save_err of
             Some e \<Rightarrow> (r, Err (PersistFailed e))
           | None \<Rightarrow> (r\<lparr>snap_file := Some (Inr (Snapshot (r_manager r)))\<rparr>, Ok ()))"

definition repo_Status :: "repository \<Rightarrow> status" where
  "repo_Status r = Snapshot (r_manager r)"

definition repo_Transition ::
  "run_mode \<Rightarrow> string \<Rightarrow> time \<Rightarrow> string option \<Rightarrow> repository \<Rightarrow> repository \<times> (repo_error + unit)" where
  "repo_Transition to reason now save_err r =
     (case m_Transition to (reason, now) (r_manager r) of
        Inl e \<Rightarrow> (r, Err (RepoMode e))
      | Inr m \<Rightarrow> persist save_err (r\<lparr>r_manager := m\<rparr>))"

definition repo_SetLicense :: "license_state \<Rightarrow> time \<Rightarrow> string option \<Rightarrow> repository \<Rightarrow> repository \<times> (repo_error + unit)" where
  "repo_SetLicense l now save_err r = persist save_err (r\<lparr>r_manager := SetLicense l now (r_manager r)\<rparr>)"

definition repo_SetConnectivity :: "connectivity_state \<Rightarrow> time \<Rightarrow> string option \<Rightarrow> repository \<Rightarrow> repository \<times> (repo_error + unit)" where
  "repo_SetConnectivity c now save_err r = persist save_err (r\<lparr>r_manager := SetConnectivity c now (r_manager r)\<rparr>)"

definition load_failed_snapshot :: "string \<Rightarrow> status" where
  "load_failed_snapshot err =
     \<lparr>Mode = RunModeHalted, Connectivity = ConnectivityStateNetworkWait, License = LicenseStateDemo,
      Integrity = IntegrityStateTrusted, NTPDrift = 0, NewEntriesBlocked = True,
      HaltReason = ''runtime snapshot restore failed: '' @ err, HaltedAtUTC = None, Banner = [],
      AnalyticsDegraded = False, LastUpdatedAtUTC = 0\<rparr>"

definition restoreSnapshot :: "time \<Rightarrow> time \<Rightarrow> string option \<Rightarrow> repository \<Rightarrow> repository" where
  "restoreSnapshot now later save_err r =
     (if \<not> has_store r then r
      else case snap_file r of
             Some (Inl err) \<Rightarrow>
               fst (persist save_err
                 (r\<lparr>r_manager := RestoreSafetySnapshot (load_failed_snapshot err) now later (r_manager r)\<rparr>))
           | None \<Rightarrow> fst (persist save_err r)
           | Some (Inr st) \<Rightarrow>
               fst (persist save_err (r\<lparr>r_manager := RestoreSafetySnapshot st now later (r_manager r)\<rparr>)))"

text \<open>A process start: a new manager, the file as the last run left it.\<close>

definition repo_New :: "mode_transition chan_heap \<Rightarrow> bool \<Rightarrow> (string + status) option \<Rightarrow> time \<Rightarrow> time \<Rightarrow> string option \<Rightarrow> repository" where
  "repo_New heap store f now later save_err =
     restoreSnapshot now later save_err \<lparr>r_manager = NewManager heap now, has_store = store, snap_file = f\<rparr>"

lemma persist_manager [simp]: "r_manager (fst (persist e r)) = r_manager r"
  by (simp add: persist_def split: option.splits)

lemma RestoreSafetySnapshot_simps [simp]:
  "m_status (RestoreSafetySnapshot st now later m) = restore_status st now"
  "CurrentState (RestoreSafetySnapshot st now later m) = Mode (restore_status st now)"
  by (simp_all add: RestoreSafetySnapshot_def Let_def CurrentState_def mm_Restore_def)

lemma restoreSnapshot_manager:
  "r_manager (restoreSnapshot now later e r) =
     (if \<not> has_store r then r_manager r
      else case snap_file r of
             None \<Rightarrow> r_manager r
           | Some (Inl err) \<Rightarrow> RestoreSafetySnapshot (load_failed_snapshot err) now later (r_manager r)
           | Some (Inr st) \<Rightarrow> RestoreSafetySnapshot st now later (r_manager r))"
  by (simp add: restoreSnapshot_def split: option.splits sum.splits)


subsection \<open>Properties\<close>

text \<open>An operation that does not ask for a way out of the halted mode.\<close>

fun keeps_halt :: "mgr_op \<Rightarrow> bool" where
  "keeps_halt (OpTransition to reason now) = (to \<noteq> RunModeIdle)"
| "keeps_halt (OpRestore snap now later) = (Mode snap = RunModeHalted \<or> active_mode (Mode snap))"
| "keeps_halt _ = True"

lemma mgr_apply_keeps_halt:
  "CurrentState m = RunModeHalted \<Longrightarrow> keeps_halt x \<Longrightarrow> CurrentState (mgr_apply x m) = RunModeHalted"
proof (cases x)
  case (OpTransition to reason now)
  then show "CurrentState m = RunModeHalted \<Longrightarrow> keeps_halt x \<Longrightarrow> ?thesis"
    using mgr.halted_sticky [of m "[(to, (reason, now))]"] by simp
next
  case (OpRestore snap now later)
  then show "keeps_halt x \<Longrightarrow> ?thesis" by (simp add: restore_mode_cases)
qed (simp_all add: CurrentState_def SetConnectivity_def SetLicense_def UpdateNTPDrift_def
      SetIntegrity_def EnableAnalyticsDegrade_def Let_def)

lemma mgr_run_keeps_halt:
  "CurrentState m = RunModeHalted \<Longrightarrow> \<forall>x \<in> set xs. keeps_halt x \<Longrightarrow> CurrentState (mgr_run xs m) = RunModeHalted"
  by (induction xs arbitrary: m) (simp_all add: mgr_apply_keeps_halt)

lemma mgr_run_append: "mgr_run (xs @ ys) m = mgr_run ys (mgr_run xs m)"
  by (induction xs arbitrary: m) simp_all

text \<open>C9: An emergency halt holds. In any sequential history of manager operations that starts
  from a new manager and reaches the halted mode, every continuation without a transition to idle
  (or a restore of an idle snapshot) leaves the machine halted, the published status in mode
  halted with its halt time set, and the production trading gate refusing new entries, whatever
  the other operations (drift, licence, connectivity updates) did to the status.\<close>

theorem halt_holds_until_reset:
  assumes "CurrentState (mgr_run before (NewManager heap t0)) = RunModeHalted"
    and "\<forall>x \<in> set after. keeps_halt x"
  shows "CurrentState (mgr_run (before @ after) (NewManager heap t0)) = RunModeHalted
    \<and> Mode (Snapshot (mgr_run (before @ after) (NewManager heap t0))) = RunModeHalted
    \<and> HaltedAtUTC (Snapshot (mgr_run (before @ after) (NewManager heap t0))) \<noteq> None
    \<and> CheckNewEntry DefaultPolicy (Some (Inr (Snapshot (mgr_run (before @ after) (NewManager heap t0))))) \<noteq> Ok ()"
proof -
  let ?m = "mgr_run (before @ after) (NewManager heap t0)"
  have h: "CurrentState ?m = RunModeHalted"
    using mgr_run_keeps_halt [OF assms] by (simp add: mgr_run_append)
  have a: "mgr_agrees ?m" by (simp add: mgr_run_agrees)
  from halted_gate_blocks [OF a h] a h show ?thesis
    by (simp add: mgr_agrees_def Snapshot_def CheckNewEntry_def)
qed

theorem halt_holds_until_reset_witness:
  "CurrentState (mgr_run ([OpTransition RunModeLiveTrading ''go'' 1, OpTransition RunModeHalted ''stop'' 2]
      @ [OpUpdateNTPDrift 0 3, OpTransition RunModeLiveTrading ''again'' 4])
      (NewManager (\<lambda>_. make_chan 1) 0)) = RunModeHalted"
proof -
  have h: "CurrentState (mgr_run [OpTransition RunModeLiveTrading ''go'' 1, OpTransition RunModeHalted ''stop'' 2]
      (NewManager (\<lambda>_. make_chan 1) 0)) = RunModeHalted"
    by (simp add: m_Transition_def mm_Transition_def NewManager_def mm_New_def CurrentState_def mm_notify_def Let_def)
  show ?thesis
    using halt_holds_until_reset [OF h, of "[OpUpdateNTPDrift 0 3, OpTransition RunModeLiveTrading ''again'' 4]"]
    by simp
qed

definition decisive :: "duration \<Rightarrow> bool" where
  "decisive d \<longleftrightarrow> d > 500 * millisecond \<or> d < 200 * millisecond"

lemma UpdateNTPDrift_blocked:
  "NewEntriesBlocked (m_status (UpdateNTPDrift d now m)) =
     (if decisive d then d > 500 * millisecond else NewEntriesBlocked (m_status m))"
  by (simp add: UpdateNTPDrift_def Let_def decisive_def time_units)

text \<open>The NTP drift hysteresis. After a sequence of drift updates the block flag is decided
  by the last sample outside the dead band from 200 ms to 500 ms (above: blocked, below:
  unblocked); if there is none it keeps its value. The mode plays no part, so a small drift
  also clears the flag of a halted runtime.\<close>

theorem drift_hysteresis:
  "NewEntriesBlocked (m_status (fold (\<lambda>(d, now). UpdateNTPDrift d now) samples m)) =
     (case filter decisive (rev (map fst samples)) of
        [] \<Rightarrow> NewEntriesBlocked (m_status m)
      | d # _ \<Rightarrow> d > 500 * millisecond)"
proof (induction samples rule: rev_induct)
  case Nil
  then show ?case by simp
next
  case (snoc x xs)
  then show ?case by (cases x) (simp add: UpdateNTPDrift_blocked)
qed

text \<open>C10: A restart never resumes trading. Whatever the snapshot file holds (nothing, a file that
  does not load, or a snapshot in any mode, also one of an unknown version), a process that
  starts with a snapshot store comes up idle or halted with status and machine agreeing; and
  when the file does not load, or its mode was halted or any active mode, it comes up halted,
  with new entries blocked, a halt reason and a halt time.\<close>

theorem restart_never_resumes:
  assumes "has_store (repo_New heap store f now later e)"
  defines "m \<equiv> r_manager (repo_New heap store f now later e)"
  shows "mgr_agrees m \<and> CurrentState m \<in> {RunModeIdle, RunModeHalted}
    \<and> (case f of
         None \<Rightarrow> CurrentState m = RunModeIdle
       | Some (Inl err) \<Rightarrow> CurrentState m = RunModeHalted \<and> NewEntriesBlocked (Snapshot m) \<and> HaltReason (Snapshot m) \<noteq> []
       | Some (Inr st) \<Rightarrow>
           if Mode st = RunModeHalted \<or> active_mode (Mode st)
           then CurrentState m = RunModeHalted \<and> NewEntriesBlocked (Snapshot m) \<and> HaltReason (Snapshot m) \<noteq> []
           else CurrentState m = RunModeIdle)"
proof -
  have s: "store" using assms(1) by (simp add: repo_New_def restoreSnapshot_def persist_def split: if_splits)
  have m: "m = (case f of
             None \<Rightarrow> NewManager heap now
           | Some (Inl err) \<Rightarrow> RestoreSafetySnapshot (load_failed_snapshot err) now later (NewManager heap now)
           | Some (Inr st) \<Rightarrow> RestoreSafetySnapshot st now later (NewManager heap now))"
    using s by (simp add: m_def repo_New_def restoreSnapshot_manager split: option.splits sum.splits)
  have agree: "mgr_agrees (RestoreSafetySnapshot st now later (NewManager heap now))" for st
    using mgr_apply_agrees [of "NewManager heap now" "OpRestore st now later"] by simp
  have lf: "Mode (load_failed_snapshot err) = RunModeHalted" for err by (simp add: load_failed_snapshot_def)
  have idle: "CurrentState (NewManager heap now) = RunModeIdle"
    by (simp add: NewManager_def CurrentState_def mm_New_def)
  show ?thesis
    using restore_mode_halted [OF disjI1, OF lf] restore_mode_halted agree idle
    by (auto simp: m restore_mode_cases lf Snapshot_def split: option.splits sum.splits)
qed

theorem restart_never_resumes_witness:
  "CurrentState (r_manager (repo_New (\<lambda>_. make_chan 1) True (Some (Inl ''bad json'')) 5 6 None)) = RunModeHalted"
proof -
  have h: "has_store (repo_New (\<lambda>_. make_chan 1) True (Some (Inl ''bad json'')) 5 6 None)"
    by (simp add: repo_New_def restoreSnapshot_def persist_def)
  show ?thesis using restart_never_resumes [OF h] by simp
qed

text \<open>A crash after a persisted change of mode is seen by the next start: if a transition to a
  trading mode or to halted was accepted and saved, then a process started from that file is
  halted and the production gate refuses new entries.\<close>

theorem crash_after_transition_is_halted:
  assumes "repo_Transition to reason now None r = (r', Ok ())" and "has_store r"
    and "to = RunModeHalted \<or> active_mode to"
  shows "CurrentState (r_manager (repo_New heap True (snap_file r') t1 t2 e)) = RunModeHalted
    \<and> CheckNewEntry DefaultPolicy (Some (Inr (repo_Status (repo_New heap True (snap_file r') t1 t2 e)))) \<noteq> Ok ()"
proof -
  obtain m where m: "m_Transition to (reason, now) (r_manager r) = Inr m"
    using assms(1) by (auto simp: repo_Transition_def split: sum.splits)
  have f: "snap_file r' = Some (Inr (Snapshot m))"
    using assms(1,2) m by (auto simp: repo_Transition_def persist_def)
  have mode: "Mode (Snapshot m) = to"
    using m by (auto simp: m_Transition_def Snapshot_def split: sum.splits)
  let ?m = "RestoreSafetySnapshot (Snapshot m) t1 t2 (NewManager heap t1)"
  have c: "CurrentState ?m = RunModeHalted" using assms(3) by (simp add: restore_mode_cases mode)
  have "mgr_agrees ?m" using mgr_apply_agrees [of "NewManager heap t1" "OpRestore (Snapshot m) t1 t2"] by simp
  from halted_gate_blocks [OF this c] c show ?thesis
    by (simp add: repo_New_def restoreSnapshot_manager f repo_Status_def CheckNewEntry_def)
qed

theorem crash_after_transition_is_halted_witness:
  "CurrentState (r_manager (repo_New (\<lambda>_. make_chan 1) True
     (snap_file (fst (repo_Transition RunModePaperTrading ''go'' 1 None
        (repo_New (\<lambda>_. make_chan 1) True None 0 0 None)))) 5 6 None)) = RunModeHalted"
proof -
  let ?r = "repo_New (\<lambda>_. make_chan 1) True None 0 0 None"
  have st: "has_store ?r" by (simp add: repo_New_def restoreSnapshot_def persist_def)
  have t: "repo_Transition RunModePaperTrading ''go'' 1 None ?r =
      (fst (repo_Transition RunModePaperTrading ''go'' 1 None ?r), Ok ())"
    by (simp add: repo_Transition_def repo_New_def restoreSnapshot_def persist_def m_Transition_def
        mm_Transition_def NewManager_def mm_New_def Let_def mm_notify_def)
  show ?thesis
    using crash_after_transition_is_halted [OF t st, of "\<lambda>_. make_chan 1" 5 6 None]
    by (simp add: active_mode_def)
qed

text \<open>A race between a start and an emergency stop. Because \<open>Manager.Transition\<close> changes the
  machine and the status in two separately locked steps, there is an interleaving of a paper
  start, an emergency halt and a drift update after which the machine is halted and yet the
  published status is in mode paper trading and passes the production trading gate.\<close>

theorem halt_race_leaves_gate_open:
  "\<exists>s. mgr_step\<^sup>*\<^sup>* (NewManager (\<lambda>_. make_chan 1) 0, {#}) s \<and> snd s = {#} \<and>
       CurrentState (fst s) = RunModeHalted \<and>
       CheckNewEntry DefaultPolicy (Some (Inr (Snapshot (fst s)))) = Ok ()"
proof -
  define m0 where "m0 = NewManager (\<lambda>_. make_chan 1) 0"
  define sm1 where "sm1 = (case mm_Transition RunModePaperTrading (''paper'', 1) (stateMachine m0) of Inr x \<Rightarrow> x | _ \<Rightarrow> stateMachine m0)"
  define m1 where "m1 = m0\<lparr>stateMachine := sm1\<rparr>"
  define sm2 where "sm2 = (case mm_Transition RunModeHalted (''stop'', 2) sm1 of Inr x \<Rightarrow> x | _ \<Rightarrow> sm1)"
  define m2 where "m2 = m1\<lparr>stateMachine := sm2\<rparr>"
  define m3 where "m3 = m2\<lparr>m_status := commit_status RunModeHalted ''stop'' 3 (m_status m2)\<rparr>"
  define m4 where "m4 = m3\<lparr>m_status := commit_status RunModePaperTrading ''paper'' 4 (m_status m3)\<rparr>"
  define m5 where "m5 = UpdateNTPDrift 0 5 m4"
  let ?a = "(RunModePaperTrading, ''paper'')" and ?b = "(RunModeHalted, ''stop'')"
  note mdefs = m0_def NewManager_def mm_New_def mm_Transition_def mm_notify_def Let_def
  have t1: "mm_Transition RunModePaperTrading (''paper'', 1) (stateMachine m0) = Inr sm1"
    by (simp add: sm1_def mdefs)
  have t2: "mm_Transition RunModeHalted (''stop'', 2) (stateMachine m1) = Inr sm2"
    by (simp add: sm2_def m1_def sm1_def mdefs)
  have s1: "mgr_step (m0, {#}) (m1, {#?a#})"
    using begin_transition [OF t1, of "{#}"] by (simp add: m1_def)
  have s2: "mgr_step (m1, {#?a#}) (m2, {#?b, ?a#})"
    using begin_transition [OF t2, of "{#?a#}"] by (simp add: m2_def)
  have s3: "mgr_step (m2, {#?b, ?a#}) (m3, {#?a#})"
    using commit_transition [of RunModeHalted "''stop''" "{#?b, ?a#}" m2 3] by (simp add: m3_def)
  have s4: "mgr_step (m3, {#?a#}) (m4, {#})"
    using commit_transition [of RunModePaperTrading "''paper''" "{#?a#}" m3 4] by (simp add: m4_def)
  have s5: "mgr_step (m4, {#}) (m5, {#})" by (simp add: m5_def update_drift)
  have run: "mgr_step\<^sup>*\<^sup>* (m0, {#}) (m5, {#})"
    using s1 s2 s3 s4 s5 by (meson converse_rtranclp_into_rtranclp rtranclp.rtrancl_refl)
  have "CurrentState m5 = RunModeHalted"
    by (simp add: m5_def m4_def m3_def m2_def sm2_def m1_def sm1_def UpdateNTPDrift_def CurrentState_def mdefs)
  moreover have "safe_status DefaultPolicy (Snapshot m5)"
    by (simp add: safe_status_default m5_def m4_def m3_def m2_def m1_def Snapshot_def UpdateNTPDrift_def
        commit_status_def mdefs time_units)
  ultimately show ?thesis
    using run by (intro exI [of _ "(m5, {#})"]) (simp add: m0_def CheckNewEntry_def check_status_Ok_iff)
qed

end
