(* ===== verification/Sql_Table.thy ===== *)
theory Sql_Table
  imports Entity "HOL-Library.List_Lexorder" "HOL-Library.Char_ord"
begin

text \<open>
  What the SQLite repositories of \<open>internal/providers/storage/sqlite\<close> share: the text encoding of
  decimals and instants, the classification of driver errors, ordering and paging of a query
  result, scanning of rows, and the contract \<open>keyed_store\<close> that the repositories provide to the
  services. The database itself is third-party: a table is the list of its rows in insertion
  order, a statement may fail with any driver message (the argument \<open>fault\<close>), and the
  constraints of the schema in \<open>migrations.go\<close> are checked by the insert.
\<close>

subsection \<open>The environment of a repository\<close>

text \<open>
  Decimals and instants are stored as text. \<open>dec_text\<close> and \<open>dec_parse\<close> stand for
  \<open>decimal.String\<close> and \<open>decimal.NewFromString\<close>, \<open>time_text\<close> and \<open>time_parse\<close> for
  \<open>Format\<close> and \<open>Parse\<close> with RFC3339Nano, \<open>unique_msg\<close> for the driver's message on a violated
  uniqueness constraint.
\<close>

record 'd sql_env =
  dec_text :: "'d \<Rightarrow> string"
  dec_parse :: "string \<Rightarrow> 'd option"
  time_text :: "time \<Rightarrow> string"
  time_parse :: "string \<Rightarrow> time option"
  unique_msg :: string

text \<open>The documented behaviour of the encodings: what was printed parses to the same value.\<close>

definition codec_ok :: "'d sql_env \<Rightarrow> bool" where
  "codec_ok E \<longleftrightarrow> (\<forall>d. dec_parse E (dec_text E d) = Some d) \<and> (\<forall>t. time_parse E (time_text E t) = Some t)"

text \<open>
  The errors a repository returns. \<open>sqlite.ErrNotFound\<close> and \<open>storage.ErrNotFound\<close> are two
  different values with the same message.
\<close>

datatype store_error =
    SqliteErrNotFound | SqliteErrDuplicateKey | StorageErrNotFound
  | DbError string | ParseError string string

subsection \<open>Driver errors (db.go)\<close>

definition isConstraintError :: "string \<Rightarrow> bool" where
  "isConstraintError errMsg \<longleftrightarrow> 0 < length errMsg \<and>
     ((18 \<le> length errMsg \<and> take 18 errMsg = ''constraint failed:'') \<or>
      (16 \<le> length errMsg \<and> take 16 errMsg = ''UNIQUE constraint'') \<or>
      (19 \<le> length errMsg \<and> take 19 errMsg = ''PRIMARY KEY constraint''))"

definition unique_detected :: "'d sql_env \<Rightarrow> bool" where
  "unique_detected E \<longleftrightarrow> isConstraintError (unique_msg E)"

subsection \<open>Text columns (scalars.go, order_repository.go)\<close>

definition parseDecimalField :: "'d sql_env \<Rightarrow> string \<Rightarrow> string \<Rightarrow> store_error + 'd" where
  "parseDecimalField E field raw =
     (case dec_parse E raw of None \<Rightarrow> Err (ParseError field raw) | Some v \<Rightarrow> Ok v)"

definition parseTimeField :: "'d sql_env \<Rightarrow> string \<Rightarrow> string \<Rightarrow> store_error + time" where
  "parseTimeField E field raw =
     (case time_parse E raw of None \<Rightarrow> Err (ParseError field raw) | Some v \<Rightarrow> Ok v)"

definition nullString :: "string \<Rightarrow> string option" where
  "nullString s = (if s \<noteq> [] then Some s else None)"

definition nullTime :: "'d sql_env \<Rightarrow> time option \<Rightarrow> string option" where
  "nullTime E t = map_option (time_text E) t"

text \<open>A nullable time column: NULL reads as no instant.\<close>

definition parseNullTime :: "'d sql_env \<Rightarrow> string \<Rightarrow> string option \<Rightarrow> store_error + time option" where
  "parseNullTime E field raw =
     (case raw of None \<Rightarrow> Ok None
      | Some s \<Rightarrow> and_then (parseTimeField E field s) (\<lambda>t. Ok (Some t)))"

definition stringOrEmpty :: "string option \<Rightarrow> string" where
  "stringOrEmpty s = (case s of None \<Rightarrow> [] | Some v \<Rightarrow> v)"

lemma column_roundtrip [simp]:
  assumes "codec_ok E"
  shows "parseDecimalField E f (dec_text E d) = Ok d"
    and "parseTimeField E f (time_text E t) = Ok t"
    and "parseNullTime E f (nullTime E ot) = Ok ot"
  using assms by (auto simp: codec_ok_def parseDecimalField_def parseTimeField_def parseNullTime_def
      nullTime_def split: option.splits)

lemma stringOrEmpty_nullString [simp]: "stringOrEmpty (nullString s) = s"
  by (simp add: nullString_def stringOrEmpty_def)

lemma nullString_eq_Some: "nullString s = Some x \<longleftrightarrow> s = x \<and> x \<noteq> []"
  by (auto simp: nullString_def)

lemma nullTime_None [simp]: "nullTime E t = None \<longleftrightarrow> t = None"
  by (simp add: nullTime_def)

subsection \<open>Query results\<close>

text \<open>\<open>ORDER BY\<close> a text column compares bytes. The order of rows with equal keys is not defined.\<close>

definition order_asc :: "('r \<Rightarrow> string) \<Rightarrow> 'r list \<Rightarrow> 'r list" where
  "order_asc key rows = sort_key key rows"

definition order_desc :: "('r \<Rightarrow> string) \<Rightarrow> 'r list \<Rightarrow> 'r list" where
  "order_desc key rows = rev (sort_key key (rev rows))"

text \<open>\<open>LIMIT ? OFFSET ?\<close>: a negative limit is no limit, a negative offset is none.\<close>

definition page :: "int \<Rightarrow> int \<Rightarrow> 'r list \<Rightarrow> 'r list" where
  "page limit offset rows =
     (let rest = drop (nat offset) rows in if limit < 0 then rest else take (nat limit) rest)"

text \<open>The scan loop: the first row that does not parse ends it with that error.\<close>

fun scan_all :: "('r \<Rightarrow> 'e + 'a) \<Rightarrow> 'r list \<Rightarrow> 'e + 'a list" where
  "scan_all f [] = Ok []"
| "scan_all f (r # rs) = and_then (f r) (\<lambda>x. and_then (scan_all f rs) (\<lambda>xs. Ok (x # xs)))"

lemma set_order_asc [simp]: "set (order_asc key rows) = set rows"
  by (simp add: order_asc_def)

lemma set_order_desc [simp]: "set (order_desc key rows) = set rows"
  by (simp add: order_desc_def)

lemma scan_all_Ok: "scan_all f rs = Ok xs \<Longrightarrow> list_all2 (\<lambda>r x. f r = Ok x) rs xs"
  by (induction rs arbitrary: xs) (auto simp: and_then_Ok)

lemma scan_all_set: "scan_all f rs = Ok xs \<Longrightarrow> x \<in> set xs \<Longrightarrow> \<exists>r \<in> set rs. f r = Ok x"
  by (induction rs arbitrary: xs) (auto simp: and_then_Ok)

lemma scan_all_complete: "scan_all f rs = Ok xs \<Longrightarrow> r \<in> set rs \<Longrightarrow> \<exists>x \<in> set xs. f r = Ok x"
  by (induction rs arbitrary: xs) (auto simp: and_then_Ok)

lemma scan_all_total: "(\<And>r. r \<in> set rs \<Longrightarrow> f r = Ok (g r)) \<Longrightarrow> scan_all f rs = Ok (map g rs)"
  by (induction rs) auto

text \<open>What a query over a table with distinct keys loads: one entity per selected row.\<close>

lemma scanned_query:
  assumes d: "distinct (map key rows)" and scan: "scan_all f (order_desc col (filter P rows)) = Ok xs"
    and k: "\<And>r x. f r = Ok x \<Longrightarrow> okey x = key r"
  shows "distinct (map okey xs)"
    and "find (\<lambda>x. okey x = j) xs =
      (case row_of key rows j of None \<Rightarrow> None | Some r \<Rightarrow> if P r then (case f r of Inl e \<Rightarrow> None | Inr x \<Rightarrow> Some x) else None)"
proof -
  have "list_all2 (\<lambda>r x. f r = Ok x) (order_desc col (filter P rows)) xs" by (rule scan_all_Ok [OF scan])
  then have ids: "map okey xs = map key (order_desc col (filter P rows))"
    by (induction rule: list_all2_induct) (auto dest: k)
  show dist: "distinct (map okey xs)"
    using d unfolding ids order_desc_def by (simp add: distinct_map inj_on_def rev_map [symmetric])
  have none: "find (\<lambda>x. okey x = j) xs = None" if "\<And>r. r \<in> set rows \<Longrightarrow> P r \<Longrightarrow> key r \<noteq> j"
    using that scan_all_set [OF scan] k by (fastforce simp: find_None_iff)
  show "find (\<lambda>x. okey x = j) xs =
      (case row_of key rows j of None \<Rightarrow> None | Some r \<Rightarrow> if P r then (case f r of Inl e \<Rightarrow> None | Inr x \<Rightarrow> Some x) else None)"
  proof (cases "row_of key rows j")
    case None
    then show ?thesis using none row_of_None_iff [of key rows j] by auto
  next
    case (Some r)
    note r = row_of_Some_key [OF Some] row_of_Some_set [OF Some]
    have only: "r' = r" if "r' \<in> set rows" "key r' = j" for r'
      using row_of_distinct [OF d that(1)] that(2) Some by simp
    show ?thesis
    proof (cases "P r")
      case False
      then have "find (\<lambda>x. okey x = j) xs = None" using only by (intro none) blast
      then show ?thesis using Some False by simp
    next
      case True
      then obtain x where x: "x \<in> set xs" "f r = Ok x"
        using scan_all_complete [OF scan, of r] r by auto
      have "okey x = j" using k [OF x(2)] r by simp
      moreover have "y = x" if "y \<in> set xs" "okey y = j" for y
        using that x(1) calculation dist by (metis distinct_map inj_onD)
      moreover have "find (\<lambda>x. okey x = j) xs \<noteq> None"
        using x(1) calculation(1) by (auto simp: find_None_iff)
      ultimately have "find (\<lambda>x. okey x = j) xs = Some x"
        by (cases "find (\<lambda>x. okey x = j) xs") (auto simp: find_Some_iff, metis nth_mem)
      then show ?thesis using Some True x(2) by simp
    qed
  qed
qed

subsection \<open>The contract of a keyed repository\<close>

text \<open>
  \<open>lookup\<close> reads the row of a key, \<open>ins\<close> and \<open>upd\<close> are the repository's \<open>Create\<close> and
  \<open>Update\<close> under an environment (encodings and a possible fault), \<open>fresh\<close> is the row of a new
  entity, \<open>merge\<close> the row after an update (an update leaves some columns alone).
\<close>

datatype ('f, 'o) store_op = Ins 'f 'o | Upd 'f 'o

fun store_run ::
  "('f \<Rightarrow> 'o \<Rightarrow> 's \<Rightarrow> 's \<times> ('e + unit)) \<Rightarrow> ('f \<Rightarrow> 'o \<Rightarrow> 's \<Rightarrow> 's \<times> ('e + unit)) \<Rightarrow> ('f, 'o) store_op list \<Rightarrow> 's \<Rightarrow> 's" where
  "store_run ins upd [] s = s"
| "store_run ins upd (Ins f x # ops) s = store_run ins upd ops (fst (ins f x s))"
| "store_run ins upd (Upd f x # ops) s = store_run ins upd ops (fst (upd f x s))"

text \<open>The loop over loaded entities that several services write: change each and save it, until a save fails.\<close>

fun each_update ::
  "('o \<Rightarrow> 'o option) \<Rightarrow> ('o \<Rightarrow> 's \<Rightarrow> 's \<times> ('e + unit)) \<Rightarrow> 'o list \<Rightarrow> 's \<Rightarrow> 's \<times> ('e + unit)" where
  "each_update f upd [] s = (s, Ok ())"
| "each_update f upd (x # xs) s =
     (case f x of
        None \<Rightarrow> each_update f upd xs s
      | Some y \<Rightarrow> (case upd y s of
                    (s', Inl e) \<Rightarrow> (s', Err e)
                  | (s', Inr _) \<Rightarrow> each_update f upd xs s'))"

text \<open>The same loop where a failed save is logged and the loop goes on; it returns what was saved.\<close>

fun each_try ::
  "('o \<Rightarrow> 'o option) \<Rightarrow> ('o \<Rightarrow> 's \<Rightarrow> 's \<times> ('e + unit)) \<Rightarrow> 'o list \<Rightarrow> 's \<Rightarrow> 's \<times> 'o list" where
  "each_try f upd [] s = (s, [])"
| "each_try f upd (x # xs) s =
     (case f x of
        None \<Rightarrow> each_try f upd xs s
      | Some y \<Rightarrow> (case upd y s of
                    (s', Inl e) \<Rightarrow> each_try f upd xs s'
                  | (s', Inr _) \<Rightarrow> (case each_try f upd xs s' of (s'', saved) \<Rightarrow> (s'', y # saved))))"

locale keyed_store =
  fixes lookup :: "'s \<Rightarrow> 'k \<Rightarrow> 'r option"
    and key :: "'o \<Rightarrow> 'k"
    and fresh :: "'f \<Rightarrow> 'o \<Rightarrow> 'r"
    and merge :: "'f \<Rightarrow> 'o \<Rightarrow> 'r \<Rightarrow> 'r"
    and ins :: "'f \<Rightarrow> 'o \<Rightarrow> 's \<Rightarrow> 's \<times> ('e + unit)"
    and upd :: "'f \<Rightarrow> 'o \<Rightarrow> 's \<Rightarrow> 's \<times> ('e + unit)"
  assumes ins_ok: "ins f x s = (s', Inr ()) \<Longrightarrow> lookup s (key x) = None \<and> lookup s' (key x) = Some (fresh f x)"
    and ins_other: "k \<noteq> key x \<Longrightarrow> lookup (fst (ins f x s)) k = lookup s k"
    and ins_err: "ins f x s = (s', Inl e) \<Longrightarrow> s' = s"
    and upd_ok: "upd f x s = (s', Inr ()) \<Longrightarrow>
        \<exists>r. lookup s (key x) = Some r \<and> lookup s' (key x) = Some (merge f x r)"
    and upd_other: "k \<noteq> key x \<Longrightarrow> lookup (fst (upd f x s)) k = lookup s k"
    and upd_err: "upd f x s = (s', Inl e) \<Longrightarrow> s' = s"
begin

lemma upd_dom: "lookup (fst (upd f x s)) k = None \<longleftrightarrow> lookup s k = None"
proof (cases "upd f x s")
  case (Pair s' r)
  show ?thesis
  proof (cases r)
    case (Inl e)
    then show ?thesis using upd_err [of f x s s' e] Pair by simp
  next
    case (Inr u)
    then show ?thesis using upd_ok [of f x s s'] upd_other [of k x f s] Pair by (cases "k = key x") auto
  qed
qed

lemma upd_row:
  assumes "lookup s k = Some r"
  shows "lookup (fst (upd f x s)) k = Some r \<or>
    (key x = k \<and> lookup (fst (upd f x s)) k = Some (merge f x r))"
proof (cases "upd f x s")
  case (Pair s' u)
  show ?thesis
  proof (cases u)
    case (Inl e)
    then show ?thesis using upd_err [of f x s s' e] Pair assms by simp
  next
    case (Inr v)
    then show ?thesis using upd_ok [of f x s s'] upd_other [of k x f s] Pair assms by (cases "k = key x") auto
  qed
qed

lemma ins_row:
  assumes "lookup s k = Some r"
  shows "lookup (fst (ins f x s)) k = Some r"
proof (cases "ins f x s")
  case (Pair s' u)
  show ?thesis
  proof (cases u)
    case (Inl e)
    then show ?thesis using ins_err [of f x s s' e] Pair assms by simp
  next
    case (Inr v)
    then show ?thesis using ins_ok [of f x s s'] ins_other [of k x f s] Pair assms by (cases "k = key x") auto
  qed
qed

text \<open>Columns that no update writes never change, and no row disappears.\<close>

lemma frozen_columns:
  assumes "\<And>f x r. col (merge f x r) = col r" and "lookup s k = Some r"
  shows "\<exists>r'. lookup (store_run ins upd ops s) k = Some r' \<and> col r' = col r"
  using assms(2)
proof (induction ops arbitrary: s r)
  case Nil
  then show ?case by simp
next
  case (Cons x ops)
  show ?case
  proof (cases x)
    case (Ins f e)
    then show ?thesis using Cons.IH [OF ins_row [OF Cons.prems]] by simp
  next
    case (Upd f e)
    obtain r1 where r1: "lookup (fst (upd f e s)) k = Some r1" "col r1 = col r"
      using upd_row [OF Cons.prems, of f e] assms(1) by auto
    then show ?thesis using Cons.IH [OF r1(1)] Upd by simp
  qed
qed

lemma each_update_cases:
  obtains "g x = None" "each_update g (\<lambda>z. upd (h z) z) (x # xs) s = each_update g (\<lambda>z. upd (h z) z) xs s"
  | y where "g x = Some y" "fst (each_update g (\<lambda>z. upd (h z) z) (x # xs) s) = fst (upd (h y) y s)"
  | y where "g x = Some y"
      "each_update g (\<lambda>z. upd (h z) z) (x # xs) s = each_update g (\<lambda>z. upd (h z) z) xs (fst (upd (h y) y s))"
proof (cases "g x")
  case None
  then show ?thesis by (intro that(1)) simp_all
next
  case (Some y)
  obtain s' u where u: "upd (h y) y s = (s', u)" by (cases "upd (h y) y s")
  show ?thesis
  proof (cases u)
    case (Inl e)
    then show ?thesis using Some u by (intro that(2) [of y]) simp_all
  next
    case (Inr v)
    then show ?thesis using Some u by (intro that(3) [of y]) simp_all
  qed
qed

lemma each_update_dom: "lookup (fst (each_update g (\<lambda>z. upd (h z) z) xs s)) k = None \<longleftrightarrow> lookup s k = None"
proof (induction xs arbitrary: s)
  case (Cons x xs)
  show ?case
  proof (cases rule: each_update_cases [of g x h xs s])
    case 1
    show ?thesis unfolding 1(2) by (rule Cons.IH)
  next
    case (2 y)
    show ?thesis unfolding 2(2) by (rule upd_dom)
  next
    case (3 y)
    show ?thesis unfolding 3(2) Cons.IH by (rule upd_dom)
  qed
qed simp

lemma each_update_other:
  assumes "\<forall>x \<in> set xs. \<forall>y. g x = Some y \<longrightarrow> key y \<noteq> k"
  shows "lookup (fst (each_update g (\<lambda>z. upd (h z) z) xs s)) k = lookup s k"
  using assms
proof (induction xs arbitrary: s)
  case (Cons x xs)
  have o: "g x = Some y \<Longrightarrow> lookup (fst (upd (h y) y s)) k = lookup s k" for y
    using Cons.prems by (intro upd_other) auto
  have ih: "lookup (fst (each_update g (\<lambda>z. upd (h z) z) xs t)) k = lookup t k" for t
    using Cons.IH Cons.prems by simp
  show ?case
  proof (cases rule: each_update_cases [of g x h xs s])
    case 1
    show ?thesis unfolding 1(2) by (rule ih)
  next
    case (2 y)
    show ?thesis unfolding 2(2) by (rule o [OF 2(1)])
  next
    case (3 y)
    show ?thesis unfolding 3(2) ih by (rule o [OF 3(1)])
  qed
qed simp

lemma each_update_row:
  assumes "lookup s k = Some r" "P r" "\<And>x y r. g x = Some y \<Longrightarrow> P (merge (h y) y r)"
  shows "\<exists>r'. lookup (fst (each_update g (\<lambda>z. upd (h z) z) xs s)) k = Some r' \<and> P r'"
  using assms(1,2)
proof (induction xs arbitrary: s r)
  case (Cons x xs)
  have u: "\<exists>r1. lookup (fst (upd (h y) y s)) k = Some r1 \<and> P r1" if "g x = Some y" for y
    using upd_row [OF Cons.prems(1), of "h y" y] Cons.prems(2) assms(3) [OF that] by auto
  show ?case
  proof (cases rule: each_update_cases [of g x h xs s])
    case 1
    show ?thesis unfolding 1(2) by (rule Cons.IH [OF Cons.prems])
  next
    case (2 y)
    show ?thesis unfolding 2(2) by (rule u [OF 2(1)])
  next
    case (3 y)
    obtain r1 where r1: "lookup (fst (upd (h y) y s)) k = Some r1" "P r1" using u [OF 3(1)] by blast
    show ?thesis unfolding 3(2) by (rule Cons.IH [OF r1])
  qed
qed simp

text \<open>After a loop that saved everything, each entity it changed has its row merged once.\<close>

lemma each_update_changed:
  assumes "each_update g (\<lambda>z. upd (h z) z) xs s = (s', Inr u)"
    and "distinct (map key xs)" "\<forall>x \<in> set xs. \<forall>y. g x = Some y \<longrightarrow> key y = key x"
    and "x \<in> set xs" "g x = Some y" "lookup s (key x) = Some r"
  shows "lookup s' (key x) = Some (merge (h y) y r)"
  using assms
proof (induction xs arbitrary: s)
  case (Cons z zs)
  have rest: "\<forall>x \<in> set zs. \<forall>y. g x = Some y \<longrightarrow> key y \<noteq> key z"
    using Cons.prems(2,3) by (metis distinct.simps(2) image_eqI list.set_intros(2) list.set_map list.simps(9))
  show ?case
  proof (cases "x = z")
    case True
    then obtain s1 where s1: "upd (h y) y s = (s1, Inr ())" "each_update g (\<lambda>z. upd (h z) z) zs s1 = (s', Inr u)"
      using Cons.prems(1,5) by (auto split: prod.splits sum.splits)
    have "key y = key x" using Cons.prems(3,4,5) by blast
    then have "lookup s1 (key x) = Some (merge (h y) y r)" using upd_ok [OF s1(1)] Cons.prems(6) by auto
    moreover have "lookup s' (key x) = lookup s1 (key x)"
      using each_update_other [of zs g "key z" h s1] rest s1(2) True by simp
    ultimately show ?thesis by simp
  next
    case False
    then have x: "x \<in> set zs" using Cons.prems(4) by simp
    have ne: "key x \<noteq> key z" using rest x Cons.prems(3,5) by (metis list.set_intros(2))
    show ?thesis
    proof (cases "g z")
      case None
      then show ?thesis using Cons x by simp
    next
      case (Some w)
      then obtain s1 where s1: "upd (h w) w s = (s1, Inr ())" "each_update g (\<lambda>z. upd (h z) z) zs s1 = (s', Inr u)"
        using Cons.prems(1) by (auto split: prod.splits sum.splits)
      have "key w = key z" using Cons.prems(3) Some by simp
      then have "lookup s1 (key x) = Some r" using upd_other [of "key x" w "h w" s] ne s1(1) Cons.prems(6) by simp
      then show ?thesis using Cons.IH [OF s1(2)] Cons.prems x by simp
    qed
  qed
qed simp

end

text \<open>A store whose updates of existing rows fail exactly on a fault of the call.\<close>

locale faulty_store = keyed_store lookup key fresh merge ins upd
  for lookup :: "'s \<Rightarrow> 'k \<Rightarrow> 'r option" and key :: "'o \<Rightarrow> 'k"
    and fresh :: "'f \<Rightarrow> 'o \<Rightarrow> 'r" and merge :: "'f \<Rightarrow> 'o \<Rightarrow> 'r \<Rightarrow> 'r"
    and ins :: "'f \<Rightarrow> 'o \<Rightarrow> 's \<Rightarrow> 's \<times> ('e + unit)" and upd :: "'f \<Rightarrow> 'o \<Rightarrow> 's \<Rightarrow> 's \<times> ('e + unit)" +
  fixes fails :: "'f \<Rightarrow> bool"
  assumes upd_result: "lookup s (key x) \<noteq> None \<Longrightarrow> (\<exists>s'. upd f x s = (s', Inr ())) \<longleftrightarrow> \<not> fails f"
begin

lemma upd_lookup:
  assumes "lookup s (key x) \<noteq> None"
  shows "lookup (fst (upd f x s)) k =
     (if k = key x \<and> \<not> fails f then map_option (merge f x) (lookup s k) else lookup s k)"
proof (cases "fails f")
  case True
  obtain s' u where u: "upd f x s = (s', u)" by (cases "upd f x s")
  with True assms upd_result [of s x f] obtain e where "u = Inl e" by (cases u) auto
  then show ?thesis using upd_err [of f x s s' e] u True by simp
next
  case False
  then obtain s' where s': "upd f x s = (s', Inr ())" using upd_result [OF assms] by blast
  then show ?thesis using upd_ok [OF s'] upd_other [of k x f s] False by auto
qed

text \<open>What one element of the loop saves.\<close>

definition saved_of :: "('o \<Rightarrow> 'o option) \<Rightarrow> ('o \<Rightarrow> 'f) \<Rightarrow> 'o \<Rightarrow> 'o option" where
  "saved_of g h x = (case g x of None \<Rightarrow> None | Some y \<Rightarrow> if fails (h y) then None else Some y)"

lemma each_try_step:
  assumes "lookup s (key x) \<noteq> None" "\<forall>y. g x = Some y \<longrightarrow> key y = key x"
  shows "\<exists>s'. (\<forall>k. lookup s' k =
       (if k = key x then (case saved_of g h x of None \<Rightarrow> lookup s k | Some y \<Rightarrow> map_option (merge (h y) y) (lookup s k))
        else lookup s k)) \<and>
     fst (each_try g (\<lambda>z. upd (h z) z) (x # xs) s) = fst (each_try g (\<lambda>z. upd (h z) z) xs s') \<and>
     snd (each_try g (\<lambda>z. upd (h z) z) (x # xs) s) =
       (case saved_of g h x of None \<Rightarrow> [] | Some y \<Rightarrow> [y]) @ snd (each_try g (\<lambda>z. upd (h z) z) xs s')"
proof (cases "g x")
  case None
  then show ?thesis by (intro exI [of _ s]) (simp add: saved_of_def)
next
  case (Some y)
  have y: "key y = key x" "lookup s (key y) \<noteq> None" using assms Some by simp_all
  obtain s' u where u: "upd (h y) y s = (s', u)" by (cases "upd (h y) y s")
  show ?thesis
  proof (cases u)
    case (Inl e)
    then have f: "fails (h y)" using upd_result [OF y(2), of "h y"] u by auto
    have "s' = s" using upd_err [of "h y" y s s' e] u Inl by simp
    then show ?thesis using Some u Inl f by (intro exI [of _ s]) (simp add: saved_of_def)
  next
    case (Inr v)
    then have f: "\<not> fails (h y)" using upd_result [OF y(2), of "h y"] u by auto
    have "lookup s' k = (if k = key x then map_option (merge (h y) y) (lookup s k) else lookup s k)" for k
      using upd_lookup [OF y(2), of "h y" k] u f y(1) by simp
    then show ?thesis using Some u Inr f
      by (intro exI [of _ s']) (simp add: saved_of_def split: prod.splits)
  qed
qed

lemma each_try_row:
  assumes "distinct (map key xs)" "\<forall>x \<in> set xs. \<forall>y. g x = Some y \<longrightarrow> key y = key x"
    and "\<forall>x \<in> set xs. lookup s (key x) \<noteq> None"
  shows "lookup (fst (each_try g (\<lambda>z. upd (h z) z) xs s)) k =
     (case find (\<lambda>x. key x = k) xs of
        None \<Rightarrow> lookup s k
      | Some x \<Rightarrow> (case saved_of g h x of None \<Rightarrow> lookup s k | Some y \<Rightarrow> map_option (merge (h y) y) (lookup s k)))"
    and "snd (each_try g (\<lambda>z. upd (h z) z) xs s) = List.map_filter (saved_of g h) xs"
proof -
  have "lookup (fst (each_try g (\<lambda>z. upd (h z) z) xs s)) k =
     (case find (\<lambda>x. key x = k) xs of
        None \<Rightarrow> lookup s k
      | Some x \<Rightarrow> (case saved_of g h x of None \<Rightarrow> lookup s k | Some y \<Rightarrow> map_option (merge (h y) y) (lookup s k)))
     \<and> snd (each_try g (\<lambda>z. upd (h z) z) xs s) = List.map_filter (saved_of g h) xs"
    using assms
  proof (induction xs arbitrary: s)
    case (Cons x xs)
    obtain s' where s': "\<forall>k. lookup s' k =
          (if k = key x then (case saved_of g h x of None \<Rightarrow> lookup s k | Some y \<Rightarrow> map_option (merge (h y) y) (lookup s k))
           else lookup s k)"
        "fst (each_try g (\<lambda>z. upd (h z) z) (x # xs) s) = fst (each_try g (\<lambda>z. upd (h z) z) xs s')"
        "snd (each_try g (\<lambda>z. upd (h z) z) (x # xs) s) =
           (case saved_of g h x of None \<Rightarrow> [] | Some y \<Rightarrow> [y]) @ snd (each_try g (\<lambda>z. upd (h z) z) xs s')"
      using each_try_step [of s x g h xs] Cons.prems by auto
    have "\<forall>x \<in> set xs. lookup s' (key x) \<noteq> None"
      using Cons.prems(1,3) by (auto simp: s'(1) split: option.splits)
    then have ih: "lookup (fst (each_try g (\<lambda>z. upd (h z) z) xs s')) k =
         (case find (\<lambda>x. key x = k) xs of
            None \<Rightarrow> lookup s' k
          | Some x \<Rightarrow> (case saved_of g h x of None \<Rightarrow> lookup s' k | Some y \<Rightarrow> map_option (merge (h y) y) (lookup s' k)))"
        "snd (each_try g (\<lambda>z. upd (h z) z) xs s') = List.map_filter (saved_of g h) xs"
      using Cons.IH [of s'] Cons.prems by simp_all
    have "find (\<lambda>z. key z = key x) xs = None"
      using Cons.prems(1) by (auto simp: find_None_iff intro: rev_image_eqI)
    moreover have "List.map_filter (saved_of g h) (x # xs) =
        (case saved_of g h x of None \<Rightarrow> [] | Some y \<Rightarrow> [y]) @ List.map_filter (saved_of g h) xs"
      by (cases "saved_of g h x") (simp_all add: List.map_filter_def)
    ultimately show ?case
      using ih s'(2,3) spec [OF s'(1), of k] by (cases "key x = k") (auto split: option.splits)
  qed (simp add: List.map_filter_def)
  then show "lookup (fst (each_try g (\<lambda>z. upd (h z) z) xs s)) k =
     (case find (\<lambda>x. key x = k) xs of
        None \<Rightarrow> lookup s k
      | Some x \<Rightarrow> (case saved_of g h x of None \<Rightarrow> lookup s k | Some y \<Rightarrow> map_option (merge (h y) y) (lookup s k)))"
    "snd (each_try g (\<lambda>z. upd (h z) z) xs s) = List.map_filter (saved_of g h) xs" by simp_all
qed

end

subsection \<open>Properties\<close>

text \<open>Recognising constraint violations. Of the three prefixes that \<open>isConstraintError\<close> tests only
  the first can ever match: the other two compare a slice with a longer literal. A driver that
  words its message as \<open>UNIQUE constraint failed\<close> would not be recognised.\<close>

theorem constraint_error_is_one_prefix:
  "isConstraintError msg = (take 18 msg = ''constraint failed:'')"
proof -
  have "length (take 16 msg) \<noteq> length ''UNIQUE constraint''" "length (take 19 msg) \<noteq> length ''PRIMARY KEY constraint''"
    by simp_all
  then have "take 16 msg \<noteq> ''UNIQUE constraint''" "take 19 msg \<noteq> ''PRIMARY KEY constraint''" by metis+
  moreover have "take 18 msg = ''constraint failed:'' \<Longrightarrow> 18 \<le> length msg"
    by (drule arg_cong [where f = length]) simp
  ultimately show ?thesis by (auto simp: isConstraintError_def)
qed

text \<open>An encoding for concrete inputs: integers in unary with a sign.\<close>

definition unary :: "int \<Rightarrow> string" where
  "unary n = (if n < 0 then CHR ''-'' # replicate (nat (- n)) CHR ''1'' else replicate (nat n) CHR ''1'')"

definition parse_unary :: "string \<Rightarrow> int option" where
  "parse_unary s = (case s of [] \<Rightarrow> Some 0
     | c # cs \<Rightarrow> Some (if c = CHR ''-'' then - int (length cs) else int (length s)))"

definition sample_env :: "int sql_env" where
  "sample_env = \<lparr>dec_text = unary, dec_parse = parse_unary, time_text = unary, time_parse = parse_unary,
                 unique_msg = ''constraint failed: UNIQUE constraint failed''\<rparr>"

lemma sample_env_ok [simp]: "codec_ok sample_env"
proof -
  have "parse_unary (unary n) = Some n" for n
    by (cases "nat n") (auto simp: unary_def parse_unary_def split: list.splits)
  then show ?thesis by (simp add: codec_ok_def sample_env_def)
qed

end
