(* ===== verification/Order_Repo.thy ===== *)
theory Order_Repo
  imports Sql_Table
begin

text \<open>
  The SQLite order repository, \<open>order_repository.go\<close>, on the table \<open>orders\<close> of
  \<open>migrations.go\<close>: \<open>id\<close> is the primary key, \<open>client_order_id\<close> is unique. Columns hold what
  the code writes: decimals and instants as text, NULL for an empty exchange id and for absent
  instants; the string enumerations are stored as they are.
\<close>

record order_row =
  c_id :: string
  c_client_order_id :: string
  c_exchange_order_id :: "string option"
  c_strategy_id :: string
  c_symbol :: string
  c_side :: order_side
  c_type :: order_type
  c_status :: order_status
  c_time_in_force :: time_in_force
  c_quantity :: string
  c_price :: string
  c_filled_qty :: string
  c_remaining_qty :: string
  c_avg_fill_price :: string
  c_created_at :: string
  c_updated_at :: string
  c_submitted_at :: "string option"
  c_filled_at :: "string option"

type_synonym order_table = "order_row list"

definition order_to_row :: "'d sql_env \<Rightarrow> 'd order \<Rightarrow> order_row" where
  "order_to_row E ord =
     \<lparr>c_id = o_ID ord, c_client_order_id = o_ClientOrderID ord,
      c_exchange_order_id = nullString (o_ExchangeOrderID ord),
      c_strategy_id = o_StrategyID ord, c_symbol = o_Symbol ord, c_side = o_Side ord,
      c_type = o_Type ord, c_status = o_Status ord, c_time_in_force = o_TimeInForce ord,
      c_quantity = dec_text E (o_Quantity ord), c_price = dec_text E (o_Price ord),
      c_filled_qty = dec_text E (o_FilledQty ord), c_remaining_qty = dec_text E (o_RemainingQty ord),
      c_avg_fill_price = dec_text E (o_AvgFillPrice ord),
      c_created_at = time_text E (o_CreatedAtUTC ord), c_updated_at = time_text E (o_UpdatedAtUTC ord),
      c_submitted_at = nullTime E (o_SubmittedAtUTC ord), c_filled_at = nullTime E (o_FilledAtUTC ord)\<rparr>"

definition order_Create :: "'d sql_env \<times> string option \<Rightarrow> 'd order \<Rightarrow> order_table \<Rightarrow> order_table \<times> (store_error + unit)" where
  "order_Create ef ord rows =
     (case ef of (E, fault) \<Rightarrow>
       let failed = (\<lambda>msg. (rows, Err (if isConstraintError msg then SqliteErrDuplicateKey
                                        else DbError (''create order: '' @ msg))))
       in case fault of
            Some msg \<Rightarrow> failed msg
          | None \<Rightarrow>
              if \<exists>r \<in> set rows. c_id r = o_ID ord \<or> c_client_order_id r = o_ClientOrderID ord
              then failed (unique_msg E)
              else (rows @ [order_to_row E ord], Ok ()))"

text \<open>The columns that \<open>UPDATE orders SET\<close> writes.\<close>

definition order_set_columns :: "'d sql_env \<times> string option \<Rightarrow> 'd order \<Rightarrow> order_row \<Rightarrow> order_row" where
  "order_set_columns ef ord r =
     (case ef of (E, fault) \<Rightarrow>
        r\<lparr>c_exchange_order_id := nullString (o_ExchangeOrderID ord), c_status := o_Status ord,
          c_filled_qty := dec_text E (o_FilledQty ord), c_remaining_qty := dec_text E (o_RemainingQty ord),
          c_avg_fill_price := dec_text E (o_AvgFillPrice ord), c_updated_at := time_text E (o_UpdatedAtUTC ord),
          c_submitted_at := nullTime E (o_SubmittedAtUTC ord), c_filled_at := nullTime E (o_FilledAtUTC ord)\<rparr>)"

definition order_Update :: "'d sql_env \<times> string option \<Rightarrow> 'd order \<Rightarrow> order_table \<Rightarrow> order_table \<times> (store_error + unit)" where
  "order_Update ef ord rows =
     (case snd ef of
        Some msg \<Rightarrow> (rows, Err (DbError (''update order: '' @ msg)))
      | None \<Rightarrow>
          if \<exists>r \<in> set rows. c_id r = o_ID ord
          then (map (\<lambda>r. if c_id r = o_ID ord then order_set_columns ef ord r else r) rows, Ok ())
          else (rows, Err SqliteErrNotFound))"

definition scanOrder :: "'d sql_env \<Rightarrow> order_row \<Rightarrow> store_error + 'd order" where
  "scanOrder E r =
     and_then (parseDecimalField E ''orders.quantity'' (c_quantity r)) (\<lambda>qty.
     and_then (parseDecimalField E ''orders.price'' (c_price r)) (\<lambda>price.
     and_then (parseDecimalField E ''orders.filled_qty'' (c_filled_qty r)) (\<lambda>filled.
     and_then (parseDecimalField E ''orders.remaining_qty'' (c_remaining_qty r)) (\<lambda>remaining.
     and_then (parseDecimalField E ''orders.avg_fill_price'' (c_avg_fill_price r)) (\<lambda>avg.
     and_then (parseTimeField E ''orders.created_at_utc'' (c_created_at r)) (\<lambda>created.
     and_then (parseTimeField E ''orders.updated_at_utc'' (c_updated_at r)) (\<lambda>updated.
     and_then (parseNullTime E ''orders.submitted_at_utc'' (c_submitted_at r)) (\<lambda>submitted.
     and_then (parseNullTime E ''orders.filled_at_utc'' (c_filled_at r)) (\<lambda>filledAt.
     Ok \<lparr>o_ID = c_id r, o_ClientOrderID = c_client_order_id r,
         o_ExchangeOrderID = stringOrEmpty (c_exchange_order_id r),
         o_StrategyID = c_strategy_id r, o_Symbol = c_symbol r, o_Side = c_side r, o_Type = c_type r,
         o_Status = c_status r, o_TimeInForce = c_time_in_force r, o_Quantity = qty, o_Price = price,
         o_FilledQty = filled, o_RemainingQty = remaining, o_AvgFillPrice = avg,
         o_CreatedAtUTC = created, o_UpdatedAtUTC = updated, o_SubmittedAtUTC = submitted,
         o_FilledAtUTC = filledAt\<rparr>)))))))))"

text \<open>\<open>QueryRow\<close> with a condition: the first row that satisfies it; errors of a scan are wrapped.\<close>

definition wrap_error :: "string \<Rightarrow> store_error + 'a \<Rightarrow> store_error + 'a" where
  "wrap_error context res = (case res of Inl (DbError m) \<Rightarrow> Err (DbError (context @ m)) | _ \<Rightarrow> res)"

definition query_order ::
  "'d sql_env \<times> string option \<Rightarrow> string \<Rightarrow> (order_row \<Rightarrow> bool) \<Rightarrow> order_table \<Rightarrow> store_error + 'd order" where
  "query_order ef context cond rows =
     (case snd ef of
        Some msg \<Rightarrow> Err (DbError (context @ msg))
      | None \<Rightarrow> (case find cond rows of
                   None \<Rightarrow> Err SqliteErrNotFound
                 | Some r \<Rightarrow> wrap_error context (scanOrder (fst ef) r)))"

definition order_GetByID :: "'d sql_env \<times> string option \<Rightarrow> string \<Rightarrow> order_table \<Rightarrow> store_error + 'd order" where
  "order_GetByID ef oid rows = query_order ef ''get order by id: '' (\<lambda>r. c_id r = oid) rows"

definition order_GetByClientOrderID :: "'d sql_env \<times> string option \<Rightarrow> string \<Rightarrow> order_table \<Rightarrow> store_error + 'd order" where
  "order_GetByClientOrderID ef cid rows =
     query_order ef ''get order by client_order_id: '' (\<lambda>r. c_client_order_id r = cid) rows"

definition order_GetByExchangeOrderID :: "'d sql_env \<times> string option \<Rightarrow> string \<Rightarrow> order_table \<Rightarrow> store_error + 'd order" where
  "order_GetByExchangeOrderID ef eid rows =
     query_order ef ''get order by exchange_order_id: '' (\<lambda>r. c_exchange_order_id r = Some eid) rows"

definition query_orders ::
  "'d sql_env \<times> string option \<Rightarrow> string \<Rightarrow> order_table \<Rightarrow> store_error + 'd order list" where
  "query_orders ef context result =
     (case snd ef of
        Some msg \<Rightarrow> Err (DbError (context @ msg))
      | None \<Rightarrow> scan_all (scanOrder (fst ef)) result)"

definition order_ListByStrategy ::
  "'d sql_env \<times> string option \<Rightarrow> string \<Rightarrow> int \<Rightarrow> int \<Rightarrow> order_table \<Rightarrow> store_error + 'd order list" where
  "order_ListByStrategy ef sid limit offset rows =
     query_orders ef ''list orders by strategy: ''
       (page limit offset (order_desc c_created_at (filter (\<lambda>r. c_strategy_id r = sid) rows)))"

definition order_ListActive :: "'d sql_env \<times> string option \<Rightarrow> order_table \<Rightarrow> store_error + 'd order list" where
  "order_ListActive ef rows =
     query_orders ef ''list active orders: ''
       (order_desc c_created_at
         (filter (\<lambda>r. c_status r \<in> {OrderStatusSubmitted, OrderStatusPartial}) rows))"

definition order_ListInFlight :: "'d sql_env \<times> string option \<Rightarrow> time \<Rightarrow> order_table \<Rightarrow> store_error + 'd order list" where
  "order_ListInFlight ef since rows =
     query_orders ef ''list in-flight orders: ''
       (order_asc c_created_at
         (filter (\<lambda>r. c_status r \<in> {OrderStatusPending, OrderStatusSubmitted, OrderStatusPartial} \<and>
                      time_text (fst ef) since \<le> c_created_at r) rows))"

subsection \<open>Lemmas\<close>

abbreviation order_lookup :: "order_table \<Rightarrow> string \<Rightarrow> order_row option" where
  "order_lookup rows oid \<equiv> row_of c_id rows oid"

lemma order_to_row_simps [simp]:
  "c_id (order_to_row E ord) = o_ID ord" "c_client_order_id (order_to_row E ord) = o_ClientOrderID ord"
  "c_status (order_to_row E ord) = o_Status ord"
  "c_exchange_order_id (order_to_row E ord) = nullString (o_ExchangeOrderID ord)"
  by (simp_all add: order_to_row_def)

lemma order_set_columns_simps [simp]:
  "c_id (order_set_columns ef ord r) = c_id r"
  "c_client_order_id (order_set_columns ef ord r) = c_client_order_id r"
  "c_strategy_id (order_set_columns ef ord r) = c_strategy_id r"
  "c_symbol (order_set_columns ef ord r) = c_symbol r"
  "c_side (order_set_columns ef ord r) = c_side r"
  "c_quantity (order_set_columns ef ord r) = c_quantity r"
  "c_price (order_set_columns ef ord r) = c_price r"
  "c_created_at (order_set_columns ef ord r) = c_created_at r"
  "c_status (order_set_columns ef ord r) = o_Status ord"
  "c_exchange_order_id (order_set_columns ef ord r) = nullString (o_ExchangeOrderID ord)"
  by (simp_all add: order_set_columns_def split: prod.splits)

lemma find_id_row_of: "find (\<lambda>r. c_id r = k) rows = row_of c_id rows k"
  by (simp add: row_of_def)

text \<open>Writing and reading back.\<close>

lemma scanOrder_to_row [simp]: "codec_ok E \<Longrightarrow> scanOrder E (order_to_row E ord) = Ok ord"
  by (simp add: scanOrder_def order_to_row_def)

lemma order_Create_Ok:
  "order_Create (E, fault) ord rows = (rows', Inr ()) \<Longrightarrow>
     fault = None \<and> rows' = rows @ [order_to_row E ord] \<and>
     (\<forall>r \<in> set rows. c_id r \<noteq> o_ID ord \<and> c_client_order_id r \<noteq> o_ClientOrderID ord)"
  by (auto simp: order_Create_def Let_def split: option.splits if_splits)

lemma order_Create_Err: "order_Create ef ord rows = (rows', Inl e) \<Longrightarrow> rows' = rows"
  by (auto simp: order_Create_def Let_def split: option.splits if_splits prod.splits)

lemma order_Update_Err: "order_Update ef ord rows = (rows', Inl e) \<Longrightarrow> rows' = rows"
  by (auto simp: order_Update_def split: option.splits if_splits)

lemma row_of_update:
  "row_of c_id (map (\<lambda>r. if c_id r = k' then order_set_columns ef ord r else r) rows) k =
     map_option (\<lambda>r. if k = k' then order_set_columns ef ord r else r) (row_of c_id rows k)"
  by (induction rows) auto

lemma order_Update_lookup:
  "order_lookup (fst (order_Update ef ord rows)) k =
     (if k = o_ID ord \<and> snd ef = None then map_option (order_set_columns ef ord) (order_lookup rows k)
      else order_lookup rows k)"
  using row_of_None_iff [of c_id rows "o_ID ord"]
  by (cases "order_lookup rows k") (auto simp: order_Update_def row_of_update split: option.splits)

lemma order_Update_Ok_iff:
  "snd (order_Update ef ord rows) = Inr () \<longleftrightarrow> snd ef = None \<and> order_lookup rows (o_ID ord) \<noteq> None"
  using row_of_None_iff [of c_id rows "o_ID ord"]
  by (auto simp: order_Update_def image_iff split: option.splits)

interpretation orders: keyed_store order_lookup o_ID
    "\<lambda>ef :: 'd sql_env \<times> string option. order_to_row (fst ef)" order_set_columns order_Create order_Update
proof
  fix ef :: "'d sql_env \<times> string option" and x :: "'d order" and s s' :: order_table and e k
  obtain E fault where ef: "ef = (E, fault)" by (cases ef)
  show "order_Create ef x s = (s', Inr ()) \<Longrightarrow>
      order_lookup s (o_ID x) = None \<and> order_lookup s' (o_ID x) = Some (order_to_row (fst ef) x)"
    using order_Create_Ok [of E fault x s s'] row_of_None_iff [of c_id s "o_ID x"]
    by (auto simp: ef row_of_append)
  show "k \<noteq> o_ID x \<Longrightarrow> order_lookup (fst (order_Create ef x s)) k = order_lookup s k"
    by (auto simp: ef order_Create_def Let_def row_of_append split: option.splits)
  show "order_Create ef x s = (s', Inl e) \<Longrightarrow> s' = s" by (rule order_Create_Err)
  show "order_Update ef x s = (s', Inr ()) \<Longrightarrow>
      \<exists>r. order_lookup s (o_ID x) = Some r \<and> order_lookup s' (o_ID x) = Some (order_set_columns ef x r)"
    using order_Update_Ok_iff [of ef x s] order_Update_lookup [of ef x s "o_ID x"] by auto
  show "k \<noteq> o_ID x \<Longrightarrow> order_lookup (fst (order_Update ef x s)) k = order_lookup s k"
    by (simp add: order_Update_lookup)
  show "order_Update ef x s = (s', Inl e) \<Longrightarrow> s' = s" by (rule order_Update_Err)
qed

interpretation order_faults: faulty_store order_lookup o_ID
    "\<lambda>ef :: 'd sql_env \<times> string option. order_to_row (fst ef)" order_set_columns order_Create order_Update
    "\<lambda>ef. snd ef \<noteq> None"
proof
  fix ef :: "'d sql_env \<times> string option" and x :: "'d order" and s :: order_table
  assume "order_lookup s (o_ID x) \<noteq> None"
  then show "(\<exists>s'. order_Update ef x s = (s', Inr ())) = (\<not> snd ef \<noteq> None)"
    using order_Update_Ok_iff [of ef x s] by (metis prod.collapse snd_conv)
qed

text \<open>The schema's uniqueness constraints hold of every table the repository produces.\<close>

definition order_keys_ok :: "order_table \<Rightarrow> bool" where
  "order_keys_ok rows \<longleftrightarrow> distinct (map c_id rows) \<and> distinct (map c_client_order_id rows)"

lemma order_Create_keys [step_invs]: "order_keys_ok rows \<Longrightarrow> order_keys_ok (fst (order_Create ef ord rows))"
  by (auto simp: order_keys_ok_def order_Create_def Let_def split: option.splits prod.splits)

lemma order_Update_keys [step_invs]: "order_keys_ok rows \<Longrightarrow> order_keys_ok (fst (order_Update ef ord rows))"
proof -
  have k: "map c_id (map (\<lambda>r. if c_id r = o_ID ord then order_set_columns ef ord r else r) rows) = map c_id rows"
    "map c_client_order_id (map (\<lambda>r. if c_id r = o_ID ord then order_set_columns ef ord r else r) rows)
     = map c_client_order_id rows"
    by (simp_all add: comp_def if_distrib cong: if_cong)
  have "map c_id (fst (order_Update ef ord rows)) = map c_id rows \<and>
      map c_client_order_id (fst (order_Update ef ord rows)) = map c_client_order_id rows"
    unfolding order_Update_def by (cases "snd ef") (simp_all add: k del: map_map)
  then show "order_keys_ok rows \<Longrightarrow> ?thesis" by (simp add: order_keys_ok_def)
qed

lemma store_run_keys: "order_keys_ok rows \<Longrightarrow> order_keys_ok (store_run order_Create order_Update ops rows)"
proof (induction ops arbitrary: rows)
  case (Cons x ops)
  then show ?case by (cases x) (simp_all add: order_Create_keys order_Update_keys)
qed simp

lemma order_GetByID_None:
  "order_GetByID (E, None) k rows =
     (case order_lookup rows k of None \<Rightarrow> Err SqliteErrNotFound
      | Some r \<Rightarrow> wrap_error ''get order by id: '' (scanOrder E r))"
  by (simp add: order_GetByID_def query_order_def find_id_row_of split: option.splits)

lemma wrap_error_Ok [simp]: "wrap_error m (Inr x) = Inr x"
  by (simp add: wrap_error_def)

lemma scanOrder_Ok:
  "scanOrder E r = Inr ord \<Longrightarrow> o_ID ord = c_id r \<and> o_Status ord = c_status r \<and>
     o_ExchangeOrderID ord = stringOrEmpty (c_exchange_order_id r)"
  by (auto simp: scanOrder_def and_then_Ok)

lemma wrap_error_Inr [simp]: "wrap_error m res = Inr x \<longleftrightarrow> res = Inr x"
  by (auto simp: wrap_error_def split: sum.splits store_error.splits)

lemma order_GetByID_Ok:
  assumes "order_GetByID (E, f) oid rows = Inr ord"
  shows "f = None \<and> (\<exists>r. order_lookup rows oid = Some r \<and> scanOrder E r = Inr ord \<and> c_id r = oid)"
  using assms row_of_Some_key [of c_id rows oid]
  by (auto simp: order_GetByID_def query_order_def find_id_row_of split: option.splits)

lemma order_ListActive_Ok:
  assumes "order_ListActive (E, f) rows = Inr ords"
  shows "f = None \<and> scan_all (scanOrder E) (order_desc c_created_at
      (filter (\<lambda>r. c_status r \<in> {OrderStatusSubmitted, OrderStatusPartial}) rows)) = Inr ords"
  using assms by (auto simp: order_ListActive_def query_orders_def split: option.splits)

lemma order_ListActive_row:
  assumes "order_ListActive (E, f) rows = Inr ords" "ord \<in> set ords"
  shows "\<exists>r \<in> set rows. c_status r \<in> {OrderStatusSubmitted, OrderStatusPartial} \<and> scanOrder E r = Inr ord"
  using scan_all_set [OF conjunct2 [OF order_ListActive_Ok [OF assms(1)]] assms(2)] by auto

lemma order_ListActive_find:
  assumes "order_keys_ok rows" "order_ListActive (E, f) rows = Inr ords"
  shows "distinct (map o_ID ords)"
    and "find (\<lambda>x. o_ID x = k) ords =
      (case order_lookup rows k of None \<Rightarrow> None
       | Some r \<Rightarrow> if c_status r \<in> {OrderStatusSubmitted, OrderStatusPartial}
                  then (case scanOrder E r of Inl e \<Rightarrow> None | Inr x \<Rightarrow> Some x) else None)"
proof -
  have d: "distinct (map c_id rows)" using assms(1) by (simp add: order_keys_ok_def)
  note q = scanned_query [OF d conjunct2 [OF order_ListActive_Ok [OF assms(2)]], of o_ID]
  show "distinct (map o_ID ords)" by (rule q(1)) (simp add: scanOrder_Ok)
  show "find (\<lambda>x. o_ID x = k) ords =
      (case order_lookup rows k of None \<Rightarrow> None
       | Some r \<Rightarrow> if c_status r \<in> {OrderStatusSubmitted, OrderStatusPartial}
                  then (case scanOrder E r of Inl e \<Rightarrow> None | Inr x \<Rightarrow> Some x) else None)"
    by (rule q(2)) (simp add: scanOrder_Ok)
qed

text \<open>A saved change of a loaded order is loaded as it was saved.\<close>

lemma scanOrder_set_columns:
  assumes "codec_ok E" "scanOrder E r = Ok ord"
    and "o_ID y = o_ID ord" "o_ClientOrderID y = o_ClientOrderID ord" "o_StrategyID y = o_StrategyID ord"
    "o_Symbol y = o_Symbol ord" "o_Side y = o_Side ord" "o_Type y = o_Type ord"
    "o_TimeInForce y = o_TimeInForce ord" "o_Quantity y = o_Quantity ord" "o_Price y = o_Price ord"
    "o_CreatedAtUTC y = o_CreatedAtUTC ord"
  shows "scanOrder E (order_set_columns (E, f) y r) = Ok y"
  using assms by (auto simp: scanOrder_def order_set_columns_def and_then_Ok)

lemma order_lookup_in_set:
  "order_keys_ok rows \<Longrightarrow> r \<in> set rows \<Longrightarrow> order_lookup rows (c_id r) = Some r"
  by (simp add: order_keys_ok_def row_of_distinct)

subsection \<open>Properties\<close>

text \<open>Creating an order and reading it. When the encodings parse what they print, an order that
  \<open>Create\<close> accepts is returned unchanged, every field and every absent instant, by id, by client
  order id, and by exchange id if it has one that no stored row uses; and every other id reads
  as before.\<close>

theorem order_create_then_get:
  assumes "codec_ok E" "order_Create (E, fault) ord rows = (rows', Ok ())"
  shows "order_GetByID (E, None) (o_ID ord) rows' = Ok ord
    \<and> order_GetByClientOrderID (E, None) (o_ClientOrderID ord) rows' = Ok ord
    \<and> (o_ExchangeOrderID ord \<noteq> [] \<and> (\<forall>r \<in> set rows. c_exchange_order_id r \<noteq> Some (o_ExchangeOrderID ord)) \<longrightarrow>
         order_GetByExchangeOrderID (E, None) (o_ExchangeOrderID ord) rows' = Ok ord)
    \<and> (\<forall>k. k \<noteq> o_ID ord \<longrightarrow> order_GetByID (E, None) k rows' = order_GetByID (E, None) k rows)"
proof -
  have new: "rows' = rows @ [order_to_row E ord]"
      "\<forall>r \<in> set rows. c_id r \<noteq> o_ID ord \<and> c_client_order_id r \<noteq> o_ClientOrderID ord"
    using order_Create_Ok [OF assms(2)] by auto
  have fa: "find P (xs @ [y]) = (if P y then Some y else None)" if "\<forall>x \<in> set xs. \<not> P x" for P xs and y :: order_row
    using that by (induction xs) auto
  have fo: "find P (xs @ [y]) = find P xs" if "\<not> P y" for P xs and y :: order_row
    using that by (induction xs) auto
  show ?thesis
    using new assms(1)
    by (auto simp: order_GetByID_def order_GetByClientOrderID_def order_GetByExchangeOrderID_def
        query_order_def fa fo nullString_def)
qed

text \<open>The identity of a stored order is permanent. Through any sequence of creations and updates,
  with any faults, an order's row is never lost, and its id, client order id, strategy, symbol,
  side, quantity, price and creation time keep the stored text; ids and client order ids stay
  unique in the table.\<close>

theorem order_identity_permanent:
  assumes "order_keys_ok rows" "order_lookup rows k = Some r"
  shows "order_keys_ok (store_run order_Create order_Update ops rows)
    \<and> (\<exists>r'. order_lookup (store_run order_Create order_Update ops rows) k = Some r' \<and>
        (c_id r', c_client_order_id r', c_strategy_id r', c_symbol r', c_side r', c_quantity r', c_price r', c_created_at r')
        = (c_id r, c_client_order_id r, c_strategy_id r, c_symbol r, c_side r, c_quantity r, c_price r, c_created_at r))"
  using store_run_keys [OF assms(1), of ops]
    orders.frozen_columns [of "\<lambda>r. (c_id r, c_client_order_id r, c_strategy_id r, c_symbol r, c_side r,
       c_quantity r, c_price r, c_created_at r)", OF _ assms(2), of ops]
  by simp

definition stored_order :: "int order" where
  "stored_order = \<lparr>o_ID = ''ord_1'', o_ClientOrderID = ''cli_1'', o_ExchangeOrderID = [], o_StrategyID = ''s'',
     o_Symbol = ''BTC'', o_Side = OrderSideBuy, o_Type = OrderTypeLimit, o_Status = OrderStatusPending,
     o_TimeInForce = TimeInForceGTC, o_Quantity = 2, o_Price = 3, o_FilledQty = 0, o_RemainingQty = 2,
     o_AvgFillPrice = 0, o_CreatedAtUTC = 1, o_UpdatedAtUTC = 1, o_SubmittedAtUTC = None, o_FilledAtUTC = None\<rparr>"

definition stored_rows :: order_table where
  "stored_rows = fst (order_Create (sample_env, None) stored_order [])"

lemma stored_rows_eq: "order_Create (sample_env, None) stored_order [] = (stored_rows, Ok ())"
  "stored_rows = [order_to_row sample_env stored_order]"
  by (simp_all add: stored_rows_def order_Create_def)

theorem order_create_then_get_witness:
  "order_GetByClientOrderID (sample_env, None) ''cli_1'' stored_rows = Ok stored_order"
  using order_create_then_get [OF sample_env_ok stored_rows_eq(1)] by (simp add: stored_order_def)

theorem order_identity_permanent_witness:
  "\<exists>r'. order_lookup (store_run order_Create order_Update
      [Upd (sample_env, None) (stored_order\<lparr>o_Quantity := 9, o_Status := OrderStatusFilled\<rparr>)] stored_rows) ''ord_1'' = Some r' \<and>
     c_quantity r' = unary 2"
proof -
  have "order_keys_ok stored_rows" "order_lookup stored_rows ''ord_1'' = Some (order_to_row sample_env stored_order)"
    by (simp_all add: stored_rows_eq order_keys_ok_def stored_order_def)
  from order_identity_permanent [OF this] have
    "\<exists>r'. order_lookup (store_run order_Create order_Update ops stored_rows) ''ord_1'' = Some r' \<and>
      c_quantity r' = c_quantity (order_to_row sample_env stored_order)" for ops :: "(int sql_env \<times> string option, int order) store_op list"
    by blast
  moreover have "c_quantity (order_to_row sample_env stored_order) = unary 2"
    by (simp add: order_to_row_def sample_env_def stored_order_def)
  ultimately show ?thesis by metis
qed

end
