(* ===== verification/Position_Repo.thy ===== *)
theory Position_Repo
  imports Sql_Table
begin

text \<open>
  The SQLite position repository, \<open>position_repository.go\<close>, on the table \<open>positions\<close>:
  \<open>id\<close> is the primary key, the pair of strategy and symbol is unique (also among closed
  positions).
\<close>

record position_row =
  k_id :: string
  k_strategy_id :: string
  k_symbol :: string
  k_side :: position_side
  k_quantity :: string
  k_entry_price :: string
  k_current_price :: string
  k_unrealized_pnl :: string
  k_realized_pnl :: string
  k_opened_at :: string
  k_updated_at :: string
  k_closed_at :: "string option"

type_synonym position_table = "position_row list"

definition position_to_row :: "'d sql_env \<Rightarrow> 'd position \<Rightarrow> position_row" where
  "position_to_row E p =
     \<lparr>k_id = p_ID p, k_strategy_id = p_StrategyID p, k_symbol = p_Symbol p, k_side = p_Side p,
      k_quantity = dec_text E (p_Quantity p), k_entry_price = dec_text E (p_EntryPrice p),
      k_current_price = dec_text E (p_CurrentPrice p),
      k_unrealized_pnl = dec_text E (p_UnrealizedPnL p), k_realized_pnl = dec_text E (p_RealizedPnL p),
      k_opened_at = time_text E (p_OpenedAtUTC p), k_updated_at = time_text E (p_UpdatedAtUTC p),
      k_closed_at = nullTime E (p_ClosedAtUTC p)\<rparr>"

definition position_Create ::
  "'d sql_env \<times> string option \<Rightarrow> 'd position \<Rightarrow> position_table \<Rightarrow> position_table \<times> (store_error + unit)" where
  "position_Create ef p rows =
     (case ef of (E, fault) \<Rightarrow>
       let failed = (\<lambda>msg. (rows, Err (if isConstraintError msg then SqliteErrDuplicateKey
                                        else DbError (''create position: '' @ msg))))
       in case fault of
            Some msg \<Rightarrow> failed msg
          | None \<Rightarrow>
              if \<exists>r \<in> set rows. k_id r = p_ID p \<or> (k_strategy_id r = p_StrategyID p \<and> k_symbol r = p_Symbol p)
              then failed (unique_msg E)
              else (rows @ [position_to_row E p], Ok ()))"

text \<open>The columns that \<open>UPDATE positions SET\<close> writes.\<close>

definition position_set_columns :: "'d sql_env \<times> string option \<Rightarrow> 'd position \<Rightarrow> position_row \<Rightarrow> position_row" where
  "position_set_columns ef p r =
     (case ef of (E, fault) \<Rightarrow>
        r\<lparr>k_side := p_Side p, k_quantity := dec_text E (p_Quantity p),
          k_entry_price := dec_text E (p_EntryPrice p), k_current_price := dec_text E (p_CurrentPrice p),
          k_unrealized_pnl := dec_text E (p_UnrealizedPnL p), k_realized_pnl := dec_text E (p_RealizedPnL p),
          k_updated_at := time_text E (p_UpdatedAtUTC p), k_closed_at := nullTime E (p_ClosedAtUTC p)\<rparr>)"

definition position_Update ::
  "'d sql_env \<times> string option \<Rightarrow> 'd position \<Rightarrow> position_table \<Rightarrow> position_table \<times> (store_error + unit)" where
  "position_Update ef p rows =
     (case snd ef of
        Some msg \<Rightarrow> (rows, Err (DbError (''update position: '' @ msg)))
      | None \<Rightarrow>
          if \<exists>r \<in> set rows. k_id r = p_ID p
          then (map (\<lambda>r. if k_id r = p_ID p then position_set_columns ef p r else r) rows, Ok ())
          else (rows, Err SqliteErrNotFound))"

definition scanPosition :: "'d sql_env \<Rightarrow> position_row \<Rightarrow> store_error + 'd position" where
  "scanPosition E r =
     and_then (parseDecimalField E ''positions.quantity'' (k_quantity r)) (\<lambda>qty.
     and_then (parseDecimalField E ''positions.entry_price'' (k_entry_price r)) (\<lambda>entry.
     and_then (parseDecimalField E ''positions.current_price'' (k_current_price r)) (\<lambda>cur.
     and_then (parseDecimalField E ''positions.unrealized_pnl'' (k_unrealized_pnl r)) (\<lambda>unrealized.
     and_then (parseDecimalField E ''positions.realized_pnl'' (k_realized_pnl r)) (\<lambda>realized.
     and_then (parseTimeField E ''positions.opened_at_utc'' (k_opened_at r)) (\<lambda>opened.
     and_then (parseTimeField E ''positions.updated_at_utc'' (k_updated_at r)) (\<lambda>updated.
     and_then (parseNullTime E ''positions.closed_at_utc'' (k_closed_at r)) (\<lambda>closedAt.
     Ok \<lparr>p_ID = k_id r, p_StrategyID = k_strategy_id r, p_Symbol = k_symbol r, p_Side = k_side r,
         p_Quantity = qty, p_EntryPrice = entry, p_CurrentPrice = cur, p_UnrealizedPnL = unrealized,
         p_RealizedPnL = realized, p_OpenedAtUTC = opened, p_UpdatedAtUTC = updated,
         p_ClosedAtUTC = closedAt\<rparr>))))))))"

definition query_position ::
  "'d sql_env \<times> string option \<Rightarrow> string \<Rightarrow> (position_row \<Rightarrow> bool) \<Rightarrow> position_table \<Rightarrow> store_error + 'd position" where
  "query_position ef context cond rows =
     (case snd ef of
        Some msg \<Rightarrow> Err (DbError (context @ msg))
      | None \<Rightarrow> (case find cond rows of
                   None \<Rightarrow> Err SqliteErrNotFound
                 | Some r \<Rightarrow> scanPosition (fst ef) r))"

definition position_GetByID :: "'d sql_env \<times> string option \<Rightarrow> string \<Rightarrow> position_table \<Rightarrow> store_error + 'd position" where
  "position_GetByID ef pid rows = query_position ef ''get position by id: '' (\<lambda>r. k_id r = pid) rows"

definition GetByStrategyAndSymbol ::
  "'d sql_env \<times> string option \<Rightarrow> string \<Rightarrow> string \<Rightarrow> position_table \<Rightarrow> store_error + 'd position" where
  "GetByStrategyAndSymbol ef sid smb rows =
     query_position ef ''get position by strategy and symbol: ''
       (\<lambda>r. k_strategy_id r = sid \<and> k_symbol r = smb \<and> k_closed_at r = None) rows"

definition query_positions ::
  "'d sql_env \<times> string option \<Rightarrow> string \<Rightarrow> position_table \<Rightarrow> store_error + 'd position list" where
  "query_positions ef context result =
     (case snd ef of
        Some msg \<Rightarrow> Err (DbError (context @ msg))
      | None \<Rightarrow> scan_all (scanPosition (fst ef)) result)"

definition position_ListByStrategy ::
  "'d sql_env \<times> string option \<Rightarrow> string \<Rightarrow> position_table \<Rightarrow> store_error + 'd position list" where
  "position_ListByStrategy ef sid rows =
     query_positions ef ''list positions by strategy: ''
       (order_desc k_opened_at (filter (\<lambda>r. k_strategy_id r = sid) rows))"

definition ListOpen :: "'d sql_env \<times> string option \<Rightarrow> position_table \<Rightarrow> store_error + 'd position list" where
  "ListOpen ef rows =
     query_positions ef ''list open positions: ''
       (order_desc k_opened_at (filter (\<lambda>r. k_closed_at r = None) rows))"

subsection \<open>Lemmas\<close>

abbreviation position_lookup :: "position_table \<Rightarrow> string \<Rightarrow> position_row option" where
  "position_lookup rows pid \<equiv> row_of k_id rows pid"

lemma position_to_row_simps [simp]:
  "k_id (position_to_row E p) = p_ID p" "k_strategy_id (position_to_row E p) = p_StrategyID p"
  "k_symbol (position_to_row E p) = p_Symbol p" "k_closed_at (position_to_row E p) = nullTime E (p_ClosedAtUTC p)"
  by (simp_all add: position_to_row_def)

lemma position_set_columns_simps [simp]:
  "k_id (position_set_columns ef p r) = k_id r"
  "k_strategy_id (position_set_columns ef p r) = k_strategy_id r"
  "k_symbol (position_set_columns ef p r) = k_symbol r"
  "k_opened_at (position_set_columns ef p r) = k_opened_at r"
  by (simp_all add: position_set_columns_def split: prod.splits)

lemma scanPosition_to_row [simp]: "codec_ok E \<Longrightarrow> scanPosition E (position_to_row E p) = Ok p"
  by (simp add: scanPosition_def position_to_row_def)

lemma position_Create_Ok:
  "position_Create (E, fault) p rows = (rows', Inr ()) \<Longrightarrow>
     fault = None \<and> rows' = rows @ [position_to_row E p] \<and>
     (\<forall>r \<in> set rows. k_id r \<noteq> p_ID p \<and> \<not> (k_strategy_id r = p_StrategyID p \<and> k_symbol r = p_Symbol p))"
  by (auto simp: position_Create_def Let_def split: option.splits if_splits)

lemma position_row_of_update:
  "row_of k_id (map (\<lambda>r. if k_id r = k' then position_set_columns ef p r else r) rows) k =
     map_option (\<lambda>r. if k = k' then position_set_columns ef p r else r) (row_of k_id rows k)"
  by (induction rows) auto

lemma position_Update_lookup:
  "position_lookup (fst (position_Update ef p rows)) k =
     (if k = p_ID p \<and> snd ef = None then map_option (position_set_columns ef p) (position_lookup rows k)
      else position_lookup rows k)"
  using row_of_None_iff [of k_id rows "p_ID p"]
  by (cases "position_lookup rows k") (auto simp: position_Update_def position_row_of_update split: option.splits)

lemma position_Update_Ok_iff:
  "snd (position_Update ef p rows) = Inr () \<longleftrightarrow> snd ef = None \<and> position_lookup rows (p_ID p) \<noteq> None"
  using row_of_None_iff [of k_id rows "p_ID p"]
  by (auto simp: position_Update_def image_iff split: option.splits)

lemma scanPosition_Ok:
  "scanPosition E r = Inr p \<Longrightarrow> p_ID p = k_id r \<and> p_StrategyID p = k_strategy_id r \<and> p_Symbol p = k_symbol r \<and>
     p_Side p = k_side r"
  by (auto simp: scanPosition_def and_then_Ok)

lemma scanPosition_set_columns:
  assumes "codec_ok E" "scanPosition E r = Ok p"
    and "p_ID y = p_ID p" "p_StrategyID y = p_StrategyID p" "p_Symbol y = p_Symbol p" "p_OpenedAtUTC y = p_OpenedAtUTC p"
  shows "scanPosition E (position_set_columns (E, f) y r) = Ok y"
  using assms by (auto simp: scanPosition_def position_set_columns_def and_then_Ok)

lemma ListOpen_find:
  assumes "distinct (map k_id rows)" "ListOpen (E, f) rows = Inr ps"
  shows "distinct (map p_ID ps)"
    and "find (\<lambda>x. p_ID x = k) ps =
      (case position_lookup rows k of None \<Rightarrow> None
       | Some r \<Rightarrow> if k_closed_at r = None then (case scanPosition E r of Inl e \<Rightarrow> None | Inr x \<Rightarrow> Some x) else None)"
    and "\<forall>p \<in> set ps. position_lookup rows (p_ID p) \<noteq> None"
proof -
  have scan: "scan_all (scanPosition E) (order_desc k_opened_at (filter (\<lambda>r. k_closed_at r = None) rows)) = Ok ps"
    using assms(2) by (auto simp: ListOpen_def query_positions_def split: option.splits)
  note q = scanned_query [OF assms(1) scan, of p_ID]
  show "distinct (map p_ID ps)" by (rule q(1)) (simp add: scanPosition_Ok)
  show "find (\<lambda>x. p_ID x = k) ps =
      (case position_lookup rows k of None \<Rightarrow> None
       | Some r \<Rightarrow> if k_closed_at r = None then (case scanPosition E r of Inl e \<Rightarrow> None | Inr x \<Rightarrow> Some x) else None)"
    by (rule q(2)) (simp add: scanPosition_Ok)
  show "\<forall>p \<in> set ps. position_lookup rows (p_ID p) \<noteq> None"
    using scan_all_set [OF scan] row_of_None_iff [of k_id rows] by (fastforce dest: scanPosition_Ok)
qed

interpretation positions: keyed_store position_lookup p_ID
    "\<lambda>ef :: 'd sql_env \<times> string option. position_to_row (fst ef)" position_set_columns position_Create position_Update
proof
  fix ef :: "'d sql_env \<times> string option" and x :: "'d position" and s s' :: position_table and e k
  obtain E fault where ef: "ef = (E, fault)" by (cases ef)
  show "position_Create ef x s = (s', Inr ()) \<Longrightarrow>
      position_lookup s (p_ID x) = None \<and> position_lookup s' (p_ID x) = Some (position_to_row (fst ef) x)"
    using position_Create_Ok [of E fault x s s'] row_of_None_iff [of k_id s "p_ID x"]
    by (auto simp: ef row_of_append)
  show "k \<noteq> p_ID x \<Longrightarrow> position_lookup (fst (position_Create ef x s)) k = position_lookup s k"
    by (auto simp: ef position_Create_def Let_def row_of_append split: option.splits)
  show "position_Create ef x s = (s', Inl e) \<Longrightarrow> s' = s"
    by (auto simp: ef position_Create_def Let_def split: option.splits if_splits)
  show "position_Update ef x s = (s', Inr ()) \<Longrightarrow>
      \<exists>r. position_lookup s (p_ID x) = Some r \<and> position_lookup s' (p_ID x) = Some (position_set_columns ef x r)"
    using position_Update_Ok_iff [of ef x s] position_Update_lookup [of ef x s "p_ID x"] by auto
  show "k \<noteq> p_ID x \<Longrightarrow> position_lookup (fst (position_Update ef x s)) k = position_lookup s k"
    by (simp add: position_Update_lookup)
  show "position_Update ef x s = (s', Inl e) \<Longrightarrow> s' = s"
    by (auto simp: position_Update_def split: option.splits if_splits)
qed

interpretation position_faults: faulty_store position_lookup p_ID
    "\<lambda>ef :: 'd sql_env \<times> string option. position_to_row (fst ef)" position_set_columns position_Create position_Update
    "\<lambda>ef. snd ef \<noteq> None"
proof
  fix ef :: "'d sql_env \<times> string option" and x :: "'d position" and s :: position_table
  assume "position_lookup s (p_ID x) \<noteq> None"
  then show "(\<exists>s'. position_Update ef x s = (s', Inr ())) = (\<not> snd ef \<noteq> None)"
    using position_Update_Ok_iff [of ef x s] by (metis prod.collapse snd_conv)
qed

subsection \<open>Properties\<close>

text \<open>A position once opened for a strategy and symbol blocks every later one. Closing it (setting
  the closing time) hides it from \<open>GetByStrategyAndSymbol\<close>, but the schema's uniqueness covers
  closed rows too and nothing removes a row: after any further creations and updates, creating a
  new position for the same strategy and symbol fails.\<close>

theorem closed_position_blocks_reopening:
  assumes "position_lookup rows k = Some r" "k_strategy_id r = p_StrategyID p" "k_symbol r = p_Symbol p"
  shows "snd (position_Create ef p (store_run position_Create position_Update ops rows)) \<noteq> Ok ()"
proof -
  let ?rows = "store_run position_Create position_Update ops rows"
  obtain r' where "position_lookup ?rows k = Some r'" and "(k_strategy_id r', k_symbol r') = (k_strategy_id r, k_symbol r)"
    using positions.frozen_columns [of "\<lambda>r. (k_strategy_id r, k_symbol r)", OF _ assms(1), of ops] by auto
  then have "\<exists>r \<in> set ?rows. k_strategy_id r = p_StrategyID p \<and> k_symbol r = p_Symbol p"
    using row_of_Some_set assms(2,3) by fastforce
  moreover obtain E fault where "ef = (E, fault)" by (cases ef)
  ultimately show ?thesis
    using position_Create_Ok [of E fault p ?rows "fst (position_Create ef p ?rows)"]
    by (metis prod.collapse)
qed

definition sample_position :: "int position" where
  "sample_position = \<lparr>p_ID = ''p1'', p_StrategyID = ''s'', p_Symbol = ''BTC'', p_Side = PositionSideLong,
     p_Quantity = 2, p_EntryPrice = 3, p_CurrentPrice = 3, p_UnrealizedPnL = 0, p_RealizedPnL = 0,
     p_OpenedAtUTC = 1, p_UpdatedAtUTC = 1, p_ClosedAtUTC = None\<rparr>"

theorem closed_position_blocks_reopening_witness:
  "snd (position_Create (sample_env, None) (sample_position\<lparr>p_ID := ''p2''\<rparr>)
     (store_run position_Create position_Update
        [Upd (sample_env, None) (sample_position\<lparr>p_ClosedAtUTC := Some 9\<rparr>)]
        [position_to_row sample_env sample_position])) \<noteq> Ok ()"
  by (rule closed_position_blocks_reopening [of _ "''p1''" "position_to_row sample_env sample_position"])
    (simp_all add: sample_position_def)

end
