(* ===== verification/Order_Service.thy ===== *)
theory Order_Service
  imports Risk Trading_Gate Order_Repo Position_Repo
begin

text \<open>
  The order service, \<open>internal/service/agent/order_service.go\<close>, on the SQLite order repository.
  What the service asks other components during one call is a \<open>world\<close>: the runtime status the
  gate reads, the rows of the other repositories, the exchange's answers (through
  \<open>connector_adapter.go\<close>, which only forwards), faults of the order database, and the
  readings of the clock (successive ones, and in the reconciliation loop one per order). Published events and calls to the exchange are recorded in order.
\<close>

subsection \<open>Requests, answers and state\<close>

record 'd create_request =
  rq_StrategyID :: string
  rq_Symbol :: string
  rq_Side :: order_side
  rq_Type :: order_type
  rq_Quantity :: 'd
  rq_Price :: 'd
  rq_TimeInForce :: time_in_force

datatype service_error =
    GateRefused gate_error
  | StrategyUnavailable store_error | StrategyCannotTrade strategy_status
  | SymbolUnavailable store_error | PositionUnavailable store_error | BalanceUnavailable store_error
  | RiskFailed risk_error | CreateFailed store_error
  | OrderUnavailable store_error | OrderNotPending order_status | OrderNotActive order_status
  | ExchangeRefused string | CancelRefused string
  | UpdateFailed store_error | ListFailed store_error

text \<open>The order events; type and time of publication of the base event are left out.\<close>

datatype 'd order_event =
    OrderCreatedEvent string string string string order_side order_type 'd 'd
  | OrderSubmittedEvent string string string time
  | OrderCanceledEvent string time string
  | OrderRejectedEvent string time string

text \<open>A call to the exchange with its answer.\<close>

datatype exchange_call = SubmitCall string "string + string" | CancelCall string "string option"

record 'd service =
  sv_orders :: order_table
  sv_events :: "'d order_event list"
  sv_risk :: "'d risk_event list"
  sv_calls :: "exchange_call list"

record 'd service_config =
  env :: "'d sql_env"
  lib :: "'d dec_lib"
  gate_policy :: "policy option"
  has_publisher :: bool

record 'd world =
  w_runtime :: "(string + status) option"
  w_strategy :: "string \<Rightarrow> store_error + 'd strategy"
  w_symbol :: "string \<Rightarrow> store_error + 'd symbol"
  w_position :: "string \<Rightarrow> string \<Rightarrow> store_error + 'd position option"
  w_balances :: "store_error + 'd account_balance option"
  w_submit :: "'d order \<Rightarrow> string + string"
  w_cancel :: "string \<Rightarrow> string option"
  w_query :: "string \<Rightarrow> string + 'd order"
  w_read_fault :: "string option"
  w_create_fault :: "string option"
  w_update_fault :: "'d order \<Rightarrow> string option"
  w_clock :: "nat \<Rightarrow> time"
  w_order_clock :: "string \<Rightarrow> time"

subsection \<open>Operations\<close>

definition checkNewEntry :: "'d service_config \<Rightarrow> 'd world \<Rightarrow> service_error + unit" where
  "checkNewEntry S W =
     (case gate_policy S of
        None \<Rightarrow> Ok ()
      | Some pol \<Rightarrow> (case CheckNewEntry pol (w_runtime W) of
                      Inl e \<Rightarrow> Err (GateRefused e) | Inr _ \<Rightarrow> Ok ()))"

definition generateOrderID :: "time \<Rightarrow> string" where
  "generateOrderID now = ''ord_'' @ int_text now"

definition generateClientOrderID :: "time \<Rightarrow> string" where
  "generateClientOrderID now = ''cli_'' @ int_text now"

definition new_order :: "'d::linordered_idom create_request \<Rightarrow> (nat \<Rightarrow> time) \<Rightarrow> 'd order" where
  "new_order req clock =
     \<lparr>o_ID = generateOrderID (clock 0), o_ClientOrderID = generateClientOrderID (clock 1),
      o_ExchangeOrderID = [], o_StrategyID = rq_StrategyID req, o_Symbol = rq_Symbol req,
      o_Side = rq_Side req, o_Type = rq_Type req, o_Status = OrderStatusPending,
      o_TimeInForce = rq_TimeInForce req, o_Quantity = rq_Quantity req, o_Price = rq_Price req,
      o_FilledQty = 0, o_RemainingQty = rq_Quantity req, o_AvgFillPrice = 0,
      o_CreatedAtUTC = clock 2, o_UpdatedAtUTC = clock 3,
      o_SubmittedAtUTC = None, o_FilledAtUTC = None\<rparr>"

definition publish :: "'d service_config \<Rightarrow> 'd order_event \<Rightarrow> 'd service \<Rightarrow> 'd service" where
  "publish S e st = (if has_publisher S then st\<lparr>sv_events := sv_events st @ [e]\<rparr> else st)"

definition publishOrderCreated :: "'d service_config \<Rightarrow> 'd order \<Rightarrow> 'd service \<Rightarrow> 'd service" where
  "publishOrderCreated S ord = publish S (OrderCreatedEvent (o_ID ord) (o_ClientOrderID ord)
     (o_StrategyID ord) (o_Symbol ord) (o_Side ord) (o_Type ord) (o_Quantity ord) (o_Price ord))"

text \<open>\<open>*order.SubmittedAtUTC\<close> is only called after the field has been set.\<close>

definition publishOrderSubmitted :: "'d service_config \<Rightarrow> 'd order \<Rightarrow> 'd service \<Rightarrow> 'd service" where
  "publishOrderSubmitted S ord st =
     (case o_SubmittedAtUTC ord of
        None \<Rightarrow> st
      | Some when \<Rightarrow> publish S (OrderSubmittedEvent (o_ID ord) (o_ClientOrderID ord) (o_ExchangeOrderID ord) when) st)"

definition publishOrderCanceled :: "'d service_config \<Rightarrow> 'd order \<Rightarrow> time \<Rightarrow> string \<Rightarrow> 'd service \<Rightarrow> 'd service" where
  "publishOrderCanceled S ord now reason = publish S (OrderCanceledEvent (o_ID ord) now reason)"

definition publishOrderRejected :: "'d service_config \<Rightarrow> 'd order \<Rightarrow> time \<Rightarrow> string \<Rightarrow> 'd service \<Rightarrow> 'd service" where
  "publishOrderRejected S ord now reason = publish S (OrderRejectedEvent (o_ID ord) now reason)"

definition store_new_order ::
  "'d service_config \<Rightarrow> 'd world \<Rightarrow> 'd order \<Rightarrow> 'd service \<Rightarrow> 'd service \<times> (service_error, 'd order) outcome" where
  "store_new_order S W ord st =
     (case order_Create (env S, w_create_fault W) ord (sv_orders st) of
        (rows, Inl e) \<Rightarrow> (st\<lparr>sv_orders := rows\<rparr>, Fail (CreateFailed e))
      | (rows, Inr _) \<Rightarrow> (publishOrderCreated S ord (st\<lparr>sv_orders := rows\<rparr>), Return ord))"

text \<open>\<open>err != nil && err != storage.ErrNotFound\<close>: only the domain's sentinel means no position.\<close>

definition load_position :: "store_error + 'd position option \<Rightarrow> store_error + 'd position option" where
  "load_position res =
     (case res of
        Inl e \<Rightarrow> if e = StorageErrNotFound then Ok None else Err e
      | Inr p \<Rightarrow> Ok p)"

definition CreateOrder ::
  "'d::linordered_idom service_config \<Rightarrow> 'd world \<Rightarrow> 'd create_request \<Rightarrow> 'd service \<Rightarrow>
   'd service \<times> (service_error, 'd order) outcome" where
  "CreateOrder S W req st =
     (case checkNewEntry S W of Inl e \<Rightarrow> (st, Fail e) | Inr _ \<Rightarrow>
     (case w_strategy W (rq_StrategyID req) of Inl e \<Rightarrow> (st, Fail (StrategyUnavailable e)) | Inr strat \<Rightarrow>
      if \<not> CanTrade strat then (st, Fail (StrategyCannotTrade (st_Status strat))) else
     (case w_symbol W (rq_Symbol req) of Inl e \<Rightarrow> (st, Fail (SymbolUnavailable e)) | Inr smb \<Rightarrow>
     (case load_position (w_position W (rq_StrategyID req) (rq_Symbol req)) of
        Inl e \<Rightarrow> (st, Fail (PositionUnavailable e)) | Inr position \<Rightarrow>
     (case w_balances W of Inl e \<Rightarrow> (st, Fail (BalanceUnavailable e)) | Inr bals \<Rightarrow>
      let bal = (case bals of None \<Rightarrow> None | Some ab \<Rightarrow> GetBalance ab (s_QuoteCurrency smb));
          ord = new_order req (w_clock W)
      in case ValidateOrder (lib S) (has_publisher S) ord strat smb bal position of
           Panic \<Rightarrow> (st, Panic)
         | Fail (e, evs) \<Rightarrow> (st\<lparr>sv_risk := sv_risk st @ evs\<rparr>, Fail (RiskFailed e))
         | Return evs \<Rightarrow> store_new_order S W ord (st\<lparr>sv_risk := sv_risk st @ evs\<rparr>))))))"

definition submit_begin :: "'d service_config \<Rightarrow> 'd world \<Rightarrow> string \<Rightarrow> 'd service \<Rightarrow> service_error + 'd order" where
  "submit_begin S W oid st =
     (case checkNewEntry S W of Inl e \<Rightarrow> Err e | Inr _ \<Rightarrow>
     (case order_GetByID (env S, w_read_fault W) oid (sv_orders st) of
        Inl e \<Rightarrow> Err (OrderUnavailable e)
      | Inr ord \<Rightarrow> if \<not> IsPending ord then Err (OrderNotPending (o_Status ord)) else Ok ord))"

definition save_order :: "'d service_config \<Rightarrow> 'd world \<Rightarrow> 'd order \<Rightarrow> 'd service \<Rightarrow> 'd service \<times> (store_error + unit)" where
  "save_order S W ord st =
     (case order_Update (env S, w_update_fault W ord) ord (sv_orders st) of
        (rows, res) \<Rightarrow> (st\<lparr>sv_orders := rows\<rparr>, res))"

text \<open>From the exchange's answer to the end of \<open>SubmitOrder\<close>; a failed save of a rejection is ignored.\<close>

definition submit_finish ::
  "'d service_config \<Rightarrow> 'd world \<Rightarrow> 'd order \<Rightarrow> string + string \<Rightarrow> 'd service \<Rightarrow> 'd service \<times> (service_error + unit)" where
  "submit_finish S W ord answer st =
     (let st1 = st\<lparr>sv_calls := sv_calls st @ [SubmitCall (o_ID ord) answer]\<rparr> in
      case answer of
        Inl msg \<Rightarrow>
          (let rejected = ord\<lparr>o_Status := OrderStatusRejected, o_UpdatedAtUTC := w_clock W 0\<rparr>;
               st2 = fst (save_order S W rejected st1)
           in (publishOrderRejected S rejected (w_clock W 1) msg st2, Err (ExchangeRefused msg)))
      | Inr exchangeOrderID \<Rightarrow>
          (let now = w_clock W 0;
               submitted = ord\<lparr>o_ExchangeOrderID := exchangeOrderID, o_Status := OrderStatusSubmitted,
                               o_SubmittedAtUTC := Some now, o_UpdatedAtUTC := now\<rparr>
           in case save_order S W submitted st1 of
                (st2, Inl e) \<Rightarrow> (st2, Err (UpdateFailed e))
              | (st2, Inr _) \<Rightarrow> (publishOrderSubmitted S submitted st2, Ok ())))"

definition SubmitOrder ::
  "'d service_config \<Rightarrow> 'd world \<Rightarrow> string \<Rightarrow> 'd service \<Rightarrow> 'd service \<times> (service_error + unit)" where
  "SubmitOrder S W oid st =
     (case submit_begin S W oid st of
        Inl e \<Rightarrow> (st, Err e)
      | Inr ord \<Rightarrow> submit_finish S W ord (w_submit W ord) st)"

definition CancelOrder ::
  "'d service_config \<Rightarrow> 'd world \<Rightarrow> string \<Rightarrow> 'd service \<Rightarrow> 'd service \<times> (service_error + unit)" where
  "CancelOrder S W oid st =
     (case order_GetByID (env S, w_read_fault W) oid (sv_orders st) of
        Inl e \<Rightarrow> (st, Err (OrderUnavailable e))
      | Inr ord \<Rightarrow>
          if \<not> IsActive ord then (st, Err (OrderNotActive (o_Status ord)))
          else
            (let answer = w_cancel W (o_ExchangeOrderID ord);
                 st1 = st\<lparr>sv_calls := sv_calls st @ [CancelCall (o_ID ord) answer]\<rparr> in
             case answer of
               Some msg \<Rightarrow> (st1, Err (CancelRefused msg))
             | None \<Rightarrow>
                 (let canceled = ord\<lparr>o_Status := OrderStatusCanceled, o_UpdatedAtUTC := w_clock W 0\<rparr> in
                  case save_order S W canceled st1 of
                    (st2, Inl e) \<Rightarrow> (st2, Err (UpdateFailed e))
                  | (st2, Inr _) \<Rightarrow> (publishOrderCanceled S canceled (w_clock W 1) ''user_requested'' st2, Ok ()))))"

definition GetOrder :: "'d service_config \<Rightarrow> 'd world \<Rightarrow> string \<Rightarrow> 'd service \<Rightarrow> store_error + 'd order" where
  "GetOrder S W oid st = order_GetByID (env S, w_read_fault W) oid (sv_orders st)"

definition ListOrders :: "'d service_config \<Rightarrow> 'd world \<Rightarrow> string \<Rightarrow> int \<Rightarrow> int \<Rightarrow> 'd service \<Rightarrow> store_error + 'd order list" where
  "ListOrders S W sid limit offset st = order_ListByStrategy (env S, w_read_fault W) sid limit offset (sv_orders st)"

text \<open>The change of one order in \<open>ReconcileOrders\<close>; \<open>None\<close> where the loop continues without a save.\<close>

definition reconcile_order :: "'d world \<Rightarrow> 'd order \<Rightarrow> 'd order option" where
  "reconcile_order W ord =
     (if o_ExchangeOrderID ord = [] then None
      else case w_query W (o_ExchangeOrderID ord) of
             Inl _ \<Rightarrow> None
           | Inr x \<Rightarrow> Some (ord\<lparr>o_Status := o_Status x, o_FilledQty := o_FilledQty x,
                              o_RemainingQty := o_RemainingQty x, o_AvgFillPrice := o_AvgFillPrice x,
                              o_UpdatedAtUTC := w_order_clock W (o_ID ord)\<rparr>))"

definition ReconcileOrders :: "'d service_config \<Rightarrow> 'd world \<Rightarrow> 'd service \<Rightarrow> 'd service \<times> (service_error + unit)" where
  "ReconcileOrders S W st =
     (case order_ListActive (env S, w_read_fault W) (sv_orders st) of
        Inl e \<Rightarrow> (st, Err (ListFailed e))
      | Inr ords \<Rightarrow>
          (case each_update (reconcile_order W) (\<lambda>x. order_Update (env S, w_update_fault W x) x) ords (sv_orders st) of
             (rows, Inl e) \<Rightarrow> (st\<lparr>sv_orders := rows\<rparr>, Err (UpdateFailed e))
           | (rows, Inr _) \<Rightarrow> (st\<lparr>sv_orders := rows\<rparr>, Ok ())))"

subsection \<open>Histories\<close>

datatype 'd service_op =
    OpCreate "'d world" "'d create_request"
  | OpSubmit "'d world" string
  | OpCancel "'d world" string
  | OpReconcile "'d world"

fun service_step :: "'d::linordered_idom service_config \<Rightarrow> 'd service_op \<Rightarrow> 'd service \<Rightarrow> 'd service" where
  "service_step S (OpCreate W req) st = fst (CreateOrder S W req st)"
| "service_step S (OpSubmit W oid) st = fst (SubmitOrder S W oid st)"
| "service_step S (OpCancel W oid) st = fst (CancelOrder S W oid st)"
| "service_step S (OpReconcile W) st = fst (ReconcileOrders S W st)"

definition service_run :: "'d::linordered_idom service_config \<Rightarrow> 'd service_op list \<Rightarrow> 'd service \<Rightarrow> 'd service" where
  "service_run S ops st = fold (service_step S) ops st"

lemma service_run_simps [simp]:
  "service_run S [] st = st"
  "service_run S (x # xs) st = service_run S xs (service_step S x st)"
  by (simp_all add: service_run_def)

lemma publish_frame [simp]:
  "sv_orders (publish S e st) = sv_orders st" "sv_calls (publish S e st) = sv_calls st"
  "sv_orders (publishOrderCreated S ord st) = sv_orders st" "sv_calls (publishOrderCreated S ord st) = sv_calls st"
  "sv_orders (publishOrderSubmitted S ord st) = sv_orders st" "sv_calls (publishOrderSubmitted S ord st) = sv_calls st"
  "sv_orders (publishOrderCanceled S ord now m st) = sv_orders st" "sv_calls (publishOrderCanceled S ord now m st) = sv_calls st"
  "sv_orders (publishOrderRejected S ord now m st) = sv_orders st" "sv_calls (publishOrderRejected S ord now m st) = sv_calls st"
  by (simp_all add: publish_def publishOrderCreated_def publishOrderSubmitted_def publishOrderCanceled_def
      publishOrderRejected_def split: option.splits)

lemma save_order_frame [simp]:
  "sv_calls (fst (save_order S W ord st)) = sv_calls st" "sv_events (fst (save_order S W ord st)) = sv_events st"
  "sv_orders (fst (save_order S W ord st)) = fst (order_Update (env S, w_update_fault W ord) ord (sv_orders st))"
  "snd (save_order S W ord st) = snd (order_Update (env S, w_update_fault W ord) ord (sv_orders st))"
  by (simp_all add: save_order_def split: prod.splits)

lemma save_orderD:
  "save_order S W x st = (st2, res) \<Longrightarrow>
     sv_orders st2 = fst (order_Update (env S, w_update_fault W x) x (sv_orders st)) \<and>
     res = snd (order_Update (env S, w_update_fault W x) x (sv_orders st)) \<and>
     sv_calls st2 = sv_calls st \<and> sv_events st2 = sv_events st"
  using save_order_frame [of S W x st] by simp

lemma submit_begin_Ok:
  assumes "submit_begin S W oid st = Inr ord"
  shows "checkNewEntry S W = Ok () \<and> IsPending ord \<and> o_ID ord = oid \<and>
    (\<exists>r. order_lookup (sv_orders st) oid = Some r \<and> scanOrder (env S) r = Inr ord \<and> c_status r = OrderStatusPending)"
proof -
  have g: "order_GetByID (env S, w_read_fault W) oid (sv_orders st) = Inr ord" and p: "IsPending ord"
    and c: "checkNewEntry S W = Ok ()"
    using assms by (auto simp: submit_begin_def split: sum.splits if_splits)
  from order_GetByID_Ok [OF g] obtain r where r: "order_lookup (sv_orders st) oid = Some r"
      "scanOrder (env S) r = Inr ord" "c_id r = oid" by auto
  show ?thesis using r c p scanOrder_Ok [OF r(2)] by (auto simp: IsPending_def)
qed

lemma submit_finish_table:
  "\<exists>x. o_ID x = o_ID ord \<and> (o_Status x = OrderStatusRejected \<or> o_Status x = OrderStatusSubmitted) \<and>
     sv_orders (fst (submit_finish S W ord answer st)) =
       fst (order_Update (env S, w_update_fault W x) x (sv_orders st))"
proof (cases answer)
  case (Inl msg)
  then show ?thesis
    by (intro exI [of _ "ord\<lparr>o_Status := OrderStatusRejected, o_UpdatedAtUTC := w_clock W 0\<rparr>"])
      (simp add: submit_finish_def Let_def)
next
  case (Inr eid)
  let ?x = "ord\<lparr>o_ExchangeOrderID := eid, o_Status := OrderStatusSubmitted,
              o_SubmittedAtUTC := Some (w_clock W 0), o_UpdatedAtUTC := w_clock W 0\<rparr>"
  have "sv_orders (fst (submit_finish S W ord answer st)) =
      fst (order_Update (env S, w_update_fault W ?x) ?x (sv_orders st))"
    using Inr by (auto simp: submit_finish_def Let_def dest!: save_orderD split: prod.splits sum.splits)
  then show ?thesis by (intro exI [of _ ?x]) simp
qed

lemma submit_finish_calls [simp]:
  "sv_calls (fst (submit_finish S W ord answer st)) = sv_calls st @ [SubmitCall (o_ID ord) answer]"
  by (cases answer)
    (auto simp: submit_finish_def Let_def dest!: save_orderD split: prod.splits sum.splits)

lemma CreateOrder_table:
  "fst (CreateOrder S W req st) = st\<lparr>sv_risk := sv_risk (fst (CreateOrder S W req st))\<rparr> \<or>
   (\<exists>evs. fst (CreateOrder S W req st) =
      fst (store_new_order S W (new_order req (w_clock W)) (st\<lparr>sv_risk := sv_risk st @ evs\<rparr>)))"
  by (auto simp: CreateOrder_def Let_def split: sum.splits if_splits outcome.splits)

lemma store_new_order_orders:
  "sv_orders (fst (store_new_order S W ord st)) = fst (order_Create (env S, w_create_fault W) ord (sv_orders st))"
  "sv_calls (fst (store_new_order S W ord st)) = sv_calls st"
  by (simp_all add: store_new_order_def split: prod.splits sum.splits)

lemma CreateOrder_frame:
  obtains (none) "sv_orders (fst (CreateOrder S W req st)) = sv_orders st"
      "sv_calls (fst (CreateOrder S W req st)) = sv_calls st"
  | (create) "sv_orders (fst (CreateOrder S W req st)) =
        fst (order_Create (env S, w_create_fault W) (new_order req (w_clock W)) (sv_orders st))"
      "sv_calls (fst (CreateOrder S W req st)) = sv_calls st"
proof -
  consider "fst (CreateOrder S W req st) = st\<lparr>sv_risk := sv_risk (fst (CreateOrder S W req st))\<rparr>"
    | evs where "fst (CreateOrder S W req st) =
        fst (store_new_order S W (new_order req (w_clock W)) (st\<lparr>sv_risk := sv_risk st @ evs\<rparr>))"
    using CreateOrder_table by blast
  then show ?thesis
  proof cases
    case 1
    show ?thesis
      by (rule none) (subst 1, simp)+
  next
    case (2 evs)
    then show ?thesis by (intro create) (simp_all add: store_new_order_orders)
  qed
qed

text \<open>What each operation does to the row of one order.\<close>

lemma CancelOrder_table:
  obtains (none) "sv_orders (fst (CancelOrder S W oid st)) = sv_orders st"
  | (save) x r where "o_ID x = oid" "o_Status x = OrderStatusCanceled"
      "order_lookup (sv_orders st) oid = Some r" "c_status r \<in> {OrderStatusSubmitted, OrderStatusPartial}"
      "sv_orders (fst (CancelOrder S W oid st)) =
         fst (order_Update (env S, w_update_fault W x) x (sv_orders st))"
proof (cases "order_GetByID (env S, w_read_fault W) oid (sv_orders st)")
  case (Inl e)
  then show ?thesis by (intro none) (simp add: CancelOrder_def)
next
  case (Inr ord)
  from order_GetByID_Ok [OF Inr] obtain r where r: "order_lookup (sv_orders st) oid = Some r"
      "scanOrder (env S) r = Inr ord" "c_id r = oid" by auto
  note sc = scanOrder_Ok [OF r(2)]
  show ?thesis
  proof (cases "IsActive ord \<and> w_cancel W (o_ExchangeOrderID ord) = None")
    case False
    then show ?thesis using Inr by (intro none) (auto simp: CancelOrder_def Let_def split: option.splits)
  next
    case True
    show ?thesis
      by (rule save [of "ord\<lparr>o_Status := OrderStatusCanceled, o_UpdatedAtUTC := w_clock W 0\<rparr>" r])
        (use True Inr r sc in \<open>auto simp: CancelOrder_def Let_def IsActive_def dest!: save_orderD
           split: prod.splits sum.splits\<close>)
  qed
qed

lemma ReconcileOrders_table:
  obtains (none) "sv_orders (fst (ReconcileOrders S W st)) = sv_orders st"
  | (save) ords where "order_ListActive (env S, w_read_fault W) (sv_orders st) = Inr ords"
      "sv_orders (fst (ReconcileOrders S W st)) =
         fst (each_update (reconcile_order W) (\<lambda>x. order_Update (env S, w_update_fault W x) x) ords (sv_orders st))"
proof (cases "order_ListActive (env S, w_read_fault W) (sv_orders st)")
  case (Inl e)
  then show ?thesis by (intro none) (simp add: ReconcileOrders_def)
next
  case (Inr ords)
  then show ?thesis by (intro save) (auto simp: ReconcileOrders_def split: prod.splits sum.splits)
qed

lemma reconcile_order_key: "reconcile_order W ord = Some y \<Longrightarrow> o_ID y = o_ID ord"
  by (auto simp: reconcile_order_def split: if_splits sum.splits)

lemma each_update_keys:
  "order_keys_ok rows \<Longrightarrow> order_keys_ok (fst (each_update g (\<lambda>x. order_Update (h x) x) xs rows))"
proof (induction xs arbitrary: rows)
  case (Cons x xs)
  show ?case
  proof (cases "g x")
    case (Some y)
    have k: "order_keys_ok (fst (order_Update (h y) y rows))" using Cons.prems by (rule order_Update_keys)
    then show ?thesis using Cons.IH Some
      by (cases "order_Update (h y) y rows") (auto split: sum.splits)
  qed (use Cons in simp)
qed simp

lemma service_step_keys [step_invs]:
  "order_keys_ok (sv_orders st) \<Longrightarrow> order_keys_ok (sv_orders (service_step S x st))"
proof (cases x)
  case (OpCreate W req)
  then show "order_keys_ok (sv_orders st) \<Longrightarrow> ?thesis"
    by (cases rule: CreateOrder_frame [of S W req st]) (simp_all add: order_Create_keys)
next
  case (OpSubmit W oid)
  have "order_keys_ok (sv_orders st) \<Longrightarrow> order_keys_ok (sv_orders (fst (submit_finish S W ord answer st)))" for ord answer
    using submit_finish_table [of ord S W answer st] order_Update_keys [of "sv_orders st"] by metis
  then show "order_keys_ok (sv_orders st) \<Longrightarrow> ?thesis"
    using OpSubmit by (cases "submit_begin S W oid st") (simp_all add: SubmitOrder_def)
next
  case (OpCancel W oid)
  then show "order_keys_ok (sv_orders st) \<Longrightarrow> ?thesis"
    by (cases rule: CancelOrder_table [of S W oid st]) (simp_all add: order_Update_keys)
next
  case (OpReconcile W)
  then show "order_keys_ok (sv_orders st) \<Longrightarrow> ?thesis"
    by (cases rule: ReconcileOrders_table [of S W st]) (simp_all add: each_update_keys)
qed

definition terminal_status :: "order_status \<Rightarrow> bool" where
  "terminal_status s \<longleftrightarrow> s \<in> {OrderStatusFilled, OrderStatusCanceled, OrderStatusRejected}"

lemma service_step_terminal:
  assumes keys: "order_keys_ok (sv_orders st)" and row: "order_lookup (sv_orders st) k = Some r"
    and final: "terminal_status (c_status r)"
  shows "order_lookup (sv_orders (service_step S x st)) k = Some r"
proof (cases x)
  case (OpCreate W req)
  show ?thesis
    by (cases rule: CreateOrder_frame [of S W req st])
      (use row OpCreate orders.ins_row [OF row] in simp_all)
next
  case (OpSubmit W oid)
  show ?thesis
  proof (cases "submit_begin S W oid st")
    case (Inl e)
    then show ?thesis using OpSubmit row by (simp add: SubmitOrder_def)
  next
    case (Inr ord)
    from submit_begin_Ok [OF Inr] have "k \<noteq> o_ID ord" using row final by (auto simp: terminal_status_def)
    then show ?thesis using submit_finish_table [of ord S W "w_submit W ord" st] OpSubmit Inr row
      by (auto simp: SubmitOrder_def order_Update_lookup)
  qed
next
  case (OpCancel W oid)
  show ?thesis
    by (cases rule: CancelOrder_table [of S W oid st])
      (use row final OpCancel in \<open>auto simp: order_Update_lookup terminal_status_def\<close>)
next
  case (OpReconcile W)
  show ?thesis
  proof (cases rule: ReconcileOrders_table [of S W st])
    case none
    then show ?thesis using row OpReconcile by simp
  next
    case (save ords)
    have "\<forall>z \<in> set ords. \<forall>y. reconcile_order W z = Some y \<longrightarrow> o_ID y \<noteq> k"
    proof (intro ballI allI impI notI)
      fix z y assume z: "z \<in> set ords" and y: "reconcile_order W z = Some y" and "o_ID y = k"
      obtain q where q: "q \<in> set (sv_orders st)" "scanOrder (env S) q = Inr z"
          "c_status q \<in> {OrderStatusSubmitted, OrderStatusPartial}"
        using order_ListActive_row [OF save(1) z] by blast
      then have "order_lookup (sv_orders st) (c_id q) = Some q" using order_lookup_in_set [OF keys] by blast
      moreover have "c_id q = k" using scanOrder_Ok [OF q(2)] reconcile_order_key [OF y] \<open>o_ID y = k\<close> by simp
      ultimately show False using row q(3) final by (auto simp: terminal_status_def)
    qed
    from orders.each_update_other [OF this, of "\<lambda>y. (env S, w_update_fault W y)" "sv_orders st"]
    show ?thesis using save(2) row OpReconcile by simp
  qed
qed

lemma checkNewEntry_unit: "checkNewEntry S W = Inr u \<Longrightarrow> checkNewEntry S W = Ok ()"
  by simp

subsection \<open>Submissions\<close>

text \<open>The ids of the orders that the exchange accepted, in order.\<close>

fun accepted :: "exchange_call list \<Rightarrow> string list" where
  "accepted [] = []"
| "accepted (SubmitCall oid (Inr eid) # cs) = oid # accepted cs"
| "accepted (_ # cs) = accepted cs"

lemma accepted_append [simp]: "accepted (xs @ ys) = accepted xs @ accepted ys"
  by (induction xs rule: accepted.induct) simp_all

fun op_world :: "'d service_op \<Rightarrow> 'd world" where
  "op_world (OpCreate W req) = W"
| "op_world (OpSubmit W oid) = W"
| "op_world (OpCancel W oid) = W"
| "op_world (OpReconcile W) = W"

text \<open>The database saves what it is given, and the exchange reports no known order as pending.\<close>

definition saves_and_reports :: "'d world \<Rightarrow> bool" where
  "saves_and_reports W \<longleftrightarrow> (\<forall>x. w_update_fault W x = None) \<and>
     (\<forall>eid x. w_query W eid = Inr x \<longrightarrow> o_Status x \<noteq> OrderStatusPending)"

definition left_pending :: "order_table \<Rightarrow> string \<Rightarrow> bool" where
  "left_pending rows k \<longleftrightarrow> (\<exists>r. order_lookup rows k = Some r \<and> c_status r \<noteq> OrderStatusPending)"

lemma left_pending_Update:
  "left_pending rows k \<Longrightarrow> o_Status x \<noteq> OrderStatusPending \<Longrightarrow> left_pending (fst (order_Update ef x rows)) k"
  by (auto simp: left_pending_def order_Update_lookup)

lemma left_pending_Create: "left_pending rows k \<Longrightarrow> left_pending (fst (order_Create ef x rows)) k"
  unfolding left_pending_def using orders.ins_row by blast

lemma left_pending_each:
  assumes "left_pending rows k" "saves_and_reports W"
  shows "left_pending (fst (each_update (reconcile_order W) (\<lambda>x. order_Update (h x) x) xs rows)) k"
proof -
  obtain r where r: "order_lookup rows k = Some r" "c_status r \<noteq> OrderStatusPending"
    using assms(1) by (auto simp: left_pending_def)
  have "c_status (order_set_columns (h y) y q) \<noteq> OrderStatusPending" if "reconcile_order W x = Some y" for x y q
    using that assms(2) by (auto simp: reconcile_order_def saves_and_reports_def split: if_splits sum.splits)
  from orders.each_update_row [of rows k r "\<lambda>r. c_status r \<noteq> OrderStatusPending", OF r this]
  show ?thesis by (simp add: left_pending_def)
qed

lemma service_step_left_pending:
  assumes "left_pending (sv_orders st) k" "saves_and_reports (op_world x)"
  shows "left_pending (sv_orders (service_step S x st)) k"
proof (cases x)
  case (OpCreate W req)
  show ?thesis
    by (cases rule: CreateOrder_frame [of S W req st]) (use assms OpCreate in \<open>simp_all add: left_pending_Create\<close>)
next
  case (OpSubmit W oid)
  have "left_pending (sv_orders (fst (submit_finish S W ord answer st))) k" for ord answer
    using submit_finish_table [of ord S W answer st] left_pending_Update [OF assms(1)] by force
  then show ?thesis using assms OpSubmit
    by (cases "submit_begin S W oid st") (simp_all add: SubmitOrder_def)
next
  case (OpCancel W oid)
  show ?thesis
    by (cases rule: CancelOrder_table [of S W oid st])
      (use assms OpCancel in \<open>simp_all add: left_pending_Update\<close>)
next
  case (OpReconcile W)
  show ?thesis
    by (cases rule: ReconcileOrders_table [of S W st])
      (use assms OpReconcile in \<open>simp_all add: left_pending_each\<close>)
qed

lemma submit_accepted_row:
  assumes "submit_begin S W oid st = Inr ord" "w_submit W ord = Inr eid" "saves_and_reports W"
  shows "left_pending (sv_orders (fst (SubmitOrder S W oid st))) oid"
proof -
  from submit_begin_Ok [OF assms(1)] obtain r where r: "order_lookup (sv_orders st) oid = Some r" "o_ID ord = oid"
    by blast
  obtain x where x: "o_ID x = o_ID ord" "o_Status x = OrderStatusRejected \<or> o_Status x = OrderStatusSubmitted"
      "sv_orders (fst (submit_finish S W ord (Inr eid) st)) =
         fst (order_Update (env S, w_update_fault W x) x (sv_orders st))"
    using submit_finish_table by blast
  show ?thesis using x r assms
    by (auto simp: SubmitOrder_def left_pending_def order_Update_lookup saves_and_reports_def)
qed

definition accepted_inv :: "'d service \<Rightarrow> bool" where
  "accepted_inv st \<longleftrightarrow> distinct (accepted (sv_calls st)) \<and>
     (\<forall>k \<in> set (accepted (sv_calls st)). left_pending (sv_orders st) k)"

lemma CancelOrder_accepted: "accepted (sv_calls (fst (CancelOrder S W oid st))) = accepted (sv_calls st)"
  by (auto simp: CancelOrder_def Let_def dest!: save_orderD split: sum.splits option.splits prod.splits)

lemma ReconcileOrders_calls: "sv_calls (fst (ReconcileOrders S W st)) = sv_calls st"
  by (auto simp: ReconcileOrders_def split: sum.splits prod.splits)

lemma service_step_accepted [step_invs]:
  assumes inv: "accepted_inv st" and w: "saves_and_reports (op_world x)"
  shows "accepted_inv (service_step S x st)"
proof -
  have keep: "\<forall>k \<in> set (accepted (sv_calls st)). left_pending (sv_orders (service_step S x st)) k"
    using inv service_step_left_pending [OF _ w] by (simp add: accepted_inv_def)
  have d: "distinct (accepted (sv_calls st))" using inv by (simp add: accepted_inv_def)
  show ?thesis
  proof (cases x)
    case (OpCreate W req)
    have "sv_calls (service_step S x st) = sv_calls st"
      by (cases rule: CreateOrder_frame [of S W req st]) (simp_all add: OpCreate)
    with keep d show ?thesis by (simp add: accepted_inv_def)
  next
    case (OpSubmit W oid)
    show ?thesis
    proof (cases "submit_begin S W oid st")
      case (Inl e)
      then show ?thesis using inv OpSubmit by (simp add: SubmitOrder_def)
    next
      case (Inr ord)
      show ?thesis
      proof (cases "w_submit W ord")
        case (Inl m)
        then show ?thesis using keep d Inr OpSubmit by (simp add: accepted_inv_def SubmitOrder_def)
      next
        case acc: (Inr eid)
        have o: "o_ID ord = oid" "\<not> left_pending (sv_orders st) oid"
          using submit_begin_Ok [OF Inr] by (auto simp: left_pending_def)
        have "left_pending (sv_orders (service_step S x st)) oid"
          using submit_accepted_row [OF Inr acc] w OpSubmit by simp
        moreover have "accepted (sv_calls (service_step S x st)) = accepted (sv_calls st) @ [oid]"
          using Inr acc OpSubmit o by (simp add: SubmitOrder_def)
        ultimately show ?thesis using keep inv o by (auto simp: accepted_inv_def)
      qed
    qed
  next
    case (OpCancel W oid)
    with keep d show ?thesis by (simp add: accepted_inv_def CancelOrder_accepted)
  next
    case (OpReconcile W)
    with keep d show ?thesis by (simp add: accepted_inv_def ReconcileOrders_calls)
  qed
qed

lemma service_run_accepted:
  "accepted_inv st \<Longrightarrow> \<forall>x \<in> set ops. saves_and_reports (op_world x) \<Longrightarrow> accepted_inv (service_run S ops st)"
  by (induction ops arbitrary: st) (simp_all add: service_step_accepted)

subsection \<open>Properties\<close>


text \<open>A closed trading gate stops both ways into the market and only those. When the gate refuses,
  \<open>CreateOrder\<close> and \<open>SubmitOrder\<close> return its error without reading or changing anything and
  without calling the exchange.\<close>

theorem closed_gate_stops_entries:
  assumes "checkNewEntry S W = Err e"
  shows "CreateOrder S W req st = (st, Fail e) \<and> SubmitOrder S W oid st = (st, Err e)"
  using assms by (simp add: CreateOrder_def SubmitOrder_def submit_begin_def)

text \<open>With the SQLite position repository no strategy can open its first position. The service
  treats only the domain's \<open>storage.ErrNotFound\<close> as \<open>no position\<close>, the repository returns its own
  \<open>sqlite.ErrNotFound\<close>: when the table has no open row for the strategy and symbol, \<open>CreateOrder\<close>
  always fails and changes nothing.\<close>

theorem first_order_impossible_on_sqlite:
  assumes "\<And>sid smb. w_position W sid smb = map_sum id Some (GetByStrategyAndSymbol (E, fault) sid smb table)"
    and "\<not> (\<exists>r \<in> set table. k_strategy_id r = rq_StrategyID req \<and> k_symbol r = rq_Symbol req \<and> k_closed_at r = None)"
  shows "\<exists>e. CreateOrder S W req st = (st, Fail e)"
proof -
  have "find (\<lambda>r. k_strategy_id r = rq_StrategyID req \<and> k_symbol r = rq_Symbol req \<and> k_closed_at r = None) table = None"
    using assms(2) by (auto simp: find_None_iff)
  then have "\<exists>e. load_position (w_position W (rq_StrategyID req) (rq_Symbol req)) = Inl e"
    by (auto simp: assms(1) GetByStrategyAndSymbol_def query_position_def load_position_def split: option.splits)
  then show ?thesis by (auto simp: CreateOrder_def split: sum.splits)
qed

text \<open>C16: Terminal orders are final. Whatever operations follow, in whatever worlds (faults, answers of
  the exchange, clocks), the row of a filled, canceled or rejected order never changes again.\<close>

theorem terminal_orders_are_final:
  assumes "order_keys_ok (sv_orders st)" "order_lookup (sv_orders st) k = Some r" "terminal_status (c_status r)"
  shows "order_lookup (sv_orders (service_run S ops st)) k = Some r"
  using assms(1,2)
proof (induction ops arbitrary: st)
  case (Cons x xs)
  show ?case
    using Cons.IH [OF service_step_keys [OF Cons.prems(1)] service_step_terminal [OF Cons.prems assms(3)]]
    by simp
qed simp

text \<open>C3: The exchange accepts each order at most once. In every history of service operations that
  starts without submissions, if the database saves updates and the exchange never reports a known
  order as pending, no order id is accepted twice, whatever else fails.\<close>

theorem accepted_at_most_once:
  assumes "sv_calls st = []" "\<forall>x \<in> set ops. saves_and_reports (op_world x)"
  shows "distinct (accepted (sv_calls (service_run S ops st)))"
proof -
  have "accepted_inv st" using assms(1) by (simp add: accepted_inv_def)
  from service_run_accepted [OF this assms(2)] show ?thesis by (simp add: accepted_inv_def)
qed

text \<open>A lost update resubmits. If the exchange accepts a pending order but saving the result fails,
  the order is still pending and the exchange id is lost: submitting it again, with the gate open,
  is accepted a second time.\<close>

theorem lost_update_resubmits:
  assumes "submit_begin S W oid st = Ok ord" "w_submit W ord = Ok eid1" "\<And>x. w_update_fault W x \<noteq> None"
    and "checkNewEntry S W' = Ok ()" "w_read_fault W' = None" "w_submit W' ord = Ok eid2"
  shows "sv_calls (fst (SubmitOrder S W' oid (fst (SubmitOrder S W oid st)))) =
     sv_calls st @ [SubmitCall oid (Ok eid1), SubmitCall oid (Ok eid2)]"
proof -
  let ?st = "fst (SubmitOrder S W oid st)"
  note b = submit_begin_Ok [OF assms(1)]
  have g: "order_GetByID (env S, w_read_fault W) oid (sv_orders st) = Inr ord"
    using assms(1) by (auto simp: submit_begin_def split: sum.splits if_splits)
  have "sv_orders ?st = sv_orders st"
  proof -
    obtain x where "sv_orders ?st = fst (order_Update (env S, w_update_fault W x) x (sv_orders st))"
      using submit_finish_table [of ord S W "Inr eid1" st] assms(1,2) by (auto simp: SubmitOrder_def)
    then show ?thesis using assms(3) [of x] by (auto simp: order_Update_def)
  qed
  moreover have "w_read_fault W = None" using order_GetByID_Ok [OF g] by simp
  ultimately have "submit_begin S W' oid ?st = Inr ord"
    using assms(4,5) g b by (simp add: submit_begin_def)
  moreover have "sv_calls ?st = sv_calls st @ [SubmitCall oid (Inr eid1)]"
    using assms(1,2) b by (simp add: SubmitOrder_def)
  ultimately show ?thesis using assms(6) b by (simp add: SubmitOrder_def)
qed

text \<open>Reconciliation adopts the exchange's view. When \<open>ReconcileOrders\<close> succeeds, every stored
  order that was active, has an exchange id and was answered by the exchange now has the answer's
  status and quantities; every other order's row is unchanged.\<close>

theorem reconcile_adopts_exchange_view:
  assumes keys: "order_keys_ok (sv_orders st)" and run: "ReconcileOrders S W st = (st', Ok ())"
    and row: "order_lookup (sv_orders st) k = Some r"
  shows "order_lookup (sv_orders st') k =
     (case (if c_status r \<in> {OrderStatusSubmitted, OrderStatusPartial} then c_exchange_order_id r else None) of
        None \<Rightarrow> Some r
      | Some eid \<Rightarrow>
          if eid = [] then Some r
          else case w_query W eid of
                 Inl _ \<Rightarrow> Some r
               | Inr x \<Rightarrow> map_option (\<lambda>ord. order_set_columns (env S, None)
                   (ord\<lparr>o_Status := o_Status x, o_FilledQty := o_FilledQty x, o_RemainingQty := o_RemainingQty x,
                        o_AvgFillPrice := o_AvgFillPrice x, o_UpdatedAtUTC := w_order_clock W k\<rparr>) r)
                 (case scanOrder (env S) r of Inl _ \<Rightarrow> None | Inr ord \<Rightarrow> Some ord))"
proof -
  let ?active = "{OrderStatusSubmitted, OrderStatusPartial}"
  let ?upd = "\<lambda>x. order_Update (env S, w_update_fault W x) x"
  obtain ords where list: "order_ListActive (env S, w_read_fault W) (sv_orders st) = Inr ords"
      and loop: "each_update (reconcile_order W) ?upd ords (sv_orders st) = (sv_orders st', Inr ())"
    using run by (auto simp: ReconcileOrders_def split: sum.splits prod.splits)
  note scan = conjunct2 [OF order_ListActive_Ok [OF list]]
  have kr: "c_id r = k" "r \<in> set (sv_orders st)" using row row_of_Some_key row_of_Some_set by metis+
  note dist = order_ListActive_find(1) [OF keys list]
  have other: "order_lookup (sv_orders st') k = Some r"
    if "\<forall>z \<in> set ords. \<forall>y. reconcile_order W z = Some y \<longrightarrow> o_ID y \<noteq> k"
    using orders.each_update_other [OF that, of "\<lambda>y. (env S, w_update_fault W y)" "sv_orders st"] loop row by simp
  show ?thesis
  proof (cases "c_status r \<in> ?active")
    case False
    have "k \<notin> o_ID ` set ords"
    proof
      assume "k \<in> o_ID ` set ords"
      then obtain z where z: "z \<in> set ords" "o_ID z = k" by blast
      then obtain q where "q \<in> set (sv_orders st)" "c_status q \<in> ?active" "scanOrder (env S) q = Inr z"
        using order_ListActive_row [OF list] by blast
      then show False using order_lookup_in_set [OF keys] scanOrder_Ok z row False by fastforce
    qed
    then have "order_lookup (sv_orders st') k = Some r" by (intro other) (auto dest: reconcile_order_key)
    then show ?thesis using False by simp
  next
    case True
    have "r \<in> set (order_desc c_created_at (filter (\<lambda>r. c_status r \<in> ?active) (sv_orders st)))"
      using kr True by simp
    then obtain ord where ord: "ord \<in> set ords" "scanOrder (env S) r = Inr ord"
      using scan_all_complete [OF scan] by blast
    note so = scanOrder_Ok [OF ord(2)]
    have only: "z = ord" if "z \<in> set ords" "o_ID z = k" for z
      using that ord(1) so kr dist by (metis distinct_map inj_onD)
    show ?thesis
    proof (cases "reconcile_order W ord")
      case None
      have "order_lookup (sv_orders st') k = Some r"
        by (rule other) (use None only reconcile_order_key in fastforce)
      then show ?thesis using None so True
        by (auto simp: reconcile_order_def stringOrEmpty_def split: if_splits sum.splits option.splits)
    next
      case (Some y)
      have "order_lookup (sv_orders st') (o_ID ord) = Some (order_set_columns (env S, w_update_fault W y) y r)"
        by (rule orders.each_update_changed [OF loop [simplified] dist _ ord(1) Some])
          (use reconcile_order_key row so kr in auto)
      then show ?thesis using Some so True ord(2) kr
        by (auto simp: reconcile_order_def stringOrEmpty_def order_set_columns_def split: if_splits sum.splits option.splits)
    qed
  qed
qed

subsection \<open>The hypotheses hold together\<close>

definition sample_config :: "int service_config" where
  "sample_config = \<lparr>env = sample_env, lib = int_dec, gate_policy = None, has_publisher = True\<rparr>"

definition sample_world :: "int world" where
  "sample_world = \<lparr>w_runtime = None, w_strategy = (\<lambda>_. Ok sample_strategy), w_symbol = (\<lambda>_. Ok sample_symbol),
     w_position = (\<lambda>_ _. Err StorageErrNotFound), w_balances = Ok None, w_submit = (\<lambda>_. Ok ''e1''),
     w_cancel = (\<lambda>_. None), w_query = (\<lambda>_. Ok (stored_order\<lparr>o_Status := OrderStatusFilled, o_FilledQty := 2\<rparr>)),
     w_read_fault = None, w_create_fault = None, w_update_fault = (\<lambda>_. None),
     w_clock = (\<lambda>_. 7), w_order_clock = (\<lambda>_. 8)\<rparr>"

definition sample_service :: "int service" where
  "sample_service = \<lparr>sv_orders = stored_rows, sv_events = [], sv_risk = [], sv_calls = []\<rparr>"

lemma sample_keys: "order_keys_ok (sv_orders sample_service)"
  by (simp add: sample_service_def stored_rows_eq order_keys_ok_def)

lemma sample_row: "order_lookup (sv_orders sample_service) ''ord_1'' = Some (order_to_row sample_env stored_order)"
  by (simp add: sample_service_def stored_rows_eq stored_order_def)

lemma sample_begin: "submit_begin sample_config (sample_world\<lparr>w_update_fault := f\<rparr>) ''ord_1'' sample_service = Ok stored_order"
  by (simp add: submit_begin_def checkNewEntry_def sample_config_def sample_world_def order_GetByID_None
      sample_service_def stored_rows_eq)
    (simp add: stored_order_def IsPending_def)

theorem closed_gate_stops_entries_witness:
  "SubmitOrder (sample_config\<lparr>gate_policy := Some DefaultPolicy\<rparr>)
     (sample_world\<lparr>w_runtime := Some (Inl ''down'')\<rparr>) ''ord_1'' sample_service =
   (sample_service, Err (GateRefused (ErrStatusUnavailable ''down'')))"
proof -
  have "checkNewEntry (sample_config\<lparr>gate_policy := Some DefaultPolicy\<rparr>) (sample_world\<lparr>w_runtime := Some (Inl ''down'')\<rparr>)
      = Err (GateRefused (ErrStatusUnavailable ''down''))"
    by (simp add: checkNewEntry_def CheckNewEntry_def)
  from closed_gate_stops_entries [OF this] show ?thesis by simp
qed

theorem first_order_impossible_on_sqlite_witness:
  "\<exists>e. CreateOrder sample_config
     (sample_world\<lparr>w_position := (\<lambda>sid smb. map_sum id Some (GetByStrategyAndSymbol (sample_env, None) sid smb []))\<rparr>)
     \<lparr>rq_StrategyID = ''s1'', rq_Symbol = ''BTCUSDT'', rq_Side = OrderSideBuy, rq_Type = OrderTypeLimit,
      rq_Quantity = 4, rq_Price = 50, rq_TimeInForce = TimeInForceGTC\<rparr> sample_service = (sample_service, Fail e)"
  by (rule first_order_impossible_on_sqlite [where E = sample_env and fault = None and table = "[]"]) simp_all

theorem terminal_orders_are_final_witness:
  "order_lookup (sv_orders (service_run sample_config [OpSubmit sample_world ''ord_1'', OpReconcile sample_world]
     (sample_service\<lparr>sv_orders := [order_to_row sample_env (stored_order\<lparr>o_Status := OrderStatusFilled\<rparr>)]\<rparr>))) ''ord_1''
   = Some (order_to_row sample_env (stored_order\<lparr>o_Status := OrderStatusFilled\<rparr>))"
  by (rule terminal_orders_are_final)
    (simp_all add: stored_order_def order_keys_ok_def terminal_status_def)

theorem accepted_at_most_once_witness:
  "distinct (accepted (sv_calls (service_run sample_config
     [OpSubmit sample_world ''ord_1'', OpReconcile sample_world, OpSubmit sample_world ''ord_1''] sample_service)))"
  by (rule accepted_at_most_once)
    (simp_all add: saves_and_reports_def sample_world_def sample_service_def)

theorem lost_update_resubmits_witness:
  "sv_calls (fst (SubmitOrder sample_config sample_world ''ord_1'' (fst (SubmitOrder sample_config
      (sample_world\<lparr>w_update_fault := \<lambda>_. Some ''disk full''\<rparr>) ''ord_1'' sample_service))))
   = sv_calls sample_service @ [SubmitCall ''ord_1'' (Ok ''e1''), SubmitCall ''ord_1'' (Ok ''e1'')]"
  by (rule lost_update_resubmits [OF sample_begin])
    (simp_all add: sample_world_def checkNewEntry_def sample_config_def)

text \<open>The same service with the order submitted, before and after a reconciliation.\<close>

definition live_order :: "int order" where
  "live_order = stored_order\<lparr>o_Status := OrderStatusSubmitted, o_ExchangeOrderID := ''e1''\<rparr>"

definition live_service :: "int service" where
  "live_service = sample_service\<lparr>sv_orders := [order_to_row sample_env live_order]\<rparr>"

theorem reconcile_adopts_exchange_view_witness:
  "map_option c_status (order_lookup (sv_orders (fst (ReconcileOrders sample_config sample_world live_service))) ''ord_1'')
   = Some OrderStatusFilled"
proof -
  let ?st' = "fst (ReconcileOrders sample_config sample_world live_service)"
  have keys: "order_keys_ok (sv_orders live_service)"
    and row: "order_lookup (sv_orders live_service) ''ord_1'' = Some (order_to_row sample_env live_order)"
    by (simp_all add: live_service_def order_keys_ok_def live_order_def stored_order_def)
  have "snd (ReconcileOrders sample_config sample_world live_service) = Inr ()"
    by (simp add: ReconcileOrders_def order_ListActive_def query_orders_def sample_config_def sample_world_def
        live_service_def live_order_def order_desc_def reconcile_order_def order_Update_def stored_order_def)
  then have "ReconcileOrders sample_config sample_world live_service = (?st', Ok ())" by (metis prod.collapse)
  from reconcile_adopts_exchange_view [OF keys this row] show ?thesis
    by (simp add: live_order_def stored_order_def sample_world_def sample_config_def nullString_def)
qed

end
