(* ===== verification/Paper.thy ===== *)
theory Paper
  imports Entity
begin

text \<open>
  The paper trading simulator, \<open>internal/service/paper/simulator.go\<close>. Every method holds the
  simulator's mutex, so each is one atomic step. \<open>SubmitOrder\<close> starts a goroutine that runs
  \<open>simulateFill\<close> after a delay: the fill is a step of its own, which can come at any later time
  and in any order (and never comes when the context is done first). \<open>clock\<close> gives the
  successive readings of \<open>time.Now()\<close> in a step. \<open>None\<close> as the result of a fill is the panic of
  \<open>Div\<close> on a zero total quantity.
\<close>

record 'd simulator =
  sim_orders :: "string \<rightharpoonup> 'd order"
  sim_positions :: "string \<rightharpoonup> 'd position"
  sim_balance :: 'd
  lastPrices :: "string \<rightharpoonup> 'd"
  slippageBps :: 'd
  commissionRate :: 'd

datatype paper_error = PaperOrderNotFound string | PaperOrderTerminal order_status | PaperPositionNotFound string

definition NewSimulator :: "'d::linordered_idom dec_lib \<Rightarrow> 'd \<Rightarrow> 'd simulator" where
  "NewSimulator D initialBalance =
     \<lparr>sim_orders = Map.empty, sim_positions = Map.empty, sim_balance = initialBalance,
      lastPrices = Map.empty, slippageBps = from_int 5, commissionRate = dec_shift D (from_int 6) (- 4)\<rparr>"

definition paper_SubmitOrder :: "(nat \<Rightarrow> time) \<Rightarrow> 'd order \<Rightarrow> 'd simulator \<Rightarrow> 'd simulator \<times> string" where
  "paper_SubmitOrder clock ord s =
     (let exchangeOrderID = ''paper_'' @ int_text (clock 0);
          simOrder = ord\<lparr>o_ExchangeOrderID := exchangeOrderID, o_Status := OrderStatusSubmitted,
                         o_SubmittedAtUTC := Some (clock 1)\<rparr>
      in (s\<lparr>sim_orders := (sim_orders s)(exchangeOrderID \<mapsto> simOrder)\<rparr>, exchangeOrderID))"

definition paper_CancelOrder :: "time \<Rightarrow> string \<Rightarrow> 'd simulator \<Rightarrow> 'd simulator \<times> (paper_error + unit)" where
  "paper_CancelOrder now oid s =
     (case sim_orders s oid of
        None \<Rightarrow> (s, Err (PaperOrderNotFound oid))
      | Some ord \<Rightarrow>
          if IsTerminal ord then (s, Err (PaperOrderTerminal (o_Status ord)))
          else (s\<lparr>sim_orders := (sim_orders s)(oid \<mapsto>
                   ord\<lparr>o_Status := OrderStatusCanceled, o_UpdatedAtUTC := now\<rparr>)\<rparr>, Ok ()))"

definition GetOrderStatus :: "string \<Rightarrow> 'd simulator \<Rightarrow> paper_error + 'd order" where
  "GetOrderStatus oid s = (case sim_orders s oid of None \<Rightarrow> Err (PaperOrderNotFound oid) | Some ord \<Rightarrow> Ok ord)"

definition paper_GetPosition :: "string \<Rightarrow> 'd simulator \<Rightarrow> paper_error + 'd position" where
  "paper_GetPosition smb s = (case sim_positions s smb of None \<Rightarrow> Err (PaperPositionNotFound smb) | Some p \<Rightarrow> Ok p)"

definition calculateRealizedPnL :: "'d::linordered_idom position \<Rightarrow> 'd \<Rightarrow> 'd \<Rightarrow> 'd" where
  "calculateRealizedPnL p exitPrice qty =
     (if p_Side p = PositionSideLong then (exitPrice - p_EntryPrice p) * qty
      else (p_EntryPrice p - exitPrice) * qty)"

definition calculateUnrealizedPnL :: "'d::linordered_idom position \<Rightarrow> 'd \<Rightarrow> 'd" where
  "calculateUnrealizedPnL p currentPrice =
     (if p_Side p = PositionSideLong then (currentPrice - p_EntryPrice p) * p_Quantity p
      else (p_EntryPrice p - currentPrice) * p_Quantity p)"

definition UpdateMarketPrice :: "time \<Rightarrow> string \<Rightarrow> 'd::linordered_idom \<Rightarrow> 'd simulator \<Rightarrow> 'd simulator" where
  "UpdateMarketPrice now smb price s =
     (let s1 = s\<lparr>lastPrices := (lastPrices s)(smb \<mapsto> price)\<rparr> in
      case sim_positions s smb of
        None \<Rightarrow> s1
      | Some p \<Rightarrow>
          if IsFlat p then s1
          else s1\<lparr>sim_positions := (sim_positions s)(smb \<mapsto>
                 p\<lparr>p_CurrentPrice := price, p_UnrealizedPnL := calculateUnrealizedPnL p price,
                   p_UpdatedAtUTC := now\<rparr>)\<rparr>)"

definition paper_Reset :: "'d \<Rightarrow> 'd simulator \<Rightarrow> 'd simulator" where
  "paper_Reset initialBalance s =
     s\<lparr>sim_orders := Map.empty, sim_positions := Map.empty, sim_balance := initialBalance,
       lastPrices := Map.empty\<rparr>"

definition applySlippage :: "'d::linordered_idom dec_lib \<Rightarrow> 'd simulator \<Rightarrow> 'd order \<Rightarrow> 'd \<Rightarrow> 'd option" where
  "applySlippage D s ord marketPrice =
     map_option (\<lambda>m. if o_Side ord = OrderSideBuy then marketPrice * (from_int 1 + m)
                     else marketPrice * (from_int 1 - m))
       (dec_div D (slippageBps s) (from_int 10000))"

definition opened_position :: "(nat \<Rightarrow> time) \<Rightarrow> 'd::linordered_idom order \<Rightarrow> 'd \<Rightarrow> 'd \<Rightarrow> 'd position" where
  "opened_position clock ord fillPrice commission =
     \<lparr>p_ID = ''pos_'' @ o_Symbol ord @ ''_'' @ int_text (clock 1), p_StrategyID = o_StrategyID ord,
      p_Symbol = o_Symbol ord,
      p_Side = (if o_Side ord = OrderSideSell then PositionSideShort else PositionSideLong),
      p_Quantity = o_Quantity ord, p_EntryPrice = fillPrice, p_CurrentPrice = fillPrice,
      p_UnrealizedPnL = 0, p_RealizedPnL = - commission, p_OpenedAtUTC = clock 2,
      p_UpdatedAtUTC = clock 3, p_ClosedAtUTC = None\<rparr>"

definition adds_to :: "'d order \<Rightarrow> 'd position \<Rightarrow> bool" where
  "adds_to ord p \<longleftrightarrow> (o_Side ord = OrderSideBuy \<and> p_Side p = PositionSideLong) \<or>
     (o_Side ord = OrderSideSell \<and> p_Side p = PositionSideShort)"

text \<open>The branches of \<open>updatePosition\<close> for a position that exists.\<close>

definition changed_position :: "'d::linordered_idom dec_lib \<Rightarrow> 'd order \<Rightarrow> 'd \<Rightarrow> 'd \<Rightarrow> 'd position \<Rightarrow> 'd position option" where
  "changed_position D ord fillPrice commission p =
     (if adds_to ord p then
        (let totalCost = p_Quantity p * p_EntryPrice p + o_Quantity ord * fillPrice;
             totalQty = p_Quantity p + o_Quantity ord
         in map_option (\<lambda>entry. p\<lparr>p_EntryPrice := entry, p_Quantity := totalQty,
                                 p_RealizedPnL := p_RealizedPnL p - commission\<rparr>)
              (dec_div D totalCost totalQty))
      else
        (let pnl = calculateRealizedPnL p fillPrice (o_Quantity ord);
             p1 = p\<lparr>p_RealizedPnL := p_RealizedPnL p + pnl - commission\<rparr>
         in if o_Quantity ord \<ge> p_Quantity p
            then Some (p1\<lparr>p_Quantity := 0, p_UnrealizedPnL := 0\<rparr>)
            else Some (p1\<lparr>p_Quantity := p_Quantity p - o_Quantity ord\<rparr>)))"

definition updatePosition ::
  "'d::linordered_idom dec_lib \<Rightarrow> (nat \<Rightarrow> time) \<Rightarrow> 'd order \<Rightarrow> 'd \<Rightarrow> 'd \<Rightarrow> 'd simulator \<Rightarrow> 'd simulator option" where
  "updatePosition D clock ord fillPrice commission s =
     (case sim_positions s (o_Symbol ord) of
        None \<Rightarrow> Some (s\<lparr>sim_positions := (sim_positions s)(o_Symbol ord \<mapsto>
                        opened_position clock ord fillPrice commission)\<rparr>)
      | Some p \<Rightarrow>
          map_option (\<lambda>p'. s\<lparr>sim_positions := (sim_positions s)(o_Symbol ord \<mapsto>
              p'\<lparr>p_CurrentPrice := fillPrice, p_UpdatedAtUTC := clock 1\<rparr>)\<rparr>)
            (changed_position D ord fillPrice commission p))"

text \<open>The fill of an accepted order: order, balance, position, in this order.\<close>

definition fill_order ::
  "'d::linordered_idom dec_lib \<Rightarrow> (nat \<Rightarrow> time) \<Rightarrow> string \<Rightarrow> 'd order \<Rightarrow> 'd \<Rightarrow> 'd simulator \<Rightarrow> 'd simulator option" where
  "fill_order D clock oid ord fillPrice s =
     (let notional = o_Quantity ord * fillPrice;
          commission = notional * commissionRate s;
          filled = ord\<lparr>o_Status := OrderStatusFilled, o_FilledQty := o_Quantity ord, o_RemainingQty := 0,
                       o_AvgFillPrice := fillPrice, o_FilledAtUTC := Some (clock 0), o_UpdatedAtUTC := clock 0\<rparr>;
          balance' = (if o_Side ord = OrderSideBuy then sim_balance s - (notional + commission)
                      else sim_balance s + (notional - commission))
      in updatePosition D clock filled fillPrice commission
           (s\<lparr>sim_orders := (sim_orders s)(oid \<mapsto> filled), sim_balance := balance'\<rparr>))"

definition simulateFill ::
  "'d::linordered_idom dec_lib \<Rightarrow> (nat \<Rightarrow> time) \<Rightarrow> string \<Rightarrow> 'd simulator \<Rightarrow> 'd simulator option" where
  "simulateFill D clock oid s =
     (case sim_orders s oid of
        None \<Rightarrow> Some s
      | Some ord \<Rightarrow>
          if o_Status ord \<noteq> OrderStatusSubmitted then Some s
          else
            (let marketPrice = (case lastPrices s (o_Symbol ord) of None \<Rightarrow> o_Price ord | Some pr \<Rightarrow> pr) in
             case applySlippage D s ord marketPrice of
               None \<Rightarrow> None
             | Some fillPrice \<Rightarrow>
                 (let notional = o_Quantity ord * fillPrice;
                      requiredBalance = notional + notional * commissionRate s
                  in if o_Side ord = OrderSideBuy \<and> sim_balance s < requiredBalance
                     then Some (s\<lparr>sim_orders := (sim_orders s)(oid \<mapsto>
                            ord\<lparr>o_Status := OrderStatusRejected, o_UpdatedAtUTC := clock 0\<rparr>)\<rparr>)
                     else fill_order D clock oid ord fillPrice s)))"

subsection \<open>Histories\<close>

datatype 'd paper_op =
    PaperSubmit "nat \<Rightarrow> time" "'d order"
  | PaperCancel time string
  | PaperPrice time string 'd
  | PaperFill "nat \<Rightarrow> time" string

fun paper_step :: "'d::linordered_idom dec_lib \<Rightarrow> 'd paper_op \<Rightarrow> 'd simulator \<Rightarrow> 'd simulator option" where
  "paper_step D (PaperSubmit clock ord) s = Some (fst (paper_SubmitOrder clock ord s))"
| "paper_step D (PaperCancel now oid) s = Some (fst (paper_CancelOrder now oid s))"
| "paper_step D (PaperPrice now smb price) s = Some (UpdateMarketPrice now smb price s)"
| "paper_step D (PaperFill clock oid) s = simulateFill D clock oid s"

fun paper_run :: "'d::linordered_idom dec_lib \<Rightarrow> 'd paper_op list \<Rightarrow> 'd simulator \<Rightarrow> 'd simulator option" where
  "paper_run D [] s = Some s"
| "paper_run D (x # xs) s = (case paper_step D x s of None \<Rightarrow> None | Some s' \<Rightarrow> paper_run D xs s')"

subsection \<open>The books\<close>

text \<open>
  The equity at cost: cash, plus the entry value of the long positions, minus that of the short
  ones, minus the profits already booked as realized. Trading at the fill price and paying the
  commission should not change it.
\<close>

definition side_sign :: "'d::linordered_idom position \<Rightarrow> 'd" where
  "side_sign p = (if p_Side p = PositionSideLong then 1 else - 1)"

definition book :: "'d::linordered_idom position \<Rightarrow> 'd" where
  "book p = side_sign p * (p_Quantity p * p_EntryPrice p) - p_RealizedPnL p"

definition equity :: "'d::linordered_idom simulator \<Rightarrow> 'd" where
  "equity s = sim_balance s + map_sum_of book (sim_positions s)"

definition order_valid :: "'d::linordered_idom order \<Rightarrow> bool" where
  "order_valid ord \<longleftrightarrow> (o_Side ord = OrderSideBuy \<or> o_Side ord = OrderSideSell) \<and> 0 < o_Quantity ord"

definition position_valid :: "'d::linordered_idom position \<Rightarrow> bool" where
  "position_valid p \<longleftrightarrow> (p_Side p = PositionSideLong \<or> p_Side p = PositionSideShort) \<and> 0 \<le> p_Quantity p"

definition paper_inv :: "'d::linordered_idom simulator \<Rightarrow> bool" where
  "paper_inv s \<longleftrightarrow> finite (dom (sim_positions s)) \<and>
     (\<forall>oid ord. sim_orders s oid = Some ord \<longrightarrow> order_valid ord) \<and>
     (\<forall>smb p. sim_positions s smb = Some p \<longrightarrow> position_valid p)"

text \<open>How far an update of a position moves the equity, given what the balance did.\<close>

definition cash_flow :: "'d::linordered_idom order \<Rightarrow> 'd \<Rightarrow> 'd \<Rightarrow> 'd" where
  "cash_flow ord fillPrice commission =
     (if o_Side ord = OrderSideBuy then - (o_Quantity ord * fillPrice + commission)
      else o_Quantity ord * fillPrice - commission)"

lemma book_opened:
  "order_valid ord \<Longrightarrow> cash_flow ord f c + book (opened_position clock ord f c) = 0"
  by (auto simp: order_valid_def cash_flow_def book_def side_sign_def opened_position_def algebra_simps)

lemma book_stamp [simp]:
  "book (p\<lparr>p_CurrentPrice := a, p_UpdatedAtUTC := t\<rparr>) = book p"
  "book (p\<lparr>p_CurrentPrice := a, p_UnrealizedPnL := u, p_UpdatedAtUTC := t\<rparr>) = book p"
  by (simp_all add: book_def side_sign_def)

lemma book_added:
  assumes "order_valid ord" "position_valid p" "adds_to ord p" "changed_position D ord f c p = Some p'"
  shows "cash_flow ord f c + book p' - book p =
      side_sign p * (p_EntryPrice p' * p_Quantity p' - (p_Quantity p * p_EntryPrice p + o_Quantity ord * f))
    \<and> p_Quantity p' = p_Quantity p + o_Quantity ord
    \<and> dec_div D (p_Quantity p * p_EntryPrice p + o_Quantity ord * f) (p_Quantity p + o_Quantity ord) = Some (p_EntryPrice p')"
  using assms
  by (auto simp: changed_position_def adds_to_def Let_def cash_flow_def book_def side_sign_def algebra_simps)

lemma book_reduced:
  assumes "order_valid ord" "position_valid p" "\<not> adds_to ord p" "changed_position D ord f c p = Some p'"
  shows "cash_flow ord f c + book p' - book p =
      side_sign p * ((if o_Quantity ord \<le> p_Quantity p then 0 else o_Quantity ord - p_Quantity p) * p_EntryPrice p)"
  using assms
  by (auto simp: changed_position_def adds_to_def Let_def cash_flow_def book_def side_sign_def
      calculateRealizedPnL_def order_valid_def position_valid_def algebra_simps split: if_splits)

lemma changed_position_valid:
  "order_valid ord \<Longrightarrow> position_valid p \<Longrightarrow> changed_position D ord f c p = Some p' \<Longrightarrow> position_valid p'"
  by (auto simp: changed_position_def Let_def position_valid_def order_valid_def split: if_splits)

lemma position_valid_stamp [simp]:
  "position_valid (p\<lparr>p_CurrentPrice := a, p_UpdatedAtUTC := t\<rparr>) = position_valid p"
  "position_valid (p\<lparr>p_CurrentPrice := a, p_UnrealizedPnL := u, p_UpdatedAtUTC := t\<rparr>) = position_valid p"
  by (simp_all add: position_valid_def)

text \<open>The three outcomes of a fill step.\<close>

lemma simulateFill_cases:
  assumes "simulateFill D clock oid s = Some s'"
  obtains (ignored) "s' = s"
  | (rejected) ord where "sim_orders s oid = Some ord" "o_Status ord = OrderStatusSubmitted"
      "s' = s\<lparr>sim_orders := (sim_orders s)(oid \<mapsto> ord\<lparr>o_Status := OrderStatusRejected, o_UpdatedAtUTC := clock 0\<rparr>)\<rparr>"
  | (filled) ord fillPrice where "sim_orders s oid = Some ord" "o_Status ord = OrderStatusSubmitted"
      "applySlippage D s ord (case lastPrices s (o_Symbol ord) of None \<Rightarrow> o_Price ord | Some pr \<Rightarrow> pr) = Some fillPrice"
      "\<not> (o_Side ord = OrderSideBuy \<and>
          sim_balance s < o_Quantity ord * fillPrice + o_Quantity ord * fillPrice * commissionRate s)"
      "fill_order D clock oid ord fillPrice s = Some s'"
  using assms by (auto simp: simulateFill_def Let_def split: option.splits if_splits)

definition filled_by :: "'d::linordered_idom order \<Rightarrow> 'd \<Rightarrow> (nat \<Rightarrow> time) \<Rightarrow> 'd order" where
  "filled_by ord fillPrice clock =
     ord\<lparr>o_Status := OrderStatusFilled, o_FilledQty := o_Quantity ord, o_RemainingQty := 0,
         o_AvgFillPrice := fillPrice, o_FilledAtUTC := Some (clock 0), o_UpdatedAtUTC := clock 0\<rparr>"

lemma filled_by_simps [simp]:
  "order_valid (filled_by ord f clock) = order_valid ord"
  "adds_to (filled_by ord f clock) p = adds_to ord p"
  "cash_flow (filled_by ord f clock) a c = cash_flow ord a c"
  "o_Quantity (filled_by ord f clock) = o_Quantity ord" "o_Symbol (filled_by ord f clock) = o_Symbol ord"
  "o_Side (filled_by ord f clock) = o_Side ord" "o_Status (filled_by ord f clock) = OrderStatusFilled"
  by (simp_all add: filled_by_def order_valid_def adds_to_def cash_flow_def)

lemma fill_order_eq:
  "fill_order D clock oid ord f s =
     updatePosition D clock (filled_by ord f clock) f (o_Quantity ord * f * commissionRate s)
       (s\<lparr>sim_orders := (sim_orders s)(oid \<mapsto> filled_by ord f clock),
          sim_balance := sim_balance s + cash_flow ord f (o_Quantity ord * f * commissionRate s)\<rparr>)"
  by (auto simp: fill_order_def filled_by_def cash_flow_def Let_def algebra_simps)

lemma fill_order_new:
  assumes "fill_order D clock oid ord f s = Some s'" "sim_positions s (o_Symbol ord) = None"
  shows "s' = s\<lparr>sim_orders := (sim_orders s)(oid \<mapsto> filled_by ord f clock),
      sim_balance := sim_balance s + cash_flow ord f (o_Quantity ord * f * commissionRate s),
      sim_positions := (sim_positions s)(o_Symbol ord \<mapsto>
        opened_position clock (filled_by ord f clock) f (o_Quantity ord * f * commissionRate s))\<rparr>"
  using assms by (simp add: fill_order_eq updatePosition_def)

lemma fill_order_old:
  assumes "fill_order D clock oid ord f s = Some s'" "sim_positions s (o_Symbol ord) = Some p"
  obtains p' where
    "changed_position D (filled_by ord f clock) f (o_Quantity ord * f * commissionRate s) p = Some p'"
    "s' = s\<lparr>sim_orders := (sim_orders s)(oid \<mapsto> filled_by ord f clock),
       sim_balance := sim_balance s + cash_flow ord f (o_Quantity ord * f * commissionRate s),
       sim_positions := (sim_positions s)(o_Symbol ord \<mapsto>
         p'\<lparr>p_CurrentPrice := f, p_UpdatedAtUTC := clock 1\<rparr>)\<rparr>"
  using assms by (auto simp: fill_order_eq updatePosition_def)

lemma fill_order_balance:
  assumes "fill_order D clock oid ord f s = Some s'"
  shows "sim_balance s' = sim_balance s + cash_flow ord f (o_Quantity ord * f * commissionRate s)
    \<and> sim_orders s' = (sim_orders s)(oid \<mapsto> filled_by ord f clock)
    \<and> commissionRate s' = commissionRate s \<and> slippageBps s' = slippageBps s \<and> lastPrices s' = lastPrices s"
proof (cases "sim_positions s (o_Symbol ord)")
  case None
  then show ?thesis using fill_order_new [OF assms] by simp
next
  case (Some p)
  show ?thesis by (rule fill_order_old [OF assms Some]) simp
qed

text \<open>The equity over one fill.\<close>

lemma fill_equity_new:
  assumes "fill_order D clock oid ord f s = Some s'" "sim_positions s (o_Symbol ord) = None" "paper_inv s" "order_valid ord"
  shows "equity s' = equity s"
  using fill_order_new [OF assms(1,2)] assms(2-4) book_opened [of "filled_by ord f clock" f "o_Quantity ord * f * commissionRate s" clock]
  by (simp add: equity_def map_sum_of_new paper_inv_def algebra_simps)

lemma fill_equity_old:
  assumes "fill_order D clock oid ord f s = Some s'" "sim_positions s (o_Symbol ord) = Some p" "paper_inv s" "order_valid ord"
  shows "if adds_to ord p
    then \<exists>e. equity s' = equity s + side_sign p *
             (e * (p_Quantity p + o_Quantity ord) - (p_Quantity p * p_EntryPrice p + o_Quantity ord * f)) \<and>
             dec_div D (p_Quantity p * p_EntryPrice p + o_Quantity ord * f) (p_Quantity p + o_Quantity ord) = Some e
    else equity s' = equity s + side_sign p *
      ((if o_Quantity ord \<le> p_Quantity p then 0 else o_Quantity ord - p_Quantity p) * p_EntryPrice p)"
proof -
  let ?c = "o_Quantity ord * f * commissionRate s"
  from fill_order_old [OF assms(1,2)] obtain p' where
    p': "changed_position D (filled_by ord f clock) f ?c p = Some p'" and
    s': "s' = s\<lparr>sim_orders := (sim_orders s)(oid \<mapsto> filled_by ord f clock),
       sim_balance := sim_balance s + cash_flow ord f ?c,
       sim_positions := (sim_positions s)(o_Symbol ord \<mapsto> p'\<lparr>p_CurrentPrice := f, p_UpdatedAtUTC := clock 1\<rparr>)\<rparr>"
    by blast
  have v: "order_valid (filled_by ord f clock)" "position_valid p" using assms by (auto simp: paper_inv_def)
  have e: "equity s' = equity s + (cash_flow (filled_by ord f clock) f ?c + book p' - book p)"
    using s' assms(2,3) by (simp add: equity_def map_sum_of_old paper_inv_def algebra_simps)
  show ?thesis
  proof (cases "adds_to ord p")
    case True
    then have a: "adds_to (filled_by ord f clock) p" by simp
    from book_added [OF v a p'] e True show ?thesis by (auto simp: algebra_simps)
  next
    case False
    then have a: "\<not> adds_to (filled_by ord f clock) p" by simp
    from book_reduced [OF v a p'] e False show ?thesis by simp
  qed
qed

lemma UpdateMarketPrice_equity:
  assumes "paper_inv s"
  shows "equity (UpdateMarketPrice now smb price s) = equity s \<and> paper_inv (UpdateMarketPrice now smb price s)"
proof (cases "sim_positions s smb")
  case None
  then show ?thesis using assms by (simp add: UpdateMarketPrice_def Let_def equity_def paper_inv_def)
next
  case (Some p)
  then show ?thesis using assms
    by (auto simp: UpdateMarketPrice_def Let_def equity_def paper_inv_def map_sum_of_old)
qed

lemma paper_CancelOrder_equity:
  assumes "paper_inv s"
  shows "equity (fst (paper_CancelOrder now oid s)) = equity s \<and> paper_inv (fst (paper_CancelOrder now oid s))"
  using assms by (auto simp: paper_CancelOrder_def equity_def paper_inv_def order_valid_def split: option.splits)

lemma paper_SubmitOrder_equity:
  assumes "paper_inv s" "order_valid ord"
  shows "equity (fst (paper_SubmitOrder clock ord s)) = equity s \<and> paper_inv (fst (paper_SubmitOrder clock ord s))"
  using assms by (auto simp: paper_SubmitOrder_def Let_def equity_def paper_inv_def order_valid_def)

lemma fill_order_inv:
  assumes "fill_order D clock oid ord f s = Some s'" "paper_inv s" "order_valid ord"
  shows "paper_inv s'"
proof (cases "sim_positions s (o_Symbol ord)")
  case None
  have "position_valid (opened_position clock (filled_by ord f clock) f c)" for c
    using assms(3) by (auto simp: position_valid_def opened_position_def order_valid_def)
  then show ?thesis using fill_order_new [OF assms(1) None] assms(2,3) by (auto simp: paper_inv_def)
next
  case (Some p)
  from fill_order_old [OF assms(1) Some] obtain p' where
    p': "changed_position D (filled_by ord f clock) f (o_Quantity ord * f * commissionRate s) p = Some p'" and
    s': "s' = s\<lparr>sim_orders := (sim_orders s)(oid \<mapsto> filled_by ord f clock),
       sim_balance := sim_balance s + cash_flow ord f (o_Quantity ord * f * commissionRate s),
       sim_positions := (sim_positions s)(o_Symbol ord \<mapsto> p'\<lparr>p_CurrentPrice := f, p_UpdatedAtUTC := clock 1\<rparr>)\<rparr>"
    by blast
  have "position_valid p" using Some assms(2) by (auto simp: paper_inv_def)
  then have "position_valid p'" using changed_position_valid [OF _ _ p'] assms(3) by simp
  then show ?thesis using s' assms(2,3) by (auto simp: paper_inv_def)
qed

text \<open>A step that neither over-closes a position nor grows one beyond \<open>M\<close>.\<close>

fun steady_op :: "'d::linordered_idom \<Rightarrow> 'd paper_op \<Rightarrow> 'd simulator \<Rightarrow> bool" where
  "steady_op M (PaperSubmit clock ord) s = order_valid ord"
| "steady_op M (PaperFill clock oid) s =
     (case sim_orders s oid of
        None \<Rightarrow> True
      | Some ord \<Rightarrow>
          (case sim_positions s (o_Symbol ord) of
             None \<Rightarrow> True
           | Some p \<Rightarrow> if adds_to ord p then p_Quantity p + o_Quantity ord \<le> M
                       else o_Quantity ord \<le> p_Quantity p))"
| "steady_op M x s = True"

fun steady_run :: "'d::linordered_idom dec_lib \<Rightarrow> 'd \<Rightarrow> 'd paper_op list \<Rightarrow> 'd simulator \<Rightarrow> bool" where
  "steady_run D M [] s = True"
| "steady_run D M (x # xs) s =
     (steady_op M x s \<and> (case paper_step D x s of None \<Rightarrow> True | Some s' \<Rightarrow> steady_run D M xs s'))"

lemma simulateFill_steady:
  assumes near: "div_near D eps" and inv: "paper_inv s" and st: "steady_op M (PaperFill clock oid) s" and M: "0 \<le> M"
    and fill: "simulateFill D clock oid s = Some s'"
  shows "paper_inv s' \<and> \<bar>equity s' - equity s\<bar> \<le> eps * M"
proof -
  have pos: "0 \<le> eps * M" using near M by (simp add: div_near_def)
  show ?thesis
  proof (cases rule: simulateFill_cases [OF fill])
    case 1
    then show ?thesis using inv pos by simp
  next
    case (2 ord)
    then show ?thesis using inv pos by (auto simp: equity_def paper_inv_def order_valid_def)
  next
    case (3 ord f)
    have v: "order_valid ord" using inv 3(1) by (auto simp: paper_inv_def)
    have "\<bar>equity s' - equity s\<bar> \<le> eps * M"
    proof (cases "sim_positions s (o_Symbol ord)")
      case None
      then show ?thesis using fill_equity_new [OF 3(5) None inv v] pos by simp
    next
      case (Some p)
      have pv: "position_valid p" using inv Some by (auto simp: paper_inv_def)
      note eq = fill_equity_old [OF 3(5) Some inv v]
      show ?thesis
      proof (cases "adds_to ord p")
        case True
        let ?Q = "p_Quantity p + o_Quantity ord"
        let ?cost = "p_Quantity p * p_EntryPrice p + o_Quantity ord * f"
        obtain e where e: "equity s' = equity s + side_sign p * (e * ?Q - ?cost)" "dec_div D ?cost ?Q = Some e"
          using eq True by auto
        have "\<bar>e * ?Q - ?cost\<bar> \<le> eps * \<bar>?Q\<bar>" by (rule div_nearD [OF near e(2)])
        also have "\<dots> \<le> eps * M"
          using st 3(1) Some True pv v near
          by (auto simp: position_valid_def order_valid_def div_near_def intro!: mult_left_mono)
        finally show ?thesis using e(1) by (cases "p_Side p = PositionSideLong") (simp_all add: side_sign_def abs_minus_commute)
      next
        case False
        then show ?thesis using eq st 3(1) Some pos by simp
      qed
    qed
    then show ?thesis using fill_order_inv [OF 3(5) inv v] by simp
  qed
qed

lemma paper_step_steady:
  assumes "div_near D eps" "paper_inv s" "steady_op M x s" "0 \<le> M" "paper_step D x s = Some s'"
  shows "paper_inv s' \<and> \<bar>equity s' - equity s\<bar> \<le> eps * M"
proof -
  have pos: "0 \<le> eps * M" using assms(1,4) by (simp add: div_near_def)
  show ?thesis
  proof (cases x)
    case (PaperFill clock oid)
    then show ?thesis using simulateFill_steady [OF assms(1,2) _ assms(4)] assms(3,5) by simp
  next
    case (PaperSubmit clock ord)
    then show ?thesis using paper_SubmitOrder_equity [OF assms(2), of ord clock] assms(3,5) pos by auto
  next
    case (PaperCancel now oid)
    then show ?thesis using paper_CancelOrder_equity [OF assms(2), of now oid] assms(5) pos by auto
  next
    case (PaperPrice now smb price)
    then show ?thesis using UpdateMarketPrice_equity [OF assms(2), of now smb price] assms(5) pos by auto
  qed
qed

lemma paper_run_steady:
  assumes "div_near D eps" "0 \<le> M" "paper_inv s" "steady_run D M ops s" "paper_run D ops s = Some s'"
  shows "paper_inv s' \<and> \<bar>equity s' - equity s\<bar> \<le> of_nat (length ops) * (eps * M)"
  using assms(3-5)
proof (induction ops arbitrary: s)
  case Nil
  then show ?case by simp
next
  case (Cons x xs)
  obtain s1 where s1: "paper_step D x s = Some s1" using Cons.prems(3) by (auto split: option.splits)
  have a: "paper_inv s1" "\<bar>equity s1 - equity s\<bar> \<le> eps * M"
    using paper_step_steady [OF assms(1) Cons.prems(1) _ assms(2) s1] Cons.prems(2) by auto
  have b: "paper_inv s'" "\<bar>equity s' - equity s1\<bar> \<le> of_nat (length xs) * (eps * M)"
    using Cons.IH [OF a(1)] Cons.prems(2,3) s1 by auto
  have "\<bar>equity s' - equity s\<bar> \<le> \<bar>equity s' - equity s1\<bar> + \<bar>equity s1 - equity s\<bar>"
    by (rule order_trans [OF _ abs_triangle_ineq]) simp
  also have "\<dots> \<le> of_nat (length xs) * (eps * M) + eps * M" using a b by simp
  finally show ?case using b by (simp add: algebra_simps)
qed

subsection \<open>Solvency\<close>

definition nonneg_op :: "'d::linordered_idom paper_op \<Rightarrow> bool" where
  "nonneg_op x = (case x of PaperSubmit clock ord \<Rightarrow> 0 \<le> o_Quantity ord \<and> 0 \<le> o_Price ord
     | PaperPrice now smb price \<Rightarrow> 0 \<le> price | _ \<Rightarrow> True)"

definition solvent :: "'d::linordered_idom dec_lib \<Rightarrow> 'd simulator \<Rightarrow> bool" where
  "solvent D s \<longleftrightarrow> 0 \<le> sim_balance s \<and> 0 \<le> commissionRate s \<and> commissionRate s \<le> 1 \<and> slippageBps s = from_int 5 \<and>
     (\<forall>oid ord. sim_orders s oid = Some ord \<longrightarrow> 0 \<le> o_Quantity ord \<and> 0 \<le> o_Price ord) \<and>
     (\<forall>smb pr. lastPrices s smb = Some pr \<longrightarrow> 0 \<le> pr)"

lemma applySlippage_nonneg:
  assumes "div_sign D" "slippageBps s = from_int 5" "0 \<le> mp" "applySlippage D s ord mp = Some f"
  shows "0 \<le> f"
proof -
  obtain q where q: "dec_div D (from_int 5) (from_int 10000) = Some q"
      "f = (if o_Side ord = OrderSideBuy then mp * (from_int 1 + q) else mp * (from_int 1 - q))"
    using assms(2,4) by (auto simp: applySlippage_def)
  have "0 \<le> q" "q \<le> 1" using div_signD [OF assms(1) q(1)] by (auto simp: from_int_def)
  then show ?thesis using q(2) assms(3) by (simp add: from_int_def)
qed

lemma UpdateMarketPrice_frame:
  "sim_balance (UpdateMarketPrice now smb price s) = sim_balance s"
  "commissionRate (UpdateMarketPrice now smb price s) = commissionRate s"
  "slippageBps (UpdateMarketPrice now smb price s) = slippageBps s"
  "sim_orders (UpdateMarketPrice now smb price s) = sim_orders s"
  "lastPrices (UpdateMarketPrice now smb price s) = (lastPrices s)(smb \<mapsto> price)"
  by (simp_all add: UpdateMarketPrice_def Let_def split: option.splits)

lemma paper_step_solvent [step_invs]:
  assumes "div_sign D" "solvent D s" "nonneg_op x" "paper_step D x s = Some s'"
  shows "solvent D s'"
proof (cases x)
  case (PaperSubmit clock ord)
  have s': "s' = fst (paper_SubmitOrder clock ord s)" using assms(4) PaperSubmit by simp
  have "0 \<le> o_Quantity ord \<and> 0 \<le> o_Price ord" using assms(3) PaperSubmit by (simp add: nonneg_op_def)
  then show ?thesis using assms(2) unfolding s'
    by (simp add: solvent_def paper_SubmitOrder_def Let_def)
next
  case (PaperCancel now oid)
  have "solvent D (fst (paper_CancelOrder now oid s))"
    using assms(2) by (auto simp: solvent_def paper_CancelOrder_def split: option.splits if_splits)
  then show ?thesis using assms(4) PaperCancel by simp
next
  case (PaperPrice now smb price)
  then have "s' = UpdateMarketPrice now smb price s" "0 \<le> price" using assms(3,4) by (simp_all add: nonneg_op_def)
  then show ?thesis using assms(2) by (simp add: solvent_def UpdateMarketPrice_frame)
next
  case (PaperFill clock oid)
  then have fill: "simulateFill D clock oid s = Some s'" using assms(4) by simp
  show ?thesis
  proof (cases rule: simulateFill_cases [OF fill])
    case 1
    then show ?thesis using assms(2) by simp
  next
    case (2 ord)
    then show ?thesis using assms(2) by (auto simp: solvent_def)
  next
    case (3 ord f)
    have "0 \<le> (case lastPrices s (o_Symbol ord) of None \<Rightarrow> o_Price ord | Some pr \<Rightarrow> pr)"
      using assms(2) 3(1) by (auto simp: solvent_def split: option.splits)
    then have f: "0 \<le> f" using applySlippage_nonneg [OF assms(1) _ _ 3(3)] assms(2) by (simp add: solvent_def)
    have q: "0 \<le> o_Quantity ord" using assms(2) 3(1) by (auto simp: solvent_def)
    have n: "0 \<le> o_Quantity ord * f" using f q by simp
    have c: "o_Quantity ord * f * commissionRate s \<le> o_Quantity ord * f"
      using mult_left_mono [OF _ n, of "commissionRate s" 1] assms(2) by (simp add: solvent_def)
    have "0 \<le> sim_balance s + cash_flow ord f (o_Quantity ord * f * commissionRate s)"
      using 3(4) c assms(2) by (auto simp: cash_flow_def solvent_def)
    then show ?thesis using fill_order_balance [OF 3(5)] assms(2) 3(1)
      by (auto simp: solvent_def filled_by_def)
  qed
qed

subsection \<open>Properties\<close>

text \<open>C18: The simulator keeps its books. From a new simulator, along any history of submissions of
  buy and sell orders, cancellations, price updates and fills in which no fill over-closes a
  position and no position grows beyond \<open>M\<close>, the equity at cost (cash plus signed entry value of
  the positions minus realized profit) stays at the initial balance, up to \<open>eps * M\<close> per step
  for the rounding of the average entry price.\<close>

theorem paper_books_balance:
  assumes "div_near D eps" "0 \<le> M" "steady_run D M ops (NewSimulator D b0)"
    and "paper_run D ops (NewSimulator D b0) = Some s"
  shows "\<bar>equity s - b0\<bar> \<le> of_nat (length ops) * (eps * M)"
proof -
  have "paper_inv (NewSimulator D b0)" "equity (NewSimulator D b0) = b0"
    by (simp_all add: NewSimulator_def paper_inv_def equity_def)
  with paper_run_steady [OF assms(1,2) this(1) assms(3,4)] show ?thesis by simp
qed

text \<open>An over-close creates or destroys money. When the fill of an order closes a position that is
  smaller than the order, the code books the excess against the entry price but opens no opposite
  position: the equity jumps by the excess times the entry price (up for a long position, down
  for a short one).\<close>

theorem overclose_breaks_books:
  assumes "simulateFill D clock oid s = Some s'" "paper_inv s"
    and "sim_orders s oid = Some ord" "sim_orders s' oid = Some ord'" "o_Status ord = OrderStatusSubmitted"
      "o_Status ord' = OrderStatusFilled"
    and "sim_positions s (o_Symbol ord) = Some p" "\<not> adds_to ord p" "p_Quantity p < o_Quantity ord"
  shows "equity s' = equity s + (if p_Side p = PositionSideLong then 1 else - 1) *
           ((o_Quantity ord - p_Quantity p) * p_EntryPrice p)
    \<and> (\<exists>p'. sim_positions s' (o_Symbol ord) = Some p' \<and> p_Quantity p' = 0)"
proof (cases rule: simulateFill_cases [OF assms(1)])
  case 1
  then show ?thesis using assms by simp
next
  case (2 q)
  then have "o_Status ord' = OrderStatusRejected" using assms(4) by auto
  then show ?thesis using assms(6) by simp
next
  case (3 q f)
  then have q: "q = ord" using assms(3) by simp
  have v: "order_valid ord" using assms(2,3) by (auto simp: paper_inv_def)
  have "equity s' = equity s + side_sign p * ((o_Quantity ord - p_Quantity p) * p_EntryPrice p)"
    using fill_equity_old [OF 3(5) [unfolded q] assms(7,2) v] assms(8,9) by simp
  moreover have "\<exists>p'. sim_positions s' (o_Symbol ord) = Some p' \<and> p_Quantity p' = 0"
    by (rule fill_order_old [OF 3(5) [unfolded q] assms(7)])
      (use assms(8,9) in \<open>auto simp: changed_position_def Let_def\<close>)
  ultimately show ?thesis by (simp add: side_sign_def)
qed

text \<open>C19: The simulated account is never overdrawn. With non-negative prices and quantities, in any
  history from a non-negative initial balance (over-closes included), the cash balance never
  becomes negative: a buy is rejected when cash does not cover it with its commission, and a sale's
  commission never exceeds its proceeds.\<close>

theorem paper_never_overdrawn:
  assumes "div_sign D" "shift_exact D" "0 \<le> b0" "\<forall>x \<in> set ops. nonneg_op x"
    and "paper_run D ops (NewSimulator D b0) = Some s"
  shows "0 \<le> sim_balance s"
proof -
  have "dec_shift D 6 (- int 4) * 10 ^ 4 = 6" using assms(2) unfolding shift_exact_def by blast
  then have c: "dec_shift D 6 (- 4) * 10000 = 6" by simp
  have "0 \<le> dec_shift D 6 (- 4)"
  proof (rule ccontr)
    assume "\<not> 0 \<le> dec_shift D 6 (- 4)"
    then have "dec_shift D 6 (- 4) * 10000 < 0 * 10000" by (intro mult_strict_right_mono) simp_all
    then show False using c by simp
  qed
  moreover have "dec_shift D 6 (- 4) \<le> 1"
  proof (rule ccontr)
    assume "\<not> dec_shift D 6 (- 4) \<le> 1"
    then have "1 * 10000 < dec_shift D 6 (- 4) * 10000" by (intro mult_strict_right_mono) simp_all
    then show False using c by simp
  qed
  ultimately have start: "solvent D (NewSimulator D b0)"
    using assms(3) by (simp add: solvent_def NewSimulator_def from_int_def)
  have "solvent D s0 \<Longrightarrow> \<forall>x \<in> set xs. nonneg_op x \<Longrightarrow> paper_run D xs s0 = Some s \<Longrightarrow> solvent D s" for xs s0
    by (induction xs arbitrary: s0) (auto split: option.splits dest: paper_step_solvent [OF assms(1)])
  from this [OF start assms(4,5)] show ?thesis by (simp add: solvent_def)
qed

subsection \<open>A concrete session\<close>

definition paper_clock :: "nat \<Rightarrow> time" where
  "paper_clock n = 1"

definition session_order :: "order_side \<Rightarrow> int \<Rightarrow> int order" where
  "session_order side qty =
     \<lparr>o_ID = ''o'', o_ClientOrderID = ''c'', o_ExchangeOrderID = [], o_StrategyID = ''s'', o_Symbol = ''BTC'',
      o_Side = side, o_Type = OrderTypeLimit, o_Status = OrderStatusPending, o_TimeInForce = TimeInForceGTC,
      o_Quantity = qty, o_Price = 10, o_FilledQty = 0, o_RemainingQty = qty, o_AvgFillPrice = 0,
      o_CreatedAtUTC = 0, o_UpdatedAtUTC = 0, o_SubmittedAtUTC = None, o_FilledAtUTC = None\<rparr>"

text \<open>One-unit rational orders: the instance with exact division.\<close>

definition rat_order :: "order_side \<Rightarrow> rat order" where
  "rat_order side =
     \<lparr>o_ID = ''o'', o_ClientOrderID = ''c'', o_ExchangeOrderID = [], o_StrategyID = ''s'', o_Symbol = ''BTC'',
      o_Side = side, o_Type = OrderTypeLimit, o_Status = OrderStatusPending, o_TimeInForce = TimeInForceGTC,
      o_Quantity = 1, o_Price = 10, o_FilledQty = 0, o_RemainingQty = 1, o_AvgFillPrice = 0,
      o_CreatedAtUTC = 0, o_UpdatedAtUTC = 0, o_SubmittedAtUTC = None, o_FilledAtUTC = None\<rparr>"

definition paper_session :: "rat paper_op list" where
  "paper_session = [PaperSubmit paper_clock (rat_order OrderSideBuy), PaperFill paper_clock ''paper_1'']"

lemma one_text [simp]: "int_text 1 = ''1''"
proof -
  have "of_char CHR ''1'' = (49 :: nat)" by simp
  then have "char_of (49 :: nat) = CHR ''1''" by (metis char_of_char)
  then show ?thesis by (simp add: int_text_def nat_text.simps digit_char_def)
qed

lemma paper_session_run:
  "\<exists>s. paper_run rat_dec paper_session (NewSimulator rat_dec 100) = Some s"
  "steady_run rat_dec 5 paper_session (NewSimulator rat_dec 100)"
  by (simp_all add: paper_session_def paper_clock_def rat_order_def NewSimulator_def paper_SubmitOrder_def
      order_valid_def simulateFill_def applySlippage_def fill_order_def updatePosition_def rat_dec_def
      from_int_def Let_def)

theorem paper_books_balance_witness:
  "\<exists>s. paper_run rat_dec paper_session (NewSimulator rat_dec 100) = Some s \<and> equity s = 100"
proof -
  obtain s where s: "paper_run rat_dec paper_session (NewSimulator rat_dec 100) = Some s"
    using paper_session_run(1) by blast
  from paper_books_balance [OF rat_dec_near _ paper_session_run(2) s] s show ?thesis by auto
qed

theorem paper_never_overdrawn_witness:
  "\<exists>s. paper_run rat_dec paper_session (NewSimulator rat_dec 100) = Some s \<and> 0 \<le> sim_balance s"
proof -
  obtain s where s: "paper_run rat_dec paper_session (NewSimulator rat_dec 100) = Some s"
    using paper_session_run(1) by blast
  have "\<forall>x \<in> set paper_session. nonneg_op x"
    by (simp add: paper_session_def nonneg_op_def rat_order_def)
  from paper_never_overdrawn [OF rat_dec_sign rat_dec_shift _ this s] s show ?thesis by auto
qed

text \<open>A long position of one unit at 10, and a submitted sale of three units.\<close>

definition overclose_state :: "int simulator" where
  "overclose_state =
     \<lparr>sim_orders = [''x'' \<mapsto> (session_order OrderSideSell 3)\<lparr>o_Status := OrderStatusSubmitted\<rparr>],
      sim_positions = [''BTC'' \<mapsto> opened_position paper_clock (session_order OrderSideBuy 1) 10 0],
      sim_balance = 90, lastPrices = Map.empty, slippageBps = 0, commissionRate = 0\<rparr>"

lemma overclose_fill:
  "\<exists>s' ord'. simulateFill int_dec paper_clock ''x'' overclose_state = Some s' \<and>
     sim_orders s' ''x'' = Some ord' \<and> o_Status ord' = OrderStatusFilled"
  by (simp add: overclose_state_def session_order_def simulateFill_def applySlippage_def int_dec_def
      fill_order_def updatePosition_def opened_position_def changed_position_def adds_to_def
      calculateRealizedPnL_def from_int_def Let_def)

lemma overclose_inv: "paper_inv overclose_state"
  by (auto simp: paper_inv_def overclose_state_def session_order_def order_valid_def position_valid_def
      opened_position_def split: if_splits)

theorem overclose_breaks_books_witness:
  "\<exists>s'. simulateFill int_dec paper_clock ''x'' overclose_state = Some s' \<and> equity s' = equity overclose_state + 20"
proof -
  obtain s' ord' where f: "simulateFill int_dec paper_clock ''x'' overclose_state = Some s'"
      "sim_orders s' ''x'' = Some ord'" "o_Status ord' = OrderStatusFilled"
    using overclose_fill by blast
  have "equity s' = equity overclose_state + 20"
    using overclose_breaks_books [OF f(1) overclose_inv _ f(2) _ f(3),
        of "(session_order OrderSideSell 3)\<lparr>o_Status := OrderStatusSubmitted\<rparr>"
           "opened_position paper_clock (session_order OrderSideBuy 1) 10 0"]
    by (simp add: overclose_state_def session_order_def opened_position_def adds_to_def)
  with f show ?thesis by blast
qed

end
