(* ===== verification/Router.thy ===== *)
theory Router
  imports Trading_Gate "HOL-Library.Multiset"
begin

text \<open>
  The order router, \<open>internal/service/router/router.go\<close>. \<open>SubmitOrder\<close> takes the router's mutex
  twice: once to check the limit, detect duplicates and register the order (\<open>submit_register\<close>),
  and once after the destination answered (\<open>submit_settle\<close>); the call to the exchange or to the
  simulator runs between them without the lock, so other callers interleave there. \<open>SHA256\<close>
  with hex output is the parameter \<open>sha\<close>. Iteration over Go's map is in an arbitrary order: where
  it matters the order is an argument.
\<close>

record 'd in_flight =
  f_Order :: "'d order"
  f_SubmittedAt :: time

record 'd router =
  r_config :: router_config
  inFlight :: "string \<rightharpoonup> 'd in_flight"
  r_gate :: "policy option"
  r_publishes :: bool
  r_timeouts :: "(string \<times> string) list"

datatype router_error =
    RouterGate gate_error | MaxInFlightReached int | UnknownRoutingMode routing_mode
  | NotConfigured string | DestinationError string

definition NewOrderRouter :: "router_config option \<Rightarrow> bool \<Rightarrow> 'd router" where
  "NewOrderRouter config publishes =
     \<lparr>r_config = (case config of None \<Rightarrow> DefaultRouterConfig | Some c \<Rightarrow> c), inFlight = Map.empty,
      r_gate = None, r_publishes = publishes, r_timeouts = []\<rparr>"

fun order_side_text :: "order_side \<Rightarrow> string" where
  "order_side_text OrderSideBuy = ''buy''"
| "order_side_text OrderSideSell = ''sell''"
| "order_side_text (OrderSideOther s) = s"

text \<open>Seconds from the zero time to the Unix epoch.\<close>

definition unix_seconds :: "time \<Rightarrow> int" where
  "unix_seconds t = t div second - 62135596800"

definition router_generateClientOrderID :: "(string \<Rightarrow> string) \<Rightarrow> 'd order \<Rightarrow> string" where
  "router_generateClientOrderID sha ord =
     sha (o_StrategyID ord @ '':'' @ o_Symbol ord @ '':'' @ order_side_text (o_Side ord) @ '':'' @
          int_text (unix_seconds (o_CreatedAtUTC ord)) @ '':'' @ o_ID ord)"

definition router_checkNewEntry :: "(string + status) option \<Rightarrow> 'd router \<Rightarrow> router_error + unit" where
  "router_checkNewEntry rt r =
     (case r_gate r of
        None \<Rightarrow> Ok ()
      | Some pol \<Rightarrow> (case CheckNewEntry pol rt of Inl e \<Rightarrow> Err (RouterGate e) | Inr _ \<Rightarrow> Ok ()))"

text \<open>The first critical section. \<open>Duplicate\<close> carries the exchange id that is returned.\<close>

datatype 'd registration = Registered "'d order" | Duplicate string

definition in_flight_count :: "'d router \<Rightarrow> nat" where
  "in_flight_count r = card (dom (inFlight r))"

definition with_client_id :: "(string \<Rightarrow> string) \<Rightarrow> 'd order \<Rightarrow> 'd order" where
  "with_client_id sha ord =
     (if o_ClientOrderID ord = [] then ord\<lparr>o_ClientOrderID := router_generateClientOrderID sha ord\<rparr> else ord)"

definition submit_register ::
  "(string \<Rightarrow> string) \<Rightarrow> time \<Rightarrow> 'd order \<Rightarrow> 'd router \<Rightarrow> 'd router \<times> (router_error + 'd registration)" where
  "submit_register sha now ord r =
     (if int (in_flight_count r) \<ge> rc_MaxInFlightOrders (r_config r)
      then (r, Err (MaxInFlightReached (rc_MaxInFlightOrders (r_config r))))
      else
        let ord1 = with_client_id sha ord;
            register = r\<lparr>inFlight := (inFlight r)(o_ClientOrderID ord1 \<mapsto> \<lparr>f_Order = ord1, f_SubmittedAt = now\<rparr>)\<rparr>
        in if rc_EnableIdempotency (r_config r) then
             (case inFlight r (o_ClientOrderID ord1) of
                Some existing \<Rightarrow> (r, Ok (Duplicate (o_ExchangeOrderID (f_Order existing))))
              | None \<Rightarrow> (register, Ok (Registered ord1)))
           else (register, Ok (Registered ord1)))"

definition submitLive :: "('d order \<Rightarrow> string + string) option \<Rightarrow> 'd order \<Rightarrow> router_error + string" where
  "submitLive connector ord =
     (case connector of
        None \<Rightarrow> Err (NotConfigured ''live connector not configured'')
      | Some send \<Rightarrow> (case send ord of Inl e \<Rightarrow> Err (DestinationError e) | Inr eid \<Rightarrow> Ok eid))"

definition submitPaper :: "('d order \<Rightarrow> string + string) option \<Rightarrow> 'd order \<Rightarrow> router_error + string" where
  "submitPaper simulator ord =
     (case simulator of
        None \<Rightarrow> Err (NotConfigured ''paper simulator not configured'')
      | Some send \<Rightarrow> (case send ord of Inl e \<Rightarrow> Err (DestinationError e) | Inr eid \<Rightarrow> Ok eid))"

definition route ::
  "('d order \<Rightarrow> string + string) option \<Rightarrow> ('d order \<Rightarrow> string + string) option \<Rightarrow> routing_mode \<Rightarrow> 'd order \<Rightarrow> router_error + string" where
  "route connector simulator mode ord =
     (if mode = RoutingModeLive then submitLive connector ord
      else if mode = RoutingModePaper then submitPaper simulator ord
      else Err (UnknownRoutingMode mode))"

text \<open>The second critical section.\<close>

definition submit_settle :: "string \<Rightarrow> router_error + string \<Rightarrow> 'd router \<Rightarrow> 'd router" where
  "submit_settle cid answer r =
     (case answer of
        Inl _ \<Rightarrow> r\<lparr>inFlight := (inFlight r)(cid := None)\<rparr>
      | Inr eid \<Rightarrow>
          (case inFlight r cid of
             None \<Rightarrow> r
           | Some f \<Rightarrow> r\<lparr>inFlight := (inFlight r)(cid \<mapsto>
                        f\<lparr>f_Order := (f_Order f)\<lparr>o_ExchangeOrderID := eid\<rparr>\<rparr>)\<rparr>))"

definition router_SubmitOrder ::
  "(string \<Rightarrow> string) \<Rightarrow> ('d order \<Rightarrow> string + string) option \<Rightarrow> ('d order \<Rightarrow> string + string) option \<Rightarrow>
   (string + status) option \<Rightarrow> time \<Rightarrow> 'd order \<Rightarrow> 'd router \<Rightarrow> 'd router \<times> (router_error + string)" where
  "router_SubmitOrder sha connector simulator rt now ord r =
     (case router_checkNewEntry rt r of Inl e \<Rightarrow> (r, Err e) | Inr _ \<Rightarrow>
     (case submit_register sha now ord r of
        (r1, Inl e) \<Rightarrow> (r1, Err e)
      | (r1, Inr (Duplicate eid)) \<Rightarrow> (r1, Ok eid)
      | (r1, Inr (Registered ord1)) \<Rightarrow>
          (let answer = route connector simulator (rc_Mode (r_config r1)) ord1
           in (submit_settle (o_ClientOrderID ord1) answer r1, answer))))"

definition router_CancelOrder ::
  "(string \<Rightarrow> string option) \<Rightarrow> (string \<Rightarrow> string option) \<Rightarrow> string \<Rightarrow> 'd router \<Rightarrow> router_error + unit" where
  "router_CancelOrder connector simulator eid r =
     (let forward = (\<lambda>f. case f eid of Some e \<Rightarrow> Err (DestinationError e) | None \<Rightarrow> Ok ()) in
      if rc_Mode (r_config r) = RoutingModeLive then forward connector
      else if rc_Mode (r_config r) = RoutingModePaper then forward simulator
      else Err (UnknownRoutingMode (rc_Mode (r_config r))))"

text \<open>The cached order that a walk over the in-flight table in the order \<open>keys\<close> finds.\<close>

definition cached_order :: "string list \<Rightarrow> string \<Rightarrow> 'd router \<Rightarrow> 'd order option" where
  "cached_order keys eid r =
     (case find (\<lambda>k. case inFlight r k of None \<Rightarrow> False | Some f \<Rightarrow> o_ExchangeOrderID (f_Order f) = eid) keys of
        None \<Rightarrow> None | Some k \<Rightarrow> map_option f_Order (inFlight r k))"

definition QueryOrderStatus ::
  "(string \<Rightarrow> string + 'd order) \<Rightarrow> (string \<Rightarrow> string + 'd order) \<Rightarrow> string list \<Rightarrow> string \<Rightarrow> 'd router \<Rightarrow> router_error + 'd order" where
  "QueryOrderStatus connector simulator keys eid r =
     (let fallback = (\<lambda>res. case res of
            Inr x \<Rightarrow> Ok x
          | Inl e \<Rightarrow> if rc_EnableStatusFallback (r_config r)
                     then (case cached_order keys eid r of Some x \<Rightarrow> Ok x | None \<Rightarrow> Err (DestinationError e))
                     else Err (DestinationError e))
      in if rc_Mode (r_config r) = RoutingModeLive then fallback (connector eid)
         else if rc_Mode (r_config r) = RoutingModePaper then fallback (simulator eid)
         else Err (UnknownRoutingMode (rc_Mode (r_config r))))"

definition ConfirmOrder :: "string \<Rightarrow> 'd router \<Rightarrow> 'd router" where
  "ConfirmOrder cid r = r\<lparr>inFlight := (inFlight r)(cid := None)\<rparr>"

definition timed_out :: "time \<Rightarrow> 'd router \<Rightarrow> 'd in_flight \<Rightarrow> bool" where
  "timed_out now r f \<longleftrightarrow> now - f_SubmittedAt f > rc_TimeoutSeconds (r_config r) * second"

definition publishOrderTimeout :: "'d order \<Rightarrow> 'd router \<Rightarrow> 'd router" where
  "publishOrderTimeout ord r =
     (if r_publishes r then r\<lparr>r_timeouts := r_timeouts r @ [(o_ID ord, o_ClientOrderID ord)]\<rparr> else r)"

text \<open>The cleanup loop over the keys of the table; the loop deletes while it iterates.\<close>

fun cleanup_loop :: "time \<Rightarrow> string list \<Rightarrow> 'd router \<times> nat \<Rightarrow> 'd router \<times> nat" where
  "cleanup_loop now [] rn = rn"
| "cleanup_loop now (k # ks) (r, n) =
     (case inFlight r k of
        None \<Rightarrow> cleanup_loop now ks (r, n)
      | Some f \<Rightarrow>
          if timed_out now r f
          then cleanup_loop now ks
                 (publishOrderTimeout (f_Order f) (r\<lparr>inFlight := (inFlight r)(k := None)\<rparr>), n + 1)
          else cleanup_loop now ks (r, n))"

definition CleanupTimedOutOrders :: "time \<Rightarrow> string list \<Rightarrow> 'd router \<Rightarrow> 'd router \<times> nat" where
  "CleanupTimedOutOrders now keys r = cleanup_loop now keys (r, 0)"

definition SetMode :: "routing_mode \<Rightarrow> 'd router \<Rightarrow> 'd router" where
  "SetMode mode r = r\<lparr>r_config := (r_config r)\<lparr>rc_Mode := mode\<rparr>\<rparr>"

definition SetTradingGate :: "policy option \<Rightarrow> 'd router \<Rightarrow> 'd router" where
  "SetTradingGate g r = r\<lparr>r_gate := g\<rparr>"

subsection \<open>Callers interleaved\<close>

text \<open>
  The router and the client ids of the calls that were sent to the destination and not answered
  yet. \<open>forget\<close> is the removal of an entry by \<open>ConfirmOrder\<close> or by one round of the cleanup.
\<close>

type_synonym 'd router_sys = "'d router \<times> string multiset"

inductive router_step :: "(string \<Rightarrow> string) \<Rightarrow> 'd router_sys \<Rightarrow> 'd router_sys \<Rightarrow> bool" for sha where
  send: "submit_register sha now ord r = (r', Inr (Registered ord')) \<Longrightarrow>
     router_step sha (r, P) (r', add_mset (o_ClientOrderID ord') P)"
| refuse: "submit_register sha now ord r = (r', Inl e) \<Longrightarrow> router_step sha (r, P) (r', P)"
| duplicate: "submit_register sha now ord r = (r', Inr (Duplicate eid)) \<Longrightarrow> router_step sha (r, P) (r', P)"
| answer: "cid \<in># P \<Longrightarrow> router_step sha (r, P) (submit_settle cid res r, P - {#cid#})"
| forget: "router_step sha (r, P) (ConfirmOrder cid r, P)"
| set_mode: "router_step sha (r, P) (SetMode mode r, P)"

inductive_cases router_stepE: "router_step sha s t"

text \<open>The same steps, except that an id with an unanswered call is not forgotten.\<close>

definition patient_step :: "(string \<Rightarrow> string) \<Rightarrow> 'd router_sys \<Rightarrow> 'd router_sys \<Rightarrow> bool" where
  "patient_step sha s t \<longleftrightarrow> router_step sha s t \<and> (\<forall>cid. cid \<in># snd t \<longrightarrow> inFlight (fst t) cid \<noteq> None)"

definition within_limit :: "'d router \<Rightarrow> bool" where
  "within_limit r \<longleftrightarrow> finite (dom (inFlight r)) \<and> int (in_flight_count r) \<le> max 0 (rc_MaxInFlightOrders (r_config r))"

definition calls_unique :: "'d router_sys \<Rightarrow> bool" where
  "calls_unique s \<longleftrightarrow> rc_EnableIdempotency (r_config (fst s)) \<and>
     (\<forall>cid. count (snd s) cid \<le> 1) \<and> (\<forall>cid. cid \<in># snd s \<longrightarrow> inFlight (fst s) cid \<noteq> None)"

lemma submit_register_cases:
  assumes "submit_register sha now ord r = (r', res)"
  obtains (full) "r' = r" "int (in_flight_count r) \<ge> rc_MaxInFlightOrders (r_config r)"
      "res = Err (MaxInFlightReached (rc_MaxInFlightOrders (r_config r)))"
  | (dup) f where "r' = r" "rc_EnableIdempotency (r_config r)" "inFlight r (o_ClientOrderID (with_client_id sha ord)) = Some f"
      "res = Ok (Duplicate (o_ExchangeOrderID (f_Order f)))"
  | (new) "r' = r\<lparr>inFlight := (inFlight r)(o_ClientOrderID (with_client_id sha ord) \<mapsto>
                     \<lparr>f_Order = with_client_id sha ord, f_SubmittedAt = now\<rparr>)\<rparr>"
      "int (in_flight_count r) < rc_MaxInFlightOrders (r_config r)" "res = Ok (Registered (with_client_id sha ord))"
      "rc_EnableIdempotency (r_config r) \<Longrightarrow> inFlight r (o_ClientOrderID (with_client_id sha ord)) = None"
  using assms by (auto simp: submit_register_def Let_def split: if_splits option.splits)

lemma within_limit_register [step_invs]:
  assumes "within_limit r" "submit_register sha now ord r = (r', res)"
  shows "within_limit r'"
proof (cases rule: submit_register_cases [OF assms(2)])
  case 3
  let ?k = "o_ClientOrderID (with_client_id sha ord)"
  have "card (insert ?k (dom (inFlight r))) \<le> Suc (card (dom (inFlight r)))"
    using assms(1) by (simp add: within_limit_def card_insert_if)
  then show ?thesis using 3(1,2) assms(1) by (auto simp: within_limit_def in_flight_count_def)
qed (use assms in auto)

lemma within_limit_remove [step_invs]:
  assumes "within_limit r"
  shows "within_limit (r\<lparr>inFlight := (inFlight r)(k := None)\<rparr>)"
  using assms card_dom_del_le [of "inFlight r" k] finite_dom_del [of "inFlight r" k]
  by (auto simp: within_limit_def in_flight_count_def)

lemma within_limit_settle [step_invs]: "within_limit r \<Longrightarrow> within_limit (submit_settle cid res r)"
  using within_limit_remove [of r cid]
  by (auto simp: submit_settle_def within_limit_def in_flight_count_def insert_absorb domI split: sum.splits option.splits)

lemma router_step_limit [step_invs]:
  assumes "router_step sha s t" "within_limit (fst s)"
  shows "within_limit (fst t)"
  using assms
proof (cases rule: router_step.cases)
  case (set_mode r P mode)
  then show ?thesis using assms(2) by (simp add: within_limit_def in_flight_count_def SetMode_def)
qed (use within_limit_register within_limit_settle within_limit_remove in \<open>auto simp: ConfirmOrder_def\<close>)

lemma patient_step_unique [step_invs]:
  assumes st: "patient_step sha s t" and u: "calls_unique s"
  shows "calls_unique t"
proof -
  have step: "router_step sha s t" and pat: "\<forall>cid. cid \<in># snd t \<longrightarrow> inFlight (fst t) cid \<noteq> None"
    using st by (auto simp: patient_step_def)
  have le: "count (snd s) k \<le> 1" for k using u by (simp add: calls_unique_def)
  have idem: "rc_EnableIdempotency (r_config (fst s))" using u by (simp add: calls_unique_def)
  have "rc_EnableIdempotency (r_config (fst t)) \<and> (\<forall>k. count (snd t) k \<le> 1)"
    using step
  proof (cases rule: router_step.cases)
    case (send now ord r r' ord' P)
    show ?thesis
    proof (cases rule: submit_register_cases [OF send(3)])
      case 3
      have o: "ord' = with_client_id sha ord" using 3(3) by simp
      have "o_ClientOrderID ord' \<notin># P"
        using u 3(4) idem send(1) by (auto simp: calls_unique_def o)
      then have "count P (o_ClientOrderID ord') = 0" by (simp add: not_in_iff)
      then show ?thesis using le idem send 3(1) by auto
    qed (use send in auto)
  next
    case (refuse now ord r r' e P)
    show ?thesis
      by (cases rule: submit_register_cases [OF refuse(3)]) (use refuse idem le in auto)
  next
    case (duplicate now ord r r' eid P)
    show ?thesis
      by (cases rule: submit_register_cases [OF duplicate(3)]) (use duplicate idem le in auto)
  next
    case (answer cid P r res)
    have "count (snd t) k \<le> count (snd s) k" for k using answer by simp
    then have "count (snd t) k \<le> 1" for k using le [of k] le_trans by blast
    moreover have "r_config (submit_settle cid res r) = r_config r"
      by (simp add: submit_settle_def split: sum.splits option.splits)
    ultimately show ?thesis using idem answer by simp
  next
    case (forget r P cid)
    then show ?thesis using idem le by (simp add: ConfirmOrder_def)
  next
    case (set_mode r P mode)
    then show ?thesis using idem le by (simp add: SetMode_def)
  qed
  with pat show ?thesis by (simp add: calls_unique_def)
qed

lemma router_steps_limit: "(router_step sha)\<^sup>*\<^sup>* s t \<Longrightarrow> within_limit (fst s) \<Longrightarrow> within_limit (fst t)"
  by (induction rule: rtranclp_induct) (auto dest: router_step_limit)

lemma patient_steps_unique: "(patient_step sha)\<^sup>*\<^sup>* s t \<Longrightarrow> calls_unique s \<Longrightarrow> calls_unique t"
  by (induction rule: rtranclp_induct) (auto dest: patient_step_unique)

lemma router_step_max:
  assumes "router_step sha s t"
  shows "rc_MaxInFlightOrders (r_config (fst t)) = rc_MaxInFlightOrders (r_config (fst s))"
  using assms
proof (cases rule: router_step.cases)
  case (send now ord r r' ord' P)
  show ?thesis by (cases rule: submit_register_cases [OF send(3)]) (use send in auto)
next
  case (refuse now ord r r' e P)
  show ?thesis by (cases rule: submit_register_cases [OF refuse(3)]) (use refuse in auto)
next
  case (duplicate now ord r r' eid P)
  show ?thesis by (cases rule: submit_register_cases [OF duplicate(3)]) (use duplicate in auto)
qed (auto simp: submit_settle_def ConfirmOrder_def SetMode_def split: sum.splits option.splits)

lemma router_steps_max:
  "(router_step sha)\<^sup>*\<^sup>* s t \<Longrightarrow> rc_MaxInFlightOrders (r_config (fst t)) = rc_MaxInFlightOrders (r_config (fst s))"
  by (induction rule: rtranclp_induct) (auto dest: router_step_max)

text \<open>The cleanup as a filter of the table.\<close>

definition kept_at :: "time \<Rightarrow> 'd router \<Rightarrow> string \<rightharpoonup> 'd in_flight" where
  "kept_at now r k = (case inFlight r k of None \<Rightarrow> None | Some f \<Rightarrow> if timed_out now r f then None else Some f)"

lemma publishOrderTimeout_frame [simp]:
  "inFlight (publishOrderTimeout ord r) = inFlight r" "r_config (publishOrderTimeout ord r) = r_config r"
  by (simp_all add: publishOrderTimeout_def)

lemma cleanup_loop_spec:
  assumes "distinct keys" "cleanup_loop now keys (r, n) = (r', n')"
  shows "r_config r' = r_config r
    \<and> inFlight r' = (\<lambda>k. if k \<in> set keys then kept_at now r k else inFlight r k)
    \<and> n' = n + card {k \<in> set keys. \<exists>f. inFlight r k = Some f \<and> timed_out now r f}"
  using assms
proof (induction keys arbitrary: r n)
  case Nil
  then show ?case by (auto simp: kept_at_def)
next
  case (Cons k ks)
  let ?late = "\<lambda>r S. {j \<in> S. \<exists>f. inFlight r j = Some f \<and> timed_out now r f}"
  show ?case
  proof (cases "\<exists>f. inFlight r k = Some f \<and> timed_out now r f")
    case True
    then obtain f where f: "inFlight r k = Some f" "timed_out now r f" by blast
    let ?r = "publishOrderTimeout (f_Order f) (r\<lparr>inFlight := (inFlight r)(k := None)\<rparr>)"
    have t: "timed_out now ?r g = timed_out now r g" for g by (simp add: timed_out_def)
    have ih: "r_config r' = r_config ?r"
      "inFlight r' = (\<lambda>j. if j \<in> set ks then kept_at now ?r j else inFlight ?r j)"
      "n' = n + 1 + card (?late ?r (set ks))"
      using Cons.IH [of ?r "n + 1"] Cons.prems f by auto
    have same: "?late ?r (set ks) = ?late r (set ks)" using Cons.prems(1) by (auto simp: t)
    have "?late r (set (k # ks)) = insert k (?late r (set ks))" using f by auto
    moreover have "k \<notin> ?late r (set ks)" using Cons.prems(1) by simp
    ultimately have c: "card (?late r (set (k # ks))) = Suc (card (?late r (set ks)))" by simp
    have "inFlight r' = (\<lambda>j. if j \<in> set (k # ks) then kept_at now r j else inFlight r j)"
      using ih(2) f Cons.prems(1) by (auto simp: kept_at_def t fun_eq_iff split: option.splits)
    then show ?thesis using ih(1,3) c same by simp
  next
    case False
    then have step: "cleanup_loop now ks (r, n) = (r', n')" using Cons.prems by (auto split: option.splits)
    have ih: "r_config r' = r_config r"
      "inFlight r' = (\<lambda>j. if j \<in> set ks then kept_at now r j else inFlight r j)"
      "n' = n + card (?late r (set ks))"
      using Cons.IH [OF _ step] Cons.prems(1) by auto
    have "?late r (set (k # ks)) = ?late r (set ks)" using False by auto
    moreover have "kept_at now r k = inFlight r k" using False by (auto simp: kept_at_def split: option.splits)
    ultimately show ?thesis using ih by (auto simp: fun_eq_iff)
  qed
qed

subsection \<open>Properties\<close>

text \<open>C20: The in-flight limit. However submissions, answers, confirmations, cleanups and mode changes
  interleave, the table never holds more orders than the configured maximum (none, if that is
  negative).\<close>

theorem in_flight_within_limit:
  assumes "(router_step sha)\<^sup>*\<^sup>* (NewOrderRouter config publishes, {#}) (r, P)"
  shows "int (in_flight_count r) \<le>
    max 0 (rc_MaxInFlightOrders (case config of None \<Rightarrow> DefaultRouterConfig | Some c \<Rightarrow> c))"
proof -
  have "within_limit (NewOrderRouter config publishes)"
    by (simp add: within_limit_def in_flight_count_def NewOrderRouter_def)
  then have "within_limit r" using router_steps_limit [OF assms] by simp
  moreover have "rc_MaxInFlightOrders (r_config r) =
      rc_MaxInFlightOrders (case config of None \<Rightarrow> DefaultRouterConfig | Some c \<Rightarrow> c)"
    using router_steps_max [OF assms] by (simp add: NewOrderRouter_def)
  ultimately show ?thesis by (simp add: within_limit_def)
qed

text \<open>C21: At most one call per client order id. With idempotency on, however callers interleave, the
  destination never has two unanswered calls for the same client order id, as long as no order is
  confirmed or timed out while its call is unanswered.\<close>

theorem one_call_per_client_id:
  assumes "(patient_step sha)\<^sup>*\<^sup>* (NewOrderRouter config publishes, {#}) (r, P)"
    and "rc_EnableIdempotency (case config of None \<Rightarrow> DefaultRouterConfig | Some c \<Rightarrow> c)"
  shows "count P cid \<le> 1"
proof -
  have "calls_unique (NewOrderRouter config publishes, {#})"
    using assms(2) by (simp add: calls_unique_def NewOrderRouter_def)
  from patient_steps_unique [OF assms(1) this] show ?thesis by (simp add: calls_unique_def)
qed

text \<open>A duplicate of an unanswered order is reported as accepted with an empty exchange id. While
  the first caller's call is unanswered, a second submission with the same client order id returns
  no error and the empty id; if the first call then fails, its entry is removed, and the second
  caller has been told that an order exists which does not.\<close>

theorem duplicate_while_unanswered:
  assumes "submit_register sha now ord r = (r1, Ok (Registered ord1))" "o_ExchangeOrderID ord = []"
    and "rc_EnableIdempotency (r_config r)" "int (in_flight_count r1) < rc_MaxInFlightOrders (r_config r)"
    and "o_ClientOrderID ord2 = o_ClientOrderID ord1" "o_ClientOrderID ord2 \<noteq> []"
    and "router_checkNewEntry rt r1 = Ok ()"
  shows "router_SubmitOrder sha connector simulator rt now2 ord2 r1 = (r1, Ok [])
    \<and> inFlight (submit_settle (o_ClientOrderID ord1) (Err e) r1) (o_ClientOrderID ord1) = None"
proof (cases rule: submit_register_cases [OF assms(1)])
  case 3
  have o1: "ord1 = with_client_id sha ord" using 3(3) by simp
  have "o_ExchangeOrderID ord1 = []" using assms(2) by (simp add: o1 with_client_id_def)
  moreover have "with_client_id sha ord2 = ord2" using assms(6) by (simp add: with_client_id_def)
  moreover have "inFlight r1 (o_ClientOrderID ord1) = Some \<lparr>f_Order = ord1, f_SubmittedAt = now\<rparr>"
    "r_config r1 = r_config r" using 3(1) o1 by simp_all
  ultimately have "submit_register sha now2 ord2 r1 = (r1, Ok (Duplicate []))"
    using assms(3-5) by (simp add: submit_register_def)
  then show ?thesis using assms(7) by (simp add: router_SubmitOrder_def submit_settle_def)
qed (use assms in auto)

text \<open>The cleanup removes exactly the orders older than the timeout, whatever the order in which
  the table is walked, keeps the others untouched, and returns how many it removed.\<close>

theorem cleanup_removes_timed_out:
  assumes "distinct keys" "set keys = dom (inFlight r)"
  shows "inFlight (fst (CleanupTimedOutOrders now keys r)) k =
      (case inFlight r k of None \<Rightarrow> None | Some f \<Rightarrow> if timed_out now r f then None else Some f)
    \<and> snd (CleanupTimedOutOrders now keys r) =
      card {k. \<exists>f. inFlight r k = Some f \<and> timed_out now r f}"
proof -
  obtain r' n where res: "cleanup_loop now keys (r, 0) = (r', n)" by fastforce
  have "{k \<in> set keys. \<exists>f. inFlight r k = Some f \<and> timed_out now r f} =
      {k. \<exists>f. inFlight r k = Some f \<and> timed_out now r f}" using assms(2) by auto
  moreover have "k \<notin> dom (inFlight r) \<Longrightarrow> kept_at now r k = inFlight r k"
    by (auto simp: kept_at_def domIff)
  ultimately show ?thesis
    using cleanup_loop_spec [OF assms(1) res] assms(2) res
    by (cases "k \<in> dom (inFlight r)") (auto simp: CleanupTimedOutOrders_def kept_at_def)
qed

subsection \<open>A concrete router\<close>

definition routed_order :: "string \<Rightarrow> int order" where
  "routed_order cid =
     \<lparr>o_ID = ''o'', o_ClientOrderID = cid, o_ExchangeOrderID = [], o_StrategyID = ''s'', o_Symbol = ''BTC'',
      o_Side = OrderSideBuy, o_Type = OrderTypeLimit, o_Status = OrderStatusPending, o_TimeInForce = TimeInForceGTC,
      o_Quantity = 1, o_Price = 10, o_FilledQty = 0, o_RemainingQty = 1, o_AvgFillPrice = 0,
      o_CreatedAtUTC = 0, o_UpdatedAtUTC = 0, o_SubmittedAtUTC = None, o_FilledAtUTC = None\<rparr>"

definition router0 :: "int router" where
  "router0 = NewOrderRouter None True"

definition router1 :: "int router" where
  "router1 = router0\<lparr>inFlight := [''a'' \<mapsto> \<lparr>f_Order = routed_order ''a'', f_SubmittedAt = 1\<rparr>]\<rparr>"

lemma register_a: "submit_register id 1 (routed_order ''a'') router0 = (router1, Ok (Registered (routed_order ''a'')))"
  by (simp add: submit_register_def router1_def router0_def NewOrderRouter_def in_flight_count_def
      DefaultRouterConfig_def with_client_id_def routed_order_def Let_def)

lemma send_a: "router_step id (router0, {#}) (router1, {#''a''#})"
  using send [OF register_a, of "{#}"] by (simp add: routed_order_def)

theorem in_flight_within_limit_witness: "int (in_flight_count router1) \<le> 100"
proof -
  have "(router_step id)\<^sup>*\<^sup>* (NewOrderRouter None True, {#}) (router1, {#''a''#})"
    using send_a unfolding router0_def by (rule r_into_rtranclp)
  from in_flight_within_limit [OF this] show ?thesis by (simp add: DefaultRouterConfig_def)
qed

theorem one_call_per_client_id_witness: "count {#''a''#} ''a'' \<le> 1"
proof -
  have "patient_step id (router0, {#}) (router1, {#''a''#})"
    using send_a by (simp add: patient_step_def router1_def)
  then have "(patient_step id)\<^sup>*\<^sup>* (NewOrderRouter None True, {#}) (router1, {#''a''#})"
    unfolding router0_def by (rule r_into_rtranclp)
  from one_call_per_client_id [OF this, of "''a''"] show ?thesis by (simp add: DefaultRouterConfig_def)
qed

theorem duplicate_while_unanswered_witness:
  "router_SubmitOrder id None None None 2 (routed_order ''a'') router1 = (router1, Ok [])"
proof -
  have "router_checkNewEntry None router1 = Ok ()" "int (in_flight_count router1) < rc_MaxInFlightOrders (r_config router0)"
    by (simp_all add: router_checkNewEntry_def router1_def router0_def NewOrderRouter_def in_flight_count_def
        DefaultRouterConfig_def)
  then show ?thesis
    using duplicate_while_unanswered [OF register_a, of "routed_order ''a''" None None None 2]
    by (simp add: routed_order_def router0_def NewOrderRouter_def DefaultRouterConfig_def)
qed

theorem cleanup_removes_timed_out_witness:
  "inFlight (fst (CleanupTimedOutOrders (100 * second) [''a''] router1)) ''a'' = None"
proof -
  have "set [''a''] = dom (inFlight router1)" by (simp add: router1_def)
  from cleanup_removes_timed_out [OF _ this, of "100 * second" "''a''"] show ?thesis
    by (simp add: router1_def router0_def NewOrderRouter_def DefaultRouterConfig_def timed_out_def time_units)
qed

end
