(* ===== verification/Backtest.thy ===== *)
theory Backtest
  imports Entity "HOL-Library.Multiset"
begin

text \<open>
  The backtest engine, \<open>internal/service/backtest/engine.go\<close>. The strategy is an argument: a state
  and the answer it gives to a candle. Go walks its position map in an arbitrary order when it
  closes everything at the end; the order is the argument \<open>keys\<close>. Sums over the map do not
  depend on it, since decimal addition is exact. \<open>Panic\<close> is an index or division panic.
\<close>

record 'd candle =
  cn_Symbol :: string
  cn_Timestamp :: time
  cn_Open :: 'd
  cn_High :: 'd
  cn_Low :: 'd
  cn_Close :: 'd
  cn_Volume :: 'd

datatype signal_action = SignalActionBuy | SignalActionSell | SignalActionHold | SignalActionOther string

record 'd signal =
  sg_Action :: signal_action
  sg_Symbol :: string
  sg_Quantity :: 'd
  sg_Price :: 'd

record 'd bt_position =
  bp_Symbol :: string
  bp_Quantity :: 'd
  bp_EntryPrice :: 'd
  bp_EntryTime :: time

record 'd trade =
  t_Symbol :: string
  t_Side :: order_side
  t_Quantity :: 'd
  t_EntryPrice :: 'd
  t_ExitPrice :: 'd
  t_EntryTime :: time
  t_ExitTime :: time
  t_PnL :: 'd
  t_Commission :: 'd

record 'd bt_config =
  bc_InitialBalance :: 'd
  bc_CommissionRate :: 'd
  bc_SlippageBps :: 'd
  bc_Seed :: int

record 'd bt_engine =
  bt_currentTime :: time
  bt_initialBalance :: 'd
  bt_balance :: 'd
  bt_positions :: "string \<rightharpoonup> 'd bt_position"
  bt_trades :: "'d trade list"
  bt_equity :: "(time \<times> 'd) list"
  bt_commissionRate :: 'd
  bt_slippageBps :: 'd
  bt_seed :: int

record 'd bt_result =
  br_InitialBalance :: 'd
  br_FinalEquity :: 'd
  br_TotalReturn :: 'd
  br_TotalTrades :: nat
  br_WinningTrades :: nat
  br_LosingTrades :: nat
  br_WinRate :: 'd
  br_TotalProfit :: 'd
  br_TotalLoss :: 'd
  br_ProfitFactor :: 'd
  br_Equity :: "(time \<times> 'd) list"
  br_Trades :: "'d trade list"
  br_Seed :: int

datatype bt_error = PositionAlreadyOpen string | InsufficientBalance | NoPositionToClose string | BtCtxErr

definition bt_DefaultConfig :: "'d::linordered_idom dec_lib \<Rightarrow> time \<Rightarrow> 'd bt_config" where
  "bt_DefaultConfig D now =
     \<lparr>bc_InitialBalance = from_int 10000, bc_CommissionRate = dec_shift D (from_int 6) (- 4),
      bc_SlippageBps = from_int 5, bc_Seed = now\<rparr>"

definition NewEngine :: "'d::linordered_idom dec_lib \<Rightarrow> time \<Rightarrow> 'd bt_config option \<Rightarrow> 'd bt_engine" where
  "NewEngine D now config =
     (let c = (case config of None \<Rightarrow> bt_DefaultConfig D now | Some c \<Rightarrow> c) in
      \<lparr>bt_currentTime = 0, bt_initialBalance = bc_InitialBalance c, bt_balance = bc_InitialBalance c,
       bt_positions = Map.empty, bt_trades = [], bt_equity = [], bt_commissionRate = bc_CommissionRate c,
       bt_slippageBps = bc_SlippageBps c, bt_seed = bc_Seed c\<rparr>)"

definition bt_Reset :: "'d bt_engine \<Rightarrow> 'd bt_engine" where
  "bt_Reset e = e\<lparr>bt_balance := bt_initialBalance e, bt_positions := Map.empty, bt_trades := [],
     bt_equity := [], bt_currentTime := 0\<rparr>"

definition bt_applySlippage :: "'d::linordered_idom dec_lib \<Rightarrow> 'd bt_engine \<Rightarrow> 'd \<Rightarrow> bool \<Rightarrow> 'd option" where
  "bt_applySlippage D e price isBuy =
     map_option (\<lambda>m. if isBuy then price * (from_int 1 + m) else price * (from_int 1 - m))
       (dec_div D (bt_slippageBps e) (from_int 10000))"

definition openPosition ::
  "'d::linordered_idom dec_lib \<Rightarrow> string \<Rightarrow> 'd \<Rightarrow> 'd \<Rightarrow> 'd bt_engine \<Rightarrow> (bt_error, 'd bt_engine) outcome" where
  "openPosition D smb qty price e =
     (case bt_positions e smb of
        Some _ \<Rightarrow> Fail (PositionAlreadyOpen smb)
      | None \<Rightarrow>
          or_panic (bt_applySlippage D e price True) (\<lambda>fillPrice.
            let notional = qty * fillPrice;
                totalCost = notional + notional * bt_commissionRate e
            in if bt_balance e < totalCost then Fail InsufficientBalance
               else Return (e\<lparr>bt_balance := bt_balance e - totalCost,
                              bt_positions := (bt_positions e)(smb \<mapsto>
                                \<lparr>bp_Symbol = smb, bp_Quantity = qty, bp_EntryPrice = fillPrice,
                                 bp_EntryTime = bt_currentTime e\<rparr>)\<rparr>)))"

definition closePosition ::
  "'d::linordered_idom dec_lib \<Rightarrow> string \<Rightarrow> 'd \<Rightarrow> 'd bt_engine \<Rightarrow> (bt_error, 'd bt_engine) outcome" where
  "closePosition D smb price e =
     (case bt_positions e smb of
        None \<Rightarrow> Fail (NoPositionToClose smb)
      | Some p \<Rightarrow>
          or_panic (bt_applySlippage D e price False) (\<lambda>fillPrice.
            let notional = bp_Quantity p * fillPrice;
                commission = notional * bt_commissionRate e;
                pnl = (fillPrice - bp_EntryPrice p) * bp_Quantity p - commission;
                tr = \<lparr>t_Symbol = smb, t_Side = OrderSideBuy, t_Quantity = bp_Quantity p,
                      t_EntryPrice = bp_EntryPrice p, t_ExitPrice = fillPrice, t_EntryTime = bp_EntryTime p,
                      t_ExitTime = bt_currentTime e, t_PnL = pnl, t_Commission = commission\<rparr>
            in Return (e\<lparr>bt_balance := bt_balance e + (notional - commission),
                         bt_trades := bt_trades e @ [tr],
                         bt_positions := (bt_positions e)(smb := None)\<rparr>)))"

definition executeSignal ::
  "'d::linordered_idom dec_lib \<Rightarrow> 'd signal \<Rightarrow> 'd \<Rightarrow> 'd bt_engine \<Rightarrow> (bt_error, 'd bt_engine) outcome" where
  "executeSignal D sg currentPrice e =
     (case sg_Action sg of
        SignalActionBuy \<Rightarrow> openPosition D (sg_Symbol sg) (sg_Quantity sg) currentPrice e
      | SignalActionSell \<Rightarrow> closePosition D (sg_Symbol sg) currentPrice e
      | _ \<Rightarrow> Return e)"

text \<open>The loop of \<open>closeAllPositions\<close>; an error is logged and the loop goes on.\<close>

fun closeAllPositions ::
  "'d::linordered_idom dec_lib \<Rightarrow> 'd \<Rightarrow> string list \<Rightarrow> 'd bt_engine \<Rightarrow> 'd bt_engine option" where
  "closeAllPositions D price [] e = Some e"
| "closeAllPositions D price (k # ks) e =
     (case closePosition D k price e of
        Return e' \<Rightarrow> closeAllPositions D price ks e'
      | Fail _ \<Rightarrow> closeAllPositions D price ks e
      | Panic \<Rightarrow> None)"

definition position_value :: "'d::linordered_idom bt_position \<Rightarrow> 'd" where
  "position_value p = bp_Quantity p * bp_EntryPrice p"

definition recordEquity :: "'d::linordered_idom bt_engine \<Rightarrow> 'd bt_engine" where
  "recordEquity e = e\<lparr>bt_equity := bt_equity e @
     [(bt_currentTime e, bt_balance e + map_sum_of position_value (bt_positions e))]\<rparr>"

text \<open>The counting loop of \<open>calculateResult\<close>: winning and losing trades, profit and loss.\<close>

fun count_trades :: "'d::linordered_idom trade list \<Rightarrow> nat \<times> nat \<times> 'd \<times> 'd \<Rightarrow> nat \<times> nat \<times> 'd \<times> 'd" where
  "count_trades [] acc = acc"
| "count_trades (t # ts) (w, l, profit, loss) =
     (if t_PnL t > 0 then count_trades ts (w + 1, l, profit + t_PnL t, loss)
      else count_trades ts (w, l + 1, profit, loss + \<bar>t_PnL t\<bar>))"

definition calculateResult :: "'d::linordered_idom dec_lib \<Rightarrow> 'd bt_engine \<Rightarrow> 'd bt_result option" where
  "calculateResult D e =
     (let finalEquity = bt_balance e + map_sum_of position_value (bt_positions e);
          n = length (bt_trades e)
      in case dec_div D (finalEquity - bt_initialBalance e) (bt_initialBalance e) of
           None \<Rightarrow> None
         | Some ret \<Rightarrow>
             (case count_trades (bt_trades e) (0, 0, 0, 0) of (w, l, profit, loss) \<Rightarrow>
              (case (if n > 0 then map_option (\<lambda>q. q * from_int 100) (dec_div D (from_int (int w)) (from_int (int n)))
                     else Some 0) of
                 None \<Rightarrow> None
               | Some winRate \<Rightarrow>
                   (case (if loss \<noteq> 0 then dec_div D profit loss else Some 0) of
                      None \<Rightarrow> None
                    | Some factor \<Rightarrow>
                        Some \<lparr>br_InitialBalance = bt_initialBalance e, br_FinalEquity = finalEquity,
                              br_TotalReturn = ret * from_int 100, br_TotalTrades = n, br_WinningTrades = w,
                              br_LosingTrades = l, br_WinRate = winRate, br_TotalProfit = profit,
                              br_TotalLoss = loss, br_ProfitFactor = factor, br_Equity = bt_equity e,
                              br_Trades = bt_trades e, br_Seed = bt_seed e\<rparr>))))"

text \<open>
  One round of the loop over the candles: \<open>None\<close> for the panic. An error of the strategy or of
  the execution, no signal and a hold end the round early.
\<close>

definition bt_round ::
  "'d::linordered_idom dec_lib \<Rightarrow> nat \<Rightarrow> 'd candle \<Rightarrow> string + 'd signal option \<Rightarrow> 'd bt_engine \<Rightarrow> 'd bt_engine option" where
  "bt_round D i cn answer e =
     (let e1 = e\<lparr>bt_currentTime := cn_Timestamp cn\<rparr> in
      case answer of
        Inl _ \<Rightarrow> Some e1
      | Inr None \<Rightarrow> Some e1
      | Inr (Some sg) \<Rightarrow>
          if sg_Action sg = SignalActionHold then Some e1
          else (case executeSignal D sg (cn_Close cn) e1 of
                  Fail _ \<Rightarrow> Some e1
                | Panic \<Rightarrow> None
                | Return e2 \<Rightarrow> Some (if i mod 100 = 0 then recordEquity e2 else e2)))"

fun bt_loop ::
  "'d::linordered_idom dec_lib \<Rightarrow> (nat \<Rightarrow> bool) \<Rightarrow> ('s \<Rightarrow> 'd candle \<Rightarrow> 's \<times> (string + 'd signal option)) \<Rightarrow>
   nat \<Rightarrow> 'd candle list \<Rightarrow> 's \<Rightarrow> 'd bt_engine \<Rightarrow> (bt_error, 'd bt_engine) outcome" where
  "bt_loop D canceled strat i [] s e = Return e"
| "bt_loop D canceled strat i (cn # cs) s e =
     (if canceled i then Fail BtCtxErr
      else case strat s cn of (s', answer) \<Rightarrow>
        or_panic (bt_round D i cn answer e) (bt_loop D canceled strat (i + 1) cs s'))"

text \<open>\<open>candles[len(candles)-1]\<close> panics on an empty slice.\<close>

definition bt_Run ::
  "'d::linordered_idom dec_lib \<Rightarrow> (nat \<Rightarrow> bool) \<Rightarrow> ('s \<Rightarrow> 'd candle \<Rightarrow> 's \<times> (string + 'd signal option)) \<Rightarrow>
   'd candle list \<Rightarrow> string list \<Rightarrow> 's \<Rightarrow> 'd bt_engine \<Rightarrow> (bt_error, 'd bt_engine \<times> 'd bt_result) outcome" where
  "bt_Run D canceled strat candles keys s e =
     bind_outcome (bt_loop D canceled strat 0 candles s e) (\<lambda>e1.
       if candles = [] then Panic
       else or_panic (closeAllPositions D (cn_Close (last candles)) keys e1) (\<lambda>e2.
            let e3 = recordEquity e2
            in or_panic (calculateResult D e3) (\<lambda>res. Return (e3, res))))"

subsection \<open>The books\<close>

text \<open>The commission paid on entry, which no trade reports.\<close>

definition entry_commission :: "'d::linordered_idom bt_engine \<Rightarrow> 'd trade \<Rightarrow> 'd" where
  "entry_commission e t = t_Quantity t * t_EntryPrice t * bt_commissionRate e"

definition trades_total :: "'d::linordered_idom bt_engine \<Rightarrow> 'd" where
  "trades_total e = (\<Sum>t\<leftarrow>bt_trades e. t_PnL t - entry_commission e t)"

definition bt_books :: "'d::linordered_idom \<Rightarrow> 'd bt_engine \<Rightarrow> bool" where
  "bt_books b0 e \<longleftrightarrow> finite (dom (bt_positions e)) \<and>
     bt_balance e + map_sum_of (\<lambda>p. position_value p * (1 + bt_commissionRate e)) (bt_positions e)
       = b0 + trades_total e"

lemma map_sum_of_del:
  fixes f :: "'v \<Rightarrow> 'a::ab_group_add"
  assumes "finite (dom m)" "m k = Some w"
  shows "map_sum_of f (m(k := None)) = map_sum_of f m - f w"
proof -
  have k: "k \<in> dom m" using assms(2) by auto
  have "(\<Sum>j\<in>dom m - {k}. f (the ((m(k := None)) j))) = (\<Sum>j\<in>dom m - {k}. f (the (m j)))"
    by (intro sum.cong) auto
  then show ?thesis
    using k assms by (simp add: map_sum_of_def dom_restrict_insert sum.remove [OF assms(1) k])
qed

lemma openPosition_cases:
  assumes "openPosition D smb qty price e = Return e'"
  obtains f where "bt_positions e smb = None" "bt_applySlippage D e price True = Some f"
    "qty * f + qty * f * bt_commissionRate e \<le> bt_balance e"
    "e' = e\<lparr>bt_balance := bt_balance e - (qty * f + qty * f * bt_commissionRate e),
       bt_positions := (bt_positions e)(smb \<mapsto> \<lparr>bp_Symbol = smb, bp_Quantity = qty, bp_EntryPrice = f,
          bp_EntryTime = bt_currentTime e\<rparr>)\<rparr>"
  using assms by (auto simp: openPosition_def Let_def split: option.splits if_splits)

lemma closePosition_cases:
  assumes "closePosition D smb price e = Return e'"
  obtains p f where "bt_positions e smb = Some p" "bt_applySlippage D e price False = Some f"
    "e' = e\<lparr>bt_balance := bt_balance e + (bp_Quantity p * f - bp_Quantity p * f * bt_commissionRate e),
       bt_trades := bt_trades e @ [\<lparr>t_Symbol = smb, t_Side = OrderSideBuy, t_Quantity = bp_Quantity p,
          t_EntryPrice = bp_EntryPrice p, t_ExitPrice = f, t_EntryTime = bp_EntryTime p,
          t_ExitTime = bt_currentTime e,
          t_PnL = (f - bp_EntryPrice p) * bp_Quantity p - bp_Quantity p * f * bt_commissionRate e,
          t_Commission = bp_Quantity p * f * bt_commissionRate e\<rparr>],
       bt_positions := (bt_positions e)(smb := None)\<rparr>"
  using assms by (auto simp: closePosition_def Let_def split: option.splits)

lemma openPosition_books:
  assumes "openPosition D smb qty price e = Return e'" "bt_books b0 e"
  shows "bt_books b0 e'"
  by (rule openPosition_cases [OF assms(1)])
    (use assms(2) in \<open>simp add: bt_books_def trades_total_def entry_commission_def map_sum_of_new
       position_value_def algebra_simps\<close>)

lemma closePosition_books:
  assumes "closePosition D smb price e = Return e'" "bt_books b0 e"
  shows "bt_books b0 e'"
  by (rule closePosition_cases [OF assms(1)])
    (use assms(2) in \<open>simp add: bt_books_def trades_total_def entry_commission_def map_sum_of_del
       position_value_def finite_dom_del algebra_simps del: fun_upd_apply\<close>)

lemma executeSignal_books:
  "executeSignal D sg price e = Return e' \<Longrightarrow> bt_books b0 e \<Longrightarrow> bt_books b0 e'"
  by (auto simp: executeSignal_def split: signal_action.splits intro: openPosition_books closePosition_books)

lemma books_frame [simp]:
  "bt_books b0 (recordEquity e) = bt_books b0 e" "bt_books b0 (e\<lparr>bt_currentTime := t\<rparr>) = bt_books b0 e"
  by (simp_all add: bt_books_def recordEquity_def trades_total_def entry_commission_def)

lemma bt_round_books: "bt_round D i cn answer e = Some e' \<Longrightarrow> bt_books b0 e \<Longrightarrow> bt_books b0 e'"
  by (auto simp: bt_round_def Let_def split: sum.splits option.splits if_splits outcome.splits
      dest: executeSignal_books)

lemma bt_loop_books: "bt_loop D canceled strat i cs s e = Return e' \<Longrightarrow> bt_books b0 e \<Longrightarrow> bt_books b0 e'"
proof (induction cs arbitrary: i s e)
  case (Cons cn cs)
  then show ?case by (auto split: if_splits prod.splits dest: bt_round_books)
qed simp

lemma closeAll_books:
  "closeAllPositions D price keys e = Some e' \<Longrightarrow> bt_books b0 e \<Longrightarrow> bt_books b0 e'"
proof (induction keys arbitrary: e)
  case (Cons k ks)
  then show ?case by (auto split: outcome.splits dest: closePosition_books)
qed simp

lemma closeAll_dom:
  "closeAllPositions D price keys e = Some e' \<Longrightarrow> dom (bt_positions e') = dom (bt_positions e) - set keys"
proof (induction keys arbitrary: e)
  case (Cons k ks)
  show ?case
  proof (cases "closePosition D k price e")
    case (Return e1)
    have "dom (bt_positions e1) = dom (bt_positions e) - {k}"
      by (rule closePosition_cases [OF Return]) auto
    then show ?thesis using Cons Return by auto
  next
    case (Fail err)
    then have "k \<notin> dom (bt_positions e)"
      by (auto simp: closePosition_def Let_def split: option.splits)
    then show ?thesis using Cons Fail by auto
  qed (use Cons in simp)
qed simp

lemma count_trades_spec:
  "count_trades ts (w, l, p, q) = (w', l', p', q') \<Longrightarrow>
     w' + l' = w + l + length ts \<and> p' - q' = p - q + (\<Sum>t\<leftarrow>ts. t_PnL t) \<and> p \<le> p' \<and> q \<le> q'"
proof (induction ts arbitrary: w l p q)
  case (Cons t ts)
  show ?case
  proof (cases "t_PnL t > 0")
    case True
    then show ?thesis using Cons.IH [of "w + 1" l "p + t_PnL t" q] Cons.prems by (auto simp: algebra_simps)
  next
    case False
    then show ?thesis using Cons.IH [of w "l + 1" p "q + \<bar>t_PnL t\<bar>"] Cons.prems by (auto simp: algebra_simps)
  qed
qed simp

subsection \<open>What a run keeps\<close>

text \<open>The four configured values never change; \<open>same_config\<close> says that two engines agree on them.\<close>

definition same_config :: "'d bt_engine \<Rightarrow> 'd bt_engine \<Rightarrow> bool" where
  "same_config e e' \<longleftrightarrow> bt_initialBalance e' = bt_initialBalance e \<and> bt_commissionRate e' = bt_commissionRate e \<and>
     bt_slippageBps e' = bt_slippageBps e \<and> bt_seed e' = bt_seed e"

lemma same_config_trans: "same_config e e' \<Longrightarrow> same_config e' e'' \<Longrightarrow> same_config e e''"
  by (simp add: same_config_def)

lemma same_config_frame [simp]:
  "same_config e e" "same_config e (recordEquity e)" "same_config e (e\<lparr>bt_currentTime := t\<rparr>)"
  "same_config e (bt_Reset e)"
  by (simp_all add: same_config_def recordEquity_def bt_Reset_def)

lemma closePosition_config: "closePosition D smb price e = Return e' \<Longrightarrow> same_config e e'"
  by (erule closePosition_cases) (simp add: same_config_def)

lemma executeSignal_config: "executeSignal D sg price e = Return e' \<Longrightarrow> same_config e e'"
  by (auto simp: executeSignal_def closePosition_config split: signal_action.splits
      elim!: openPosition_cases) (simp_all add: same_config_def)

lemma bt_round_config:
  assumes "bt_round D i cn answer e = Some e'"
  shows "same_config e e'"
proof -
  let ?e1 = "e\<lparr>bt_currentTime := cn_Timestamp cn\<rparr>"
  consider "e' = ?e1" | sg e2 where "executeSignal D sg (cn_Close cn) ?e1 = Return e2" "e' = e2 \<or> e' = recordEquity e2"
    using assms by (auto simp: bt_round_def Let_def split: sum.splits option.splits if_splits outcome.splits)
  then show ?thesis
  proof cases
    case 2
    from executeSignal_config [OF 2(1)] have "same_config e e2" by (simp add: same_config_def)
    with 2(2) show ?thesis by (auto intro: same_config_trans)
  qed simp
qed

lemma bt_loop_config: "bt_loop D canceled strat i cs s e = Return e' \<Longrightarrow> same_config e e'"
proof (induction cs arbitrary: i s e)
  case (Cons cn cs)
  then show ?case by (auto split: if_splits prod.splits dest!: bt_round_config intro: same_config_trans)
qed simp

lemma closeAll_config: "closeAllPositions D price keys e = Some e' \<Longrightarrow> same_config e e'"
proof (induction keys arbitrary: e)
  case (Cons k ks)
  then show ?case by (auto split: outcome.splits dest!: closePosition_config intro: same_config_trans)
qed simp

lemma bt_Run_cases:
  assumes "bt_Run D canceled strat candles keys s e = Return (e3, res)"
  obtains e1 e2 where "bt_loop D canceled strat 0 candles s e = Return e1" "candles \<noteq> []"
    "closeAllPositions D (cn_Close (last candles)) keys e1 = Some e2" "e3 = recordEquity e2"
    "calculateResult D e3 = Some res"
  using assms by (auto simp: bt_Run_def Let_def split: if_splits)

lemma bt_Run_config:
  assumes "bt_Run D canceled strat candles keys s e = Return (e', res)"
  shows "same_config e e'"
  by (rule bt_Run_cases [OF assms])
    (metis bt_loop_config closeAll_config same_config_frame(2) same_config_trans)

lemma calculateResult_cases:
  assumes "calculateResult D e = Some res"
  obtains w l p q where "count_trades (bt_trades e) (0, 0, 0, 0) = (w, l, p, q)"
    "br_WinningTrades res = w" "br_LosingTrades res = l" "br_TotalProfit res = p" "br_TotalLoss res = q"
    "br_TotalTrades res = length (bt_trades e)" "br_Trades res = bt_trades e" "br_Equity res = bt_equity e"
    "br_FinalEquity res = bt_balance e + map_sum_of position_value (bt_positions e)"
  using assms by (auto simp: calculateResult_def Let_def split: option.splits prod.splits)

subsection \<open>Solvency\<close>

definition bt_solvent :: "'d::linordered_idom bt_engine \<Rightarrow> bool" where
  "bt_solvent e \<longleftrightarrow> 0 \<le> bt_balance e \<and> 0 \<le> bt_commissionRate e \<and> bt_commissionRate e \<le> 1 \<and>
     0 \<le> bt_slippageBps e \<and> bt_slippageBps e \<le> 10000 \<and> finite (dom (bt_positions e)) \<and>
     (\<forall>p \<in> ran (bt_positions e). 0 \<le> bp_Quantity p \<and> 0 \<le> bp_EntryPrice p) \<and>
     (\<forall>pt \<in> set (bt_equity e). 0 \<le> snd pt)"

lemma bt_applySlippage_nonneg:
  assumes "div_sign D" "bt_solvent e" "0 \<le> price" "bt_applySlippage D e price b = Some f"
  shows "0 \<le> f"
proof -
  obtain m where m: "dec_div D (bt_slippageBps e) (from_int 10000) = Some m"
      "f = (if b then price * (1 + m) else price * (1 - m))"
    using assms(4) by (auto simp: bt_applySlippage_def from_int_def)
  have pos: "0 < (from_int 10000 :: 'a)" "bt_slippageBps e \<le> from_int 10000" "0 \<le> bt_slippageBps e"
    using assms(2) by (simp_all add: from_int_def bt_solvent_def)
  have "0 \<le> m" "m \<le> 1"
    using div_signD(1) [OF assms(1) m(1) pos(3,1)] div_signD(2) [OF assms(1) m(1) pos(3,2,1)] by auto
  then show ?thesis using m(2) assms(3) by simp
qed

lemma openPosition_solvent:
  assumes "div_sign D" "bt_solvent e" "0 \<le> price" "0 \<le> qty" "openPosition D smb qty price e = Return e'"
  shows "bt_solvent e'"
proof (rule openPosition_cases [OF assms(5)])
  fix f
  assume f: "bt_applySlippage D e price True = Some f"
    and le: "qty * f + qty * f * bt_commissionRate e \<le> bt_balance e"
    and e': "e' = e\<lparr>bt_balance := bt_balance e - (qty * f + qty * f * bt_commissionRate e),
       bt_positions := (bt_positions e)(smb \<mapsto> \<lparr>bp_Symbol = smb, bp_Quantity = qty, bp_EntryPrice = f,
          bp_EntryTime = bt_currentTime e\<rparr>)\<rparr>"
  have "0 \<le> f" by (rule bt_applySlippage_nonneg [OF assms(1,2,3) f])
  then show ?thesis using assms(2,4) le unfolding e' bt_solvent_def by (auto simp: ran_def)
qed

lemma closePosition_solvent:
  assumes "div_sign D" "bt_solvent e" "0 \<le> price" "closePosition D smb price e = Return e'"
  shows "bt_solvent e'"
proof (rule closePosition_cases [OF assms(4)])
  fix p f
  assume p: "bt_positions e smb = Some p" and f: "bt_applySlippage D e price False = Some f"
    and e': "e' = e\<lparr>bt_balance := bt_balance e + (bp_Quantity p * f - bp_Quantity p * f * bt_commissionRate e),
       bt_trades := bt_trades e @ [\<lparr>t_Symbol = smb, t_Side = OrderSideBuy, t_Quantity = bp_Quantity p,
          t_EntryPrice = bp_EntryPrice p, t_ExitPrice = f, t_EntryTime = bp_EntryTime p,
          t_ExitTime = bt_currentTime e,
          t_PnL = (f - bp_EntryPrice p) * bp_Quantity p - bp_Quantity p * f * bt_commissionRate e,
          t_Commission = bp_Quantity p * f * bt_commissionRate e\<rparr>],
       bt_positions := (bt_positions e)(smb := None)\<rparr>"
  have "0 \<le> f" by (rule bt_applySlippage_nonneg [OF assms(1,2,3) f])
  moreover have "0 \<le> bp_Quantity p" using assms(2) p by (auto simp: bt_solvent_def ran_def)
  ultimately have n: "0 \<le> bp_Quantity p * f" by simp
  have "bp_Quantity p * f * bt_commissionRate e \<le> bp_Quantity p * f * 1"
    using n assms(2) by (intro mult_left_mono) (simp_all add: bt_solvent_def)
  moreover have "ran ((bt_positions e)(smb := None)) \<subseteq> ran (bt_positions e)" by (auto simp: ran_def)
  ultimately show ?thesis
    using assms(2) finite_dom_del [of "bt_positions e" smb]
    unfolding e' bt_solvent_def by auto
qed

lemma recordEquity_solvent: 
  assumes "bt_solvent e" shows "bt_solvent (recordEquity e)"
proof -
  have "0 \<le> map_sum_of position_value (bt_positions e)"
    unfolding map_sum_of_def position_value_def
    using assms by (intro sum_nonneg) (auto simp: bt_solvent_def ran_def intro!: mult_nonneg_nonneg)
  then show ?thesis using assms by (auto simp: bt_solvent_def recordEquity_def)
qed

lemma bt_round_solvent:
  assumes "div_sign D" "bt_solvent e" "0 \<le> cn_Close cn" "\<And>sg. answer = Inr (Some sg) \<Longrightarrow> 0 \<le> sg_Quantity sg"
    and "bt_round D i cn answer e = Some e'"
  shows "bt_solvent e'"
proof -
  let ?e1 = "e\<lparr>bt_currentTime := cn_Timestamp cn\<rparr>"
  have e1: "bt_solvent ?e1" using assms(2) by (simp add: bt_solvent_def)
  consider "e' = ?e1" | sg e2 where "answer = Inr (Some sg)" "executeSignal D sg (cn_Close cn) ?e1 = Return e2"
      "e' = e2 \<or> e' = recordEquity e2"
    using assms(5) by (auto simp: bt_round_def Let_def split: sum.splits option.splits if_splits outcome.splits)
  then show ?thesis
  proof cases
    case 2
    then have "bt_solvent e2"
      using openPosition_solvent [OF assms(1) e1 assms(3) assms(4) [OF 2(1)]]
        closePosition_solvent [OF assms(1) e1 assms(3)] e1
      by (auto simp: executeSignal_def split: signal_action.splits)
    then show ?thesis using 2(3) recordEquity_solvent by blast
  qed (use e1 in simp)
qed

lemma bt_loop_solvent:
  assumes "div_sign D" "\<And>s cn s' sg. strat s cn = (s', Inr (Some sg)) \<Longrightarrow> 0 \<le> sg_Quantity sg"
  shows "bt_loop D canceled strat i cs s e = Return e' \<Longrightarrow> bt_solvent e \<Longrightarrow> \<forall>cn \<in> set cs. 0 \<le> cn_Close cn \<Longrightarrow>
     bt_solvent e'"
proof (induction cs arbitrary: i s e)
  case (Cons cn cs)
  obtain s' answer where st: "strat s cn = (s', answer)" by force
  with Cons.prems obtain e1 where r: "bt_round D i cn answer e = Some e1" "bt_loop D canceled strat (i + 1) cs s' e1 = Return e'"
    by (auto split: if_splits)
  have "bt_solvent e1"
    by (rule bt_round_solvent [OF assms(1) Cons.prems(2) _ _ r(1)]) (use Cons.prems assms(2) st in auto)
  with Cons.IH [OF r(2)] Cons.prems show ?case by simp
qed simp

lemma closeAll_solvent:
  "div_sign D \<Longrightarrow> 0 \<le> price \<Longrightarrow> closeAllPositions D price keys e = Some e' \<Longrightarrow> bt_solvent e \<Longrightarrow> bt_solvent e'"
proof (induction keys arbitrary: e)
  case (Cons k ks)
  then show ?case by (auto split: outcome.splits dest: closePosition_solvent)
qed simp

subsection \<open>When a run panics\<close>

lemma applySlippage_total: "div_total D \<Longrightarrow> \<exists>f. bt_applySlippage D e price b = Some f"
  using div_totalD [of D "from_int 10000" "bt_slippageBps e"] by (auto simp: bt_applySlippage_def from_int_def)

lemma closePosition_total: "div_total D \<Longrightarrow> closePosition D smb price e \<noteq> Panic"
  using applySlippage_total [of D e price False] by (auto simp: closePosition_def Let_def split: option.splits)

lemma executeSignal_total: "div_total D \<Longrightarrow> executeSignal D sg price e \<noteq> Panic"
  using applySlippage_total [of D e price True] closePosition_total
  by (auto simp: executeSignal_def openPosition_def Let_def split: signal_action.splits option.splits if_splits)

lemma bt_round_total:
  assumes "div_total D"
  shows "\<exists>e'. bt_round D i cn answer e = Some e'"
  using executeSignal_total [OF assms]
  by (auto simp: bt_round_def Let_def split: sum.splits option.splits outcome.splits)

lemma bt_loop_total:
  assumes "div_total D" "\<forall>n. \<not> canceled n"
  shows "\<exists>e'. bt_loop D canceled strat i cs s e = Return e'"
proof (induction cs arbitrary: i s e)
  case (Cons cn cs)
  obtain s' answer where st: "strat s cn = (s', answer)" by force
  obtain e1 where "bt_round D i cn answer e = Some e1" using bt_round_total [OF assms(1)] by blast
  with st Cons.IH [of "i + 1" s' e1] assms(2) show ?case by auto
qed simp

lemma closeAll_total: "div_total D \<Longrightarrow> \<exists>e'. closeAllPositions D price keys e = Some e'"
proof (induction keys arbitrary: e)
  case (Cons k ks)
  then show ?case using closePosition_total [OF Cons.prems, of k price e] by (auto split: outcome.splits)
qed simp

lemma calculateResult_total:
  assumes "div_total D" "bt_initialBalance e \<noteq> 0"
  shows "\<exists>r. calculateResult D e = Some r"
proof -
  obtain w l p q where c: "count_trades (bt_trades e) (0, 0, 0, 0) = (w, l, p, q)" by (metis prod_cases4)
  have n: "bt_trades e \<noteq> [] \<Longrightarrow> (from_int (int (length (bt_trades e))) :: 'a) \<noteq> 0" by (simp add: from_int_def)
  show ?thesis
    using div_totalD [OF assms, of "bt_balance e + map_sum_of position_value (bt_positions e) - bt_initialBalance e"]
      div_totalD [OF assms(1) n, of "from_int (int w)"] div_totalD [OF assms(1), of q p] c
    by (auto simp: calculateResult_def Let_def)
qed

subsection \<open>The properties\<close>

text \<open>C17: The accounts of a backtest close. A run of a new engine that returns leaves no open position,
  its final equity is the cash, equal to the initial balance plus profit minus loss minus the commissions
  paid on entry; every trade is counted exactly once as winning or losing, and the last equity point is
  the final equity. So the sum of the reported trade results is too high by the entry commissions.\<close>

theorem backtest_accounts_close:
  assumes "bt_Run D canceled strat candles keys s (NewEngine D now (Some cfg)) = Return (e, res)"
    and "bt_loop D canceled strat 0 candles s (NewEngine D now (Some cfg)) = Return e1"
    and "set keys = dom (bt_positions e1)"
  shows "bt_positions e = Map.empty \<and> br_FinalEquity res = bt_balance e \<and>
     br_FinalEquity res = bc_InitialBalance cfg + br_TotalProfit res - br_TotalLoss res
       - (\<Sum>t\<leftarrow>br_Trades res. t_Quantity t * t_EntryPrice t * bc_CommissionRate cfg) \<and>
     br_WinningTrades res + br_LosingTrades res = br_TotalTrades res \<and>
     br_TotalTrades res = length (br_Trades res) \<and> snd (last (br_Equity res)) = br_FinalEquity res"
proof -
  from assms(1,2) obtain e2 where r: "closeAllPositions D (cn_Close (last candles)) keys e1 = Some e2"
      "e = recordEquity e2" "calculateResult D e = Some res"
    by (auto elim: bt_Run_cases)
  obtain w l p q where c: "count_trades (bt_trades e) (0, 0, 0, 0) = (w, l, p, q)"
      "br_WinningTrades res = w" "br_LosingTrades res = l" "br_TotalProfit res = p" "br_TotalLoss res = q"
      "br_TotalTrades res = length (bt_trades e)" "br_Trades res = bt_trades e" "br_Equity res = bt_equity e"
      "br_FinalEquity res = bt_balance e + map_sum_of position_value (bt_positions e)"
    using calculateResult_cases [OF r(3)] by blast
  note count = count_trades_spec [OF c(1)]
  have "dom (bt_positions e2) = {}" using closeAll_dom [OF r(1)] assms(3) by simp
  then have empty: "bt_positions e = Map.empty" using r(2) by (simp add: recordEquity_def)
  have "bt_books (bc_InitialBalance cfg) (NewEngine D now (Some cfg))"
    by (simp add: bt_books_def NewEngine_def trades_total_def)
  from closeAll_books [OF r(1) bt_loop_books [OF assms(2) this]]
  have books: "bt_books (bc_InitialBalance cfg) e" using r(2) by simp
  have "bt_commissionRate e = bc_CommissionRate cfg"
    using bt_Run_config [OF assms(1)] by (simp add: same_config_def NewEngine_def)
  then have "bt_balance e = bc_InitialBalance cfg
      + (\<Sum>t\<leftarrow>bt_trades e. t_PnL t - t_Quantity t * t_EntryPrice t * bc_CommissionRate cfg)"
    using books empty by (simp add: bt_books_def trades_total_def entry_commission_def)
  then have "bt_balance e = bc_InitialBalance cfg + p - q
      - (\<Sum>t\<leftarrow>bt_trades e. t_Quantity t * t_EntryPrice t * bc_CommissionRate cfg)"
    using count by (simp add: sum_list_subtractf)
  then show ?thesis
    using empty c count r(2) by (simp add: recordEquity_def)
qed

text \<open>A backtest never spends money it does not have. With slippage and commission rates between
  zero and one, nonnegative closing prices and nonnegative quantities in the signals, the cash stays
  nonnegative and so does every point of the equity curve.\<close>

theorem backtest_stays_solvent:
  assumes "bt_Run D canceled strat candles keys s (NewEngine D now (Some cfg)) = Return (e, res)"
    and "div_sign D" "0 \<le> bc_InitialBalance cfg"
    and "0 \<le> bc_CommissionRate cfg" "bc_CommissionRate cfg \<le> 1"
    and "0 \<le> bc_SlippageBps cfg" "bc_SlippageBps cfg \<le> 10000"
    and "\<forall>cn \<in> set candles. 0 \<le> cn_Close cn"
    and "\<And>s cn s' sg. strat s cn = (s', Inr (Some sg)) \<Longrightarrow> 0 \<le> sg_Quantity sg"
  shows "0 \<le> bt_balance e \<and> (\<forall>pt \<in> set (br_Equity res). 0 \<le> snd pt)"
proof -
  obtain e1 e2 where r: "bt_loop D canceled strat 0 candles s (NewEngine D now (Some cfg)) = Return e1"
      "candles \<noteq> []" "closeAllPositions D (cn_Close (last candles)) keys e1 = Some e2"
      "e = recordEquity e2" "calculateResult D e = Some res"
    by (rule bt_Run_cases [OF assms(1)])
  have "bt_solvent (NewEngine D now (Some cfg))"
    using assms(3-7) by (simp add: bt_solvent_def NewEngine_def)
  from bt_loop_solvent [OF assms(2) assms(9) r(1) this assms(8)] have "bt_solvent e1" .
  moreover have "0 \<le> cn_Close (last candles)" using assms(8) r(2) by simp
  ultimately have "bt_solvent e"
    using closeAll_solvent [OF assms(2) _ r(3)] recordEquity_solvent r(4) by blast
  moreover have "br_Equity res = bt_equity e" using calculateResult_cases [OF r(5)] by metis
  ultimately show ?thesis by (simp add: bt_solvent_def)
qed

text \<open>C32: When a backtest crashes. Unless it is canceled, a run returns a result exactly if there is at
  least one candle and the initial balance is not zero; otherwise it panics, on the last candle of an
  empty slice or on the division that computes the return.\<close>

theorem backtest_returns_iff:
  assumes "div_total D" "div_panics_on_zero D" "\<forall>n. \<not> canceled n"
  shows "(if candles \<noteq> [] \<and> bt_initialBalance e \<noteq> 0
          then \<exists>r. bt_Run D canceled strat candles keys s e = Return r
          else bt_Run D canceled strat candles keys s e = Panic)"
proof -
  obtain e1 where e1: "bt_loop D canceled strat 0 candles s e = Return e1"
    using bt_loop_total [OF assms(1,3), of strat 0 candles s e] by blast
  obtain e2 where e2: "closeAllPositions D (cn_Close (last candles)) keys e1 = Some e2"
    using closeAll_total [OF assms(1), of "cn_Close (last candles)" keys e1] by blast
  have i: "bt_initialBalance (recordEquity e2) = bt_initialBalance e"
    using bt_loop_config [OF e1] closeAll_config [OF e2] by (simp add: same_config_def recordEquity_def)
  have z: "calculateResult D (recordEquity e2) = None" if "bt_initialBalance e = 0"
    using assms(2) that i by (simp add: calculateResult_def Let_def div_panics_on_zero_def)
  show ?thesis
    using e1 e2 z calculateResult_total [OF assms(1), of "recordEquity e2"] i
    by (auto simp: bt_Run_def Let_def)
qed


subsection \<open>A concrete backtest\<close>

text \<open>Buy one unit at 10, sell it at 20, buy again at 30 and let the end of the run close it.\<close>

definition bt_candle :: "int \<Rightarrow> time \<Rightarrow> rat candle" where
  "bt_candle p t = \<lparr>cn_Symbol = ''BTC'', cn_Timestamp = t, cn_Open = of_int p, cn_High = of_int p,
     cn_Low = of_int p, cn_Close = of_int p, cn_Volume = 1\<rparr>"

definition bt_candles :: "rat candle list" where
  "bt_candles = [bt_candle 10 1, bt_candle 20 2, bt_candle 30 3]"

definition bt_alternate :: "bool \<Rightarrow> rat candle \<Rightarrow> bool \<times> (string + rat signal option)" where
  "bt_alternate buy cn = (\<not> buy, Inr (Some \<lparr>sg_Action = (if buy then SignalActionBuy else SignalActionSell),
     sg_Symbol = cn_Symbol cn, sg_Quantity = 1, sg_Price = cn_Close cn\<rparr>))"

definition bt_sample :: "rat bt_config" where
  "bt_sample = \<lparr>bc_InitialBalance = 100, bc_CommissionRate = 1/10, bc_SlippageBps = 0, bc_Seed = 7\<rparr>"

lemmas bt_sample_defs = bt_candles_def bt_candle_def bt_alternate_def bt_sample_def NewEngine_def rat_dec_def
  from_int_def bt_round_def executeSignal_def openPosition_def closePosition_def bt_applySlippage_def
  recordEquity_def Let_def

definition bt_sample_end :: "rat bt_engine" where
  "bt_sample_end = (case bt_loop rat_dec (\<lambda>n. False) bt_alternate 0 bt_candles True
     (NewEngine rat_dec 0 (Some bt_sample)) of Return e1 \<Rightarrow> e1 | _ \<Rightarrow> NewEngine rat_dec 0 (Some bt_sample))"

lemma bt_sample_loop:
  "bt_loop rat_dec (\<lambda>n. False) bt_alternate 0 bt_candles True (NewEngine rat_dec 0 (Some bt_sample)) = Return bt_sample_end"
  "dom (bt_positions bt_sample_end) = {''BTC''}"
  by (simp_all add: bt_sample_end_def bt_sample_defs)

lemma bt_sample_run:
  "\<exists>e res. bt_Run rat_dec (\<lambda>n. False) bt_alternate bt_candles [''BTC''] True
     (NewEngine rat_dec 0 (Some bt_sample)) = Return (e, res) \<and> br_FinalEquity res = 100 - 11 + 18 - 33 + 27"
  by (simp add: bt_Run_def bt_sample_defs calculateResult_def)

theorem backtest_accounts_close_witness:
  "\<exists>e res. bt_Run rat_dec (\<lambda>n. False) bt_alternate bt_candles [''BTC''] True
     (NewEngine rat_dec 0 (Some bt_sample)) = Return (e, res) \<and> br_FinalEquity res = 101 \<and> bt_balance e = 101 \<and>
     br_WinningTrades res + br_LosingTrades res = br_TotalTrades res"
proof -
  obtain e res where r: "bt_Run rat_dec (\<lambda>n. False) bt_alternate bt_candles [''BTC''] True
     (NewEngine rat_dec 0 (Some bt_sample)) = Return (e, res)" "br_FinalEquity res = 101"
    using bt_sample_run by auto
  from backtest_accounts_close [OF r(1) bt_sample_loop(1)] bt_sample_loop(2) r show ?thesis by auto
qed

theorem backtest_stays_solvent_witness:
  "\<exists>e res. bt_Run rat_dec (\<lambda>n. False) bt_alternate bt_candles [''BTC''] True
     (NewEngine rat_dec 0 (Some bt_sample)) = Return (e, res) \<and> 0 \<le> bt_balance e"
proof -
  obtain e res where r: "bt_Run rat_dec (\<lambda>n. False) bt_alternate bt_candles [''BTC''] True
     (NewEngine rat_dec 0 (Some bt_sample)) = Return (e, res)"
    using bt_sample_run by auto
  have "0 \<le> sg_Quantity sg" if "bt_alternate s cn = (s', Inr (Some sg))" for s cn s' sg
    using that by (auto simp: bt_alternate_def)
  from backtest_stays_solvent [OF r rat_dec_sign _ _ _ _ _ _ this] r show ?thesis
    by (auto simp: bt_sample_def bt_candles_def bt_candle_def)
qed

theorem backtest_returns_iff_witness:
  "bt_Run rat_dec (\<lambda>n. False) bt_alternate [] [] True (NewEngine rat_dec 0 (Some bt_sample)) = Panic"
  using backtest_returns_iff [OF rat_dec_laws(1,3), of "\<lambda>n. False" "[]" "NewEngine rat_dec 0 (Some bt_sample)"
      bt_alternate "[]" True] by simp


end
