(* ===== verification/Reconcile.thy ===== *)
theory Reconcile
  imports Order_Repo Position_Repo
begin

text \<open>
  The reconciler, \<open>internal/service/reconciliation/reconciliation.go\<close>, on the SQLite repositories. It
  compares the active orders and open positions of the database with the lists the exchange
  returns. The lists, the faults of single updates and the clock readings of one call are
  arguments. The orders and positions that the loops walk are the Go objects loaded by
  \<open>ListActive\<close> and \<open>ListOpen\<close>; they are changed in memory before they are saved, so the count of
  partial fills sees a change whose save failed.
\<close>

record reconcile_result =
  StartedAt :: time
  CompletedAt :: time
  Duration :: duration
  OrdersUpdated :: nat
  PositionsUpdated :: nat
  ZombieOrders :: "string list"
  PartialFills :: "string list"

definition empty_result :: "time \<Rightarrow> reconcile_result" where
  "empty_result started = \<lparr>StartedAt = started, CompletedAt = 0, Duration = 0, OrdersUpdated = 0,
     PositionsUpdated = 0, ZombieOrders = [], PartialFills = []\<rparr>"

datatype reconcile_error =
    ListLocal store_error | ExchangeFailed string
  | OrdersFailed reconcile_error | PositionsFailed reconcile_error

record reconciler =
  rc_orders :: order_table
  rc_positions :: position_table
  lastReconcileAt :: time

text \<open>What one call meets: the exchange's lists, faults of the database and the clock.\<close>

record 'd surroundings =
  x_orders :: "string + 'd order list"
  x_positions :: "string + 'd position list"
  x_list_fault :: "string option"
  x_order_fault :: "string \<Rightarrow> string option"
  x_position_fault :: "string \<Rightarrow> string option"
  x_started :: time
  x_clock :: "string \<Rightarrow> time"
  x_completed :: time

subsection \<open>Orders\<close>

text \<open>A later order with the same exchange id replaces an earlier one.\<close>

definition exchange_order_map :: "'d order list \<Rightarrow> string \<rightharpoonup> 'd order" where
  "exchange_order_map xs = fold (\<lambda>x m. m(o_ExchangeOrderID x \<mapsto> x)) xs Map.empty"

definition orderStatesDiffer :: "'d order \<Rightarrow> 'd order \<Rightarrow> bool" where
  "orderStatesDiffer here there \<longleftrightarrow>
     o_Status here \<noteq> o_Status there \<or> o_FilledQty here \<noteq> o_FilledQty there \<or>
     o_RemainingQty here \<noteq> o_RemainingQty there \<or> o_AvgFillPrice here \<noteq> o_AvgFillPrice there"

datatype 'd order_change = KeepOrder | ZombieOrder "'d order" | AdoptOrder "'d order"

definition order_change_of :: "(string \<Rightarrow> time) \<Rightarrow> (string \<rightharpoonup> 'd order) \<Rightarrow> 'd order \<Rightarrow> 'd order_change" where
  "order_change_of clock exch ord =
     (if o_ExchangeOrderID ord = [] then KeepOrder
      else case exch (o_ExchangeOrderID ord) of
             None \<Rightarrow> ZombieOrder (ord\<lparr>o_Status := OrderStatusCanceled, o_UpdatedAtUTC := clock (o_ID ord)\<rparr>)
           | Some x \<Rightarrow>
               if orderStatesDiffer ord x then
                 AdoptOrder (ord\<lparr>o_Status := o_Status x, o_FilledQty := o_FilledQty x,
                   o_RemainingQty := o_RemainingQty x, o_AvgFillPrice := o_AvgFillPrice x,
                   o_UpdatedAtUTC := clock (o_ID ord),
                   o_FilledAtUTC := (case o_FilledAtUTC x of None \<Rightarrow> o_FilledAtUTC ord | Some t \<Rightarrow> Some t)\<rparr>)
               else KeepOrder)"

fun changed_order :: "'d order \<Rightarrow> 'd order_change \<Rightarrow> 'd order" where
  "changed_order ord KeepOrder = ord"
| "changed_order ord (ZombieOrder y) = y"
| "changed_order ord (AdoptOrder y) = y"

fun orders_loop ::
  "'d sql_env \<Rightarrow> 'd surroundings \<Rightarrow> (string \<rightharpoonup> 'd order) \<Rightarrow> 'd order list \<Rightarrow>
   order_table \<times> reconcile_result \<Rightarrow> order_table \<times> reconcile_result" where
  "orders_loop E W exch [] st = st"
| "orders_loop E W exch (ord # ords) (rows, res) =
     (case order_change_of (x_clock W) exch ord of
        KeepOrder \<Rightarrow> orders_loop E W exch ords (rows, res)
      | ZombieOrder y \<Rightarrow>
          (case order_Update (E, x_order_fault W (o_ID y)) y rows of
             (rows', Inl _) \<Rightarrow> orders_loop E W exch ords (rows', res)
           | (rows', Inr _) \<Rightarrow> orders_loop E W exch ords
               (rows', res\<lparr>ZombieOrders := ZombieOrders res @ [o_ID y], OrdersUpdated := OrdersUpdated res + 1\<rparr>))
      | AdoptOrder y \<Rightarrow>
          (case order_Update (E, x_order_fault W (o_ID y)) y rows of
             (rows', Inl _) \<Rightarrow> orders_loop E W exch ords (rows', res)
           | (rows', Inr _) \<Rightarrow> orders_loop E W exch ords (rows', res\<lparr>OrdersUpdated := OrdersUpdated res + 1\<rparr>)))"

definition partial_fills :: "(string \<Rightarrow> time) \<Rightarrow> (string \<rightharpoonup> 'd order) \<Rightarrow> 'd::linordered_idom order list \<Rightarrow> string list" where
  "partial_fills clock exch ords =
     map o_ID (filter IsPartiallyFilled (map (\<lambda>ord. changed_order ord (order_change_of clock exch ord)) ords))"

definition rec_ReconcileOrders ::
  "'d::linordered_idom sql_env \<Rightarrow> 'd surroundings \<Rightarrow> reconciler \<Rightarrow> reconciler \<times> (reconcile_error + reconcile_result)" where
  "rec_ReconcileOrders E W st =
     (case order_ListActive (E, x_list_fault W) (rc_orders st) of
        Inl e \<Rightarrow> (st, Err (ListLocal e))
      | Inr ords \<Rightarrow>
     (case x_orders W of
        Inl e \<Rightarrow> (st, Err (ExchangeFailed e))
      | Inr xs \<Rightarrow>
          (case orders_loop E W (exchange_order_map xs) ords (rc_orders st, empty_result (x_started W)) of
             (rows, res) \<Rightarrow>
               (st\<lparr>rc_orders := rows, lastReconcileAt := x_completed W\<rparr>,
                Ok (res\<lparr>PartialFills := partial_fills (x_clock W) (exchange_order_map xs) ords,
                        CompletedAt := x_completed W, Duration := x_completed W - StartedAt res\<rparr>)))))"

subsection \<open>Positions\<close>

definition exchange_position_map :: "'d position list \<Rightarrow> string \<rightharpoonup> 'd position" where
  "exchange_position_map xs = fold (\<lambda>x m. m(p_Symbol x \<mapsto> x)) xs Map.empty"

definition positionStatesDiffer :: "'d position \<Rightarrow> 'd position \<Rightarrow> bool" where
  "positionStatesDiffer here there \<longleftrightarrow> p_Quantity here \<noteq> p_Quantity there \<or> p_CurrentPrice here \<noteq> p_CurrentPrice there"

definition closed_position :: "time \<Rightarrow> 'd position option \<Rightarrow> 'd::linordered_idom position \<Rightarrow> 'd position" where
  "closed_position now there p =
     (let p1 = p\<lparr>p_Quantity := 0, p_Side := PositionSideFlat, p_UnrealizedPnL := 0\<rparr>;
          p2 = (case there of None \<Rightarrow> p1
                | Some x \<Rightarrow> p1\<lparr>p_CurrentPrice := p_CurrentPrice x, p_RealizedPnL := p_RealizedPnL x\<rparr>)
      in p2\<lparr>p_UpdatedAtUTC := now, p_ClosedAtUTC := Some now\<rparr>)"

definition position_change_of ::
  "(string \<Rightarrow> time) \<Rightarrow> (string \<rightharpoonup> 'd position) \<Rightarrow> 'd::linordered_idom position \<Rightarrow> 'd position option" where
  "position_change_of clock exch p =
     (let there = exch (p_Symbol p) in
      if (case there of None \<Rightarrow> True | Some x \<Rightarrow> IsFlat x) then
        (if \<not> IsFlat p then Some (closed_position (clock (p_ID p)) there p) else None)
      else case there of
             None \<Rightarrow> None
           | Some x \<Rightarrow>
               if positionStatesDiffer p x
               then Some (p\<lparr>p_Quantity := p_Quantity x, p_CurrentPrice := p_CurrentPrice x,
                            p_UnrealizedPnL := p_UnrealizedPnL x, p_UpdatedAtUTC := clock (p_ID p)\<rparr>)
               else None)"

fun positions_loop ::
  "'d::linordered_idom sql_env \<Rightarrow> 'd surroundings \<Rightarrow> (string \<rightharpoonup> 'd position) \<Rightarrow> 'd position list \<Rightarrow>
   position_table \<times> reconcile_result \<Rightarrow> position_table \<times> reconcile_result" where
  "positions_loop E W exch [] st = st"
| "positions_loop E W exch (p # ps) (rows, res) =
     (case position_change_of (x_clock W) exch p of
        None \<Rightarrow> positions_loop E W exch ps (rows, res)
      | Some y \<Rightarrow>
          (case position_Update (E, x_position_fault W (p_ID y)) y rows of
             (rows', Inl _) \<Rightarrow> positions_loop E W exch ps (rows', res)
           | (rows', Inr _) \<Rightarrow> positions_loop E W exch ps (rows', res\<lparr>PositionsUpdated := PositionsUpdated res + 1\<rparr>)))"

definition rec_ReconcilePositions ::
  "'d::linordered_idom sql_env \<Rightarrow> 'd surroundings \<Rightarrow> reconciler \<Rightarrow> reconciler \<times> (reconcile_error + reconcile_result)" where
  "rec_ReconcilePositions E W st =
     (case ListOpen (E, x_list_fault W) (rc_positions st) of
        Inl e \<Rightarrow> (st, Err (ListLocal e))
      | Inr ps \<Rightarrow>
     (case x_positions W of
        Inl e \<Rightarrow> (st, Err (ExchangeFailed e))
      | Inr xs \<Rightarrow>
          (case positions_loop E W (exchange_position_map xs) ps (rc_positions st, empty_result (x_started W)) of
             (rows, res) \<Rightarrow>
               (st\<lparr>rc_positions := rows\<rparr>,
                Ok (res\<lparr>CompletedAt := x_completed W, Duration := x_completed W - StartedAt res\<rparr>)))))"

definition ReconcileAll ::
  "'d::linordered_idom sql_env \<Rightarrow> 'd surroundings \<Rightarrow> 'd surroundings \<Rightarrow> reconciler \<Rightarrow> reconciler \<times> (reconcile_error + unit)" where
  "ReconcileAll E W W' st =
     (case rec_ReconcileOrders E W st of
        (st1, Inl e) \<Rightarrow> (st1, Err (OrdersFailed e))
      | (st1, Inr _) \<Rightarrow>
          (case rec_ReconcilePositions E W' st1 of
             (st2, Inl e) \<Rightarrow> (st2, Err (PositionsFailed e))
           | (st2, Inr _) \<Rightarrow> (st2, Ok ())))"

subsection \<open>The loops as instances of the saving loop\<close>

definition order_target :: "(string \<Rightarrow> time) \<Rightarrow> (string \<rightharpoonup> 'd order) \<Rightarrow> 'd order \<Rightarrow> 'd order option" where
  "order_target clock exch ord = (case order_change_of clock exch ord of
     KeepOrder \<Rightarrow> None | ZombieOrder y \<Rightarrow> Some y | AdoptOrder y \<Rightarrow> Some y)"

lemma order_target_key: "order_target clock exch ord = Some y \<Longrightarrow> o_ID y = o_ID ord"
  by (auto simp: order_target_def order_change_of_def split: if_splits option.splits)

lemma orders_loop_rows:
  "fst (orders_loop E W exch ords (rows, res)) =
     fst (each_try (order_target (x_clock W) exch) (\<lambda>y. order_Update (E, x_order_fault W (o_ID y)) y) ords rows)"
proof (induction ords arbitrary: rows res)
  case (Cons ord ords)
  then show ?case
    by (auto simp: order_target_def split: order_change.splits prod.splits sum.splits)
qed simp

lemma orders_loop_result:
  "OrdersUpdated (snd (orders_loop E W exch ords (rows, res))) = OrdersUpdated res +
     length (snd (each_try (order_target (x_clock W) exch) (\<lambda>y. order_Update (E, x_order_fault W (o_ID y)) y) ords rows))
   \<and> StartedAt (snd (orders_loop E W exch ords (rows, res))) = StartedAt res
   \<and> PositionsUpdated (snd (orders_loop E W exch ords (rows, res))) = PositionsUpdated res"
proof (induction ords arbitrary: rows res)
  case (Cons ord ords)
  then show ?case
    by (auto simp: order_target_def split: order_change.splits prod.splits sum.splits)
qed simp

lemma orders_loop_zombies:
  "\<exists>zs. ZombieOrders (snd (orders_loop E W exch ords (rows, res))) = ZombieOrders res @ zs \<and>
     set zs \<subseteq> {o_ID ord | ord y. ord \<in> set ords \<and> order_change_of (x_clock W) exch ord = ZombieOrder y}"
proof (induction ords arbitrary: rows res)
  case (Cons ord ords)
  have id: "order_change_of (x_clock W) exch ord = ZombieOrder y \<Longrightarrow> o_ID y = o_ID ord" for y
    using order_target_key [of "x_clock W" exch ord y] by (simp add: order_target_def)
  have step: "\<exists>zs. ZombieOrders (snd (orders_loop E W exch ords (rows', res'))) = ZombieOrders res' @ zs \<and>
     set zs \<subseteq> {o_ID o' | o' y. o' \<in> set (ord # ords) \<and> order_change_of (x_clock W) exch o' = ZombieOrder y}" for rows' res'
    using Cons.IH [of rows' res'] by fastforce
  show ?case
  proof (cases "order_change_of (x_clock W) exch ord")
    case KeepOrder
    then show ?thesis using step [of rows res] by simp
  next
    case (ZombieOrder y)
    obtain rows' u where u: "order_Update (E, x_order_fault W (o_ID y)) y rows = (rows', u)" by (cases "order_Update (E, x_order_fault W (o_ID y)) y rows")
    show ?thesis
    proof (cases u)
      case (Inl e)
      then show ?thesis using step [of rows' res] ZombieOrder u by simp
    next
      case (Inr v)
      let ?res = "res\<lparr>ZombieOrders := ZombieOrders res @ [o_ID y], OrdersUpdated := OrdersUpdated res + 1\<rparr>"
      obtain zs where "ZombieOrders (snd (orders_loop E W exch ords (rows', ?res))) = ZombieOrders res @ o_ID y # zs"
          "set zs \<subseteq> {o_ID o' | o' y. o' \<in> set (ord # ords) \<and> order_change_of (x_clock W) exch o' = ZombieOrder y}"
        using step [of rows' ?res] by auto
      then show ?thesis using ZombieOrder u Inr id [OF ZombieOrder]
        by (intro exI [of _ "o_ID y # zs"]) auto
    qed
  next
    case (AdoptOrder y)
    then show ?thesis
      using step [of "fst (order_Update (E, x_order_fault W (o_ID y)) y rows)" res]
        step [of "fst (order_Update (E, x_order_fault W (o_ID y)) y rows)" "res\<lparr>OrdersUpdated := OrdersUpdated res + 1\<rparr>"]
      by (cases "order_Update (E, x_order_fault W (o_ID y)) y rows") (auto split: sum.splits)
  qed
qed simp

lemma position_change_key:
  "position_change_of clock exch p = Some y \<Longrightarrow> p_ID y = p_ID p"
  by (auto simp: position_change_of_def closed_position_def Let_def split: if_splits option.splits)

lemma positions_loop_rows:
  "fst (positions_loop E W exch ps (rows, res)) =
     fst (each_try (position_change_of (x_clock W) exch) (\<lambda>y. position_Update (E, x_position_fault W (p_ID y)) y) ps rows)"
  "PositionsUpdated (snd (positions_loop E W exch ps (rows, res))) = PositionsUpdated res +
     length (snd (each_try (position_change_of (x_clock W) exch) (\<lambda>y. position_Update (E, x_position_fault W (p_ID y)) y) ps rows))"
proof (induction ps arbitrary: rows res)
  case (Cons p ps)
  { case 1 then show ?case using Cons by (auto split: option.splits prod.splits sum.splits) }
  { case 2 then show ?case using Cons by (auto split: option.splits prod.splits sum.splits) }
qed simp_all

subsection \<open>What one pass does to a row\<close>

lemma rec_ReconcileOrders_Ok:
  assumes "rec_ReconcileOrders E W st = (st', Ok res)"
  obtains ords xs where "order_ListActive (E, x_list_fault W) (rc_orders st) = Inr ords" "x_orders W = Inr xs"
    "rc_orders st' = fst (orders_loop E W (exchange_order_map xs) ords (rc_orders st, empty_result (x_started W)))"
    "OrdersUpdated res = OrdersUpdated (snd (orders_loop E W (exchange_order_map xs) ords (rc_orders st, empty_result (x_started W))))"
    "ZombieOrders res = ZombieOrders (snd (orders_loop E W (exchange_order_map xs) ords (rc_orders st, empty_result (x_started W))))"
    "rc_positions st' = rc_positions st"
  using assms by (auto simp: rec_ReconcileOrders_def split: sum.splits prod.splits)

definition active_row :: "order_row \<Rightarrow> bool" where
  "active_row r \<longleftrightarrow> c_status r \<in> {OrderStatusSubmitted, OrderStatusPartial}"

lemma reconciled_row:
  assumes keys: "order_keys_ok (rc_orders st)" and run: "rec_ReconcileOrders E W st = (st', Ok res)"
    and xs: "x_orders W = Ok xs" and row: "order_lookup (rc_orders st) k = Some r"
  shows "order_lookup (rc_orders st') k = Some (case scanOrder E r of
      Inl e \<Rightarrow> r
    | Inr ord \<Rightarrow> if active_row r \<and> x_order_fault W k = None
        then (case order_target (x_clock W) (exchange_order_map xs) ord of
                None \<Rightarrow> r | Some y \<Rightarrow> order_set_columns (E, None) y r)
        else r)"
proof -
  let ?g = "order_target (x_clock W) (exchange_order_map xs)"
  let ?h = "\<lambda>y. (E, x_order_fault W (o_ID y))"
  from run obtain ords where list: "order_ListActive (E, x_list_fault W) (rc_orders st) = Inr ords"
      and st': "rc_orders st' = fst (each_try ?g (\<lambda>y. order_Update (?h y) y) ords (rc_orders st))"
    by (rule rec_ReconcileOrders_Ok) (use xs in \<open>auto simp: orders_loop_rows\<close>)
  note find = order_ListActive_find [OF keys list]
  have present: "\<forall>x \<in> set ords. order_lookup (rc_orders st) (o_ID x) \<noteq> None"
    using order_ListActive_row [OF list] scanOrder_Ok order_lookup_in_set [OF keys] by fastforce
  have "order_lookup (rc_orders st') k =
     (case find (\<lambda>x. o_ID x = k) ords of
        None \<Rightarrow> order_lookup (rc_orders st) k
      | Some x \<Rightarrow> (case order_faults.saved_of ?g ?h x of None \<Rightarrow> order_lookup (rc_orders st) k
                   | Some y \<Rightarrow> map_option (order_set_columns (?h y) y) (order_lookup (rc_orders st) k)))"
    unfolding st' by (rule order_faults.each_try_row(1) [OF find(1) _ present]) (auto dest: order_target_key)
  moreover have "o_ID ord = k" if "scanOrder E r = Inr ord" for ord
    using scanOrder_Ok [OF that] row_of_Some_key [OF row] by simp
  ultimately show ?thesis
    unfolding order_faults.saved_of_def
    by (auto simp: find(2) row active_row_def order_set_columns_def split: sum.splits option.splits
        dest: order_target_key)
qed

lemma reconciled_keys:
  assumes "order_keys_ok (rc_orders st)" "rec_ReconcileOrders E W st = (st', res)"
  shows "order_keys_ok (rc_orders st')"
proof -
  have loop: "order_keys_ok rows \<Longrightarrow> order_keys_ok (fst (orders_loop E W exch ords (rows, r)))" for exch ords rows r
  proof (induction ords arbitrary: rows r)
    case (Cons ord ords)
    have "order_keys_ok (fst (order_Update (E, x_order_fault W (o_ID y)) y rows))" for y
      using Cons.prems by (rule order_Update_keys)
    then have "order_Update (E, x_order_fault W (o_ID y)) y rows = (rows', u) \<Longrightarrow> order_keys_ok rows'" for y rows' u
      by (metis fst_conv)
    then show ?case using Cons by (auto split: order_change.splits prod.splits sum.splits)
  qed simp
  show ?thesis
    using assms loop [OF assms(1)] by (auto simp: rec_ReconcileOrders_def split: sum.splits prod.splits)
      (metis fst_conv)
qed

lemma reconciled_dom:
  assumes "order_keys_ok (rc_orders st)" "rec_ReconcileOrders E W st = (st', Ok res)"
  shows "order_lookup (rc_orders st') k = None \<longleftrightarrow> order_lookup (rc_orders st) k = None"
proof -
  have loop: "order_lookup (fst (orders_loop E W exch ords (rows, r))) k = None \<longleftrightarrow> order_lookup rows k = None" for exch ords rows r
  proof (induction ords arbitrary: rows r)
    case (Cons ord ords)
    have "order_Update (E, f) y rows = (rows', u) \<Longrightarrow> order_lookup rows' k = None \<longleftrightarrow> order_lookup rows k = None" for f y rows' u
      using orders.upd_dom [of "(E, f)" y rows k] by (metis fst_conv)
    then show ?case using Cons by (auto split: order_change.splits prod.splits sum.splits)
  qed simp
  from assms(2) show ?thesis by (rule rec_ReconcileOrders_Ok) (simp add: loop)
qed

lemma scanned_target:
  assumes "codec_ok E" "scanOrder E r = Ok ord" "order_target clock exch ord = Some y"
  shows "scanOrder E (order_set_columns (E, f) y r) = Ok y"
  using assms(3)
  by (intro scanOrder_set_columns [OF assms(1,2)])
    (auto simp: order_target_def order_change_of_def split: if_splits option.splits)

text \<open>An adopted order agrees with the exchange, and a zombie is no longer active: nothing is left to do.\<close>

lemma order_target_done:
  "order_target clock exch ord = Some y \<Longrightarrow> o_Status y \<in> {OrderStatusSubmitted, OrderStatusPartial} \<Longrightarrow>
     order_change_of clock' exch y = KeepOrder"
  by (auto simp: order_target_def order_change_of_def orderStatesDiffer_def split: if_splits option.splits)

lemma order_change_Keep: "order_target clock exch ord = None \<longleftrightarrow> order_change_of clock' exch ord = KeepOrder"
  by (auto simp: order_target_def order_change_of_def split: option.splits if_splits)

lemma orders_loop_keep:
  "\<forall>ord \<in> set ords. order_change_of (x_clock W) exch ord = KeepOrder \<Longrightarrow> orders_loop E W exch ords st = st"
proof (induction ords)
  case (Cons ord ords)
  then show ?case by (cases st) simp
qed simp

lemma scan_all_exists: "(\<And>r. r \<in> set rs \<Longrightarrow> \<exists>x. f r = Ok x) \<Longrightarrow> \<exists>xs. scan_all f rs = Ok xs"
  by (induction rs) fastforce+

subsection \<open>Properties\<close>


text \<open>A fill that happened while the agent was away is recorded as a cancellation. The reconciler asks the
  exchange only for its open orders, so an order that was filled meanwhile is missing in the list; its row is
  marked canceled and keeps the old filled quantity, although the exchange (whose complete order list is
  \<open>full\<close>) has it as filled, and \<open>QueryOrderStatus\<close> would have said so.\<close>

theorem filled_while_away_is_canceled:
  assumes "order_keys_ok (rc_orders st)" "rec_ReconcileOrders E W st = (st', Ok res)"
    and "x_orders W = Ok (filter IsActive full)"
    and "\<forall>x \<in> set full. o_ExchangeOrderID x = eid \<longrightarrow> o_Status x = OrderStatusFilled"
    and "order_lookup (rc_orders st) k = Some r" "active_row r" "scanOrder E r = Ok ord"
    and "o_ExchangeOrderID ord = eid" "eid \<noteq> []" "x_order_fault W k = None"
  shows "\<exists>r'. order_lookup (rc_orders st') k = Some r' \<and> c_status r' = OrderStatusCanceled \<and>
     c_filled_qty r' = dec_text E (o_FilledQty ord) \<and> c_filled_at r' = nullTime E (o_FilledAtUTC ord)"
proof -
  have map_None: "fold (\<lambda>x m. m(o_ExchangeOrderID x \<mapsto> x)) xs m eid = m eid"
    if "\<forall>x \<in> set xs. o_ExchangeOrderID x \<noteq> eid" for xs :: "'a order list" and m
    using that by (induction xs arbitrary: m) auto
  have "exchange_order_map (filter IsActive full) eid = None"
    unfolding exchange_order_map_def
    by (subst map_None) (use assms(4) in \<open>auto simp: IsActive_def\<close>)
  then have "order_target (x_clock W) (exchange_order_map (filter IsActive full)) ord =
      Some (ord\<lparr>o_Status := OrderStatusCanceled, o_UpdatedAtUTC := x_clock W (o_ID ord)\<rparr>)"
    using assms(8,9) by (simp add: order_target_def order_change_of_def)
  then show ?thesis
    using reconciled_row [OF assms(1,2,3,5)] assms(6,7,10) by (simp add: order_set_columns_def)
qed

subsection \<open>Positions\<close>

lemma rec_ReconcilePositions_Ok:
  assumes "rec_ReconcilePositions E W st = (st', Ok res)"
  obtains ps xs where "ListOpen (E, x_list_fault W) (rc_positions st) = Inr ps" "x_positions W = Inr xs"
    "rc_positions st' = fst (positions_loop E W (exchange_position_map xs) ps (rc_positions st, empty_result (x_started W)))"
  using assms by (auto simp: rec_ReconcilePositions_def split: sum.splits prod.splits)

lemma reconciled_position_row:
  assumes "distinct (map k_id (rc_positions st))" and run: "rec_ReconcilePositions E W st = (st', Ok res)"
    and xs: "x_positions W = Ok xs" and row: "position_lookup (rc_positions st) k = Some r"
    and p: "scanPosition E r = Ok p" "k_closed_at r = None"
  shows "position_lookup (rc_positions st') k = Some
     (if x_position_fault W k = None
      then (case position_change_of (x_clock W) (exchange_position_map xs) p of
              None \<Rightarrow> r | Some y \<Rightarrow> position_set_columns (E, None) y r)
      else r)"
proof -
  let ?g = "position_change_of (x_clock W) (exchange_position_map xs)"
  let ?h = "\<lambda>y. (E, x_position_fault W (p_ID y))"
  from run obtain ps where list: "ListOpen (E, x_list_fault W) (rc_positions st) = Inr ps"
      and st': "rc_positions st' = fst (each_try ?g (\<lambda>y. position_Update (?h y) y) ps (rc_positions st))"
    by (rule rec_ReconcilePositions_Ok) (use xs in \<open>auto simp: positions_loop_rows\<close>)
  note find = ListOpen_find [OF assms(1) list]
  have "position_lookup (rc_positions st') k =
     (case find (\<lambda>x. p_ID x = k) ps of
        None \<Rightarrow> position_lookup (rc_positions st) k
      | Some x \<Rightarrow> (case position_faults.saved_of ?g ?h x of None \<Rightarrow> position_lookup (rc_positions st) k
                   | Some y \<Rightarrow> map_option (position_set_columns (?h y) y) (position_lookup (rc_positions st) k)))"
    unfolding st' by (rule position_faults.each_try_row(1) [OF find(1) _ find(3)]) (auto dest: position_change_key)
  moreover have "p_ID p = k" using scanPosition_Ok [OF p(1)] row_of_Some_key [OF row] by simp
  ultimately show ?thesis
    unfolding position_faults.saved_of_def
    by (auto simp: find(2) row p position_set_columns_def split: option.splits dest: position_change_key)
qed

text \<open>Positions follow the exchange by symbol only. After a pass that saved everything, every open position
  whose symbol the exchange holds has the exchange's whole quantity and price for that symbol, whatever its
  strategy, and keeps its own side; an open position whose symbol is absent or flat on the exchange is flat
  and closed. So two strategies with a position in one symbol both end up with the whole quantity, and a
  position that turned around on the exchange keeps the wrong side.\<close>

theorem positions_follow_exchange_by_symbol:
  assumes "codec_ok E" "distinct (map k_id (rc_positions st))"
    and run: "rec_ReconcilePositions E W st = (st', Ok res)" and "x_positions W = Ok xs" and "x_position_fault W k = None"
    and row: "position_lookup (rc_positions st) k = Some r" "k_closed_at r = None" "scanPosition E r = Ok p"
    and "IsOpen p"
  shows "\<exists>r' p'. position_lookup (rc_positions st') k = Some r' \<and> scanPosition E r' = Ok p' \<and>
     (case exchange_position_map xs (p_Symbol p) of
        Some x \<Rightarrow> if IsOpen x
          then p_Quantity p' = p_Quantity x \<and> p_CurrentPrice p' = p_CurrentPrice x \<and> p_Side p' = p_Side p
          else IsFlat p' \<and> p_Quantity p' = 0 \<and> k_closed_at r' \<noteq> None \<and> p_RealizedPnL p' = p_RealizedPnL x
      | None \<Rightarrow> IsFlat p' \<and> p_Quantity p' = 0 \<and> k_closed_at r' \<noteq> None \<and> p_RealizedPnL p' = p_RealizedPnL p)"
proof -
  let ?g = "position_change_of (x_clock W) (exchange_position_map xs)"
  note out = reconciled_position_row [OF assms(2) run assms(4) row(1,3,2)]
  show ?thesis
  proof (cases "?g p")
    case None
    then show ?thesis
      using out assms(5,9) row
      by (auto simp: position_change_of_def positionStatesDiffer_def IsOpen_def Let_def split: option.splits if_splits)
  next
    case (Some y)
    have "scanPosition E (position_set_columns (E, None) y r) = Ok y"
      using Some by (intro scanPosition_set_columns [OF assms(1) row(3)])
        (auto simp: position_change_of_def closed_position_def Let_def split: option.splits if_splits)
    moreover have "k_closed_at (position_set_columns (E, None) y r) = nullTime E (p_ClosedAtUTC y)"
      by (simp add: position_set_columns_def)
    ultimately show ?thesis
      using out assms(5,9) Some
      by (intro exI [of _ "position_set_columns (E, None) y r"] exI [of _ y])
        (auto simp: position_change_of_def closed_position_def IsOpen_def IsFlat_def Let_def split: option.splits if_splits)
  qed
qed

subsection \<open>A concrete pass\<close>

definition open_order :: "int order" where
  "open_order = stored_order\<lparr>o_Status := OrderStatusSubmitted, o_ExchangeOrderID := ''e1''\<rparr>"

definition rec_state :: reconciler where
  "rec_state = \<lparr>rc_orders = [order_to_row sample_env open_order],
     rc_positions = [position_to_row sample_env sample_position,
       position_to_row sample_env (sample_position\<lparr>p_ID := ''p2'', p_StrategyID := ''other''\<rparr>)], lastReconcileAt = 0\<rparr>"

definition rec_world :: "int order list \<Rightarrow> int surroundings" where
  "rec_world xs = \<lparr>x_orders = Ok xs, x_positions = Ok [sample_position\<lparr>p_Quantity := 5\<rparr>], x_list_fault = None,
     x_order_fault = (\<lambda>k. None), x_position_fault = (\<lambda>k. None), x_started = 1, x_clock = (\<lambda>k. 2), x_completed = 3\<rparr>"

lemma open_order_simps [simp]:
  "o_ID open_order = ''ord_1''" "o_Status open_order = OrderStatusSubmitted" "o_ExchangeOrderID open_order = ''e1''"
  by (simp_all add: open_order_def stored_order_def)

lemma rec_world_simps [simp]:
  "x_orders (rec_world xs) = Ok xs" "x_list_fault (rec_world xs) = None" "x_order_fault (rec_world xs) k = None"
  "x_positions (rec_world xs) = Ok [sample_position\<lparr>p_Quantity := 5\<rparr>]" "x_position_fault (rec_world xs) k = None"
  by (simp_all add: rec_world_def)

lemma rec_state_keys [simp]: "order_keys_ok (rc_orders rec_state)" "distinct (map k_id (rc_positions rec_state))"
  by (simp_all add: rec_state_def order_keys_ok_def sample_position_def)

lemma rec_state_rows [simp]:
  "order_lookup (rc_orders rec_state) ''ord_1'' = Some (order_to_row sample_env open_order)"
  "position_lookup (rc_positions rec_state) ''p2'' =
     Some (position_to_row sample_env (sample_position\<lparr>p_ID := ''p2'', p_StrategyID := ''other''\<rparr>))"
  by (simp_all add: rec_state_def sample_position_def)

lemma rec_state_run: "\<exists>st' res. rec_ReconcileOrders sample_env (rec_world xs) rec_state = (st', Ok res)"
  by (simp add: rec_ReconcileOrders_def order_ListActive_def query_orders_def rec_state_def order_desc_def split: prod.splits)

lemma rec_positions_run: "\<exists>st' res. rec_ReconcilePositions sample_env (rec_world xs) rec_state = (st', Ok res)"
  by (simp add: rec_ReconcilePositions_def ListOpen_def query_positions_def rec_state_def order_desc_def sample_position_def
      split: prod.splits)


theorem filled_while_away_is_canceled_witness:
  "\<exists>st' res r'. rec_ReconcileOrders sample_env (rec_world []) rec_state = (st', Ok res) \<and>
     order_lookup (rc_orders st') ''ord_1'' = Some r' \<and> c_status r' = OrderStatusCanceled"
proof -
  obtain st' res where r: "rec_ReconcileOrders sample_env (rec_world []) rec_state = (st', Ok res)"
    using rec_state_run by blast
  have "active_row (order_to_row sample_env open_order)" by (simp add: active_row_def)
  from filled_while_away_is_canceled [OF rec_state_keys(1) r, of "[open_order\<lparr>o_Status := OrderStatusFilled\<rparr>]" "''e1''" "''ord_1''",
      OF _ _ rec_state_rows(1) this scanOrder_to_row [OF sample_env_ok]] r
  show ?thesis by (auto simp: IsActive_def)
qed

theorem positions_follow_exchange_by_symbol_witness:
  "\<exists>st' res r' p'. rec_ReconcilePositions sample_env (rec_world []) rec_state = (st', Ok res) \<and>
     position_lookup (rc_positions st') ''p2'' = Some r' \<and> scanPosition sample_env r' = Ok p' \<and> p_Quantity p' = 5"
proof -
  obtain st' res where r: "rec_ReconcilePositions sample_env (rec_world []) rec_state = (st', Ok res)"
    using rec_positions_run by blast
  from positions_follow_exchange_by_symbol [OF sample_env_ok rec_state_keys(2) r _ _ rec_state_rows(2) _ scanPosition_to_row [OF sample_env_ok]] r
  show ?thesis
    by (fastforce simp: sample_position_def exchange_position_map_def IsOpen_def IsFlat_def)
qed

end
