(* ===== verification/Jobs.thy ===== *)
theory Jobs
  imports Channel "HOL-Library.Signed_Division"
begin

text \<open>
  The job manager, \<open>internal/service/jobs/manager.go\<close>: four queues (buffered channels), one per
  priority, and pools of workers that take from them. \<open>Submit\<close> and the end of \<open>executeJob\<close> each run
  under the manager's mutex, so they are single steps; the function of a job runs without it, so
  callers and workers interleave. What a job's function does when it is called is a component of the
  job (\<open>None\<close> is a nil function). The map \<open>activeJobs\<close> holds the job as it was submitted; only its
  keys are ever read.
\<close>

datatype priority = PriorityCritical | PriorityLive | PriorityBackground | PriorityAnalytics | PriorityOther int

fun priority_string :: "priority \<Rightarrow> string" where
  "priority_string PriorityCritical = ''critical''"
| "priority_string PriorityLive = ''live''"
| "priority_string PriorityBackground = ''background''"
| "priority_string PriorityAnalytics = ''analytics''"
| "priority_string (PriorityOther n) = ''unknown''"

datatype job_failure = JobFunctionNil | JobReturned string | JobPanicked

record job =
  j_ID :: string
  j_Name :: string
  j_Priority :: priority
  j_Fn :: "(string, unit) outcome option"
  j_CreatedAt :: time
  j_StartedAt :: "time option"
  j_CompletedAt :: "time option"
  j_Error :: "job_failure option"

record jobs_config =
  CriticalWorkers :: int
  LiveWorkers :: int
  BackgroundWorkers :: int
  AnalyticsWorkers :: int
  QueueSize :: int

record job_manager =
  jm_canceled :: bool
  criticalQueue :: "job chan"
  liveQueue :: "job chan"
  backgroundQueue :: "job chan"
  analyticsQueue :: "job chan"
  activeJobs :: "string \<rightharpoonup> job"
  criticalWorkers :: int
  liveWorkers :: int
  backgroundWorkers :: int
  analyticsWorkers :: int
  totalJobsProcessed :: nat
  totalJobsFailed :: nat
  jobProcessingTimeSum :: duration
  jm_stopped :: bool

datatype job_error = ManagerStopped | JobIsNil | UnknownPriority int | QueueFull string

definition jobs_DefaultConfig :: jobs_config where
  "jobs_DefaultConfig = \<lparr>CriticalWorkers = 4, LiveWorkers = 2, BackgroundWorkers = 2, AnalyticsWorkers = 1,
     QueueSize = 100\<rparr>"

text \<open>\<open>make(chan, n)\<close> panics for a negative \<open>n\<close>.\<close>

definition jobs_NewManager :: "jobs_config option \<Rightarrow> job_manager option" where
  "jobs_NewManager config =
     (let c = (case config of None \<Rightarrow> jobs_DefaultConfig | Some c \<Rightarrow> c) in
      if QueueSize c < 0 then None
      else Some \<lparr>jm_canceled = False,
        criticalQueue = make_chan (nat (QueueSize c)), liveQueue = make_chan (nat (QueueSize c)),
        backgroundQueue = make_chan (nat (QueueSize c)), analyticsQueue = make_chan (nat (QueueSize c)),
        activeJobs = Map.empty, criticalWorkers = CriticalWorkers c, liveWorkers = LiveWorkers c,
        backgroundWorkers = BackgroundWorkers c, analyticsWorkers = AnalyticsWorkers c,
        totalJobsProcessed = 0, totalJobsFailed = 0, jobProcessingTimeSum = 0, jm_stopped = False\<rparr>)"

fun queue_of :: "priority \<Rightarrow> job_manager \<Rightarrow> job chan option" where
  "queue_of PriorityCritical m = Some (criticalQueue m)"
| "queue_of PriorityLive m = Some (liveQueue m)"
| "queue_of PriorityBackground m = Some (backgroundQueue m)"
| "queue_of PriorityAnalytics m = Some (analyticsQueue m)"
| "queue_of (PriorityOther n) m = None"

fun set_queue :: "priority \<Rightarrow> job chan \<Rightarrow> job_manager \<Rightarrow> job_manager" where
  "set_queue PriorityCritical q m = m\<lparr>criticalQueue := q\<rparr>"
| "set_queue PriorityLive q m = m\<lparr>liveQueue := q\<rparr>"
| "set_queue PriorityBackground q m = m\<lparr>backgroundQueue := q\<rparr>"
| "set_queue PriorityAnalytics q m = m\<lparr>analyticsQueue := q\<rparr>"
| "set_queue (PriorityOther n) q m = m"

fun workers_of :: "priority \<Rightarrow> job_manager \<Rightarrow> nat" where
  "workers_of PriorityCritical m = nat (criticalWorkers m)"
| "workers_of PriorityLive m = nat (liveWorkers m)"
| "workers_of PriorityBackground m = nat (backgroundWorkers m)"
| "workers_of PriorityAnalytics m = nat (analyticsWorkers m)"
| "workers_of (PriorityOther n) m = 0"

text \<open>The value of \<open>Submit\<close> is the job with the id and time that it was given. \<open>nano\<close> is \<open>UnixNano()\<close>.\<close>

definition jobs_Submit :: "int \<Rightarrow> time \<Rightarrow> job option \<Rightarrow> job_manager \<Rightarrow> job_manager \<times> (job_error + job)" where
  "jobs_Submit nano now arg m =
     (if jm_stopped m then (m, Err ManagerStopped)
      else case arg of
        None \<Rightarrow> (m, Err JobIsNil)
      | Some j \<Rightarrow>
          (let j1 = (if j_ID j = [] then j\<lparr>j_ID := ''job_'' @ int_text nano\<rparr> else j);
               j2 = j1\<lparr>j_CreatedAt := now\<rparr>
           in case queue_of (j_Priority j2) m of
                None \<Rightarrow> (m, Err (UnknownPriority (case j_Priority j2 of PriorityOther n \<Rightarrow> n | _ \<Rightarrow> 0)))
              | Some q \<Rightarrow>
                  (case try_send j2 q of
                     Sent q' \<Rightarrow> ((set_queue (j_Priority j2) q' m)\<lparr>activeJobs := (activeJobs m)(j_ID j2 \<mapsto> j2)\<rparr>, Ok j2)
                   | _ \<Rightarrow> (m, Err (QueueFull (priority_string (j_Priority j2)))))))"

definition SubmitFunc ::
  "int \<Rightarrow> time \<Rightarrow> string \<Rightarrow> priority \<Rightarrow> (string, unit) outcome option \<Rightarrow> job_manager \<Rightarrow> job_manager \<times> (job_error + job)" where
  "SubmitFunc nano now name prio fn m =
     jobs_Submit nano now (Some \<lparr>j_ID = [], j_Name = name, j_Priority = prio, j_Fn = fn, j_CreatedAt = 0,
       j_StartedAt = None, j_CompletedAt = None, j_Error = None\<rparr>) m"

definition close_chan :: "'a chan \<Rightarrow> 'a chan" where
  "close_chan q = q\<lparr>closed := True\<rparr>"

text \<open>\<open>Stop\<close> up to the wait for the workers.\<close>

definition jobs_Stop :: "job_manager \<Rightarrow> job_manager" where
  "jobs_Stop m =
     (if jm_stopped m then m
      else m\<lparr>jm_stopped := True, jm_canceled := True, criticalQueue := close_chan (criticalQueue m),
             liveQueue := close_chan (liveQueue m), backgroundQueue := close_chan (backgroundQueue m),
             analyticsQueue := close_chan (analyticsQueue m)\<rparr>)"

definition runJob :: "job \<Rightarrow> job_failure option" where
  "runJob j =
     (case j_Fn j of
        None \<Rightarrow> Some JobFunctionNil
      | Some (Return u) \<Rightarrow> None
      | Some (Fail e) \<Rightarrow> Some (JobReturned e)
      | Some Panic \<Rightarrow> Some JobPanicked)"

text \<open>\<open>executeJob\<close> before and after the call of the function.\<close>

definition executeJob_begin :: "time \<Rightarrow> job \<Rightarrow> job" where
  "executeJob_begin now j = j\<lparr>j_StartedAt := Some now\<rparr>"

definition executeJob_end :: "time \<Rightarrow> job \<Rightarrow> job_manager \<Rightarrow> job \<times> job_manager" where
  "executeJob_end now j m =
     (let err = runJob j;
          dur = now - (case j_StartedAt j of None \<Rightarrow> 0 | Some t \<Rightarrow> t)
      in (j\<lparr>j_CompletedAt := Some now, j_Error := err\<rparr>,
          m\<lparr>totalJobsProcessed := totalJobsProcessed m + 1,
            jobProcessingTimeSum := jobProcessingTimeSum m + dur,
            totalJobsFailed := (if err \<noteq> None then totalJobsFailed m + 1 else totalJobsFailed m),
            activeJobs := (activeJobs m)(j_ID j := None)\<rparr>))"

record jobs_stats =
  TotalProcessed :: nat
  TotalFailed :: nat
  ActiveJobs :: nat
  CriticalQueueSize :: nat
  LiveQueueSize :: nat
  BackgroundQueueSize :: nat
  AnalyticsQueueSize :: nat
  AvgProcessingTime :: duration

definition jobs_GetStats :: "job_manager \<Rightarrow> jobs_stats" where
  "jobs_GetStats m =
     \<lparr>TotalProcessed = totalJobsProcessed m, TotalFailed = totalJobsFailed m, ActiveJobs = card (dom (activeJobs m)),
      CriticalQueueSize = length (buf (criticalQueue m)), LiveQueueSize = length (buf (liveQueue m)),
      BackgroundQueueSize = length (buf (backgroundQueue m)), AnalyticsQueueSize = length (buf (analyticsQueue m)),
      AvgProcessingTime = (if totalJobsProcessed m > 0 then jobProcessingTimeSum m sdiv int (totalJobsProcessed m) else 0)\<rparr>"

subsection \<open>Callers and workers interleaved\<close>

text \<open>
  The manager, the number of idle workers of each pool, the jobs being executed, and the history:
  the jobs that \<open>Submit\<close> accepted, those that a worker took, and those that completed.
\<close>

record job_sys =
  js_mgr :: job_manager
  js_idle :: "priority \<Rightarrow> nat"
  js_running :: "job multiset"
  js_accepted :: "job list"
  js_started :: "job list"
  js_finished :: "job list"

definition new_sys :: "job_manager \<Rightarrow> job_sys" where
  "new_sys m = \<lparr>js_mgr = m, js_idle = (\<lambda>p. 0), js_running = {#}, js_accepted = [], js_started = [], js_finished = []\<rparr>"

definition jobs_Start :: "job_sys \<Rightarrow> job_sys" where
  "jobs_Start s = s\<lparr>js_idle := (\<lambda>p. js_idle s p + workers_of p (js_mgr s))\<rparr>"

text \<open>A worker's \<open>select\<close> takes any branch that is ready: a job that is still buffered, or its end.\<close>

inductive job_step :: "job_sys \<Rightarrow> job_sys \<Rightarrow> bool" where
  submit: "jobs_Submit nano now arg (js_mgr s) = (m, Inr j) \<Longrightarrow>
     job_step s (s\<lparr>js_mgr := m, js_accepted := js_accepted s @ [j]\<rparr>)"
| submit_refused: "jobs_Submit nano now arg (js_mgr s) = (m, Inl e) \<Longrightarrow> job_step s (s\<lparr>js_mgr := m\<rparr>)"
| take_job: "js_idle s p > 0 \<Longrightarrow> queue_of p (js_mgr s) = Some q \<Longrightarrow> buf q = j # rest \<Longrightarrow>
     job_step s (s\<lparr>js_mgr := set_queue p (q\<lparr>buf := rest\<rparr>) (js_mgr s), js_idle := (js_idle s)(p := js_idle s p - 1),
       js_running := add_mset (executeJob_begin now j) (js_running s), js_started := js_started s @ [j]\<rparr>)"
| complete: "j \<in># js_running s \<Longrightarrow> executeJob_end now j (js_mgr s) = (j', m) \<Longrightarrow>
     job_step s (s\<lparr>js_mgr := m, js_idle := (js_idle s)(j_Priority j := js_idle s (j_Priority j) + 1),
       js_running := js_running s - {#j#}, js_finished := js_finished s @ [j']\<rparr>)"
| quit: "js_idle s p > 0 \<Longrightarrow> jm_canceled (js_mgr s) \<or> queue_of p (js_mgr s) = Some q \<and> closed q \<and> buf q = [] \<Longrightarrow>
     job_step s (s\<lparr>js_idle := (js_idle s)(p := js_idle s p - 1)\<rparr>)"
| stop: "job_step s (s\<lparr>js_mgr := jobs_Stop (js_mgr s)\<rparr>)"

text \<open>\<open>Stop\<close> returns once every worker has ended.\<close>

definition stop_returned :: "job_sys \<Rightarrow> bool" where
  "stop_returned s \<longleftrightarrow> jm_stopped (js_mgr s) \<and> (\<forall>p. js_idle s p = 0) \<and> js_running s = {#}"

subsection \<open>The specification: a fair-share pool with one queue per priority\<close>

text \<open>What identifies a job while it is being executed.\<close>

definition job_core :: "job \<Rightarrow> job" where
  "job_core j = j\<lparr>j_StartedAt := None, j_CompletedAt := None, j_Error := None\<rparr>"

definition of_priority :: "priority \<Rightarrow> job list \<Rightarrow> job list" where
  "of_priority p js = filter (\<lambda>j. j_Priority j = p) js"

text \<open>
  The promise of the manager: jobs of one priority start in the order in which they were accepted,
  each once; a job finishes once, after it started, with the failure that its function gave.
\<close>

record fifo_spec =
  fs_accepted :: "job list"
  fs_started :: "job list"
  fs_finished :: "job list"

inductive fifo_step :: "fifo_spec \<Rightarrow> fifo_spec \<Rightarrow> bool" where
  accept: "fifo_step s (s\<lparr>fs_accepted := fs_accepted s @ [j]\<rparr>)"
| begin_job: "of_priority (j_Priority j) (fs_accepted s) = of_priority (j_Priority j) (fs_started s) @ j # rest \<Longrightarrow>
     fifo_step s (s\<lparr>fs_started := fs_started s @ [j]\<rparr>)"
| end_job: "job_core j \<in># mset (map job_core (fs_started s)) - mset (map job_core (fs_finished s)) \<Longrightarrow>
     j_Error j = runJob j \<Longrightarrow> fifo_step s (s\<lparr>fs_finished := fs_finished s @ [j]\<rparr>)"

definition jobs_abs :: "job_sys \<Rightarrow> fifo_spec" where
  "jobs_abs s = \<lparr>fs_accepted = js_accepted s, fs_started = js_started s, fs_finished = js_finished s\<rparr>"

text \<open>The queues hold, in order, the accepted jobs that have not started.\<close>

definition inv_queues :: "job_sys \<Rightarrow> bool" where
  "inv_queues s \<longleftrightarrow> (\<forall>p q. queue_of p (js_mgr s) = Some q \<longrightarrow>
     of_priority p (js_accepted s) = of_priority p (js_started s) @ buf q \<and>
     closed q = jm_stopped (js_mgr s) \<and> length (buf q) \<le> capacity q)"

definition inv_cores :: "job_sys \<Rightarrow> bool" where
  "inv_cores s \<longleftrightarrow> image_mset job_core (js_running s) + mset (map job_core (js_finished s)) = mset (map job_core (js_started s))
     \<and> set (js_started s) \<subseteq> set (js_accepted s)
     \<and> (\<forall>j \<in> set (js_accepted s). queue_of (j_Priority j) (js_mgr s) \<noteq> None)"

definition inv_totals :: "job_sys \<Rightarrow> bool" where
  "inv_totals s \<longleftrightarrow> jm_canceled (js_mgr s) = jm_stopped (js_mgr s)
     \<and> totalJobsProcessed (js_mgr s) = length (js_finished s)
     \<and> totalJobsFailed (js_mgr s) = length (filter (\<lambda>j. j_Error j \<noteq> None) (js_finished s))"

text \<open>No pool ever runs more jobs than it has workers.\<close>

definition running_of :: "priority \<Rightarrow> job_sys \<Rightarrow> nat" where
  "running_of p s = size (filter_mset (\<lambda>j. j_Priority j = p) (js_running s))"

definition inv_pool :: "job_sys \<Rightarrow> bool" where
  "inv_pool s \<longleftrightarrow> (\<forall>p. js_idle s p + running_of p s \<le> workers_of p (js_mgr s))"

definition inv_active :: "job_sys \<Rightarrow> bool" where
  "inv_active s \<longleftrightarrow> (distinct (map j_ID (js_accepted s)) \<longrightarrow>
     dom (activeJobs (js_mgr s)) = j_ID ` set (js_accepted s) - j_ID ` set (js_finished s))"

definition jobs_inv :: "job_sys \<Rightarrow> bool" where
  "jobs_inv s \<longleftrightarrow> inv_queues s \<and> inv_cores s \<and> inv_totals s \<and> inv_pool s \<and> inv_active s"

lemmas inv_parts = inv_queues_def inv_cores_def inv_totals_def inv_pool_def inv_active_def

lemma queue_of_set [simp]:
  "queue_of p (set_queue p' q m) = (if p = p' \<and> queue_of p m \<noteq> None then Some q else queue_of p m)"
  by (cases p; cases p') auto

lemma set_queue_frame [simp]:
  "jm_stopped (set_queue p q m) = jm_stopped m" "jm_canceled (set_queue p q m) = jm_canceled m"
  "activeJobs (set_queue p q m) = activeJobs m" "totalJobsProcessed (set_queue p q m) = totalJobsProcessed m"
  "totalJobsFailed (set_queue p q m) = totalJobsFailed m" "workers_of p' (set_queue p q m) = workers_of p' m"
  by (cases p; cases p'; simp)+

lemma queue_of_other_fields [simp]:
  "queue_of p (m\<lparr>activeJobs := a\<rparr>) = queue_of p m" "workers_of p (m\<lparr>activeJobs := a\<rparr>) = workers_of p m"
  "queue_of p (m\<lparr>totalJobsProcessed := n, totalJobsFailed := k, jobProcessingTimeSum := t, activeJobs := a\<rparr>) = queue_of p m"
  "workers_of p (m\<lparr>totalJobsProcessed := n, totalJobsFailed := k, jobProcessingTimeSum := t, activeJobs := a\<rparr>) = workers_of p m"
  by (cases p; simp)+

lemma of_priority_append [simp]: "of_priority p (xs @ ys) = of_priority p xs @ of_priority p ys"
  "of_priority p [] = []" "of_priority p [j] = (if j_Priority j = p then [j] else [])"
  by (simp_all add: of_priority_def)

lemma queue_of_Stop: "queue_of p (jobs_Stop m) =
    (if jm_stopped m then queue_of p m else map_option close_chan (queue_of p m))"
  by (cases p) (simp_all add: jobs_Stop_def)

lemma jobs_Stop_frame [simp]:
  "activeJobs (jobs_Stop m) = activeJobs m" "totalJobsProcessed (jobs_Stop m) = totalJobsProcessed m"
  "totalJobsFailed (jobs_Stop m) = totalJobsFailed m" "workers_of p (jobs_Stop m) = workers_of p m"
  "jm_stopped (jobs_Stop m)" "jm_canceled (jobs_Stop m) = (jm_stopped m \<longrightarrow> jm_canceled m)"
  by (cases p; simp add: jobs_Stop_def)+

lemma close_chan_simps [simp]: "buf (close_chan q) = buf q" "capacity (close_chan q) = capacity q" "closed (close_chan q)"
  by (simp_all add: close_chan_def)

lemma jobs_Submit_Ok:
  assumes "jobs_Submit nano now arg m = (m', Inr j)"
  obtains q where "\<not> jm_stopped m" "queue_of (j_Priority j) m = Some q" "length (buf q) < capacity q"
    "m' = (set_queue (j_Priority j) (q\<lparr>buf := buf q @ [j]\<rparr>) m)\<lparr>activeJobs := (activeJobs m)(j_ID j \<mapsto> j)\<rparr>"
    "\<not> closed q"
  using assms
  by (auto simp: jobs_Submit_def Let_def try_send_def split: if_splits option.splits send.splits)

lemma jobs_Submit_Err: "jobs_Submit nano now arg m = (m', Inl e) \<Longrightarrow> m' = m"
  by (auto simp: jobs_Submit_def Let_def split: if_splits option.splits send.splits)

lemma executeJob_end_job:
  "executeJob_end now j m = (j', m') \<Longrightarrow> job_core j' = job_core j \<and> j_ID j' = j_ID j \<and> j_Priority j' = j_Priority j \<and>
     j_Error j' = runJob j \<and> runJob j' = runJob j"
  by (auto simp: executeJob_end_def Let_def job_core_def runJob_def)

lemma job_core_begin [simp]: "job_core (executeJob_begin now j) = job_core j" "j_ID (executeJob_begin now j) = j_ID j"
  "j_Priority (executeJob_begin now j) = j_Priority j"
  by (simp_all add: job_core_def executeJob_begin_def)

lemma job_core_frame: "job_core j = job_core j' \<Longrightarrow> j_ID j = j_ID j' \<and> j_Priority j = j_Priority j'"
  by (cases j; cases j') (simp add: job_core_def)

lemma jobs_inv_queue:
  "jobs_inv s \<Longrightarrow> queue_of p (js_mgr s) = Some q \<Longrightarrow>
     of_priority p (js_accepted s) = of_priority p (js_started s) @ buf q \<and>
     closed q = jm_stopped (js_mgr s) \<and> length (buf q) \<le> capacity q"
  by (simp add: jobs_inv_def inv_queues_def)

lemma jobs_inv_cores: "jobs_inv s \<Longrightarrow>
    image_mset job_core (js_running s) + mset (map job_core (js_finished s)) = mset (map job_core (js_started s))"
  by (simp add: jobs_inv_def inv_cores_def)

lemma jobs_inv_finished:
  assumes "jobs_inv s" shows "j_ID ` set (js_finished s) \<subseteq> j_ID ` set (js_accepted s)"
proof
  fix i assume "i \<in> j_ID ` set (js_finished s)"
  then obtain j where j: "j \<in> set (js_finished s)" "i = j_ID j" by blast
  have "mset (map job_core (js_finished s)) \<subseteq># mset (map job_core (js_started s))"
    using jobs_inv_cores [OF assms] by (metis mset_subset_eq_add_right)
  from mset_subset_eqD [OF this, of "job_core j"] j(1)
  have "job_core j \<in> job_core ` set (js_started s)" by simp
  then obtain j0 where j0: "j0 \<in> set (js_started s)" "job_core j0 = job_core j" by auto
  have "j0 \<in> set (js_accepted s)" using assms j0(1) by (auto simp: jobs_inv_def inv_cores_def)
  moreover have "j_ID j0 = i" using job_core_frame [OF j0(2)] j(2) by simp
  ultimately show "i \<in> j_ID ` set (js_accepted s)" by blast
qed

lemma submit_inv [step_invs]:
  assumes inv: "jobs_inv s" and sub: "jobs_Submit nano now arg (js_mgr s) = (m, Inr j)"
  shows "jobs_inv (s\<lparr>js_mgr := m, js_accepted := js_accepted s @ [j]\<rparr>)" (is "jobs_inv ?t")
proof (rule jobs_Submit_Ok [OF sub])
  fix q
  assume q: "\<not> jm_stopped (js_mgr s)" "queue_of (j_Priority j) (js_mgr s) = Some q" "length (buf q) < capacity q"
    and m: "m = (set_queue (j_Priority j) (q\<lparr>buf := buf q @ [j]\<rparr>) (js_mgr s))\<lparr>activeJobs := (activeJobs (js_mgr s))(j_ID j \<mapsto> j)\<rparr>"
    and o: "\<not> closed q"
  have i: "inv_queues s" "inv_cores s" "inv_totals s" "inv_pool s" "inv_active s" using inv by (simp_all add: jobs_inv_def)
  have "inv_queues ?t"
    using i(1) q o unfolding inv_queues_def m by simp
  moreover have "inv_cores ?t" using i(2) q unfolding inv_cores_def m by auto
  moreover have "inv_totals ?t" using i(3) by (simp add: inv_totals_def m)
  moreover have "inv_pool ?t" using i(4) by (simp add: inv_pool_def running_of_def m)
  moreover have "inv_active ?t"
    using i(5) jobs_inv_finished [OF inv] unfolding inv_active_def m by auto
  ultimately show ?thesis by (simp add: jobs_inv_def)
qed

lemma take_inv [step_invs]:
  assumes inv: "jobs_inv s" and t: "js_idle s p > 0" "queue_of p (js_mgr s) = Some q" "buf q = j # rest"
  shows "jobs_inv (s\<lparr>js_mgr := set_queue p (q\<lparr>buf := rest\<rparr>) (js_mgr s), js_idle := (js_idle s)(p := js_idle s p - 1),
       js_running := add_mset (executeJob_begin now j) (js_running s), js_started := js_started s @ [j]\<rparr>)" (is "jobs_inv ?t")
proof -
  note iq = jobs_inv_queue [OF inv t(2)]
  have "j \<in> set (of_priority p (js_accepted s))" using iq t(3) by simp
  then have j: "j_Priority j = p" "j \<in> set (js_accepted s)" by (auto simp: of_priority_def)
  have i: "inv_queues s" "inv_cores s" "inv_totals s" "inv_pool s" "inv_active s" using inv by (simp_all add: jobs_inv_def)
  have "inv_queues ?t"
    using i(1) t(2,3) j(1) iq unfolding inv_queues_def by simp
  moreover have "inv_cores ?t" using i(2) t(2) j unfolding inv_cores_def by auto
  moreover have "inv_totals ?t" using i(3) by (simp add: inv_totals_def)
  moreover have "js_idle ?t p' + running_of p' ?t = js_idle s p' + running_of p' s" for p'
    using t(1) j(1) by (cases "p' = p") (simp_all add: running_of_def)
  then have "inv_pool ?t" using i(4) by (simp add: inv_pool_def)
  moreover have "inv_active ?t" using i(5) by (simp add: inv_active_def)
  ultimately show ?thesis by (simp add: jobs_inv_def)
qed

lemma executeJob_end_mgr:
  assumes "executeJob_end now j m0 = (j', m)"
  shows "queue_of p m = queue_of p m0" "workers_of p m = workers_of p m0"
    "jm_stopped m = jm_stopped m0" "jm_canceled m = jm_canceled m0"
    "totalJobsProcessed m = totalJobsProcessed m0 + 1"
    "totalJobsFailed m = totalJobsFailed m0 + (if runJob j \<noteq> None then 1 else 0)"
    "activeJobs m = (activeJobs m0)(j_ID j := None)"
proof -
  have m: "m = m0\<lparr>totalJobsProcessed := totalJobsProcessed m0 + 1,
      jobProcessingTimeSum := jobProcessingTimeSum m0 + (now - (case j_StartedAt j of None \<Rightarrow> 0 | Some t \<Rightarrow> t)),
      totalJobsFailed := (if runJob j \<noteq> None then totalJobsFailed m0 + 1 else totalJobsFailed m0),
      activeJobs := (activeJobs m0)(j_ID j := None)\<rparr>"
    using assms unfolding executeJob_end_def Let_def by (blast dest: sym Pair_inject)
  show "queue_of p m = queue_of p m0" "workers_of p m = workers_of p m0" by (cases p; simp add: m)+
  show "jm_stopped m = jm_stopped m0" "jm_canceled m = jm_canceled m0"
    "totalJobsProcessed m = totalJobsProcessed m0 + 1"
    "totalJobsFailed m = totalJobsFailed m0 + (if runJob j \<noteq> None then 1 else 0)"
    "activeJobs m = (activeJobs m0)(j_ID j := None)" by (simp_all add: m)
qed

lemma complete_inv [step_invs]:
  assumes inv: "jobs_inv s" and c: "j \<in># js_running s" "executeJob_end now j (js_mgr s) = (j', m)"
  shows "jobs_inv (s\<lparr>js_mgr := m, js_idle := (js_idle s)(j_Priority j := js_idle s (j_Priority j) + 1),
       js_running := js_running s - {#j#}, js_finished := js_finished s @ [j']\<rparr>)" (is "jobs_inv ?t")
proof -
  note j' = executeJob_end_job [OF c(2)] and mgr = executeJob_end_mgr [OF c(2)]
  obtain R where R: "js_running s = add_mset j R" using c(1) by (metis mset_add)
  have i: "inv_queues s" "inv_cores s" "inv_totals s" "inv_pool s" "inv_active s" using inv by (simp_all add: jobs_inv_def)
  have "inv_queues ?t" using i(1) by (simp add: inv_queues_def mgr)
  moreover have "inv_cores ?t" using i(2) j' by (simp add: inv_cores_def R mgr)
  moreover have "inv_totals ?t" using i(3) j' by (simp add: inv_totals_def mgr)
  moreover have "js_idle ?t p + running_of p ?t = js_idle s p + running_of p s" for p
    by (simp add: running_of_def R)
  then have "inv_pool ?t" using i(4) by (simp add: inv_pool_def mgr)
  moreover have "inv_active ?t" using i(5) j' by (auto simp: inv_active_def mgr dom_restrict_insert)
  ultimately show ?thesis by (simp add: jobs_inv_def)
qed

lemma quit_inv [step_invs]:
  assumes "jobs_inv s" shows "jobs_inv (s\<lparr>js_idle := (js_idle s)(p := js_idle s p - 1)\<rparr>)" (is "jobs_inv ?t")
proof -
  have "js_idle ?t p' + running_of p' ?t \<le> workers_of p' (js_mgr s)" for p'
  proof -
    have "js_idle ?t p' + running_of p' ?t \<le> js_idle s p' + running_of p' s"
      by (simp add: running_of_def)
    also have "\<dots> \<le> workers_of p' (js_mgr s)" using assms by (simp add: jobs_inv_def inv_pool_def)
    finally show ?thesis .
  qed
  then have "inv_pool ?t" by (simp add: inv_pool_def)
  then show ?thesis using assms by (simp add: jobs_inv_def inv_queues_def inv_cores_def inv_totals_def inv_active_def)
qed

lemma stop_inv [step_invs]: "jobs_inv s \<Longrightarrow> jobs_inv (s\<lparr>js_mgr := jobs_Stop (js_mgr s)\<rparr>)"
  by (auto simp: jobs_inv_def inv_parts running_of_def queue_of_Stop split: if_splits)

lemma job_step_inv:
  assumes "job_step s t" "jobs_inv s"
  shows "jobs_inv t"
  using assms(1)
proof (cases rule: job_step.cases)
  case (submit_refused nano now arg m e)
  then show ?thesis using jobs_Submit_Err [OF submit_refused(2)] assms(2) by simp
qed (use assms(2) submit_inv take_inv complete_inv quit_inv stop_inv in simp_all)

lemma jobs_steps_inv: "job_step\<^sup>*\<^sup>* s t \<Longrightarrow> jobs_inv s \<Longrightarrow> jobs_inv t"
  by (induction rule: rtranclp_induct) (auto dest: job_step_inv)

lemma new_sys_inv:
  assumes "jobs_NewManager config = Some m"
  shows "jobs_inv (jobs_Start (new_sys m))"
proof -
  have "queue_of p m = Some q \<Longrightarrow> buf q = [] \<and> \<not> closed q" for p q
    using assms by (cases p) (auto simp: jobs_NewManager_def Let_def split: if_splits)
  moreover have "\<not> jm_stopped m" "\<not> jm_canceled m" "totalJobsProcessed m = 0" "totalJobsFailed m = 0" "activeJobs m = Map.empty"
    using assms by (auto simp: jobs_NewManager_def Let_def split: if_splits)
  ultimately show ?thesis by (simp add: jobs_inv_def inv_parts running_of_def jobs_Start_def new_sys_def)
qed

text \<open>Every step of the manager is a step of the specification, or none.\<close>

lemma job_step_refines:
  assumes "job_step s t" "jobs_inv s"
  shows "fifo_step\<^sup>=\<^sup>= (jobs_abs s) (jobs_abs t)"
  using assms(1)
proof (cases rule: job_step.cases)
  case (submit nano now arg m j)
  then show ?thesis using fifo_step.accept [of "jobs_abs s" j] by (simp add: jobs_abs_def)
next
  case (take_job p q j rest now)
  note iq = jobs_inv_queue [OF assms(2) take_job(3)]
  have "j \<in> set (of_priority p (js_accepted s))" using iq take_job(4) by simp
  then have "j_Priority j = p" by (simp add: of_priority_def)
  then have "of_priority (j_Priority j) (js_accepted s) = of_priority (j_Priority j) (js_started s) @ j # rest"
    using iq take_job(4) by simp
  then show ?thesis using take_job fifo_step.begin_job [of j "jobs_abs s" rest] by (simp add: jobs_abs_def)
next
  case (complete j now j' m)
  have "mset (map job_core (js_started s)) - mset (map job_core (js_finished s)) = image_mset job_core (js_running s)"
    using jobs_inv_cores [OF assms(2)] by (metis add_diff_cancel_right')
  then have "job_core j' \<in># mset (map job_core (js_started s)) - mset (map job_core (js_finished s))"
    using complete(2) executeJob_end_job [OF complete(3)] by auto
  then show ?thesis
    using complete fifo_step.end_job [of j' "jobs_abs s"] executeJob_end_job [OF complete(3)]
    by (simp add: jobs_abs_def)
qed (simp_all add: jobs_abs_def)

definition jobs_reachable :: "jobs_config option \<Rightarrow> job_sys \<Rightarrow> bool" where
  "jobs_reachable config s \<longleftrightarrow>
     (\<exists>m. jobs_NewManager config = Some m \<and> job_step\<^sup>*\<^sup>* (jobs_Start (new_sys m)) s)"

lemma jobs_reachable_inv: "jobs_reachable config s \<Longrightarrow> jobs_inv s"
  using jobs_steps_inv new_sys_inv by (auto simp: jobs_reachable_def)

text \<open>What the specification gives: in each priority the started jobs are a prefix of the accepted ones.\<close>

definition fifo_inv :: "fifo_spec \<Rightarrow> bool" where
  "fifo_inv s \<longleftrightarrow> (\<forall>p. \<exists>rest. of_priority p (fs_accepted s) = of_priority p (fs_started s) @ rest) \<and>
     mset (map job_core (fs_finished s)) \<subseteq># mset (map job_core (fs_started s)) \<and>
     (\<forall>j \<in> set (fs_finished s). j_Error j = runJob j)"

lemma fifo_step_inv: "fifo_step s t \<Longrightarrow> fifo_inv s \<Longrightarrow> fifo_inv t"
proof (induction rule: fifo_step.induct)
  case (accept s j)
  then show ?case unfolding fifo_inv_def by (auto) (metis append_assoc)+
next
  case (begin_job j s rest)
  have "\<exists>r. of_priority p (fs_accepted s) = of_priority p (fs_started s @ [j]) @ r" for p
    using begin_job by (cases "p = j_Priority j") (auto simp: fifo_inv_def)
  then show ?case using begin_job(2) by (auto simp: fifo_inv_def intro: subset_mset.order_trans)
next
  case (end_job j s)
  then have "{#job_core j#} \<subseteq># mset (map job_core (fs_started s)) - mset (map job_core (fs_finished s))"
    by simp
  then have "add_mset (job_core j) (mset (map job_core (fs_finished s))) \<subseteq># mset (map job_core (fs_started s))"
    using end_job(3) unfolding fifo_inv_def
    by (metis add_mset_add_single subset_mset.le_diff_conv2 union_commute)
  then show ?case using end_job by (auto simp: fifo_inv_def)
qed

lemma fifo_steps_inv: "fifo_step\<^sup>*\<^sup>* s t \<Longrightarrow> fifo_inv s \<Longrightarrow> fifo_inv t"
  by (induction rule: rtranclp_induct) (auto dest: fifo_step_inv)

lemma jobs_steps_refine:
  assumes "jobs_NewManager config = Some m" "job_step\<^sup>*\<^sup>* (jobs_Start (new_sys m)) s"
  shows "fifo_step\<^sup>*\<^sup>* (jobs_abs (jobs_Start (new_sys m))) (jobs_abs s)"
  using assms(2)
proof (induction rule: rtranclp_induct)
  case (step t u)
  have "fifo_step\<^sup>=\<^sup>= (jobs_abs t) (jobs_abs u)"
    by (rule job_step_refines [OF step(2) jobs_steps_inv [OF step(1) new_sys_inv [OF assms(1)]]])
  with step(3) show ?case by auto
qed simp

lemma jobs_abs_start [simp]: "jobs_abs (jobs_Start (new_sys m)) = \<lparr>fs_accepted = [], fs_started = [], fs_finished = []\<rparr>"
  by (simp add: jobs_abs_def jobs_Start_def new_sys_def)

lemma jobs_reachable_fifo: "jobs_reachable config s \<Longrightarrow> fifo_inv (jobs_abs s)"
  using jobs_steps_refine fifo_steps_inv by (fastforce simp: jobs_reachable_def fifo_inv_def)

subsection \<open>Properties\<close>

text \<open>C12: The job manager implements its specification. Whatever callers, workers and \<open>Stop\<close> interleave, every
  history of the manager is a history of the pool with one first-in first-out queue per priority: accepted
  jobs of one priority start in the order of acceptance and each at most once, and a job finishes at most
  once, after it started, with the error, nil-function error or recovered panic of its function.\<close>

theorem jobs_refine_fifo_pools:
  assumes "jobs_reachable config s"
  shows "fifo_step\<^sup>*\<^sup>* \<lparr>fs_accepted = [], fs_started = [], fs_finished = []\<rparr> (jobs_abs s) \<and> fifo_inv (jobs_abs s)"
  using assms jobs_reachable_fifo [OF assms] jobs_steps_refine by (fastforce simp: jobs_reachable_def)

lemma fifo_inv_mset:
  assumes "fifo_inv s"
  shows "mset (fs_started s) \<subseteq># mset (fs_accepted s)"
proof (rule mset_subset_eqI)
  fix j
  have c: "count (mset xs) j = count (mset (of_priority (j_Priority j) xs)) j" for xs
    by (simp add: of_priority_def)
  obtain rest where "of_priority (j_Priority j) (fs_accepted s) = of_priority (j_Priority j) (fs_started s) @ rest"
    using assms by (auto simp: fifo_inv_def)
  then show "count (mset (fs_started s)) j \<le> count (mset (fs_accepted s)) j"
    using c [of "fs_started s"] c [of "fs_accepted s"] by simp
qed

lemma fifo_inv_ids:
  assumes "fifo_inv s"
  shows "mset (map j_ID (fs_finished s)) \<subseteq># mset (map j_ID (fs_accepted s))"
proof -
  have id: "image_mset j_ID (image_mset job_core M) = image_mset j_ID M" for M
    by (simp add: multiset.map_comp comp_def job_core_def)
  have "image_mset j_ID (mset (map job_core (fs_finished s))) \<subseteq># image_mset j_ID (mset (map job_core (fs_started s)))"
    using assms by (intro image_mset_subseteq_mono) (simp add: fifo_inv_def)
  then have "mset (map j_ID (fs_finished s)) \<subseteq># mset (map j_ID (fs_started s))" by (simp add: id)
  also have "\<dots> \<subseteq># mset (map j_ID (fs_accepted s))"
    using image_mset_subseteq_mono [OF fifo_inv_mset [OF assms], of j_ID] by simp
  finally show ?thesis .
qed

lemma card_ids_left:
  assumes "distinct xs" "mset ys \<subseteq># mset xs"
  shows "card (set xs - set ys) = length xs - length ys"
proof -
  have "count (mset ys) a = (if a \<in> set ys then 1 else 0)" for a
  proof -
    have "count (mset ys) a \<le> count (mset xs) a" using assms(2) by (rule mset_subset_eq_count)
    moreover have "count (mset xs) a \<le> 1" using assms(1) by (simp add: distinct_count_atmost_1)
    moreover have "a \<in> set ys \<Longrightarrow> count (mset ys) a \<noteq> 0" by simp
    moreover have "a \<notin> set ys \<Longrightarrow> count (mset ys) a = 0" by (simp add: count_mset_0_iff)
    ultimately show ?thesis by (smt (verit) le_antisym le_trans less_one not_le)
  qed
  then have "distinct ys" by (simp add: distinct_count_atmost_1)
  moreover have "set ys \<subseteq> set xs" using assms(2) by (metis set_mset_mono set_mset_mset)
  ultimately show ?thesis using assms(1) by (simp add: card_Diff_subset distinct_card)
qed

text \<open>The bounds and counters of the job manager. In every reachable state no pool runs more jobs than its
  configured workers and no queue exceeds its size; the processed and failed totals count exactly the
  finished jobs and those that finished with an error; and if the accepted jobs have distinct ids, the
  number of active jobs is that of the accepted jobs that have not finished. (With a reused id it is
  smaller: the map keeps one entry.)\<close>

theorem jobs_bounds_and_counters:
  assumes "jobs_reachable config s"
  shows "(\<forall>p. running_of p s \<le> workers_of p (js_mgr s))
    \<and> (\<forall>p q. queue_of p (js_mgr s) = Some q \<longrightarrow> length (buf q) \<le> capacity q)
    \<and> TotalProcessed (jobs_GetStats (js_mgr s)) = length (js_finished s)
    \<and> TotalFailed (jobs_GetStats (js_mgr s)) = length (filter (\<lambda>j. runJob j \<noteq> None) (js_finished s))
    \<and> (distinct (map j_ID (js_accepted s)) \<longrightarrow>
        ActiveJobs (jobs_GetStats (js_mgr s)) = length (js_accepted s) - length (js_finished s))"
proof -
  have inv: "jobs_inv s" by (rule jobs_reachable_inv [OF assms])
  then have i: "inv_queues s" "inv_totals s" "inv_pool s" "inv_active s" by (simp_all add: jobs_inv_def)
  have spec: "fifo_inv (jobs_abs s)" by (rule jobs_reachable_fifo [OF assms])
  have "running_of p s \<le> workers_of p (js_mgr s)" for p
    using i(3) unfolding inv_pool_def by (meson le_add2 order_trans)
  moreover have "filter (\<lambda>j. j_Error j \<noteq> None) (js_finished s) = filter (\<lambda>j. runJob j \<noteq> None) (js_finished s)"
    using spec by (intro filter_cong) (simp_all add: fifo_inv_def jobs_abs_def)
  moreover have "card (dom (activeJobs (js_mgr s))) = length (js_accepted s) - length (js_finished s)"
    if d: "distinct (map j_ID (js_accepted s))"
    using i(4) d card_ids_left [OF d, of "map j_ID (js_finished s)"] fifo_inv_ids [OF spec]
    by (simp add: inv_active_def jobs_abs_def)
  ultimately show ?thesis
    using i(2) jobs_inv_queue [OF inv] by (auto simp: inv_totals_def jobs_GetStats_def)
qed

text \<open>After the cancellation every idle worker of a pool may end.\<close>

lemma pool_quits:
  "jm_canceled (js_mgr s) \<Longrightarrow> job_step\<^sup>*\<^sup>* s (s\<lparr>js_idle := (js_idle s)(p := 0)\<rparr>)"
proof (induction "js_idle s p" arbitrary: s)
  case 0
  then have "(js_idle s)(p := 0) = js_idle s" by (simp add: fun_upd_idem)
  then have "s\<lparr>js_idle := (js_idle s)(p := 0)\<rparr> = s" by simp
  then show ?case by (simp del: fun_upd_apply)
next
  case (Suc n)
  let ?t = "s\<lparr>js_idle := (js_idle s)(p := js_idle s p - 1)\<rparr>"
  have "job_step s ?t" using Suc by (intro job_step.quit) auto
  moreover have "job_step\<^sup>*\<^sup>* ?t (?t\<lparr>js_idle := (js_idle ?t)(p := 0)\<rparr>)"
    using Suc(1) [of ?t] Suc(2,3) by simp
  ultimately show ?case by simp
qed

definition sample_job :: job where
  "sample_job = \<lparr>j_ID = ''a'', j_Name = ''n'', j_Priority = PriorityLive, j_Fn = Some (Return ()), j_CreatedAt = 1,
     j_StartedAt = None, j_CompletedAt = None, j_Error = None\<rparr>"

definition sample_manager :: job_manager where
  "sample_manager = the (jobs_NewManager None)"

lemma sample_manager_new: "jobs_NewManager None = Some sample_manager"
  by (simp add: sample_manager_def jobs_NewManager_def jobs_DefaultConfig_def)

definition sample_submitted :: job_manager where
  "sample_submitted = fst (jobs_Submit 0 1 (Some sample_job) sample_manager)"

lemma sample_submit: "jobs_Submit 0 1 (Some sample_job) sample_manager = (sample_submitted, Ok sample_job)"
  "\<not> jm_stopped sample_submitted" "dom (activeJobs sample_submitted) = {''a''}"
  by (simp_all add: sample_submitted_def sample_manager_def jobs_NewManager_def jobs_DefaultConfig_def Let_def
      jobs_Submit_def sample_job_def try_send_def)

definition sample_accepted :: job_sys where
  "sample_accepted = (jobs_Start (new_sys sample_manager))\<lparr>js_mgr := sample_submitted, js_accepted := [sample_job]\<rparr>"

lemma sample_accepted_reachable: "jobs_reachable None sample_accepted"
proof -
  have "job_step (jobs_Start (new_sys sample_manager)) sample_accepted"
    using job_step.submit [of 0 1 "Some sample_job" "jobs_Start (new_sys sample_manager)" sample_submitted sample_job]
      sample_submit(1)
    by (simp add: sample_accepted_def jobs_Start_def new_sys_def)
  then show ?thesis using sample_manager_new by (auto simp: jobs_reachable_def)
qed

definition sample_stopped :: job_sys where
  "sample_stopped = sample_accepted\<lparr>js_mgr := jobs_Stop sample_submitted, js_idle := (\<lambda>p. 0)\<rparr>"

lemma all_quit:
  assumes "jm_canceled (js_mgr s)" "\<And>n. js_idle s (PriorityOther n) = 0"
  shows "job_step\<^sup>*\<^sup>* s (s\<lparr>js_idle := (\<lambda>p. 0)\<rparr>)"
proof -
  define quit where "quit p t = t\<lparr>js_idle := (js_idle t)(p := 0)\<rparr>" for p and t :: job_sys
  have q: "jm_canceled (js_mgr t) \<Longrightarrow> job_step\<^sup>*\<^sup>* t (quit p t) \<and> jm_canceled (js_mgr (quit p t))" for p t
    using pool_quits [of t p] by (simp add: quit_def)
  define s1 where "s1 = quit PriorityCritical s"
  define s2 where "s2 = quit PriorityLive s1"
  define s3 where "s3 = quit PriorityBackground s2"
  have 1: "job_step\<^sup>*\<^sup>* s s1" "jm_canceled (js_mgr s1)" using q assms(1) by (simp_all add: s1_def)
  have 2: "job_step\<^sup>*\<^sup>* s1 s2" "jm_canceled (js_mgr s2)" using q 1(2) by (simp_all add: s2_def)
  have 3: "job_step\<^sup>*\<^sup>* s2 s3" "jm_canceled (js_mgr s3)" using q 2(2) by (simp_all add: s3_def)
  have 4: "job_step\<^sup>*\<^sup>* s3 (quit PriorityAnalytics s3)" using q 3(2) by simp
  have "js_idle (quit PriorityAnalytics s3) p = 0" for p
    using assms(2) by (cases p) (simp_all add: quit_def s1_def s2_def s3_def)
  then have "js_idle (quit PriorityAnalytics s3) = (\<lambda>p. 0)" by (rule ext)
  then have "quit PriorityAnalytics s3 = s\<lparr>js_idle := (\<lambda>p. 0)\<rparr>" by (simp add: quit_def s1_def s2_def s3_def)
  with 1(1) 2(1) 3(1) 4 show ?thesis by (metis rtranclp_trans)
qed

lemma sample_stopped_reachable: "jobs_reachable None sample_stopped"
proof -
  let ?s = "sample_accepted\<lparr>js_mgr := jobs_Stop sample_submitted\<rparr>"
  have stop: "job_step sample_accepted ?s"
    using job_step.stop [of sample_accepted] by (simp add: sample_accepted_def)
  have "jm_canceled (jobs_Stop sample_submitted)" using sample_submit(2) by (simp add: jobs_Stop_def del: jobs_Stop_frame)
  then have "job_step\<^sup>*\<^sup>* ?s (?s\<lparr>js_idle := (\<lambda>p. 0)\<rparr>)"
    by (intro all_quit) (simp_all del: jobs_Stop_frame add: sample_accepted_def jobs_Start_def new_sys_def)
  then have "job_step\<^sup>*\<^sup>* sample_accepted sample_stopped"
    using stop by (simp add: sample_stopped_def converse_rtranclp_into_rtranclp)
  then show ?thesis using sample_accepted_reachable unfolding jobs_reachable_def by (meson rtranclp_trans)
qed

text \<open>Stopping drops accepted jobs. There is a run in which \<open>Submit\<close> accepts a job, \<open>Stop\<close> is called and
  returns because all workers have ended, and the job was never started; it still counts as active.\<close>

theorem stop_drops_accepted_jobs:
  "\<exists>s j. jobs_reachable None s \<and> stop_returned s \<and> js_accepted s = [j] \<and> js_started s = [] \<and>
     ActiveJobs (jobs_GetStats (js_mgr s)) = 1"
proof (intro exI conjI)
  show "jobs_reachable None sample_stopped" by (rule sample_stopped_reachable)
  show "stop_returned sample_stopped"
    by (simp add: stop_returned_def sample_stopped_def sample_accepted_def jobs_Start_def new_sys_def)
  show "js_accepted sample_stopped = [sample_job]" by (simp add: sample_stopped_def sample_accepted_def)
  show "js_started sample_stopped = []" by (simp add: sample_stopped_def sample_accepted_def jobs_Start_def new_sys_def)
  show "ActiveJobs (jobs_GetStats (js_mgr sample_stopped)) = 1"
    by (simp add: jobs_GetStats_def sample_stopped_def sample_submit(3))
qed

theorem jobs_refine_fifo_pools_witness:
  "fifo_step\<^sup>*\<^sup>* \<lparr>fs_accepted = [], fs_started = [], fs_finished = []\<rparr> (jobs_abs sample_accepted)"
  using jobs_refine_fifo_pools [OF sample_accepted_reachable] by blast

theorem jobs_bounds_and_counters_witness:
  "ActiveJobs (jobs_GetStats (js_mgr sample_accepted)) = 1"
  using jobs_bounds_and_counters [OF sample_accepted_reachable]
  by (simp add: sample_accepted_def jobs_Start_def new_sys_def)

end
