(* ===== verification/Event_Bus.thy ===== *)
theory Event_Bus
  imports Channel "HOL-Library.Word"
begin

text \<open>
  The engine's event bus, \<open>internal/engine/eventbus.go\<close>. A subscription owns a buffered channel; a
  goroutine per subscription hands the buffered events to the subscriber. \<open>Publish\<close> copies the
  subscriptions of the event's type under the read lock and then sends to one channel after the
  other without it, so subscriptions can be removed, and their channels closed, in between. Channels
  live in a heap; the heap index of a subscription's channel also stands for its goroutine. A panic
  of the subscriber is recovered by \<open>safeOnEvent\<close>, so handing over an event is one step.
\<close>

datatype event_type =
    EventTypeMarketData | EventTypeTicker | EventTypeSignal | EventTypeOrderIntent | EventTypeOrderCreated
  | EventTypeOrderSubmitted | EventTypeOrderFilled | EventTypeOrderPartial | EventTypeOrderCanceled
  | EventTypeOrderRejected | EventTypePositionUpdate | EventTypeBalanceUpdate | EventTypeRiskViolation
  | EventTypeRiskWarning | EventTypeStateTransition | EventTypeAlert | EventTypeError | EventTypeOther string

datatype qos = QoS0 | QoS1 | QoSOther int

text \<open>An event: its type and quality of service, and what it carries.\<close>

record 'e event =
  ev_type :: event_type
  ev_qos :: qos
  ev_body :: 'e

record subscription =
  sb_id :: "64 word"
  sb_qos :: qos
  sb_ch :: nat

record 'e event_bus =
  eb_subscribers :: "event_type \<rightharpoonup> (64 word \<rightharpoonup> subscription)"
  eb_nextID :: "64 word"
  eb_canceled :: bool
  eb_dropped :: "64 word"
  eb_closed :: bool
  eb_chans :: "nat \<Rightarrow> 'e event chan"
  eb_sub_canceled :: "nat \<Rightarrow> bool"
  eb_alloc :: nat

definition NewEventBus :: "'e event_bus" where
  "NewEventBus = \<lparr>eb_subscribers = Map.empty, eb_nextID = 1, eb_canceled = False, eb_dropped = 0, eb_closed = False,
     eb_chans = (\<lambda>c. make_chan 0), eb_sub_canceled = (\<lambda>c. False), eb_alloc = 0\<rparr>"

definition buffer_size :: "qos \<Rightarrow> nat" where
  "buffer_size q = (if q = QoS0 then 10 else 1000)"

text \<open>The value \<open>0\<close> means that the bus is closed. The channel of the new subscription is \<open>eb_alloc\<close>.\<close>

definition eb_Subscribe :: "event_type \<Rightarrow> qos \<Rightarrow> 'e event_bus \<Rightarrow> 'e event_bus \<times> 64 word" where
  "eb_Subscribe et q eb =
     (if eb_closed eb \<or> eb_canceled eb then (eb, 0)
      else
        let sid = eb_nextID eb + 1;
            c = eb_alloc eb;
            sub = \<lparr>sb_id = sid, sb_qos = q, sb_ch = c\<rparr>;
            subs = (case eb_subscribers eb et of None \<Rightarrow> Map.empty | Some m \<Rightarrow> m)
        in (eb\<lparr>eb_nextID := sid, eb_subscribers := (eb_subscribers eb)(et \<mapsto> subs(sid \<mapsto> sub)),
               eb_chans := (eb_chans eb)(c := make_chan (buffer_size q)),
               eb_sub_canceled := (eb_sub_canceled eb)(c := False), eb_alloc := c + 1\<rparr>, sid))"

text \<open>\<open>stopOnce\<close>: the first stop of a subscription cancels it and closes its channel.\<close>

definition stop_sub :: "subscription \<Rightarrow> 'e event_bus \<Rightarrow> 'e event_bus" where
  "stop_sub sub eb =
     eb\<lparr>eb_sub_canceled := (eb_sub_canceled eb)(sb_ch sub := True),
        eb_chans := (eb_chans eb)(sb_ch sub := (eb_chans eb (sb_ch sub))\<lparr>closed := True\<rparr>)\<rparr>"

definition eb_Unsubscribe :: "event_type \<Rightarrow> 64 word \<Rightarrow> 'e event_bus \<Rightarrow> 'e event_bus" where
  "eb_Unsubscribe et sid eb =
     (case eb_subscribers eb et of
        None \<Rightarrow> eb
      | Some subs \<Rightarrow>
          (case subs sid of
             None \<Rightarrow> eb
           | Some sub \<Rightarrow>
               (let subs' = subs(sid := None) in
                (stop_sub sub eb)\<lparr>eb_subscribers :=
                   (eb_subscribers eb)(et := (if subs' = Map.empty then None else Some subs'))\<rparr>)))"

text \<open>The subscriptions that \<open>Publish\<close> copies; Go's map gives them in an arbitrary order.\<close>

definition copied_subs :: "event_type \<Rightarrow> 'e event_bus \<Rightarrow> subscription list \<Rightarrow> bool" where
  "copied_subs et eb subs \<longleftrightarrow> distinct subs \<and>
     set subs = (case eb_subscribers eb et of None \<Rightarrow> {} | Some m \<Rightarrow> ran m)"

definition publish_accepted :: "'e event_bus \<Rightarrow> bool" where
  "publish_accepted eb \<longleftrightarrow> \<not> eb_closed eb \<and> \<not> eb_canceled eb"

text \<open>
  One send of \<open>Publish\<close>. \<open>SendWaits\<close>: the publisher is blocked until there is room or the context of
  the bus is done, when \<open>Publish\<close> returns; \<open>SendCrash\<close>: send on a closed channel.
\<close>

datatype 'e send_result = SendDone "'e event_bus" | SendDropped "'e event_bus" | SendWaits | SendCrash

definition send_one :: "'e event \<Rightarrow> subscription \<Rightarrow> 'e event_bus \<Rightarrow> 'e send_result" where
  "send_one e sub eb =
     (case try_send e (eb_chans eb (sb_ch sub)) of
        SendPanic \<Rightarrow> SendCrash
      | Sent ch \<Rightarrow> SendDone (eb\<lparr>eb_chans := (eb_chans eb)(sb_ch sub := ch)\<rparr>)
      | WouldBlock \<Rightarrow>
          if sb_qos sub = QoS0 then SendDropped (eb\<lparr>eb_dropped := eb_dropped eb + 1\<rparr>)
          else SendWaits)"

text \<open>\<open>Shutdown\<close> up to the wait for the goroutines.\<close>

definition all_subs :: "'e event_bus \<Rightarrow> subscription set" where
  "all_subs eb = {sub. \<exists>et m sid. eb_subscribers eb et = Some m \<and> m sid = Some sub}"

definition eb_Shutdown :: "'e event_bus \<Rightarrow> 'e event_bus" where
  "eb_Shutdown eb =
     (if eb_closed eb then eb
      else eb\<lparr>eb_closed := True, eb_canceled := True, eb_subscribers := Map.empty,
              eb_sub_canceled := (\<lambda>c. eb_sub_canceled eb c \<or> c \<in> sb_ch ` all_subs eb),
              eb_chans := (\<lambda>c. if c \<in> sb_ch ` all_subs eb then (eb_chans eb c)\<lparr>closed := True\<rparr> else eb_chans eb c)\<rparr>)"

definition GetDroppedEventCount :: "'e event_bus \<Rightarrow> 64 word" where
  "GetDroppedEventCount eb = eb_dropped eb"

subsection \<open>Publishers, subscribers and goroutines interleaved\<close>

text \<open>
  The bus, the publications in progress with the subscriptions still to be served, and for every
  channel the history: the events offered to it, those that entered it and those handed to the
  subscriber. \<open>bs_alive\<close> tells which delivery goroutines run, \<open>bs_qos\<close> the quality of a channel's
  subscription. A panic ends the process.
\<close>

record 'e bus_sys =
  bs_bus :: "'e event_bus"
  bs_pubs :: "('e event \<times> subscription list) multiset"
  bs_offered :: "nat \<Rightarrow> 'e event list"
  bs_sent :: "nat \<Rightarrow> 'e event list"
  bs_delivered :: "nat \<Rightarrow> 'e event list"
  bs_alive :: "nat \<Rightarrow> bool"
  bs_qos :: "nat \<Rightarrow> qos"
  bs_panicked :: bool

definition bus_start :: "'e bus_sys" where
  "bus_start = \<lparr>bs_bus = NewEventBus, bs_pubs = {#}, bs_offered = (\<lambda>c. []), bs_sent = (\<lambda>c. []),
     bs_delivered = (\<lambda>c. []), bs_alive = (\<lambda>c. False), bs_qos = (\<lambda>c. QoS0), bs_panicked = False\<rparr>"

definition logged :: "nat \<Rightarrow> 'a \<Rightarrow> (nat \<Rightarrow> 'a list) \<Rightarrow> nat \<Rightarrow> 'a list" where
  "logged c x h = h(c := h c @ [x])"

inductive bus_step :: "'e bus_sys \<Rightarrow> 'e bus_sys \<Rightarrow> bool" where
  subscribe: "\<not> bs_panicked s \<Longrightarrow> eb_Subscribe et q (bs_bus s) = (eb, sid) \<Longrightarrow> publish_accepted (bs_bus s) \<Longrightarrow>
     bus_step s (s\<lparr>bs_bus := eb, bs_alive := (bs_alive s)(eb_alloc (bs_bus s) := True),
       bs_qos := (bs_qos s)(eb_alloc (bs_bus s) := q)\<rparr>)"
| unsubscribe: "\<not> bs_panicked s \<Longrightarrow> bus_step s (s\<lparr>bs_bus := eb_Unsubscribe et sid (bs_bus s)\<rparr>)"
| publish: "\<not> bs_panicked s \<Longrightarrow> publish_accepted (bs_bus s) \<Longrightarrow> copied_subs (ev_type e) (bs_bus s) subs \<Longrightarrow>
     bus_step s (s\<lparr>bs_pubs := add_mset (e, subs) (bs_pubs s)\<rparr>)"
| published: "\<not> bs_panicked s \<Longrightarrow> (e, []) \<in># bs_pubs s \<Longrightarrow> bus_step s (s\<lparr>bs_pubs := bs_pubs s - {#(e, [])#}\<rparr>)"
| send: "\<not> bs_panicked s \<Longrightarrow> (e, sub # subs) \<in># bs_pubs s \<Longrightarrow> send_one e sub (bs_bus s) = SendDone eb \<Longrightarrow>
     bus_step s (s\<lparr>bs_bus := eb, bs_pubs := add_mset (e, subs) (bs_pubs s - {#(e, sub # subs)#}),
       bs_offered := logged (sb_ch sub) e (bs_offered s), bs_sent := logged (sb_ch sub) e (bs_sent s)\<rparr>)"
| drop: "\<not> bs_panicked s \<Longrightarrow> (e, sub # subs) \<in># bs_pubs s \<Longrightarrow> send_one e sub (bs_bus s) = SendDropped eb \<Longrightarrow>
     bus_step s (s\<lparr>bs_bus := eb, bs_pubs := add_mset (e, subs) (bs_pubs s - {#(e, sub # subs)#}),
       bs_offered := logged (sb_ch sub) e (bs_offered s)\<rparr>)"
| abandon: "\<not> bs_panicked s \<Longrightarrow> (e, sub # subs) \<in># bs_pubs s \<Longrightarrow> eb_canceled (bs_bus s) \<Longrightarrow> sb_qos sub \<noteq> QoS0 \<Longrightarrow>
     bus_step s (s\<lparr>bs_pubs := bs_pubs s - {#(e, sub # subs)#}\<rparr>)"
| crash: "\<not> bs_panicked s \<Longrightarrow> (e, sub # subs) \<in># bs_pubs s \<Longrightarrow> send_one e sub (bs_bus s) = SendCrash \<Longrightarrow>
     bus_step s (s\<lparr>bs_panicked := True\<rparr>)"
| deliver: "\<not> bs_panicked s \<Longrightarrow> bs_alive s c \<Longrightarrow> buf (eb_chans (bs_bus s) c) = e # rest \<Longrightarrow>
     bus_step s (s\<lparr>bs_bus := (bs_bus s)\<lparr>eb_chans := (eb_chans (bs_bus s))(c := (eb_chans (bs_bus s) c)\<lparr>buf := rest\<rparr>)\<rparr>,
       bs_delivered := logged c e (bs_delivered s)\<rparr>)"
| deliver_ends: "\<not> bs_panicked s \<Longrightarrow> bs_alive s c \<Longrightarrow> buf (eb_chans (bs_bus s) c) = [] \<Longrightarrow>
     eb_sub_canceled (bs_bus s) c \<or> eb_canceled (bs_bus s) \<or> closed (eb_chans (bs_bus s) c) \<Longrightarrow>
     bus_step s (s\<lparr>bs_alive := (bs_alive s)(c := False)\<rparr>)"
| shutdown: "\<not> bs_panicked s \<Longrightarrow> bus_step s (s\<lparr>bs_bus := eb_Shutdown (bs_bus s)\<rparr>)"
| parent_canceled: "\<not> bs_panicked s \<Longrightarrow> bus_step s (s\<lparr>bs_bus := (bs_bus s)\<lparr>eb_canceled := True\<rparr>\<rparr>)"

definition bus_reachable :: "'e bus_sys \<Rightarrow> bool" where
  "bus_reachable s \<longleftrightarrow> bus_step\<^sup>*\<^sup>* bus_start s"

subsection \<open>Invariants\<close>

text \<open>Every subscription in the table or in a publisher's copy belongs to a channel of its quality.\<close>

definition sub_known :: "'e bus_sys \<Rightarrow> subscription \<Rightarrow> bool" where
  "sub_known s sub \<longleftrightarrow> sb_ch sub < eb_alloc (bs_bus s) \<and> bs_qos s (sb_ch sub) = sb_qos sub"

definition inv_subs :: "'e bus_sys \<Rightarrow> bool" where
  "inv_subs s \<longleftrightarrow> (\<forall>sub \<in> all_subs (bs_bus s). sub_known s sub) \<and>
     (\<forall>(e, subs) \<in># bs_pubs s. \<forall>sub \<in> set subs. sub_known s sub)"

text \<open>A channel is a queue: what entered it is what was handed over and what is still buffered.\<close>

definition inv_queue :: "'e bus_sys \<Rightarrow> nat \<Rightarrow> bool" where
  "inv_queue s c \<longleftrightarrow> bs_sent s c = bs_delivered s c @ buf (eb_chans (bs_bus s) c) \<and>
     length (buf (eb_chans (bs_bus s) c)) \<le> buffer_size (bs_qos s c) \<and>
     capacity (eb_chans (bs_bus s) c) \<le> buffer_size (bs_qos s c)"

definition inv_offers :: "'e bus_sys \<Rightarrow> nat \<Rightarrow> bool" where
  "inv_offers s c \<longleftrightarrow> (if bs_qos s c = QoS0 then length (bs_sent s c) \<le> length (bs_offered s c) \<and>
       set (bs_sent s c) \<subseteq> set (bs_offered s c)
     else bs_sent s c = bs_offered s c)"

definition inv_fresh :: "'e bus_sys \<Rightarrow> nat \<Rightarrow> bool" where
  "inv_fresh s c \<longleftrightarrow> (eb_alloc (bs_bus s) \<le> c \<longrightarrow>
     bs_sent s c = [] \<and> bs_offered s c = [] \<and> bs_delivered s c = [] \<and> buf (eb_chans (bs_bus s) c) = [] \<and>
     bs_qos s c = QoS0 \<and> \<not> bs_alive s c)"

definition dropped_total :: "'e bus_sys \<Rightarrow> nat" where
  "dropped_total s = (\<Sum>c < eb_alloc (bs_bus s). length (bs_offered s c) - length (bs_sent s c))"

definition inv_crash :: "'e bus_sys \<Rightarrow> bool" where
  "inv_crash s \<longleftrightarrow> (bs_panicked s \<longrightarrow> (\<exists>c < eb_alloc (bs_bus s). closed (eb_chans (bs_bus s) c)))"

text \<open>The invariant of one channel, and that of the bus.\<close>

definition chan_inv :: "'e bus_sys \<Rightarrow> nat \<Rightarrow> bool" where
  "chan_inv s c \<longleftrightarrow> inv_queue s c \<and> inv_offers s c \<and> inv_fresh s c"

definition bus_inv :: "'e bus_sys \<Rightarrow> bool" where
  "bus_inv s \<longleftrightarrow> inv_subs s \<and> (\<forall>c. chan_inv s c) \<and>
     eb_dropped (bs_bus s) = of_nat (dropped_total s) \<and> inv_crash s"

lemmas bus_inv_parts = chan_inv_def inv_queue_def inv_offers_def inv_fresh_def

lemma logged_apply [simp]: "logged c x h c' = (if c' = c then h c @ [x] else h c')"
  by (simp add: logged_def)

lemma bus_start_inv: "bus_inv bus_start"
  by (simp add: bus_inv_def bus_inv_parts inv_subs_def inv_crash_def bus_start_def NewEventBus_def all_subs_def dropped_total_def)

text \<open>The invariant of a channel reads only the histories, the buffer and the quality of that channel.\<close>

lemma inv_queue_same:
  assumes "inv_queue s c" "bs_sent t c = bs_sent s c" "bs_delivered t c = bs_delivered s c" "bs_qos t c = bs_qos s c"
    "buf (eb_chans (bs_bus t) c) = buf (eb_chans (bs_bus s) c)" "capacity (eb_chans (bs_bus t) c) = capacity (eb_chans (bs_bus s) c)"
  shows "inv_queue t c"
  using assms(1) unfolding inv_queue_def assms(2-) .

lemma inv_offers_same:
  assumes "inv_offers s c" "bs_sent t c = bs_sent s c" "bs_offered t c = bs_offered s c" "bs_qos t c = bs_qos s c"
  shows "inv_offers t c"
  using assms(1) unfolding inv_offers_def assms(2-) .

lemma inv_fresh_same:
  assumes "inv_fresh s c" "bs_sent t c = bs_sent s c" "bs_offered t c = bs_offered s c" "bs_delivered t c = bs_delivered s c"
    "buf (eb_chans (bs_bus t) c) = buf (eb_chans (bs_bus s) c)" "bs_qos t c = bs_qos s c" "bs_alive t c = bs_alive s c"
    "eb_alloc (bs_bus s) \<le> eb_alloc (bs_bus t)"
  shows "inv_fresh t c"
  using assms(1,8) unfolding inv_fresh_def assms(2-7) by (meson le_trans)

lemma chan_inv_same:
  assumes "chan_inv s c" "bs_sent t c = bs_sent s c" "bs_offered t c = bs_offered s c" "bs_delivered t c = bs_delivered s c"
    "buf (eb_chans (bs_bus t) c) = buf (eb_chans (bs_bus s) c)" "capacity (eb_chans (bs_bus t) c) = capacity (eb_chans (bs_bus s) c)"
    "bs_qos t c = bs_qos s c" "bs_alive t c = bs_alive s c" "eb_alloc (bs_bus s) \<le> eb_alloc (bs_bus t)"
  shows "chan_inv t c"
proof -
  have s: "inv_queue s c" "inv_offers s c" "inv_fresh s c" using assms(1) by (simp_all add: chan_inv_def)
  have "inv_queue t c" by (rule inv_queue_same [OF s(1)]) (simp_all only: assms(2-))
  moreover have "inv_offers t c" by (rule inv_offers_same [OF s(2)]) (simp_all only: assms(2-))
  moreover have "inv_fresh t c" by (rule inv_fresh_same [OF s(3)]) (simp_all only: assms(2-))
  ultimately show ?thesis by (simp add: chan_inv_def)
qed

text \<open>Operations that leave the channels' contents, the allocation and the history alone.\<close>

lemma bus_inv_same:
  assumes "bus_inv s" "all_subs eb \<subseteq> all_subs (bs_bus s)" "eb_alloc eb = eb_alloc (bs_bus s)" "eb_dropped eb = eb_dropped (bs_bus s)"
    and "\<And>c. buf (eb_chans eb c) = buf (eb_chans (bs_bus s) c) \<and> capacity (eb_chans eb c) = capacity (eb_chans (bs_bus s) c) \<and>
        (closed (eb_chans (bs_bus s) c) \<longrightarrow> closed (eb_chans eb c))"
  shows "bus_inv (s\<lparr>bs_bus := eb\<rparr>)"
proof -
  have k: "sub_known (s\<lparr>bs_bus := eb\<rparr>) sub = sub_known s sub" for sub
    by (simp add: sub_known_def assms(3))
  have "inv_subs (s\<lparr>bs_bus := eb\<rparr>)" using assms(1,2) by (auto simp: bus_inv_def inv_subs_def k)
  moreover have "chan_inv (s\<lparr>bs_bus := eb\<rparr>) c" for c
    using assms(1,3) assms(5) [of c] by (elim conjE) (rule chan_inv_same [of s], simp_all add: bus_inv_def)
  moreover have "dropped_total (s\<lparr>bs_bus := eb\<rparr>) = dropped_total s" by (simp add: dropped_total_def assms(3))
  moreover have "inv_crash (s\<lparr>bs_bus := eb\<rparr>)" using assms(1,3,5) by (auto simp: bus_inv_def inv_crash_def)
  ultimately show ?thesis using assms(1,4) by (simp add: bus_inv_def)
qed

lemma Unsubscribe_subs: "all_subs (eb_Unsubscribe et sid eb) \<subseteq> all_subs eb"
  unfolding all_subs_def eb_Unsubscribe_def stop_sub_def Let_def
  by (auto split: option.splits if_splits)

lemma unsubscribe_inv [step_invs]: "bus_inv s \<Longrightarrow> bus_inv (s\<lparr>bs_bus := eb_Unsubscribe et sid (bs_bus s)\<rparr>)"
  by (rule bus_inv_same [OF _ Unsubscribe_subs])
    (auto simp: eb_Unsubscribe_def stop_sub_def Let_def split: option.splits)

lemma shutdown_inv [step_invs]: "bus_inv s \<Longrightarrow> bus_inv (s\<lparr>bs_bus := eb_Shutdown (bs_bus s)\<rparr>)"
  by (rule bus_inv_same) (auto simp: eb_Shutdown_def all_subs_def)

lemma parent_canceled_inv [step_invs]: "bus_inv s \<Longrightarrow> bus_inv (s\<lparr>bs_bus := (bs_bus s)\<lparr>eb_canceled := True\<rparr>\<rparr>)"
  by (rule bus_inv_same) (auto simp: all_subs_def)

lemma subscribe_inv [step_invs]:
  assumes inv: "bus_inv s" and sub: "eb_Subscribe et q (bs_bus s) = (eb, sid)" "publish_accepted (bs_bus s)" "\<not> bs_panicked s"
  shows "bus_inv (s\<lparr>bs_bus := eb, bs_alive := (bs_alive s)(eb_alloc (bs_bus s) := True),
       bs_qos := (bs_qos s)(eb_alloc (bs_bus s) := q)\<rparr>)" (is "bus_inv ?t")
proof -
  let ?c = "eb_alloc (bs_bus s)"
  define new where "new = \<lparr>sb_id = eb_nextID (bs_bus s) + 1, sb_qos = q, sb_ch = ?c\<rparr>"
  have eb: "eb_alloc eb = ?c + 1" "eb_dropped eb = eb_dropped (bs_bus s)"
      "eb_chans eb = (eb_chans (bs_bus s))(?c := make_chan (buffer_size q))"
    using sub(1,2) by (auto simp: eb_Subscribe_def publish_accepted_def Let_def)
  have tab: "eb_subscribers eb = (eb_subscribers (bs_bus s))(et \<mapsto>
      (case eb_subscribers (bs_bus s) et of None \<Rightarrow> Map.empty | Some m \<Rightarrow> m)(eb_nextID (bs_bus s) + 1 \<mapsto> new))"
    using sub(1,2) by (auto simp: eb_Subscribe_def publish_accepted_def Let_def new_def)
  have subs: "all_subs eb \<subseteq> insert new (all_subs (bs_bus s))"
    unfolding all_subs_def tab by (auto split: if_splits option.splits)
  have old: "sub_known s x \<Longrightarrow> sub_known ?t x" for x by (auto simp: sub_known_def eb)
  have "sub_known ?t new" by (simp add: sub_known_def new_def eb)
  then have "inv_subs ?t" using inv subs old by (fastforce simp: bus_inv_def inv_subs_def)
  moreover have f: "inv_fresh s ?c" using inv by (simp add: bus_inv_def chan_inv_def)
  moreover have new_chan: "chan_inv ?t ?c" using f by (simp add: bus_inv_parts eb)
  moreover have "chan_inv ?t c" for c
  proof (cases "c = ?c")
    case True then show ?thesis using new_chan by (simp only:)
  next
    case False
    have "chan_inv s c" using inv by (simp add: bus_inv_def)
    then show ?thesis by (rule chan_inv_same) (simp_all add: False eb)
  qed
  moreover have "dropped_total ?t = dropped_total s" using f by (simp add: dropped_total_def eb inv_fresh_def)
  moreover have "inv_crash ?t" using sub(3) by (simp add: inv_crash_def)
  ultimately show ?thesis using inv eb(2) by (simp add: bus_inv_def)
qed

lemma bus_inv_pubs [intro?]:
  assumes "bus_inv s" "\<And>e subs. (e, subs) \<in># ps \<Longrightarrow> \<exists>e' subs'. (e', subs') \<in># bs_pubs s \<and> set subs \<subseteq> set subs'"
  shows "bus_inv (s\<lparr>bs_pubs := ps\<rparr>)"
proof -
  have k: "sub_known (s\<lparr>bs_pubs := ps\<rparr>) sub = sub_known s sub" for sub by (simp add: sub_known_def)
  have "inv_subs s" using assms(1) by (simp add: bus_inv_def)
  then have "inv_subs (s\<lparr>bs_pubs := ps\<rparr>)" using assms(2) by (fastforce simp: inv_subs_def k)
  moreover have "chan_inv (s\<lparr>bs_pubs := ps\<rparr>) c" for c
    by (rule chan_inv_same [of s]) (use assms(1) in \<open>simp_all add: bus_inv_def\<close>)
  ultimately show ?thesis using assms(1) by (simp add: bus_inv_def dropped_total_def inv_crash_def)
qed

lemma publish_inv [step_invs]:
  assumes "bus_inv s" "copied_subs (ev_type e) (bs_bus s) subs"
  shows "bus_inv (s\<lparr>bs_pubs := add_mset (e, subs) (bs_pubs s)\<rparr>)" (is "bus_inv ?t")
proof -
  have k: "sub_known ?t sub = sub_known s sub" for sub by (simp add: sub_known_def)
  have "set subs \<subseteq> all_subs (bs_bus s)"
    using assms(2) by (auto simp: copied_subs_def all_subs_def ran_def split: option.splits)
  then have "inv_subs ?t" using assms(1) by (auto simp: bus_inv_def inv_subs_def k)
  moreover have "chan_inv ?t c" for c
    by (rule chan_inv_same [of s]) (use assms(1) in \<open>simp_all add: bus_inv_def\<close>)
  ultimately show ?thesis using assms(1) by (simp add: bus_inv_def dropped_total_def inv_crash_def)
qed

lemma drop_pub_inv [step_invs]: "bus_inv s \<Longrightarrow> bus_inv (s\<lparr>bs_pubs := bs_pubs s - {#p#}\<rparr>)"
  by (rule bus_inv_pubs) (auto dest!: in_diffD)

lemma next_sub_inv:
  assumes "bus_inv s" "(e, sub # subs) \<in># bs_pubs s"
  shows "bus_inv (s\<lparr>bs_pubs := add_mset (e, subs) (bs_pubs s - {#(e, sub # subs)#})\<rparr>)"
  by (rule bus_inv_pubs [OF assms(1)]) (use assms(2) in \<open>fastforce dest: in_diffD\<close>)

lemma crash_inv [step_invs]:
  assumes "bus_inv s" "(e, sub # subs) \<in># bs_pubs s" "send_one e sub (bs_bus s) = SendCrash"
  shows "bus_inv (s\<lparr>bs_panicked := True\<rparr>)" (is "bus_inv ?t")
proof -
  have k: "sub_known ?t x = sub_known s x" for x by (simp add: sub_known_def)
  have "sub_known s sub" using assms(1,2) by (fastforce simp: bus_inv_def inv_subs_def)
  moreover have "closed (eb_chans (bs_bus s) (sb_ch sub))"
    using assms(3) by (auto simp: send_one_def try_send_def split: if_splits)
  ultimately have "inv_crash ?t" by (auto simp: inv_crash_def sub_known_def)
  moreover have "inv_subs ?t" using assms(1) by (simp add: bus_inv_def inv_subs_def k)
  moreover have "chan_inv ?t c" for c
    by (rule chan_inv_same [of s]) (use assms(1) in \<open>simp_all add: bus_inv_def\<close>)
  ultimately show ?thesis using assms(1) by (simp add: bus_inv_def dropped_total_def)
qed

text \<open>A step that touches one channel \<open>c\<close> only, and the histories of that channel.\<close>

lemma bus_inv_at:
  assumes inv: "bus_inv s" and c: "chan_inv t c"
    and other: "\<And>d. d \<noteq> c \<Longrightarrow> eb_chans (bs_bus t) d = eb_chans (bs_bus s) d \<and> bs_sent t d = bs_sent s d \<and>
        bs_offered t d = bs_offered s d \<and> bs_delivered t d = bs_delivered s d"
    and frame: "eb_subscribers (bs_bus t) = eb_subscribers (bs_bus s)" "eb_alloc (bs_bus t) = eb_alloc (bs_bus s)"
      "bs_pubs t = bs_pubs s" "bs_qos t = bs_qos s" "bs_alive t = bs_alive s" "bs_panicked t = bs_panicked s"
      "closed (eb_chans (bs_bus t) c) = closed (eb_chans (bs_bus s) c)"
    and count: "eb_dropped (bs_bus t) = of_nat (dropped_total t)"
  shows "bus_inv t"
proof -
  have "all_subs (bs_bus t) = all_subs (bs_bus s)" by (simp add: all_subs_def frame)
  then have "inv_subs t" using inv by (simp add: bus_inv_def inv_subs_def sub_known_def frame)
  moreover have "chan_inv t d" for d
  proof (cases "d = c")
    case True then show ?thesis using c by (simp only:)
  next
    case False
    have "chan_inv s d" using inv by (simp add: bus_inv_def)
    then show ?thesis by (rule chan_inv_same) (simp_all add: other [OF False] frame)
  qed
  moreover have "closed (eb_chans (bs_bus t) d) = closed (eb_chans (bs_bus s) d)" for d
    using other [of d] frame(7) by (cases "d = c") auto
  then have "inv_crash t" using inv by (simp add: bus_inv_def inv_crash_def frame)
  ultimately show ?thesis using count by (simp add: bus_inv_def)
qed

lemma dropped_total_at:
  assumes "eb_alloc (bs_bus t) = eb_alloc (bs_bus s)" "c < eb_alloc (bs_bus s)"
    "\<And>d. d \<noteq> c \<Longrightarrow> bs_sent t d = bs_sent s d \<and> bs_offered t d = bs_offered s d"
    "length (bs_offered t c) - length (bs_sent t c) = k + (length (bs_offered s c) - length (bs_sent s c))"
  shows "dropped_total t = k + dropped_total s"
proof -
  have *: "dropped_total u = (length (bs_offered u c) - length (bs_sent u c)) +
      (\<Sum>d \<in> {..<eb_alloc (bs_bus s)} - {c}. length (bs_offered u d) - length (bs_sent u d))"
    if "eb_alloc (bs_bus u) = eb_alloc (bs_bus s)" for u
    unfolding dropped_total_def that by (rule sum.remove) (use assms(2) in auto)
  have "(\<Sum>d \<in> {..<eb_alloc (bs_bus s)} - {c}. length (bs_offered t d) - length (bs_sent t d)) =
      (\<Sum>d \<in> {..<eb_alloc (bs_bus s)} - {c}. length (bs_offered s d) - length (bs_sent s d))"
    by (rule sum.cong) (use assms(3) in auto)
  then show ?thesis using * [OF assms(1)] * [OF refl] assms(4) by linarith
qed

lemma send_inv [step_invs]:
  assumes inv: "bus_inv s" and pub: "(e, sub # subs) \<in># bs_pubs s" and snd: "send_one e sub (bs_bus s) = SendDone eb"
  shows "bus_inv (s\<lparr>bs_bus := eb, bs_pubs := add_mset (e, subs) (bs_pubs s - {#(e, sub # subs)#}),
       bs_offered := logged (sb_ch sub) e (bs_offered s), bs_sent := logged (sb_ch sub) e (bs_sent s)\<rparr>)" (is "bus_inv ?t")
proof -
  let ?c = "sb_ch sub" and ?s = "s\<lparr>bs_pubs := add_mset (e, subs) (bs_pubs s - {#(e, sub # subs)#})\<rparr>"
  obtain ch where ch: "try_send e (eb_chans (bs_bus s) ?c) = Sent ch"
    and eb: "eb = (bs_bus s)\<lparr>eb_chans := (eb_chans (bs_bus s))(?c := ch)\<rparr>"
    using snd by (auto simp: send_one_def split: send.splits if_splits)
  have known: "?c < eb_alloc (bs_bus s)" using inv pub by (fastforce simp: bus_inv_def inv_subs_def sub_known_def)
  have old: "inv_queue s ?c" "inv_offers s ?c" using inv by (simp_all add: bus_inv_def chan_inv_def)
  note sent = try_send_Sent [OF ch]
  have q: "inv_queue ?t ?c" using old(1) sent by (simp add: inv_queue_def eb)
  have "inv_offers ?t ?c" using old(2) by (auto simp: inv_offers_def split: if_splits)
  with q have c: "chan_inv ?t ?c" using known by (simp add: chan_inv_def inv_fresh_def eb)
  have "dropped_total ?t = 0 + dropped_total s" by (rule dropped_total_at [where c = ?c]) (simp_all add: eb known)
  then have n: "eb_dropped (bs_bus ?t) = of_nat (dropped_total ?t)" using inv by (simp add: eb bus_inv_def)
  show ?thesis by (rule bus_inv_at [OF next_sub_inv [OF inv pub] c]) (use n sent in \<open>simp_all add: eb\<close>)
qed

lemma drop_inv [step_invs]:
  assumes inv: "bus_inv s" and pub: "(e, sub # subs) \<in># bs_pubs s" and snd: "send_one e sub (bs_bus s) = SendDropped eb"
  shows "bus_inv (s\<lparr>bs_bus := eb, bs_pubs := add_mset (e, subs) (bs_pubs s - {#(e, sub # subs)#}),
       bs_offered := logged (sb_ch sub) e (bs_offered s)\<rparr>)" (is "bus_inv ?t")
proof -
  let ?c = "sb_ch sub"
  have q: "sb_qos sub = QoS0" and eb: "eb = (bs_bus s)\<lparr>eb_dropped := eb_dropped (bs_bus s) + 1\<rparr>"
    using snd by (auto simp: send_one_def split: send.splits if_splits)
  have known: "?c < eb_alloc (bs_bus s)" "bs_qos s ?c = QoS0"
    using inv pub q by (fastforce simp: bus_inv_def inv_subs_def sub_known_def)+
  have old: "inv_queue s ?c" "inv_offers s ?c" using inv by (simp_all add: bus_inv_def chan_inv_def)
  have "inv_queue ?t ?c" using old(1) by (simp add: inv_queue_def eb)
  moreover have "inv_offers ?t ?c" using old(2) known(2) by (auto simp: inv_offers_def)
  ultimately have c: "chan_inv ?t ?c" using known by (simp add: chan_inv_def inv_fresh_def eb)
  have "dropped_total ?t = 1 + dropped_total s"
    by (rule dropped_total_at [where c = ?c]) (use old(2) known in \<open>simp_all add: eb inv_offers_def Suc_diff_le\<close>)
  then have n: "eb_dropped (bs_bus ?t) = of_nat (dropped_total ?t)" using inv by (simp add: eb bus_inv_def)
  show ?thesis by (rule bus_inv_at [OF next_sub_inv [OF inv pub] c]) (use n in \<open>simp_all add: eb\<close>)
qed

lemma deliver_inv [step_invs]:
  assumes inv: "bus_inv s" and b: "buf (eb_chans (bs_bus s) c) = e # rest"
  shows "bus_inv (s\<lparr>bs_bus := (bs_bus s)\<lparr>eb_chans := (eb_chans (bs_bus s))(c := (eb_chans (bs_bus s) c)\<lparr>buf := rest\<rparr>)\<rparr>,
       bs_delivered := logged c e (bs_delivered s)\<rparr>)" (is "bus_inv ?t")
proof -
  have old: "inv_queue s c" "inv_offers s c" "inv_fresh s c" using inv by (simp_all add: bus_inv_def chan_inv_def)
  have "inv_queue ?t c" using old(1) b by (simp add: inv_queue_def)
  moreover have "inv_offers ?t c" using old(2) by (simp add: inv_offers_def)
  moreover have "inv_fresh ?t c" using old(3) b by (simp add: inv_fresh_def)
  ultimately have c: "chan_inv ?t c" by (simp add: chan_inv_def)
  have "dropped_total ?t = dropped_total s" by (simp add: dropped_total_def)
  then have n: "eb_dropped (bs_bus ?t) = of_nat (dropped_total ?t)" using inv by (simp add: bus_inv_def)
  show ?thesis by (rule bus_inv_at [OF inv c]) (use n in simp_all)
qed

lemma deliver_ends_inv [step_invs]:
  assumes "bus_inv s" shows "bus_inv (s\<lparr>bs_alive := (bs_alive s)(c := False)\<rparr>)" (is "bus_inv ?t")
proof -
  have "inv_subs ?t" using assms by (simp add: bus_inv_def inv_subs_def sub_known_def)
  moreover have "chan_inv ?t d" for d
  proof -
    have old: "inv_queue s d" "inv_offers s d" "inv_fresh s d" using assms by (simp_all add: bus_inv_def chan_inv_def)
    have "inv_queue ?t d" by (rule inv_queue_same [OF old(1)]) simp_all
    moreover have "inv_offers ?t d" by (rule inv_offers_same [OF old(2)]) simp_all
    moreover have "inv_fresh ?t d" using old(3) by (simp add: inv_fresh_def)
    ultimately show ?thesis by (simp add: chan_inv_def)
  qed
  ultimately show ?thesis using assms by (simp add: bus_inv_def dropped_total_def inv_crash_def)
qed

lemma bus_step_inv: "bus_step s t \<Longrightarrow> bus_inv s \<Longrightarrow> bus_inv t"
  by (induction rule: bus_step.induct) (simp_all add: step_invs)

lemma bus_reachable_inv:
  assumes "bus_reachable s" shows "bus_inv s"
proof -
  have "bus_step\<^sup>*\<^sup>* bus_start s" using assms by (simp add: bus_reachable_def)
  then show ?thesis by (induction rule: rtranclp_induct) (auto intro: bus_start_inv bus_step_inv)
qed

subsection \<open>Delivery\<close>


text \<open>A run: one subscription, one event published to it, and the subscription removed before the send.\<close>

definition one_sub :: "event_type \<Rightarrow> qos \<Rightarrow> 'e bus_sys" where
  "one_sub et q = bus_start\<lparr>bs_bus := fst (eb_Subscribe et q NewEventBus), bs_alive := (\<lambda>c. False)(0 := True),
     bs_qos := (\<lambda>c. QoS0)(0 := q)\<rparr>"

definition first_sub :: "qos \<Rightarrow> subscription" where
  "first_sub q = \<lparr>sb_id = 2, sb_qos = q, sb_ch = 0\<rparr>"

lemmas one_sub_defs = one_sub_def first_sub_def bus_start_def NewEventBus_def eb_Subscribe_def publish_accepted_def Let_def

lemma one_sub_step: "bus_step bus_start (one_sub et q)"
  using bus_step.subscribe [of bus_start et q "fst (eb_Subscribe et q NewEventBus)" "snd (eb_Subscribe et q NewEventBus)"]
  by (simp add: one_sub_defs)

lemma one_sub_published:
  assumes "ev_type e = et"
  shows "bus_step (one_sub et q) ((one_sub et q)\<lparr>bs_pubs := {#(e, [first_sub q])#}\<rparr>)"
  using bus_step.publish [of "one_sub et q" e "[first_sub q]"]
  by (simp add: one_sub_defs copied_subs_def assms)


text \<open>Removing a subscription while an event is being published can end the process: \<open>Publish\<close> sends
  outside the lock to the subscriptions it copied, \<open>Unsubscribe\<close> closes the channel of one of them in
  between, and the send on the closed channel panics; nothing in \<open>Publish\<close> recovers.\<close>

theorem unsubscribe_while_publishing_panics:
  "\<exists>p u c :: 'e bus_sys. bus_reachable p \<and> bs_pubs p = {#(\<lparr>ev_type = et, ev_qos = q, ev_body = b\<rparr>, [first_sub q])#} \<and>
     bus_step p u \<and> bs_bus u = eb_Unsubscribe et 2 (bs_bus p) \<and> bs_pubs u = bs_pubs p \<and> bus_step u c \<and> bs_panicked c"
proof -
  let ?e = "\<lparr>ev_type = et, ev_qos = q, ev_body = b\<rparr>" and ?o = "one_sub et q :: 'e bus_sys"
  let ?p = "?o\<lparr>bs_pubs := {#(?e, [first_sub q])#}\<rparr>"
  let ?u = "?p\<lparr>bs_bus := eb_Unsubscribe et 2 (bs_bus ?p)\<rparr>"
  have p: "bus_step ?o ?p" by (rule one_sub_published) simp
  then have "bus_reachable ?p"
    unfolding bus_reachable_def using one_sub_step by (meson converse_rtranclp_into_rtranclp rtranclp.rtrancl_refl)
  moreover have "bus_step ?p ?u" by (rule bus_step.unsubscribe) (simp add: one_sub_defs)
  moreover have "send_one ?e (first_sub q) (bs_bus ?u) = SendCrash"
    by (simp add: one_sub_defs send_one_def try_send_def eb_Unsubscribe_def stop_sub_def)
  then have "bus_step ?u (?u\<lparr>bs_panicked := True\<rparr>)"
    by (intro bus_step.crash [of _ ?e "first_sub q" "[]"]) (simp_all add: one_sub_defs)
  ultimately show ?thesis by (intro exI [of _ ?p] exI [of _ ?u] exI [of _ "?u\<lparr>bs_panicked := True\<rparr>"]) simp
qed

end
