(* ===== verification/Go_Text.thy ===== *)
theory Go_Text
  imports Prelude
begin

text \<open>
  The string functions of Go's standard library that the modelled code calls. A Go string is a
  sequence of bytes, here a list of characters, one per byte.
\<close>

subsection \<open>Prefixes, suffixes and white space\<close>

definition HasPrefix :: "string \<Rightarrow> string \<Rightarrow> bool" where
  "HasPrefix s p \<longleftrightarrow> take (length p) s = p"

definition HasSuffix :: "string \<Rightarrow> string \<Rightarrow> bool" where
  "HasSuffix s p \<longleftrightarrow> HasPrefix (rev s) (rev p)"

definition TrimPrefix :: "string \<Rightarrow> string \<Rightarrow> string" where
  "TrimPrefix s p = (if HasPrefix s p then drop (length p) s else s)"

definition TrimSuffix :: "string \<Rightarrow> string \<Rightarrow> string" where
  "TrimSuffix s p = (if HasSuffix s p then take (length s - length p) s else s)"

text \<open>The UTF-8 encodings of the code points for which \<open>unicode.IsSpace\<close> holds.\<close>

definition space_codes :: "string list" where
  "space_codes =
     map (\<lambda>n. [char_of (n :: nat)]) [9, 10, 11, 12, 13, 32] @
     [[CHR 0xC2, CHR 0x85], [CHR 0xC2, CHR 0xA0], [CHR 0xE1, CHR 0x9A, CHR 0x80]] @
     map (\<lambda>n. [CHR 0xE2, CHR 0x80, char_of (n :: nat)])
       [0x80, 0x81, 0x82, 0x83, 0x84, 0x85, 0x86, 0x87, 0x88, 0x89, 0x8A, 0xA8, 0xA9, 0xAF] @
     [[CHR 0xE2, CHR 0x81, CHR 0x9F], [CHR 0xE3, CHR 0x80, CHR 0x80]]"

text \<open>\<open>strip codes s\<close> removes encodings from the front; the fuel is the length of the string, and every
  round removes at least one byte.\<close>

fun strip_n :: "nat \<Rightarrow> string list \<Rightarrow> string \<Rightarrow> string" where
  "strip_n 0 codes s = s"
| "strip_n (Suc n) codes s =
     (case find (HasPrefix s) codes of None \<Rightarrow> s | Some c \<Rightarrow> strip_n n codes (drop (length c) s))"

definition strip :: "string list \<Rightarrow> string \<Rightarrow> string" where
  "strip codes s = strip_n (length s) codes s"

definition TrimSpace :: "string \<Rightarrow> string" where
  "TrimSpace s = rev (strip (map rev space_codes) (rev (strip space_codes s)))"

text \<open>A string that neither begins nor ends with a byte of a white space encoding is left alone.\<close>

lemma HasPrefix_hd: "HasPrefix s c \<Longrightarrow> c \<noteq> [] \<Longrightarrow> s \<noteq> [] \<and> hd s = hd c"
  by (cases s; cases c) (auto simp: HasPrefix_def)

lemma strip_untouched:
  assumes "[] \<notin> set codes" "s \<noteq> [] \<longrightarrow> hd s \<notin> hd ` set codes"
  shows "strip codes s = s"
proof -
  have "find (HasPrefix s) codes = None" using assms by (auto simp: find_None_iff dest: HasPrefix_hd)
  then show ?thesis by (cases "length s") (simp_all add: strip_def)
qed

definition space_bytes :: "char set" where
  "space_bytes = hd ` set space_codes \<union> last ` set space_codes"

lemma space_codes_bytes:
  "\<forall>c \<in> set space_codes. c \<noteq> [] \<and> (of_char (hd c) \<le> (32 :: nat) \<or> 128 \<le> (of_char (hd c) :: nat)) \<and>
     (of_char (last c) \<le> (32 :: nat) \<or> 128 \<le> (of_char (last c) :: nat))"
  by (simp add: space_codes_def)

lemma printable_not_space: "32 < (of_char c :: nat) \<Longrightarrow> (of_char c :: nat) < 128 \<Longrightarrow> c \<notin> space_bytes"
  using space_codes_bytes by (fastforce simp: space_bytes_def)

lemma TrimSpace_untouched:
  assumes "s \<noteq> [] \<longrightarrow> hd s \<notin> space_bytes \<and> last s \<notin> space_bytes"
  shows "TrimSpace s = s"
proof -
  have ne: "[] \<notin> set space_codes" "[] \<notin> set (map rev space_codes)" using space_codes_bytes by auto
  have "strip space_codes s = s" using assms by (intro strip_untouched ne) (auto simp: space_bytes_def)
  moreover have "hd ` set (map rev space_codes) \<subseteq> last ` set space_codes" using ne(1) by (auto simp: hd_rev)
  then have "strip (map rev space_codes) (rev s) = rev s"
    using assms by (intro strip_untouched ne) (auto simp: space_bytes_def hd_rev)
  ultimately show ?thesis by (simp add: TrimSpace_def)
qed

text \<open>\<open>strings.Fields\<close>.\<close>

function fields_from :: "string \<Rightarrow> string \<Rightarrow> string list" where
  "fields_from word [] = (if word = [] then [] else [word])"
| "fields_from word (c # cs) =
     (case find (HasPrefix (c # cs)) space_codes of
        None \<Rightarrow> fields_from (word @ [c]) cs
      | Some code \<Rightarrow> (if word = [] then [] else [word]) @ fields_from [] (drop (length code - 1) cs))"
  by pat_completeness auto
termination by (relation "measure (length \<circ> snd)") auto

definition Fields :: "string \<Rightarrow> string list" where
  "Fields s = fields_from [] s"

lemma fields_word:
  assumes "\<forall>c \<in> set cs. c \<notin> space_bytes" "w @ cs \<noteq> []"
  shows "fields_from w (cs @ '' '' @ ds) = (w @ cs) # fields_from [] ds" "fields_from w cs = [w @ cs]"
proof -
  have no: "find (HasPrefix (c # x)) space_codes = None" if "c \<notin> space_bytes" for c x
    using that HasPrefix_hd [of "c # x"] space_codes_bytes by (auto simp: find_None_iff space_bytes_def)
  have "take 6 space_codes = [[CHR 0x09], [CHR 0x0A], [CHR 0x0B], [CHR 0x0C], [CHR 0x0D], '' '']" by code_simp
  then have "find (HasPrefix ('' '' @ ds)) (take 6 space_codes @ drop 6 space_codes) = Some '' ''" by (simp add: HasPrefix_def)
  then have "find (HasPrefix ('' '' @ ds)) space_codes = Some '' ''" by simp
  then show "fields_from w (cs @ '' '' @ ds) = (w @ cs) # fields_from [] ds"
    using assms no by (induction cs arbitrary: w) auto
  show "fields_from w cs = [w @ cs]"
    using assms no by (induction cs arbitrary: w) auto
qed

lemma fields_pair:
  assumes "\<forall>c \<in> set v. c \<notin> space_bytes" "\<forall>c \<in> set w. c \<notin> space_bytes" "v \<noteq> []" "w \<noteq> []"
  shows "Fields (v @ '' '' @ w) = [v, w]"
  using fields_word(1) [OF assms(1), of "[]" w] fields_word(2) [OF assms(2), of "[]"] assms(3,4) by (simp add: Fields_def)

lemma HasPrefix_append [simp]: "HasPrefix (p @ s) p" by (simp add: HasPrefix_def)
lemma HasSuffix_append [simp]: "HasSuffix (s @ p) p" by (simp add: HasSuffix_def)

subsection \<open>Splitting and joining\<close>

text \<open>\<open>strings.Split\<close> at a separator of one byte, and \<open>strings.Join\<close>.\<close>

fun split_at_char :: "char \<Rightarrow> string \<Rightarrow> string list" where
  "split_at_char d [] = [[]]"
| "split_at_char d (x # xs) =
     (if x = d then [] # split_at_char d xs
      else case split_at_char d xs of p # ps \<Rightarrow> (x # p) # ps | [] \<Rightarrow> [[x]])"

fun joined :: "char \<Rightarrow> string list \<Rightarrow> string" where
  "joined d [] = []"
| "joined d [p] = p"
| "joined d (p # ps) = p @ d # joined d ps"

lemma split_at_char_nonempty [simp]: "split_at_char d s \<noteq> []"
  by (induction s) (auto split: list.splits)

lemma joined_Cons: "ps \<noteq> [] \<Longrightarrow> joined d (p # ps) = p @ d # joined d ps"
  by (cases ps) auto

lemma joined_split: "joined d (split_at_char d s) = s"
proof (induction s)
  case (Cons x xs)
  then show ?case
    by (cases "split_at_char d xs") (auto simp: joined_Cons split: list.splits; cases "tl (split_at_char d xs)"; simp)+
qed simp

lemma split_joined:
  assumes "\<forall>p \<in> set ps. d \<notin> set p" "ps \<noteq> []"
  shows "split_at_char d (joined d ps) = ps"
proof -
  have piece: "split_at_char d (p @ d # s) = p # split_at_char d s" if "d \<notin> set p" for p s
    using that by (induction p) auto
  have last_piece: "split_at_char d p = [p]" if "d \<notin> set p" for p
    using that by (induction p) auto
  show ?thesis
    using assms
  proof (induction ps)
    case (Cons p ps)
    then show ?case
      by (cases "ps = []") (simp_all add: joined_Cons piece last_piece)
  qed simp
qed

lemma split_at_char_parts: "p \<in> set (split_at_char d s) \<Longrightarrow> d \<notin> set p"
  by (induction s arbitrary: p) (auto split: list.splits if_splits)

text \<open>
  \<open>bufio.Scanner\<close> with its default limits: the lines of a file without their line ends; a line of 64 KiB
  or more ends the scan with an error.
\<close>

definition newline :: char where
  "newline = CHR 0x0A"

definition drop_cr :: "string \<Rightarrow> string" where
  "drop_cr s = (if s \<noteq> [] \<and> last s = CHR 0x0D then butlast s else s)"

definition short_line :: "string \<Rightarrow> bool" where
  "short_line s \<longleftrightarrow> length s < 65536"

definition file_lines :: "string \<Rightarrow> string list" where
  "file_lines s = (let ls = split_at_char newline s in if last ls = [] then butlast ls else ls)"

definition scan_file :: "string \<Rightarrow> string list \<times> bool" where
  "scan_file s = (map drop_cr (takeWhile short_line (file_lines s)), \<exists>l \<in> set (file_lines s). \<not> short_line l)"

definition text_of :: "string list \<Rightarrow> string" where
  "text_of ls = concat (map (\<lambda>l. l @ [newline]) ls)"

lemma text_of_simps [simp]: "text_of [] = []" "text_of (l # ls) = l @ newline # text_of ls" "text_of (ks @ ls) = text_of ks @ text_of ls"
  by (simp_all add: text_of_def)

lemma split_at_char_append: "split_at_char d (xs @ d # ys) = split_at_char d xs @ split_at_char d ys"
proof (induction xs)
  case (Cons x xs)
  then show ?case by (cases "split_at_char d xs") auto
qed simp

lemma split_at_char_single: "d \<notin> set p \<Longrightarrow> split_at_char d p = [p]"
  by (induction p) auto

lemma split_text_of: "\<forall>l \<in> set ls. newline \<notin> set l \<Longrightarrow> split_at_char newline (text_of ls) = ls @ [[]]"
  by (induction ls) (simp_all add: split_at_char_append split_at_char_single)

lemma file_lines_text_of: "\<forall>l \<in> set ls. newline \<notin> set l \<Longrightarrow> file_lines (text_of ls) = ls"
  by (simp add: file_lines_def split_text_of)

lemma scan_text_of:
  "\<forall>l \<in> set ls. newline \<notin> set l \<and> short_line l \<Longrightarrow> scan_file (text_of ls) = (map drop_cr ls, False)"
  by (auto simp: scan_file_def file_lines_text_of takeWhile_eq_all_conv [THEN iffD2])

text \<open>The outcome of appending a line to a file and syncing it: a torn write leaves its first bytes.\<close>

datatype write_outcome = Written | Torn nat string | NotSynced string

text \<open>What a sequence of closings joins its errors to.\<close>

fun joined_errors :: "string list \<Rightarrow> string" where
  "joined_errors [] = []"
| "joined_errors [e] = e"
| "joined_errors (e # es) = e @ ''; '' @ joined_errors es"

subsection \<open>Durations as text\<close>

text \<open>\<open>time.Duration.String\<close>, which log messages and reasons contain. The micro sign is two bytes of UTF-8.\<close>

definition trim_zeros :: "string \<Rightarrow> string" where
  "trim_zeros s = rev (dropWhile (\<lambda>c. c = CHR ''0'') (rev s))"

definition frac_text :: "nat \<Rightarrow> nat \<Rightarrow> string" where
  "frac_text prec v =
     (let f = v mod 10 ^ prec; ds = nat_text f
      in if f = 0 then '''' else ''.'' @ trim_zeros (replicate (prec - length ds) (CHR ''0'') @ ds))"

definition duration_text :: "duration \<Rightarrow> string" where
  "duration_text d =
     (let u = nat \<bar>d\<bar>;
          s = u div 10 ^ 9; m = s div 60; h = m div 60;
          sec = nat_text (s mod 60) @ frac_text 9 u @ ''s'';
          body = (if u = 0 then ''0s''
                  else if u < 10 ^ 3 then nat_text u @ ''ns''
                  else if u < 10 ^ 6 then nat_text (u div 10 ^ 3) @ frac_text 3 u @ [CHR 0xC2, CHR 0xB5] @ ''s''
                  else if u < 10 ^ 9 then nat_text (u div 10 ^ 6) @ frac_text 6 u @ ''ms''
                  else if m = 0 then sec
                  else if h = 0 then nat_text m @ ''m'' @ sec
                  else nat_text h @ ''h'' @ nat_text (m mod 60) @ ''m'' @ sec)
      in if d < 0 then ''-'' @ body else body)"

end
