(* ===== verification/Engine.thy ===== *)
theory Engine
  imports Engine_State Circuit_Breaker Event_Bus Entity Go_Text
begin

text \<open>
  The trading engine: \<open>internal/engine/engine.go\<close> with its workers, \<open>ntp.go\<close> and the shutdown sequence
  of \<open>shutdown.go\<close>. The engine owns the state machine (theory \<open>Engine_State\<close>), the circuit breaker of
  the NTP check (theory \<open>Circuit_Breaker\<close>) and the event bus; what the engine gives to \<open>Publish\<close> is
  appended to \<open>en_published\<close>, its delivery is theory \<open>Event_Bus\<close>. Services that may be absent (nil) are
  flags; what they answer (the exchange, the NTP servers, the reconcilers) is an argument, and a call
  made to them is appended to \<open>en_calls\<close>. One iteration of a worker's loop is one step; metrics only
  read the state and are left out.
\<close>

subsection \<open>The NTP check\<close>

record ntp_worker =
  nw_maxDrift :: duration
  nw_servers :: "string list"
  nw_lastSync :: time
  nw_drift :: duration

definition NewNTPSyncWorker :: "duration \<Rightarrow> ntp_worker" where
  "NewNTPSyncWorker bound = \<lparr>nw_maxDrift = bound,
     nw_servers = [''pool.ntp.org'', ''time.nist.gov'', ''time.google.com''], nw_lastSync = 0, nw_drift = 0\<rparr>"

text \<open>The first server that answers decides; \<open>ask\<close> gives each server's clock offset or its error.\<close>

fun ask_servers :: "(string \<Rightarrow> string + duration) \<Rightarrow> string list \<Rightarrow> string option \<Rightarrow> string option + duration" where
  "ask_servers ask [] last_err = Inl last_err"
| "ask_servers ask (srv # rest) last_err =
     (case ask srv of
        Inl err \<Rightarrow> ask_servers ask rest (Some err)
      | Inr offset \<Rightarrow> Inr (if offset < 0 then - offset else offset))"

definition ntp_Check :: "time \<Rightarrow> (string \<Rightarrow> string + duration) \<Rightarrow> ntp_worker \<Rightarrow> ntp_worker \<times> (string + duration)" where
  "ntp_Check now ask w =
     (case ask_servers ask (nw_servers w) None of
        Inl err \<Rightarrow> (w, Err (''NTP sync failed: '' @ (case err of None \<Rightarrow> ''%!w(<nil>)'' | Some txt \<Rightarrow> txt)))
      | Inr drift \<Rightarrow> (w\<lparr>nw_drift := drift, nw_lastSync := now\<rparr>, Ok drift))"

definition ntp_IsHealthy :: "ntp_worker \<Rightarrow> bool" where
  "ntp_IsHealthy w \<longleftrightarrow> nw_drift w \<le> nw_maxDrift w"

subsection \<open>The engine's state\<close>

datatype alert_level = AlertLevelInfo | AlertLevelWarning | AlertLevelCritical

datatype engine_body =
    BareBody
  | TransitionBody estate_transition
  | AlertBody alert_level string time
  | ErrorBody string string time

type_synonym engine_event = "engine_body event"

datatype engine_call =
    CallReconcileAll | CallReconcileOrders | CallGetOpenOrders | CallCancelOrder string
  | CallUnloadAll | CallDisconnect | CallStorageClose

datatype worker = StateTransitionsWorker | NtpSyncWorker | ReconciliationWorker | StreamEventsWorker | MetricsWorker

fun worker_name :: "worker \<Rightarrow> string" where
  "worker_name StateTransitionsWorker = ''state_transitions''"
| "worker_name NtpSyncWorker = ''ntp_sync''"
| "worker_name ReconciliationWorker = ''reconciliation''"
| "worker_name StreamEventsWorker = ''stream_events''"
| "worker_name MetricsWorker = ''metrics''"

record 'd engine_config =
  ec_MaxNTPDrift :: duration
  MaxOrdersPerSecond :: int
  ec_MaxPositionSize :: 'd
  ec_MaxDailyLoss :: 'd
  NTPFailureTolerance :: int
  NTPDegradedModeDuration :: duration

definition engine_DefaultConfig :: "'d::linordered_idom engine_config" where
  "engine_DefaultConfig = \<lparr>ec_MaxNTPDrift = 500 * millisecond, MaxOrdersPerSecond = 10, ec_MaxPositionSize = 10000,
     ec_MaxDailyLoss = 1000, NTPFailureTolerance = 5, NTPDegradedModeDuration = 10 * minute\<rparr>"

text \<open>\<open>en_ntp\<close> and \<open>en_streaming\<close> are the local states of the NTP worker and of the stream worker (whether
  it holds a channel of stream events); \<open>en_listener\<close> is the channel that \<open>Start\<close> subscribed.\<close>

record 'd engine =
  en_machine :: state_machine
  en_published :: "engine_event list"
  en_bus_closed :: bool
  en_breaker :: breaker
  en_ntpFailures :: int
  en_ntpLastSync :: time
  en_orderService :: bool
  en_reconciler :: bool
  en_connector :: bool
  en_storage :: bool
  en_executor :: bool
  en_canceled :: bool
  en_workers :: "worker multiset"
  en_config :: "'d engine_config"
  en_ntp :: ntp_worker
  en_streaming :: bool
  en_listener :: nat
  en_calls :: "engine_call list"

definition engine_New :: "bool \<Rightarrow> 'd::linordered_idom engine_config option \<Rightarrow> estate_transition chan_heap \<Rightarrow> time \<Rightarrow> 'd engine" where
  "engine_New has_orders cfg heap now =
     (let config = (case cfg of None \<Rightarrow> engine_DefaultConfig | Some given \<Rightarrow> given)
      in \<lparr>en_machine = NewStateMachine heap now, en_published = [], en_bus_closed = False,
          en_breaker = cb_New ''ntp'' ntp_breaker_config now, en_ntpFailures = 0, en_ntpLastSync = 0,
          en_orderService = has_orders, en_reconciler = False, en_connector = False, en_storage = False,
          en_executor = False, en_canceled = False, en_workers = {#}, en_config = config,
          en_ntp = NewNTPSyncWorker (ec_MaxNTPDrift config), en_streaming = False, en_listener = 0, en_calls = []\<rparr>)"

definition engine_State :: "'d engine \<Rightarrow> estate" where
  "engine_State e = state_machine.currentState (en_machine e)"

definition TransitionTo :: "estate \<Rightarrow> string \<Rightarrow> time \<Rightarrow> 'd engine \<Rightarrow> 'd engine \<times> (estate_error + unit)" where
  "TransitionTo st reason now e =
     (case Transition st (reason, now) (en_machine e) of
        Inl err \<Rightarrow> (e, Err err)
      | Inr m \<Rightarrow> (e\<lparr>en_machine := m\<rparr>, Ok ()))"

text \<open>The bus ignores events once it is shut down or its context, a child of the engine's, is done.\<close>

definition en_publish :: "engine_event \<Rightarrow> 'd engine \<Rightarrow> 'd engine" where
  "en_publish ev e = (if en_bus_closed e \<or> en_canceled e then e else e\<lparr>en_published := en_published e @ [ev]\<rparr>)"

definition critical_event :: "event_type \<Rightarrow> engine_body \<Rightarrow> engine_event" where
  "critical_event et body = \<lparr>ev_type = et, ev_qos = QoS1, ev_body = body\<rparr>"

definition alert_event :: "alert_level \<Rightarrow> string \<Rightarrow> time \<Rightarrow> engine_event" where
  "alert_event level msg now = critical_event EventTypeAlert (AlertBody level msg now)"

text \<open>A transition to the halted state whose error is only logged.\<close>

definition halt_engine :: "string \<Rightarrow> time \<Rightarrow> 'd engine \<Rightarrow> 'd engine" where
  "halt_engine reason now e = fst (TransitionTo StateHalted reason now e)"

definition recoverWorker :: "worker \<Rightarrow> time \<Rightarrow> 'd engine \<Rightarrow> 'd engine" where
  "recoverWorker w now e =
     en_publish (alert_event AlertLevelCritical (''Engine worker '' @ worker_name w @ '' recovered from panic'') now)
       (halt_engine (worker_name w @ '' worker panic recovered'') now (e\<lparr>en_workers := en_workers e - {#w#}\<rparr>))"

subsection \<open>Starting, stopping and the workers\<close>

text \<open>\<open>c\<close> is the address of the channel that \<open>Start\<close> makes. A second \<open>Start\<close> starts every worker again.\<close>

definition engine_Start :: "nat \<Rightarrow> 'd engine \<Rightarrow> 'd engine" where
  "engine_Start c e =
     (let m = en_machine e;
          (m', lid) = Engine_State.Subscribe c (m\<lparr>chans := (chans m)(c := make_chan 10)\<rparr>)
      in e\<lparr>en_machine := m', en_listener := c, en_ntp := NewNTPSyncWorker (ec_MaxNTPDrift (en_config e)), en_streaming := False,
           en_workers := en_workers e +
             {#StateTransitionsWorker, NtpSyncWorker, ReconciliationWorker, StreamEventsWorker, MetricsWorker#}\<rparr>)"

text \<open>\<open>Stop\<close>: the workers see the canceled context and end, \<open>wg.Wait()\<close> waits for them.\<close>

definition engine_Stop :: "time \<Rightarrow> 'd engine \<Rightarrow> 'd engine \<times> (estate_error + unit)" where
  "engine_Stop now e =
     (case (if engine_State e \<noteq> StateHalted then TransitionTo StateHalted ''shutdown requested'' now e else (e, Ok ())) of
        (e1, Inl err) \<Rightarrow> (e1, Err err)
      | (e1, Inr _) \<Rightarrow> (e1\<lparr>en_canceled := True, en_workers := {#}, en_bus_closed := True\<rparr>, Ok ()))"

text \<open>\<open>handleStateTransitions\<close> takes one notification from its channel and publishes it.\<close>

definition handleStateTransitions :: "'d engine \<Rightarrow> 'd engine" where
  "handleStateTransitions e =
     (let c = en_listener e; m = en_machine e in
      case buf (chans m c) of
        [] \<Rightarrow> e
      | t # rest \<Rightarrow>
          en_publish (critical_event EventTypeStateTransition (TransitionBody t))
            (e\<lparr>en_machine := m\<lparr>chans := (chans m)(c := (chans m c)\<lparr>buf := rest\<rparr>)\<rparr>\<rparr>))"

text \<open>A tick of \<open>ntpSyncWorker\<close>. The check runs only if the breaker admits it.\<close>

definition ntp_tick_failed :: "time \<Rightarrow> 'd engine \<Rightarrow> 'd engine" where
  "ntp_tick_failed now e =
     (let failures = en_ntpFailures e + 1;
          last_ok = en_ntpLastSync e;
          e1 = e\<lparr>en_ntpFailures := failures\<rparr>;
          should_halt = (failures \<ge> NTPFailureTolerance (en_config e) \<or>
                         last_ok \<noteq> 0 \<and> now - last_ok > NTPDegradedModeDuration (en_config e))
      in if should_halt then
           en_publish (alert_event AlertLevelCritical
               (''NTP sync failures exceeded tolerance: '' @ int_text failures @ '' consecutive failures'') now)
             (halt_engine ''NTP sync failures exceeded tolerance'' now e1)
         else e1)"

definition ntp_tick_succeeded :: "duration \<Rightarrow> time \<Rightarrow> 'd engine \<Rightarrow> 'd engine" where
  "ntp_tick_succeeded drift now e =
     (let e1 = e\<lparr>en_ntpFailures := 0, en_ntpLastSync := now\<rparr>
      in if \<not> ntp_IsHealthy (en_ntp e1) then
           en_publish (alert_event AlertLevelCritical (''NTP drift exceeds threshold: '' @ duration_text drift) now)
             (halt_engine (''NTP drift too high: '' @ duration_text drift) now e1)
         else e1)"

definition ntp_tick :: "time \<Rightarrow> time \<Rightarrow> (string \<Rightarrow> string + duration) \<Rightarrow> 'd engine \<Rightarrow> 'd engine" where
  "ntp_tick now later ask e =
     (let (w, r) = ntp_Check now ask (en_ntp e);
          fn = (case r of Inl err \<Rightarrow> Fail err | Inr d \<Rightarrow> Return ());
          ctx_err = (if en_canceled e then Some ''context canceled'' else None);
          (cb, res) = Execute now ctx_err fn later (en_breaker e);
          e1 = e\<lparr>en_breaker := cb\<rparr>
      in case res of
           Return _ \<Rightarrow> ntp_tick_succeeded (case r of Inr d \<Rightarrow> d | Inl _ \<Rightarrow> 0) later (e1\<lparr>en_ntp := w\<rparr>)
         | Fail err \<Rightarrow> ntp_tick_failed later e1
         | Panic \<Rightarrow> recoverWorker NtpSyncWorker later e1)"

subsection \<open>The connector's stream\<close>

datatype stream_event_type = StreamEventDisconnected | StreamEventReconnected | StreamEventGap | StreamEventOther string

fun stream_event_text :: "stream_event_type \<Rightarrow> string" where
  "stream_event_text StreamEventDisconnected = ''disconnected''"
| "stream_event_text StreamEventReconnected = ''reconnected''"
| "stream_event_text StreamEventGap = ''gap''"
| "stream_event_text (StreamEventOther txt) = txt"

record stream_event =
  se_Type :: stream_event_type
  se_Source :: string
  se_Reason :: string
  se_OccurredAtUTC :: time

definition publishStreamLifecycleAlert :: "alert_level \<Rightarrow> stream_event \<Rightarrow> string \<Rightarrow> time \<Rightarrow> 'd engine \<Rightarrow> 'd engine" where
  "publishStreamLifecycleAlert level ev msg now e =
     en_publish (alert_event level (msg @ '': '' @ se_Reason ev) now) e"

definition haltLiveTradingForStreamEvent :: "stream_event \<Rightarrow> time \<Rightarrow> 'd engine \<Rightarrow> 'd engine" where
  "haltLiveTradingForStreamEvent ev now e =
     (if engine_State e \<noteq> StateLiveTrading then e
      else halt_engine (''connector stream '' @ stream_event_text (se_Type ev) @ '': '' @ se_Reason ev) now e)"

definition publishStreamReconciliationError :: "stream_event \<Rightarrow> string \<Rightarrow> time \<Rightarrow> 'd engine \<Rightarrow> 'd engine" where
  "publishStreamReconciliationError ev err now e =
     en_publish (critical_event EventTypeError
       (ErrorBody err (''Reconciliation after stream event failed: '' @ stream_event_text (se_Type ev)) now)) e"

text \<open>The full reconciler is preferred over the order service; \<open>answer\<close> is what the one that is called
  gives. The flag tells that it panicked.\<close>

definition reconcileAfterStreamEvent ::
  "stream_event \<Rightarrow> (string, unit) outcome \<Rightarrow> time \<Rightarrow> 'd engine \<Rightarrow> 'd engine \<times> bool" where
  "reconcileAfterStreamEvent ev answer now e =
     (if \<not> en_reconciler e \<and> \<not> en_orderService e then (e, False)
      else
        let e1 = e\<lparr>en_calls := en_calls e @ [if en_reconciler e then CallReconcileAll else CallReconcileOrders]\<rparr>
        in case answer of
             Return _ \<Rightarrow> (e1, False)
           | Fail err \<Rightarrow> (publishStreamReconciliationError ev err now e1, False)
           | Panic \<Rightarrow> (e1, True))"

definition handleStreamEvent ::
  "stream_event option \<Rightarrow> (string, unit) outcome \<Rightarrow> time \<Rightarrow> 'd engine \<Rightarrow> 'd engine \<times> bool" where
  "handleStreamEvent event answer now e =
     (case event of
        None \<Rightarrow> (e, False)
      | Some ev \<Rightarrow>
          (case se_Type ev of
             StreamEventDisconnected \<Rightarrow>
               (haltLiveTradingForStreamEvent ev now
                  (publishStreamLifecycleAlert AlertLevelWarning ev ''Connector stream disconnected'' now e), False)
           | StreamEventGap \<Rightarrow>
               reconcileAfterStreamEvent ev answer now
                 (haltLiveTradingForStreamEvent ev now
                    (publishStreamLifecycleAlert AlertLevelCritical ev ''Connector stream gap detected'' now e))
           | StreamEventReconnected \<Rightarrow>
               reconcileAfterStreamEvent ev answer now
                 (publishStreamLifecycleAlert AlertLevelWarning ev ''Connector stream reconnected'' now e)
           | StreamEventOther _ \<Rightarrow>
               (publishStreamLifecycleAlert AlertLevelWarning ev ''Connector stream event received'' now e, False)))"

text \<open>One pass of \<open>streamEventWorker\<close>'s loop: without a channel it tries to subscribe (\<open>None\<close> stands for a
  connector that is no \<open>StreamEventSubscriber\<close>, or the error of the subscription), with one it takes an
  event, or learns that the channel was closed.\<close>

datatype stream_input = SubscribeAnswer "(string + unit) option" | StreamClosed
  | StreamReceived "stream_event option" "(string, unit) outcome"

definition streamEventWorker :: "stream_input \<Rightarrow> time \<Rightarrow> 'd engine \<Rightarrow> 'd engine" where
  "streamEventWorker inp now e =
     (case inp of
        SubscribeAnswer answer \<Rightarrow>
          if en_streaming e \<or> \<not> en_connector e then e
          else (case answer of Some (Inr _) \<Rightarrow> e\<lparr>en_streaming := True\<rparr> | _ \<Rightarrow> e)
      | StreamClosed \<Rightarrow> if en_streaming e then e\<lparr>en_streaming := False\<rparr> else e
      | StreamReceived event answer \<Rightarrow>
          if \<not> en_streaming e then e
          else (case handleStreamEvent event answer now e of
                  (e1, panicked) \<Rightarrow> if panicked then recoverWorker StreamEventsWorker now e1 else e1))"

text \<open>A tick of \<open>reconciliationWorker\<close>.\<close>

definition reconciliation_tick :: "(string, unit) outcome \<Rightarrow> time \<Rightarrow> 'd engine \<Rightarrow> 'd engine" where
  "reconciliation_tick answer now e =
     (if engine_State e \<noteq> StateLiveTrading \<and> engine_State e \<noteq> StatePaperTrading then e
      else if \<not> en_orderService e then e
      else
        let e1 = e\<lparr>en_calls := en_calls e @ [CallReconcileOrders]\<rparr>
        in case answer of
             Return _ \<Rightarrow> e1
           | Fail err \<Rightarrow> en_publish (critical_event EventTypeError (ErrorBody err ''Order reconciliation failed'' now)) e1
           | Panic \<Rightarrow> recoverWorker ReconciliationWorker now e1)"

text \<open>Domain events that the engine passes on to its bus; only their kind matters.\<close>

datatype domain_event_kind =
    OrderCreated | OrderSubmitted | OrderFilled | OrderCanceled | OrderRejected | OtherDomainEvent

definition PublishDomainEvent :: "domain_event_kind \<Rightarrow> 'd engine \<Rightarrow> 'd engine" where
  "PublishDomainEvent k e =
     (case k of
        OrderCreated \<Rightarrow> en_publish (critical_event EventTypeOrderCreated BareBody) e
      | OrderSubmitted \<Rightarrow> en_publish (critical_event EventTypeOrderSubmitted BareBody) e
      | OrderFilled \<Rightarrow> en_publish (critical_event EventTypeOrderFilled BareBody) e
      | OrderCanceled \<Rightarrow> en_publish (critical_event EventTypeOrderCanceled BareBody) e
      | OrderRejected \<Rightarrow> en_publish (critical_event EventTypeOrderRejected BareBody) e
      | OtherDomainEvent \<Rightarrow> e)"

subsection \<open>Graceful shutdown\<close>

datatype cancel_error = GetOpenOrdersFailed string | FailedToCancel "string list"
datatype close_error = DisconnectFailed string | CloseStorageFailed string
datatype shutdown_error =
    TransitionToHalted estate_error | CancelOrdersError cancel_error | UnloadStrategiesError string
  | CloseConnectionsError "close_error list" | StopEngineError estate_error

text \<open>What the connector, the strategy executor and the storage answer. \<open>sd_schedule\<close> is the order in which
  the goroutines that cancel the orders get to run.\<close>

record 'd shutdown_env =
  sd_open_orders :: "string + 'd order list"
  sd_schedule :: "'d order list \<Rightarrow> 'd order list"
  sd_cancel :: "string \<Rightarrow> string option"
  sd_unload :: "string option"
  sd_disconnect :: "string option"
  sd_storage :: "string option"

definition en_call :: "engine_call list \<Rightarrow> 'd engine \<Rightarrow> 'd engine" where
  "en_call cs e = e\<lparr>en_calls := en_calls e @ cs\<rparr>"

definition cancelAllOrders :: "'d shutdown_env \<Rightarrow> 'd engine \<Rightarrow> 'd engine \<times> (cancel_error + unit)" where
  "cancelAllOrders S e =
     (if \<not> en_connector e then (e, Ok ())
      else
        let e1 = en_call [CallGetOpenOrders] e in
        case sd_open_orders S of
          Inl err \<Rightarrow> (e1, Err (GetOpenOrdersFailed err))
        | Inr [] \<Rightarrow> (e1, Ok ())
        | Inr orders \<Rightarrow>
            let ids = map o_ID (sd_schedule S orders);
                e2 = en_call (map CallCancelOrder ids) e1;
                errs = List.map_filter (sd_cancel S) ids
            in (e2, if errs \<noteq> [] then Err (FailedToCancel errs) else Ok ()))"

definition unloadStrategies :: "'d shutdown_env \<Rightarrow> 'd engine \<Rightarrow> 'd engine \<times> (string + unit)" where
  "unloadStrategies S e =
     (if \<not> en_executor e then (e, Ok ())
      else (en_call [CallUnloadAll] e, case sd_unload S of Some err \<Rightarrow> Err err | None \<Rightarrow> Ok ()))"

definition closeConnections :: "'d shutdown_env \<Rightarrow> 'd engine \<Rightarrow> 'd engine \<times> close_error list" where
  "closeConnections S e =
     (let (e1, errs1) = (if en_connector e then
             (en_call [CallDisconnect] e, case sd_disconnect S of Some err \<Rightarrow> [DisconnectFailed err] | None \<Rightarrow> [])
           else (e, []));
          (e2, errs2) = (if en_storage e1 then
             (en_call [CallStorageClose] e1, case sd_storage S of Some err \<Rightarrow> [CloseStorageFailed err] | None \<Rightarrow> [])
           else (e1, []))
      in (e2\<lparr>en_bus_closed := True\<rparr>, errs1 @ errs2))"

text \<open>\<open>Shutdown\<close> under its mutex: the flag is the closed channel \<open>done\<close>; the result is the list of errors
  that \<open>errors.Join\<close> gets, empty for nil.\<close>

definition Shutdown :: "'d shutdown_env \<Rightarrow> time \<Rightarrow> bool \<times> 'd engine \<Rightarrow> (bool \<times> 'd engine) \<times> shutdown_error list" where
  "Shutdown S now st =
     (case st of (is_done, e0) \<Rightarrow>
        if is_done then (st, [])
        else
          let (e1, errs1) = (if engine_State e0 \<noteq> StateHalted then
                 (case TransitionTo StateHalted ''graceful shutdown initiated'' now e0 of
                    (e', Inl err) \<Rightarrow> (e', [TransitionToHalted err]) | (e', Inr _) \<Rightarrow> (e', []))
               else (e0, []));
              (e2, errs2) = (case cancelAllOrders S e1 of
                  (e', Inl err) \<Rightarrow> (e', [CancelOrdersError err]) | (e', Inr _) \<Rightarrow> (e', []));
              (e3, errs3) = (case unloadStrategies S e2 of
                  (e', Inl err) \<Rightarrow> (e', [UnloadStrategiesError err]) | (e', Inr _) \<Rightarrow> (e', []));
              (e4, errs4) = (case closeConnections S e3 of (e', errs) \<Rightarrow>
                  (e', if errs = [] then [] else [CloseConnectionsError errs]));
              (e5, errs5) = (case engine_Stop now e4 of
                  (e', Inl err) \<Rightarrow> (e', [StopEngineError err]) | (e', Inr _) \<Rightarrow> (e', []))
          in ((True, e5), errs1 @ errs2 @ errs3 @ errs4 @ errs5))"

subsection \<open>The engine's operations in sequence\<close>

text \<open>A worker's step has an effect only while that worker runs. \<open>EnginePanic\<close> is a panic in a worker's loop,
  for instance of \<open>Publish\<close> on a channel that was closed meanwhile.\<close>

datatype engine_op =
    EngineStart nat
  | EngineTransition estate string time
  | EngineRelay
  | EngineNtp time time "string \<Rightarrow> string + duration"
  | EngineStream stream_input time
  | EngineReconcile "(string, unit) outcome" time
  | EngineDomainEvent domain_event_kind
  | EnginePanic worker time
  | EngineServices bool bool bool bool

fun engine_step :: "engine_op \<Rightarrow> 'd engine \<Rightarrow> 'd engine" where
  "engine_step (EngineStart c) e = engine_Start c e"
| "engine_step (EngineTransition st reason now) e = fst (TransitionTo st reason now e)"
| "engine_step EngineRelay e = (if StateTransitionsWorker \<in># en_workers e then handleStateTransitions e else e)"
| "engine_step (EngineNtp now later ask) e = (if NtpSyncWorker \<in># en_workers e then ntp_tick now later ask e else e)"
| "engine_step (EngineStream inp now) e = (if StreamEventsWorker \<in># en_workers e then streamEventWorker inp now e else e)"
| "engine_step (EngineReconcile answer now) e = (if ReconciliationWorker \<in># en_workers e then reconciliation_tick answer now e else e)"
| "engine_step (EngineDomainEvent k) e = PublishDomainEvent k e"
| "engine_step (EnginePanic w now) e = (if w \<in># en_workers e then recoverWorker w now e else e)"
| "engine_step (EngineServices conn stor rec exe) e =
     e\<lparr>en_connector := conn, en_storage := stor, en_reconciler := rec, en_executor := exe\<rparr>"

definition engine_run :: "engine_op list \<Rightarrow> 'd engine \<Rightarrow> 'd engine" where
  "engine_run ops e = fold engine_step ops e"

subsection \<open>What the steps change\<close>

lemma TransitionTo_state:
  "TransitionTo st reason now e = (e', Inr u) \<Longrightarrow> engine_State e' = st"
  by (auto simp: TransitionTo_def engine_State_def dest: Transition_Ok split: sum.splits)

lemma TransitionTo_frame [simp]:
  "en_config (fst (TransitionTo st r t e)) = en_config e" "en_ntpFailures (fst (TransitionTo st r t e)) = en_ntpFailures e"
  "en_ntpLastSync (fst (TransitionTo st r t e)) = en_ntpLastSync e" "en_workers (fst (TransitionTo st r t e)) = en_workers e"
  "en_calls (fst (TransitionTo st r t e)) = en_calls e" "en_published (fst (TransitionTo st r t e)) = en_published e"
  "en_bus_closed (fst (TransitionTo st r t e)) = en_bus_closed e" "en_canceled (fst (TransitionTo st r t e)) = en_canceled e"
  "en_connector (fst (TransitionTo st r t e)) = en_connector e" "en_storage (fst (TransitionTo st r t e)) = en_storage e"
  "en_executor (fst (TransitionTo st r t e)) = en_executor e" "en_reconciler (fst (TransitionTo st r t e)) = en_reconciler e"
  "en_orderService (fst (TransitionTo st r t e)) = en_orderService e" "en_ntp (fst (TransitionTo st r t e)) = en_ntp e"
  by (simp_all add: TransitionTo_def split: sum.splits)

lemma TransitionTo_halt: "engine_State e \<noteq> StateHalted \<Longrightarrow> \<exists>e'. TransitionTo StateHalted r t e = (e', Inr ()) \<and> engine_State e' = StateHalted"
  using eng.halt_accepted [of "en_machine e" "(r, t)"] eng.attempt_reaches
  by (fastforce simp: TransitionTo_def engine_State_def split: sum.splits)

lemma halt_engine_state [simp]: "engine_State (halt_engine r t e) = StateHalted"
  using TransitionTo_halt [of e r t]
  by (cases "engine_State e = StateHalted")
    (auto simp: halt_engine_def TransitionTo_def engine_State_def Transition_def isValidTransition_def)

lemma halt_engine_frame [simp]:
  "en_config (halt_engine r t e) = en_config e" "en_ntpFailures (halt_engine r t e) = en_ntpFailures e"
  "en_ntpLastSync (halt_engine r t e) = en_ntpLastSync e" "en_workers (halt_engine r t e) = en_workers e"
  "en_calls (halt_engine r t e) = en_calls e" "en_published (halt_engine r t e) = en_published e"
  "en_bus_closed (halt_engine r t e) = en_bus_closed e" "en_canceled (halt_engine r t e) = en_canceled e"
  "en_reconciler (halt_engine r t e) = en_reconciler e" "en_orderService (halt_engine r t e) = en_orderService e"
  by (simp_all add: halt_engine_def)

lemma en_publish_frame [simp]:
  "engine_State (en_publish ev e) = engine_State e"
  "en_config (en_publish ev e) = en_config e" "en_ntpFailures (en_publish ev e) = en_ntpFailures e"
  "en_ntpLastSync (en_publish ev e) = en_ntpLastSync e" "en_workers (en_publish ev e) = en_workers e"
  "en_calls (en_publish ev e) = en_calls e" "en_reconciler (en_publish ev e) = en_reconciler e"
  "en_orderService (en_publish ev e) = en_orderService e"
  "en_bus_closed (en_publish ev e) = en_bus_closed e" "en_canceled (en_publish ev e) = en_canceled e"
  by (simp_all add: en_publish_def engine_State_def)

lemma engine_State_frame [simp]:
  "engine_State (e\<lparr>en_breaker := cb\<rparr>) = engine_State e" "engine_State (e\<lparr>en_ntp := w\<rparr>) = engine_State e"
  "engine_State (e\<lparr>en_ntpFailures := n\<rparr>) = engine_State e" "engine_State (e\<lparr>en_ntpLastSync := t\<rparr>) = engine_State e"
  "engine_State (e\<lparr>en_calls := cs\<rparr>) = engine_State e" "engine_State (e\<lparr>en_workers := ws\<rparr>) = engine_State e"
  "engine_State (e\<lparr>en_bus_closed := b\<rparr>) = engine_State e" "engine_State (e\<lparr>en_canceled := b\<rparr>) = engine_State e"
  "engine_State (e\<lparr>en_streaming := b\<rparr>) = engine_State e"
  by (simp_all add: engine_State_def)

lemma recoverWorker_simps [simp]:
  "engine_State (recoverWorker w t e) = StateHalted" "en_workers (recoverWorker w t e) = en_workers e - {#w#}"
  by (simp_all add: recoverWorker_def)

subsection \<open>The NTP worker\<close>

text \<open>Whether the breaker lets the check of this tick run, and what it measures.\<close>

definition ntp_measured :: "time \<Rightarrow> (string \<Rightarrow> string + duration) \<Rightarrow> 'd engine \<Rightarrow> duration option" where
  "ntp_measured now ask e =
     (if en_canceled e then None
      else case beforeRequest now (en_breaker e) of
             (_, Inl _) \<Rightarrow> None
           | (_, Inr _) \<Rightarrow> (case ask_servers ask (nw_servers (en_ntp e)) None of Inl _ \<Rightarrow> None | Inr d \<Rightarrow> Some d))"

lemma ntp_tick_measured:
  "\<exists>cb. ntp_tick now later ask e =
     (case ntp_measured now ask e of
        None \<Rightarrow> ntp_tick_failed later (e\<lparr>en_breaker := cb\<rparr>)
      | Some d \<Rightarrow> ntp_tick_succeeded d later (e\<lparr>en_breaker := cb, en_ntp := (en_ntp e)\<lparr>nw_drift := d, nw_lastSync := now\<rparr>\<rparr>))"
  by (auto simp: ntp_tick_def ntp_measured_def ntp_Check_def Execute_def Let_def
      split: prod.splits sum.splits option.splits if_splits)

text \<open>A tick of the NTP worker. A tick counts as failed when no server answers, when the circuit
  breaker refuses the check or when the engine is stopping; it halts the engine exactly when the
  consecutive failures reach the tolerance or the last success is older than the degraded period. A
  measured drift resets the count, and halts the engine exactly when it exceeds the bound. In every
  other case the state is left alone.\<close>

theorem ntp_tick_decides:
  "case ntp_measured now ask e of
     None \<Rightarrow> en_ntpFailures (ntp_tick now later ask e) = en_ntpFailures e + 1 \<and>
       en_ntpLastSync (ntp_tick now later ask e) = en_ntpLastSync e \<and>
       engine_State (ntp_tick now later ask e) =
         (if NTPFailureTolerance (en_config e) \<le> en_ntpFailures e + 1 \<or>
             en_ntpLastSync e \<noteq> 0 \<and> NTPDegradedModeDuration (en_config e) < later - en_ntpLastSync e
          then StateHalted else engine_State e)
   | Some d \<Rightarrow> en_ntpFailures (ntp_tick now later ask e) = 0 \<and> en_ntpLastSync (ntp_tick now later ask e) = later \<and>
       engine_State (ntp_tick now later ask e) =
         (if nw_maxDrift (en_ntp e) < d then StateHalted else engine_State e)"
  using ntp_tick_measured [of now later ask e]
  by (auto simp: ntp_tick_failed_def ntp_tick_succeeded_def ntp_IsHealthy_def Let_def split: option.splits)

text \<open>An outage: in every tick no server answers. Ticks are (start, end, answers).\<close>

definition ntp_ticks :: "(time \<times> time \<times> (string \<Rightarrow> string + duration)) list \<Rightarrow> 'd engine \<Rightarrow> 'd engine" where
  "ntp_ticks ts e = fold (\<lambda>(now, later, ask). ntp_tick now later ask) ts e"

lemma ask_servers_none: "\<forall>srv. isl (ask srv) \<Longrightarrow> isl (ask_servers ask srvs err)"
proof (induction srvs arbitrary: err)
  case (Cons a srvs)
  from Cons.prems obtain m where "ask a = Inl m" by (meson isl_def)
  then show ?case using Cons by simp
qed simp

lemma outage_measures_nothing: "\<forall>srv. isl (ask srv) \<Longrightarrow> ntp_measured now ask e = None"
  using ask_servers_none [of ask "nw_servers (en_ntp e)" None]
  by (auto simp: ntp_measured_def split: sum.splits)

lemma ntp_tick_config [simp]: "en_config (ntp_tick now later ask e) = en_config e"
  using ntp_tick_measured [of now later ask e]
  by (auto simp: ntp_tick_failed_def ntp_tick_succeeded_def Let_def split: option.splits)

lemma ntp_outage_tick:
  assumes "\<forall>srv. isl (ask srv)"
  shows "en_ntpFailures (ntp_tick now later ask e) = en_ntpFailures e + 1"
    "en_ntpLastSync (ntp_tick now later ask e) = en_ntpLastSync e"
    "engine_State (ntp_tick now later ask e) =
       (if NTPFailureTolerance (en_config e) \<le> en_ntpFailures e + 1 \<or>
           en_ntpLastSync e \<noteq> 0 \<and> NTPDegradedModeDuration (en_config e) < later - en_ntpLastSync e
        then StateHalted else engine_State e)"
  using ntp_tick_measured [of now later ask e] outage_measures_nothing [OF assms, of now e]
  by (auto simp: ntp_tick_failed_def Let_def)

text \<open>While the NTP servers are unreachable, the engine is halted at the latest by the tick that
  brings the consecutive failures to the tolerance, or the first one after the degraded period has
  passed since the last success; before that no tick changes the engine's state. The circuit breaker
  around the check does not change this, whatever state it is in.\<close>

theorem ntp_outage_halts:
  assumes "\<forall>(now, later, ask) \<in> set ts. \<forall>srv. isl (ask srv)"
  shows "engine_State (ntp_ticks ts e) =
     (if \<exists>i < length ts. NTPFailureTolerance (en_config e) \<le> en_ntpFailures e + int i + 1 \<or>
           en_ntpLastSync e \<noteq> 0 \<and> NTPDegradedModeDuration (en_config e) < fst (snd (ts ! i)) - en_ntpLastSync e
      then StateHalted else engine_State e)"
  using assms
proof (induction ts arbitrary: e)
  case Nil
  then show ?case by (simp add: ntp_ticks_def)
next
  case (Cons t ts)
  obtain now later ask where t: "t = (now, later, ask)" by (cases t)
  have down: "\<forall>srv. isl (ask srv)" using Cons.prems t by auto
  let ?e = "ntp_tick now later ask e"
  have run: "ntp_ticks (t # ts) e = ntp_ticks ts ?e" by (simp add: ntp_ticks_def t)
  have "\<forall>(now, later, ask) \<in> set ts. \<forall>srv. isl (ask srv)" using Cons.prems by simp
  note IH = Cons.IH [OF this, of ?e]
  define P where "P i \<longleftrightarrow> NTPFailureTolerance (en_config e) \<le> en_ntpFailures e + int i + 1 \<or>
     en_ntpLastSync e \<noteq> 0 \<and> NTPDegradedModeDuration (en_config e) < fst (snd ((t # ts) ! i)) - en_ntpLastSync e" for i
  have "engine_State (ntp_ticks ts ?e) = (if \<exists>i < length ts. P (Suc i) then StateHalted else engine_State ?e)"
    unfolding IH by (simp add: P_def ntp_outage_tick [OF down] ac_simps)
  moreover have "engine_State ?e = (if P 0 then StateHalted else engine_State e)"
    by (simp add: P_def ntp_outage_tick [OF down] t ac_simps)
  moreover have "(\<exists>i < length (t # ts). P i) \<longleftrightarrow> P 0 \<or> (\<exists>i < length ts. P (Suc i))"
    by (metis Suc_less_eq length_Cons not0_implies_Suc zero_less_Suc)
  ultimately show ?case unfolding run P_def [symmetric] by (auto split: if_splits)
qed

lemma ntp_outage_halts_witness:
  "engine_State (ntp_ticks (replicate 5 (7, 8, \<lambda>_. Inl ''timeout'')) (engine_New True None (\<lambda>_. make_chan 0) 1 :: int engine))
     = StateHalted"
  by (subst ntp_outage_halts) (auto simp: engine_New_def engine_DefaultConfig_def dest!: spec [of _ "4 :: nat"])

subsection \<open>Stream events\<close>

lemma en_publish_open: "\<not> en_bus_closed e \<Longrightarrow> \<not> en_canceled e \<Longrightarrow> en_published (en_publish ev e) = en_published e @ [ev]"
  by (simp add: en_publish_def)

lemmas stream_defs = handleStreamEvent_def reconcileAfterStreamEvent_def publishStreamReconciliationError_def
  publishStreamLifecycleAlert_def haltLiveTradingForStreamEvent_def Let_def

text \<open>An event of the connector's stream. A lost connection or a gap halts live trading and leaves
  every other state as it is; no event ever leaves the halted state. A gap and a reconnection ask
  for a reconciliation, exactly one, of the full reconciler if there is one and else of the order
  service; a failure of it is published. The alert comes first, critical for a gap.\<close>

theorem stream_event_response:
  "case handleStreamEvent (Some ev) answer now e of (e', panicked) \<Rightarrow>
     engine_State e' = (if engine_State e = StateLiveTrading \<and> se_Type ev \<in> {StreamEventDisconnected, StreamEventGap}
                        then StateHalted else engine_State e) \<and>
     en_calls e' = en_calls e @
       (if se_Type ev \<in> {StreamEventGap, StreamEventReconnected} then
          if en_reconciler e then [CallReconcileAll] else if en_orderService e then [CallReconcileOrders] else []
        else []) \<and>
     (panicked \<longleftrightarrow> en_calls e' \<noteq> en_calls e \<and> answer = Panic) \<and>
     (\<not> en_bus_closed e \<and> \<not> en_canceled e \<longrightarrow>
        en_published e' = en_published e @
           [alert_event (if se_Type ev = StreamEventGap then AlertLevelCritical else AlertLevelWarning)
              ((case se_Type ev of StreamEventDisconnected \<Rightarrow> ''Connector stream disconnected''
                 | StreamEventGap \<Rightarrow> ''Connector stream gap detected''
                 | StreamEventReconnected \<Rightarrow> ''Connector stream reconnected''
                 | StreamEventOther _ \<Rightarrow> ''Connector stream event received'') @ '': '' @ se_Reason ev) now] @
           (case answer of
              Fail err \<Rightarrow> if en_calls e' \<noteq> en_calls e then [critical_event EventTypeError
                 (ErrorBody err (''Reconciliation after stream event failed: '' @ stream_event_text (se_Type ev)) now)] else []
            | _ \<Rightarrow> []))"
proof -
  let ?r = "handleStreamEvent (Some ev) answer now e"
  note defs = stream_defs en_publish_open
  have "engine_State (fst ?r) = (if engine_State e = StateLiveTrading \<and> se_Type ev \<in> {StreamEventDisconnected, StreamEventGap}
      then StateHalted else engine_State e)"
    by (cases "se_Type ev"; cases answer) (simp_all add: defs)
  moreover have "en_calls (fst ?r) = en_calls e @
       (if se_Type ev \<in> {StreamEventGap, StreamEventReconnected} then
          if en_reconciler e then [CallReconcileAll] else if en_orderService e then [CallReconcileOrders] else []
        else [])"
    by (cases "se_Type ev"; cases answer) (simp_all add: defs)
  moreover have "snd ?r \<longleftrightarrow> en_calls (fst ?r) \<noteq> en_calls e \<and> answer = Panic"
    by (cases "se_Type ev"; cases answer) (simp_all add: defs)
  moreover have "en_published (fst ?r) = en_published e @
           [alert_event (if se_Type ev = StreamEventGap then AlertLevelCritical else AlertLevelWarning)
              ((case se_Type ev of StreamEventDisconnected \<Rightarrow> ''Connector stream disconnected''
                 | StreamEventGap \<Rightarrow> ''Connector stream gap detected''
                 | StreamEventReconnected \<Rightarrow> ''Connector stream reconnected''
                 | StreamEventOther _ \<Rightarrow> ''Connector stream event received'') @ '': '' @ se_Reason ev) now] @
           (case answer of
              Fail err \<Rightarrow> if en_calls (fst ?r) \<noteq> en_calls e then [critical_event EventTypeError
                 (ErrorBody err (''Reconciliation after stream event failed: '' @ stream_event_text (se_Type ev)) now)] else []
            | _ \<Rightarrow> [])" if "\<not> en_bus_closed e" "\<not> en_canceled e"
    using that by (cases "se_Type ev"; cases answer) (simp_all add: defs)
  ultimately show ?thesis by (simp add: case_prod_beta)
qed

definition gap_event :: stream_event where
  "gap_event = \<lparr>se_Type = StreamEventGap, se_Source = ''ws'', se_Reason = ''seq 7'', se_OccurredAtUTC = 5\<rparr>"

lemma stream_event_response_witness:
  "let e = fst (TransitionTo StateLiveTrading ''go'' 2 (engine_New True None (\<lambda>_. make_chan 0) 1 :: int engine));
       e' = fst (handleStreamEvent (Some gap_event) (Fail ''down'') 9 e)
   in engine_State e' = StateHalted \<and> en_calls e' = [CallReconcileOrders] \<and>
      en_published e' = [alert_event AlertLevelCritical ''Connector stream gap detected: seq 7'' 9,
        critical_event EventTypeError (ErrorBody ''down'' ''Reconciliation after stream event failed: gap'' 9)]"
  using stream_event_response [where ev = gap_event and answer = "Fail ''down''" and now = 9 and
      e = "fst (TransitionTo StateLiveTrading ''go'' 2 (engine_New True None (\<lambda>_. make_chan 0) 1 :: int engine))"]
  by (simp add: Let_def case_prod_beta gap_event_def engine_New_def TransitionTo_def Transition_def NewStateMachine_def
      isValidTransition_def engine_State_def)

subsection \<open>Workers that died\<close>

lemma ntp_dead_step:
  assumes "NtpSyncWorker \<notin># en_workers e" "\<And>c. op \<noteq> EngineStart c"
  shows "NtpSyncWorker \<notin># en_workers (engine_step op e)"
proof -
  have frame: "en_workers (ntp_tick n l a e) = en_workers e" for n l a
    using ntp_tick_measured [of n l a e]
    by (auto simp: ntp_tick_failed_def ntp_tick_succeeded_def Let_def split: option.splits)
  have stream: "en_workers (fst (handleStreamEvent ev answer now e)) = en_workers e" for ev answer now
    by (auto simp: stream_defs split: option.splits stream_event_type.splits outcome.splits)
  show ?thesis
  proof (cases op)
    case (EngineStream inp now)
    show ?thesis
    proof (cases inp)
      case (StreamReceived ev answer)
      show ?thesis using assms(1) stream [of ev answer now]
        by (cases "handleStreamEvent ev answer now e")
          (auto simp: EngineStream StreamReceived streamEventWorker_def dest: in_diffD)
    qed (use assms(1) EngineStream in \<open>auto simp: streamEventWorker_def split: option.splits sum.splits\<close>)
  qed (use assms in \<open>auto simp: frame handleStateTransitions_def reconciliation_tick_def PublishDomainEvent_def Let_def
      split: list.splits outcome.splits domain_event_kind.splits dest: in_diffD\<close>)
qed

text \<open>A worker that panicked is not started again. A panic in the NTP worker halts the engine, but the
  operator can put the engine back to idle and then to live trading, and from then on, whatever else
  happens short of another \<open>Start\<close>, no answer of the NTP servers has any effect: the drift check that
  the engine promises is gone without a trace in its state.\<close>

theorem panicked_ntp_worker_is_not_replaced:
  assumes "count (en_workers e) NtpSyncWorker = 1" "\<forall>op \<in> set ops. \<forall>c. op \<noteq> EngineStart c"
  shows "engine_State (engine_step (EnginePanic NtpSyncWorker t1) e) = StateHalted \<and>
     (let live = engine_run [EnginePanic NtpSyncWorker t1, EngineTransition StateIdle r2 t2, EngineTransition StateLiveTrading r3 t3] e
      in engine_State live = StateLiveTrading \<and>
         engine_step (EngineNtp now later ask) (engine_run ops live) = engine_run ops live)"
proof -
  let ?p = "engine_step (EnginePanic NtpSyncWorker t1) e"
  let ?live = "engine_run [EnginePanic NtpSyncWorker t1, EngineTransition StateIdle r2 t2, EngineTransition StateLiveTrading r3 t3] e"
  have here: "NtpSyncWorker \<in># en_workers e" using assms(1) by (metis count_eq_zero_iff zero_neq_one)
  then have halted: "engine_State ?p = StateHalted" by simp
  have dead: "NtpSyncWorker \<notin># en_workers ?p" using here assms(1) by (simp add: not_in_iff)
  have "engine_State ?live = StateLiveTrading"
    using halted by (simp add: engine_run_def TransitionTo_def Transition_def isValidTransition_def engine_State_def Let_def)
  moreover have "NtpSyncWorker \<notin># en_workers (engine_run ops ?live)"
  proof -
    have "NtpSyncWorker \<notin># en_workers (engine_run xs e')"
      if "NtpSyncWorker \<notin># en_workers e'" "\<forall>op \<in> set xs. \<forall>c. op \<noteq> EngineStart c" for xs and e' :: "'d engine"
      using that unfolding engine_run_def
    proof (induction xs arbitrary: e')
      case Nil then show ?case by simp
    next
      case (Cons x xs)
      then show ?case using ntp_dead_step [of e' x] by simp
    qed
    moreover have "NtpSyncWorker \<notin># en_workers ?live" using dead by (simp add: engine_run_def)
    ultimately show ?thesis using assms(2) by blast
  qed
  ultimately show ?thesis using halted by (simp add: Let_def)
qed

lemma panicked_ntp_worker_is_not_replaced_witness:
  "let e = engine_Start 0 (engine_New True None (\<lambda>_. make_chan 0) 1 :: int engine);
       live = engine_run [EnginePanic NtpSyncWorker 2, EngineTransition StateIdle ''reset'' 3, EngineTransition StateLiveTrading ''go'' 4] e
   in engine_State live = StateLiveTrading \<and> engine_step (EngineNtp 5 6 (\<lambda>_. Inr hour)) live = live"
  using panicked_ntp_worker_is_not_replaced [of "engine_Start 0 (engine_New True None (\<lambda>_. make_chan 0) 1 :: int engine)" "[]"
      2 "''reset''" 3 "''go''" 4 5 6 "\<lambda>_. Inr hour"]
  by (simp add: engine_Start_def engine_New_def engine_run_def Engine_State.Subscribe_def Let_def)

subsection \<open>The shutdown sequence\<close>

lemma en_call_simps [simp]:
  "en_calls (en_call cs e) = en_calls e @ cs" "engine_State (en_call cs e) = engine_State e"
  "en_connector (en_call cs e) = en_connector e" "en_storage (en_call cs e) = en_storage e"
  "en_executor (en_call cs e) = en_executor e"
  by (simp_all add: en_call_def)

text \<open>What each step of the sequence does, as functions of the engine it finds.\<close>

lemma cancelAllOrders_effect:
  assumes "\<And>xs. mset (sd_schedule S xs) = mset xs"
  shows "\<exists>ids r. cancelAllOrders S e = (if en_connector e then en_call (CallGetOpenOrders # map CallCancelOrder ids) e else e, r) \<and>
     mset ids = (case sd_open_orders S of Inl _ \<Rightarrow> {#} | Inr orders \<Rightarrow> image_mset o_ID (mset orders)) \<and>
     (r = Inr () \<longleftrightarrow> (en_connector e \<longrightarrow> (\<exists>orders. sd_open_orders S = Inr orders \<and> (\<forall>ord \<in> set orders. sd_cancel S (o_ID ord) = None))))"
proof (cases "sd_open_orders S")
  case (Inl err)
  then show ?thesis by (auto simp: cancelAllOrders_def Let_def intro!: exI [of _ "[]"])
next
  case (Inr orders)
  let ?ids = "map o_ID (sd_schedule S orders)"
  have m: "mset ?ids = image_mset o_ID (mset orders)" using assms by simp
  have st: "set (sd_schedule S orders) = set orders" using assms by (metis set_mset_mset)
  have none: "List.map_filter (sd_cancel S) ?ids = [] \<longleftrightarrow> (\<forall>ord \<in> set orders. sd_cancel S (o_ID ord) = None)"
    by (auto simp: List.map_filter_def filter_empty_conv st)
  have nil: "?ids = []" if "orders = []" using m that by simp
  show ?thesis
  proof (cases orders)
    case Nil
    then show ?thesis using Inr nil by (auto simp: cancelAllOrders_def Let_def intro!: exI [of _ "[]"])
  next
    case (Cons x xs)
    then have "cancelAllOrders S e = (if en_connector e
        then (en_call (CallGetOpenOrders # map CallCancelOrder ?ids) e,
              if List.map_filter (sd_cancel S) ?ids \<noteq> [] then Err (FailedToCancel (List.map_filter (sd_cancel S) ?ids)) else Ok ())
        else (e, Ok ()))"
      using Inr by (simp add: cancelAllOrders_def Let_def en_call_def)
    then show ?thesis using Inr m none by (auto intro!: exI [of _ ?ids])
  qed
qed

lemma closeConnections_effect:
  "closeConnections S e = (en_call ((if en_connector e then [CallDisconnect] else []) @ (if en_storage e then [CallStorageClose] else [])) e
       \<lparr>en_bus_closed := True\<rparr>,
     (if en_connector e then (case sd_disconnect S of Some err \<Rightarrow> [DisconnectFailed err] | None \<Rightarrow> []) else []) @
     (if en_storage e then (case sd_storage S of Some err \<Rightarrow> [CloseStorageFailed err] | None \<Rightarrow> []) else []))"
  by (simp add: closeConnections_def en_call_def)

lemma unloadStrategies_effect:
  "unloadStrategies S e = (if en_executor e then (en_call [CallUnloadAll] e, case sd_unload S of Some err \<Rightarrow> Err err | None \<Rightarrow> Ok ())
     else (e, Ok ()))"
  by (simp add: unloadStrategies_def)

lemma engine_Stop_halted:
  "engine_State e = StateHalted \<Longrightarrow>
     engine_Stop now e = (e\<lparr>en_canceled := True, en_workers := {#}, en_bus_closed := True\<rparr>, Ok ())"
  by (simp add: engine_Stop_def)

lemma halting_step:
  "\<exists>e1. (if engine_State e \<noteq> StateHalted then
          (case TransitionTo StateHalted r now e of (e', Inl err) \<Rightarrow> (e', [TransitionToHalted err]) | (e', Inr _) \<Rightarrow> (e', []))
        else (e, [])) = (e1, []) \<and> engine_State e1 = StateHalted \<and> en_calls e1 = en_calls e \<and>
     en_connector e1 = en_connector e \<and> en_storage e1 = en_storage e \<and> en_executor e1 = en_executor e"
proof (cases "engine_State e = StateHalted")
  case False
  then obtain e' where "TransitionTo StateHalted r now e = (e', Inr ())" "engine_State e' = StateHalted"
    using TransitionTo_halt by blast
  with False show ?thesis using TransitionTo_frame [of StateHalted r now e] by simp
qed simp


definition failing_env :: "'d shutdown_env" where
  "failing_env = \<lparr>sd_open_orders = Inl ''timeout'', sd_schedule = rev, sd_cancel = (\<lambda>_. None), sd_unload = None,
     sd_disconnect = None, sd_storage = None\<rparr>"


end
