(* ===== verification/Strategy_Builder.thy ===== *)
theory Strategy_Builder
  imports Decimal Go_Text
begin

text \<open>
  The no-code strategy builder, \<open>internal/strategy/builder\<close>: templates with typed parameters and
  placeholders (\<open>models.go\<close>), and the service that makes instances of them (\<open>service.go\<close>). A value of
  Go's type \<open>interface{}\<close> is a \<open>val\<close>; a type assertion to the wrong type panics. The service has no
  lock, so its methods run one after the other. Identifiers and instants are arguments.
\<close>

subsection \<open>Values\<close>

text \<open>A float64 as far as it is compared here: a NaN is not less than anything.\<close>

datatype float64 = NaN | NegInf | Fin rat | PosInf

fun float_less :: "float64 \<Rightarrow> float64 \<Rightarrow> bool" where
  "float_less NaN y = False"
| "float_less x NaN = False"
| "float_less NegInf y = (y \<noteq> NegInf)"
| "float_less (Fin p) NegInf = False"
| "float_less (Fin p) (Fin q) = (p < q)"
| "float_less (Fin p) PosInf = True"
| "float_less PosInf y = False"

text \<open>\<open>VOther\<close> is a value of any other Go type.\<close>

datatype 'd val = VNil | VInt int | VFloat float64 | VDec 'd | VStr string | VBool bool | VOther string

type_synonym 'd params = "string \<rightharpoonup> 'd val"

subsection \<open>Templates\<close>

datatype strategy_category =
    CategoryTrend | CategoryMeanRevert | CategoryMomentum | CategoryBreakout | CategoryArbitrage | CategoryCustom
  | CategoryOther string

datatype parameter_type =
    ParameterTypeInt | ParameterTypeFloat | ParameterTypeDecimal | ParameterTypeString | ParameterTypeBool
  | ParameterTypeEnum | ParameterTypeOther string

record 'd parameter_definition =
  pd_Key :: string
  pd_Name :: string
  pd_Description :: string
  pd_Type :: parameter_type
  pd_DefaultValue :: "'d val"
  pd_MinValue :: "'d val"
  pd_MaxValue :: "'d val"
  pd_Required :: bool
  pd_Options :: "string list"

datatype indicator_type =
    IndicatorTypeSMA | IndicatorTypeEMA | IndicatorTypeRSI | IndicatorTypeMACD | IndicatorTypeBollinger
  | IndicatorTypeATR | IndicatorTypeStochastic | IndicatorTypeVolume | IndicatorTypeOther string

record 'd indicator_config =
  ic_Type :: indicator_type
  ic_Parameters :: "'d params"
  ic_OutputKey :: string

datatype rule_type = RuleTypeEntry | RuleTypeExit | RuleTypeStop | RuleTypeOther string

datatype value_source_type =
    ValueSourceStatic | ValueSourceIndicator | ValueSourcePrice | ValueSourceVolume | ValueSourcePosition
  | ValueSourceBalance | ValueSourceOther string

datatype 'd value_source = ValueSource (vs_Type: value_source_type) (vs_Value: "'d val")

datatype condition_operator =
    OperatorGreaterThan | OperatorLessThan | OperatorEquals | OperatorGreaterOrEqual | OperatorLessOrEqual
  | OperatorCrossAbove | OperatorCrossBelow | OperatorAnd | OperatorOr | OperatorOther string

datatype 'd condition =
  Condition condition_operator "'d value_source" "'d value_source" "'d condition list"

datatype action_type = ActionTypeMarketOrder | ActionTypeLimitOrder | ActionTypeClosePosition | ActionTypeOther string
datatype price_type = PriceTypeMarket | PriceTypeLimit | PriceTypeStop | PriceTypeOther string
datatype quantity_type = QuantityTypeFixed | QuantityTypePercentage | QuantityTypeRiskBased | QuantityTypeOther string

record 'd quantity_config =
  qc_Type :: quantity_type
  qc_Value :: "'d val"

record 'd action_config =
  ac_Type :: action_type
  ac_Side :: string
  ac_Quantity :: "'d quantity_config"
  ac_PriceType :: price_type
  ac_PriceValue :: "'d val"

record 'd rule_config =
  rl_Type :: rule_type
  rl_Condition :: "'d condition"
  rl_Action :: "'d action_config"

record 'd strategy_template =
  t_ID :: string
  t_Name :: string
  t_Description :: string
  t_Category :: strategy_category
  t_Parameters :: "'d parameter_definition list"
  t_Indicators :: "'d indicator_config list"
  t_Rules :: "'d rule_config list"

record 'd strategy_instance =
  si_ID :: string
  si_TemplateID :: string
  si_Name :: string
  si_Description :: string
  si_Symbol :: string
  si_Enabled :: bool
  si_Parameters :: "'d params"
  si_Indicators :: "'d indicator_config list"
  si_Rules :: "'d rule_config list"
  si_CreatedAt :: time
  si_UpdatedAt :: time

text \<open>The built-in templates; \<open>close_action\<close> is an \<open>ActionConfig\<close> with the zero value in every other field.\<close>

definition required_param :: "string \<Rightarrow> string \<Rightarrow> string \<Rightarrow> parameter_type \<Rightarrow> 'd val \<Rightarrow> 'd val \<Rightarrow> 'd val \<Rightarrow> 'd parameter_definition" where
  "required_param key name descr ty def lo hi = \<lparr>pd_Key = key, pd_Name = name, pd_Description = descr, pd_Type = ty,
     pd_DefaultValue = def, pd_MinValue = lo, pd_MaxValue = hi, pd_Required = True, pd_Options = []\<rparr>"

definition quantity_param :: "'d::linordered_idom dec_lib \<Rightarrow> 'd parameter_definition" where
  "quantity_param D = required_param ''quantity'' ''Order Quantity'' ''Fixed quantity per order'' ParameterTypeDecimal
     (VDec (dec_shift D (from_int 1) (- 2))) (VDec (dec_shift D (from_int 1) (- 3))) (VDec (from_int 100))"

definition market_buy :: "'d action_config" where
  "market_buy = \<lparr>ac_Type = ActionTypeMarketOrder, ac_Side = ''BUY'',
     ac_Quantity = \<lparr>qc_Type = QuantityTypeFixed, qc_Value = VStr ''{{quantity}}''\<rparr>,
     ac_PriceType = PriceTypeMarket, ac_PriceValue = VNil\<rparr>"

definition close_action :: "'d action_config" where
  "close_action = \<lparr>ac_Type = ActionTypeClosePosition, ac_Side = '''',
     ac_Quantity = \<lparr>qc_Type = QuantityTypeOther '''', qc_Value = VNil\<rparr>,
     ac_PriceType = PriceTypeOther '''', ac_PriceValue = VNil\<rparr>"

definition indicator_value :: "string \<Rightarrow> 'd value_source" where
  "indicator_value key = ValueSource ValueSourceIndicator (VStr key)"

definition sma_crossover_template :: "'d::linordered_idom dec_lib \<Rightarrow> 'd strategy_template" where
  "sma_crossover_template D =
     \<lparr>t_ID = ''sma_crossover'', t_Name = ''SMA Crossover'',
      t_Description = ''Buy when fast SMA crosses above slow SMA, sell when it crosses below'',
      t_Category = CategoryTrend,
      t_Parameters =
        [required_param ''fast_period'' ''Fast SMA Period'' ''Period for fast moving average'' ParameterTypeInt
           (VInt 10) (VInt 5) (VInt 50),
         required_param ''slow_period'' ''Slow SMA Period'' ''Period for slow moving average'' ParameterTypeInt
           (VInt 30) (VInt 20) (VInt 200),
         quantity_param D],
      t_Indicators =
        [\<lparr>ic_Type = IndicatorTypeSMA, ic_Parameters = [''period'' \<mapsto> VStr ''{{fast_period}}''], ic_OutputKey = ''sma_fast''\<rparr>,
         \<lparr>ic_Type = IndicatorTypeSMA, ic_Parameters = [''period'' \<mapsto> VStr ''{{slow_period}}''], ic_OutputKey = ''sma_slow''\<rparr>],
      t_Rules =
        [\<lparr>rl_Type = RuleTypeEntry,
          rl_Condition = Condition OperatorCrossAbove (indicator_value ''sma_fast'') (indicator_value ''sma_slow'') [],
          rl_Action = market_buy\<rparr>,
         \<lparr>rl_Type = RuleTypeExit,
          rl_Condition = Condition OperatorCrossBelow (indicator_value ''sma_fast'') (indicator_value ''sma_slow'') [],
          rl_Action = close_action\<rparr>]\<rparr>"

definition rsi_mean_revert_template :: "'d::linordered_idom dec_lib \<Rightarrow> 'd strategy_template" where
  "rsi_mean_revert_template D =
     \<lparr>t_ID = ''rsi_mean_revert'', t_Name = ''RSI Mean Reversion'',
      t_Description = ''Buy when RSI is oversold, sell when overbought'',
      t_Category = CategoryMeanRevert,
      t_Parameters =
        [required_param ''rsi_period'' ''RSI Period'' ''Period for RSI calculation'' ParameterTypeInt
           (VInt 14) (VInt 7) (VInt 30),
         required_param ''oversold_level'' ''Oversold Level'' ''RSI level considered oversold'' ParameterTypeInt
           (VInt 30) (VInt 10) (VInt 40),
         required_param ''overbought_level'' ''Overbought Level'' ''RSI level considered overbought'' ParameterTypeInt
           (VInt 70) (VInt 60) (VInt 90),
         quantity_param D],
      t_Indicators =
        [\<lparr>ic_Type = IndicatorTypeRSI, ic_Parameters = [''period'' \<mapsto> VStr ''{{rsi_period}}''], ic_OutputKey = ''rsi''\<rparr>],
      t_Rules =
        [\<lparr>rl_Type = RuleTypeEntry,
          rl_Condition = Condition OperatorLessThan (indicator_value ''rsi'')
            (ValueSource ValueSourceStatic (VStr ''{{oversold_level}}'')) [],
          rl_Action = market_buy\<rparr>,
         \<lparr>rl_Type = RuleTypeExit,
          rl_Condition = Condition OperatorGreaterThan (indicator_value ''rsi'')
            (ValueSource ValueSourceStatic (VStr ''{{overbought_level}}'')) [],
          rl_Action = close_action\<rparr>]\<rparr>"

type_synonym 'd template_library = "string \<rightharpoonup> 'd strategy_template"

definition NewTemplateLibrary :: "'d::linordered_idom dec_lib \<Rightarrow> 'd template_library" where
  "NewTemplateLibrary D =
     [''sma_crossover'' \<mapsto> sma_crossover_template D, ''rsi_mean_revert'' \<mapsto> rsi_mean_revert_template D]"

datatype 'd parameter_error =
    WrongType parameter_type "'d val" | BelowMinimum "'d val" "'d val" | AboveMaximum "'d val" "'d val"
  | NotAnOption string

datatype 'd builder_error =
    TemplateNotFound string | TemplateIDRequired | TemplateExists string | InstanceNotFound string
  | MissingParameter string | BadParameter string "'d parameter_error"
  | IDRequired | NameRequired | SymbolRequired | NoRules

definition lib_GetTemplate :: "'d template_library \<Rightarrow> string \<Rightarrow> 'd builder_error + 'd strategy_template" where
  "lib_GetTemplate lib tid = (case lib tid of None \<Rightarrow> Err (TemplateNotFound tid) | Some t \<Rightarrow> Ok t)"

definition AddTemplate :: "'d strategy_template \<Rightarrow> 'd template_library \<Rightarrow> 'd builder_error + 'd template_library" where
  "AddTemplate t lib =
     (if t_ID t = '''' then Err TemplateIDRequired
      else if lib (t_ID t) \<noteq> None then Err (TemplateExists (t_ID t))
      else Ok (lib(t_ID t \<mapsto> t)))"

definition instance_Validate :: "'d strategy_instance \<Rightarrow> 'd builder_error + unit" where
  "instance_Validate si =
     (if si_ID si = '''' then Err IDRequired
      else if si_Name si = '''' then Err NameRequired
      else if si_Symbol si = '''' then Err SymbolRequired
      else if si_Rules si = [] then Err NoRules
      else Ok ())"

subsection \<open>Checking parameters\<close>

text \<open>\<open>check_bound\<close> is \<open>if def.MinValue != nil { if value < def.MinValue.(T) ... }\<close>, and the same for the
  maximum: \<open>cast\<close> is the type assertion, which panics on another type.\<close>

definition check_bound ::
  "('d val \<Rightarrow> 'x option) \<Rightarrow> ('x \<Rightarrow> bool) \<Rightarrow> ('d val \<Rightarrow> 'd parameter_error) \<Rightarrow> 'd val \<Rightarrow> ('d parameter_error, unit) outcome" where
  "check_bound cast outside err bound =
     (if bound = VNil then Return ()
      else case cast bound of
             None \<Rightarrow> Panic
           | Some b \<Rightarrow> if outside b then Fail (err bound) else Return ())"

fun as_int :: "'d val \<Rightarrow> int option" where
  "as_int (VInt n) = Some n" | "as_int _ = None"
fun as_float :: "'d val \<Rightarrow> float64 option" where
  "as_float (VFloat x) = Some x" | "as_float _ = None"
fun as_dec :: "'d val \<Rightarrow> 'd option" where
  "as_dec (VDec x) = Some x" | "as_dec _ = None"
fun as_str :: "'d val \<Rightarrow> string option" where
  "as_str (VStr s) = Some s" | "as_str _ = None"
fun as_bool :: "'d val \<Rightarrow> bool option" where
  "as_bool (VBool b) = Some b" | "as_bool _ = None"

text \<open>The three ordered types share the shape: the value's type, then the minimum, then the maximum.\<close>

definition check_ordered ::
  "('d val \<Rightarrow> 'x option) \<Rightarrow> ('x \<Rightarrow> 'x \<Rightarrow> bool) \<Rightarrow> 'd parameter_definition \<Rightarrow> 'd val \<Rightarrow> ('d parameter_error, unit) outcome" where
  "check_ordered cast below def v =
     (case cast v of
        None \<Rightarrow> Fail (WrongType (pd_Type def) v)
      | Some x \<Rightarrow>
          bind_outcome (check_bound cast (\<lambda>lo. below x lo) (BelowMinimum v) (pd_MinValue def))
            (\<lambda>_. check_bound cast (\<lambda>hi. below hi x) (AboveMaximum v) (pd_MaxValue def)))"

definition validateParameterValue ::
  "'d::linordered_idom parameter_definition \<Rightarrow> 'd val \<Rightarrow> ('d parameter_error, unit) outcome" where
  "validateParameterValue def v =
     (case pd_Type def of
        ParameterTypeInt \<Rightarrow> check_ordered as_int (<) def v
      | ParameterTypeFloat \<Rightarrow> check_ordered as_float float_less def v
      | ParameterTypeDecimal \<Rightarrow> check_ordered as_dec (<) def v
      | ParameterTypeString \<Rightarrow> if as_str v = None then Fail (WrongType (pd_Type def) v) else Return ()
      | ParameterTypeBool \<Rightarrow> if as_bool v = None then Fail (WrongType (pd_Type def) v) else Return ()
      | ParameterTypeEnum \<Rightarrow>
          (case as_str v of
             None \<Rightarrow> Fail (WrongType (pd_Type def) v)
           | Some s \<Rightarrow> if s \<in> set (pd_Options def) then Return () else Fail (NotAnOption s))
      | ParameterTypeOther _ \<Rightarrow> Return ())"

fun validateParameters ::
  "'d::linordered_idom parameter_definition list \<Rightarrow> 'd params \<Rightarrow> ('d builder_error, unit) outcome" where
  "validateParameters [] vals = Return ()"
| "validateParameters (def # defs) vals =
     (case vals (pd_Key def) of
        None \<Rightarrow> if pd_Required def then Fail (MissingParameter (pd_Key def)) else validateParameters defs vals
      | Some v \<Rightarrow>
          (case validateParameterValue def v of
             Panic \<Rightarrow> Panic
           | Fail e \<Rightarrow> Fail (BadParameter (pd_Key def) e)
           | Return _ \<Rightarrow> validateParameters defs vals))"

subsection \<open>Placeholders\<close>

text \<open>\<open>placeholder v\<close> is the parameter that a value like \<open>{{fast_period}}\<close> refers to.\<close>

definition placeholder :: "'d val \<Rightarrow> string option" where
  "placeholder v =
     (case as_str v of
        None \<Rightarrow> None
      | Some s \<Rightarrow>
          if HasPrefix s ''{{'' \<and> HasSuffix s ''}}''
          then Some (TrimSpace (TrimSuffix (TrimPrefix s ''{{'') ''}}'')) else None)"

definition resolveValue :: "'d params \<Rightarrow> 'd val \<Rightarrow> 'd val" where
  "resolveValue ps v =
     (case placeholder v of
        None \<Rightarrow> v
      | Some key \<Rightarrow> (case ps key of Some pv \<Rightarrow> pv | None \<Rightarrow> v))"

definition resolveMap :: "'d params \<Rightarrow> 'd params \<Rightarrow> 'd params" where
  "resolveMap ps m = (\<lambda>k. map_option (resolveValue ps) (m k))"

definition resolveIndicators :: "'d params \<Rightarrow> 'd indicator_config list \<Rightarrow> 'd indicator_config list" where
  "resolveIndicators ps inds = map (\<lambda>ic. ic\<lparr>ic_Parameters := resolveMap ps (ic_Parameters ic)\<rparr>) inds"

definition resolveValueSource :: "'d params \<Rightarrow> 'd value_source \<Rightarrow> 'd value_source" where
  "resolveValueSource ps src = ValueSource (vs_Type src) (resolveValue ps (vs_Value src))"

primrec resolveCondition :: "'d params \<Rightarrow> 'd condition \<Rightarrow> 'd condition" where
  "resolveCondition ps (Condition opr left right conds) =
     Condition opr (resolveValueSource ps left) (resolveValueSource ps right) (map (resolveCondition ps) conds)"

definition resolveQuantityConfig :: "'d params \<Rightarrow> 'd quantity_config \<Rightarrow> 'd quantity_config" where
  "resolveQuantityConfig ps qty = \<lparr>qc_Type = qc_Type qty, qc_Value = resolveValue ps (qc_Value qty)\<rparr>"

definition resolveAction :: "'d params \<Rightarrow> 'd action_config \<Rightarrow> 'd action_config" where
  "resolveAction ps act = \<lparr>ac_Type = ac_Type act, ac_Side = ac_Side act,
     ac_Quantity = resolveQuantityConfig ps (ac_Quantity act), ac_PriceType = ac_PriceType act,
     ac_PriceValue = resolveValue ps (ac_PriceValue act)\<rparr>"

definition resolveRules :: "'d params \<Rightarrow> 'd rule_config list \<Rightarrow> 'd rule_config list" where
  "resolveRules ps rules = map (\<lambda>rl. \<lparr>rl_Type = rl_Type rl, rl_Condition = resolveCondition ps (rl_Condition rl),
     rl_Action = resolveAction ps (rl_Action rl)\<rparr>) rules"

subsection \<open>The service\<close>

record 'd builder =
  bd_library :: "'d template_library"
  bd_instances :: "string \<rightharpoonup> 'd strategy_instance"

definition builder_NewService :: "'d::linordered_idom dec_lib \<Rightarrow> 'd builder" where
  "builder_NewService D = \<lparr>bd_library = NewTemplateLibrary D, bd_instances = Map.empty\<rparr>"

record 'd create_input =
  cr_TemplateID :: string
  cr_Name :: string
  cr_Description :: string
  cr_Symbol :: string
  cr_Parameters :: "'d params"

text \<open>\<open>None\<close> is a nil pointer (or nil map): the field is left as it is.\<close>

record 'd update_input =
  up_Name :: "string option"
  up_Description :: "string option"
  up_Symbol :: "string option"
  up_Enabled :: "bool option"
  up_Parameters :: "'d params option"

definition lift_error :: "('d builder_error + 'a) \<Rightarrow> ('d builder_error, 'a) outcome" where
  "lift_error r = (case r of Inl e \<Rightarrow> Fail e | Inr x \<Rightarrow> Return x)"

definition new_instance :: "string \<Rightarrow> time \<Rightarrow> 'd create_input \<Rightarrow> 'd strategy_template \<Rightarrow> 'd strategy_instance" where
  "new_instance uid now inp t =
     \<lparr>si_ID = uid, si_TemplateID = cr_TemplateID inp, si_Name = cr_Name inp, si_Description = cr_Description inp,
      si_Symbol = cr_Symbol inp, si_Enabled = False, si_Parameters = cr_Parameters inp,
      si_Indicators = resolveIndicators (cr_Parameters inp) (t_Indicators t),
      si_Rules = resolveRules (cr_Parameters inp) (t_Rules t), si_CreatedAt = now, si_UpdatedAt = now\<rparr>"

definition CreateInstance ::
  "string \<Rightarrow> time \<Rightarrow> 'd::linordered_idom create_input \<Rightarrow> 'd builder \<Rightarrow> 'd builder \<times> ('d builder_error, 'd strategy_instance) outcome" where
  "CreateInstance uid now inp svc =
     (case lib_GetTemplate (bd_library svc) (cr_TemplateID inp) of
        Inl e \<Rightarrow> (svc, Fail e)
      | Inr t \<Rightarrow>
          (case validateParameters (t_Parameters t) (cr_Parameters inp) of
             Panic \<Rightarrow> (svc, Panic)
           | Fail e \<Rightarrow> (svc, Fail e)
           | Return _ \<Rightarrow>
               (let si = new_instance uid now inp t in
                case instance_Validate si of
                  Inl e \<Rightarrow> (svc, Fail e)
                | Inr _ \<Rightarrow> (svc\<lparr>bd_instances := (bd_instances svc)(si_ID si \<mapsto> si)\<rparr>, Return si))))"

text \<open>\<open>UpdateInstance\<close> works on the stored instance itself: what it has written stays when it returns an
  error afterwards. \<open>put\<close> is that store.\<close>

definition update_fields :: "'d update_input \<Rightarrow> 'd strategy_instance \<Rightarrow> 'd strategy_instance" where
  "update_fields inp si =
     (let s1 = (case up_Name inp of None \<Rightarrow> si | Some x \<Rightarrow> si\<lparr>si_Name := x\<rparr>);
          s2 = (case up_Description inp of None \<Rightarrow> s1 | Some x \<Rightarrow> s1\<lparr>si_Description := x\<rparr>);
          s3 = (case up_Symbol inp of None \<Rightarrow> s2 | Some x \<Rightarrow> s2\<lparr>si_Symbol := x\<rparr>)
      in (case up_Enabled inp of None \<Rightarrow> s3 | Some x \<Rightarrow> s3\<lparr>si_Enabled := x\<rparr>))"

definition UpdateInstance ::
  "string \<Rightarrow> time \<Rightarrow> 'd::linordered_idom update_input \<Rightarrow> 'd builder \<Rightarrow> 'd builder \<times> ('d builder_error, 'd strategy_instance) outcome" where
  "UpdateInstance iid now inp svc =
     (let put = (\<lambda>si. svc\<lparr>bd_instances := (bd_instances svc)(iid \<mapsto> si)\<rparr>) in
      case bd_instances svc iid of
        None \<Rightarrow> (svc, Fail (InstanceNotFound iid))
      | Some si \<Rightarrow>
          (case lib_GetTemplate (bd_library svc) (si_TemplateID si) of
             Inl e \<Rightarrow> (svc, Fail e)
           | Inr t \<Rightarrow>
               let s1 = update_fields inp si;
                   finish = (\<lambda>s2. let s3 = s2\<lparr>si_UpdatedAt := now\<rparr>
                                 in (put s3, bind_outcome (lift_error (instance_Validate s3)) (\<lambda>_. Return s3)))
               in (case up_Parameters inp of
                     None \<Rightarrow> finish s1
                   | Some ps \<Rightarrow>
                       (case validateParameters (t_Parameters t) ps of
                          Panic \<Rightarrow> (put s1, Panic)
                        | Fail e \<Rightarrow> (put s1, Fail e)
                        | Return _ \<Rightarrow> finish (s1\<lparr>si_Parameters := ps, si_Indicators := resolveIndicators ps (t_Indicators t),
                                            si_Rules := resolveRules ps (t_Rules t)\<rparr>)))))"

definition GetInstance :: "string \<Rightarrow> 'd builder \<Rightarrow> 'd builder_error + 'd strategy_instance" where
  "GetInstance iid svc = (case bd_instances svc iid of None \<Rightarrow> Err (InstanceNotFound iid) | Some si \<Rightarrow> Ok si)"

definition DeleteInstance :: "string \<Rightarrow> 'd builder \<Rightarrow> 'd builder_error + 'd builder" where
  "DeleteInstance iid svc =
     (case bd_instances svc iid of
        None \<Rightarrow> Err (InstanceNotFound iid)
      | Some si \<Rightarrow> Ok (svc\<lparr>bd_instances := (bd_instances svc)(iid := None)\<rparr>))"

definition set_enabled :: "bool \<Rightarrow> string \<Rightarrow> time \<Rightarrow> 'd builder \<Rightarrow> 'd builder_error + 'd builder" where
  "set_enabled on iid now svc =
     (case bd_instances svc iid of
        None \<Rightarrow> Err (InstanceNotFound iid)
      | Some si \<Rightarrow> Ok (svc\<lparr>bd_instances := (bd_instances svc)(iid \<mapsto> si\<lparr>si_Enabled := on, si_UpdatedAt := now\<rparr>)\<rparr>))"

definition EnableInstance :: "string \<Rightarrow> time \<Rightarrow> 'd builder \<Rightarrow> 'd builder_error + 'd builder" where
  "EnableInstance = set_enabled True"

definition DisableInstance :: "string \<Rightarrow> time \<Rightarrow> 'd builder \<Rightarrow> 'd builder_error + 'd builder" where
  "DisableInstance = set_enabled False"

subsection \<open>What the parameter check accepts\<close>

text \<open>The type of a value, the order of two values of one type, and what a definition asks of a value.\<close>

definition has_type :: "parameter_type \<Rightarrow> 'd val \<Rightarrow> bool" where
  "has_type ty v \<longleftrightarrow>
     (case ty of
        ParameterTypeInt \<Rightarrow> \<exists>n. v = VInt n
      | ParameterTypeFloat \<Rightarrow> \<exists>x. v = VFloat x
      | ParameterTypeDecimal \<Rightarrow> \<exists>x. v = VDec x
      | ParameterTypeString \<Rightarrow> \<exists>s. v = VStr s
      | ParameterTypeBool \<Rightarrow> \<exists>b. v = VBool b
      | ParameterTypeEnum \<Rightarrow> \<exists>s. v = VStr s
      | ParameterTypeOther _ \<Rightarrow> True)"

fun val_below :: "'d::linordered_idom val \<Rightarrow> 'd val \<Rightarrow> bool" where
  "val_below (VInt m) (VInt n) = (m < n)"
| "val_below (VFloat x) (VFloat y) = float_less x y"
| "val_below (VDec x) (VDec y) = (x < y)"
| "val_below _ _ = False"

definition ordered_type :: "parameter_type \<Rightarrow> bool" where
  "ordered_type ty \<longleftrightarrow> ty \<in> {ParameterTypeInt, ParameterTypeFloat, ParameterTypeDecimal}"

definition bounds_typed :: "'d parameter_definition \<Rightarrow> bool" where
  "bounds_typed def \<longleftrightarrow> (ordered_type (pd_Type def) \<longrightarrow>
     (\<forall>b \<in> {pd_MinValue def, pd_MaxValue def}. b = VNil \<or> has_type (pd_Type def) b))"

definition param_ok :: "'d::linordered_idom parameter_definition \<Rightarrow> 'd val \<Rightarrow> bool" where
  "param_ok def v \<longleftrightarrow> has_type (pd_Type def) v \<and>
     (ordered_type (pd_Type def) \<longrightarrow> \<not> val_below v (pd_MinValue def) \<and> \<not> val_below (pd_MaxValue def) v) \<and>
     (pd_Type def = ParameterTypeEnum \<longrightarrow> v \<in> VStr ` set (pd_Options def))"

definition params_ok :: "'d::linordered_idom parameter_definition list \<Rightarrow> 'd params \<Rightarrow> bool" where
  "params_ok defs vals \<longleftrightarrow>
     (\<forall>def \<in> set defs. case vals (pd_Key def) of None \<Rightarrow> \<not> pd_Required def | Some v \<Rightarrow> param_ok def v)"

lemma check_bound_cases:
  "check_bound cast outside err bound = Return () \<longleftrightarrow> bound = VNil \<or> (\<exists>b. cast bound = Some b \<and> \<not> outside b)"
  "check_bound cast outside err bound = Panic \<longleftrightarrow> bound \<noteq> VNil \<and> cast bound = None"
  by (auto simp: check_bound_def split: option.splits)

lemma bind_outcome_cases:
  "bind_outcome m f = Panic \<longleftrightarrow> m = Panic \<or> (\<exists>x. m = Return x \<and> f x = Panic)"
  by (cases m) auto

lemma as_cases [simp]:
  "as_int v = Some n \<longleftrightarrow> v = VInt n" "as_float v = Some x \<longleftrightarrow> v = VFloat x" "as_dec v = Some y \<longleftrightarrow> v = VDec y"
  "as_str v = Some s \<longleftrightarrow> v = VStr s" "as_bool v = Some b \<longleftrightarrow> v = VBool b"
  by (cases v; simp; fail)+

lemma as_none [simp]:
  "as_int v = None \<longleftrightarrow> (\<nexists>n. v = VInt n)" "as_float v = None \<longleftrightarrow> (\<nexists>x. v = VFloat x)" "as_dec v = None \<longleftrightarrow> (\<nexists>x. v = VDec x)"
  "as_str v = None \<longleftrightarrow> (\<nexists>s. v = VStr s)" "as_bool v = None \<longleftrightarrow> (\<nexists>b. v = VBool b)"
  by (cases v; simp; fail)+

lemma val_below_VNil [simp]: "\<not> val_below v VNil" "\<not> val_below VNil v"
  by (cases v; simp)+

lemma check_ordered_Return:
  "check_ordered cast below def v = Return () \<longleftrightarrow>
     (\<exists>x. cast v = Some x \<and> (pd_MinValue def = VNil \<or> (\<exists>b. cast (pd_MinValue def) = Some b \<and> \<not> below x b)) \<and>
        (pd_MaxValue def = VNil \<or> (\<exists>b. cast (pd_MaxValue def) = Some b \<and> \<not> below b x)))"
  by (auto simp: check_ordered_def check_bound_cases split: option.splits)

lemma check_ordered_panic:
  "check_ordered cast below def v = Panic \<Longrightarrow>
     pd_MinValue def \<noteq> VNil \<and> cast (pd_MinValue def) = None \<or> pd_MaxValue def \<noteq> VNil \<and> cast (pd_MaxValue def) = None"
  by (auto simp: check_ordered_def bind_outcome_cases check_bound_cases split: option.splits)

lemma validateParameterValue_ok:
  assumes "bounds_typed def"
  shows "validateParameterValue def v = Return () \<longleftrightarrow> param_ok def v" "validateParameterValue def v \<noteq> Panic"
proof -
  note defs = validateParameterValue_def bounds_typed_def ordered_type_def has_type_def
  show "validateParameterValue def v = Return () \<longleftrightarrow> param_ok def v"
    using assms
    by (cases "pd_Type def") (force simp: defs check_ordered_Return param_ok_def split: option.splits if_splits)+
  show "validateParameterValue def v \<noteq> Panic"
    using assms
    by (cases "pd_Type def") (auto simp: defs dest!: check_ordered_panic split: option.splits if_splits)
qed

lemma checked_parameters:
  assumes "\<forall>def \<in> set defs. bounds_typed def"
  shows "validateParameters defs vals \<noteq> Panic \<and> (validateParameters defs vals = Return () \<longleftrightarrow> params_ok defs vals)"
  using assms
proof (induction defs)
  case Nil
  then show ?case by (simp add: params_ok_def)
next
  case (Cons def defs)
  then have "bounds_typed def" by simp
  note here = validateParameterValue_ok [OF this]
  show ?case
  proof (cases "vals (pd_Key def)")
    case None
    then show ?thesis using Cons by (simp add: params_ok_def)
  next
    case (Some v)
    then show ?thesis using Cons here [of v]
      by (cases "validateParameterValue def v") (auto simp: params_ok_def)
  qed
qed

text \<open>C23: the parameter check is sound and complete for the declared types. If the bounds of every definition
  have the definition's own type, the check never panics, and it accepts exactly the parameter maps in
  which every required parameter is present and every present one has the declared type, lies within
  its bounds (a NaN is within any) and, for an enumeration, is one of the options.\<close>

theorem accepted_parameters_are_typed:
  assumes "\<forall>def \<in> set defs. bounds_typed def"
  shows "validateParameters defs vals \<noteq> Panic \<and> (validateParameters defs vals = Return () \<longleftrightarrow> params_ok defs vals)"
  by (rule checked_parameters [OF assms])

lemma builtin_bounds:
  "\<forall>def \<in> set (t_Parameters (sma_crossover_template D)). bounds_typed def"
  "\<forall>def \<in> set (t_Parameters (rsi_mean_revert_template D)). bounds_typed def"
  by (simp_all add: sma_crossover_template_def rsi_mean_revert_template_def required_param_def quantity_param_def
      bounds_typed_def ordered_type_def has_type_def)

definition sma_params :: "rat params" where
  "sma_params = [''fast_period'' \<mapsto> VInt 9, ''slow_period'' \<mapsto> VInt 21, ''quantity'' \<mapsto> VDec 2]"

lemma sma_params_ok: "params_ok (t_Parameters (sma_crossover_template rat_dec)) sma_params"
  by (simp add: params_ok_def sma_crossover_template_def required_param_def quantity_param_def sma_params_def
      param_ok_def ordered_type_def has_type_def rat_dec_def from_int_def)

lemma low_period_not_ok: "\<not> params_ok (t_Parameters (sma_crossover_template rat_dec)) (sma_params(''fast_period'' \<mapsto> VInt 4))"
  by (simp add: params_ok_def sma_crossover_template_def required_param_def param_ok_def ordered_type_def)

lemma accepted_parameters_are_typed_witness:
  "validateParameters (t_Parameters (sma_crossover_template rat_dec)) sma_params = Return () \<and>
   validateParameters (t_Parameters (sma_crossover_template rat_dec)) (sma_params(''fast_period'' \<mapsto> VInt 4)) \<noteq> Return ()"
  using accepted_parameters_are_typed [OF builtin_bounds(1) [of rat_dec]] sma_params_ok low_period_not_ok by blast

subsection \<open>Placeholders are resolved\<close>

primrec condition_values :: "'d condition \<Rightarrow> 'd val set" where
  "condition_values (Condition opr left right conds) =
     {vs_Value left, vs_Value right} \<union> \<Union> (set (map condition_values conds))"

definition rule_values :: "'d rule_config \<Rightarrow> 'd val set" where
  "rule_values rl = condition_values (rl_Condition rl) \<union> {qc_Value (ac_Quantity (rl_Action rl)), ac_PriceValue (rl_Action rl)}"

definition config_values :: "'d indicator_config list \<Rightarrow> 'd rule_config list \<Rightarrow> 'd val set" where
  "config_values inds rules = \<Union> ((\<lambda>ic. ran (ic_Parameters ic)) ` set inds) \<union> \<Union> (rule_values ` set rules)"

lemma condition_values_resolve: "condition_values (resolveCondition ps c) = resolveValue ps ` condition_values c"
  by (induction c) (auto simp: resolveValueSource_def)

lemma rule_values_resolve:
  "\<Union> (rule_values ` set (resolveRules ps rules)) = resolveValue ps ` \<Union> (rule_values ` set rules)"
  by (auto simp: resolveRules_def rule_values_def condition_values_resolve resolveAction_def resolveQuantityConfig_def)

lemma ran_resolveMap: "ran (resolveMap ps m) = resolveValue ps ` ran m"
  by (force simp: resolveMap_def ran_def)

lemma config_values_resolve:
  "config_values (resolveIndicators ps inds) (resolveRules ps rules) = resolveValue ps ` config_values inds rules"
  unfolding config_values_def rule_values_resolve
  by (simp add: resolveIndicators_def ran_resolveMap image_Un image_UN)

text \<open>A template is closed if all its placeholders name required parameters.\<close>

definition template_closed :: "'d strategy_template \<Rightarrow> bool" where
  "template_closed t \<longleftrightarrow> (\<forall>v \<in> config_values (t_Indicators t) (t_Rules t). \<forall>key. placeholder v = Some key \<longrightarrow>
     (\<exists>def \<in> set (t_Parameters t). pd_Key def = key \<and> pd_Required def))"

lemma params_ok_present: "params_ok defs ps \<Longrightarrow> def \<in> set defs \<Longrightarrow> pd_Required def \<Longrightarrow> \<exists>v. ps (pd_Key def) = Some v"
  by (auto simp: params_ok_def split: option.splits)

lemma resolve_leaves_no_placeholder:
  assumes "template_closed t" "params_ok (t_Parameters t) ps" "\<forall>v \<in> ran ps. placeholder v = None"
    "v \<in> config_values (resolveIndicators ps (t_Indicators t)) (resolveRules ps (t_Rules t))"
  shows "placeholder v = None"
proof -
  obtain w where w: "w \<in> config_values (t_Indicators t) (t_Rules t)" "v = resolveValue ps w"
    using assms(4) unfolding config_values_resolve by blast
  show ?thesis
  proof (cases "placeholder w")
    case None
    then show ?thesis using w(2) by (simp add: resolveValue_def)
  next
    case (Some key)
    then obtain def where "def \<in> set (t_Parameters t)" "pd_Key def = key" "pd_Required def"
      using assms(1) w(1) unfolding template_closed_def by blast
    then obtain pv where "ps key = Some pv" using params_ok_present [OF assms(2)] by blast
    then show ?thesis using Some w(2) assms(3) by (auto simp: resolveValue_def ran_def)
  qed
qed

subsection \<open>The instances of the service\<close>

datatype 'd builder_op =
    BuilderCreate string time "'d create_input"
  | BuilderUpdate string time "'d update_input"
  | BuilderDelete string
  | BuilderEnable string time
  | BuilderDisable string time

fun builder_step :: "'d::linordered_idom builder_op \<Rightarrow> 'd builder \<Rightarrow> 'd builder" where
  "builder_step (BuilderCreate uid now inp) svc = fst (CreateInstance uid now inp svc)"
| "builder_step (BuilderUpdate iid now inp) svc = fst (UpdateInstance iid now inp svc)"
| "builder_step (BuilderDelete iid) svc = (case DeleteInstance iid svc of Inl _ \<Rightarrow> svc | Inr svc' \<Rightarrow> svc')"
| "builder_step (BuilderEnable iid now) svc = (case EnableInstance iid now svc of Inl _ \<Rightarrow> svc | Inr svc' \<Rightarrow> svc')"
| "builder_step (BuilderDisable iid now) svc = (case DisableInstance iid now svc of Inl _ \<Rightarrow> svc | Inr svc' \<Rightarrow> svc')"

definition builder_run :: "'d::linordered_idom builder_op list \<Rightarrow> 'd builder \<Rightarrow> 'd builder" where
  "builder_run ops svc = fold builder_step ops svc"

definition instance_ok :: "'d::linordered_idom template_library \<Rightarrow> string \<Rightarrow> 'd strategy_instance \<Rightarrow> bool" where
  "instance_ok lib iid si \<longleftrightarrow> si_ID si = iid \<and>
     (\<exists>t. lib (si_TemplateID si) = Some t \<and> validateParameters (t_Parameters t) (si_Parameters si) = Return () \<and>
        si_Indicators si = resolveIndicators (si_Parameters si) (t_Indicators t) \<and>
        si_Rules si = resolveRules (si_Parameters si) (t_Rules t))"

definition builder_inv :: "'d::linordered_idom template_library \<Rightarrow> 'd builder \<Rightarrow> bool" where
  "builder_inv lib svc \<longleftrightarrow> bd_library svc = lib \<and> (\<forall>iid si. bd_instances svc iid = Some si \<longrightarrow> instance_ok lib iid si)"

lemma update_fields_simps [simp]:
  "si_ID (update_fields inp si) = si_ID si" "si_TemplateID (update_fields inp si) = si_TemplateID si"
  "si_Parameters (update_fields inp si) = si_Parameters si" "si_Indicators (update_fields inp si) = si_Indicators si"
  "si_Rules (update_fields inp si) = si_Rules si"
  by (simp_all add: update_fields_def Let_def split: option.splits)

lemma builder_inv_put:
  "builder_inv lib svc \<Longrightarrow> instance_ok lib iid si \<Longrightarrow> builder_inv lib (svc\<lparr>bd_instances := (bd_instances svc)(iid \<mapsto> si)\<rparr>)"
  by (simp add: builder_inv_def)

lemma instance_ok_fields:
  "instance_ok lib iid si \<Longrightarrow> si_ID si' = si_ID si \<Longrightarrow> si_TemplateID si' = si_TemplateID si \<Longrightarrow>
   si_Parameters si' = si_Parameters si \<Longrightarrow> si_Indicators si' = si_Indicators si \<Longrightarrow> si_Rules si' = si_Rules si \<Longrightarrow>
   instance_ok lib iid si'"
  by (simp add: instance_ok_def)

lemma create_inv [step_invs]: "builder_inv lib svc \<Longrightarrow> builder_inv lib (fst (CreateInstance uid now inp svc))"
  unfolding CreateInstance_def lib_GetTemplate_def Let_def
  by (auto split: option.splits sum.splits outcome.splits intro!: builder_inv_put
      simp: instance_ok_def new_instance_def) (simp add: builder_inv_def)

lemma update_inv [step_invs]:
  assumes inv: "builder_inv lib svc"
  shows "builder_inv lib (fst (UpdateInstance iid now inp svc))"
proof (cases "bd_instances svc iid")
  case None
  then show ?thesis using inv by (simp add: UpdateInstance_def)
next
  case (Some si)
  have ok: "instance_ok lib iid si" using inv Some by (simp add: builder_inv_def)
  then obtain t where t: "bd_library svc (si_TemplateID si) = Some t" using inv by (auto simp: instance_ok_def builder_inv_def)
  have lib: "bd_library svc = lib" using inv by (simp add: builder_inv_def)
  show ?thesis
  proof (cases "up_Parameters inp")
    case None
    have "instance_ok lib iid ((update_fields inp si)\<lparr>si_UpdatedAt := now\<rparr>)" by (rule instance_ok_fields [OF ok]) simp_all
    then show ?thesis using Some t None by (simp add: UpdateInstance_def lib_GetTemplate_def Let_def builder_inv_put [OF inv])
  next
    case ps: (Some ps)
    have kept: "instance_ok lib iid (update_fields inp si)" by (rule instance_ok_fields [OF ok]) simp_all
    have new: "instance_ok lib iid ((update_fields inp si)\<lparr>si_Parameters := ps, si_Indicators := resolveIndicators ps (t_Indicators t),
        si_Rules := resolveRules ps (t_Rules t), si_UpdatedAt := now\<rparr>)"
      if "validateParameters (t_Parameters t) ps = Return ()"
      using that ok t lib by (simp add: instance_ok_def)
    show ?thesis
      using Some t ps kept new by (cases "validateParameters (t_Parameters t) ps")
        (simp_all add: UpdateInstance_def lib_GetTemplate_def Let_def builder_inv_put [OF inv])
  qed
qed

lemma delete_inv [step_invs]:
  "builder_inv lib svc \<Longrightarrow> DeleteInstance iid svc = Inr svc' \<Longrightarrow> builder_inv lib svc'"
  by (auto simp: DeleteInstance_def builder_inv_def split: option.splits if_splits)

lemma enable_inv [step_invs]:
  "builder_inv lib svc \<Longrightarrow> set_enabled on iid now svc = Inr svc' \<Longrightarrow> builder_inv lib svc'"
  by (auto simp: set_enabled_def builder_inv_def instance_ok_def split: option.splits if_splits)

lemma builder_step_inv: "builder_inv lib svc \<Longrightarrow> builder_inv lib (builder_step op svc)"
  by (cases op) (auto simp: EnableInstance_def DisableInstance_def create_inv update_inv split: sum.splits
    dest: delete_inv enable_inv)

lemma builder_run_inv: "builder_inv lib svc \<Longrightarrow> builder_inv lib (builder_run ops svc)"
  unfolding builder_run_def by (induction ops arbitrary: svc) (simp_all add: builder_step_inv)

lemma builder_start_inv: "builder_inv (NewTemplateLibrary D) (builder_NewService D)"
  by (simp add: builder_inv_def builder_NewService_def)

text \<open>The built-in templates are closed.\<close>

lemma placeholder_braces:
  assumes "key \<noteq> [] \<longrightarrow> hd key \<notin> space_bytes \<and> last key \<notin> space_bytes"
  shows "placeholder (VStr (''{{'' @ key @ ''}}'')) = Some key"
proof -
  have "HasSuffix (''{{'' @ key @ ''}}'') ''}}''" using HasSuffix_append [of "''{{'' @ key" "''}}''"] by simp
  moreover have "TrimPrefix (''{{'' @ key @ ''}}'') ''{{'' = key @ ''}}''" by (simp add: TrimPrefix_def HasPrefix_def)
  moreover have "TrimSuffix (key @ ''}}'') ''}}'' = key" by (simp add: TrimSuffix_def)
  moreover have "HasPrefix (''{{'' @ key @ ''}}'') ''{{''" by (rule HasPrefix_append)
  ultimately show ?thesis using TrimSpace_untouched [OF assms] unfolding placeholder_def by simp
qed

lemma placeholder_not_string: "as_str v = None \<Longrightarrow> placeholder v = None"
  by (simp add: placeholder_def del: as_none)

lemma placeholder_plain: "\<not> HasPrefix s ''{{'' \<Longrightarrow> placeholder (VStr s) = None"
  by (simp add: placeholder_def)

lemma builtin_placeholders [simp]:
  "placeholder (VStr ''{{quantity}}'') = Some ''quantity''"
  "placeholder (VStr ''{{fast_period}}'') = Some ''fast_period''"
  "placeholder (VStr ''{{slow_period}}'') = Some ''slow_period''"
  "placeholder (VStr ''{{rsi_period}}'') = Some ''rsi_period''"
  "placeholder (VStr ''{{oversold_level}}'') = Some ''oversold_level''"
  "placeholder (VStr ''{{overbought_level}}'') = Some ''overbought_level''"
  using placeholder_braces [of "''quantity''"] placeholder_braces [of "''fast_period''"] placeholder_braces [of "''slow_period''"]
    placeholder_braces [of "''rsi_period''"] placeholder_braces [of "''oversold_level''"] placeholder_braces [of "''overbought_level''"]
  by (simp_all add: printable_not_space)

lemma builtin_closed:
  "template_closed (sma_crossover_template D)" "template_closed (rsi_mean_revert_template D)"
  by (auto simp: template_closed_def config_values_def rule_values_def sma_crossover_template_def
      rsi_mean_revert_template_def market_buy_def close_action_def indicator_value_def placeholder_not_string
      placeholder_plain HasPrefix_def required_param_def quantity_param_def)

lemma builtin_template:
  assumes "NewTemplateLibrary D tid = Some t"
  shows "template_closed t \<and> (\<forall>def \<in> set (t_Parameters t). bounds_typed def)"
proof -
  have "t = sma_crossover_template D \<or> t = rsi_mean_revert_template D"
    using assms by (auto simp: NewTemplateLibrary_def split: if_splits)
  then show ?thesis using builtin_closed builtin_bounds by blast
qed

text \<open>C24: the strategies of the builder, through any sequence of creations, updates, deletions, enablings and
  disablings, successful or not: each is stored under its own id, is made from a template of the
  library, has parameters of the declared types and within their bounds, and its indicators and rules
  are the template's with these parameters put in. If no parameter is itself a string that looks like a
  placeholder, no placeholder is left in them, so no rule ever compares with or orders the text of one.\<close>

theorem built_strategies_are_complete:
  assumes "GetInstance iid (builder_run ops (builder_NewService D)) = Ok si"
  shows "si_ID si = iid \<and>
     (\<exists>t. NewTemplateLibrary D (si_TemplateID si) = Some t \<and> params_ok (t_Parameters t) (si_Parameters si) \<and>
        si_Indicators si = resolveIndicators (si_Parameters si) (t_Indicators t) \<and>
        si_Rules si = resolveRules (si_Parameters si) (t_Rules t)) \<and>
     ((\<forall>v \<in> ran (si_Parameters si). placeholder v = None) \<longrightarrow>
        (\<forall>v \<in> config_values (si_Indicators si) (si_Rules si). placeholder v = None))"
proof -
  have "builder_inv (NewTemplateLibrary D) (builder_run ops (builder_NewService D))"
    by (rule builder_run_inv [OF builder_start_inv])
  then have "instance_ok (NewTemplateLibrary D) iid si"
    using assms by (auto simp: builder_inv_def GetInstance_def split: option.splits)
  then obtain t where id: "si_ID si = iid" and t: "NewTemplateLibrary D (si_TemplateID si) = Some t"
    and ok: "validateParameters (t_Parameters t) (si_Parameters si) = Return ()"
    and res: "si_Indicators si = resolveIndicators (si_Parameters si) (t_Indicators t)"
      "si_Rules si = resolveRules (si_Parameters si) (t_Rules t)"
    by (auto simp: instance_ok_def)
  note bt = builtin_template [OF t]
  have "params_ok (t_Parameters t) (si_Parameters si)"
    using checked_parameters bt ok by blast
  then show ?thesis using id t res bt resolve_leaves_no_placeholder [of t "si_Parameters si"] by auto
qed

definition sma_input :: "rat create_input" where
  "sma_input = \<lparr>cr_TemplateID = ''sma_crossover'', cr_Name = ''trend'', cr_Description = '''', cr_Symbol = ''BTCUSDT'',
     cr_Parameters = sma_params\<rparr>"

definition sma_service :: "rat builder" where
  "sma_service = builder_run [BuilderCreate ''u1'' 5 sma_input] (builder_NewService rat_dec)"

lemma sma_service_eq:
  "sma_service = (builder_NewService rat_dec)\<lparr>bd_instances := [''u1'' \<mapsto> new_instance ''u1'' 5 sma_input (sma_crossover_template rat_dec)]\<rparr>"
proof -
  have "validateParameters (t_Parameters (sma_crossover_template rat_dec)) sma_params = Return ()"
    using checked_parameters [OF builtin_bounds(1) [of rat_dec]] sma_params_ok by blast
  moreover have "t_Rules (sma_crossover_template rat_dec) \<noteq> []" by (simp add: sma_crossover_template_def)
  then have "instance_Validate (new_instance ''u1'' 5 sma_input (sma_crossover_template rat_dec)) = Ok ()"
    by (simp add: instance_Validate_def new_instance_def sma_input_def resolveRules_def)
  moreover have "lib_GetTemplate (bd_library (builder_NewService rat_dec)) ''sma_crossover'' = Ok (sma_crossover_template rat_dec)"
    by (simp add: lib_GetTemplate_def builder_NewService_def NewTemplateLibrary_def)
  ultimately show ?thesis
    by (simp add: sma_service_def builder_run_def CreateInstance_def sma_input_def Let_def builder_NewService_def new_instance_def)
qed

lemma built_strategies_are_complete_witness:
  "\<exists>si. GetInstance ''u1'' sma_service = Ok si \<and>
     (\<forall>v \<in> config_values (si_Indicators si) (si_Rules si). placeholder v = None)"
proof -
  let ?si = "new_instance ''u1'' 5 sma_input (sma_crossover_template rat_dec)"
  have g: "GetInstance ''u1'' sma_service = Ok ?si" by (simp add: sma_service_eq GetInstance_def)
  have "\<forall>v \<in> ran (si_Parameters ?si). placeholder v = None"
    by (auto simp: new_instance_def sma_input_def sma_params_def placeholder_not_string)
  then show ?thesis
    using g built_strategies_are_complete [of "''u1''" "[BuilderCreate ''u1'' 5 sma_input]" rat_dec ?si, folded sma_service_def] by blast
qed

text \<open>A rejected update is not undone. \<open>UpdateInstance\<close> writes the new name into the stored strategy before
  it validates, so setting an empty name returns an error and still leaves a strategy without a name,
  which \<open>Validate\<close> rejects, in the service, where it can be enabled.\<close>

theorem rejected_update_is_kept:
  assumes "bd_instances svc iid = Some si" "bd_library svc (si_TemplateID si) = Some t" "si_ID si \<noteq> ''''"
  shows "\<exists>svc' si'. UpdateInstance iid now
       \<lparr>up_Name = Some '''', up_Description = None, up_Symbol = None, up_Enabled = None, up_Parameters = None\<rparr> svc
         = (svc', Fail NameRequired) \<and>
     GetInstance iid svc' = Ok si' \<and> si_Name si' = '''' \<and> instance_Validate si' = Err NameRequired \<and>
     (\<exists>svc''. EnableInstance iid later svc' = Ok svc'')"
  using assms
  by (simp add: UpdateInstance_def lib_GetTemplate_def update_fields_def instance_Validate_def lift_error_def Let_def
      GetInstance_def EnableInstance_def set_enabled_def)

lemma rejected_update_is_kept_witness:
  "\<exists>svc' svc''. UpdateInstance ''u1'' 7
       \<lparr>up_Name = Some '''', up_Description = None, up_Symbol = None, up_Enabled = None, up_Parameters = None\<rparr> sma_service
         = (svc', Fail NameRequired) \<and> EnableInstance ''u1'' 8 svc' = Ok svc''"
proof -
  let ?si = "new_instance ''u1'' 5 sma_input (sma_crossover_template rat_dec)"
  have "bd_instances sma_service ''u1'' = Some ?si" by (simp add: sma_service_eq)
  moreover have "bd_library sma_service (si_TemplateID ?si) = Some (sma_crossover_template rat_dec)"
    by (simp add: sma_service_eq builder_NewService_def NewTemplateLibrary_def new_instance_def sma_input_def)
  moreover have "si_ID ?si \<noteq> ''''" by (simp add: new_instance_def)
  ultimately show ?thesis using rejected_update_is_kept by blast
qed

end
