(* ===== verification/License.thy ===== *)
theory License
  imports Go_Text
begin

text \<open>
  Licences and entitlements: \<open>internal/license\<close> (the verification of a token and the state of a licence
  at an instant) and \<open>internal/entitlement\<close> (editions, their policies, and what they allow). Base64,
  Ed25519 and the decoding of the JSON claims are the record \<open>jwt_lib\<close>; what is assumed of them is
  named \<open>jwt_signs\<close>. Instants count nanoseconds, \<open>Expiry\<close> is in seconds.
\<close>

subsection \<open>Tokens\<close>

datatype lic_state = LicDemo | LicLicensed | LicGrace | LicRiskOnly | LicUnlicensed

fun lic_state_string :: "lic_state \<Rightarrow> string" where
  "lic_state_string LicDemo = ''demo''"
| "lic_state_string LicLicensed = ''licensed''"
| "lic_state_string LicGrace = ''grace''"
| "lic_state_string LicRiskOnly = ''risk_only''"
| "lic_state_string LicUnlicensed = ''unlicensed''"

record claims =
  c_Subject :: string
  c_HWID :: string
  c_Expiry :: int

datatype token_error =
    ErrMalformedToken | ErrInvalidSignature | DecodePayload string | DecodeSignature string | DecodeClaims string

record 'k jwt_lib =
  b64_decode :: "string \<Rightarrow> string + string"
  ed25519_verify :: "'k \<Rightarrow> string \<Rightarrow> string \<Rightarrow> bool"
  claims_decode :: "string \<Rightarrow> string + claims"

definition VerifyJWT :: "'k jwt_lib \<Rightarrow> string \<Rightarrow> 'k \<Rightarrow> token_error + claims" where
  "VerifyJWT J token key =
     (case split_at_char (CHR ''.'') token of
        [h, p, s] \<Rightarrow>
          (case b64_decode J p of
             Inl e \<Rightarrow> Err (DecodePayload e)
           | Inr payload \<Rightarrow>
               (case b64_decode J s of
                  Inl e \<Rightarrow> Err (DecodeSignature e)
                | Inr signature \<Rightarrow>
                    if \<not> ed25519_verify J key (h @ ''.'' @ p) signature then Err ErrInvalidSignature
                    else (case claims_decode J payload of
                            Inl e \<Rightarrow> Err (DecodeClaims e)
                          | Inr cl \<Rightarrow> Ok cl)))
      | _ \<Rightarrow> Err ErrMalformedToken)"

subsection \<open>The state of a licence\<close>

definition grace_period :: duration where
  "grace_period = 48 * hour"

definition EvaluateState :: "time \<Rightarrow> claims \<Rightarrow> time option \<Rightarrow> lic_state" where
  "EvaluateState now cl graceStartedAt =
     (let expiresAt = c_Expiry cl * second in
      if c_Expiry cl = 0 then
        (case graceStartedAt of
           None \<Rightarrow> LicGrace
         | Some g \<Rightarrow> if now - g \<ge> grace_period then LicRiskOnly else LicGrace)
      else if now < expiresAt then LicLicensed
      else
        (case graceStartedAt of
           None \<Rightarrow> LicGrace
         | Some g \<Rightarrow> if now - g \<ge> grace_period then LicRiskOnly else LicGrace))"

subsection \<open>Editions and entitlements\<close>

datatype edition = EditionCommunity | EditionPro | EditionTeam | EditionEnterprise | EditionOther string

datatype feature =
    FeatureMultiExchange | FeatureWebhookAlerts | FeatureCloudSync | FeatureStrategyShare | FeaturePrioritySupport
  | FeatureAuditLog | FeatureSSO | FeatureCustomPlugins | FeatureOther string

record edition_policy =
  p_Edition :: edition
  p_MaxExchanges :: int
  p_MaxStrategies :: int
  p_MaxConnectors :: int
  p_AllowedFeatures :: "feature list"

definition policies :: "edition \<rightharpoonup> edition_policy" where
  "policies =
     [EditionCommunity \<mapsto> \<lparr>p_Edition = EditionCommunity, p_MaxExchanges = 1, p_MaxStrategies = 5, p_MaxConnectors = 2,
        p_AllowedFeatures = []\<rparr>,
      EditionPro \<mapsto> \<lparr>p_Edition = EditionPro, p_MaxExchanges = 3, p_MaxStrategies = 50, p_MaxConnectors = 10,
        p_AllowedFeatures = [FeatureWebhookAlerts, FeatureCloudSync]\<rparr>,
      EditionTeam \<mapsto> \<lparr>p_Edition = EditionTeam, p_MaxExchanges = 10, p_MaxStrategies = 500, p_MaxConnectors = 50,
        p_AllowedFeatures = [FeatureWebhookAlerts, FeatureCloudSync, FeatureStrategyShare, FeaturePrioritySupport,
          FeatureAuditLog]\<rparr>,
      EditionEnterprise \<mapsto> \<lparr>p_Edition = EditionEnterprise, p_MaxExchanges = -1, p_MaxStrategies = -1, p_MaxConnectors = -1,
        p_AllowedFeatures = [FeatureWebhookAlerts, FeatureCloudSync, FeatureStrategyShare, FeaturePrioritySupport,
          FeatureAuditLog, FeatureSSO, FeatureCustomPlugins]\<rparr>]"

definition edition_Policy :: "edition \<Rightarrow> edition_policy" where
  "edition_Policy e = (case policies e of Some p \<Rightarrow> p | None \<Rightarrow> the (policies EditionCommunity))"

definition HasFeature :: "feature \<Rightarrow> edition_policy \<Rightarrow> bool" where
  "HasFeature f p \<longleftrightarrow> f \<in> set (p_AllowedFeatures p)"

definition Unlimited :: "string \<Rightarrow> edition_policy \<Rightarrow> bool" where
  "Unlimited kind p =
     (if kind = ''exchanges'' then p_MaxExchanges p = -1
      else if kind = ''strategies'' then p_MaxStrategies p = -1
      else if kind = ''connectors'' then p_MaxConnectors p = -1
      else False)"

record limits =
  MaxExchanges :: int
  MaxStrategies :: int
  MaxConnectors :: int

record entitlement =
  e_Edition :: edition
  e_State :: lic_state
  e_ExpiresAt :: time
  e_GraceUntil :: time
  e_Features :: "feature list"
  e_Limits :: limits

definition parseEdition :: "string \<Rightarrow> edition" where
  "parseEdition sub =
     (if sub = ''pro'' then EditionPro
      else if sub = ''team'' then EditionTeam
      else if sub = ''enterprise'' then EditionEnterprise
      else EditionCommunity)"

definition Evaluate :: "time \<Rightarrow> claims \<Rightarrow> time option \<Rightarrow> entitlement" where
  "Evaluate now cl graceStartedAt =
     (let state = EvaluateState now cl graceStartedAt;
          ed = (if c_Subject cl \<noteq> [] then parseEdition (c_Subject cl) else EditionCommunity);
          pol = edition_Policy ed
      in \<lparr>e_Edition = ed, e_State = state,
          e_ExpiresAt = (if c_Expiry cl > 0 then c_Expiry cl * second else 0),
          e_GraceUntil = (case graceStartedAt of Some g \<Rightarrow> if state = LicGrace then g + grace_period else 0 | None \<Rightarrow> 0),
          e_Features = p_AllowedFeatures pol,
          e_Limits = \<lparr>MaxExchanges = p_MaxExchanges pol, MaxStrategies = p_MaxStrategies pol, MaxConnectors = p_MaxConnectors pol\<rparr>\<rparr>)"

definition ent_CanUseFeature :: "entitlement \<Rightarrow> feature \<Rightarrow> bool" where
  "ent_CanUseFeature ent f =
     (if e_State ent = LicRiskOnly then False else HasFeature f (edition_Policy (e_Edition ent)))"

definition WithinLimits :: "entitlement \<Rightarrow> string \<Rightarrow> int \<Rightarrow> bool" where
  "WithinLimits ent kind cur =
     (let pol = edition_Policy (e_Edition ent) in
      if kind = ''exchanges'' then (if Unlimited ''exchanges'' pol then True else cur < p_MaxExchanges pol)
      else if kind = ''strategies'' then (if Unlimited ''strategies'' pol then True else cur < p_MaxStrategies pol)
      else if kind = ''connectors'' then (if Unlimited ''connectors'' pol then True else cur < p_MaxConnectors pol)
      else False)"

subsection \<open>Tokens that are accepted\<close>

text \<open>What is assumed of the libraries for the round trip: the verifier accepts what the signer made, and
  the encodings are decoded again and contain no dot.\<close>

definition jwt_signs :: "'k jwt_lib \<Rightarrow> (string \<Rightarrow> string) \<Rightarrow> (string \<Rightarrow> string) \<Rightarrow> (claims \<Rightarrow> string) \<Rightarrow> 'k \<Rightarrow> claims \<Rightarrow> bool" where
  "jwt_signs J encode sign mk key cl \<longleftrightarrow>
     (\<forall>x. b64_decode J (encode x) = Inr x \<and> CHR ''.'' \<notin> set (encode x)) \<and>
     (\<forall>m. ed25519_verify J key m (sign m)) \<and> claims_decode J (mk cl) = Inr cl"

definition issue_token :: "(string \<Rightarrow> string) \<Rightarrow> (string \<Rightarrow> string) \<Rightarrow> (claims \<Rightarrow> string) \<Rightarrow> string \<Rightarrow> claims \<Rightarrow> string" where
  "issue_token encode sign mk h cl =
     (let signed = encode h @ ''.'' @ encode (mk cl) in signed @ ''.'' @ encode (sign signed))"

text \<open>Token verification. A token that was issued with the matching key is accepted with exactly its
  claims; and any accepted token has three parts, the first two of which, joined by the dot, carry a
  valid signature in the third, so not a byte of header or payload can be changed without breaking
  the signature.\<close>

theorem token_verification:
  "(jwt_signs J encode sign mk key cl \<longrightarrow> VerifyJWT J (issue_token encode sign mk h cl) key = Ok cl) \<and>
   (VerifyJWT J token key = Ok got \<longrightarrow>
     (\<exists>h p s payload signature. token = h @ ''.'' @ p @ ''.'' @ s \<and> CHR ''.'' \<notin> set h \<union> set p \<union> set s \<and>
        b64_decode J p = Ok payload \<and> b64_decode J s = Ok signature \<and>
        ed25519_verify J key (h @ ''.'' @ p) signature \<and> claims_decode J payload = Ok got))"
proof (intro conjI impI)
  assume j: "jwt_signs J encode sign mk key cl"
  let ?signed = "encode h @ ''.'' @ encode (mk cl)"
  have "split_at_char (CHR ''.'') (joined (CHR ''.'') [encode h, encode (mk cl), encode (sign ?signed)]) =
      [encode h, encode (mk cl), encode (sign ?signed)]"
    by (rule split_joined) (use j in \<open>auto simp: jwt_signs_def\<close>)
  then have "split_at_char (CHR ''.'') (issue_token encode sign mk h cl) = [encode h, encode (mk cl), encode (sign ?signed)]"
    by (simp add: issue_token_def Let_def)
  then show "VerifyJWT J (issue_token encode sign mk h cl) key = Ok cl"
    using j by (simp add: VerifyJWT_def jwt_signs_def)
next
  have dots: "d \<notin> set q" if "q \<in> set (split_at_char d s)" for d q s
    using that by (induction s arbitrary: q) (auto split: list.splits if_splits)
  assume v: "VerifyJWT J token key = Ok got"
  then obtain h p s where parts: "split_at_char (CHR ''.'') token = [h, p, s]"
    by (auto simp: VerifyJWT_def split: list.splits)
  have "token = h @ ''.'' @ p @ ''.'' @ s" using joined_split [of "CHR ''.''" token] parts by simp
  moreover have "CHR ''.'' \<notin> set h \<union> set p \<union> set s" using dots [of _ "CHR ''.''" token] parts by auto
  moreover obtain payload signature where "b64_decode J p = Ok payload" "b64_decode J s = Ok signature"
    "ed25519_verify J key (h @ ''.'' @ p) signature" "claims_decode J payload = Ok got"
    using v parts by (auto simp: VerifyJWT_def split: sum.splits if_splits)
  ultimately show "\<exists>h p s payload signature. token = h @ ''.'' @ p @ ''.'' @ s \<and> CHR ''.'' \<notin> set h \<union> set p \<union> set s \<and>
        b64_decode J p = Ok payload \<and> b64_decode J s = Ok signature \<and>
        ed25519_verify J key (h @ ''.'' @ p) signature \<and> claims_decode J payload = Ok got" by blast
qed

text \<open>A toy encoding without dots, for the witness.\<close>

fun esc :: "string \<Rightarrow> string" where
  "esc [] = []"
| "esc (c # cs) = (if c = CHR ''.'' then ''~1'' else if c = CHR ''~'' then ''~0'' else [c]) @ esc cs"

fun unesc :: "string \<Rightarrow> string" where
  "unesc (c # d # cs) =
     (if c = CHR ''~'' then (if d = CHR ''1'' then CHR ''.'' else CHR ''~'') # unesc cs else c # unesc (d # cs))"
| "unesc cs = cs"

lemma unesc_plain: "c \<noteq> CHR ''~'' \<Longrightarrow> unesc (c # cs) = c # unesc cs"
  by (cases cs) auto

lemma unesc_esc: "unesc (esc x) = x \<and> CHR ''.'' \<notin> set (esc x)"
  by (induction x) (auto simp: unesc_plain)

definition pro_claims :: claims where
  "pro_claims = \<lparr>c_Subject = ''pro'', c_HWID = ''hw'', c_Expiry = 5\<rparr>"

definition toy_jwt :: "nat jwt_lib" where
  "toy_jwt = \<lparr>b64_decode = (\<lambda>x. Inr (unesc x)), ed25519_verify = (\<lambda>k m s. s = m @ ''!''), claims_decode = (\<lambda>_. Inr pro_claims)\<rparr>"

lemma token_verification_witness:
  "VerifyJWT toy_jwt (issue_token esc (\<lambda>m. m @ ''!'') (\<lambda>_. ''a.b'') ''alg'' pro_claims) 0 = Ok pro_claims"
proof -
  have "jwt_signs toy_jwt esc (\<lambda>m. m @ ''!'') (\<lambda>_. ''a.b'') 0 pro_claims"
    by (simp add: jwt_signs_def toy_jwt_def unesc_esc)
  then show ?thesis using token_verification [of toy_jwt esc "\<lambda>m. m @ ''!''" "\<lambda>_. ''a.b''" 0 pro_claims "''alg''"] by blast
qed

subsection \<open>What an entitlement allows\<close>

text \<open>The editions, from least to most.\<close>

fun rank :: "edition \<Rightarrow> nat" where
  "rank EditionCommunity = 0" | "rank EditionPro = 1" | "rank EditionTeam = 2" | "rank EditionEnterprise = 3"
| "rank (EditionOther s) = 0"

definition at_least :: "int \<Rightarrow> int \<Rightarrow> bool" where
  "at_least a b \<longleftrightarrow> a = -1 \<or> b \<noteq> -1 \<and> b \<le> a"

lemma edition_Policy_simps [simp]:
  "edition_Policy EditionCommunity = the (policies EditionCommunity)" "edition_Policy EditionPro = the (policies EditionPro)"
  "edition_Policy EditionTeam = the (policies EditionTeam)" "edition_Policy EditionEnterprise = the (policies EditionEnterprise)"
  "edition_Policy (EditionOther s) = the (policies EditionCommunity)"
  by (simp_all add: edition_Policy_def policies_def)

lemma policies_grow:
  assumes "rank d \<le> rank e"
  shows "set (p_AllowedFeatures (edition_Policy d)) \<subseteq> set (p_AllowedFeatures (edition_Policy e)) \<and>
     at_least (p_MaxExchanges (edition_Policy e)) (p_MaxExchanges (edition_Policy d)) \<and>
     at_least (p_MaxStrategies (edition_Policy e)) (p_MaxStrategies (edition_Policy d)) \<and>
     at_least (p_MaxConnectors (edition_Policy e)) (p_MaxConnectors (edition_Policy d))"
  using assms by (cases d; cases e) (auto simp: policies_def at_least_def)

definition below_limit :: "int \<Rightarrow> int \<Rightarrow> bool" where
  "below_limit n bound \<longleftrightarrow> bound = -1 \<or> n < bound"

lemma below_limit_grow: "at_least a b \<Longrightarrow> below_limit n b \<Longrightarrow> below_limit n a"
  by (auto simp: at_least_def below_limit_def)

lemma WithinLimits_iff:
  "WithinLimits ent kind n \<longleftrightarrow> (let pol = edition_Policy (e_Edition ent) in
     kind = ''exchanges'' \<and> below_limit n (p_MaxExchanges pol) \<or>
     kind = ''strategies'' \<and> below_limit n (p_MaxStrategies pol) \<or>
     kind = ''connectors'' \<and> below_limit n (p_MaxConnectors pol))"
  by (simp add: WithinLimits_def Unlimited_def below_limit_def Let_def)

lemma within_grow:
  "rank (e_Edition ent) \<le> rank (e_Edition ent') \<Longrightarrow> WithinLimits ent kind n \<Longrightarrow> WithinLimits ent' kind n"
  using policies_grow [of "e_Edition ent" "e_Edition ent'"] below_limit_grow
  unfolding WithinLimits_iff Let_def by blast

lemma EvaluateState_cases:
  "EvaluateState now cl g =
     (if c_Expiry cl \<noteq> 0 \<and> now < c_Expiry cl * second then LicLicensed
      else case g of Some t \<Rightarrow> if now - t \<ge> grace_period then LicRiskOnly else LicGrace | None \<Rightarrow> LicGrace)"
  by (auto simp: EvaluateState_def split: option.splits)

text \<open>The state of a licence over time. It is licensed exactly until the expiry of a token that has one,
  risk-only exactly when it is not licensed and the grace period that was recorded began 48 hours ago
  or earlier, and in grace otherwise; once risk-only it stays risk-only as time goes on, and losing the
  licence never adds a feature. A higher edition never takes away a feature or a limit.\<close>

theorem licence_lifecycle:
  "(EvaluateState now cl g = LicLicensed \<longleftrightarrow> c_Expiry cl \<noteq> 0 \<and> now < c_Expiry cl * second) \<and>
   (EvaluateState now cl g = LicRiskOnly \<longleftrightarrow>
      EvaluateState now cl g \<noteq> LicLicensed \<and> (\<exists>t. g = Some t \<and> now - t \<ge> grace_period)) \<and>
   EvaluateState now cl g \<in> {LicLicensed, LicGrace, LicRiskOnly} \<and>
   (now \<le> later \<longrightarrow> EvaluateState now cl g = LicRiskOnly \<longrightarrow> EvaluateState later cl g = LicRiskOnly) \<and>
   (now \<le> later \<longrightarrow> ent_CanUseFeature (Evaluate later cl g) f \<longrightarrow> ent_CanUseFeature (Evaluate now cl g) f) \<and>
   (rank d \<le> rank e \<longrightarrow> e_State ent = e_State ent' \<longrightarrow> e_Edition ent = d \<longrightarrow> e_Edition ent' = e \<longrightarrow>
      (ent_CanUseFeature ent f \<longrightarrow> ent_CanUseFeature ent' f) \<and> (WithinLimits ent kind n \<longrightarrow> WithinLimits ent' kind n))"
proof (intro conjI)
  show "EvaluateState now cl g = LicLicensed \<longleftrightarrow> c_Expiry cl \<noteq> 0 \<and> now < c_Expiry cl * second"
    by (simp add: EvaluateState_cases split: option.splits)
  show "EvaluateState now cl g = LicRiskOnly \<longleftrightarrow>
      EvaluateState now cl g \<noteq> LicLicensed \<and> (\<exists>t. g = Some t \<and> now - t \<ge> grace_period)"
    by (auto simp: EvaluateState_cases split: option.splits)
  show "EvaluateState now cl g \<in> {LicLicensed, LicGrace, LicRiskOnly}"
    by (simp add: EvaluateState_cases split: option.splits)
  have mono: "EvaluateState later cl g = LicRiskOnly" if "now \<le> later" "EvaluateState now cl g = LicRiskOnly"
    using that by (auto simp: EvaluateState_cases split: option.splits if_splits)
  show "now \<le> later \<longrightarrow> EvaluateState now cl g = LicRiskOnly \<longrightarrow> EvaluateState later cl g = LicRiskOnly"
    using mono by blast
  show "now \<le> later \<longrightarrow> ent_CanUseFeature (Evaluate later cl g) f \<longrightarrow> ent_CanUseFeature (Evaluate now cl g) f"
    using mono by (auto simp: ent_CanUseFeature_def Evaluate_def Let_def)
  show "rank d \<le> rank e \<longrightarrow> e_State ent = e_State ent' \<longrightarrow> e_Edition ent = d \<longrightarrow> e_Edition ent' = e \<longrightarrow>
      (ent_CanUseFeature ent f \<longrightarrow> ent_CanUseFeature ent' f) \<and> (WithinLimits ent kind n \<longrightarrow> WithinLimits ent' kind n)"
    using policies_grow [of d e] within_grow [of ent ent' kind n]
    by (auto simp: ent_CanUseFeature_def HasFeature_def)
qed

lemma licence_lifecycle_witness:
  "EvaluateState (100 * hour) pro_claims (Some (50 * hour)) = LicRiskOnly \<and>
   ent_CanUseFeature (Evaluate 1 pro_claims None) FeatureCloudSync"
proof -
  have later: "ent_CanUseFeature (Evaluate (4 * second) pro_claims None) FeatureCloudSync"
    by (simp add: ent_CanUseFeature_def Evaluate_def EvaluateState_cases Let_def pro_claims_def parseEdition_def HasFeature_def
        policies_def time_units)
  have "1 \<le> 4 * second" by (simp add: time_units)
  then have "ent_CanUseFeature (Evaluate 1 pro_claims None) FeatureCloudSync"
    using later licence_lifecycle [of 1 pro_claims None "4 * second" FeatureCloudSync] by blast
  moreover have "EvaluateState (100 * hour) pro_claims (Some (50 * hour)) = LicRiskOnly"
    by (simp add: EvaluateState_cases pro_claims_def time_units grace_period_def)
  ultimately show ?thesis by blast
qed

end
