(* ===== verification/Config.thy ===== *)
theory Config
  imports Go_Text
begin

text \<open>
  The agent's configuration: \<open>internal/config\<close> (defaults, validation, the manager that owns the live
  configuration and the file behind it), the conversion of \<open>internal/providers/conv/agent.go\<close> between
  this model and the domain's, and \<open>internal/providers/config\<close>, through which the service reads and
  changes it. The YAML library, the time zone database, URL parsing and path joining are the record
  \<open>config_env\<close>; \<open>'p\<close> is the third-party type of the proxy settings. The file is the text it holds; a
  failing write says what it left behind.
\<close>

datatype telemetry_profile =
    TelemetryProfileOff | TelemetryProfileMinimal | TelemetryProfileSupport | TelemetryProfileSync
  | TelemetryProfileOther string

fun profile_of_string :: "string \<Rightarrow> telemetry_profile" where
  "profile_of_string s =
     (if s = ''off'' then TelemetryProfileOff else if s = ''minimal'' then TelemetryProfileMinimal
      else if s = ''support'' then TelemetryProfileSupport else if s = ''sync'' then TelemetryProfileSync
      else TelemetryProfileOther s)"

definition profile_Valid :: "telemetry_profile \<Rightarrow> bool" where
  "profile_Valid p \<longleftrightarrow> (case p of TelemetryProfileOther _ \<Rightarrow> False | _ \<Rightarrow> True)"

record telemetry =
  tl_Enabled :: bool
  tl_Profile :: telemetry_profile
  tl_ConsentVersion :: string
  tl_ConsentSource :: string
  tl_ConsentedAtUTC :: time
  tl_InstallID :: string

record paths_config =
  ConfigPath :: string
  TradesDB :: string
  VaultDB :: string
  JournalPath :: string
  AuditPath :: string

record risk_config = MaxPosition :: string

record exchange_config =
  APIKeyID :: string
  DefaultSymbol :: string

record cloud_config =
  BaseURL :: string
  AccessTokenRef :: string
  HandshakeEnabled :: bool

record 'p config =
  SchemaVersion :: int
  ExportTimezone :: string
  TrustedPluginKeys :: "string list"
  Telemetry :: telemetry
  JournalMaxSizeBytes :: int
  MemoryLimitBytes :: int
  MemoryDegradeThresholdPct :: int
  Proxy :: 'p
  Paths :: paths_config
  RiskCfg :: risk_config
  ExchangeCfg :: exchange_config
  Cloud :: cloud_config
  EditionName :: string
  LicenseExpiry :: int
  GraceStartedAt :: "time option"

record 'p config_env =
  cv_load_location :: "string \<Rightarrow> bool"
  cv_parse_uri :: "string \<Rightarrow> (string \<times> string) option"
  cv_marshal :: "'p config \<Rightarrow> string + string"
  cv_unmarshal :: "string \<Rightarrow> string + 'p config"
  cv_join :: "string \<Rightarrow> string \<Rightarrow> string"
  cv_zero_proxy :: 'p

datatype config_error =
    IncompatibleSchema int | TimezoneRequired | InvalidTimezone string | JournalSizeNotPositive | ThresholdOutOfRange
  | InvalidTelemetryProfile telemetry_profile | FingerprintEmpty | FingerprintDuplicate string
  | InvalidCloudURL string | CloudScheme | CloudURLRequired
  | ReadConfig | DecodeConfig string | MarshalConfig string | WriteConfig string
  | NoCurrentConfig | UpdateKeyType string | UnknownKey string

definition Default :: "'p config_env \<Rightarrow> string \<Rightarrow> 'p config" where
  "Default V stateDir =
     \<lparr>SchemaVersion = 1, ExportTimezone = ''UTC'', TrustedPluginKeys = [],
      Telemetry = \<lparr>tl_Enabled = True, tl_Profile = TelemetryProfileMinimal, tl_ConsentVersion = ''v1'',
        tl_ConsentSource = '''', tl_ConsentedAtUTC = 0, tl_InstallID = ''''\<rparr>,
      JournalMaxSizeBytes = 16 * 2 ^ 20, MemoryLimitBytes = 0, MemoryDegradeThresholdPct = 90,
      Proxy = cv_zero_proxy V,
      Paths = \<lparr>ConfigPath = cv_join V stateDir ''config.yaml'', TradesDB = cv_join V stateDir ''trades.sqlite'',
        VaultDB = cv_join V stateDir ''vault.db'', JournalPath = cv_join V stateDir ''journal.log'',
        AuditPath = cv_join V stateDir ''audit.log''\<rparr>,
      RiskCfg = \<lparr>MaxPosition = ''1000''\<rparr>,
      ExchangeCfg = \<lparr>APIKeyID = '''', DefaultSymbol = ''BTCUSDT''\<rparr>,
      Cloud = \<lparr>BaseURL = '''', AccessTokenRef = ''cloud.access_token'', HandshakeEnabled = False\<rparr>,
      EditionName = ''community'', LicenseExpiry = 0, GraceStartedAt = None\<rparr>"

subsection \<open>Validation\<close>

fun validate_fingerprints :: "string set \<Rightarrow> string list \<Rightarrow> config_error + unit" where
  "validate_fingerprints seen [] = Ok ()"
| "validate_fingerprints seen (v # vs) =
     (let t = TrimSpace v in
      if t = '''' then Err FingerprintEmpty
      else if t \<in> seen then Err (FingerprintDuplicate t)
      else validate_fingerprints (insert t seen) vs)"

definition validateTrustedFingerprints :: "string list \<Rightarrow> config_error + unit" where
  "validateTrustedFingerprints vs = validate_fingerprints {} vs"

definition validate_cloud :: "'p config_env \<Rightarrow> cloud_config \<Rightarrow> config_error + unit" where
  "validate_cloud V cl =
     and_then
       (if BaseURL cl = '''' then Ok ()
        else (case cv_parse_uri V (BaseURL cl) of
                None \<Rightarrow> Err (InvalidCloudURL (BaseURL cl))
              | Some (scheme, host) \<Rightarrow>
                  if scheme = '''' \<or> host = '''' then Err (InvalidCloudURL (BaseURL cl))
                  else if scheme = ''http'' \<or> scheme = ''https'' then Ok () else Err CloudScheme))
       (\<lambda>_. if HandshakeEnabled cl \<and> BaseURL cl = '''' then Err CloudURLRequired else Ok ())"

definition config_Validate :: "'p config_env \<Rightarrow> 'p config \<Rightarrow> config_error + unit" where
  "config_Validate V c =
     (if SchemaVersion c \<noteq> 1 then Err (IncompatibleSchema (SchemaVersion c))
      else if ExportTimezone c = '''' then Err TimezoneRequired
      else if \<not> cv_load_location V (ExportTimezone c) then Err (InvalidTimezone (ExportTimezone c))
      else if JournalMaxSizeBytes c \<le> 0 then Err JournalSizeNotPositive
      else if MemoryDegradeThresholdPct c < 1 \<or> MemoryDegradeThresholdPct c > 100 then Err ThresholdOutOfRange
      else if \<not> profile_Valid (tl_Profile (Telemetry c)) then Err (InvalidTelemetryProfile (tl_Profile (Telemetry c)))
      else and_then (validateTrustedFingerprints (TrustedPluginKeys c)) (\<lambda>_. validate_cloud V (Cloud c)))"

definition CriticalChanges :: "'p config \<Rightarrow> 'p config \<Rightarrow> string list" where
  "CriticalChanges c other =
     (if MaxPosition (RiskCfg c) \<noteq> MaxPosition (RiskCfg other) then [''risk.max_position''] else []) @
     (if APIKeyID (ExchangeCfg c) \<noteq> APIKeyID (ExchangeCfg other) then [''exchange.api_key_id''] else []) @
     (if DefaultSymbol (ExchangeCfg c) \<noteq> DefaultSymbol (ExchangeCfg other) then [''exchange.default_symbol''] else []) @
     (if VaultDB (Paths c) \<noteq> VaultDB (Paths other) then [''paths.vault_db''] else [])"

text \<open>The line-oriented diff: position by position, the shorter side padded with empty lines.\<close>

definition diff_line :: "string \<Rightarrow> string \<Rightarrow> string" where
  "diff_line l r =
     (if l = r then ''''
      else (if l \<noteq> '''' then ''- '' @ l @ [CHR 0x0A] else '''') @ (if r \<noteq> '''' then ''+ '' @ r @ [CHR 0x0A] else ''''))"

fun diff_lines :: "string list \<Rightarrow> string list \<Rightarrow> string" where
  "diff_lines [] [] = ''''"
| "diff_lines (l # ls) [] = diff_line l '''' @ diff_lines ls []"
| "diff_lines [] (r # rs) = diff_line '''' r @ diff_lines [] rs"
| "diff_lines (l # ls) (r # rs) = diff_line l r @ diff_lines ls rs"

definition config_lines :: "'p config_env \<Rightarrow> 'p config \<Rightarrow> string list" where
  "config_lines V c = split_at_char (CHR 0x0A) (TrimSpace (case cv_marshal V c of Inl _ \<Rightarrow> '''' | Inr body \<Rightarrow> body))"

definition Diff :: "'p config_env \<Rightarrow> 'p config option \<Rightarrow> 'p config option \<Rightarrow> string" where
  "Diff V cur candidate =
     (case (cur, candidate) of
        (Some c, Some d) \<Rightarrow> TrimSpace (diff_lines (config_lines V c) (config_lines V d))
      | _ \<Rightarrow> '''')"

subsection \<open>The manager\<close>

record 'p config_manager =
  cm_path :: string
  cm_live :: "'p config option"
  cm_file :: "string option"

text \<open>A write that fails: the error, and what the file then holds.\<close>

type_synonym write_fault = "(string \<times> string option) option"

definition config_Write :: "'p config_env \<Rightarrow> write_fault \<Rightarrow> 'p config \<Rightarrow> 'p config_manager \<Rightarrow> 'p config_manager \<times> (config_error + unit)" where
  "config_Write V fault c m =
     (case cv_marshal V c of
        Inl e \<Rightarrow> (m, Err (MarshalConfig e))
      | Inr body \<Rightarrow>
          (case fault of
             Some (e, left) \<Rightarrow> (m\<lparr>cm_file := left\<rparr>, Err (WriteConfig e))
           | None \<Rightarrow> (m\<lparr>cm_file := Some body\<rparr>, Ok ())))"

definition config_Load :: "'p config_env \<Rightarrow> string option \<Rightarrow> config_error + 'p config" where
  "config_Load V file =
     (case file of
        None \<Rightarrow> Err ReadConfig
      | Some body \<Rightarrow>
          (case cv_unmarshal V body of
             Inl e \<Rightarrow> Err (DecodeConfig e)
           | Inr c \<Rightarrow> and_then (config_Validate V c) (\<lambda>_. Ok c)))"

definition config_NewManager :: "'p config_env \<Rightarrow> string \<Rightarrow> string option \<Rightarrow> write_fault \<Rightarrow> config_error + 'p config_manager" where
  "config_NewManager V stateDir file fault =
     (let d = Default V stateDir;
          m = \<lparr>cm_path = ConfigPath (Paths d), cm_live = None, cm_file = file\<rparr>
      in if file \<noteq> None then and_then (config_Load V file) (\<lambda>c. Ok (m\<lparr>cm_live := Some c\<rparr>))
         else case config_Write V fault d m of
                (m1, Inl e) \<Rightarrow> Err e
              | (m1, Inr _) \<Rightarrow> Ok (m1\<lparr>cm_live := Some d\<rparr>))"

definition config_Current :: "'p config_manager \<Rightarrow> 'p config option" where
  "config_Current m = cm_live m"

record reload_result =
  rr_Applied :: bool
  rr_RequiresConfirm :: bool
  rr_CriticalChanges :: "string list"
  rr_Diff :: string

definition ReloadFromDisk :: "'p config_env \<Rightarrow> 'p config_manager \<Rightarrow> 'p config_manager \<times> (config_error, reload_result) outcome" where
  "ReloadFromDisk V m =
     (case config_Load V (cm_file m) of
        Inl e \<Rightarrow> (m, Fail e)
      | Inr candidate \<Rightarrow>
          (case config_Current m of
             None \<Rightarrow> (m, Panic)
           | Some cur \<Rightarrow>
               let changes = CriticalChanges cur candidate;
                   res = \<lparr>rr_Applied = False, rr_RequiresConfirm = False, rr_CriticalChanges = changes,
                          rr_Diff = Diff V (Some cur) (Some candidate)\<rparr>
               in if changes \<noteq> [] then (m, Return (res\<lparr>rr_RequiresConfirm := True\<rparr>))
                  else (m\<lparr>cm_live := Some candidate\<rparr>, Return (res\<lparr>rr_Applied := True\<rparr>))))"

definition config_Apply :: "'p config_env \<Rightarrow> write_fault \<Rightarrow> 'p config \<Rightarrow> 'p config_manager \<Rightarrow> 'p config_manager \<times> (config_error + unit)" where
  "config_Apply V fault c m =
     (case config_Validate V c of
        Inl e \<Rightarrow> (m, Err e)
      | Inr _ \<Rightarrow>
          (case config_Write V fault c m of
             (m1, Inl e) \<Rightarrow> (m1, Err e)
           | (m1, Inr _) \<Rightarrow> (m1\<lparr>cm_live := Some c\<rparr>, Ok ())))"

subsection \<open>The domain's view of it\<close>

record agent_config =
  a_SchemaVersion :: int
  a_ExportTimezone :: string
  a_TrustedPluginFingerprints :: "string list"
  a_Telemetry :: telemetry
  a_JournalMaxSizeBytes :: int
  a_MemoryLimitBytes :: int
  a_MemoryDegradeThresholdPct :: int
  a_Paths :: paths_config
  a_Risk :: risk_config
  a_Exchange :: exchange_config
  a_Edition :: string
  a_LicenseExpiry :: int
  a_GraceStartedAt :: "time option"

definition ConfigToDomain :: "'p config \<Rightarrow> agent_config" where
  "ConfigToDomain c =
     \<lparr>a_SchemaVersion = SchemaVersion c, a_ExportTimezone = ExportTimezone c,
      a_TrustedPluginFingerprints = TrustedPluginKeys c, a_Telemetry = Telemetry c,
      a_JournalMaxSizeBytes = JournalMaxSizeBytes c, a_MemoryLimitBytes = MemoryLimitBytes c,
      a_MemoryDegradeThresholdPct = MemoryDegradeThresholdPct c, a_Paths = Paths c, a_Risk = RiskCfg c,
      a_Exchange = ExchangeCfg c, a_Edition = EditionName c, a_LicenseExpiry = LicenseExpiry c,
      a_GraceStartedAt = GraceStartedAt c\<rparr>"

text \<open>The fields the domain does not know get their zero values.\<close>

definition ConfigFromDomain :: "'p config_env \<Rightarrow> agent_config \<Rightarrow> 'p config" where
  "ConfigFromDomain V a =
     \<lparr>SchemaVersion = a_SchemaVersion a, ExportTimezone = a_ExportTimezone a,
      TrustedPluginKeys = a_TrustedPluginFingerprints a, Telemetry = a_Telemetry a,
      JournalMaxSizeBytes = a_JournalMaxSizeBytes a, MemoryLimitBytes = a_MemoryLimitBytes a,
      MemoryDegradeThresholdPct = a_MemoryDegradeThresholdPct a, Proxy = cv_zero_proxy V, Paths = a_Paths a,
      RiskCfg = a_Risk a, ExchangeCfg = a_Exchange a,
      Cloud = \<lparr>BaseURL = '''', AccessTokenRef = '''', HandshakeEnabled = False\<rparr>,
      EditionName = a_Edition a, LicenseExpiry = a_LicenseExpiry a, GraceStartedAt = a_GraceStartedAt a\<rparr>"

definition repo_Config :: "'p config_manager \<Rightarrow> agent_config option" where
  "repo_Config m = map_option ConfigToDomain (config_Current m)"

definition repo_SetConfig :: "'p config_env \<Rightarrow> write_fault \<Rightarrow> agent_config \<Rightarrow> 'p config_manager \<Rightarrow> 'p config_manager \<times> (config_error + unit)" where
  "repo_SetConfig V fault a m = config_Apply V fault (ConfigFromDomain V a) m"

datatype config_value = CVString string | CVBool bool | CVInt int | CVInt64 int | CVOther string

definition applyConfigUpdate :: "string \<Rightarrow> config_value \<Rightarrow> 'p config \<Rightarrow> config_error + 'p config" where
  "applyConfigUpdate key v c =
     (let str = (\<lambda>f. case v of CVString s \<Rightarrow> Ok (f s) | _ \<Rightarrow> Err (UpdateKeyType key));
          int64 = (\<lambda>f. case v of CVInt64 n \<Rightarrow> Ok (f n) | CVInt n \<Rightarrow> Ok (f n) | _ \<Rightarrow> Err (UpdateKeyType key))
      in if key = ''export_timezone'' then str (\<lambda>s. c\<lparr>ExportTimezone := s\<rparr>)
         else if key = ''telemetry.enabled'' then
           (case v of CVBool b \<Rightarrow> Ok (c\<lparr>Telemetry := (Telemetry c)\<lparr>tl_Enabled := b\<rparr>\<rparr>) | _ \<Rightarrow> Err (UpdateKeyType key))
         else if key = ''telemetry.profile'' then str (\<lambda>s. c\<lparr>Telemetry := (Telemetry c)\<lparr>tl_Profile := profile_of_string s\<rparr>\<rparr>)
         else if key = ''journal_max_size_bytes'' then int64 (\<lambda>n. c\<lparr>JournalMaxSizeBytes := n\<rparr>)
         else if key = ''memory_limit_bytes'' then int64 (\<lambda>n. c\<lparr>MemoryLimitBytes := n\<rparr>)
         else if key = ''memory_degrade_threshold_percent'' then
           (case v of CVInt n \<Rightarrow> Ok (c\<lparr>MemoryDegradeThresholdPct := n\<rparr>) | _ \<Rightarrow> Err (UpdateKeyType key))
         else if key = ''risk.max_position'' then str (\<lambda>s. c\<lparr>RiskCfg := \<lparr>MaxPosition = s\<rparr>\<rparr>)
         else if key = ''exchange.api_key_id'' then str (\<lambda>s. c\<lparr>ExchangeCfg := (ExchangeCfg c)\<lparr>APIKeyID := s\<rparr>\<rparr>)
         else if key = ''exchange.default_symbol'' then str (\<lambda>s. c\<lparr>ExchangeCfg := (ExchangeCfg c)\<lparr>DefaultSymbol := s\<rparr>\<rparr>)
         else Err (UnknownKey key))"

text \<open>The updates are a map with distinct keys; the list is the order in which Go walks it.\<close>

fun apply_updates :: "(string \<times> config_value) list \<Rightarrow> 'p config \<Rightarrow> config_error + 'p config" where
  "apply_updates [] c = Ok c"
| "apply_updates ((key, v) # us) c = and_then (applyConfigUpdate key v c) (apply_updates us)"

definition repo_UpdateConfig ::
  "'p config_env \<Rightarrow> write_fault \<Rightarrow> (string \<times> config_value) list \<Rightarrow> 'p config_manager \<Rightarrow> 'p config_manager \<times> (config_error + unit)" where
  "repo_UpdateConfig V fault updates m =
     (case config_Current m of
        None \<Rightarrow> (m, Err NoCurrentConfig)
      | Some c \<Rightarrow>
          (case apply_updates updates c of
             Inl e \<Rightarrow> (m, Err e)
           | Inr c' \<Rightarrow> config_Apply V fault c' m))"

subsection \<open>Histories of the manager\<close>

text \<open>\<open>ConfigEdit\<close> is a change of the file by somebody else.\<close>

datatype 'p config_op =
    ConfigReload
  | ConfigEdit "string option"
  | ConfigApply write_fault "'p config"
  | ConfigSet write_fault agent_config
  | ConfigUpdate write_fault "(string \<times> config_value) list"

fun config_step :: "'p config_env \<Rightarrow> 'p config_op \<Rightarrow> 'p config_manager \<Rightarrow> 'p config_manager" where
  "config_step V ConfigReload m = fst (ReloadFromDisk V m)"
| "config_step V (ConfigEdit f) m = m\<lparr>cm_file := f\<rparr>"
| "config_step V (ConfigApply fault c) m = fst (config_Apply V fault c m)"
| "config_step V (ConfigSet fault a) m = fst (repo_SetConfig V fault a m)"
| "config_step V (ConfigUpdate fault us) m = fst (repo_UpdateConfig V fault us m)"

definition config_run :: "'p config_env \<Rightarrow> 'p config_op list \<Rightarrow> 'p config_manager \<Rightarrow> 'p config_manager" where
  "config_run V ops m = fold (config_step V) ops m"

definition live_valid :: "'p config_env \<Rightarrow> 'p config_manager \<Rightarrow> bool" where
  "live_valid V m \<longleftrightarrow> (\<exists>c. cm_live m = Some c \<and> config_Validate V c = Ok ())"

definition critical_fields :: "'p config \<Rightarrow> string \<times> string \<times> string \<times> string" where
  "critical_fields c = (MaxPosition (RiskCfg c), APIKeyID (ExchangeCfg c), DefaultSymbol (ExchangeCfg c), VaultDB (Paths c))"

lemma CriticalChanges_none: "CriticalChanges c d = [] \<longleftrightarrow> critical_fields c = critical_fields d"
  by (auto simp: CriticalChanges_def critical_fields_def)

lemma config_Write_live [simp]: "cm_live (fst (config_Write V fault c m)) = cm_live m"
  by (auto simp: config_Write_def split: sum.splits option.splits)

lemma config_Load_valid: "config_Load V f = Inr c \<Longrightarrow> config_Validate V c = Ok ()"
  by (auto simp: config_Load_def and_then_Ok split: option.splits sum.splits)

lemma config_Apply_valid: "live_valid V m \<Longrightarrow> live_valid V (fst (config_Apply V fault c m))"
proof -
  assume lv: "live_valid V m"
  have w: "cm_live m1 = cm_live m" if "config_Write V fault c m = (m1, r)" for m1 r
    using config_Write_live [of V fault c m] that by simp
  show ?thesis
    using lv w by (cases "config_Validate V c"; cases "config_Write V fault c m")
      (auto simp: config_Apply_def live_valid_def split: sum.splits)
qed

lemma reload_valid: "live_valid V m \<Longrightarrow> live_valid V (fst (ReloadFromDisk V m))"
  by (auto simp: ReloadFromDisk_def live_valid_def config_Current_def Let_def dest: config_Load_valid split: sum.splits)

lemma config_step_valid: "live_valid V m \<Longrightarrow> live_valid V (config_step V op m)"
proof (cases op)
  case (ConfigEdit f) then show "live_valid V m \<Longrightarrow> ?thesis" by (simp add: live_valid_def)
next
  case (ConfigUpdate fault us)
  then show "live_valid V m \<Longrightarrow> ?thesis"
    by (auto simp: repo_UpdateConfig_def config_Apply_valid split: option.splits sum.splits)
qed (simp_all add: config_Apply_valid reload_valid repo_SetConfig_def)

lemma config_run_valid: "live_valid V m \<Longrightarrow> live_valid V (config_run V ops m)"
  unfolding config_run_def by (induction ops arbitrary: m) (simp_all add: config_step_valid)

lemma Default_valid: "cv_load_location V ''UTC'' \<Longrightarrow> config_Validate V (Default V dir) = Ok ()"
  by (simp add: config_Validate_def Default_def profile_Valid_def validateTrustedFingerprints_def validate_cloud_def)

lemma NewManager_valid:
  assumes "config_NewManager V dir file fault = Ok m" "cv_load_location V ''UTC''"
  shows "live_valid V m"
  using assms Default_valid [OF assms(2), of dir]
  by (auto simp: config_NewManager_def live_valid_def Let_def and_then_Ok dest: config_Load_valid
      split: if_splits prod.splits sum.splits)

lemma guarded_step:
  assumes "live_valid V m" "op = ConfigReload \<or> (\<exists>f. op = ConfigEdit f)"
  shows "map_option critical_fields (cm_live (config_step V op m)) = map_option critical_fields (cm_live m)"
  using assms by (auto simp: live_valid_def ReloadFromDisk_def config_Current_def Let_def CriticalChanges_none split: sum.splits)

text \<open>C22: the live configuration. Whatever the file contains, however it is edited, and whichever writes
  fail, a manager that started always holds a configuration that passes validation, a reload never
  panics, and as long as the file is only edited and reloaded the position limit, the API key, the
  default symbol and the vault stay what they were when the agent started.\<close>

theorem live_configuration_is_guarded:
  assumes "config_NewManager V dir file fault = Ok m" "cv_load_location V ''UTC''"
  shows "(\<exists>c. config_Current (config_run V ops m) = Some c \<and> config_Validate V c = Ok ()) \<and>
     snd (ReloadFromDisk V (config_run V ops m)) \<noteq> Panic \<and>
     ((\<forall>op \<in> set ops. op = ConfigReload \<or> (\<exists>f. op = ConfigEdit f)) \<longrightarrow>
        map_option critical_fields (config_Current (config_run V ops m)) = map_option critical_fields (config_Current m))"
proof (intro conjI impI)
  have v: "live_valid V m" by (rule NewManager_valid [OF assms])
  then have r: "live_valid V (config_run V ops m)" by (rule config_run_valid)
  then show "\<exists>c. config_Current (config_run V ops m) = Some c \<and> config_Validate V c = Ok ()"
    by (simp add: live_valid_def config_Current_def)
  from r show "snd (ReloadFromDisk V (config_run V ops m)) \<noteq> Panic"
    by (auto simp: ReloadFromDisk_def live_valid_def config_Current_def Let_def split: sum.splits if_splits)
  assume "\<forall>op \<in> set ops. op = ConfigReload \<or> (\<exists>f. op = ConfigEdit f)"
  then show "map_option critical_fields (config_Current (config_run V ops m)) = map_option critical_fields (config_Current m)"
    using v unfolding config_run_def config_Current_def
  proof (induction ops arbitrary: m)
    case (Cons op ops)
    then have "map_option critical_fields (cm_live (fold (config_step V) ops (config_step V op m))) =
        map_option critical_fields (cm_live (config_step V op m))"
      using config_step_valid [OF Cons.prems(2), of op] by simp
    then show ?case using guarded_step [OF Cons.prems(2), of op] Cons.prems(1) by simp
  qed simp
qed

definition plain_env :: "string config_env" where
  "plain_env = \<lparr>cv_load_location = (\<lambda>z. z = ''UTC''), cv_parse_uri = (\<lambda>u. Some (''https'', u)),
     cv_marshal = (\<lambda>c. Inr ''yaml''), cv_unmarshal = (\<lambda>s. Inl ''bad yaml''), cv_join = (\<lambda>d f. d @ ''/'' @ f), cv_zero_proxy = ''''\<rparr>"

lemma plain_start: "\<exists>m. config_NewManager plain_env ''d'' None None = Ok m \<and> config_Current m = Some (Default plain_env ''d'')"
  by (simp add: config_NewManager_def config_Write_def plain_env_def Let_def config_Current_def)

lemma live_configuration_is_guarded_witness:
  "\<exists>m. config_NewManager plain_env ''d'' None None = Ok m \<and>
     map_option critical_fields (config_Current (config_run plain_env [ConfigEdit (Some ''x''), ConfigReload] m)) =
       Some (''1000'', '''', ''BTCUSDT'', ''d/vault.db'')"
proof -
  obtain m where m: "config_NewManager plain_env ''d'' None None = Ok m" "config_Current m = Some (Default plain_env ''d'')"
    using plain_start by blast
  have "cv_load_location plain_env ''UTC''" by (simp add: plain_env_def)
  from live_configuration_is_guarded [OF m(1) this, of "[ConfigEdit (Some ''x''), ConfigReload]"] m(2)
  have "map_option critical_fields (config_Current (config_run plain_env [ConfigEdit (Some ''x''), ConfigReload] m)) =
      Some (critical_fields (Default plain_env ''d''))" by simp
  then show ?thesis using m(1) by (auto simp: critical_fields_def Default_def plain_env_def)
qed

text \<open>Setting the configuration loses part of it. The domain's configuration has no proxy and no cloud
  section, and \<open>SetConfig\<close> replaces the whole file: writing back the very configuration that was just
  read succeeds and clears the proxy, so the connector goes out directly, and the cloud settings. The
  update of single fields keeps both.\<close>

theorem set_config_clears_proxy_and_cloud:
  assumes "config_Current m = Some c" "config_Validate V c = Ok ()" "cv_marshal V (ConfigFromDomain V (ConfigToDomain c)) = Inr body"
  shows "(\<exists>m' c'. repo_SetConfig V None (ConfigToDomain c) m = (m', Ok ()) \<and> config_Current m' = Some c' \<and>
        ConfigToDomain c' = ConfigToDomain c \<and> cm_file m' = Some body \<and>
        Proxy c' = cv_zero_proxy V \<and> Cloud c' = \<lparr>BaseURL = '''', AccessTokenRef = '''', HandshakeEnabled = False\<rparr>) \<and>
     (\<forall>fault us m' c'. repo_UpdateConfig V fault us m = (m', Ok ()) \<longrightarrow> config_Current m' = Some c' \<longrightarrow>
        Proxy c' = Proxy c \<and> Cloud c' = Cloud c)"
proof
  have "config_Validate V (ConfigFromDomain V (ConfigToDomain c)) = Ok ()"
    using assms(2)
    by (auto simp: config_Validate_def ConfigFromDomain_def ConfigToDomain_def validate_cloud_def and_then_Ok split: if_splits)
  then show "\<exists>m' c'. repo_SetConfig V None (ConfigToDomain c) m = (m', Ok ()) \<and> config_Current m' = Some c' \<and>
        ConfigToDomain c' = ConfigToDomain c \<and> cm_file m' = Some body \<and>
        Proxy c' = cv_zero_proxy V \<and> Cloud c' = \<lparr>BaseURL = '''', AccessTokenRef = '''', HandshakeEnabled = False\<rparr>"
    using assms(3)
    by (simp add: repo_SetConfig_def config_Apply_def config_Write_def config_Current_def)
      (simp add: ConfigFromDomain_def ConfigToDomain_def)
  have one: "Proxy d' = Proxy d \<and> Cloud d' = Cloud d" if "applyConfigUpdate k v d = Inr d'" for k v and d d' :: "'a config"
    using that by (auto simp: applyConfigUpdate_def Let_def split: if_splits config_value.splits)
  have "Proxy d' = Proxy d \<and> Cloud d' = Cloud d" if "apply_updates us d = Inr d'" for us and d d' :: "'a config"
    using that by (induction us d rule: apply_updates.induct) (auto simp: and_then_Ok dest: one)
  then show "\<forall>fault us m' c'. repo_UpdateConfig V fault us m = (m', Ok ()) \<longrightarrow> config_Current m' = Some c' \<longrightarrow>
        Proxy c' = Proxy c \<and> Cloud c' = Cloud c"
    using assms(1)
    by (auto simp: repo_UpdateConfig_def config_Apply_def config_Current_def split: sum.splits prod.splits)
qed

definition proxied :: "string config" where
  "proxied = (Default plain_env ''d'')\<lparr>Proxy := ''socks5://h'', Cloud := \<lparr>BaseURL = ''h'', AccessTokenRef = ''t'', HandshakeEnabled = True\<rparr>\<rparr>"

lemma set_config_clears_proxy_and_cloud_witness:
  "\<exists>m' c'. repo_SetConfig plain_env None (ConfigToDomain proxied) \<lparr>cm_path = ''p'', cm_live = Some proxied, cm_file = None\<rparr> = (m', Ok ()) \<and>
     config_Current m' = Some c' \<and> Proxy c' = '''' \<and> Proxy proxied = ''socks5://h''"
proof -
  let ?m = "\<lparr>cm_path = ''p'', cm_live = Some proxied, cm_file = None\<rparr>"
  have "config_Current ?m = Some proxied" by (simp add: config_Current_def)
  moreover have "config_Validate plain_env proxied = Ok ()"
    by (simp add: config_Validate_def proxied_def Default_def profile_Valid_def validateTrustedFingerprints_def
        validate_cloud_def plain_env_def)
  moreover have "cv_marshal plain_env (ConfigFromDomain plain_env (ConfigToDomain proxied)) = Inr ''yaml''" by (simp add: plain_env_def)
  ultimately have "\<exists>m' c'. repo_SetConfig plain_env None (ConfigToDomain proxied) ?m = (m', Ok ()) \<and>
     config_Current m' = Some c' \<and> Proxy c' = cv_zero_proxy plain_env"
    using set_config_clears_proxy_and_cloud by blast
  then show ?thesis by (simp add: plain_env_def proxied_def)
qed

end
