(* ===== verification/Audit_Log.thy ===== *)
theory Audit_Log
  imports Go_Text
begin

text \<open>
  The append-only audit log, \<open>internal/audit/logger.go\<close>, the repository on top of it that answers whether
  the operator accepted the risk disclaimer (\<open>internal/providers/audit\<close>), and the check of the binary's
  own hash, \<open>internal/integrity\<close>. The log is the text of its file. JSON and SHA-256 are parameters; a
  write may be torn: the first bytes of the line reach the file, and the caller gets an error.
\<close>

subsection \<open>The log\<close>

record audit_record =
  ar_TimestampUTC :: time
  ar_OperatorSource :: string
  ar_Action :: string
  ar_CorrelationID :: string
  ar_BeforeStateHash :: string
  ar_AfterStateHash :: string

definition ActionAcceptedFinancialRiskDisclaimer :: string where
  "ActionAcceptedFinancialRiskDisclaimer = ''accepted_financial_risk_disclaimer''"

definition FinancialRiskDisclaimer :: string where
  "FinancialRiskDisclaimer = ''Kairos is an execution and automation platform, not financial advice. Use of live trading is at your own risk.''"

record audit_lib =
  al_encode :: "audit_record \<Rightarrow> string"
  al_decode :: "string \<Rightarrow> audit_record option"
  al_hash :: "string \<Rightarrow> string"

datatype audit_error = CreateAuditDir string | AppendAuditRecord string | SyncAuditLog string | OpenAuditLog string | ScanAuditLog

definition audit_Open :: "string option \<Rightarrow> string option \<Rightarrow> string option \<Rightarrow> audit_error + string" where
  "audit_Open mkdir_err open_err file =
     (case mkdir_err of
        Some e \<Rightarrow> Err (CreateAuditDir e)
      | None \<Rightarrow> (case open_err of Some e \<Rightarrow> Err (OpenAuditLog e) | None \<Rightarrow> Ok (case file of None \<Rightarrow> [] | Some s \<Rightarrow> s)))"

definition audit_Write :: "audit_lib \<Rightarrow> write_outcome \<Rightarrow> audit_record \<Rightarrow> string \<Rightarrow> string \<times> (audit_error + unit)" where
  "audit_Write A w r file =
     (let line = al_encode A r @ [newline] in
      case w of
        Written \<Rightarrow> (file @ line, Ok ())
      | Torn n e \<Rightarrow> (file @ take n line, Err (AppendAuditRecord e))
      | NotSynced e \<Rightarrow> (file @ line, Err (SyncAuditLog e)))"

text \<open>Lines that do not decode are skipped; the scan ends at the first match.\<close>

definition line_has_action :: "audit_lib \<Rightarrow> string \<Rightarrow> string \<Rightarrow> bool" where
  "line_has_action A action l = (case al_decode A l of None \<Rightarrow> False | Some r \<Rightarrow> ar_Action r = action)"

definition HasAction :: "audit_lib \<Rightarrow> string option \<Rightarrow> string \<Rightarrow> string \<Rightarrow> audit_error + bool" where
  "HasAction A open_err action file =
     (case open_err of
        Some e \<Rightarrow> Err (OpenAuditLog e)
      | None \<Rightarrow>
          (case scan_file file of (ls, too_long) \<Rightarrow>
             if \<exists>l \<in> set ls. line_has_action A action l then Ok True
             else if too_long then Err ScanAuditLog else Ok False))"

definition DisclaimerRecord :: "audit_lib \<Rightarrow> time \<Rightarrow> string \<Rightarrow> string \<Rightarrow> string \<Rightarrow> audit_record" where
  "DisclaimerRecord A now source txt version =
     (let h = al_hash A (txt @ ''|'' @ version)
      in \<lparr>ar_TimestampUTC = now, ar_OperatorSource = source, ar_Action = ActionAcceptedFinancialRiskDisclaimer,
          ar_CorrelationID = ''financial-risk-disclaimer'', ar_BeforeStateHash = h, ar_AfterStateHash = h\<rparr>)"

definition DisclaimerAccepted :: "audit_lib \<Rightarrow> string option \<Rightarrow> string \<Rightarrow> audit_error + bool" where
  "DisclaimerAccepted A open_err file = HasAction A open_err ActionAcceptedFinancialRiskDisclaimer file"

definition AcceptDisclaimer ::
  "audit_lib \<Rightarrow> string \<Rightarrow> time \<Rightarrow> write_outcome \<Rightarrow> string \<Rightarrow> string \<Rightarrow> string \<times> (audit_error + unit)" where
  "AcceptDisclaimer A version now w source file =
     audit_Write A w (DisclaimerRecord A now source FinancialRiskDisclaimer version) file"

text \<open>What the encoding of one record satisfies: it is decoded again, is one line, and fits the scanner.\<close>

definition encodes_line :: "audit_lib \<Rightarrow> audit_record \<Rightarrow> bool" where
  "encodes_line A r \<longleftrightarrow> al_decode A (al_encode A r) = Some r \<and> newline \<notin> set (al_encode A r) \<and>
     drop_cr (al_encode A r) = al_encode A r \<and> short_line (al_encode A r)"

text \<open>An accepted disclaimer is found again. If every line of the log so far is complete and below the
  scanner's limit and the record encodes to such a line, then after a successful write the log has the
  record's action, and every other action exactly if it had it before.\<close>

theorem audit_write_is_found:
  assumes "\<forall>l \<in> set ls. newline \<notin> set l \<and> short_line l" "encodes_line A r" "audit_Write A w r (text_of ls) = (file', Ok ())"
  shows "HasAction A None (ar_Action r) file' = Ok True \<and>
     (\<forall>action. action \<noteq> ar_Action r \<longrightarrow> HasAction A None action file' = HasAction A None action (text_of ls))"
proof -
  have f: "file' = text_of (ls @ [al_encode A r])"
    using assms(3) by (cases w) (auto simp: audit_Write_def Let_def)
  have s: "scan_file file' = (map drop_cr ls @ [al_encode A r], False)"
    unfolding f using scan_text_of [of "ls @ [al_encode A r]"] assms(1,2) by (simp add: encodes_line_def del: text_of_simps)
  have t: "scan_file (text_of ls) = (map drop_cr ls, False)" using scan_text_of [of ls] assms(1) by simp
  have r: "line_has_action A action (al_encode A r) \<longleftrightarrow> action = ar_Action r" for action
    using assms(2) by (auto simp: line_has_action_def encodes_line_def)
  show ?thesis by (auto simp: HasAction_def s t r)
qed

definition toy_audit :: audit_lib where
  "toy_audit = \<lparr>al_encode = ar_Action,
     al_decode = (\<lambda>s. Some \<lparr>ar_TimestampUTC = 0, ar_OperatorSource = '''', ar_Action = s, ar_CorrelationID = '''',
       ar_BeforeStateHash = '''', ar_AfterStateHash = ''''\<rparr>),
     al_hash = id\<rparr>"

definition plain_record :: "string \<Rightarrow> audit_record" where
  "plain_record a = \<lparr>ar_TimestampUTC = 0, ar_OperatorSource = '''', ar_Action = a, ar_CorrelationID = '''',
     ar_BeforeStateHash = '''', ar_AfterStateHash = ''''\<rparr>"

lemma audit_write_is_found_witness:
  "HasAction toy_audit None ''stop'' (fst (audit_Write toy_audit Written (plain_record ''stop'') (text_of [''start'']))) = Ok True"
proof -
  have "encodes_line toy_audit (plain_record ''stop'')"
    by (simp add: encodes_line_def toy_audit_def plain_record_def newline_def drop_cr_def short_line_def)
  moreover have "\<forall>l \<in> set [''start'']. newline \<notin> set l \<and> short_line l" by (simp add: newline_def short_line_def)
  moreover have "audit_Write toy_audit Written (plain_record ''stop'') (text_of [''start'']) =
      (fst (audit_Write toy_audit Written (plain_record ''stop'') (text_of [''start''])), Ok ())"
    by (simp add: audit_Write_def Let_def)
  ultimately have "HasAction toy_audit None (ar_Action (plain_record ''stop''))
      (fst (audit_Write toy_audit Written (plain_record ''stop'') (text_of [''start'']))) = Ok True"
    using audit_write_is_found by blast
  then show ?thesis by (simp add: plain_record_def)
qed

text \<open>One line of 64 KiB blinds the log for good: unless the action was recorded before that line,
  \<open>HasAction\<close> returns an error whatever is written afterwards, so an operator who has not accepted the
  disclaimer before can never start live trading again.\<close>

theorem overlong_line_blinds_audit_log:
  assumes "newline \<notin> set long" "\<not> short_line long"
    and "\<forall>l \<in> set ls. newline \<notin> set l \<and> \<not> line_has_action A action (drop_cr l)"
  shows "HasAction A None action (text_of (ls @ [long]) @ rest) = Err ScanAuditLog"
proof -
  have split: "split_at_char newline (text_of (ls @ [long]) @ rest) = ls @ [long] @ split_at_char newline rest"
    using assms(1,3) by (induction ls) (simp_all add: split_at_char_append split_at_char_single)
  have long: "long \<in> set (file_lines (text_of (ls @ [long]) @ rest))"
    and pre: "\<exists>more. file_lines (text_of (ls @ [long]) @ rest) = ls @ long # more"
    unfolding file_lines_def split Let_def by (simp_all add: butlast_append)
  obtain more where m: "file_lines (text_of (ls @ [long]) @ rest) = ls @ long # more" using pre by blast
  have "takeWhile short_line (ls @ long # more) = takeWhile short_line ls"
    using assms(2) by (simp add: takeWhile_append) (metis takeWhile_eq_all_conv)
  then have "set (fst (scan_file (text_of (ls @ [long]) @ rest))) \<subseteq> drop_cr ` set ls"
    unfolding scan_file_def m by (auto dest: set_takeWhileD)
  then have "\<not> (\<exists>l \<in> set (fst (scan_file (text_of (ls @ [long]) @ rest))). line_has_action A action l)"
    using assms(3) by blast
  moreover have "snd (scan_file (text_of (ls @ [long]) @ rest))" using long assms(2) by (auto simp: scan_file_def)
  ultimately show ?thesis by (simp add: HasAction_def case_prod_beta)
qed

lemma overlong_line_blinds_audit_log_witness:
  "HasAction toy_audit None ''go'' (text_of ([''start''] @ [replicate 65536 (CHR ''x'')]) @ text_of [''go'']) = Err ScanAuditLog"
  by (rule overlong_line_blinds_audit_log)
    (simp_all add: newline_def short_line_def line_has_action_def toy_audit_def drop_cr_def)

subsection \<open>The hash of the binary\<close>

definition beginMarker :: string where "beginMarker = ''KAIROS_ATTEST_BEGIN''"
definition endMarker :: string where "endMarker = ''KAIROS_ATTEST_END''"

text \<open>The loops of \<open>indexOf\<close>; a needle that is not found gives -1, here \<open>None\<close>.\<close>

fun index_from :: "nat \<Rightarrow> string \<Rightarrow> string \<Rightarrow> nat option" where
  "index_from i [] needle = (if needle = [] then Some i else None)"
| "index_from i (c # body) needle =
     (if HasPrefix (c # body) needle then Some i else index_from (Suc i) body needle)"

definition indexOf :: "string \<Rightarrow> string \<Rightarrow> nat option" where
  "indexOf body needle = index_from 0 body needle"

definition covered_bytes :: "string \<Rightarrow> string" where
  "covered_bytes body =
     (case (indexOf body beginMarker, indexOf body endMarker) of
        (Some start, Some stop) \<Rightarrow>
          if stop > start then take start body @ drop (stop + length endMarker) body else body
      | _ \<Rightarrow> body)"

definition HashExcludingAttestationBlock :: "(string \<Rightarrow> string) \<Rightarrow> string \<Rightarrow> string" where
  "HashExcludingAttestationBlock hash body = hash (covered_bytes body)"

datatype integrity_status = StatusTrusted | StatusDegraded

definition VerifyBinary :: "(string \<Rightarrow> string) \<Rightarrow> (string + string) \<Rightarrow> string \<Rightarrow> integrity_status \<times> (string + unit)" where
  "VerifyBinary hash contents expected =
     (case contents of
        Inl e \<Rightarrow> (StatusDegraded, Err e)
      | Inr body \<Rightarrow>
          if HashExcludingAttestationBlock hash body \<noteq> expected then (StatusDegraded, Ok ()) else (StatusTrusted, Ok ()))"

text \<open>What \<open>indexOf\<close> returns is the first position at which the needle stands.\<close>

lemma index_from_bounds: "index_from i body needle = Some k \<Longrightarrow> i \<le> k \<and> HasPrefix (drop (k - i) body) needle"
proof (induction i body needle rule: index_from.induct)
  case (2 i c body needle)
  show ?case
  proof (cases "HasPrefix (c # body) needle")
    case False
    then have "Suc i \<le> k \<and> HasPrefix (drop (k - Suc i) body) needle" using 2 by simp
    then show ?thesis by (auto simp: drop_Cons' Suc_diff_Suc)
  qed (use 2 in auto)
qed (auto simp: HasPrefix_def split: if_splits)

lemma index_from_at:
  "index_from i (p @ needle @ s) needle = Some (i + length p)"
  if "\<And>q. q < length p \<Longrightarrow> \<not> HasPrefix (drop q (p @ needle @ s)) needle"
  using that
proof (induction p arbitrary: i)
  case Nil
  then show ?case using HasPrefix_append [of needle s] by (cases "needle @ s") (auto simp del: HasPrefix_append)
next
  case (Cons c p)
  from Cons.prems [of 0] have now: "\<not> HasPrefix (c # p @ needle @ s) needle" by simp
  have "\<not> HasPrefix (drop q (p @ needle @ s)) needle" if "q < length p" for q
    using Cons.prems [of "Suc q"] that by simp
  then show ?case using Cons.IH [of "Suc i"] now by simp
qed

definition attested :: "string \<Rightarrow> string \<Rightarrow> string \<Rightarrow> string" where
  "attested p x s = p @ beginMarker @ x @ endMarker @ s"

definition block_stands :: "string \<Rightarrow> string \<Rightarrow> string \<Rightarrow> bool" where
  "block_stands p x s \<longleftrightarrow> indexOf (attested p x s) beginMarker = Some (length p) \<and>
     indexOf (attested p x s) endMarker = Some (length p + length beginMarker + length x)"

lemma covered_attested: "block_stands p x s \<Longrightarrow> covered_bytes (attested p x s) = p @ s"
proof -
  have "take (length p) (attested p x s) = p"
    "drop (length p + length beginMarker + length x + length endMarker) (attested p x s) = s"
    by (simp_all add: attested_def)
  then show "block_stands p x s \<Longrightarrow> covered_bytes (attested p x s) = p @ s"
    by (simp add: block_stands_def covered_bytes_def) (simp add: beginMarker_def)
qed

text \<open>What the self-check covers. Wherever the first attestation block stands, the bytes inside it do not
  count: a binary is trusted exactly when its hash without the block is the expected one, so replacing the
  block's payload never changes the verdict, and (for a hash without collisions) changing any byte outside it
  always does.\<close>

theorem self_check_covers_all_but_the_block:
  assumes "block_stands p x s" "block_stands p' y s'" "inj hash"
  shows "VerifyBinary hash (Ok (attested p' y s')) (HashExcludingAttestationBlock hash (attested p x s)) =
    (if p' @ s' = p @ s then StatusTrusted else StatusDegraded, Ok ())"
  using assms(3) by (simp add: VerifyBinary_def HashExcludingAttestationBlock_def covered_attested assms(1,2) inj_eq)

lemma self_check_covers_all_but_the_block_witness:
  "VerifyBinary id (Ok (attested ''a'' ''evil'' ''z'')) (HashExcludingAttestationBlock id (attested ''a'' ''good'' ''z'')) =
    (StatusTrusted, Ok ())"
proof -
  have b: "block_stands ''a'' ''good'' ''z''" "block_stands ''a'' ''evil'' ''z''"
    by (simp_all add: block_stands_def attested_def indexOf_def beginMarker_def endMarker_def HasPrefix_def)
  show ?thesis using self_check_covers_all_but_the_block [OF b, of id] by simp
qed

end
