(* ===== verification/Agent_Service.thy ===== *)
theory Agent_Service
  imports Runtime_Manager License Config Audit_Log
begin

text \<open>
  The agent's application service, \<open>internal/service/agent/service.go\<close>, over the repositories that
  \<open>internal/bootstrap/factory.go\<close> gives it: the runtime repository, the configuration, the audit log and
  the trusted plugin keys of the vault (\<open>internal/providers/vault\<close>, the table of \<open>internal/vault/store.go\<close>).
  An operation takes the outcomes of its writes from the environment (\<open>io\<close>), returns the new state with
  its error, and keeps what it changed before a step failed. The command \<open>kairos emergency-stop\<close>
  (\<open>cmd/kairos/cli/emergency_stop.go\<close>) builds a service of its own; it is modelled next to a running one.
\<close>

record plugin_key =
  pk_Fingerprint :: string
  pk_PublicKey :: string
  pk_AddedAtUTC :: time

record 'p agent_svc =
  ag_runtime :: repository
  ag_config :: "'p config_manager"
  ag_audit :: string
  ag_trusted :: "string \<rightharpoonup> plugin_key"

text \<open>What the outside decides during one call: the times it reads, the failures of its saves and writes.\<close>

record io =
  io_now :: time
  io_then :: time
  io_save1 :: "string option"
  io_save2 :: "string option"
  io_audit_open :: "string option"
  io_audit_write :: write_outcome
  io_config_fault :: write_fault
  io_vault :: "string option"

record 'p agent_lib =
  gl_audit :: audit_lib
  gl_config :: "'p config_env"
  gl_version :: string

datatype agent_error =
    FromRuntime repo_error | FromAudit audit_error | FromConfig config_error | FromVault string
  | FinancialRiskDisclaimerRequired | FingerprintNotListed string | UnsupportedSchema int

fun lift_err :: "('e \<Rightarrow> 'f) \<Rightarrow> 'e + 'a \<Rightarrow> 'f + 'a" where
  "lift_err f (Inl e) = Inl (f e)"
| "lift_err f (Inr x) = Inr x"

type_synonym 'p agent_result = "'p agent_svc \<times> (agent_error + unit)"

subsection \<open>The operations\<close>

definition agent_transition :: "run_mode \<Rightarrow> string \<Rightarrow> io \<Rightarrow> 'p agent_svc \<Rightarrow> 'p agent_result" where
  "agent_transition to reason i a =
     (case repo_Transition to reason (io_now i) (io_save1 i) (ag_runtime a) of
        (r, res) \<Rightarrow> (a\<lparr>ag_runtime := r\<rparr>, lift_err FromRuntime res))"

definition StartScan :: "io \<Rightarrow> 'p agent_svc \<Rightarrow> 'p agent_result" where
  "StartScan i a = agent_transition RunModeScanning ''scanning requested'' i a"

definition StartPaper :: "io \<Rightarrow> 'p agent_svc \<Rightarrow> 'p agent_result" where
  "StartPaper i a = agent_transition RunModePaperTrading ''paper trading requested'' i a"

definition QueueBacktest :: "io \<Rightarrow> 'p agent_svc \<Rightarrow> 'p agent_result" where
  "QueueBacktest i a = agent_transition RunModeBacktesting ''backtest requested'' i a"

definition StopAll :: "io \<Rightarrow> 'p agent_svc \<Rightarrow> 'p agent_result" where
  "StopAll i a = agent_transition RunModeIdle ''stop all requested'' i a"

definition service_AcceptDisclaimer :: "'p agent_lib \<Rightarrow> string \<Rightarrow> io \<Rightarrow> 'p agent_svc \<Rightarrow> 'p agent_result" where
  "service_AcceptDisclaimer L source i a =
     (case AcceptDisclaimer (gl_audit L) (gl_version L) (io_now i) (io_audit_write i) source (ag_audit a) of
        (f, res) \<Rightarrow> (a\<lparr>ag_audit := f\<rparr>, lift_err FromAudit res))"

definition StartLive :: "'p agent_lib \<Rightarrow> io \<Rightarrow> 'p agent_svc \<Rightarrow> 'p agent_result" where
  "StartLive L i a =
     (case DisclaimerAccepted (gl_audit L) (io_audit_open i) (ag_audit a) of
        Inl e \<Rightarrow> (a, Err (FromAudit e))
      | Inr False \<Rightarrow> (a, Err FinancialRiskDisclaimerRequired)
      | Inr True \<Rightarrow>
          (case repo_SetLicense LicenseStateLicensed (io_now i) (io_save1 i) (ag_runtime a) of
             (r1, Inl e) \<Rightarrow> (a\<lparr>ag_runtime := r1\<rparr>, Err (FromRuntime e))
           | (r1, Inr _) \<Rightarrow>
               (case repo_Transition RunModeLiveTrading ''live trading requested'' (io_then i) (io_save2 i) r1 of
                  (r2, res) \<Rightarrow> (a\<lparr>ag_runtime := r2\<rparr>, lift_err FromRuntime res))))"

definition EmergencyStop :: "io \<Rightarrow> 'p agent_svc \<Rightarrow> 'p agent_result" where
  "EmergencyStop i a =
     (case repo_Transition RunModeHalted ''emergency stop'' (io_now i) (io_save1 i) (ag_runtime a) of
        (r1, Inl e) \<Rightarrow> (a\<lparr>ag_runtime := r1\<rparr>, Err (FromRuntime e))
      | (r1, Inr _) \<Rightarrow>
          (case repo_SetConnectivity ConnectivityStateNetworkWait (io_then i) (io_save2 i) r1 of
             (r2, res) \<Rightarrow> (a\<lparr>ag_runtime := r2\<rparr>, lift_err FromRuntime res)))"

text \<open>The upsert of \<open>StoreTrustedPluginKey\<close>: one row per fingerprint.\<close>

definition vault_TrustPluginKey :: "time \<Rightarrow> string option \<Rightarrow> string \<Rightarrow> string \<Rightarrow> (string \<rightharpoonup> plugin_key) \<Rightarrow> (string \<rightharpoonup> plugin_key) \<times> (string + unit)" where
  "vault_TrustPluginKey now fault fp key keys =
     (case fault of
        Some e \<Rightarrow> (keys, Err e)
      | None \<Rightarrow> (keys(fp \<mapsto> \<lparr>pk_Fingerprint = fp, pk_PublicKey = key, pk_AddedAtUTC = now\<rparr>), Ok ()))"

definition TrustPluginKey :: "string \<Rightarrow> string \<Rightarrow> io \<Rightarrow> 'p agent_svc \<Rightarrow> (agent_error, 'p agent_result) outcome" where
  "TrustPluginKey fp key i a =
     or_panic (repo_Config (ag_config a)) (\<lambda>c.
       Return
        (if fp \<notin> set (a_TrustedPluginFingerprints c) then (a, Err (FingerprintNotListed fp))
         else (case vault_TrustPluginKey (io_now i) (io_vault i) fp key (ag_trusted a) of
                 (ks, res) \<Rightarrow> (a\<lparr>ag_trusted := ks\<rparr>, lift_err FromVault res))))"

definition service_SetConfig :: "'p agent_lib \<Rightarrow> agent_config \<Rightarrow> io \<Rightarrow> 'p agent_svc \<Rightarrow> 'p agent_result" where
  "service_SetConfig L c i a =
     (if a_SchemaVersion c \<noteq> 1 then (a, Err (UnsupportedSchema (a_SchemaVersion c)))
      else case repo_SetConfig (gl_config L) (io_config_fault i) c (ag_config a) of
             (m, res) \<Rightarrow> (a\<lparr>ag_config := m\<rparr>, lift_err FromConfig res))"

definition service_UpdateConfig :: "'p agent_lib \<Rightarrow> string \<Rightarrow> config_value \<Rightarrow> io \<Rightarrow> 'p agent_svc \<Rightarrow> 'p agent_result" where
  "service_UpdateConfig L key v i a =
     (case repo_UpdateConfig (gl_config L) (io_config_fault i) [(key, v)] (ag_config a) of
        (m, res) \<Rightarrow> (a\<lparr>ag_config := m\<rparr>, lift_err FromConfig res))"

subsection \<open>The queries\<close>

record check_output =
  co_SchemaVersion :: int
  co_Telemetry :: telemetry
  co_AllowedOutbound :: "string list"
  co_Status :: status

definition service_Check :: "'p agent_svc \<Rightarrow> (agent_error, check_output) outcome" where
  "service_Check a =
     or_panic (repo_Config (ag_config a)) (\<lambda>c.
       let st = repo_Status (ag_runtime a);
           base = [''exchange-public'', ''exchange-private''];
           out1 = (if License st \<noteq> LicenseStateDemo then base @ [''cloud-license''] else base);
           out2 = (if License st \<noteq> LicenseStateDemo \<and> tl_Enabled (a_Telemetry c) \<and> tl_Profile (a_Telemetry c) \<noteq> TelemetryProfileOff
                   then out1 @ [''cloud-telemetry''] else out1)
       in Return \<lparr>co_SchemaVersion = a_SchemaVersion c, co_Telemetry = a_Telemetry c, co_AllowedOutbound = out2, co_Status = st\<rparr>)"

definition service_Status :: "'p agent_svc \<Rightarrow> status" where
  "service_Status a = repo_Status (ag_runtime a)"

text \<open>The claims are read off the configuration file, not off a verified token.\<close>

definition config_claims :: "agent_config \<Rightarrow> claims" where
  "config_claims c = \<lparr>c_Subject = a_Edition c, c_HWID = '''', c_Expiry = a_LicenseExpiry c\<rparr>"

definition service_Entitlement :: "time \<Rightarrow> 'p agent_svc \<Rightarrow> (agent_error, entitlement) outcome" where
  "service_Entitlement now a =
     or_panic (repo_Config (ag_config a)) (\<lambda>c. Return (Evaluate now (config_claims c) (a_GraceStartedAt c)))"

definition service_CanUseFeature :: "time \<Rightarrow> feature \<Rightarrow> 'p agent_svc \<Rightarrow> (agent_error, bool) outcome" where
  "service_CanUseFeature now f a =
     bind_outcome (service_Entitlement now a) (\<lambda>ent. Return (ent_CanUseFeature ent f))"

subsection \<open>The command \<open>kairos emergency-stop\<close>\<close>

datatype cli_result =
    NotConfirmed | ConfigUnavailable config_error | PromptFailed string | Aborted | StopFailed agent_error
  | StopComplete status

text \<open>
  A process of its own. The runtime repository is built without the snapshot store, so \<open>has_store\<close> is
  false; the file of the agent's snapshot passes through.
\<close>

definition runEmergencyStop ::
  "bool \<Rightarrow> bool \<Rightarrow> string + bool \<Rightarrow> config_error + 'p config_manager \<Rightarrow> io \<Rightarrow> (string + status) option \<Rightarrow>
     (string + status) option \<times> cli_result" where
  "runEmergencyStop confirm close_positions answer cfg i f =
     (if \<not> confirm then (f, NotConfirmed)
      else case cfg of
        Inl e \<Rightarrow> (f, ConfigUnavailable e)
      | Inr m \<Rightarrow>
          (let a = \<lparr>ag_runtime = repo_New (\<lambda>_. make_chan 0) False f (io_now i) (io_now i) None, ag_config = m,
                    ag_audit = '''', ag_trusted = Map.empty\<rparr>;
               stop = (case EmergencyStop i a of
                         (a', Inl e) \<Rightarrow> (snap_file (ag_runtime a'), StopFailed e)
                       | (a', Inr _) \<Rightarrow> (snap_file (ag_runtime a'), StopComplete (service_Status a')))
           in if close_positions then
                (case answer of
                   Inl e \<Rightarrow> (f, PromptFailed e)
                 | Inr False \<Rightarrow> (f, Aborted)
                 | Inr True \<Rightarrow> stop)
              else stop))"

subsection \<open>Histories\<close>

text \<open>Calls of the service, drift measurements of the application, and restarts of the process.\<close>

datatype agent_call =
    CallScan io | CallPaper io | CallBacktest io | CallLive io | CallStop io | CallEmergencyStop io
  | CallAccept string io | CallTrust string string io | CallSetConfig agent_config io
  | CallUpdateConfig string config_value io | CallDrift duration time | CallRestart "mode_transition chan_heap" io

fun agent_apply :: "'p agent_lib \<Rightarrow> agent_call \<Rightarrow> 'p agent_svc \<Rightarrow> 'p agent_svc" where
  "agent_apply L (CallScan i) a = fst (StartScan i a)"
| "agent_apply L (CallPaper i) a = fst (StartPaper i a)"
| "agent_apply L (CallBacktest i) a = fst (QueueBacktest i a)"
| "agent_apply L (CallLive i) a = fst (StartLive L i a)"
| "agent_apply L (CallStop i) a = fst (StopAll i a)"
| "agent_apply L (CallEmergencyStop i) a = fst (EmergencyStop i a)"
| "agent_apply L (CallAccept src i) a = fst (service_AcceptDisclaimer L src i a)"
| "agent_apply L (CallTrust fp key i) a = (case TrustPluginKey fp key i a of Return (a', _) \<Rightarrow> a' | _ \<Rightarrow> a)"
| "agent_apply L (CallSetConfig c i) a = fst (service_SetConfig L c i a)"
| "agent_apply L (CallUpdateConfig k v i) a = fst (service_UpdateConfig L k v i a)"
| "agent_apply L (CallDrift d now) a =
     a\<lparr>ag_runtime := (ag_runtime a)\<lparr>r_manager := UpdateNTPDrift d now (r_manager (ag_runtime a))\<rparr>\<rparr>"
| "agent_apply L (CallRestart heap i) a =
     a\<lparr>ag_runtime := repo_New heap (has_store (ag_runtime a)) (snap_file (ag_runtime a)) (io_now i) (io_then i) (io_save1 i)\<rparr>"

definition agent_history :: "'p agent_lib \<Rightarrow> agent_call list \<Rightarrow> 'p agent_svc \<Rightarrow> 'p agent_svc" where
  "agent_history L cs a = fold (agent_apply L) cs a"

lemma agent_history_simps [simp]:
  "agent_history L [] a = a"
  "agent_history L (c # cs) a = agent_history L cs (agent_apply L c a)"
  "agent_history L (cs @ ds) a = agent_history L ds (agent_history L cs a)"
  by (simp_all add: agent_history_def)

definition agent_mode :: "'p agent_svc \<Rightarrow> run_mode" where
  "agent_mode a = CurrentState (r_manager (ag_runtime a))"

definition disclaimer_on_record :: "'p agent_lib \<Rightarrow> 'p agent_svc \<Rightarrow> bool" where
  "disclaimer_on_record L a \<longleftrightarrow> DisclaimerAccepted (gl_audit L) None (ag_audit a) = Ok True"

text \<open>What one call does to the mode and to the audit log.\<close>

lemma repo_Transition_mode:
  "CurrentState (r_manager (fst (repo_Transition to reason now e r))) \<in> {CurrentState (r_manager r), to}"
  by (auto simp: repo_Transition_def m_Transition_def CurrentState_def split: sum.splits dest: mm_Transition_Ok)

lemma repo_set_mode [simp]:
  "CurrentState (r_manager (fst (repo_SetLicense l now e r))) = CurrentState (r_manager r)"
  "CurrentState (r_manager (fst (repo_SetConnectivity c now e r))) = CurrentState (r_manager r)"
  by (simp_all add: repo_SetLicense_def repo_SetConnectivity_def SetLicense_def SetConnectivity_def CurrentState_def Let_def)

lemma repo_New_mode: "CurrentState (r_manager (repo_New heap st f now later e)) \<in> {RunModeIdle, RunModeHalted}"
  by (auto simp: repo_New_def restoreSnapshot_manager restore_mode_cases NewManager_def CurrentState_def mm_New_def mm_Restore_def
      RestoreSafetySnapshot_def Let_def split: option.splits sum.splits)

lemma m_Transition_succeeds:
  assumes "CurrentState m \<noteq> RunModeHalted \<or> to = RunModeIdle \<or> to = RunModeHalted"
  obtains m' where "m_Transition to (reason, now) m = Inr m'" "m_status m' = commit_status to reason now (m_status m)"
proof -
  have "\<exists>sm. mm_Transition to (reason, now) (stateMachine m) = Inr sm"
    using assms by (auto simp: mm_Transition_def CurrentState_def Let_def)
  then obtain sm where "mm_Transition to (reason, now) (stateMachine m) = Inr sm" by blast
  then show ?thesis using that by (simp add: m_Transition_def)
qed

lemma agent_transition_mode: "agent_mode (fst (agent_transition to reason i a)) \<in> {agent_mode a, to}"
  using repo_Transition_mode [of to reason "io_now i" "io_save1 i" "ag_runtime a"]
  by (auto simp: agent_transition_def agent_mode_def split: prod.splits)

lemma EmergencyStop_mode: "agent_mode (fst (EmergencyStop i a)) \<in> {agent_mode a, RunModeHalted}"
proof -
  obtain r1 res where t: "repo_Transition RunModeHalted ''emergency stop'' (io_now i) (io_save1 i) (ag_runtime a) = (r1, res)"
    by fastforce
  then have "CurrentState (r_manager r1) \<in> {agent_mode a, RunModeHalted}"
    using repo_Transition_mode [of RunModeHalted "''emergency stop''" "io_now i" "io_save1 i" "ag_runtime a"]
    by (simp add: agent_mode_def)
  moreover have "CurrentState (r_manager (ag_runtime (fst (EmergencyStop i a)))) = CurrentState (r_manager r1)"
    using repo_set_mode(2) [of ConnectivityStateNetworkWait "io_then i" "io_save2 i" r1]
    by (simp add: EmergencyStop_def t case_prod_beta split: sum.split)
  ultimately show ?thesis by (simp add: agent_mode_def)
qed

lemma StartLive_mode:
  assumes "agent_mode (fst (StartLive L i a)) \<noteq> agent_mode a"
  shows "disclaimer_on_record L a"
  using assms
  by (cases "io_audit_open i")
    (auto simp: StartLive_def disclaimer_on_record_def DisclaimerAccepted_def HasAction_def agent_mode_def
      split: sum.splits bool.splits option.splits prod.splits if_splits)

lemma agent_apply_live:
  assumes "agent_mode (agent_apply L c a) = RunModeLiveTrading" "agent_mode a \<noteq> RunModeLiveTrading"
  shows "(\<exists>i. c = CallLive i) \<and> disclaimer_on_record L a"
proof (cases c)
  case (CallLive i)
  then show ?thesis using StartLive_mode [of L i a] assms by auto
next
  case (CallRestart heap i)
  then show ?thesis
    using assms repo_New_mode [of heap "has_store (ag_runtime a)" "snap_file (ag_runtime a)" "io_now i" "io_then i" "io_save1 i"]
    by (auto simp: agent_mode_def)
next
  case (CallEmergencyStop i)
  then show ?thesis using EmergencyStop_mode [of i a] assms by auto
next
  case (CallTrust fp key i)
  then show ?thesis
    using assms by (cases "repo_Config (ag_config a)") (auto simp: TrustPluginKey_def agent_mode_def split: prod.splits if_splits)
next
  case (CallScan i)
  then show ?thesis using assms agent_transition_mode [of RunModeScanning "''scanning requested''" i a] by (auto simp: StartScan_def)
next
  case (CallPaper i)
  then show ?thesis using assms agent_transition_mode [of RunModePaperTrading "''paper trading requested''" i a] by (auto simp: StartPaper_def)
next
  case (CallBacktest i)
  then show ?thesis using assms agent_transition_mode [of RunModeBacktesting "''backtest requested''" i a] by (auto simp: QueueBacktest_def)
next
  case (CallStop i)
  then show ?thesis using assms agent_transition_mode [of RunModeIdle "''stop all requested''" i a] by (auto simp: StopAll_def)
qed (use assms in \<open>auto simp: service_AcceptDisclaimer_def service_SetConfig_def service_UpdateConfig_def agent_mode_def
      CurrentState_def UpdateNTPDrift_def Let_def case_prod_beta split: if_splits\<close>)

lemma agent_apply_audit:
  assumes "\<And>src i. c \<noteq> CallAccept src i"
  shows "ag_audit (agent_apply L c a) = ag_audit a"
proof (cases c)
  case (CallTrust fp key i)
  then show ?thesis
    by (cases "repo_Config (ag_config a)") (auto simp: TrustPluginKey_def split: prod.splits if_splits)
next
  case (CallAccept src i)
  then show ?thesis using assms by simp
qed (auto simp: StartScan_def StartPaper_def QueueBacktest_def StopAll_def agent_transition_def StartLive_def EmergencyStop_def
      service_SetConfig_def service_UpdateConfig_def split: prod.splits sum.splits bool.splits)

lemma agent_history_audit:
  "\<forall>src i. CallAccept src i \<notin> set cs \<Longrightarrow> ag_audit (agent_history L cs a) = ag_audit a"
proof (induction cs arbitrary: a)
  case (Cons c cs)
  moreover have "ag_audit (agent_apply L c a) = ag_audit a" using Cons.prems by (intro agent_apply_audit) auto
  ultimately show ?case by simp
qed simp

text \<open>C5: live trading needs the disclaimer. However the calls, the drift updates and the restarts of the
  process are ordered and whichever writes fail, an agent that was not trading live gets there only by a
  \<open>StartLive\<close> at a moment when the audit log has the accepted disclaimer; if it had none at first,
  the operator accepted it in between.\<close>

theorem live_trading_needs_the_disclaimer:
  assumes "agent_mode a \<noteq> RunModeLiveTrading" "agent_mode (agent_history L cs a) = RunModeLiveTrading"
  shows "\<exists>before i after. cs = before @ CallLive i # after \<and> disclaimer_on_record L (agent_history L before a) \<and>
    (disclaimer_on_record L a \<or> (\<exists>src j. CallAccept src j \<in> set before))"
proof -
  have "\<exists>before i after. cs = before @ CallLive i # after \<and> disclaimer_on_record L (agent_history L before a)"
    using assms
  proof (induction cs rule: rev_induct)
    case (snoc c cs)
    show ?case
    proof (cases "agent_mode (agent_history L cs a) = RunModeLiveTrading")
      case True
      then obtain before i after where "cs = before @ CallLive i # after" "disclaimer_on_record L (agent_history L before a)"
        using snoc by blast
      then show ?thesis by (metis append_Cons append_assoc)
    next
      case False
      then show ?thesis using snoc.prems agent_apply_live [of L c "agent_history L cs a"] by auto
    qed
  qed simp
  then obtain before i after where b: "cs = before @ CallLive i # after" "disclaimer_on_record L (agent_history L before a)"
    by blast
  moreover have "disclaimer_on_record L a \<or> (\<exists>src j. CallAccept src j \<in> set before)"
    using agent_history_audit [of before L a] b(2) by (auto simp: disclaimer_on_record_def)
  ultimately show ?thesis by blast
qed

subsection \<open>Samples\<close>

definition sample_io :: io where
  "sample_io = \<lparr>io_now = 0, io_then = 0, io_save1 = None, io_save2 = None, io_audit_open = None, io_audit_write = Written,
     io_config_fault = None, io_vault = None\<rparr>"

definition sample_lib :: "string agent_lib" where
  "sample_lib = \<lparr>gl_audit = toy_audit, gl_config = plain_env, gl_version = ''1''\<rparr>"

definition sample_agent :: "license_state \<Rightarrow> string agent_svc" where
  "sample_agent l =
     \<lparr>ag_runtime = \<lparr>r_manager = SetLicense l 0 (NewManager (\<lambda>_. make_chan 0) 0), has_store = True, snap_file = None\<rparr>,
      ag_config = \<lparr>cm_path = ''p'', cm_live = Some (Default plain_env ''d''), cm_file = None\<rparr>,
      ag_audit = text_of [ActionAcceptedFinancialRiskDisclaimer], ag_trusted = Map.empty\<rparr>"

lemma sample_agent_simps [simp]:
  "agent_mode (sample_agent l) = RunModeIdle"
  "disclaimer_on_record sample_lib (sample_agent l)"
  "mgr_agrees (r_manager (ag_runtime (sample_agent l)))"
  "has_store (ag_runtime (sample_agent l))"
proof -
  have "\<forall>x \<in> set [ActionAcceptedFinancialRiskDisclaimer]. newline \<notin> set x \<and> short_line x"
    by (simp add: ActionAcceptedFinancialRiskDisclaimer_def newline_def short_line_def)
  from scan_text_of [OF this] show "disclaimer_on_record sample_lib (sample_agent l)"
    by (simp add: disclaimer_on_record_def sample_agent_def sample_lib_def DisclaimerAccepted_def HasAction_def
        line_has_action_def toy_audit_def ActionAcceptedFinancialRiskDisclaimer_def drop_cr_def)
  have "mgr_agrees (mgr_apply (OpSetLicense l 0) (NewManager (\<lambda>_. make_chan 0) 0))" by (rule mgr_apply_agrees) simp
  then show "mgr_agrees (r_manager (ag_runtime (sample_agent l)))" by (simp add: sample_agent_def)
qed (simp_all add: agent_mode_def sample_agent_def SetLicense_def NewManager_def mm_New_def CurrentState_def Let_def)

lemma sample_agent_live: "agent_mode (agent_history sample_lib [CallLive sample_io] (sample_agent l)) = RunModeLiveTrading"
proof -
  have "DisclaimerAccepted (gl_audit sample_lib) None (ag_audit (sample_agent l)) = Ok True"
    using sample_agent_simps(2) by (simp add: disclaimer_on_record_def)
  then show ?thesis
    by (simp add: StartLive_def sample_io_def)
      (simp add: sample_agent_def agent_mode_def repo_SetLicense_def repo_Transition_def persist_def SetLicense_def
        NewManager_def mm_New_def CurrentState_def m_Transition_def mm_Transition_def mm_notify_def offer_all_def Let_def)
qed

lemma live_trading_needs_the_disclaimer_witness:
  "\<exists>before i after. [CallLive sample_io] = before @ CallLive i # after \<and>
    disclaimer_on_record sample_lib (agent_history sample_lib before (sample_agent LicenseStateDemo))"
  using live_trading_needs_the_disclaimer [of "sample_agent LicenseStateDemo" sample_lib "[CallLive sample_io]"]
    sample_agent_live [of LicenseStateDemo] by auto

subsection \<open>Starting live trading and the licence\<close>

lemma StartLive_steps:
  assumes "disclaimer_on_record L a" "io_audit_open i = None"
  shows "StartLive L i a =
     (case repo_SetLicense LicenseStateLicensed (io_now i) (io_save1 i) (ag_runtime a) of
        (r1, Inl e) \<Rightarrow> (a\<lparr>ag_runtime := r1\<rparr>, Err (FromRuntime e))
      | (r1, Inr _) \<Rightarrow>
          (case repo_Transition RunModeLiveTrading ''live trading requested'' (io_then i) (io_save2 i) r1 of
             (r2, res) \<Rightarrow> (a\<lparr>ag_runtime := r2\<rparr>, lift_err FromRuntime res)))"
  using assms by (simp add: StartLive_def disclaimer_on_record_def)

text \<open>Starting live trading grants the licence itself. \<open>StartLive\<close> sets the runtime's licence state to
  licensed before it asks for the mode, without looking at the configured licence: on a healthy agent the
  production gate then admits live entries even if the licence was risk-only a moment before, and if the
  mode is refused or not persisted, the licensed state stays.\<close>

theorem start_live_grants_the_licence:
  assumes "disclaimer_on_record L a" "io_audit_open i = None" "io_save1 i = None"
  shows "License (service_Status (fst (StartLive L i a))) = LicenseStateLicensed \<and>
    (agent_mode a \<noteq> RunModeHalted \<longrightarrow> \<not> NewEntriesBlocked (service_Status a) \<longrightarrow>
      Connectivity (service_Status a) = ConnectivityStateConnected \<longrightarrow> Integrity (service_Status a) = IntegrityStateTrusted \<longrightarrow>
      NTPDrift (service_Status a) \<le> 500 * millisecond \<longrightarrow>
      check_status DefaultPolicy (service_Status (fst (StartLive L i a))) = Ok ())"
proof -
  let ?m = "SetLicense LicenseStateLicensed (io_now i) (r_manager (ag_runtime a))"
  obtain r1 where r1: "repo_SetLicense LicenseStateLicensed (io_now i) (io_save1 i) (ag_runtime a) = (r1, Ok ())" "r_manager r1 = ?m"
    by (cases "has_store (ag_runtime a)") (simp_all add: repo_SetLicense_def persist_def assms(3))
  have S: "fst (StartLive L i a) =
      a\<lparr>ag_runtime := fst (repo_Transition RunModeLiveTrading ''live trading requested'' (io_then i) (io_save2 i) r1)\<rparr>"
    by (simp add: StartLive_steps assms(1,2) r1(1) case_prod_beta)
  let ?st = "m_status (r_manager (ag_runtime a))"
  have m: "m_status ?m = ?st\<lparr>License := LicenseStateLicensed, LastUpdatedAtUTC := io_now i\<rparr>"
    "stateMachine ?m = stateMachine (r_manager (ag_runtime a))"
    by (simp_all add: SetLicense_def)
  have lic: "License (service_Status (fst (StartLive L i a))) = LicenseStateLicensed"
    by (simp add: S service_Status_def repo_Status_def Snapshot_def repo_Transition_def m_Transition_def r1(2) m commit_status_def
        split: sum.split)
  moreover have "Mode (service_Status (fst (StartLive L i a))) = RunModeLiveTrading \<and>
      NewEntriesBlocked (service_Status (fst (StartLive L i a))) = NewEntriesBlocked ?st \<and>
      Connectivity (service_Status (fst (StartLive L i a))) = Connectivity ?st \<and>
      Integrity (service_Status (fst (StartLive L i a))) = Integrity ?st \<and>
      NTPDrift (service_Status (fst (StartLive L i a))) = NTPDrift ?st" if "agent_mode a \<noteq> RunModeHalted"
  proof -
    have "CurrentState ?m \<noteq> RunModeHalted" using that m(2) by (simp add: agent_mode_def CurrentState_def)
    then obtain m' where "m_Transition RunModeLiveTrading (''live trading requested'', io_then i) ?m = Inr m'"
      "m_status m' = commit_status RunModeLiveTrading ''live trading requested'' (io_then i) (m_status ?m)"
      using m_Transition_succeeds by blast
    then show ?thesis
      by (simp add: S service_Status_def repo_Status_def Snapshot_def repo_Transition_def r1(2) m(1) commit_status_def)
  qed
  ultimately show ?thesis
    by (simp add: check_status_Ok_iff safe_status_default service_Status_def repo_Status_def Snapshot_def isLiveLicenseAllowed_def)
qed

lemma start_live_grants_the_licence_witness:
  "check_status DefaultPolicy (service_Status (fst (StartLive sample_lib sample_io (sample_agent LicenseStateRiskOnly)))) = Ok ()"
proof -
  have "agent_mode (sample_agent LicenseStateRiskOnly) \<noteq> RunModeHalted" by simp
  moreover have "\<not> NewEntriesBlocked (service_Status (sample_agent LicenseStateRiskOnly)) \<and>
      Connectivity (service_Status (sample_agent LicenseStateRiskOnly)) = ConnectivityStateConnected \<and>
      Integrity (service_Status (sample_agent LicenseStateRiskOnly)) = IntegrityStateTrusted \<and>
      NTPDrift (service_Status (sample_agent LicenseStateRiskOnly)) \<le> 500 * millisecond"
    by (simp add: service_Status_def repo_Status_def Snapshot_def sample_agent_def SetLicense_def NewManager_def time_units Let_def)
  moreover have "io_audit_open sample_io = None" "io_save1 sample_io = None" by (simp_all add: sample_io_def)
  ultimately show ?thesis
    using start_live_grants_the_licence [of sample_lib "sample_agent LicenseStateRiskOnly" sample_io] by simp
qed

subsection \<open>Emergency stops\<close>

text \<open>The runtime repository while an emergency stop holds: memory and snapshot file are halted.\<close>

definition repo_held :: "repository \<Rightarrow> bool" where
  "repo_held r \<longleftrightarrow> mgr_agrees (r_manager r) \<and> CurrentState (r_manager r) = RunModeHalted \<and> has_store r \<and>
     (\<exists>st. snap_file r = Some (Inr st) \<and> Mode st = RunModeHalted)"

lemma persist_held:
  assumes "mgr_agrees (r_manager r)" "CurrentState (r_manager r) = RunModeHalted" "has_store r"
    "e = None \<or> (\<exists>st. snap_file r = Some (Inr st) \<and> Mode st = RunModeHalted)"
  shows "repo_held (fst (persist e r))"
  using assms by (cases e) (auto simp: repo_held_def persist_def mgr_agrees_def Snapshot_def)

lemma held_step:
  "repo_held r \<Longrightarrow> mgr_agrees m \<Longrightarrow> CurrentState m = RunModeHalted \<Longrightarrow> repo_held (fst (persist e (r\<lparr>r_manager := m\<rparr>)))"
  by (rule persist_held) (auto simp: repo_held_def)

lemma repo_held_set:
  assumes "repo_held r"
  shows "repo_held (fst (repo_SetLicense l now e r))" "repo_held (fst (repo_SetConnectivity c now e r))"
proof -
  have m: "mgr_agrees (r_manager r)" "CurrentState (r_manager r) = RunModeHalted" using assms by (auto simp: repo_held_def)
  have "mgr_agrees (SetLicense l now (r_manager r))" "mgr_agrees (SetConnectivity c now (r_manager r))"
    using mgr_apply_agrees [OF m(1), of "OpSetLicense l now"] mgr_apply_agrees [OF m(1), of "OpSetConnectivity c now"] by simp_all
  moreover have "CurrentState (SetLicense l now (r_manager r)) = RunModeHalted"
    "CurrentState (SetConnectivity c now (r_manager r)) = RunModeHalted"
    using m(2) by (simp_all add: SetLicense_def SetConnectivity_def CurrentState_def Let_def)
  ultimately show "repo_held (fst (repo_SetLicense l now e r))" "repo_held (fst (repo_SetConnectivity c now e r))"
    using held_step [OF assms] by (simp_all add: repo_SetLicense_def repo_SetConnectivity_def)
qed

lemma repo_held_Transition:
  assumes "repo_held r" "to \<noteq> RunModeIdle"
  shows "repo_held (fst (repo_Transition to reason now e r))"
proof (cases "m_Transition to (reason, now) (r_manager r)")
  case (Inr m)
  have "CurrentState m = RunModeHalted"
    using Inr assms mgr.halted_leaves_to_idle [of "r_manager r" to "(reason, now)" m] mgr.attempt_reaches [of to "(reason, now)" "r_manager r" m]
    by (auto simp: repo_held_def)
  then show ?thesis using held_step [OF assms(1) m_Transition_agrees [OF Inr]] by (simp add: repo_Transition_def Inr)
qed (use assms in \<open>simp add: repo_Transition_def\<close>)

lemma repo_held_New:
  assumes "repo_held r"
  shows "repo_held (repo_New heap (has_store r) (snap_file r) now later e)"
proof -
  obtain st where st: "snap_file r = Some (Inr st)" "Mode st = RunModeHalted" "has_store r" using assms by (auto simp: repo_held_def)
  let ?m = "RestoreSafetySnapshot st now later (NewManager heap now)"
  have "mgr_agrees ?m" using mgr_apply_agrees [of "NewManager heap now" "OpRestore st now later"] by simp
  moreover have "CurrentState ?m = RunModeHalted" using st(2) by (simp add: restore_mode_cases)
  ultimately show ?thesis
    using st by (auto simp: repo_New_def restoreSnapshot_def intro!: persist_held)
qed

lemma agent_apply_held:
  assumes "repo_held (ag_runtime a)" "\<And>i. c \<noteq> CallStop i"
  shows "repo_held (ag_runtime (agent_apply L c a))"
proof -
  have tr: "repo_held (ag_runtime (fst (agent_transition to reason i a)))" if "to \<noteq> RunModeIdle" for to reason i
    using repo_held_Transition [OF assms(1) that] by (simp add: agent_transition_def case_prod_beta)
  show ?thesis
  proof (cases c)
    case (CallLive i)
    show ?thesis
      using assms(1) repo_held_set(1) [OF assms(1)] repo_held_Transition [OF repo_held_set(1) [OF assms(1)]]
      by (simp add: CallLive StartLive_def case_prod_beta split: sum.split bool.split)
  next
    case (CallEmergencyStop i)
    have h: "repo_held (fst (repo_Transition RunModeHalted ''emergency stop'' (io_now i) (io_save1 i) (ag_runtime a)))"
      by (rule repo_held_Transition [OF assms(1)]) simp
    then show ?thesis
      using repo_held_set(2) [OF h] by (simp add: CallEmergencyStop EmergencyStop_def case_prod_beta split: sum.split)
  next
    case (CallTrust fp key i)
    then show ?thesis
      using assms(1) by (cases "repo_Config (ag_config a)") (auto simp: TrustPluginKey_def split: prod.splits if_splits)
  next
    case (CallDrift d now)
    then show ?thesis
      using assms(1) mgr_apply_agrees [of "r_manager (ag_runtime a)" "OpUpdateNTPDrift d now"]
      by (auto simp: repo_held_def CurrentState_def UpdateNTPDrift_def Let_def)
  next
    case (CallRestart heap i)
    then show ?thesis using repo_held_New [OF assms(1)] by simp
  qed (use assms tr in \<open>simp_all add: StartScan_def StartPaper_def QueueBacktest_def service_AcceptDisclaimer_def
        service_SetConfig_def service_UpdateConfig_def case_prod_beta\<close>)
qed

lemma agent_history_held:
  "repo_held (ag_runtime a) \<Longrightarrow> \<forall>i. CallStop i \<notin> set cs \<Longrightarrow> repo_held (ag_runtime (agent_history L cs a))"
proof (induction cs arbitrary: a)
  case (Cons c cs)
  have "repo_held (ag_runtime (agent_apply L c a))" using Cons.prems by (intro agent_apply_held) auto
  then show ?case using Cons.IH Cons.prems by simp
qed simp

lemma held_gate:
  assumes "repo_held (ag_runtime a)"
  shows "agent_mode a = RunModeHalted \<and> check_status DefaultPolicy (service_Status a) \<noteq> Ok ()"
  using assms halted_gate_blocks [of "r_manager (ag_runtime a)"]
  by (auto simp: repo_held_def agent_mode_def service_Status_def repo_Status_def)

lemma EmergencyStop_transition:
  fixes a :: "'p agent_svc" and i :: io
  assumes "mgr_agrees (r_manager (ag_runtime a))"
  defines "r1 \<equiv> fst (repo_Transition RunModeHalted ''emergency stop'' (io_now i) (io_save1 i) (ag_runtime a))"
  shows "mgr_agrees (r_manager r1)" "CurrentState (r_manager r1) = RunModeHalted" "has_store r1 = has_store (ag_runtime a)"
    "io_save1 i = None \<Longrightarrow> has_store (ag_runtime a) \<Longrightarrow> repo_held r1"
proof -
  obtain m where m: "m_Transition RunModeHalted (''emergency stop'', io_now i) (r_manager (ag_runtime a)) = Inr m"
    by (rule m_Transition_succeeds [of "r_manager (ag_runtime a)" RunModeHalted]) auto
  have r1: "r1 = fst (persist (io_save1 i) ((ag_runtime a)\<lparr>r_manager := m\<rparr>))" by (simp add: r1_def repo_Transition_def m)
  show ok: "mgr_agrees (r_manager r1)" "CurrentState (r_manager r1) = RunModeHalted" "has_store r1 = has_store (ag_runtime a)"
    using m_Transition_agrees [OF m] mgr.attempt_reaches [OF m] by (simp_all add: r1) (simp add: persist_def split: option.split)
  show "repo_held r1" if "io_save1 i = None" "has_store (ag_runtime a)"
    unfolding r1 using that m_Transition_agrees [OF m] mgr.attempt_reaches [OF m] by (intro persist_held) auto
qed

text \<open>C4: an emergency stop holds. Whatever saves fail, the agent is halted when \<open>EmergencyStop\<close> returns and the
  gate refuses new entries. If the halted status was saved, every later sequence of calls, failing saves,
  drift updates and restarts keeps it so until somebody asks for \<open>StopAll\<close>.\<close>

theorem emergency_stop_holds:
  assumes "mgr_agrees (r_manager (ag_runtime a))"
  shows "agent_mode (fst (EmergencyStop i a)) = RunModeHalted \<and>
    check_status DefaultPolicy (service_Status (fst (EmergencyStop i a))) \<noteq> Ok () \<and>
    (has_store (ag_runtime a) \<longrightarrow> io_save1 i = None \<longrightarrow> (\<forall>j. CallStop j \<notin> set cs) \<longrightarrow>
      agent_mode (agent_history L cs (fst (EmergencyStop i a))) = RunModeHalted \<and>
      check_status DefaultPolicy (service_Status (agent_history L cs (fst (EmergencyStop i a)))) \<noteq> Ok ())"
proof -
  let ?r1 = "fst (repo_Transition RunModeHalted ''emergency stop'' (io_now i) (io_save1 i) (ag_runtime a))"
  let ?a = "fst (EmergencyStop i a)"
  note e = EmergencyStop_transition [OF assms, of i]
  have r: "ag_runtime ?a \<in> {?r1, fst (repo_SetConnectivity ConnectivityStateNetworkWait (io_then i) (io_save2 i) ?r1)}"
    by (simp add: EmergencyStop_def case_prod_beta split: sum.split)
  have m: "mgr_agrees (r_manager (ag_runtime ?a))"
    using r e(1) mgr_apply_agrees [of "r_manager ?r1" "OpSetConnectivity ConnectivityStateNetworkWait (io_then i)"]
    by (auto simp: repo_SetConnectivity_def)
  moreover have h: "CurrentState (r_manager (ag_runtime ?a)) = RunModeHalted" using r e(2) by auto
  ultimately have "check_status DefaultPolicy (service_Status ?a) \<noteq> Ok ()"
    using halted_gate_blocks by (simp add: service_Status_def repo_Status_def)
  moreover have "agent_mode (agent_history L cs ?a) = RunModeHalted \<and>
      check_status DefaultPolicy (service_Status (agent_history L cs ?a)) \<noteq> Ok ()"
    if "has_store (ag_runtime a)" "io_save1 i = None" "\<forall>j. CallStop j \<notin> set cs"
  proof -
    have "repo_held (ag_runtime ?a)" using r e(4) [OF that(2,1)] repo_held_set(2) by auto
    from held_gate [OF agent_history_held [OF this that(3)]] show ?thesis .
  qed
  ultimately show ?thesis  using h by (simp add: agent_mode_def)
qed

lemma emergency_stop_holds_witness:
  "agent_mode (agent_history sample_lib [CallLive sample_io, CallRestart (\<lambda>_. make_chan 0) sample_io]
     (fst (EmergencyStop sample_io (sample_agent LicenseStateLicensed)))) = RunModeHalted"
  using emergency_stop_holds [of "sample_agent LicenseStateLicensed" sample_io
      "[CallLive sample_io, CallRestart (\<lambda>_. make_chan 0) sample_io]" sample_lib]
  by (simp add: sample_io_def)

text \<open>The command next to a running agent: both share the snapshot file and nothing else.\<close>

definition stop_command_beside ::
  "bool \<Rightarrow> bool \<Rightarrow> string + bool \<Rightarrow> config_error + 'p config_manager \<Rightarrow> io \<Rightarrow> 'p agent_svc \<Rightarrow> 'p agent_svc \<times> cli_result" where
  "stop_command_beside confirm close_positions answer cfg i a =
     (case runEmergencyStop confirm close_positions answer cfg i (snap_file (ag_runtime a)) of
        (f, out) \<Rightarrow> (a\<lparr>ag_runtime := (ag_runtime a)\<lparr>snap_file := f\<rparr>\<rparr>, out))"

text \<open>\<open>kairos emergency-stop\<close> stops nothing. Confirmed and with a readable configuration it reports a halted
  runtime with blocked entries, but it halted a state machine of its own that no snapshot store backs: the
  running agent keeps its mode, its gate and its snapshot file, for both values of the flag that asks to
  close all positions.\<close>

theorem emergency_stop_command_stops_nothing:
  "\<exists>st. (\<forall>close. stop_command_beside True close (Ok True) (Ok m) i a = (a, StopComplete st)) \<and>
     Mode st = RunModeHalted \<and> NewEntriesBlocked st \<and> Connectivity st = ConnectivityStateNetworkWait"
proof -
  let ?new = "\<lparr>r_manager = NewManager (\<lambda>_. make_chan 0) (io_now i), has_store = False, snap_file = snap_file (ag_runtime a)\<rparr>"
  let ?b = "\<lparr>ag_runtime = ?new, ag_config = m, ag_audit = '''', ag_trusted = Map.empty\<rparr> :: 'a agent_svc"
  have n: "repo_New (\<lambda>_. make_chan 0) False (snap_file (ag_runtime a)) (io_now i) (io_now i) None = ?new"
    by (simp add: repo_New_def restoreSnapshot_def)
  obtain m1 where m1: "m_Transition RunModeHalted (''emergency stop'', io_now i) (r_manager ?new) = Inr m1"
    and st: "m_status m1 = commit_status RunModeHalted ''emergency stop'' (io_now i) (m_status (r_manager ?new))"
    by (rule m_Transition_succeeds [of "r_manager ?new" RunModeHalted]) auto
  let ?m2 = "SetConnectivity ConnectivityStateNetworkWait (io_then i) m1"
  have E: "EmergencyStop i ?b = (?b\<lparr>ag_runtime := ?new\<lparr>r_manager := ?m2\<rparr>\<rparr>, Ok ())"
    using m1 by (simp add: EmergencyStop_def repo_Transition_def persist_def repo_SetConnectivity_def)
  have "stop_command_beside True close (Ok True) (Ok m) i a = (a, StopComplete (Snapshot ?m2))" for close
    by (simp add: stop_command_beside_def runEmergencyStop_def n E service_Status_def repo_Status_def Let_def)
  then show ?thesis
    by (intro exI [of _ "Snapshot ?m2"]) (simp add: Snapshot_def SetConnectivity_def st commit_status_def Let_def)
qed

end
