(* ===== verification/Journal.thy ===== *)
theory Journal
  imports Go_Text "HOL-Library.AList" "HOL-Library.List_Lexorder" "HOL-Library.Char_ord"
begin

text \<open>
  The append-only journal of order intents, \<open>internal/journal/journal.go\<close>. The state is the directory, a
  table from the part of a file's name after the journal's path to the file's text (the active segment is
  the empty suffix, a rotated one a dot and the second of its rotation), and whether the log's file handle
  is open. JSON is a parameter; every system call may fail, and a write may be torn.
\<close>

subsection \<open>The log\<close>

record entry =
  en_ClientOrderID :: string
  en_Kind :: string
  en_Payload :: string
  en_TimestampUTC :: time

record order_intent =
  oi_ClientOrderID :: string
  oi_Symbol :: string
  oi_Side :: string
  oi_OrderType :: string
  oi_Quantity :: string
  oi_Price :: string
  oi_TimestampUTC :: time

record journal_lib =
  jl_encode :: "entry \<Rightarrow> string + string"
  jl_decode :: "string \<Rightarrow> entry option"
  jl_intent :: "order_intent \<Rightarrow> string + string"

record journal =
  j_files :: "(string \<times> string) list"
  j_max :: int
  j_open :: bool

datatype journal_error =
    CreateJournalDir string | OpenJournal string | MarshalEntry string | AppendEntry string | SyncEntry string
  | StatJournal string | CloseJournal string | RotateJournal string | ReopenJournal string
  | OpenSegment string | ScanSegment | RemoveSegment string

text \<open>What the system answers during one call.\<close>

record jio =
  jw :: write_outcome
  jstat :: "string option"
  jclose :: "string option"
  jrename :: "string option"
  jreopen :: "string option"
  junix :: nat

definition segment_text :: "string \<Rightarrow> (string \<times> string) list \<Rightarrow> string" where
  "segment_text n fs = (case map_of fs n of Some s \<Rightarrow> s | None \<Rightarrow> [])"

definition created :: "string \<Rightarrow> (string \<times> string) list \<Rightarrow> (string \<times> string) list" where
  "created n fs = AList.update n (segment_text n fs) fs"

definition journal_Open :: "string option \<Rightarrow> string option \<Rightarrow> int \<Rightarrow> (string \<times> string) list \<Rightarrow> journal_error + journal" where
  "journal_Open mkdir_err open_err limit fs =
     (case mkdir_err of
        Some e \<Rightarrow> Err (CreateJournalDir e)
      | None \<Rightarrow>
          (case open_err of
             Some e \<Rightarrow> Err (OpenJournal e)
           | None \<Rightarrow> Ok \<lparr>j_files = created [] fs, j_max = limit, j_open = True\<rparr>))"

definition journal_Close :: "journal \<Rightarrow> journal" where
  "journal_Close j = j\<lparr>j_open := False\<rparr>"

definition rotateIfNeeded :: "jio \<Rightarrow> journal \<Rightarrow> journal \<times> (journal_error + unit)" where
  "rotateIfNeeded i j =
     (case jstat i of
        Some e \<Rightarrow> (j, Err (StatJournal e))
      | None \<Rightarrow>
          (let active = segment_text [] (j_files j); rotated = ''.'' @ nat_text (junix i) in
           if int (length active) < j_max j then (j, Ok ())
           else case jclose i of
             Some e \<Rightarrow> (j\<lparr>j_open := False\<rparr>, Err (CloseJournal e))
           | None \<Rightarrow>
               (case jrename i of
                  Some e \<Rightarrow> (j\<lparr>j_open := False\<rparr>, Err (RotateJournal e))
                | None \<Rightarrow>
                    (let moved = AList.update rotated active (AList.delete [] (j_files j)) in
                     case jreopen i of
                       Some e \<Rightarrow> (j\<lparr>j_files := moved, j_open := False\<rparr>, Err (ReopenJournal e))
                     | None \<Rightarrow> (j\<lparr>j_files := created [] moved, j_open := True\<rparr>, Ok ())))))"

definition journal_Append :: "journal_lib \<Rightarrow> jio \<Rightarrow> entry \<Rightarrow> journal \<Rightarrow> journal \<times> (journal_error + unit)" where
  "journal_Append L i en j =
     (case jl_encode L en of
        Inl e \<Rightarrow> (j, Err (MarshalEntry e))
      | Inr body \<Rightarrow>
          (if \<not> j_open j then (j, Err (AppendEntry ''file already closed''))
           else
             (let line = body @ [newline]; active = segment_text [] (j_files j);
                  put = (\<lambda>s. j\<lparr>j_files := AList.update [] (active @ s) (j_files j)\<rparr>)
              in case jw i of
                   Torn n e \<Rightarrow> (put (take n line), Err (AppendEntry e))
                 | NotSynced e \<Rightarrow> (put line, Err (SyncEntry e))
                 | Written \<Rightarrow> rotateIfNeeded i (put line))))"

definition AppendOrderIntent :: "journal_lib \<Rightarrow> time \<Rightarrow> jio \<Rightarrow> order_intent \<Rightarrow> journal \<Rightarrow> journal \<times> (journal_error + unit)" where
  "AppendOrderIntent L now i intent j =
     (case jl_intent L intent of
        Inl e \<Rightarrow> (j, Err (MarshalEntry e))
      | Inr body \<Rightarrow>
          journal_Append L i \<lparr>en_ClientOrderID = oi_ClientOrderID intent, en_Kind = ''order_intent'', en_Payload = body,
            en_TimestampUTC = now\<rparr> j)"

text \<open>The inner loop of \<open>Replay\<close>: the position of each client order id, and the entries so far.\<close>

type_synonym replay_state = "(string \<rightharpoonup> nat) \<times> entry list"

definition replay_entry :: "entry \<Rightarrow> replay_state \<Rightarrow> replay_state" where
  "replay_entry en s =
     (case s of (idx, es) \<Rightarrow>
        if en_ClientOrderID en = [] then (idx, es @ [en])
        else case idx (en_ClientOrderID en) of
          Some k \<Rightarrow> (idx, es[k := en])
        | None \<Rightarrow> (idx(en_ClientOrderID en \<mapsto> length es), es @ [en]))"

definition replay_line :: "journal_lib \<Rightarrow> string \<Rightarrow> replay_state \<Rightarrow> replay_state" where
  "replay_line L l s = (case jl_decode L l of None \<Rightarrow> s | Some en \<Rightarrow> replay_entry en s)"

fun replay_files :: "journal_lib \<Rightarrow> (string \<Rightarrow> string option) \<Rightarrow> (string \<times> string) list \<Rightarrow> replay_state \<Rightarrow> journal_error + replay_state" where
  "replay_files L open_err [] s = Ok s"
| "replay_files L open_err ((n, t) # fs) s =
     (case open_err n of
        Some e \<Rightarrow> Err (OpenSegment e)
      | None \<Rightarrow>
          (case scan_file t of (ls, too_long) \<Rightarrow>
             if too_long then Err ScanSegment
             else replay_files L open_err fs (fold (replay_line L) ls s)))"

text \<open>The names are sorted as byte strings, so the active segment comes first.\<close>

definition sorted_segments :: "(string \<times> string) list \<Rightarrow> (string \<times> string) list" where
  "sorted_segments fs = map (\<lambda>n. (n, segment_text n fs)) (sort (map fst fs))"

definition Replay :: "journal_lib \<Rightarrow> (string \<Rightarrow> string option) \<Rightarrow> journal \<Rightarrow> journal_error + entry list" where
  "Replay L open_err j =
     (case replay_files L open_err (sorted_segments (j_files j)) (Map.empty, []) of
        Inl e \<Rightarrow> Err e
      | Inr (idx, es) \<Rightarrow> Ok es)"

text \<open>\<open>remove_err\<close> says which file cannot be removed; a file that is gone already is no error.\<close>

fun remove_segments :: "(string \<Rightarrow> string option) \<Rightarrow> string list \<Rightarrow> (string \<times> string) list \<Rightarrow> (string \<times> string) list \<times> (journal_error + unit)" where
  "remove_segments remove_err [] fs = (fs, Ok ())"
| "remove_segments remove_err (n # ns) fs =
     (case remove_err n of
        Some e \<Rightarrow> (fs, Err (RemoveSegment e))
      | None \<Rightarrow> remove_segments remove_err ns (AList.delete n fs))"

definition TruncateAfterReconciliation ::
  "string option \<Rightarrow> (string \<Rightarrow> string option) \<Rightarrow> string option \<Rightarrow> journal \<Rightarrow> journal \<times> (journal_error + unit)" where
  "TruncateAfterReconciliation close_err remove_err open_err j =
     (if \<not> j_open j then (j, Err (CloseJournal ''file already closed''))
      else case close_err of
        Some e \<Rightarrow> (j\<lparr>j_open := False\<rparr>, Err (CloseJournal e))
      | None \<Rightarrow>
          (case remove_segments remove_err (map fst (j_files j)) (j_files j) of
             (fs, Inl e) \<Rightarrow> (j\<lparr>j_files := fs, j_open := False\<rparr>, Err e)
           | (fs, Inr _) \<Rightarrow>
               (case open_err of
                  Some e \<Rightarrow> (j\<lparr>j_files := fs, j_open := False\<rparr>, Err (OpenJournal e))
                | None \<Rightarrow> (j\<lparr>j_files := AList.update [] [] fs, j_open := True\<rparr>, Ok ()))))"

subsection \<open>What a replay returns\<close>

abbreviation of_id :: "string \<Rightarrow> entry list \<Rightarrow> entry list" where
  "of_id k es \<equiv> filter (\<lambda>en. en_ClientOrderID en = k) es"

text \<open>The state of the loop after the entries \<open>es\<close>.\<close>

definition replayed :: "entry list \<Rightarrow> replay_state \<Rightarrow> bool" where
  "replayed es s \<longleftrightarrow> of_id [] (snd s) = of_id [] es \<and>
     (\<forall>k. k \<noteq> [] \<longrightarrow>
        (case fst s k of
           None \<Rightarrow> of_id k es = [] \<and> of_id k (snd s) = []
         | Some p \<Rightarrow> p < length (snd s) \<and> en_ClientOrderID (snd s ! p) = k \<and> of_id k es \<noteq> [] \<and>
                     of_id k (snd s) = [last (of_id k es)]))"

lemma filter_update_other: "p < length xs \<Longrightarrow> \<not> P e \<Longrightarrow> \<not> P (xs ! p) \<Longrightarrow> filter P (xs[p := e]) = filter P xs"
  by (induction xs arbitrary: p) (auto split: nat.splits)

lemma filter_update_single:
  assumes "p < length xs" "P e" "P (xs ! p)" "filter P xs = [y]"
  shows "filter P (xs[p := e]) = [e]"
proof -
  have "filter P (take p xs @ xs ! p # drop (Suc p) xs) = [y]"
    using assms(4) id_take_nth_drop [OF assms(1)] by simp
  then show ?thesis using assms(1-3) by (auto simp: upd_conv_take_nth_drop append_eq_Cons_conv)
qed

lemma replay_entry_step:
  assumes "replayed es s"
  shows "replayed (es @ [en]) (replay_entry en s)"
proof -
  obtain idx rs where s: "s = (idx, rs)" by (cases s)
  let ?k = "en_ClientOrderID en"
  have r: "of_id [] rs = of_id [] es"
    and o: "\<And>k. k \<noteq> [] \<Longrightarrow> (case idx k of None \<Rightarrow> of_id k es = [] \<and> of_id k rs = []
       | Some p \<Rightarrow> p < length rs \<and> en_ClientOrderID (rs ! p) = k \<and> of_id k es \<noteq> [] \<and> of_id k rs = [last (of_id k es)])"
    using assms unfolding replayed_def s fst_conv snd_conv by blast+
  have none: "of_id k es = [] \<and> of_id k rs = []" if "k \<noteq> []" "idx k = None" for k using o [OF that(1)] that(2) by simp
  have some: "p < length rs \<and> en_ClientOrderID (rs ! p) = k \<and> of_id k es \<noteq> [] \<and> of_id k rs = [last (of_id k es)]"
    if "k \<noteq> []" "idx k = Some p" for k p using o [OF that(1)] that(2) by simp
  show ?thesis
  proof (cases "?k = []")
    case True
    then show ?thesis using r by (auto simp: replayed_def s replay_entry_def nth_append none dest: some split: option.split)
  next
    case False
    show ?thesis
    proof (cases "idx ?k")
      case None
      then show ?thesis using False r
        by (auto simp: replayed_def s replay_entry_def nth_append none dest: some split: option.split)
    next
      case (Some p)
      then have p: "p < length rs" "en_ClientOrderID (rs ! p) = ?k" "of_id ?k rs = [last (of_id ?k es)]"
        using o [OF False] by auto
      have same: "of_id ?k (rs[p := en]) = [en]" by (rule filter_update_single [OF p(1) _ _ p(3)]) (simp_all add: p(2))
      have other: "of_id k (rs[p := en]) = of_id k rs" if "k \<noteq> ?k" for k
        by (rule filter_update_other [OF p(1)]) (use that p(2) in auto)
      have "case idx k of None \<Rightarrow> of_id k (es @ [en]) = [] \<and> of_id k (rs[p := en]) = []
         | Some q \<Rightarrow> q < length (rs[p := en]) \<and> en_ClientOrderID (rs[p := en] ! q) = k \<and> of_id k (es @ [en]) \<noteq> [] \<and>
             of_id k (rs[p := en]) = [last (of_id k (es @ [en]))]" if "k \<noteq> []" for k
        using o [OF that] Some p same other [of k] by (cases "k = ?k") (auto simp: nth_list_update split: option.splits)
      then have "replayed (es @ [en]) (idx, rs[p := en])"
        unfolding replayed_def fst_conv snd_conv using False r other [of "[]"] by simp
      then show ?thesis using False Some by (simp add: s replay_entry_def)
    qed
  qed
qed

lemma replay_all: "replayed es0 s \<Longrightarrow> replayed (es0 @ es) (fold replay_entry es s)"
proof (induction es arbitrary: es0 s)
  case (Cons en es)
  from Cons.IH [OF replay_entry_step [OF Cons.prems]] show ?case by simp
qed simp

lemma replay_from_empty: "replayed es (fold replay_entry es (Map.empty, []))"
  using replay_all [of "[]" "(Map.empty, [])" es] by (simp add: replayed_def)

subsection \<open>Entries on one line\<close>

definition one_line :: "journal_lib \<Rightarrow> entry \<Rightarrow> string \<Rightarrow> bool" where
  "one_line L en b \<longleftrightarrow> jl_encode L en = Inr b \<and> jl_decode L b = Some en \<and> newline \<notin> set b \<and> drop_cr b = b \<and> short_line b"

definition quiet :: "jio \<Rightarrow> bool" where
  "quiet i \<longleftrightarrow> jw i = Written \<and> jstat i = None \<and> jclose i = None \<and> jrename i = None \<and> jreopen i = None"

lemma replay_lines:
  "list_all2 (one_line L) es bs \<Longrightarrow> fold (replay_line L) bs s = fold replay_entry es s"
  by (induction es bs arbitrary: s rule: list_all2_induct) (simp_all add: replay_line_def one_line_def)

lemma scan_entries:
  assumes "list_all2 (one_line L) es bs"
  shows "scan_file (text_of bs) = (bs, False)"
proof -
  have b: "newline \<notin> set b \<and> short_line b \<and> drop_cr b = b" if "b \<in> set bs" for b
    using assms that by (auto simp: list_all2_conv_all_nth in_set_conv_nth one_line_def)
  then have "map drop_cr bs = bs" by (simp add: map_idI)
  then show ?thesis using scan_text_of [of bs] b by simp
qed

text \<open>Replaying one segment after another.\<close>

lemma replay_segment:
  assumes "list_all2 (one_line L) es bs"
  shows "replay_files L (\<lambda>_. None) ((n, text_of bs) # fs) s = replay_files L (\<lambda>_. None) fs (fold replay_entry es s)"
  by (simp add: scan_entries [OF assms] replay_lines [OF assms])

fun append_all :: "journal_lib \<Rightarrow> (jio \<times> entry) list \<Rightarrow> journal \<Rightarrow> journal \<times> (journal_error + unit) list" where
  "append_all L [] j = (j, [])"
| "append_all L ((i, en) # xs) j =
     (case journal_Append L i en j of (j1, r) \<Rightarrow> case append_all L xs j1 of (j2, rs) \<Rightarrow> (j2, r # rs))"

definition only_active :: "int \<Rightarrow> string list \<Rightarrow> journal" where
  "only_active limit bs = \<lparr>j_files = [([], text_of bs)], j_max = limit, j_open = True\<rparr>"

lemma append_quiet:
  assumes "one_line L en b" "quiet i" "int (length (text_of (bs @ [b]))) < limit"
  shows "journal_Append L i en (only_active limit bs) = (only_active limit (bs @ [b]), Ok ())"
  using assms by (simp add: journal_Append_def only_active_def one_line_def quiet_def rotateIfNeeded_def segment_text_def Let_def)

lemma append_all_quiet:
  assumes "list_all2 (one_line L) (map snd xs) bs" "\<forall>(i, en) \<in> set xs. quiet i" "int (length (text_of (bs0 @ bs))) < limit"
  shows "append_all L xs (only_active limit bs0) = (only_active limit (bs0 @ bs), replicate (length xs) (Ok ()))"
  using assms
proof (induction xs arbitrary: bs bs0)
  case (Cons x xs)
  obtain i en where x: "x = (i, en)" by (cases x)
  obtain b bs' where bs: "bs = b # bs'" "one_line L en b" "list_all2 (one_line L) (map snd xs) bs'"
    using Cons.prems(1) by (auto simp: x list_all2_Cons1)
  have "int (length (text_of (bs0 @ [b]))) < limit" using Cons.prems(3) by (simp add: bs(1))
  from append_quiet [OF bs(2) _ this, of i] have "journal_Append L i en (only_active limit bs0) = (only_active limit (bs0 @ [b]), Ok ())"
    using Cons.prems(2) by (simp add: x)
  then show ?case using Cons.IH [OF bs(3), of "bs0 @ [b]"] Cons.prems(2,3) by (simp add: x bs(1))
qed simp


text \<open>A sample library: the kind of an entry is the first byte of its line, the id the rest.\<close>

definition plain_entry :: "string \<Rightarrow> string \<Rightarrow> entry" where
  "plain_entry kind k = \<lparr>en_ClientOrderID = k, en_Kind = kind, en_Payload = '''', en_TimestampUTC = 0\<rparr>"

definition plain_journal :: journal_lib where
  "plain_journal =
     \<lparr>jl_encode = (\<lambda>en. Inr (''<'' @ en_Kind en @ en_ClientOrderID en @ ''>'')),
      jl_decode = (\<lambda>s. case s of
         a # kind # k \<Rightarrow> if a = CHR ''<'' \<and> last k = CHR ''>'' \<and> CHR ''<'' \<notin> set k then Some (plain_entry [kind] (butlast k)) else None
       | _ \<Rightarrow> None),
      jl_intent = (\<lambda>_. Inr '''')\<rparr>"

definition calm :: jio where
  "calm = \<lparr>jw = Written, jstat = None, jclose = None, jrename = None, jreopen = None, junix = 7\<rparr>"

lemma plain_lines:
  "one_line plain_journal (plain_entry ''a'' ''x'') ''<ax>''" "one_line plain_journal (plain_entry ''b'' ''x'') ''<bx>''"
  "one_line plain_journal (plain_entry ''b'' ''y'') ''<by>''" "quiet calm"
  by (simp_all add: one_line_def plain_journal_def plain_entry_def newline_def drop_cr_def short_line_def quiet_def calm_def)


subsection \<open>Rotation\<close>

lemma append_rotates:
  assumes "one_line L en b" "quiet i" "int (length (text_of (bs @ [b]))) \<ge> limit" "segment_text [] fs = text_of bs"
  shows "journal_Append L i en \<lparr>j_files = fs, j_max = limit, j_open = True\<rparr> =
     (\<lparr>j_files = created [] (AList.update (''.'' @ nat_text (junix i)) (text_of (bs @ [b])) (AList.delete [] (AList.update [] (text_of (bs @ [b])) fs))),
       j_max = limit, j_open = True\<rparr>, Ok ())"
  using assms
  by (simp add: journal_Append_def one_line_def quiet_def rotateIfNeeded_def Let_def) (simp add: segment_text_def update_conv')

text \<open>Rotation breaks the replay. If the first append rotates its segment and a later one for the same
  order stays in the new active segment, the replay returns the older entry, because the active segment's
  name sorts before the rotated one; and two rotations within one second use the same name, so the second
  overwrites the first and the entries of the first segment are gone although their appends succeeded.\<close>

theorem rotation_breaks_replay:
  assumes "one_line L e1 b1" "one_line L e2 b2" "quiet i1" "quiet i2" "en_ClientOrderID e1 \<noteq> []"
    and "int (length b1) \<ge> limit" "0 < limit"
  shows "(en_ClientOrderID e2 = en_ClientOrderID e1 \<and> int (Suc (length b2)) < limit \<longrightarrow>
      (\<exists>j. append_all L [(i1, e1), (i2, e2)] (only_active limit []) = (j, [Ok (), Ok ()]) \<and> Replay L (\<lambda>_. None) j = Ok [e1])) \<and>
    (int (length b2) \<ge> limit \<and> junix i1 = junix i2 \<longrightarrow>
      (\<exists>j. append_all L [(i1, e1), (i2, e2)] (only_active limit []) = (j, [Ok (), Ok ()]) \<and> Replay L (\<lambda>_. None) j = Ok [e2]))"
proof (intro conjI impI; elim conjE)
  let ?n = "''.'' @ nat_text (junix i1)"
  have first: "journal_Append L i1 e1 (only_active limit []) =
      (\<lparr>j_files = [(?n, text_of [b1]), ([], [])], j_max = limit, j_open = True\<rparr>, Ok ())"
    using append_rotates [OF assms(1,3), of limit "[]" "[([], [])]"] assms(6)
    by (simp add: only_active_def created_def segment_text_def)
  have one: "fold replay_entry [e] (Map.empty, []) = (if en_ClientOrderID e = [] then Map.empty else [en_ClientOrderID e \<mapsto> 0], [e])" for e
    by (simp add: replay_entry_def)
  have l: "list_all2 (one_line L) [e1] [b1]" "list_all2 (one_line L) [e2] [b2]" using assms(1,2) by simp_all
  show "\<exists>j. append_all L [(i1, e1), (i2, e2)] (only_active limit []) = (j, [Ok (), Ok ()]) \<and> Replay L (\<lambda>_. None) j = Ok [e1]"
    if same: "en_ClientOrderID e2 = en_ClientOrderID e1" and small: "int (Suc (length b2)) < limit"
  proof -
    let ?j = "\<lparr>j_files = [(?n, text_of [b1]), ([], text_of [b2])], j_max = limit, j_open = True\<rparr>"
    have "journal_Append L i2 e2 \<lparr>j_files = [(?n, text_of [b1]), ([], [])], j_max = limit, j_open = True\<rparr> = (?j, Ok ())"
      using assms(2,4) small by (simp add: journal_Append_def one_line_def quiet_def rotateIfNeeded_def segment_text_def Let_def)
    moreover have "sorted_segments (j_files ?j) = [([], text_of [b2]), (?n, text_of [b1])]"
      by (simp add: sorted_segments_def segment_text_def)
    then have "Replay L (\<lambda>_. None) ?j = Ok [e1]"
      using replay_segment [OF l(2), of "[]" "[(?n, text_of [b1])]" "(Map.empty, [])"] replay_segment [OF l(1), of ?n "[]"] assms(5) same
      by (simp add: Replay_def replay_entry_def del: text_of_simps)
    ultimately show ?thesis using first by (intro exI [of _ ?j]) simp
  qed
  show "\<exists>j. append_all L [(i1, e1), (i2, e2)] (only_active limit []) = (j, [Ok (), Ok ()]) \<and> Replay L (\<lambda>_. None) j = Ok [e2]"
    if big: "int (length b2) \<ge> limit" and sec: "junix i1 = junix i2"
  proof -
    let ?j = "\<lparr>j_files = [(?n, text_of [b2]), ([], [])], j_max = limit, j_open = True\<rparr>"
    have "journal_Append L i2 e2 \<lparr>j_files = [(?n, text_of [b1]), ([], [])], j_max = limit, j_open = True\<rparr> = (?j, Ok ())"
      using append_rotates [OF assms(2,4), of limit "[]" "[(?n, text_of [b1]), ([], [])]"] big sec
      by (simp add: created_def segment_text_def)
    moreover have "sorted_segments (j_files ?j) = [([], text_of []), (?n, text_of [b2])]"
      by (simp add: sorted_segments_def segment_text_def)
    then have "Replay L (\<lambda>_. None) ?j = Ok [e2]"
      using replay_segment [of L "[]" "[]" "[]" "[(?n, text_of [b2])]" "(Map.empty, [])"] replay_segment [OF l(2), of ?n "[]"]
      by (simp add: Replay_def replay_entry_def del: text_of_simps)
    ultimately show ?thesis using first by (intro exI [of _ ?j]) simp
  qed
qed

lemma rotation_breaks_replay_witness:
  "(\<exists>j. append_all plain_journal [(calm, plain_entry ''a'' ''x''), (calm, plain_entry ''b'' ''y'')] (only_active 4 []) = (j, [Ok (), Ok ()]) \<and>
     Replay plain_journal (\<lambda>_. None) j = Ok [plain_entry ''b'' ''y''])"
  using rotation_breaks_replay [OF plain_lines(1,3,4,4), of 4] by (simp add: plain_entry_def)

text \<open>A torn write takes the next entry with it. If the process dies after the first \<open>n\<close> bytes of a line,
  the next start appends right behind them: the entry appended then is written, synced and reported as
  stored, and the replay does not return it.\<close>

theorem torn_write_swallows_next_entry:
  assumes "jl_encode L e1 = Inr b1" "one_line L e2 b2" "jw i1 = Torn n err" "quiet i2" "n \<le> length b1"
    and "newline \<notin> set b1" "short_line (take n b1 @ b2)" "jl_decode L (drop_cr (take n b1 @ b2)) = None"
    and "int (Suc (n + length b2)) < limit"
  shows "\<exists>j1 j2 j3. journal_Append L i1 e1 (only_active limit []) = (j1, Err (AppendEntry err)) \<and>
     journal_Open None None limit (j_files j1) = Ok j2 \<and> journal_Append L i2 e2 j2 = (j3, Ok ()) \<and>
     Replay L (\<lambda>_. None) j3 = Ok []"
proof -
  let ?j1 = "\<lparr>j_files = [([], take n b1)], j_max = limit, j_open = True\<rparr>"
  have a1: "journal_Append L i1 e1 (only_active limit []) = (?j1, Err (AppendEntry err))"
    using assms(1,3,5) by (simp add: journal_Append_def only_active_def segment_text_def Let_def)
  have o: "journal_Open None None limit (j_files ?j1) = Ok ?j1" by (simp add: journal_Open_def created_def segment_text_def)
  let ?j3 = "only_active limit [take n b1 @ b2]"
  have a2: "journal_Append L i2 e2 ?j1 = (?j3, Ok ())"
    using assms(2,4,5,9)
    by (simp add: journal_Append_def only_active_def segment_text_def one_line_def quiet_def rotateIfNeeded_def min_def Let_def)
  have "newline \<notin> set (take n b1 @ b2)" using assms(2,6) by (auto simp: one_line_def dest: in_set_takeD)
  then have "scan_file (text_of [take n b1 @ b2]) = ([drop_cr (take n b1 @ b2)], False)"
    using scan_text_of [of "[take n b1 @ b2]"] assms(7) by simp
  then have "Replay L (\<lambda>_. None) ?j3 = Ok []"
    using assms(8) by (simp add: Replay_def only_active_def sorted_segments_def segment_text_def replay_line_def del: text_of_simps)
  then show ?thesis using a1 o a2 by blast
qed

lemma torn_write_swallows_next_entry_witness:
  "\<exists>j1 j2 j3. journal_Append plain_journal (calm\<lparr>jw := Torn 2 ''crash''\<rparr>) (plain_entry ''a'' ''x'') (only_active 100 []) = (j1, Err (AppendEntry ''crash'')) \<and>
     journal_Open None None 100 (j_files j1) = Ok j2 \<and> journal_Append plain_journal calm (plain_entry ''b'' ''y'') j2 = (j3, Ok ()) \<and>
     Replay plain_journal (\<lambda>_. None) j3 = Ok []"
  by (rule torn_write_swallows_next_entry [where ?b1.0 = "''<ax>''" and ?b2.0 = "''<by>''"])
    (simp_all add: plain_lines, simp_all add: plain_journal_def plain_entry_def calm_def newline_def short_line_def drop_cr_def)

text \<open>Truncation. When it returns without an error the journal is open and its replay is empty, whatever the
  segments held; when it returns an error the log stays closed, and every later append is refused.\<close>

theorem truncation_empties_or_closes:
  assumes "TruncateAfterReconciliation close_err remove_err open_err j = (j', res)"
  shows "(res = Ok () \<longrightarrow> j_open j' \<and> Replay L (\<lambda>_. None) j' = Ok []) \<and>
    (res \<noteq> Ok () \<longrightarrow> \<not> j_open j' \<and> snd (append_all L xs j') = map (\<lambda>(i, en). case jl_encode L en of
        Inl e \<Rightarrow> Err (MarshalEntry e) | Inr _ \<Rightarrow> Err (AppendEntry ''file already closed'')) xs)"
proof -
  have gone: "snd (remove_segments remove_err ns fs) = Ok () \<Longrightarrow> fst (remove_segments remove_err ns fs) = filter (\<lambda>(n, _). n \<notin> set ns) fs"
    for ns fs
    by (induction ns arbitrary: fs) (auto simp: AList.delete_eq filter_filter intro!: filter_cong split: option.splits)
  have all: "filter (\<lambda>(n, _). n \<notin> fst ` set fs) fs = []" for fs :: "(string \<times> string) list"
    by (force simp: filter_empty_conv)
  have "\<not> j_open j' \<and> res \<noteq> Ok () \<or> res = Ok () \<and> j' = only_active (j_max j) []"
    using assms gone [of "map fst (j_files j)" "j_files j"]
    by (auto simp: TruncateAfterReconciliation_def only_active_def all split: if_splits option.splits prod.splits sum.splits)
  moreover have "Replay L (\<lambda>_. None) (only_active m []) = Ok []" for m
    using replay_segment [of L "[]" "[]" "[]" "[]" "(Map.empty, [])"]
    by (simp add: Replay_def only_active_def sorted_segments_def segment_text_def)
  moreover have "snd (append_all L xs j') = map (\<lambda>(i, en). case jl_encode L en of
        Inl e \<Rightarrow> Err (MarshalEntry e) | Inr _ \<Rightarrow> Err (AppendEntry ''file already closed'')) xs" if "\<not> j_open j'"
    using that
  proof (induction xs)
    case (Cons x xs)
    have "fst (journal_Append L (fst x) (snd x) j') = j'" using Cons.prems by (simp add: journal_Append_def split: sum.split)
    then show ?case using Cons by (cases x) (auto simp: journal_Append_def split: sum.splits prod.splits)
  qed simp
  ultimately show ?thesis by (auto simp: only_active_def)
qed

lemma truncation_empties_or_closes_witness:
  "Replay plain_journal (\<lambda>_. None) (fst (TruncateAfterReconciliation None (\<lambda>_. None) None (only_active 9 [''<ax>'']))) = Ok []"
proof -
  have t: "TruncateAfterReconciliation None (\<lambda>_. None) None (only_active 9 [''<ax>'']) = (only_active 9 [], Ok ())"
    by (simp add: TruncateAfterReconciliation_def only_active_def)
  show ?thesis using truncation_empties_or_closes [OF t, of plain_journal "[]"] t by simp
qed

end
