(* ===== verification/Qos_Bus.thy ===== *)
theory Qos_Bus
  imports Channel Prelude "HOL-Library.Multiset"
begin

text \<open>
  The in-process distribution of domain events: the synchronous publisher of
  \<open>internal/domain/events/publisher.go\<close> and the bus with delivery guarantees of
  \<open>internal/domain/events/qos/bus.go\<close>. What a handler does with an event is an answer of the environment,
  one per attempt, and so is what ends the wait between two attempts. A handler that panics is recovered.
  Publishers, the worker and the goroutines of fire-and-forget deliveries interleave in \<open>qos_step\<close>.
\<close>

subsection \<open>Handlers\<close>

datatype handled = Handled | HandlerError string | HandlerPanic string

datatype deliver_error = HandlerFailed string | EventHandlerPanic string | ContextDone string | BusCanceled | EventIsNil

fun safeHandle :: "handled \<Rightarrow> deliver_error + unit" where
  "safeHandle Handled = Ok ()"
| "safeHandle (HandlerError e) = Err (HandlerFailed e)"
| "safeHandle (HandlerPanic r) = Err (EventHandlerPanic r)"

subsection \<open>The publisher\<close>

text \<open>\<open>'h\<close> are the handlers, \<open>'t\<close> the event types and \<open>'e\<close> the events, whose type is the parameter \<open>ty\<close>.\<close>

type_synonym ('t, 'h) publisher = "'t \<Rightarrow> 'h list"

definition NewPublisher :: "('t, 'h) publisher" where
  "NewPublisher = (\<lambda>_. [])"

definition pub_Subscribe :: "'t \<Rightarrow> 'h \<Rightarrow> ('t, 'h) publisher \<Rightarrow> ('t, 'h) publisher" where
  "pub_Subscribe t h p = p(t := p t @ [h])"

text \<open>The loop returns the calls it made and the first error.\<close>

fun call_handlers :: "('h \<Rightarrow> handled) \<Rightarrow> 'h list \<Rightarrow> deliver_error option \<Rightarrow> 'h list \<times> deliver_error option" where
  "call_handlers answer [] first = ([], first)"
| "call_handlers answer (h # hs) first =
     (let first' = (case safeHandle (answer h) of Inl e \<Rightarrow> if first = None then Some e else first | Inr _ \<Rightarrow> first);
          (calls, res) = call_handlers answer hs first'
      in (h # calls, res))"

definition pub_Publish :: "('e \<Rightarrow> 't) \<Rightarrow> ('h \<Rightarrow> handled) \<Rightarrow> 'e option \<Rightarrow> ('t, 'h) publisher \<Rightarrow> 'h list \<times> deliver_error option" where
  "pub_Publish ty answer ev p =
     (case ev of None \<Rightarrow> ([], Some EventIsNil) | Some e \<Rightarrow> call_handlers answer (p (ty e)) None)"

lemma call_handlers_eq:
  "call_handlers answer hs first =
     (hs, case first of Some e \<Rightarrow> Some e
        | None \<Rightarrow> map_option (\<lambda>h. projl (safeHandle (answer h))) (find (\<lambda>h. answer h \<noteq> Handled) hs))"
proof (induction hs arbitrary: first)
  case (Cons h hs)
  show ?case
    by (cases "answer h"; cases first) (simp_all add: Cons.IH)
qed (simp split: option.split)

text \<open>The publisher calls everybody. An event reaches every handler that subscribed to its type, once, in the
  order of subscription, whatever errors or panics come from the handlers before it; the result is the
  error of the first handler that failed, and none if all succeeded.\<close>

theorem publisher_calls_everybody:
  "pub_Publish ty answer (Some e) (fold (\<lambda>(t, h). pub_Subscribe t h) subs NewPublisher) =
     (map snd (filter (\<lambda>(t, h). t = ty e) subs),
      map_option (\<lambda>h. projl (safeHandle (answer h)))
        (find (\<lambda>h. answer h \<noteq> Handled) (map snd (filter (\<lambda>(t, h). t = ty e) subs))))"
proof -
  have "fold (\<lambda>(t, h). pub_Subscribe t h) subs p t = p t @ map snd (filter (\<lambda>(t', h). t' = t) subs)" for p t
    by (induction subs arbitrary: p) (auto simp: pub_Subscribe_def)
  then show ?thesis by (simp add: pub_Publish_def call_handlers_eq NewPublisher_def)
qed

subsection \<open>The bus with delivery guarantees\<close>

datatype qos_level = AtMostOnce | AtLeastOnce | ExactlyOnce | OtherQoS string

record qos_config =
  qc_QoSLevel :: qos_level
  qc_MaxRetries :: int
  qc_RetryInterval :: duration
  qc_BufferSize :: nat

definition qos_DefaultConfig :: qos_config where
  "qos_DefaultConfig = \<lparr>qc_QoSLevel = AtLeastOnce, qc_MaxRetries = 3, qc_RetryInterval = second, qc_BufferSize = 1000\<rparr>"

record ('t, 'h, 'e) qos_bus =
  qb_cfg :: qos_config
  qb_canceled :: bool
  qb_async :: "'e chan"
  qb_stop :: bool
  qb_handlers :: "'t \<Rightarrow> ('h \<times> qos_level) list"
  qb_published :: "64 word"
  qb_dropped :: "64 word"
  qb_retried :: "64 word"
  qb_closed :: bool

definition NewBus :: "qos_config \<Rightarrow> ('t, 'h, 'e) qos_bus" where
  "NewBus cfg =
     \<lparr>qb_cfg = cfg, qb_canceled = False, qb_async = make_chan (qc_BufferSize cfg), qb_stop = False,
      qb_handlers = (\<lambda>_. []), qb_published = 0, qb_dropped = 0, qb_retried = 0, qb_closed = False\<rparr>"

definition qos_Subscribe :: "'t \<Rightarrow> 'h \<Rightarrow> qos_level \<Rightarrow> ('t, 'h, 'e) qos_bus \<Rightarrow> ('t, 'h, 'e) qos_bus" where
  "qos_Subscribe t h q b = b\<lparr>qb_handlers := (qb_handlers b)(t := qb_handlers b t @ [(h, q)])\<rparr>"

text \<open>
  What happens during one delivery: the handler's answer to each attempt, and for each wait whether the
  interval elapsed (\<open>None\<close>) or a context ended it.
\<close>

record delivery =
  dl_answer :: "nat \<Rightarrow> handled"
  dl_wait :: "nat \<Rightarrow> deliver_error option"

text \<open>The loop of \<open>deliverQoS1\<close> with \<open>n\<close> attempts left at index \<open>i\<close>; it returns the attempts made and the
  failures counted.\<close>

fun qos1_loop :: "delivery \<Rightarrow> nat \<Rightarrow> nat \<Rightarrow> deliver_error option \<Rightarrow> nat \<Rightarrow> (nat \<times> nat) \<times> deliver_error option" where
  "qos1_loop D 0 i err failed = ((i, failed), err)"
| "qos1_loop D (Suc n) i err failed =
     (case safeHandle (dl_answer D i) of
        Inr _ \<Rightarrow> ((Suc i, failed), None)
      | Inl e \<Rightarrow>
          if n = 0 then ((Suc i, Suc failed), Some e)
          else case dl_wait D i of
                 Some stop \<Rightarrow> ((Suc i, Suc failed), Some stop)
               | None \<Rightarrow> qos1_loop D n (Suc i) (Some e) (Suc failed))"

definition deliverQoS1 :: "delivery \<Rightarrow> ('t, 'h, 'e) qos_bus \<Rightarrow> ('t, 'h, 'e) qos_bus \<times> nat \<times> deliver_error option" where
  "deliverQoS1 D b =
     (let b1 = b\<lparr>qb_published := qb_published b + 1\<rparr> in
      case qos1_loop D (nat (qc_MaxRetries (qb_cfg b) + 1)) 0 None 0 of
        ((calls, failed), res) \<Rightarrow> (b1\<lparr>qb_retried := qb_retried b1 + of_nat failed\<rparr>, calls, res))"

text \<open>\<open>deliverQoS0\<close> starts a goroutine and returns at once.\<close>

definition deliverQoS0 :: "('t, 'h, 'e) qos_bus \<Rightarrow> ('t, 'h, 'e) qos_bus" where
  "deliverQoS0 b = b\<lparr>qb_published := qb_published b + 1\<rparr>"

datatype 'h call = Called 'h nat | Spawned 'h

definition deliver :: "delivery \<Rightarrow> 'h \<times> qos_level \<Rightarrow> ('t, 'h, 'e) qos_bus \<Rightarrow> ('t, 'h, 'e) qos_bus \<times> 'h call \<times> deliver_error option" where
  "deliver D hq b =
     (case hq of (h, q) \<Rightarrow>
        case q of
          AtMostOnce \<Rightarrow> (deliverQoS0 b, Spawned h, None)
        | AtLeastOnce \<Rightarrow> (case deliverQoS1 D b of (b', n, res) \<Rightarrow> (b', Called h n, res))
        | _ \<Rightarrow> (case deliverQoS1 D b of (b', n, res) \<Rightarrow> (b', Called h n, res)))"

text \<open>The \<open>i\<close>-th handler gets the \<open>i\<close>-th delivery.\<close>

fun deliver_all ::
  "(nat \<Rightarrow> delivery) \<Rightarrow> nat \<Rightarrow> ('h \<times> qos_level) list \<Rightarrow> ('t, 'h, 'e) qos_bus \<Rightarrow>
     ('t, 'h, 'e) qos_bus \<times> 'h call list \<times> deliver_error list" where
  "deliver_all DS i [] b = (b, [], [])"
| "deliver_all DS i (hq # hqs) b =
     (case deliver (DS i) hq b of (b1, c, res) \<Rightarrow>
      case deliver_all DS (Suc i) hqs b1 of (b2, cs, es) \<Rightarrow>
        (b2, c # cs, case res of None \<Rightarrow> es | Some e \<Rightarrow> e # es))"

definition qos_Publish ::
  "('e \<Rightarrow> 't) \<Rightarrow> (nat \<Rightarrow> delivery) \<Rightarrow> 'e option \<Rightarrow> ('t, 'h, 'e) qos_bus \<Rightarrow>
     ('t, 'h, 'e) qos_bus \<times> 'h call list \<times> deliver_error option" where
  "qos_Publish ty DS ev b =
     (case ev of
        None \<Rightarrow> (b, [], Some EventIsNil)
      | Some e \<Rightarrow>
          if qb_closed b \<or> qb_canceled b then (b, [], Some BusCanceled)
          else case deliver_all DS 0 (qb_handlers b (ty e)) b of
                 (b', cs, es) \<Rightarrow> (b', cs, case es of [] \<Rightarrow> None | e # _ \<Rightarrow> Some e))"

definition qos_PublishAsync :: "bool \<Rightarrow> 'e option \<Rightarrow> ('t, 'h, 'e) qos_bus \<Rightarrow> ('t, 'h, 'e) qos_bus" where
  "qos_PublishAsync ctx_done ev b =
     (case ev of
        None \<Rightarrow> b
      | Some e \<Rightarrow>
          if qb_closed b \<or> qb_canceled b \<or> ctx_done then b\<lparr>qb_dropped := qb_dropped b + 1\<rparr>
          else case try_send e (qb_async b) of
                 Sent ch \<Rightarrow> b\<lparr>qb_async := ch, qb_published := qb_published b + 1\<rparr>
               | _ \<Rightarrow> b\<lparr>qb_dropped := qb_dropped b + 1\<rparr>)"

text \<open>\<open>Close\<close> marks the bus closed under the lock, then cancels and stops the worker.\<close>

definition qos_Close_begin :: "('t, 'h, 'e) qos_bus \<Rightarrow> ('t, 'h, 'e) qos_bus option" where
  "qos_Close_begin b = (if qb_closed b then None else Some (b\<lparr>qb_closed := True\<rparr>))"

definition qos_Close_stop :: "('t, 'h, 'e) qos_bus \<Rightarrow> ('t, 'h, 'e) qos_bus" where
  "qos_Close_stop b = b\<lparr>qb_canceled := True, qb_stop := True\<rparr>"

definition qos_Stats :: "('t, 'h, 'e) qos_bus \<Rightarrow> 64 word \<times> 64 word \<times> 64 word" where
  "qos_Stats b = (qb_published b, qb_dropped b, qb_retried b)"

subsection \<open>One delivery\<close>

lemma qos1_loop_spec:
  assumes "\<forall>i. dl_wait D i = None" "qos1_loop D (Suc n) i err failed = ((calls, f), res)"
  shows "i < calls \<and> calls \<le> i + Suc n \<and> (\<forall>k. i \<le> k \<longrightarrow> k < calls - 1 \<longrightarrow> dl_answer D k \<noteq> Handled) \<and>
     (if dl_answer D (calls - 1) = Handled then res = None \<and> f = failed + (calls - 1 - i)
      else calls = i + Suc n \<and> res = Some (projl (safeHandle (dl_answer D (calls - 1)))) \<and> f = failed + Suc n)"
  using assms(2)
proof (induction n arbitrary: i err failed)
  case 0
  then show ?case by (cases "dl_answer D i") auto
next
  case (Suc n)
  show ?case
  proof (cases "dl_answer D i = Handled")
    case True
    then show ?thesis using Suc.prems by auto
  next
    case False
    then obtain e where e: "safeHandle (dl_answer D i) = Inl e" by (cases "dl_answer D i") auto
    then have "qos1_loop D (Suc n) (Suc i) (Some e) (Suc failed) = ((calls, f), res)"
      using Suc.prems assms(1) by (simp del: qos1_loop.simps(2) add: qos1_loop.simps(2) [of D "Suc n"])
    from Suc.IH [OF this] have IH: "Suc i < calls \<and> calls \<le> Suc i + Suc n \<and>
        (\<forall>k. Suc i \<le> k \<longrightarrow> k < calls - 1 \<longrightarrow> dl_answer D k \<noteq> Handled) \<and>
        (if dl_answer D (calls - 1) = Handled then res = None \<and> f = Suc failed + (calls - 1 - Suc i)
         else calls = Suc i + Suc n \<and> res = Some (projl (safeHandle (dl_answer D (calls - 1)))) \<and> f = Suc failed + Suc n)" .
    have "dl_answer D k \<noteq> Handled" if "i \<le> k" "k < calls - 1" for k
      using IH False that by (cases "k = i") auto
    moreover have "i < calls" "calls \<le> i + Suc (Suc n)" using IH by auto
    moreover have "if dl_answer D (calls - 1) = Handled then res = None \<and> f = failed + (calls - 1 - i)
      else calls = i + Suc (Suc n) \<and> res = Some (projl (safeHandle (dl_answer D (calls - 1)))) \<and> f = failed + Suc (Suc n)"
      using IH by (auto split: if_splits)
    ultimately show ?thesis by blast
  qed
qed

text \<open>The delivery promise. Between attempts that are not cut short, a delivery at least once succeeds exactly
  if one of the \<open>MaxRetries + 1\<close> attempts does; the handler then succeeded once, in the last attempt, and
  otherwise every attempt was made and the last error is returned. The retry counter grows by the number
  of failed attempts. With a negative \<open>MaxRetries\<close> the handler is never called and the publication
  succeeds.\<close>

theorem delivery_at_least_once:
  assumes "\<forall>i. dl_wait D i = None" "deliverQoS1 D b = (b', calls, res)"
  shows "(0 \<le> qc_MaxRetries (qb_cfg b) \<longrightarrow>
      (res = None \<longleftrightarrow> (\<exists>k. int k \<le> qc_MaxRetries (qb_cfg b) \<and> dl_answer D k = Handled)) \<and>
      (res = None \<longrightarrow> calls > 0 \<and> dl_answer D (calls - 1) = Handled \<and> (\<forall>k < calls - 1. dl_answer D k \<noteq> Handled)) \<and>
      (res \<noteq> None \<longrightarrow> int calls = qc_MaxRetries (qb_cfg b) + 1 \<and>
         res = Some (projl (safeHandle (dl_answer D (calls - 1)))))) \<and>
    (qc_MaxRetries (qb_cfg b) < 0 \<longrightarrow> calls = 0 \<and> res = None) \<and>
    b' = b\<lparr>qb_published := qb_published b + 1, qb_retried := qb_retried b + of_nat (if res = None then calls - 1 else calls)\<rparr>"
proof (cases "qc_MaxRetries (qb_cfg b) < 0")
  case True
  then show ?thesis using assms(2) by (auto simp: deliverQoS1_def Let_def)
next
  case False
  let ?R = "qc_MaxRetries (qb_cfg b)"
  obtain n where n: "nat (?R + 1) = Suc n" "?R = int n" using False by (metis Suc_nat_eq_nat_zadd1 add.commute linorder_not_less nat_0_le)
  obtain c f r where loop: "qos1_loop D (Suc n) 0 None 0 = ((c, f), r)" by (metis surj_pair)
  have eq: "calls = c" "res = r" "b' = b\<lparr>qb_published := qb_published b + 1, qb_retried := qb_retried b + of_nat f\<rparr>"
    using assms(2) by (simp_all add: deliverQoS1_def n(1) loop Let_def del: qos1_loop.simps)
  note spec = qos1_loop_spec [OF assms(1) loop]
  have "res = None \<longleftrightarrow> dl_answer D (calls - 1) = Handled" "f = (if res = None then calls - 1 else calls)"
    "0 < calls" "calls \<le> Suc n" "\<forall>k < calls - 1. dl_answer D k \<noteq> Handled"
    "res \<noteq> None \<longrightarrow> calls = Suc n \<and> res = Some (projl (safeHandle (dl_answer D (calls - 1))))"
    using spec by (auto simp: eq split: if_splits)
  moreover have "(\<exists>k. int k \<le> ?R \<and> dl_answer D k = Handled) \<longleftrightarrow> dl_answer D (calls - 1) = Handled"
    using calculation n(2) by (metis Suc_pred diff_Suc_1 less_Suc_eq_le less_antisym linorder_not_less of_nat_le_iff order_less_le_trans)
  ultimately show ?thesis using False n(2) by (auto simp: eq)
qed

definition third_time :: delivery where
  "third_time = \<lparr>dl_answer = (\<lambda>i. if i = 0 then HandlerError ''busy'' else if i = 1 then HandlerPanic ''nil'' else Handled), dl_wait = (\<lambda>_. None)\<rparr>"

lemma delivery_at_least_once_witness:
  "\<exists>b' :: (string, nat, nat) qos_bus. deliverQoS1 third_time (NewBus qos_DefaultConfig) = (b', 3, None) \<and> qb_retried b' = 2"
proof -
  obtain b' :: "(string, nat, nat) qos_bus" and calls res where d: "deliverQoS1 third_time (NewBus qos_DefaultConfig) = (b', calls, res)"
    using prod_cases3 by blast
  have w: "\<forall>i. dl_wait third_time i = None" by (simp add: third_time_def)
  have m: "qc_MaxRetries (qb_cfg (NewBus qos_DefaultConfig :: (string, nat, nat) qos_bus)) = 3"
    by (simp add: NewBus_def qos_DefaultConfig_def)
  have two: "dl_answer third_time 2 = Handled" by (simp add: third_time_def)
  from delivery_at_least_once [OF w d] m two have "res = None" by (auto intro: exI [of _ 2])
  moreover have "calls > 0" "dl_answer third_time (calls - 1) = Handled" "\<forall>k < calls - 1. dl_answer third_time k \<noteq> Handled"
    and b': "qb_retried b' = of_nat (calls - 1)"
    using delivery_at_least_once [OF w d] m \<open>res = None\<close> by (auto simp: NewBus_def)
  moreover from this(2,3) two have "calls - 1 = 2"
    by (cases "2 < calls - 1") (auto simp: third_time_def split: if_splits)
  ultimately show ?thesis using d by (intro exI [of _ b']) (simp add: b')
qed

subsection \<open>Publishers, worker and closing interleaved\<close>

text \<open>
  The bus with what was handed to it: the events \<open>PublishAsync\<close> accepted and those it dropped, the events
  the worker took out of the buffer, the event it works on, and whether it has left its loop.
\<close>

record ('t, 'h, 'e) qos_sys =
  qs_bus :: "('t, 'h, 'e) qos_bus"
  qs_accepted :: "'e list"
  qs_refused :: nat
  qs_taken :: "'e list"
  qs_current :: "'e option"
  qs_exited :: bool

definition qos_start :: "qos_config \<Rightarrow> ('t, 'h, 'e) qos_sys" where
  "qos_start cfg = \<lparr>qs_bus = NewBus cfg, qs_accepted = [], qs_refused = 0, qs_taken = [], qs_current = None, qs_exited = False\<rparr>"

inductive qos_step :: "('e \<Rightarrow> 't) \<Rightarrow> ('t, 'h, 'e) qos_sys \<Rightarrow> ('t, 'h, 'e) qos_sys \<Rightarrow> bool" for ty :: "'e \<Rightarrow> 't" where
  subscribed: "qos_step ty s (s\<lparr>qs_bus := qos_Subscribe t h q (qs_bus s)\<rparr>)"
| published: "qos_Publish ty DS ev (qs_bus s) = (b, cs, res) \<Longrightarrow> qos_step ty s (s\<lparr>qs_bus := b\<rparr>)"
| enqueued: "qb_dropped (qos_PublishAsync done (Some e) (qs_bus s)) = qb_dropped (qs_bus s) \<Longrightarrow>
     qos_step ty s (s\<lparr>qs_bus := qos_PublishAsync done (Some e) (qs_bus s), qs_accepted := qs_accepted s @ [e]\<rparr>)"
| refused: "qb_dropped (qos_PublishAsync done (Some e) (qs_bus s)) \<noteq> qb_dropped (qs_bus s) \<Longrightarrow>
     qos_step ty s (s\<lparr>qs_bus := qos_PublishAsync done (Some e) (qs_bus s), qs_refused := Suc (qs_refused s)\<rparr>)"
| taken: "\<lbrakk> \<not> qs_exited s; qs_current s = None; buf (qb_async (qs_bus s)) = e # rest \<rbrakk> \<Longrightarrow>
     qos_step ty s (s\<lparr>qs_bus := (qs_bus s)\<lparr>qb_async := (qb_async (qs_bus s))\<lparr>buf := rest\<rparr>\<rparr>,
       qs_taken := qs_taken s @ [e], qs_current := Some e\<rparr>)"
| worked: "\<lbrakk> qs_current s = Some e; qos_Publish ty DS (Some e) (qs_bus s) = (b, cs, res) \<rbrakk> \<Longrightarrow>
     qos_step ty s (s\<lparr>qs_bus := b, qs_current := None\<rparr>)"
| close_begun: "qos_Close_begin (qs_bus s) = Some b \<Longrightarrow> qos_step ty s (s\<lparr>qs_bus := b\<rparr>)"
| close_stopped: "qb_closed (qs_bus s) \<Longrightarrow> qos_step ty s (s\<lparr>qs_bus := qos_Close_stop (qs_bus s)\<rparr>)"
| exited: "\<lbrakk> qb_stop (qs_bus s); qs_current s = None \<rbrakk> \<Longrightarrow> qos_step ty s (s\<lparr>qs_exited := True\<rparr>)"

text \<open>A publication touches nothing but the counters.\<close>

lemma deliver_frame:
  "deliver D hq b = (b', c, res) \<Longrightarrow> qb_async b' = qb_async b \<and> qb_dropped b' = qb_dropped b \<and> qb_closed b' = qb_closed b \<and>
     qb_canceled b' = qb_canceled b \<and> qb_stop b' = qb_stop b \<and> qb_cfg b' = qb_cfg b"
  by (cases hq; cases "snd hq") (auto simp: deliver_def deliverQoS0_def deliverQoS1_def Let_def split: prod.splits)

lemma deliver_all_frame:
  "deliver_all DS i hqs b = (b', cs, es) \<Longrightarrow> qb_async b' = qb_async b \<and> qb_dropped b' = qb_dropped b \<and> qb_closed b' = qb_closed b \<and>
     qb_canceled b' = qb_canceled b \<and> qb_stop b' = qb_stop b \<and> qb_cfg b' = qb_cfg b"
proof (induction hqs arbitrary: i b b' cs es)
  case (Cons hq hqs)
  obtain b1 c res where d: "deliver (DS i) hq b = (b1, c, res)" using prod_cases3 by blast
  obtain b2 cs2 es2 where a: "deliver_all DS (Suc i) hqs b1 = (b2, cs2, es2)" using prod_cases3 by blast
  show ?case using Cons.prems Cons.IH [OF a] deliver_frame [OF d] by (simp add: d a)
qed simp

lemma Publish_frame:
  "qos_Publish ty DS ev b = (b', cs, res) \<Longrightarrow> qb_async b' = qb_async b \<and> qb_dropped b' = qb_dropped b \<and> qb_closed b' = qb_closed b \<and>
     qb_canceled b' = qb_canceled b \<and> qb_stop b' = qb_stop b \<and> qb_cfg b' = qb_cfg b"
  by (auto simp: qos_Publish_def dest: deliver_all_frame split: option.splits if_splits prod.splits)

lemma PublishAsync_cases:
  "qos_PublishAsync done (Some e) b = b\<lparr>qb_dropped := qb_dropped b + 1\<rparr> \<or>
   (\<exists>ch. try_send e (qb_async b) = Sent ch \<and> \<not> qb_closed b \<and>
      qos_PublishAsync done (Some e) b = b\<lparr>qb_async := ch, qb_published := qb_published b + 1\<rparr>)"
  by (simp add: qos_PublishAsync_def split: send.split)

lemma word_Suc_neq [simp]: "(x :: 64 word) + 1 \<noteq> x"
  by simp

definition qos_inv :: "('t, 'h, 'e) qos_sys \<Rightarrow> bool" where
  "qos_inv s \<longleftrightarrow> qs_accepted s = qs_taken s @ buf (qb_async (qs_bus s)) \<and> chan_ok (qb_async (qs_bus s)) \<and>
     qb_dropped (qs_bus s) = of_nat (qs_refused s) \<and> (qb_stop (qs_bus s) \<longrightarrow> qb_closed (qs_bus s)) \<and>
     (qs_exited s \<longrightarrow> qb_stop (qs_bus s) \<and> qs_current s = None)"

lemma qos_step_inv: "qos_step ty s t \<Longrightarrow> qos_inv s \<Longrightarrow> qos_inv t"
proof (induction rule: qos_step.induct)
  case (subscribed s t h q)
  then show ?case by (simp add: qos_inv_def qos_Subscribe_def)
next
  case (published DS ev s b cs res)
  then show ?case using Publish_frame [OF published(1)] by (simp add: qos_inv_def)
next
  case (enqueued "done" e s)
  then show ?case
    using PublishAsync_cases [of "done" e "qs_bus s"] by (auto simp: qos_inv_def chan_ok_def dest: try_send_Sent)
next
  case (refused "done" e s)
  then show ?case using PublishAsync_cases [of "done" e "qs_bus s"] by (auto simp: qos_inv_def add.commute)
next
  case (taken s e rest)
  then show ?case by (auto simp: qos_inv_def chan_ok_def)
next
  case (worked s e DS b cs res)
  then show ?case using Publish_frame [OF worked(2)] by (simp add: qos_inv_def)
qed (auto simp: qos_inv_def qos_Close_begin_def qos_Close_stop_def split: if_splits)

lemma qos_reach_inv: "(qos_step ty)\<^sup>*\<^sup>* s t \<Longrightarrow> qos_inv s \<Longrightarrow> qos_inv t"
  by (induction rule: rtranclp_induct) (auto intro: qos_step_inv)

lemma qos_start_inv: "qos_inv (qos_start cfg)"
  by (simp add: qos_inv_def qos_start_def NewBus_def)

text \<open>After the worker has left, nothing enters or leaves the buffer.\<close>

lemma qos_step_exited:
  "qos_step ty s t \<Longrightarrow> qos_inv s \<Longrightarrow> qs_exited s \<Longrightarrow>
     qs_exited t \<and> qs_taken t = qs_taken s \<and> buf (qb_async (qs_bus t)) = buf (qb_async (qs_bus s)) \<and> qs_accepted t = qs_accepted s"
proof (induction rule: qos_step.induct)
  case (published DS ev s b cs res)
  then show ?case using Publish_frame [OF published(1)] by simp
next
  case (enqueued "done" e s)
  then show ?case using PublishAsync_cases [of "done" e "qs_bus s"] by (auto simp: qos_inv_def)
next
  case (refused "done" e s)
  then show ?case using PublishAsync_cases [of "done" e "qs_bus s"] by (auto simp: qos_inv_def)
next
  case (worked s e DS b cs res)
  then show ?case by (simp add: qos_inv_def)
qed (auto simp: qos_inv_def qos_Subscribe_def qos_Close_begin_def qos_Close_stop_def split: if_splits)

lemma qos_reach_exited:
  "(qos_step ty)\<^sup>*\<^sup>* s t \<Longrightarrow> qos_inv s \<Longrightarrow> qs_exited s \<Longrightarrow>
     qs_exited t \<and> qs_taken t = qs_taken s \<and> buf (qb_async (qs_bus t)) = buf (qb_async (qs_bus s)) \<and> qs_accepted t = qs_accepted s"
proof (induction rule: rtranclp_induct)
  case (step t u)
  then show ?case using qos_step_exited [OF step(2) qos_reach_inv [OF step(1)]] by simp
qed simp

text \<open>The asynchronous queue. However publishers, worker and closing interleave, the events that were
  accepted are those the worker took, in order, followed by those in the buffer, which holds at most its
  size, and the drop counter counts the refused ones. Once the worker has left after \<open>Close\<close>, whatever is
  still in the buffer is never delivered, although it was accepted and is not counted as dropped.\<close>

theorem async_events_queue_in_order:
  assumes "(qos_step ty)\<^sup>*\<^sup>* (qos_start cfg) s"
  shows "qs_accepted s = qs_taken s @ buf (qb_async (qs_bus s)) \<and>
     length (buf (qb_async (qs_bus s))) \<le> capacity (qb_async (qs_bus s)) \<and>
     fst (snd (qos_Stats (qs_bus s))) = of_nat (qs_refused s) \<and>
     (qs_exited s \<longrightarrow> (\<forall>t. (qos_step ty)\<^sup>*\<^sup>* s t \<longrightarrow> qs_taken t = qs_taken s \<and> qs_accepted t = qs_accepted s \<and>
        buf (qb_async (qs_bus t)) = buf (qb_async (qs_bus s))))"
proof -
  have inv: "qos_inv s" by (rule qos_reach_inv [OF assms qos_start_inv])
  show ?thesis
  proof (intro conjI impI allI)
    fix t
    assume "qs_exited s" "(qos_step ty)\<^sup>*\<^sup>* s t"
    from qos_reach_exited [OF this(2) inv this(1)]
    show "qs_taken t = qs_taken s" "qs_accepted t = qs_accepted s" "buf (qb_async (qs_bus t)) = buf (qb_async (qs_bus s))" by blast+
  qed (use inv in \<open>simp_all add: qos_inv_def chan_ok_def qos_Stats_def\<close>)
qed

text \<open>Closing loses accepted events: one is accepted, then the bus is closed and the worker leaves.\<close>

theorem close_loses_accepted_events:
  "\<exists>s :: (nat, nat, nat) qos_sys. (qos_step id)\<^sup>*\<^sup>* (qos_start qos_DefaultConfig) s \<and> qs_exited s \<and> qs_accepted s = [7] \<and>
     qs_taken s = [] \<and> qos_Stats (qs_bus s) = (1, 0, 0) \<and>
     (\<forall>t. (qos_step id)\<^sup>*\<^sup>* s t \<longrightarrow> qs_taken t = [])"
proof -
  define s0 :: "(nat, nat, nat) qos_sys" where "s0 = qos_start qos_DefaultConfig"
  define s1 where "s1 = s0\<lparr>qs_bus := qos_PublishAsync False (Some 7) (qs_bus s0), qs_accepted := qs_accepted s0 @ [7]\<rparr>"
  define s2 where "s2 = s1\<lparr>qs_bus := (qs_bus s1)\<lparr>qb_closed := True\<rparr>\<rparr>"
  define s3 where "s3 = s2\<lparr>qs_bus := qos_Close_stop (qs_bus s2)\<rparr>"
  define s4 where "s4 = s3\<lparr>qs_exited := True\<rparr>"
  have pub: "qos_PublishAsync False (Some 7) (qs_bus s0) =
      (qs_bus s0)\<lparr>qb_async := (qb_async (qs_bus s0))\<lparr>buf := [7]\<rparr>, qb_published := 1\<rparr>"
    by (simp add: s0_def qos_start_def NewBus_def qos_DefaultConfig_def qos_PublishAsync_def try_send_def make_chan_def)
  have "qos_step id s0 s1" unfolding s1_def by (rule qos_step.enqueued) (simp add: pub)
  moreover have "qos_step id s1 s2" unfolding s2_def
    by (rule qos_step.close_begun) (simp add: qos_Close_begin_def s1_def pub, simp add: s0_def qos_start_def NewBus_def)
  moreover have "qos_step id s2 s3" unfolding s3_def by (rule qos_step.close_stopped) (simp add: s2_def)
  moreover have "qos_step id s3 s4" unfolding s4_def
    by (rule qos_step.exited) (simp_all add: s3_def s2_def s1_def s0_def qos_start_def qos_Close_stop_def)
  ultimately have reach: "(qos_step id)\<^sup>*\<^sup>* s0 s4" by (meson rtranclp.rtrancl_refl rtranclp.rtrancl_into_rtrancl)
  have r: "qs_exited s4" "qs_accepted s4 = [7]" "qs_taken s4 = []" "qos_Stats (qs_bus s4) = (1, 0, 0)"
    by (simp_all add: s4_def s3_def s2_def s1_def pub qos_Close_stop_def qos_Stats_def) (simp_all add: s0_def qos_start_def NewBus_def)
  moreover have "qs_taken t = []" if "(qos_step id)\<^sup>*\<^sup>* s4 t" for t
    using qos_reach_exited [OF that qos_reach_inv [OF reach [unfolded s0_def] qos_start_inv] r(1)] r(3) by simp
  ultimately show ?thesis using reach unfolding s0_def by blast
qed

lemma async_events_queue_in_order_witness:
  "\<exists>s :: (nat, nat, nat) qos_sys. qs_accepted s = [5] \<and> qs_accepted s = qs_taken s @ buf (qb_async (qs_bus s))"
proof -
  define s0 :: "(nat, nat, nat) qos_sys" where "s0 = qos_start qos_DefaultConfig"
  define s1 where "s1 = s0\<lparr>qs_bus := qos_PublishAsync False (Some 5) (qs_bus s0), qs_accepted := qs_accepted s0 @ [5]\<rparr>"
  have "qos_step id s0 s1" unfolding s1_def
    by (rule qos_step.enqueued)
      (simp add: s0_def qos_start_def NewBus_def qos_DefaultConfig_def qos_PublishAsync_def try_send_def make_chan_def)
  then have "(qos_step id)\<^sup>*\<^sup>* (qos_start qos_DefaultConfig) s1" unfolding s0_def by (rule r_into_rtranclp)
  from async_events_queue_in_order [OF this] have "qs_accepted s1 = qs_taken s1 @ buf (qb_async (qs_bus s1))" by blast
  moreover have "qs_accepted s1 = [5]" by (simp add: s1_def s0_def qos_start_def)
  ultimately show ?thesis by blast
qed

end
