(* ===== verification/Vault.thy ===== *)
theory Vault
  imports Prelude "HOL-Library.AList" "HOL-Library.List_Lexorder" "HOL-Library.Char_ord"
begin

text \<open>
  The secrets of the agent, \<open>internal/vault\<close>: the encrypted key-value store of \<open>vault.go\<close> over the cryptography
  of \<open>crypto.go\<close>, and the store of trusted plugin keys of \<open>store.go\<close>, whose password is checked by a sealed
  verifier. Argon2, AES-GCM and base64 are parameters (\<open>crypto_lib\<close>); random bytes and the failures of the
  database are answers of the environment. A table is an association list with one row per key.
\<close>

subsection \<open>Cryptography (crypto.go)\<close>

text \<open>\<open>argon2_3\<close> and \<open>argon2_1\<close> are \<open>argon2.IDKey\<close> with the time parameters 3 and 1 that the two files use; the other
  parameters are the same.\<close>

record crypto_lib =
  argon2_3 :: "string \<Rightarrow> string \<Rightarrow> string"
  argon2_1 :: "string \<Rightarrow> string \<Rightarrow> string"
  gcm_seal :: "string \<Rightarrow> string \<Rightarrow> string \<Rightarrow> string"
  gcm_open :: "string \<Rightarrow> string \<Rightarrow> string \<Rightarrow> string option"
  b64_enc :: "string \<Rightarrow> string"
  b64_dec :: "string \<Rightarrow> string option"

datatype vault_error =
    ErrInvalidPassword | ErrInvalidCiphertext | ErrVaultLocked | ErrVaultNotInitialized | ErrSecretNotFound
  | SaltLength | CreateCipher | RandomFailed string | VaultDB string | DecodeSalt

definition saltLen :: nat where "saltLen = 32"
definition nonceLen :: nat where "nonceLen = 12"

definition NewCrypto :: "crypto_lib \<Rightarrow> string \<Rightarrow> string \<Rightarrow> vault_error + string" where
  "NewCrypto L password salt =
     (if length salt \<noteq> saltLen then Err SaltLength else Ok (argon2_3 L password salt))"

text \<open>\<open>aes.NewCipher\<close> takes keys of 16, 24 or 32 bytes.\<close>

definition cipher_ok :: "string \<Rightarrow> bool" where
  "cipher_ok key \<longleftrightarrow> length key \<in> {16, 24, 32}"

definition Encrypt :: "crypto_lib \<Rightarrow> string + string \<Rightarrow> string \<Rightarrow> string \<Rightarrow> vault_error + string" where
  "Encrypt L random key plaintext =
     (if \<not> cipher_ok key then Err CreateCipher
      else case random of
        Inl e \<Rightarrow> Err (RandomFailed e)
      | Inr nonce \<Rightarrow> Ok (b64_enc L (nonce @ gcm_seal L key nonce plaintext)))"

definition Decrypt :: "crypto_lib \<Rightarrow> string \<Rightarrow> string \<Rightarrow> vault_error + string" where
  "Decrypt L key ciphertextB64 =
     (case b64_dec L ciphertextB64 of
        None \<Rightarrow> Err ErrInvalidCiphertext
      | Some c \<Rightarrow>
          if length c < nonceLen then Err ErrInvalidCiphertext
          else if \<not> cipher_ok key then Err CreateCipher
          else case gcm_open L key (take nonceLen c) (drop nonceLen c) of
                 None \<Rightarrow> Err ErrInvalidPassword
               | Some p \<Rightarrow> Ok p)"

definition HashPassword :: "crypto_lib \<Rightarrow> string \<Rightarrow> string \<Rightarrow> string" where
  "HashPassword L password salt = b64_enc L (argon2_3 L password salt)"

definition VerifyPassword :: "crypto_lib \<Rightarrow> string \<Rightarrow> string \<Rightarrow> string \<Rightarrow> bool" where
  "VerifyPassword L password salt expected \<longleftrightarrow> HashPassword L password salt = expected"

text \<open>What is assumed of the libraries: encodings are decoded again, a sealed text is opened with its key and
  nonce, and the derived key has the length that was asked for.\<close>

definition crypto_laws :: "crypto_lib \<Rightarrow> bool" where
  "crypto_laws L \<longleftrightarrow> (\<forall>x. b64_dec L (b64_enc L x) = Some x) \<and>
     (\<forall>k n p. gcm_open L k n (gcm_seal L k n p) = Some p) \<and> (\<forall>pw salt. length (argon2_3 L pw salt) = 32)"

lemma Decrypt_Encrypt:
  assumes "crypto_laws L" "Encrypt L (Inr nonce) key p = Ok c" "length nonce = nonceLen"
  shows "Decrypt L key c = Ok p"
  using assms by (auto simp: Encrypt_def Decrypt_def crypto_laws_def split: if_splits)

subsection \<open>The vault (vault.go)\<close>

record secret_row =
  sr_value :: string
  sr_created :: string
  sr_updated :: string

record vault =
  v_meta :: "(string \<times> string) list"
  v_secrets :: "(string \<times> secret_row) list"
  v_crypto :: "string option"
  v_locked :: bool

text \<open>The statements, to say which of them fails, and what one call reads from outside.\<close>

datatype vquery =
    QSchema | QInsertSalt | QInsertHash | QSelectSalt | QSelectHash | QUpsert | QSelect string | QDelete | QAffected
  | QList | QBegin | QUpdate string | QUpdateSalt | QUpdateHash | QCommit

record venv =
  ve_fault :: "vquery \<Rightarrow> string option"
  ve_salt :: "string + string"
  ve_nonce :: "string \<Rightarrow> string + string"
  ve_now :: string

definition query :: "venv \<Rightarrow> vquery \<Rightarrow> vault_error + unit" where
  "query E q = (case ve_fault E q of Some e \<Rightarrow> Err (VaultDB e) | None \<Rightarrow> Ok ())"

definition vault_Open :: "(string \<times> string) list \<Rightarrow> (string \<times> secret_row) list \<Rightarrow> vault" where
  "vault_Open meta secrets = \<lparr>v_meta = meta, v_secrets = secrets, v_crypto = None, v_locked = True\<rparr>"

text \<open>\<open>Initialize\<close> works on the file alone; the inserts are not in one transaction, and a second insert of
  the same key violates the primary key.\<close>

definition insert_meta :: "venv \<Rightarrow> vquery \<Rightarrow> string \<Rightarrow> string \<Rightarrow> (string \<times> string) list \<Rightarrow> (string \<times> string) list \<times> (vault_error + unit)" where
  "insert_meta E q k v meta =
     (case query E q of
        Inl e \<Rightarrow> (meta, Err e)
      | Inr _ \<Rightarrow> if map_of meta k \<noteq> None then (meta, Err (VaultDB ''UNIQUE constraint failed: vault_meta.key''))
                else ((k, v) # meta, Ok ()))"

definition Initialize :: "crypto_lib \<Rightarrow> venv \<Rightarrow> string \<Rightarrow> (string \<times> string) list \<Rightarrow> (string \<times> string) list \<times> (vault_error + unit)" where
  "Initialize L E password meta =
     (case query E QSchema of
        Inl e \<Rightarrow> (meta, Err e)
      | Inr _ \<Rightarrow>
          (case ve_salt E of
             Inl e \<Rightarrow> (meta, Err (RandomFailed e))
           | Inr salt \<Rightarrow>
               (case insert_meta E QInsertSalt ''salt'' (b64_enc L salt) meta of
                  (m1, Inl e) \<Rightarrow> (m1, Err e)
                | (m1, Inr _) \<Rightarrow> insert_meta E QInsertHash ''password_hash'' (HashPassword L password salt) m1)))"

definition select_meta :: "venv \<Rightarrow> vquery \<Rightarrow> string \<Rightarrow> vault \<Rightarrow> vault_error + string option" where
  "select_meta E q k v = (case query E q of Inl e \<Rightarrow> Err e | Inr _ \<Rightarrow> Ok (map_of (v_meta v) k))"

text \<open>The salt and the password check shared by \<open>Unlock\<close> and \<open>ChangePassword\<close>; only \<open>Unlock\<close> tells a missing
  salt from other errors.\<close>

definition check_password :: "crypto_lib \<Rightarrow> venv \<Rightarrow> vault_error \<Rightarrow> string \<Rightarrow> vault \<Rightarrow> vault_error + string" where
  "check_password L E no_salt password v =
     and_then (select_meta E QSelectSalt ''salt'' v) (\<lambda>s.
       case s of
         None \<Rightarrow> Err no_salt
       | Some saltB64 \<Rightarrow>
           (case b64_dec L saltB64 of
              None \<Rightarrow> Err DecodeSalt
            | Some salt \<Rightarrow>
                and_then (select_meta E QSelectHash ''password_hash'' v) (\<lambda>h.
                  case h of
                    None \<Rightarrow> Err (VaultDB ''sql: no rows in result set'')
                  | Some expected \<Rightarrow>
                      if \<not> VerifyPassword L password salt expected then Err ErrInvalidPassword else Ok salt)))"

definition Unlock :: "crypto_lib \<Rightarrow> venv \<Rightarrow> string \<Rightarrow> vault \<Rightarrow> vault \<times> (vault_error + unit)" where
  "Unlock L E password v =
     (case check_password L E ErrVaultNotInitialized password v of
        Inl e \<Rightarrow> (v, Err e)
      | Inr salt \<Rightarrow>
          (case NewCrypto L password salt of
             Inl e \<Rightarrow> (v, Err e)
           | Inr key \<Rightarrow> (v\<lparr>v_crypto := Some key, v_locked := False\<rparr>, Ok ())))"

definition Lock :: "vault \<Rightarrow> vault" where
  "Lock v = v\<lparr>v_crypto := None, v_locked := True\<rparr>"

definition IsLocked :: "vault \<Rightarrow> bool" where
  "IsLocked v = v_locked v"

text \<open>An unlocked vault has its key; with none the method would dereference a nil pointer.\<close>

definition vault_Set :: "crypto_lib \<Rightarrow> venv \<Rightarrow> string \<Rightarrow> string \<Rightarrow> vault \<Rightarrow> vault \<times> (vault_error, unit) outcome" where
  "vault_Set L E k val v =
     (if v_locked v then (v, Fail ErrVaultLocked)
      else case v_crypto v of
        None \<Rightarrow> (v, Panic)
      | Some key \<Rightarrow>
          (case Encrypt L (ve_nonce E k) key val of
             Inl e \<Rightarrow> (v, Fail e)
           | Inr c \<Rightarrow>
               (case query E QUpsert of
                  Inl e \<Rightarrow> (v, Fail e)
                | Inr _ \<Rightarrow>
                    (let created = (case map_of (v_secrets v) k of Some r \<Rightarrow> sr_created r | None \<Rightarrow> ve_now E)
                     in (v\<lparr>v_secrets := AList.update k \<lparr>sr_value = c, sr_created = created, sr_updated = ve_now E\<rparr> (v_secrets v)\<rparr>,
                         Return ())))))"

definition vault_Get :: "crypto_lib \<Rightarrow> venv \<Rightarrow> string \<Rightarrow> vault \<Rightarrow> (vault_error, string) outcome" where
  "vault_Get L E k v =
     (if v_locked v then Fail ErrVaultLocked
      else case query E (QSelect k) of
        Inl e \<Rightarrow> Fail e
      | Inr _ \<Rightarrow>
          (case map_of (v_secrets v) k of
             None \<Rightarrow> Fail ErrSecretNotFound
           | Some r \<Rightarrow>
               (case v_crypto v of
                  None \<Rightarrow> Panic
                | Some key \<Rightarrow> (case Decrypt L key (sr_value r) of Inl e \<Rightarrow> Fail e | Inr p \<Rightarrow> Return p))))"

definition vault_Delete :: "venv \<Rightarrow> string \<Rightarrow> vault \<Rightarrow> vault \<times> (vault_error + unit)" where
  "vault_Delete E k v =
     (if v_locked v then (v, Err ErrVaultLocked)
      else case query E QDelete of
        Inl e \<Rightarrow> (v, Err e)
      | Inr _ \<Rightarrow>
          (let v' = v\<lparr>v_secrets := AList.delete k (v_secrets v)\<rparr> in
           case query E QAffected of
             Inl e \<Rightarrow> (v', Err e)
           | Inr _ \<Rightarrow> if map_of (v_secrets v) k = None then (v', Err ErrSecretNotFound) else (v', Ok ())))"

definition vault_List :: "venv \<Rightarrow> vault \<Rightarrow> vault_error + string list" where
  "vault_List E v =
     (if v_locked v then Err ErrVaultLocked
      else case query E QList of Inl e \<Rightarrow> Err e | Inr _ \<Rightarrow> Ok (sort (map fst (v_secrets v))))"

text \<open>The two loops of \<open>ChangePassword\<close>: all secrets are read before the transaction begins.\<close>

fun read_all :: "crypto_lib \<Rightarrow> venv \<Rightarrow> vault \<Rightarrow> string list \<Rightarrow> (vault_error, (string \<times> string) list) outcome" where
  "read_all L E v [] = Return []"
| "read_all L E v (k # ks) =
     bind_outcome (vault_Get L E k v) (\<lambda>p. bind_outcome (read_all L E v ks) (\<lambda>rest. Return ((k, p) # rest)))"

fun reencrypt :: "crypto_lib \<Rightarrow> venv \<Rightarrow> string \<Rightarrow> (string \<times> string) list \<Rightarrow> (string \<times> secret_row) list \<Rightarrow> vault_error + (string \<times> secret_row) list" where
  "reencrypt L E key [] rows = Ok rows"
| "reencrypt L E key ((k, p) # kps) rows =
     and_then (Encrypt L (ve_nonce E k) key p) (\<lambda>c.
     and_then (query E (QUpdate k)) (\<lambda>_.
       reencrypt L E key kps
         (map (\<lambda>(n, r). if n = k then (n, r\<lparr>sr_value := c, sr_updated := ve_now E\<rparr>) else (n, r)) rows)))"

definition ChangePassword :: "crypto_lib \<Rightarrow> venv \<Rightarrow> string \<Rightarrow> string \<Rightarrow> vault \<Rightarrow> vault \<times> (vault_error, unit) outcome" where
  "ChangePassword L E old new v =
     (if v_locked v then (v, Fail ErrVaultLocked)
      else case check_password L E (VaultDB ''sql: no rows in result set'') old v of
        Inl e \<Rightarrow> (v, Fail e)
      | Inr _ \<Rightarrow>
          (case and_then (case ve_salt E of Inl e \<Rightarrow> Err (RandomFailed e) | Inr s \<Rightarrow> Ok s)
                  (\<lambda>salt. and_then (NewCrypto L new salt) (\<lambda>key. and_then (vault_List E v) (\<lambda>keys. Ok (salt, key, keys)))) of
             Inl e \<Rightarrow> (v, Fail e)
           | Inr (salt, key, keys) \<Rightarrow>
               (case read_all L E v keys of
                  Fail e \<Rightarrow> (v, Fail e)
                | Panic \<Rightarrow> (v, Panic)
                | Return plain \<Rightarrow>
                    (case and_then (query E QBegin) (\<lambda>_. and_then (reencrypt L E key plain (v_secrets v)) (\<lambda>rows.
                            and_then (query E QUpdateSalt) (\<lambda>_. and_then (query E QUpdateHash) (\<lambda>_. and_then (query E QCommit) (\<lambda>_. Ok rows))))) of
                       Inl e \<Rightarrow> (v, Fail e)
                     | Inr rows \<Rightarrow>
                         (v\<lparr>v_secrets := rows,
                            v_meta := map (\<lambda>(n, x). if n = ''salt'' then (n, b64_enc L salt)
                               else if n = ''password_hash'' then (n, HashPassword L new salt) else (n, x)) (v_meta v),
                            v_crypto := Some key\<rparr>, Return ())))))"

subsection \<open>A vault is a map behind a password\<close>

datatype vault_op =
    VUnlock venv string | VLock | VSet venv string string | VDelete venv string | VChangePassword venv string string

fun vault_step :: "crypto_lib \<Rightarrow> vault_op \<Rightarrow> vault \<Rightarrow> vault \<times> bool" where
  "vault_step L (VUnlock E pw) v = (case Unlock L E pw v of (v', res) \<Rightarrow> (v', res = Ok ()))"
| "vault_step L VLock v = (Lock v, True)"
| "vault_step L (VSet E k x) v = (case vault_Set L E k x v of (v', res) \<Rightarrow> (v', res = Return ()))"
| "vault_step L (VDelete E k) v = (case vault_Delete E k v of (v', res) \<Rightarrow> (v', res = Ok ()))"
| "vault_step L (VChangePassword E old new) v = (case ChangePassword L E old new v of (v', res) \<Rightarrow> (v', res = Return ()))"

text \<open>The promise: a map that is readable while it is open, and the password that opens it.\<close>

record vault_spec =
  vs_password :: string
  vs_map :: "string \<rightharpoonup> string"
  vs_open :: bool

fun spec_step :: "vault_op \<Rightarrow> bool \<Rightarrow> vault_spec \<Rightarrow> vault_spec" where
  "spec_step (VUnlock E pw) ok s = (if ok then s\<lparr>vs_open := True\<rparr> else s)"
| "spec_step VLock ok s = s\<lparr>vs_open := False\<rparr>"
| "spec_step (VSet E k x) ok s = (if ok then s\<lparr>vs_map := (vs_map s)(k \<mapsto> x)\<rparr> else s)"
| "spec_step (VDelete E k) ok s = (if ok then s\<lparr>vs_map := (vs_map s)(k := None)\<rparr> else s)"
| "spec_step (VChangePassword E old new) ok s = (if ok then s\<lparr>vs_password := new\<rparr> else s)"

fun vault_run :: "crypto_lib \<Rightarrow> vault_op list \<Rightarrow> vault \<times> vault_spec \<Rightarrow> vault \<times> vault_spec" where
  "vault_run L [] vs = vs"
| "vault_run L (x # xs) (v, s) = (case vault_step L x v of (v', ok) \<Rightarrow> vault_run L xs (v', spec_step x ok s))"

text \<open>Random bytes have the length that was asked for, and the driver can count the rows it deleted.\<close>

definition venv_ok :: "venv \<Rightarrow> bool" where
  "venv_ok E \<longleftrightarrow> (\<forall>k n. ve_nonce E k = Inr n \<longrightarrow> length n = nonceLen) \<and> (\<forall>salt. ve_salt E = Inr salt \<longrightarrow> length salt = saltLen) \<and>
     ve_fault E QAffected = None"

fun op_env_ok :: "vault_op \<Rightarrow> bool" where
  "op_env_ok (VUnlock E _) = venv_ok E"
| "op_env_ok VLock = True"
| "op_env_ok (VSet E _ _) = venv_ok E"
| "op_env_ok (VDelete E _) = venv_ok E"
| "op_env_ok (VChangePassword E _ _) = venv_ok E"

text \<open>The rows hold exactly the texts of the map, encrypted under the key.\<close>

definition holds_map :: "crypto_lib \<Rightarrow> string \<Rightarrow> (string \<times> secret_row) list \<Rightarrow> (string \<rightharpoonup> string) \<Rightarrow> bool" where
  "holds_map L key rows m \<longleftrightarrow> (\<forall>k. (map_of rows k = None \<longrightarrow> m k = None) \<and>
     (\<forall>r. map_of rows k = Some r \<longrightarrow> (\<exists>p. Decrypt L key (sr_value r) = Ok p \<and> m k = Some p)))"

lemma holds_update:
  assumes "holds_map L key rows m" "Decrypt L key (sr_value row) = Ok p"
    "\<And>n. map_of rows' n = (if n = k then Some row else map_of rows n)"
  shows "holds_map L key rows' (m(k \<mapsto> p))"
  using assms by (simp add: holds_map_def)

lemma holds_delete:
  assumes "holds_map L key rows m" "\<And>n. map_of rows' n = (if n = k then None else map_of rows n)"
  shows "holds_map L key rows' (m(k := None))"
  using assms by (simp add: holds_map_def)

definition vault_rel :: "crypto_lib \<Rightarrow> string \<Rightarrow> vault \<Rightarrow> vault_spec \<Rightarrow> bool" where
  "vault_rel L salt v s \<longleftrightarrow> length salt = saltLen \<and> map_of (v_meta v) ''salt'' = Some (b64_enc L salt) \<and>
     map_of (v_meta v) ''password_hash'' = Some (HashPassword L (vs_password s) salt) \<and>
     distinct (map fst (v_secrets v)) \<and>
     holds_map L (argon2_3 L (vs_password s) salt) (v_secrets v) (vs_map s) \<and>
     v_locked v = (\<not> vs_open s) \<and> v_crypto v = (if vs_open s then Some (argon2_3 L (vs_password s) salt) else None)"

lemma vault_relD:
  assumes "vault_rel L salt v s"
  shows "length salt = saltLen" "map_of (v_meta v) ''salt'' = Some (b64_enc L salt)"
    "map_of (v_meta v) ''password_hash'' = Some (HashPassword L (vs_password s) salt)" "distinct (map fst (v_secrets v))"
    "v_locked v = (\<not> vs_open s)" "v_crypto v = (if vs_open s then Some (argon2_3 L (vs_password s) salt) else None)"
    "map_of (v_secrets v) k = None \<Longrightarrow> vs_map s k = None"
    "map_of (v_secrets v) k = Some r \<Longrightarrow> \<exists>p. Decrypt L (argon2_3 L (vs_password s) salt) (sr_value r) = Ok p \<and> vs_map s k = Some p"
  using assms by (simp_all add: vault_rel_def holds_map_def)

lemma hash_inj: "crypto_laws L \<Longrightarrow> HashPassword L p salt = HashPassword L q salt \<longleftrightarrow> argon2_3 L p salt = argon2_3 L q salt"
  by (metis HashPassword_def crypto_laws_def option.inject)

text \<open>The password check succeeds only for a password with the same key.\<close>

lemma check_password_ok:
  assumes "crypto_laws L" "vault_rel L salt v s" "check_password L E e pw v = Ok salt'"
  shows "salt' = salt \<and> argon2_3 L pw salt = argon2_3 L (vs_password s) salt"
proof -
  have "b64_dec L (b64_enc L salt) = Some salt" using assms(1) by (simp add: crypto_laws_def)
  then have "check_password L E e pw v = Ok salt' \<Longrightarrow> salt' = salt \<and> HashPassword L pw salt = HashPassword L (vs_password s) salt"
    by (auto simp: check_password_def select_meta_def VerifyPassword_def and_then_Ok vault_relD(2,3) [OF assms(2)] split: sum.splits if_splits)
  then show ?thesis using assms(3) hash_inj [OF assms(1)] by blast
qed

lemma check_password_passes:
  assumes "crypto_laws L" "vault_rel L salt v s" "ve_fault E QSelectSalt = None" "ve_fault E QSelectHash = None"
  shows "check_password L E e (vs_password s) v = Ok salt"
proof -
  have "b64_dec L (b64_enc L salt) = Some salt" using assms(1) by (simp add: crypto_laws_def)
  then show ?thesis
    using assms(3,4) vault_relD(2,3) [OF assms(2)] by (simp add: check_password_def select_meta_def query_def VerifyPassword_def)
qed

lemma cipher_ok_derived: "crypto_laws L \<Longrightarrow> cipher_ok (argon2_3 L pw salt)"
  by (simp add: crypto_laws_def cipher_ok_def)

lemma vault_Get_eq:
  assumes "vault_rel L salt v s" "vs_open s" "ve_fault E (QSelect k) = None"
  shows "vault_Get L E k v = (case vs_map s k of None \<Rightarrow> Fail ErrSecretNotFound | Some p \<Rightarrow> Return p)"
  using assms(2,3) vault_relD(5,6) [OF assms(1)] vault_relD(7,8) [OF assms(1), of k]
  by (cases "map_of (v_secrets v) k") (auto simp: vault_Get_def query_def)

lemma Unlock_rel:
  assumes "crypto_laws L" "vault_rel L salt v s" "Unlock L E pw v = (v', res)"
  shows "vault_rel L salt v' (spec_step (VUnlock E pw) (res = Ok ()) s)"
proof (cases "check_password L E ErrVaultNotInitialized pw v")
  case (Inr salt')
  from check_password_ok [OF assms(1,2) this] have c: "salt' = salt" "argon2_3 L pw salt = argon2_3 L (vs_password s) salt" by simp_all
  then have "v' = v\<lparr>v_crypto := Some (argon2_3 L (vs_password s) salt), v_locked := False\<rparr>" "res = Ok ()"
    using assms(3) Inr vault_relD(1) [OF assms(2)] by (simp_all add: Unlock_def NewCrypto_def)
  then show ?thesis using assms(2) by (simp add: vault_rel_def HashPassword_def)
qed (use assms in \<open>auto simp: Unlock_def\<close>)

lemma Set_rel:
  assumes "crypto_laws L" "venv_ok E" "vault_rel L salt v s" "vault_Set L E k x v = (v', res)"
  shows "vault_rel L salt v' (spec_step (VSet E k x) (res = Return ()) s)"
proof (cases "res = Return ()")
  case True
  note d = vault_relD [OF assms(3)]
  let ?key = "argon2_3 L (vs_password s) salt"
  have o: "vs_open s" "v_crypto v = Some ?key" using assms(4) True d(5,6) by (auto simp: vault_Set_def split: if_splits)
  obtain c where c: "Encrypt L (ve_nonce E k) ?key x = Ok c"
    using assms(4) True o(2) by (auto simp: vault_Set_def split: if_splits sum.splits)
  define row where "row = \<lparr>sr_value = c, sr_created = case map_of (v_secrets v) k of Some r \<Rightarrow> sr_created r | None \<Rightarrow> ve_now E,
      sr_updated = ve_now E\<rparr>"
  have v': "v' = v\<lparr>v_secrets := AList.update k row (v_secrets v)\<rparr>"
    using assms(4) True o(2) c by (auto simp: vault_Set_def row_def Let_def split: if_splits sum.splits)
  obtain n where n: "ve_nonce E k = Inr n" using c by (auto simp: Encrypt_def split: if_splits sum.splits)
  have dec: "Decrypt L ?key (sr_value row) = Ok x" using Decrypt_Encrypt [OF assms(1)] c n assms(2) by (simp add: venv_ok_def row_def)
  have "map_of (v_secrets v') m = (if m = k then Some row else map_of (v_secrets v) m)" for m
    by (simp add: v' update_conv')
  moreover have "distinct (map fst (v_secrets v'))" using d(4) by (simp add: v' distinct_update)
  moreover have "holds_map L ?key (v_secrets v) (vs_map s)" using assms(3) by (simp add: vault_rel_def)
  ultimately show ?thesis using assms(3) holds_update [OF _ dec] True by (simp add: vault_rel_def v')
next
  case False
  then have "v' = v" using assms(4) by (auto simp: vault_Set_def Let_def split: if_splits sum.splits option.splits)
  then show ?thesis using False assms(3) by simp
qed

lemma Delete_rel:
  assumes "venv_ok E" "vault_rel L salt v s" "vault_Delete E k v = (v', res)"
  shows "vault_rel L salt v' (spec_step (VDelete E k) (res = Ok ()) s)"
proof (cases "v' = v \<and> res \<noteq> Ok ()")
  case False
  note d = vault_relD [OF assms(2)]
  have v': "v' = v\<lparr>v_secrets := AList.delete k (v_secrets v)\<rparr>" and r: "res = Ok () \<or> map_of (v_secrets v) k = None"
    using False assms(1,3) by (auto simp: vault_Delete_def query_def venv_ok_def Let_def split: if_splits option.splits)
  have m: "map_of (v_secrets v') m = (if m = k then None else map_of (v_secrets v) m)" for m
    by (simp add: v' delete_conv')
  have "distinct (map fst (v_secrets v'))" using d(4) by (simp add: v' distinct_delete)
  moreover have "(vs_map s)(k := None) = vs_map s" if "res \<noteq> Ok ()" using d(7) r that by (metis fun_upd_triv)
  moreover have "holds_map L (argon2_3 L (vs_password s) salt) (v_secrets v') ((vs_map s)(k := None))"
    using assms(2) m by (intro holds_delete) (auto simp: vault_rel_def)
  ultimately show ?thesis using assms(2) by (auto simp: vault_rel_def v')
qed (use assms in simp)

lemma map_of_map_at:
  "map_of (map (\<lambda>(n, r). if n = k then (n, f r) else (n, r)) rows) m = (if m = k then map_option f (map_of rows m) else map_of rows m)"
  by (induction rows) auto

lemma reencrypt_ok:
  assumes "crypto_laws L" "venv_ok E" "reencrypt L E key kps rows = Ok rows'" "distinct (map fst kps)"
  shows "map fst rows' = map fst rows \<and> (\<forall>k. k \<notin> set (map fst kps) \<longrightarrow> map_of rows' k = map_of rows k) \<and>
    (\<forall>(k, p) \<in> set kps. map_of rows k \<noteq> None \<longrightarrow> (\<exists>r. map_of rows' k = Some r \<and> Decrypt L key (sr_value r) = Ok p))"
  using assms(3,4)
proof (induction kps arbitrary: rows)
  case (Cons kp kps)
  obtain k p where kp: "kp = (k, p)" by (cases kp)
  let ?rows = "\<lambda>c. map (\<lambda>(n, r). if n = k then (n, r\<lparr>sr_value := c, sr_updated := ve_now E\<rparr>) else (n, r)) rows"
  obtain c where c: "Encrypt L (ve_nonce E k) key p = Ok c" and rest: "reencrypt L E key kps (?rows c) = Ok rows'"
    using Cons.prems(1) by (auto simp: kp and_then_Ok)
  have dist: "k \<notin> set (map fst kps)" "distinct (map fst kps)" using Cons.prems(2) by (auto simp: kp)
  obtain n where "ve_nonce E k = Inr n" using c by (auto simp: Encrypt_def split: if_splits sum.splits)
  then have dec: "Decrypt L key c = Ok p" using Decrypt_Encrypt [OF assms(1)] c assms(2) by (simp add: venv_ok_def)
  have fsts: "map fst (?rows c) = map fst rows" by (induction rows) auto
  have look: "map_of (?rows c) m =
      (if m = k then map_option (\<lambda>r. r\<lparr>sr_value := c, sr_updated := ve_now E\<rparr>) (map_of rows m) else map_of rows m)" for m
    by (rule map_of_map_at)
  note IH = Cons.IH [OF rest dist(2)]
  have "\<exists>r. map_of rows' k = Some r \<and> Decrypt L key (sr_value r) = Ok p" if "map_of rows k \<noteq> None"
    using that IH dist(1) look [of k] dec by auto
  moreover have "\<exists>r. map_of rows' m = Some r \<and> Decrypt L key (sr_value r) = Ok q" if "(m, q) \<in> set kps" "map_of rows m \<noteq> None" for m q
    using IH that look [of m] dist(1) by (force split: if_splits)
  moreover have "map fst rows' = map fst rows" using IH fsts by metis
  moreover have "map_of rows' m = map_of rows m" if "m \<notin> set (map fst (kp # kps))" for m
    using IH look [of m] that by (simp add: kp)
  ultimately show ?case by (auto simp: kp)
qed simp

lemma read_all_ok:
  "read_all L E v ks = Return kps \<Longrightarrow> map fst kps = ks \<and> (\<forall>(k, p) \<in> set kps. vault_Get L E k v = Return p)"
  by (induction ks arbitrary: kps) auto

lemma ChangePassword_Return:
  assumes "ChangePassword L E old new v = (v', Return ())"
  obtains salt' keys plain rows where "ve_salt E = Inr salt'" "length salt' = saltLen" "keys = sort (map fst (v_secrets v))"
    "read_all L E v keys = Return plain" "reencrypt L E (argon2_3 L new salt') plain (v_secrets v) = Ok rows"
    "v' = v\<lparr>v_secrets := rows,
        v_meta := map (\<lambda>(n, x). if n = ''salt'' then (n, b64_enc L salt')
           else if n = ''password_hash'' then (n, HashPassword L new salt') else (n, x)) (v_meta v),
        v_crypto := Some (argon2_3 L new salt')\<rparr>" "\<not> v_locked v"
  using assms that
  by (auto simp: ChangePassword_def and_then_Ok vault_List_def NewCrypto_def split: if_splits sum.splits outcome.splits)

lemma ChangePassword_rel:
  assumes "crypto_laws L" "venv_ok E" "vault_rel L salt v s" "ChangePassword L E old new v = (v', res)"
  shows "\<exists>salt'. vault_rel L salt' v' (spec_step (VChangePassword E old new) (res = Return ()) s)"
proof (cases "res = Return ()")
  case True
  note d = vault_relD [OF assms(3)]
  obtain salt' keys plain rows where
    salt': "ve_salt E = Inr salt'" "length salt' = saltLen" and keys: "keys = sort (map fst (v_secrets v))"
    and plain: "read_all L E v keys = Return plain" and rows: "reencrypt L E (argon2_3 L new salt') plain (v_secrets v) = Ok rows"
    and v': "v' = v\<lparr>v_secrets := rows,
        v_meta := map (\<lambda>(n, x). if n = ''salt'' then (n, b64_enc L salt')
           else if n = ''password_hash'' then (n, HashPassword L new salt') else (n, x)) (v_meta v),
        v_crypto := Some (argon2_3 L new salt')\<rparr>" and open_v: "\<not> v_locked v"
    by (rule ChangePassword_Return [OF assms(4) [unfolded True]])
  have fst_plain: "map fst plain = keys" and get: "\<And>k p. (k, p) \<in> set plain \<Longrightarrow> vault_Get L E k v = Return p"
    using read_all_ok [OF plain] by auto
  have dist: "distinct (map fst plain)" using d(4) by (simp add: fst_plain keys)
  note re = reencrypt_ok [OF assms(1,2) rows dist]
  have o: "vs_open s" using open_v d(5) by simp
  have content: "(map_of rows k = None \<longrightarrow> vs_map s k = None) \<and>
      (\<forall>r. map_of rows k = Some r \<longrightarrow> (\<exists>p. Decrypt L (argon2_3 L new salt') (sr_value r) = Ok p \<and> vs_map s k = Some p))" for k
  proof (cases "map_of (v_secrets v) k")
    case None
    then have "k \<notin> set (map fst plain)" by (simp add: fst_plain keys map_of_eq_None_iff)
    then have "map_of rows k = None" using re None by simp
    then show ?thesis using d(7) [OF None] by simp
  next
    case (Some r)
    then have "k \<in> set (map fst plain)" by (metis domI dom_map_of_conv_image_fst fst_plain keys set_map set_sort)
    then obtain p where p: "(k, p) \<in> set plain" by auto
    then obtain r' where r': "map_of rows k = Some r'" "Decrypt L (argon2_3 L new salt') (sr_value r') = Ok p"
      using re Some by blast
    have "vs_map s k = Some p"
      using get [OF p] Some d(8) [OF Some] d(6) o by (auto simp: vault_Get_def split: if_splits sum.splits)
    then show ?thesis using r' by simp
  qed
  have meta: "map_of (v_meta v') ''salt'' = Some (b64_enc L salt')" "map_of (v_meta v') ''password_hash'' = Some (HashPassword L new salt')"
  proof -
    have "map_of (map (\<lambda>(n, x). if n = ''salt'' then (n, a) else if n = ''password_hash'' then (n, b) else (n, x)) xs) m =
        (if m = ''salt'' then map_option (\<lambda>_. a) (map_of xs m) else if m = ''password_hash'' then map_option (\<lambda>_. b) (map_of xs m) else map_of xs m)"
      for a b m and xs :: "(string \<times> string) list" by (induction xs) auto
    then show "map_of (v_meta v') ''salt'' = Some (b64_enc L salt')" "map_of (v_meta v') ''password_hash'' = Some (HashPassword L new salt')"
      using d(2,3) by (simp_all add: v')
  qed
  have "distinct (map fst (v_secrets v'))" using re d(4) by (simp add: v')
  then have "vault_rel L salt' v' (s\<lparr>vs_password := new\<rparr>)"
    unfolding vault_rel_def using salt'(2) meta content d(5) o by (simp add: v' holds_map_def)
  then show ?thesis using True by auto
next
  case False
  then have "v' = v"
    using assms(4) by (auto simp: ChangePassword_def split: if_splits sum.splits outcome.splits prod.splits)
  then show ?thesis using False assms(3) by auto
qed

lemma vault_step_rel:
  assumes "crypto_laws L" "op_env_ok x" "vault_rel L salt v s" "vault_step L x v = (v', ok)"
  shows "\<exists>salt'. vault_rel L salt' v' (spec_step x ok s)"
proof (cases x)
  case (VUnlock E pw)
  then show ?thesis using Unlock_rel [OF assms(1,3), of E pw] assms(4) by (cases "Unlock L E pw v") (auto simp del: spec_step.simps)
next
  case VLock
  then show ?thesis using assms(3,4) by (auto simp: vault_rel_def Lock_def)
next
  case (VSet E k y)
  then show ?thesis using Set_rel [OF assms(1) _ assms(3), of E k y] assms(2,4)
    by (cases "vault_Set L E k y v") (auto simp del: spec_step.simps)
next
  case (VDelete E k)
  then show ?thesis using Delete_rel [OF _ assms(3), of E k] assms(2,4)
    by (cases "vault_Delete E k v") (auto simp del: spec_step.simps)
next
  case (VChangePassword E old new)
  then show ?thesis using ChangePassword_rel [OF assms(1) _ assms(3), of E old new] assms(2,4)
    by (cases "ChangePassword L E old new v") (auto simp del: spec_step.simps)
qed

lemma vault_run_rel:
  "crypto_laws L \<Longrightarrow> \<forall>x \<in> set xs. op_env_ok x \<Longrightarrow> vault_rel L salt v s \<Longrightarrow> vault_run L xs (v, s) = (v', s') \<Longrightarrow>
     \<exists>salt'. vault_rel L salt' v' s'"
proof (induction xs arbitrary: v s salt)
  case (Cons x xs)
  obtain v1 ok where st: "vault_step L x v = (v1, ok)" by fastforce
  from vault_step_rel [OF Cons.prems(1) _ Cons.prems(3) st] Cons.prems(2) obtain salt1 where "vault_rel L salt1 v1 (spec_step x ok s)" by auto
  then show ?case using Cons.IH [OF Cons.prems(1)] Cons.prems(2,4) by (auto simp: st)
qed auto

lemma Initialize_rel:
  assumes "crypto_laws L" "venv_ok E" "Initialize L E pw [] = (meta, Ok ())"
  shows "\<exists>salt. vault_rel L salt (vault_Open meta []) \<lparr>vs_password = pw, vs_map = Map.empty, vs_open = False\<rparr>"
proof -
  obtain salt where "ve_salt E = Inr salt" "meta = [(''password_hash'', HashPassword L pw salt), (''salt'', b64_enc L salt)]"
    using assms(3) by (auto simp: Initialize_def insert_meta_def query_def split: option.splits sum.splits)
  then show ?thesis
    using assms(2) by (intro exI [of _ salt]) (simp add: vault_rel_def vault_Open_def venv_ok_def holds_map_def)
qed

text \<open>C13: the vault implements its promise. After \<open>Initialize\<close> and any sequence of calls whose successes and failures
  the database decides, the vault behaves as a map behind a password: while it is locked every read is
  refused; while it is open a read returns what the map holds, through changes of the password; and
  the password of the last successful change opens it.\<close>

theorem vault_refines_map:
  assumes "crypto_laws L" "venv_ok E0" "Initialize L E0 pw [] = (meta, Ok ())" "\<forall>x \<in> set xs. op_env_ok x"
    and "vault_run L xs (vault_Open meta [], \<lparr>vs_password = pw, vs_map = Map.empty, vs_open = False\<rparr>) = (v, s)"
    and "ve_fault E = (\<lambda>_. None)"
  shows "IsLocked v = (\<not> vs_open s) \<and>
     vault_Get L E k v = (if vs_open s then (case vs_map s k of None \<Rightarrow> Fail ErrSecretNotFound | Some p \<Rightarrow> Return p) else Fail ErrVaultLocked) \<and>
     snd (Unlock L E (vs_password s) v) = Ok ()"
proof -
  obtain salt0 where "vault_rel L salt0 (vault_Open meta []) \<lparr>vs_password = pw, vs_map = Map.empty, vs_open = False\<rparr>"
    using Initialize_rel [OF assms(1-3)] by blast
  from vault_run_rel [OF assms(1,4) this assms(5)] obtain salt where rel: "vault_rel L salt v s" by blast
  have "vault_Get L E k v = (if vs_open s then (case vs_map s k of None \<Rightarrow> Fail ErrSecretNotFound | Some p \<Rightarrow> Return p) else Fail ErrVaultLocked)"
    using vault_Get_eq [OF rel, of E k] vault_relD(5) [OF rel] assms(6) by (auto simp: vault_Get_def)
  moreover have "snd (Unlock L E (vs_password s) v) = Ok ()"
    using check_password_passes [OF assms(1) rel] vault_relD(1) [OF rel] assms(6) by (simp add: Unlock_def NewCrypto_def)
  ultimately show ?thesis using vault_relD(5) [OF rel] by (simp add: IsLocked_def)
qed

subsection \<open>What the file alone gives away\<close>

text \<open>Somebody who has the database and no password decodes the stored password hash and uses it as a key.\<close>

definition read_from_file :: "crypto_lib \<Rightarrow> (string \<times> string) list \<Rightarrow> (string \<times> secret_row) list \<Rightarrow> string \<Rightarrow> string option" where
  "read_from_file L meta secrets k =
     (case map_of meta ''password_hash'' of
        None \<Rightarrow> None
      | Some h \<Rightarrow>
          (case b64_dec L h of
             None \<Rightarrow> None
           | Some key \<Rightarrow>
               (case map_of secrets k of
                  None \<Rightarrow> None
                | Some r \<Rightarrow> (case Decrypt L key (sr_value r) of Inl _ \<Rightarrow> None | Inr p \<Rightarrow> Some p))))"

text \<open>The stored password hash is the master key. \<open>HashPassword\<close> and \<open>NewCrypto\<close> derive the same 32 bytes from
  password and salt, and the first are stored next to the secrets: whoever has the database file reads
  every secret without the password, also while the vault is locked and after a change of the password.\<close>

theorem stored_hash_is_the_master_key:
  assumes "crypto_laws L" "venv_ok E0" "Initialize L E0 pw [] = (meta, Ok ())" "\<forall>x \<in> set xs. op_env_ok x"
    and "vault_run L xs (vault_Open meta [], \<lparr>vs_password = pw, vs_map = Map.empty, vs_open = False\<rparr>) = (v, s)"
  shows "read_from_file L (v_meta v) (v_secrets v) = vs_map s"
proof
  fix k
  obtain salt0 where "vault_rel L salt0 (vault_Open meta []) \<lparr>vs_password = pw, vs_map = Map.empty, vs_open = False\<rparr>"
    using Initialize_rel [OF assms(1-3)] by blast
  from vault_run_rel [OF assms(1,4) this assms(5)] obtain salt where rel: "vault_rel L salt v s" by blast
  have "b64_dec L (HashPassword L (vs_password s) salt) = Some (argon2_3 L (vs_password s) salt)"
    using assms(1) by (simp add: crypto_laws_def HashPassword_def)
  then show "read_from_file L (v_meta v) (v_secrets v) k = vs_map s k"
    using vault_relD(3) [OF rel] vault_relD(7,8) [OF rel, of k] by (cases "map_of (v_secrets v) k") (auto simp: read_from_file_def)
qed

text \<open>A toy library that satisfies the laws: the key is padded text, sealing puts key and nonce in front.\<close>

definition toy_crypto :: crypto_lib where
  "toy_crypto =
     \<lparr>argon2_3 = (\<lambda>pw salt. take 32 (pw @ replicate 32 (CHR ''k''))),
      argon2_1 = (\<lambda>pw salt. take 32 (pw @ replicate 32 (CHR ''k''))),
      gcm_seal = (\<lambda>k n p. k @ n @ p),
      gcm_open = (\<lambda>k n c. if take (length k) c = k then
         (if take (length n) (drop (length k) c) = n then Some (drop (length n) (drop (length k) c)) else None) else None),
      b64_enc = id, b64_dec = Some\<rparr>"

lemma toy_laws: "crypto_laws toy_crypto"
  by (auto simp: crypto_laws_def toy_crypto_def min_def)

definition calm_env :: venv where
  "calm_env = \<lparr>ve_fault = (\<lambda>_. None), ve_salt = Inr (replicate 32 (CHR ''s'')), ve_nonce = (\<lambda>_. Inr (replicate 12 (CHR ''n''))), ve_now = ''t''\<rparr>"

lemma calm_env_simps [simp]: "query calm_env q = Ok ()" "ve_nonce calm_env k = Inr (replicate 12 (CHR ''n''))"
  by (simp_all add: query_def calm_env_def)

lemma calm_env_ok: "venv_ok calm_env"
  by (simp add: venv_ok_def calm_env_def saltLen_def nonceLen_def)

definition toy_meta :: "(string \<times> string) list" where
  "toy_meta = fst (Initialize toy_crypto calm_env ''pw'' [])"

lemma toy_Initialize: "Initialize toy_crypto calm_env ''pw'' [] = (toy_meta, Ok ())"
  by (simp add: toy_meta_def Initialize_def calm_env_def insert_meta_def query_def)

definition toy_run :: "vault \<times> vault_spec" where
  "toy_run = vault_run toy_crypto [VUnlock calm_env ''pw'', VSet calm_env ''api'' ''secret'', VLock]
     (vault_Open toy_meta [], \<lparr>vs_password = ''pw'', vs_map = Map.empty, vs_open = False\<rparr>)"

lemma toy_run_spec: "vs_map (snd toy_run) = [''api'' \<mapsto> ''secret'']" "\<not> vs_open (snd toy_run)" "vs_password (snd toy_run) = ''pw''"
proof -
  obtain salt where rel: "vault_rel toy_crypto salt (vault_Open toy_meta []) \<lparr>vs_password = ''pw'', vs_map = Map.empty, vs_open = False\<rparr>"
    using Initialize_rel [OF toy_laws calm_env_ok toy_Initialize] by blast
  have "check_password toy_crypto calm_env ErrVaultNotInitialized ''pw'' (vault_Open toy_meta []) = Ok salt"
    using check_password_passes [OF toy_laws rel, of calm_env] by (simp add: calm_env_def)
  then have u: "Unlock toy_crypto calm_env ''pw'' (vault_Open toy_meta []) =
      ((vault_Open toy_meta [])\<lparr>v_crypto := Some (argon2_3 toy_crypto ''pw'' salt), v_locked := False\<rparr>, Ok ())"
    using vault_relD(1) [OF rel] by (simp add: Unlock_def NewCrypto_def)
  have c: "cipher_ok (argon2_3 toy_crypto ''pw'' salt)" by (rule cipher_ok_derived [OF toy_laws])
  show "vs_map (snd toy_run) = [''api'' \<mapsto> ''secret'']" "\<not> vs_open (snd toy_run)" "vs_password (snd toy_run) = ''pw''"
    by (simp_all add: toy_run_def u vault_Set_def Encrypt_def c Let_def)
qed

lemma vault_refines_map_witness:
  "vault_Get toy_crypto calm_env ''api'' (fst toy_run) = Fail ErrVaultLocked \<and>
   snd (Unlock toy_crypto calm_env ''pw'' (fst toy_run)) = Ok ()"
proof -
  have e: "\<forall>x \<in> set [VUnlock calm_env ''pw'', VSet calm_env ''api'' ''secret'', VLock]. op_env_ok x" by (simp add: calm_env_ok)
  have f: "ve_fault calm_env = (\<lambda>_. None)" by (simp add: calm_env_def)
  show ?thesis
    using vault_refines_map [OF toy_laws calm_env_ok toy_Initialize e _ f, of "fst toy_run" "snd toy_run" "''api''"]
    by (simp add: toy_run_spec toy_run_def [symmetric] del: vault_run.simps)
qed

lemma stored_hash_is_the_master_key_witness:
  "v_locked (fst toy_run) \<and> read_from_file toy_crypto (v_meta (fst toy_run)) (v_secrets (fst toy_run)) ''api'' = Some ''secret''"
proof -
  have e: "\<forall>x \<in> set [VUnlock calm_env ''pw'', VSet calm_env ''api'' ''secret'', VLock]. op_env_ok x" by (simp add: calm_env_ok)
  have "read_from_file toy_crypto (v_meta (fst toy_run)) (v_secrets (fst toy_run)) = vs_map (snd toy_run)"
    using stored_hash_is_the_master_key [OF toy_laws calm_env_ok toy_Initialize e, of "fst toy_run" "snd toy_run"]
    by (simp add: toy_run_def [symmetric] del: vault_run.simps)
  moreover have "v_locked (fst toy_run)" by (simp add: toy_run_def Lock_def split: prod.splits)
  ultimately show ?thesis by (simp add: toy_run_spec)
qed

subsection \<open>The store of plugin keys (store.go)\<close>

text \<open>
  The database file with the versions of its schema, the sealed verifier of the password, and the trusted
  plugin keys; and the copies made before a migration. \<open>st_fault\<close> says which step of a call fails.
\<close>

record key_row =
  kr_PublicKey :: string
  kr_AddedAt :: string

record store_db =
  db_versions :: "(int \<times> string) list"
  db_verifier :: "(string \<times> string \<times> string) option"
  db_keys :: "(string \<times> key_row) list"

record store_files =
  sf_db :: "store_db option"
  sf_backups :: "store_db list"

datatype store_op =
    SMkdir | SPending | SBackup | SOpen | SCreateTable | SMaxVersion | SBegin | SMigrate | SRecordVersion | SCommit
  | SCount | SSalt | SNonce | SInsertVerifier | SSelectVerifier | SUpsertKey | SSelectKey

record store_env =
  st_fault :: "store_op \<Rightarrow> string option"
  st_salt :: string
  st_nonce :: string
  st_format :: "time \<Rightarrow> string"
  st_parse :: "string \<Rightarrow> time option"

definition step_ok :: "store_env \<Rightarrow> store_op \<Rightarrow> vault_error + unit" where
  "step_ok E q = (case st_fault E q of Some e \<Rightarrow> Err (VaultDB e) | None \<Rightarrow> Ok ())"

definition vaultMigrations :: "(int \<times> string) list" where
  "vaultMigrations = [(1, ''vault-v1-20260429'')]"

definition current_version :: "store_db \<Rightarrow> int" where
  "current_version d = foldr (max \<circ> fst) (db_versions d) 0"

fun apply_each :: "store_env \<Rightarrow> int \<Rightarrow> (int \<times> string) list \<Rightarrow> store_db \<Rightarrow> store_db \<times> (vault_error + unit)" where
  "apply_each E cur [] d = (d, Ok ())"
| "apply_each E cur (m # ms) d =
     (if fst m \<le> cur then apply_each E cur ms d
      else case and_then (step_ok E SBegin) (\<lambda>_. and_then (step_ok E SMigrate) (\<lambda>_. and_then (step_ok E SRecordVersion) (\<lambda>_. step_ok E SCommit))) of
        Inl e \<Rightarrow> (d, Err e)
      | Inr _ \<Rightarrow> apply_each E cur ms (d\<lparr>db_versions := db_versions d @ [m]\<rparr>))"

definition applyMigrations :: "store_env \<Rightarrow> store_db \<Rightarrow> store_db \<times> (vault_error + unit)" where
  "applyMigrations E d =
     (case and_then (step_ok E SCreateTable) (\<lambda>_. step_ok E SMaxVersion) of
        Inl e \<Rightarrow> (d, Err e)
      | Inr _ \<Rightarrow> apply_each E (current_version d) vaultMigrations d)"

definition hasPendingMigrations :: "store_env \<Rightarrow> store_db \<Rightarrow> vault_error + bool" where
  "hasPendingMigrations E d =
     and_then (step_ok E SPending) (\<lambda>_. Ok (current_version d < foldr (max \<circ> fst) vaultMigrations 0))"

definition verifier_text :: string where "verifier_text = ''kairos-vault-verifier''"

definition seal :: "crypto_lib \<Rightarrow> store_env \<Rightarrow> string \<Rightarrow> string \<Rightarrow> vault_error + string \<times> string" where
  "seal L E key plaintext =
     (if \<not> cipher_ok key then Err CreateCipher
      else and_then (step_ok E SNonce) (\<lambda>_. Ok (st_nonce E, gcm_seal L key (st_nonce E) plaintext)))"

definition openSealed :: "crypto_lib \<Rightarrow> string \<Rightarrow> string \<Rightarrow> string \<Rightarrow> string option" where
  "openSealed L key nonce c = (if cipher_ok key then gcm_open L key nonce c else None)"

definition verified_key :: "crypto_lib \<Rightarrow> string \<Rightarrow> string \<times> string \<times> string \<Rightarrow> vault_error + string" where
  "verified_key L password row =
     (case row of (salt, nonce, c) \<Rightarrow>
        let key = argon2_1 L password salt in
        if openSealed L key nonce c = Some verifier_text then Ok key else Err ErrInvalidPassword)"

definition bootstrapOrUnlock :: "crypto_lib \<Rightarrow> store_env \<Rightarrow> string \<Rightarrow> store_db \<Rightarrow> store_db \<times> (vault_error + string)" where
  "bootstrapOrUnlock L E password d =
     (case step_ok E SCount of
        Inl e \<Rightarrow> (d, Err e)
      | Inr _ \<Rightarrow>
          (case db_verifier d of
             None \<Rightarrow>
               (case and_then (step_ok E SSalt) (\<lambda>_. and_then (seal L E (argon2_1 L password (st_salt E)) verifier_text)
                       (\<lambda>nc. and_then (step_ok E SInsertVerifier) (\<lambda>_. Ok nc))) of
                  Inl e \<Rightarrow> (d, Err e)
                | Inr (nonce, c) \<Rightarrow> (d\<lparr>db_verifier := Some (st_salt E, nonce, c)\<rparr>, Ok (argon2_1 L password (st_salt E))))
           | Some row \<Rightarrow>
               (case step_ok E SSelectVerifier of
                  Inl e \<Rightarrow> (d, Err e)
                | Inr _ \<Rightarrow> (d, verified_key L password row))))"

definition ValidatePassword :: "crypto_lib \<Rightarrow> store_env \<Rightarrow> string \<Rightarrow> store_db \<Rightarrow> vault_error + unit" where
  "ValidatePassword L E password d =
     (case step_ok E SSelectVerifier of
        Inl e \<Rightarrow> Err e
      | Inr _ \<Rightarrow>
          (case db_verifier d of
             None \<Rightarrow> Err (VaultDB ''sql: no rows in result set'')
           | Some row \<Rightarrow> and_then (verified_key L password row) (\<lambda>_. Ok ())))"

definition new_db :: store_db where
  "new_db = \<lparr>db_versions = [], db_verifier = None, db_keys = []\<rparr>"

definition OpenOrCreate :: "crypto_lib \<Rightarrow> store_env \<Rightarrow> string \<Rightarrow> store_files \<Rightarrow> store_files \<times> (vault_error + string)" where
  "OpenOrCreate L E password fs =
     (case step_ok E SMkdir of
        Inl e \<Rightarrow> (fs, Err e)
      | Inr _ \<Rightarrow>
          (case (case sf_db fs of
                   None \<Rightarrow> Ok fs
                 | Some d \<Rightarrow>
                     and_then (hasPendingMigrations E d) (\<lambda>needs.
                       if needs then and_then (step_ok E SBackup) (\<lambda>_. Ok (fs\<lparr>sf_backups := sf_backups fs @ [d]\<rparr>)) else Ok fs)) of
             Inl e \<Rightarrow> (fs, Err e)
           | Inr fs1 \<Rightarrow>
               (case step_ok E SOpen of
                  Inl e \<Rightarrow> (fs1, Err e)
                | Inr _ \<Rightarrow>
                    (case applyMigrations E (case sf_db fs1 of None \<Rightarrow> new_db | Some d \<Rightarrow> d) of
                       (d1, Inl e) \<Rightarrow> (fs1\<lparr>sf_db := Some d1\<rparr>, Err e)
                     | (d1, Inr _) \<Rightarrow>
                         (case bootstrapOrUnlock L E password d1 of (d2, res) \<Rightarrow> (fs1\<lparr>sf_db := Some d2\<rparr>, res))))))"

definition StoreTrustedPluginKey :: "store_env \<Rightarrow> string \<Rightarrow> string \<Rightarrow> time \<Rightarrow> store_db \<Rightarrow> store_db \<times> (vault_error + unit)" where
  "StoreTrustedPluginKey E fp key at d =
     (case step_ok E SUpsertKey of
        Inl e \<Rightarrow> (d, Err e)
      | Inr _ \<Rightarrow> (d\<lparr>db_keys := AList.update fp \<lparr>kr_PublicKey = key, kr_AddedAt = st_format E at\<rparr> (db_keys d)\<rparr>, Ok ()))"

definition TrustedPluginKey :: "store_env \<Rightarrow> string \<Rightarrow> store_db \<Rightarrow> vault_error + (string \<times> string \<times> time) option" where
  "TrustedPluginKey E fp d =
     and_then (step_ok E SSelectKey) (\<lambda>_.
       case map_of (db_keys d) fp of
         None \<Rightarrow> Ok None
       | Some r \<Rightarrow> (case st_parse E (kr_AddedAt r) of
                       None \<Rightarrow> Err (VaultDB ''parse time'')
                     | Some at \<Rightarrow> Ok (Some (fp, kr_PublicKey r, at))))"

text \<open>What is assumed in addition: sealing is authenticated, so another key opens nothing.\<close>

definition store_laws :: "crypto_lib \<Rightarrow> store_env \<Rightarrow> bool" where
  "store_laws L E \<longleftrightarrow> (\<forall>k k' n p. gcm_open L k' n (gcm_seal L k n p) = (if k' = k then Some p else None)) \<and>
     (\<forall>pw salt. length (argon2_1 L pw salt) = 32) \<and> (\<forall>t. st_parse E (st_format E t) = Some t)"

lemma verified_sealed:
  assumes "store_laws L E"
  shows "verified_key L pw' (salt, n, gcm_seal L (argon2_1 L pw salt) n verifier_text) =
     (if argon2_1 L pw' salt = argon2_1 L pw salt then Ok (argon2_1 L pw salt) else Err ErrInvalidPassword)"
  using assms by (simp add: verified_key_def openSealed_def store_laws_def cipher_ok_def Let_def)

text \<open>The first opening of a new file fixes the password: it records the schema version and seals the verifier.
  After that the file opens exactly with a password of the same derived key, no migration is pending, no
  backup is made, and the file stays as it is; a key that was trusted in between is found again, whatever
  the password.\<close>

theorem first_opening_fixes_the_password:
  assumes "store_laws L E" "st_fault E = (\<lambda>_. None)" "OpenOrCreate L E pw \<lparr>sf_db = None, sf_backups = []\<rparr> = (fs1, Ok key)"
    and "sf_db fs1 = Some d1" "StoreTrustedPluginKey E fp pk at d1 = (d2, Ok ())" "fs2 = fs1\<lparr>sf_db := Some d2\<rparr>"
  shows "OpenOrCreate L E pw' fs2 =
      (fs2, if argon2_1 L pw' (st_salt E) = argon2_1 L pw (st_salt E) then Ok (argon2_1 L pw (st_salt E)) else Err ErrInvalidPassword) \<and>
    ValidatePassword L E pw d2 = Ok () \<and>
    current_version d2 = 1 \<and> sf_backups fs2 = [] \<and> TrustedPluginKey E fp d2 = Ok (Some (fp, pk, at))"
proof -
  have ok: "step_ok E q = Ok ()" for q by (simp add: step_ok_def assms(2))
  let ?c = "gcm_seal L (argon2_1 L pw (st_salt E)) (st_nonce E) verifier_text"
  have c: "cipher_ok (argon2_1 L pw (st_salt E))" using assms(1) by (simp add: store_laws_def cipher_ok_def)
  have f1: "fs1 = \<lparr>sf_db = Some \<lparr>db_versions = vaultMigrations, db_verifier = Some (st_salt E, st_nonce E, ?c), db_keys = []\<rparr>, sf_backups = []\<rparr>"
    using assms(3)
    by (auto simp: OpenOrCreate_def ok applyMigrations_def vaultMigrations_def current_version_def new_db_def bootstrapOrUnlock_def seal_def c)
  then have d2: "d2 = \<lparr>db_versions = vaultMigrations, db_verifier = Some (st_salt E, st_nonce E, ?c),
      db_keys = [(fp, \<lparr>kr_PublicKey = pk, kr_AddedAt = st_format E at\<rparr>)]\<rparr>"
    using assms(4,5) by (auto simp: StoreTrustedPluginKey_def ok)
  have v: "current_version d2 = 1" by (simp add: d2 current_version_def vaultMigrations_def)
  have p: "hasPendingMigrations E d2 = Ok False" by (simp add: hasPendingMigrations_def ok v) (simp add: vaultMigrations_def)
  have m: "applyMigrations E d2 = (d2, Ok ())" by (simp add: applyMigrations_def ok v) (simp add: vaultMigrations_def)
  have b: "bootstrapOrUnlock L E q d2 = (d2, verified_key L q (st_salt E, st_nonce E, ?c))" for q
    by (simp add: bootstrapOrUnlock_def ok d2)
  have fs2: "fs2 = \<lparr>sf_db = Some d2, sf_backups = []\<rparr>" by (simp add: assms(6) f1)
  have "OpenOrCreate L E pw' fs2 = (fs2, verified_key L pw' (st_salt E, st_nonce E, ?c))"
    by (simp add: OpenOrCreate_def ok fs2 p m b)
  moreover have "ValidatePassword L E pw d2 = Ok ()"
    using verified_sealed [OF assms(1), of pw "st_salt E" "st_nonce E" pw] by (simp add: ValidatePassword_def ok d2)
  moreover have "TrustedPluginKey E fp d2 = Ok (Some (fp, pk, at))"
    using assms(1) by (simp add: TrustedPluginKey_def ok d2 store_laws_def)
  ultimately show ?thesis using verified_sealed [OF assms(1), of pw' "st_salt E" "st_nonce E" pw] v by (simp add: fs2)
qed

end
