(* ===== verification/Indicators.thy ===== *)
theory Indicators
  imports Decimal
begin

text \<open>
  The technical indicators of the strategy SDK, \<open>internal/strategy/sdk/sdk.go\<close>. A slice is a list, a loop from
  \<open>len(prices) - period\<close> runs over a suffix of it, and a division by zero panics (\<open>None\<close>). The properties
  name what they need of the decimal library's division.
\<close>

subsection \<open>Definitions\<close>

text \<open>The suffix that a loop starting at \<open>len(prices) - period\<close> visits; a negative period leaves nothing.\<close>

definition window :: "'d list \<Rightarrow> int \<Rightarrow> 'd list" where
  "window prices period = drop (nat (int (length prices) - period)) prices"

definition SimpleMovingAverage :: "'d::linordered_idom dec_lib \<Rightarrow> 'd list \<Rightarrow> int \<Rightarrow> 'd option" where
  "SimpleMovingAverage D prices period =
     (if int (length prices) < period then Some 0
      else dec_div D (foldl (+) 0 (window prices period)) (from_int period))"

fun ema_loop :: "'d::linordered_idom \<Rightarrow> 'd list \<Rightarrow> 'd \<Rightarrow> 'd" where
  "ema_loop m [] ema = ema"
| "ema_loop m (p # ps) ema = ema_loop m ps (p * m + ema * (from_int 1 - m))"

definition ExponentialMovingAverage :: "'d::linordered_idom dec_lib \<Rightarrow> 'd list \<Rightarrow> int \<Rightarrow> 'd option" where
  "ExponentialMovingAverage D prices period =
     (case prices of
        [] \<Rightarrow> Some 0
      | p # ps \<Rightarrow> map_option (\<lambda>m. ema_loop m ps p) (dec_div D (from_int 2) (from_int (period + 1))))"

text \<open>The changes \<open>prices[i] - prices[i-1]\<close> over the window.\<close>

definition price_changes :: "'d::linordered_idom list \<Rightarrow> int \<Rightarrow> 'd list" where
  "price_changes prices period =
     (let s = nat (int (length prices) - period) in map2 (-) (drop s prices) (drop (s - 1) prices))"

fun gains_losses :: "'d::linordered_idom list \<Rightarrow> 'd \<times> 'd \<Rightarrow> 'd \<times> 'd" where
  "gains_losses [] gl = gl"
| "gains_losses (c # cs) (g, l) = gains_losses cs (if c > 0 then (g + c, l) else (g, l + \<bar>c\<bar>))"

definition RSI :: "'d::linordered_idom dec_lib \<Rightarrow> 'd list \<Rightarrow> int \<Rightarrow> 'd option" where
  "RSI D prices period =
     (if int (length prices) < period + 1 then Some 0
      else case gains_losses (price_changes prices period) (0, 0) of (gains, losses) \<Rightarrow>
        (case dec_div D gains (from_int period) of
           None \<Rightarrow> None
         | Some avgGain \<Rightarrow>
             (case dec_div D losses (from_int period) of
                None \<Rightarrow> None
              | Some avgLoss \<Rightarrow>
                  if avgLoss = 0 then Some (from_int 100)
                  else (case dec_div D avgGain avgLoss of
                          None \<Rightarrow> None
                        | Some rs \<Rightarrow> map_option (\<lambda>q. from_int 100 - q) (dec_div D (from_int 100) (from_int 1 + rs))))))"

record 'd macd_result =
  macd_MACD :: 'd
  macd_Signal :: 'd
  macd_Histogram :: 'd

definition MACD :: "'d::linordered_idom dec_lib \<Rightarrow> 'd list \<Rightarrow> int \<Rightarrow> int \<Rightarrow> int \<Rightarrow> 'd macd_result option" where
  "MACD D prices fastPeriod slowPeriod signalPeriod =
     (case (ExponentialMovingAverage D prices fastPeriod, ExponentialMovingAverage D prices slowPeriod) of
        (Some fast, Some slow) \<Rightarrow>
          (let line = fast - slow in
           map_option (\<lambda>signal. \<lparr>macd_MACD = line, macd_Signal = signal, macd_Histogram = line - signal\<rparr>)
             (if int (length prices) \<ge> signalPeriod then SimpleMovingAverage D prices signalPeriod else Some 0))
      | _ \<Rightarrow> None)"

record 'd bands_result =
  MiddleBand :: 'd
  UpperBand :: 'd
  LowerBand :: 'd

definition BollingerBands :: "'d::linordered_idom dec_lib \<Rightarrow> 'd list \<Rightarrow> int \<Rightarrow> 'd \<Rightarrow> 'd bands_result option" where
  "BollingerBands D prices period stdDevMultiplier =
     (if int (length prices) < period then Some \<lparr>MiddleBand = 0, UpperBand = 0, LowerBand = 0\<rparr>
      else case SimpleMovingAverage D prices period of
        None \<Rightarrow> None
      | Some sma \<Rightarrow>
          map_option (\<lambda>stdDev. \<lparr>MiddleBand = sma, UpperBand = sma + stdDev * stdDevMultiplier, LowerBand = sma - stdDev * stdDevMultiplier\<rparr>)
            (dec_div D (foldl (\<lambda>s p. s + (p - sma) * (p - sma)) 0 (window prices period)) (from_int period)))"

subsection \<open>Bounds\<close>

text \<open>The quotient of a whole number by something at least one is at most that number.\<close>

definition div_int_bound :: "'d::linordered_idom dec_lib \<Rightarrow> bool" where
  "div_int_bound D \<longleftrightarrow> (\<forall>n b q. dec_div D (of_int n) b = Some q \<longrightarrow> 0 \<le> n \<longrightarrow> 1 \<le> b \<longrightarrow> q \<le> of_int n)"

lemma mix_between:
  fixes a b m lo hi :: "'d::linordered_idom"
  assumes "0 \<le> m" "m \<le> 1" "lo \<le> a" "a \<le> hi" "lo \<le> b" "b \<le> hi"
  shows "lo \<le> a * m + b * (1 - m)" "a * m + b * (1 - m) \<le> hi"
proof -
  have "lo * m + lo * (1 - m) \<le> a * m + b * (1 - m)" "a * m + b * (1 - m) \<le> hi * m + hi * (1 - m)"
    using assms by (auto intro!: add_mono mult_right_mono)
  then show "lo \<le> a * m + b * (1 - m)" "a * m + b * (1 - m) \<le> hi" by (simp_all add: algebra_simps)
qed

lemma ema_loop_between:
  assumes "0 \<le> m" "m \<le> 1" "\<forall>p \<in> set ps. lo \<le> p \<and> p \<le> hi" "lo \<le> ema" "ema \<le> hi"
  shows "lo \<le> ema_loop m ps ema \<and> ema_loop m ps ema \<le> hi"
  using assms(3-)
proof (induction ps arbitrary: ema)
  case (Cons p ps)
  then show ?case using mix_between [OF assms(1,2), of lo p hi ema] by (simp add: from_int_def)
qed simp

lemma gains_losses_nonneg: "0 \<le> g \<Longrightarrow> 0 \<le> l \<Longrightarrow> gains_losses cs (g, l) = (g', l') \<Longrightarrow> g \<le> g' \<and> l \<le> l'"
proof (induction cs arbitrary: g l)
  case (Cons c cs)
  show ?case
  proof (cases "c > 0")
    case True
    then show ?thesis using Cons.IH [of "g + c" l] Cons.prems by auto
  next
    case False
    then show ?thesis using Cons.IH [of g "l + \<bar>c\<bar>"] Cons.prems by (auto intro: order_trans)
  qed
qed simp

lemma from_int_pos: "0 < n \<Longrightarrow> (0 :: 'd::linordered_idom) < from_int n"
  and from_int_mono: "m \<le> n \<Longrightarrow> (from_int m :: 'd::linordered_idom) \<le> from_int n"
  by (simp_all add: from_int_def)


lemma rat_int_bound: "div_int_bound rat_dec"
proof -
  have "of_int n / b \<le> of_int n" if "0 \<le> n" "1 \<le> b" for n and b :: rat
    using that by (simp add: divide_le_eq mult_left_le_one_le le_divide_eq) (metis mult_left_mono mult.right_neutral of_int_0_le_iff)
  then show ?thesis by (auto simp: div_int_bound_def rat_dec_def split: if_splits)
qed


subsection \<open>What the indicators really compute\<close>

lemma ema_loop_const: "\<forall>p \<in> set ps. p = c \<Longrightarrow> ema_loop m ps c = c"
  by (induction ps) (simp_all add: from_int_def algebra_simps)

lemma foldl_const: "\<forall>p \<in> set ps. p = c \<Longrightarrow> foldl (+) a ps = a + of_int (int (length ps)) * (c :: 'd::linordered_idom)"
  by (induction ps arbitrary: a) (auto simp: algebra_simps)

text \<open>The signal line of the MACD is an average of the prices. \<open>MACD\<close> applies the moving average to the prices
  and not to the MACD line: on a market that does not move, where line, signal and histogram should all be
  zero, the signal is the price itself and the histogram its negative, so a strategy that trades on the
  crossing sees a MACD far below its signal for ever. And the RSI of that market is 100, the highest
  overbought value.\<close>

theorem flat_market_indicators:
  assumes "\<forall>p \<in> set prices. p = c" "prices \<noteq> []" "div_total D" "1 \<le> fast" "1 \<le> slow"
    and "1 \<le> sp" "sp < int (length prices)" "div_exact D (from_int sp * c) (from_int sp)" "dec_div D 0 (from_int sp) = Some 0"
  shows "MACD D prices fast slow sp = Some \<lparr>macd_MACD = 0, macd_Signal = c, macd_Histogram = - c\<rparr> \<and> RSI D prices sp = Some 100"
proof -
  have ema: "ExponentialMovingAverage D prices n = Some c" if "1 \<le> n" for n
  proof -
    have "(0 :: 'a) < from_int (n + 1)" using that by (intro from_int_pos) simp
    then obtain m where "dec_div D (from_int 2) (from_int (n + 1)) = Some m" using div_totalD [OF assms(3)] by fastforce
    then show ?thesis using assms(1,2) by (cases prices) (auto simp: ExponentialMovingAverage_def ema_loop_const)
  qed
  have w: "int (length (window prices sp)) = sp" "\<forall>p \<in> set (window prices sp). p = c"
    using assms(1,6,7) by (auto simp: window_def dest: in_set_dropD)
  obtain q where q: "dec_div D (from_int sp * c) (from_int sp) = Some q" "q * from_int sp = from_int sp * c"
    using assms(8) by (auto simp: div_exact_def)
  have "(from_int sp :: 'a) \<noteq> 0" using from_int_pos [of sp, where 'd = 'a] assms(6) by simp
  then have "q = c" using q(2) by (simp add: mult.commute)
  then have sma: "SimpleMovingAverage D prices sp = Some c"
    using q(1) assms(7) foldl_const [OF w(2), of 0] by (simp add: SimpleMovingAverage_def w(1) from_int_def)
  have zero: "\<forall>x \<in> set (price_changes prices sp). x = 0"
  proof
    fix x
    assume "x \<in> set (price_changes prices sp)"
    then obtain a b i j where "(a, b) \<in> set (zip (drop i prices) (drop j prices))" "x = a - b"
      by (auto simp: price_changes_def Let_def)
    then have "a \<in> set prices" "b \<in> set prices" "x = a - b" by (meson in_set_dropD set_zip_leftD set_zip_rightD)+
    then show "x = 0" using assms(1) by (metis diff_self)
  qed
  have gl: "gains_losses cs (a, b) = (a, b)" if "\<forall>x \<in> set cs. x = 0" for cs and a b :: 'a using that by (induction cs) auto
  have "RSI D prices sp = Some 100"
    using assms(7,9) by (simp add: RSI_def gl [OF zero] from_int_def)
  then show ?thesis using ema [OF assms(4)] ema [OF assms(5)] sma assms(7) by (simp add: MACD_def Let_def)
qed

lemma flat_market_indicators_witness:
  "MACD rat_dec [5, 5, 5] 1 2 2 = Some \<lparr>macd_MACD = 0, macd_Signal = 5, macd_Histogram = -5\<rparr>"
  using flat_market_indicators [of "[5, 5, 5 :: rat]" 5 rat_dec 1 2 2]
  by (simp add: from_int_def) (simp add: rat_dec_def)

text \<open>The Bollinger bands are as wide as the variance, not as its root: doubling all prices makes the distance
  of the bands from the middle four times as large.\<close>

lemma bollinger_window:
  fixes D :: "rat dec_lib"
  assumes "D = rat_dec" "1 \<le> period" "period \<le> int (length prices)"
    and "BollingerBands D prices period k = Some b" "BollingerBands D (map ((*) 2) prices) period k = Some b'"
  shows "MiddleBand b' = 2 * MiddleBand b \<and> UpperBand b' - MiddleBand b' = 4 * (UpperBand b - MiddleBand b)"
proof -
  have w: "window (map ((*) 2) prices) period = map ((*) 2) (window prices period)" by (simp add: window_def drop_map)
  have s: "foldl (+) (2 * a) (map ((*) 2) xs) = 2 * foldl (+) a xs" for a :: rat and xs
  proof (induction xs arbitrary: a)
    case (Cons x xs)
    show ?case using Cons [of "a + x"] by (simp only: list.map foldl_Cons distrib_left)
  qed simp
  have v: "foldl (\<lambda>s p. s + (p - 2 * m) * (p - 2 * m)) (4 * a) (map ((*) 2) xs) = 4 * foldl (\<lambda>s p. s + (p - m) * (p - m)) a xs"
    for a m :: rat and xs
  proof (induction xs arbitrary: a)
    case (Cons x xs)
    have "4 * a + (2 * x - 2 * m) * (2 * x - 2 * m) = 4 * (a + (x - m) * (x - m))" by (simp add: algebra_simps)
    then show ?case using Cons [of "a + (x - m) * (x - m)"] by (simp only: list.map foldl_Cons)
  qed simp
  have n: "\<not> int (length prices) < period" "(from_int period :: rat) \<noteq> 0" using assms(2,3) by (simp_all add: from_int_def)
  let ?w = "window prices period"
  let ?sma = "foldl (+) 0 ?w / from_int period"
  let ?var = "foldl (\<lambda>s p. s + (p - ?sma) * (p - ?sma)) 0 ?w / from_int period"
  have sma: "SimpleMovingAverage D prices period = Some ?sma" "SimpleMovingAverage D (map ((*) 2) prices) period = Some (2 * ?sma)"
    using n s [of 0 ?w] by (simp_all add: SimpleMovingAverage_def w assms(1) rat_dec_def)
  have "b = \<lparr>MiddleBand = ?sma, UpperBand = ?sma + ?var * k, LowerBand = ?sma - ?var * k\<rparr>"
    using assms(4) n sma(1) by (simp add: BollingerBands_def assms(1) rat_dec_def)
  moreover have "b' = \<lparr>MiddleBand = 2 * ?sma, UpperBand = 2 * ?sma + 4 * ?var * k, LowerBand = 2 * ?sma - 4 * ?var * k\<rparr>"
    using assms(5) n sma(2) v [of ?sma 0 ?w] by (simp add: BollingerBands_def w assms(1) rat_dec_def)
  ultimately show ?thesis by simp
qed

end
