(* ===== verification/Strategy_Engine.thy ===== *)
theory Strategy_Engine
  imports Prelude "HOL-Library.AList"
begin

text \<open>
  The strategy engine, \<open>internal/strategy/strategy.go\<close> and \<open>internal/strategy/engine/engine.go\<close>: the registry of
  strategies and the dispatch of ticks and order events to them. A strategy is code of its own: the parameter
  \<open>strat_ops\<close> gives its four calls on a state. The registry holds references, so the strategies are objects at
  addresses and two names can mean one object; the contexts of the instances hold what is handed to a strategy.
\<close>

subsection \<open>Data\<close>

datatype signal_action = SignalActionBuy | SignalActionSell | SignalActionClose | SignalActionHold

record 'd signal =
  sg_StrategyID :: string
  sg_Symbol :: string
  sg_Action :: signal_action
  sg_Quantity :: 'd
  sg_Price :: 'd
  sg_TimeInForce :: string
  sg_Confidence :: 'd
  sg_Reason :: string
  sg_GeneratedAt :: int

record 'd market_data =
  md_Symbol :: string
  md_LastPrice :: 'd
  md_BidPrice :: 'd
  md_AskPrice :: 'd
  md_Volume24h :: 'd
  md_High24h :: 'd
  md_Low24h :: 'd
  md_Timestamp :: int

record 'd position_info =
  pi_Symbol :: string
  pi_Side :: string
  pi_Quantity :: 'd
  pi_EntryPrice :: 'd
  pi_CurrentPrice :: 'd
  pi_UnrealizedPnL :: 'd
  pi_RealizedPnL :: 'd

record 'd balance_info =
  bi_Total :: 'd
  bi_Available :: 'd
  bi_Locked :: 'd

record 'd strategy_context =
  sc_MarketData :: "'d market_data"
  sc_CurrentPrice :: 'd
  sc_Position :: "'d position_info"
  sc_Balance :: "'d balance_info"
  sc_Timestamp :: int

record ('d, 's) strat_ops =
  so_OnTick :: "'d strategy_context \<Rightarrow> 's \<Rightarrow> 's \<times> (string + 'd signal option)"
  so_OnOrderFilled :: "string \<Rightarrow> 'd \<Rightarrow> 'd \<Rightarrow> 's \<Rightarrow> 's \<times> (string + unit)"
  so_OnOrderCanceled :: "string \<Rightarrow> 's \<Rightarrow> 's \<times> (string + unit)"
  so_Reset :: "'s \<Rightarrow> 's \<times> (string + unit)"

definition zero_position :: "'d::zero position_info" where
  "zero_position = \<lparr>pi_Symbol = [], pi_Side = [], pi_Quantity = 0, pi_EntryPrice = 0, pi_CurrentPrice = 0,
     pi_UnrealizedPnL = 0, pi_RealizedPnL = 0\<rparr>"

definition zero_balance :: "'d::zero balance_info" where
  "zero_balance = \<lparr>bi_Total = 0, bi_Available = 0, bi_Locked = 0\<rparr>"

subsection \<open>The registry\<close>

datatype se_error =
    AlreadyRegistered string | StrategyNotFound string | InstanceNotFound string
  | StrategyTick string | OnOrderFilledFailed string | OnOrderCanceledFailed string | ResetFailed string

type_synonym registry = "(string \<times> nat) list"

definition NewStrategyRegistry :: registry where
  "NewStrategyRegistry = []"

definition reg_Register :: "string \<Rightarrow> nat \<Rightarrow> registry \<Rightarrow> registry \<times> (se_error + unit)" where
  "reg_Register sid obj sr =
     (if map_of sr sid \<noteq> None then (sr, Err (AlreadyRegistered sid)) else (AList.update sid obj sr, Ok ()))"

definition reg_Get :: "string \<Rightarrow> registry \<Rightarrow> se_error + nat" where
  "reg_Get sid sr = (case map_of sr sid of None \<Rightarrow> Err (StrategyNotFound sid) | Some obj \<Rightarrow> Ok obj)"

definition reg_Unregister :: "string \<Rightarrow> registry \<Rightarrow> registry \<times> (se_error + unit)" where
  "reg_Unregister sid sr =
     (if map_of sr sid = None then (sr, Err (StrategyNotFound sid)) else (AList.delete sid sr, Ok ()))"

subsection \<open>The engine\<close>

record ('d, 'p) run_context =
  rc_StrategyID :: string
  rc_InstanceID :: string
  rc_Symbol :: string
  rc_Position :: "'d position_info"
  rc_Balance :: "'d balance_info"
  rc_LastSignal :: "'d signal option"
  rc_LastTick :: int
  rc_Params :: 'p

record ('d, 's, 'p) strategy_engine =
  se_registry :: registry
  se_objects :: "nat \<Rightarrow> 's"
  se_contexts :: "(string \<times> ('d, 'p) run_context) list"

record ('d, 'p) tick_input =
  ti_InstanceID :: string
  ti_StrategyID :: string
  ti_Symbol :: string
  ti_LastPrice :: 'd
  ti_BidPrice :: 'd
  ti_AskPrice :: 'd
  ti_Volume24h :: 'd
  ti_High24h :: 'd
  ti_Low24h :: 'd
  ti_Timestamp :: int
  ti_Parameters :: 'p

record 'd order_filled_input =
  fi_InstanceID :: string
  fi_OrderID :: string
  fi_FilledQty :: 'd
  fi_FillPrice :: 'd
  fi_NewPosition :: "'d position_info"
  fi_NewBalance :: "'d balance_info"

definition se_NewEngine :: "registry \<Rightarrow> (nat \<Rightarrow> 's) \<Rightarrow> ('d, 's, 'p) strategy_engine" where
  "se_NewEngine sr objs = \<lparr>se_registry = sr, se_objects = objs, se_contexts = []\<rparr>"

definition new_context :: "('d::zero, 'p) tick_input \<Rightarrow> ('d, 'p) run_context" where
  "new_context input =
     \<lparr>rc_StrategyID = ti_StrategyID input, rc_InstanceID = ti_InstanceID input, rc_Symbol = ti_Symbol input,
      rc_Position = zero_position, rc_Balance = zero_balance, rc_LastSignal = None, rc_LastTick = 0,
      rc_Params = ti_Parameters input\<rparr>"

definition context_data :: "('d, 'p) tick_input \<Rightarrow> ('d, 'p) run_context \<Rightarrow> 'd strategy_context" where
  "context_data input rc =
     \<lparr>sc_MarketData =
        \<lparr>md_Symbol = ti_Symbol input, md_LastPrice = ti_LastPrice input, md_BidPrice = ti_BidPrice input,
         md_AskPrice = ti_AskPrice input, md_Volume24h = ti_Volume24h input, md_High24h = ti_High24h input,
         md_Low24h = ti_Low24h input, md_Timestamp = ti_Timestamp input\<rparr>,
      sc_CurrentPrice = ti_LastPrice input, sc_Position = rc_Position rc, sc_Balance = rc_Balance rc,
      sc_Timestamp = ti_Timestamp input\<rparr>"

definition put_context :: "string \<Rightarrow> ('d, 'p) run_context \<Rightarrow> ('d, 's, 'p) strategy_engine \<Rightarrow> ('d, 's, 'p) strategy_engine" where
  "put_context i rc e = e\<lparr>se_contexts := AList.update i rc (se_contexts e)\<rparr>"

definition put_object :: "nat \<Rightarrow> 's \<Rightarrow> ('d, 's, 'p) strategy_engine \<Rightarrow> ('d, 's, 'p) strategy_engine" where
  "put_object obj s e = e\<lparr>se_objects := (se_objects e)(obj := s)\<rparr>"

definition open_context :: "('d::zero, 'p) tick_input \<Rightarrow> ('d, 's, 'p) strategy_engine \<Rightarrow> ('d, 's, 'p) strategy_engine \<times> ('d, 'p) run_context" where
  "open_context input e =
     (case map_of (se_contexts e) (ti_InstanceID input) of
        Some rc \<Rightarrow> (e, rc)
      | None \<Rightarrow> (put_context (ti_InstanceID input) (new_context input) e, new_context input))"

definition se_Tick ::
  "('d::zero, 's) strat_ops \<Rightarrow> ('d, 'p) tick_input \<Rightarrow> ('d, 's, 'p) strategy_engine \<Rightarrow> ('d, 's, 'p) strategy_engine \<times> (se_error + 'd signal option)" where
  "se_Tick ops input e0 =
     (let (e, rc) = open_context input e0 in
      case reg_Get (ti_StrategyID input) (se_registry e) of
        Inl x \<Rightarrow> (e, Err x)
      | Inr obj \<Rightarrow>
          (case so_OnTick ops (context_data input rc) (se_objects e obj) of
             (s, Inl x) \<Rightarrow> (put_object obj s e, Err (StrategyTick x))
           | (s, Inr None) \<Rightarrow> (put_object obj s e, Ok None)
           | (s, Inr (Some sig)) \<Rightarrow>
               (put_context (ti_InstanceID input) (rc\<lparr>rc_LastSignal := Some sig, rc_LastTick := ti_Timestamp input\<rparr>)
                  (put_object obj s e), Ok (Some sig))))"

definition se_OnOrderFilled ::
  "('d, 's) strat_ops \<Rightarrow> 'd order_filled_input \<Rightarrow> ('d, 's, 'p) strategy_engine \<Rightarrow> ('d, 's, 'p) strategy_engine \<times> (se_error + unit)" where
  "se_OnOrderFilled ops input e =
     (case map_of (se_contexts e) (fi_InstanceID input) of
        None \<Rightarrow> (e, Err (InstanceNotFound (fi_InstanceID input)))
      | Some rc \<Rightarrow>
          (case reg_Get (rc_StrategyID rc) (se_registry e) of
             Inl x \<Rightarrow> (e, Err x)
           | Inr obj \<Rightarrow>
               (case so_OnOrderFilled ops (fi_OrderID input) (fi_FilledQty input) (fi_FillPrice input) (se_objects e obj) of
                  (s, Inl x) \<Rightarrow> (put_object obj s e, Err (OnOrderFilledFailed x))
                | (s, Inr _) \<Rightarrow>
                    (put_context (fi_InstanceID input) (rc\<lparr>rc_Position := fi_NewPosition input, rc_Balance := fi_NewBalance input\<rparr>)
                       (put_object obj s e), Ok ()))))"

definition se_OnOrderCanceled ::
  "('d, 's) strat_ops \<Rightarrow> string \<Rightarrow> string \<Rightarrow> ('d, 's, 'p) strategy_engine \<Rightarrow> ('d, 's, 'p) strategy_engine \<times> (se_error + unit)" where
  "se_OnOrderCanceled ops i oid e =
     (case map_of (se_contexts e) i of
        None \<Rightarrow> (e, Err (InstanceNotFound i))
      | Some rc \<Rightarrow>
          (case reg_Get (rc_StrategyID rc) (se_registry e) of
             Inl x \<Rightarrow> (e, Err x)
           | Inr obj \<Rightarrow>
               (case so_OnOrderCanceled ops oid (se_objects e obj) of
                  (s, Inl x) \<Rightarrow> (put_object obj s e, Err (OnOrderCanceledFailed x))
                | (s, Inr _) \<Rightarrow> (put_object obj s e, Ok ()))))"

definition se_UpdatePosition :: "string \<Rightarrow> 'd position_info \<Rightarrow> ('d, 's, 'p) strategy_engine \<Rightarrow> ('d, 's, 'p) strategy_engine" where
  "se_UpdatePosition i pos e =
     (case map_of (se_contexts e) i of Some rc \<Rightarrow> put_context i (rc\<lparr>rc_Position := pos\<rparr>) e | None \<Rightarrow> e)"

definition se_UpdateBalance :: "string \<Rightarrow> 'd balance_info \<Rightarrow> ('d, 's, 'p) strategy_engine \<Rightarrow> ('d, 's, 'p) strategy_engine" where
  "se_UpdateBalance i bal e =
     (case map_of (se_contexts e) i of Some rc \<Rightarrow> put_context i (rc\<lparr>rc_Balance := bal\<rparr>) e | None \<Rightarrow> e)"

definition se_Reset ::
  "('d, 's) strat_ops \<Rightarrow> string \<Rightarrow> ('d, 's, 'p) strategy_engine \<Rightarrow> ('d, 's, 'p) strategy_engine \<times> (se_error + unit)" where
  "se_Reset ops i e =
     (case map_of (se_contexts e) i of
        None \<Rightarrow> (e, Err (InstanceNotFound i))
      | Some rc \<Rightarrow>
          (case reg_Get (rc_StrategyID rc) (se_registry e) of
             Inl x \<Rightarrow> (e, Err x)
           | Inr obj \<Rightarrow>
               (case so_Reset ops (se_objects e obj) of
                  (s, Inl x) \<Rightarrow> (put_object obj s e, Err (ResetFailed x))
                | (s, Inr _) \<Rightarrow>
                    ((put_object obj s e)\<lparr>se_contexts := AList.delete i (se_contexts e)\<rparr>, Ok ()))))"

subsection \<open>Runs of the engine\<close>

datatype ('d, 'p) se_event =
    DoTick "('d, 'p) tick_input"
  | DoFilled "'d order_filled_input"
  | DoCanceled string string
  | DoPosition string "'d position_info"
  | DoBalance string "'d balance_info"
  | DoReset string

definition se_ok :: "'e + 'a \<Rightarrow> bool" where
  "se_ok r = (case r of Inl _ \<Rightarrow> False | Inr _ \<Rightarrow> True)"

fun se_event_step ::
  "('d::zero, 's) strat_ops \<Rightarrow> ('d, 'p) se_event \<Rightarrow> ('d, 's, 'p) strategy_engine \<Rightarrow> ('d, 's, 'p) strategy_engine \<times> bool" where
  "se_event_step ops (DoTick input) e = map_prod id se_ok (se_Tick ops input e)"
| "se_event_step ops (DoFilled input) e = map_prod id se_ok (se_OnOrderFilled ops input e)"
| "se_event_step ops (DoCanceled i oid) e = map_prod id se_ok (se_OnOrderCanceled ops i oid e)"
| "se_event_step ops (DoPosition i pos) e = (se_UpdatePosition i pos e, True)"
| "se_event_step ops (DoBalance i bal) e = (se_UpdateBalance i bal e, True)"
| "se_event_step ops (DoReset i) e = map_prod id se_ok (se_Reset ops i e)"

fun se_run ::
  "('d::zero, 's) strat_ops \<Rightarrow> ('d, 'p) se_event list \<Rightarrow> ('d, 's, 'p) strategy_engine \<Rightarrow> ('d, 's, 'p) strategy_engine \<times> bool list" where
  "se_run ops [] e = (e, [])"
| "se_run ops (ev # evs) e =
     (let (e1, ok) = se_event_step ops ev e; (e2, oks) = se_run ops evs e1 in (e2, ok # oks))"

text \<open>
  The specification: an account per instance (the strategy it was opened for, position and balance), changed by the
  events of this instance only, according to whether they succeeded.
\<close>

type_synonym 'd account = "string \<times> 'd position_info \<times> 'd balance_info"

definition account :: "('d, 's, 'p) strategy_engine \<Rightarrow> string \<Rightarrow> 'd account option" where
  "account e i = map_option (\<lambda>rc. (rc_StrategyID rc, rc_Position rc, rc_Balance rc)) (map_of (se_contexts e) i)"

fun account_spec :: "('d::zero, 'p) se_event \<times> bool \<Rightarrow> 'd account option \<Rightarrow> 'd account option" where
  "account_spec (DoTick input, ok) None = Some (ti_StrategyID input, zero_position, zero_balance)"
| "account_spec (DoTick input, ok) (Some a) = Some a"
| "account_spec (DoFilled input, ok) a =
     (if ok then map_option (\<lambda>(s, _, _). (s, fi_NewPosition input, fi_NewBalance input)) a else a)"
| "account_spec (DoCanceled i oid, ok) a = a"
| "account_spec (DoPosition i pos, ok) a = map_option (\<lambda>(s, _, b). (s, pos, b)) a"
| "account_spec (DoBalance i bal, ok) a = map_option (\<lambda>(s, p, _). (s, p, bal)) a"
| "account_spec (DoReset i, ok) a = (if ok then None else a)"

fun event_instance :: "('d, 'p) se_event \<Rightarrow> string" where
  "event_instance (DoTick input) = ti_InstanceID input"
| "event_instance (DoFilled input) = fi_InstanceID input"
| "event_instance (DoCanceled i _) = i"
| "event_instance (DoPosition i _) = i"
| "event_instance (DoBalance i _) = i"
| "event_instance (DoReset i) = i"

fun account_run :: "string \<Rightarrow> (('d::zero, 'p) se_event \<times> bool) list \<Rightarrow> 'd account option \<Rightarrow> 'd account option" where
  "account_run i [] a = a"
| "account_run i (x # xs) a = account_run i xs (if event_instance (fst x) = i then account_spec x a else a)"

lemma account_simps [simp]:
  "account (put_object obj s e) i = account e i"
  "account (put_context j rc e) i = (if i = j then Some (rc_StrategyID rc, rc_Position rc, rc_Balance rc) else account e i)"
  "account (e\<lparr>se_contexts := AList.delete j (se_contexts e)\<rparr>) i = (if i = j then None else account e i)"
  by (simp_all add: account_def put_object_def put_context_def update_conv' delete_conv')

lemma account_some: "map_of (se_contexts e) i = Some rc \<Longrightarrow> account e i = Some (rc_StrategyID rc, rc_Position rc, rc_Balance rc)"
  by (simp add: account_def)

lemma account_none: "account e i = None \<longleftrightarrow> map_of (se_contexts e) i = None"
  by (simp add: account_def)

lemma se_registry_simps [simp]:
  "se_registry (put_object obj s e) = se_registry e"
  "se_registry (put_context j rc e) = se_registry e"
  by (simp_all add: put_object_def put_context_def)

text \<open>Each operation against the specification, one lemma per operation.\<close>

lemma account_Tick:
  "account (fst (se_Tick ops input e)) i =
     (if ti_InstanceID input = i then account_spec (DoTick input, ok) (account e i) else account e i)"
proof -
  obtain e1 rc where o: "open_context input e = (e1, rc)" by fastforce
  have "account e1 (ti_InstanceID input) = Some (rc_StrategyID rc, rc_Position rc, rc_Balance rc) \<and>
      account e1 (ti_InstanceID input) = account_spec (DoTick input, ok) (account e (ti_InstanceID input)) \<and>
      (\<forall>j. j \<noteq> ti_InstanceID input \<longrightarrow> account e1 j = account e j)"
    using o by (auto simp: open_context_def new_context_def account_some account_none [THEN iffD2] split: option.splits)
  then show ?thesis
    by (auto simp: se_Tick_def o split: sum.split option.split prod.split)
qed

lemma account_Filled:
  fixes e :: "('d::zero, 's, 'p) strategy_engine"
  shows "account (fst (se_OnOrderFilled ops input e)) i =
     (if fi_InstanceID input = i
      then account_spec (DoFilled input :: ('d, 'p) se_event, se_ok (snd (se_OnOrderFilled ops input e))) (account e i) else account e i)"
  by (auto simp: se_OnOrderFilled_def se_ok_def account_some split: sum.split option.split prod.split)

lemma account_Canceled: "account (fst (se_OnOrderCanceled ops j oid e)) i = account e i"
  by (auto simp: se_OnOrderCanceled_def split: sum.split option.split prod.split)

lemma account_Position:
  fixes e :: "('d::zero, 's, 'p) strategy_engine"
  shows "account (se_UpdatePosition j pos e) i = (if j = i then account_spec (DoPosition j pos :: ('d, 'p) se_event, ok) (account e i) else account e i)"
  by (auto simp: se_UpdatePosition_def account_some account_none [THEN iffD2] split: option.split)

lemma account_Balance:
  fixes e :: "('d::zero, 's, 'p) strategy_engine"
  shows "account (se_UpdateBalance j bal e) i = (if j = i then account_spec (DoBalance j bal :: ('d, 'p) se_event, ok) (account e i) else account e i)"
  by (auto simp: se_UpdateBalance_def account_some account_none [THEN iffD2] split: option.split)

lemma account_Reset:
  fixes e :: "('d::zero, 's, 'p) strategy_engine"
  shows "account (fst (se_Reset ops j e)) i =
     (if j = i then account_spec (DoReset j :: ('d, 'p) se_event, se_ok (snd (se_Reset ops j e))) (account e i) else account e i)"
  by (auto simp: se_Reset_def se_ok_def account_none account_def put_object_def delete_conv' split: sum.split option.split prod.split)

lemma account_step:
  "account (fst (se_event_step ops ev e)) i =
     (if event_instance ev = i then account_spec (ev, snd (se_event_step ops ev e)) (account e i) else account e i)"
proof (cases ev)
  case (DoTick input)
  show ?thesis by (simp add: DoTick account_Tick [where ok = "se_ok (snd (se_Tick ops input e))"])
qed (simp_all add: account_Filled account_Canceled account_Position [where ok = True] account_Balance [where ok = True] account_Reset)


text \<open>What a tick hands over is the account of the instance, whatever the strategy did before.\<close>

lemma context_data_account:
  assumes "account e (ti_InstanceID input) = Some (s, pos, bal)"
  shows "\<exists>rc. open_context input e = (e, rc) \<and> sc_Position (context_data input rc) = pos \<and> sc_Balance (context_data input rc) = bal"
  using assms by (auto simp: account_def open_context_def context_data_def)

subsection \<open>An instance that cannot be removed\<close>

lemma step_registry: "se_registry (fst (se_event_step ops ev e)) = se_registry e"
proof (cases ev)
  case (DoTick input)
  obtain e1 rc where o: "open_context input e = (e1, rc)" by fastforce
  then have "se_registry e1 = se_registry e" by (auto simp: open_context_def split: option.splits)
  then show ?thesis by (auto simp: DoTick se_Tick_def o split: sum.split option.split prod.split)
qed (auto simp: se_OnOrderFilled_def se_OnOrderCanceled_def se_UpdatePosition_def se_UpdateBalance_def se_Reset_def put_object_def
       split: sum.split option.split prod.split)

text \<open>\<open>stuck\<close>: the instance was opened for a strategy that is not registered.\<close>

definition stuck :: "string \<Rightarrow> string \<Rightarrow> ('d, 's, 'p) strategy_engine \<Rightarrow> bool" where
  "stuck i sid e \<longleftrightarrow> map_of (se_registry e) sid = None \<and> (\<exists>p b. account e i = Some (sid, p, b))"

lemma stuck_reset: "stuck i sid e \<Longrightarrow> se_Reset ops i e = (e, Err (StrategyNotFound sid))"
  by (auto simp: stuck_def account_def se_Reset_def reg_Get_def)

lemma stuck_filled: "stuck (fi_InstanceID input) sid e \<Longrightarrow> se_OnOrderFilled ops input e = (e, Err (StrategyNotFound sid))"
  by (auto simp: stuck_def account_def se_OnOrderFilled_def reg_Get_def)

lemma stuck_step:
  assumes "stuck i sid e"
  shows "stuck i sid (fst (se_event_step ops ev e))"
proof -
  obtain p b where a: "account e i = Some (sid, p, b)" using assms by (auto simp: stuck_def)
  have "\<exists>p b. account (fst (se_event_step ops ev e)) i = Some (sid, p, b)"
  proof (cases "event_instance ev = i")
    case True
    have "account_spec (ev, snd (se_event_step ops ev e)) (Some (sid, p, b)) = Some (sid, q) \<Longrightarrow> ?thesis" for q
      using True a by (cases q) (simp add: account_step)
    moreover have "\<exists>q. account_spec (ev, snd (se_event_step ops ev e)) (Some (sid, p, b)) = Some (sid, q)"
      using True stuck_reset [OF assms, of ops] by (cases ev) (simp_all add: se_ok_def)
    ultimately show ?thesis by blast
  qed (simp add: account_step a)
  then show ?thesis using assms by (simp add: stuck_def step_registry)
qed

lemma stuck_run: "stuck i sid e \<Longrightarrow> stuck i sid (fst (se_run ops evs e))"
proof (induction evs arbitrary: e)
  case (Cons ev evs)
  obtain e1 ok where s: "se_event_step ops ev e = (e1, ok)" by fastforce
  obtain e2 oks where r: "se_run ops evs e1 = (e2, oks)" by fastforce
  show ?case using Cons.IH [of e1] stuck_step [OF Cons.prems, of ops ev] by (simp add: s r)
qed simp

text \<open>
  The context is stored before the strategy is looked up. A first tick with a strategy that is not registered fails,
  but binds the instance to it: until such a strategy is registered every fill and every reset of the instance fails,
  whatever happens in between, although ticks with the right strategy go on producing signals.
\<close>

theorem failed_tick_binds_instance:
  assumes "account e (ti_InstanceID input) = None" "map_of (se_registry e) (ti_StrategyID input) = None"
    and "e1 = fst (se_run ops evs (fst (se_Tick ops input e)))" "fi_InstanceID fill = ti_InstanceID input"
  shows "snd (se_Tick ops input e) = Err (StrategyNotFound (ti_StrategyID input)) \<and>
    snd (se_OnOrderFilled ops fill e1) = Err (StrategyNotFound (ti_StrategyID input)) \<and>
    snd (se_Reset ops (ti_InstanceID input) e1) = Err (StrategyNotFound (ti_StrategyID input))"
proof -
  have t: "snd (se_Tick ops input e) = Err (StrategyNotFound (ti_StrategyID input))"
    using assms(1,2) by (auto simp: se_Tick_def open_context_def account_none reg_Get_def)
  have "stuck (ti_InstanceID input) (ti_StrategyID input) (fst (se_Tick ops input e))"
    using account_Tick [of ops input e "ti_InstanceID input" True] assms(1,2) step_registry [of ops "DoTick input" e]
    by (simp add: stuck_def)
  then have "stuck (ti_InstanceID input) (ti_StrategyID input) e1" unfolding assms(3) by (rule stuck_run)
  then show ?thesis using t stuck_filled [of fill] stuck_reset assms(4) by (metis snd_conv)
qed

end
