(* ===== verification/Wasm.thy ===== *)
theory Wasm
  imports Prelude "HOL-Library.Word" "HOL-Library.AList"
begin

text \<open>
  Strategies compiled to WebAssembly, \<open>internal/strategy/wasm\<close>: the allocator of the host in the guest's linear
  memory, the calls of \<open>WasmStrategy\<close>, and the executor that loads and unloads them. The guest module and the
  engine that runs it are parameters (\<open>guest\<close>): an exported function maps memory and guest state to new ones
  and returns words or an error. Offsets and sizes are 32-bit words, arguments and results 64-bit words.
\<close>

subsection \<open>Linear memory\<close>

record wasm_mem =
  mem_byte :: "nat \<Rightarrow> char"
  mem_pages :: nat
  mem_max :: nat

definition mem_Size :: "wasm_mem \<Rightarrow> 32 word" where
  "mem_Size m = of_nat (mem_pages m * 65536)"

definition mem_Grow :: "32 word \<Rightarrow> wasm_mem \<Rightarrow> wasm_mem option" where
  "mem_Grow d m = (if mem_pages m + unat d \<le> mem_max m then Some (m\<lparr>mem_pages := mem_pages m + unat d\<rparr>) else None)"

definition mem_Write :: "32 word \<Rightarrow> string \<Rightarrow> wasm_mem \<Rightarrow> wasm_mem option" where
  "mem_Write off data m =
     (if unat off + length data \<le> mem_pages m * 65536
      then Some (m\<lparr>mem_byte := (\<lambda>i. if unat off \<le> i \<and> i < unat off + length data then data ! (i - unat off) else mem_byte m i)\<rparr>)
      else None)"

definition mem_Read :: "32 word \<Rightarrow> 32 word \<Rightarrow> wasm_mem \<Rightarrow> string option" where
  "mem_Read off len m =
     (if unat off + unat len \<le> mem_pages m * 65536 then Some (map (mem_byte m) [unat off..<unat off + unat len]) else None)"

lemma unat_w32: "n < 2 ^ 32 \<Longrightarrow> unat (of_nat n :: 32 word) = n"
  by (simp add: unat_of_nat)

lemma mem_Read_written:
  assumes "mem_Write off data m = Some m'" "length data < 2 ^ 32"
  shows "mem_Read off (of_nat (length data)) m' = Some data"
proof -
  have "map (mem_byte m') [unat off..<unat off + length data] = data"
    using assms(1) by (intro nth_equalityI) (auto simp: mem_Write_def split: if_splits)
  then show ?thesis using assms by (auto simp: mem_Read_def mem_Write_def unat_w32 split: if_splits)
qed

subsection \<open>The allocator and a strategy\<close>

datatype wasm_error =
    AllocationTooLarge "32 word" | GrowFailed | WriteFailed "32 word" | NotExported string | CallFailed string
  | MarshalFailed string | ReadSignal | UnmarshalSignal string | CloseInstance string
  | AlreadyLoaded string | NotLoaded string | ModuleNotFound string | Instantiate string
  | ReadFile string | Compile string | FileNotFound string | ReadDir string
  | InvalidBinary string | OpenSource string | CreateDest string | CopyFile string

record allocator =
  nextOffset :: "32 word"
  maxSize :: "32 word"

definition newMemoryAllocator :: allocator where
  "newMemoryAllocator = \<lparr>nextOffset = 65536, maxSize = 1024 * 1024\<rparr>"

definition allocate :: "32 word \<Rightarrow> allocator \<Rightarrow> allocator \<times> (wasm_error + 32 word)" where
  "allocate sz ma =
     (if sz > maxSize ma then (ma, Err (AllocationTooLarge sz))
      else
        (let off = nextOffset ma;
             n1 = off + sz;
             n2 = (if n1 mod 8 \<noteq> 0 then n1 + (8 - n1 mod 8) else n1)
         in (ma\<lparr>nextOffset := n2\<rparr>, Ok off)))"

definition alloc_reset :: "allocator \<Rightarrow> allocator" where
  "alloc_reset ma = ma\<lparr>nextOffset := 65536\<rparr>"

record 'g wasm =
  ws_memory :: wasm_mem
  ws_allocator :: allocator
  ws_guest :: 'g

record 'g guest =
  gu_exported :: "string \<Rightarrow> bool"
  gu_call :: "string \<Rightarrow> 64 word list \<Rightarrow> wasm_mem \<times> 'g \<Rightarrow> (wasm_mem \<times> 'g) \<times> (string + 64 word list)"

definition NewWasmStrategy :: "wasm_mem \<Rightarrow> 'g \<Rightarrow> 'g wasm" where
  "NewWasmStrategy m g = \<lparr>ws_memory = m, ws_allocator = newMemoryAllocator, ws_guest = g\<rparr>"

definition CallFunction :: "'g guest \<Rightarrow> string \<Rightarrow> 64 word list \<Rightarrow> 'g wasm \<Rightarrow> 'g wasm \<times> (wasm_error + 64 word list)" where
  "CallFunction G f args ws =
     (if \<not> gu_exported G f then (ws, Err (NotExported f))
      else case gu_call G f args (ws_memory ws, ws_guest ws) of
        ((m, g), Inl e) \<Rightarrow> (ws\<lparr>ws_memory := m, ws_guest := g\<rparr>, Err (CallFailed e))
      | ((m, g), Inr rs) \<Rightarrow> (ws\<lparr>ws_memory := m, ws_guest := g\<rparr>, Ok rs))"

definition writeToMemory :: "string \<Rightarrow> 'g wasm \<Rightarrow> 'g wasm \<times> (wasm_error + 32 word)" where
  "writeToMemory data ws =
     (case allocate (of_nat (length data)) (ws_allocator ws) of
        (ma, Inl e) \<Rightarrow> (ws\<lparr>ws_allocator := ma\<rparr>, Err e)
      | (ma, Inr off) \<Rightarrow>
          (let ws1 = ws\<lparr>ws_allocator := ma\<rparr>;
               memSize = mem_Size (ws_memory ws);
               requiredSize = off + of_nat (length data);
               grown = (if requiredSize > memSize
                        then mem_Grow ((requiredSize - memSize + 65535) div 65536) (ws_memory ws)
                        else Some (ws_memory ws))
           in case grown of
                None \<Rightarrow> (ws1, Err GrowFailed)
              | Some m1 \<Rightarrow>
                  (case mem_Write off data m1 of
                     None \<Rightarrow> (ws1\<lparr>ws_memory := m1\<rparr>, Err (WriteFailed off))
                   | Some m2 \<Rightarrow> (ws1\<lparr>ws_memory := m2\<rparr>, Ok off))))"

text \<open>The deferred reset of the allocator at the end of a call.\<close>

definition with_reset :: "'g wasm \<Rightarrow> 'g wasm" where
  "with_reset ws = ws\<lparr>ws_allocator := alloc_reset (ws_allocator ws)\<rparr>"

text \<open>Write a text and pass its place to an exported function; shared by all calls with data.\<close>

definition call_with :: "'g guest \<Rightarrow> string \<Rightarrow> string + string \<Rightarrow> 'g wasm \<Rightarrow> 'g wasm \<times> (wasm_error + 64 word list)" where
  "call_with G f json ws =
     (case json of
        Inl e \<Rightarrow> (ws, Err (MarshalFailed e))
      | Inr data \<Rightarrow>
          (case writeToMemory data ws of
             (ws1, Inl e) \<Rightarrow> (ws1, Err e)
           | (ws1, Inr ptr) \<Rightarrow> CallFunction G f [ucast ptr, of_nat (length data)] ws1))"

text \<open>\<open>OnTick\<close> indexes the second result after having checked only that there is one.\<close>

definition wasm_OnTick :: "'g guest \<Rightarrow> (string \<Rightarrow> string + 'sig) \<Rightarrow> string + string \<Rightarrow> 'g wasm \<Rightarrow> 'g wasm \<times> (wasm_error, 'sig option) outcome" where
  "wasm_OnTick G decode json ws =
     (case call_with G ''on_tick'' json ws of
        (ws1, Inl e) \<Rightarrow> (with_reset ws1, Fail e)
      | (ws1, Inr results) \<Rightarrow>
          (with_reset ws1,
           case results of
             [] \<Rightarrow> Return None
           | [_] \<Rightarrow> Panic
           | ptr # len # _ \<Rightarrow>
               (case mem_Read (ucast ptr) (ucast len) (ws_memory ws1) of
                  None \<Rightarrow> Fail ReadSignal
                | Some s \<Rightarrow> (case decode s of Inl e \<Rightarrow> Fail (UnmarshalSignal e) | Inr sig \<Rightarrow> Return (Some sig)))))"

definition wasm_notify :: "'g guest \<Rightarrow> string \<Rightarrow> string + string \<Rightarrow> 'g wasm \<Rightarrow> 'g wasm \<times> (wasm_error + unit)" where
  "wasm_notify G f json ws =
     (case call_with G f json ws of
        (ws1, Inl e) \<Rightarrow> (with_reset ws1, Err e)
      | (ws1, Inr _) \<Rightarrow> (with_reset ws1, Ok ()))"

definition wasm_OnOrderFilled :: "'g guest \<Rightarrow> string + string \<Rightarrow> 'g wasm \<Rightarrow> 'g wasm \<times> (wasm_error + unit)" where
  "wasm_OnOrderFilled G json ws = wasm_notify G ''on_order_filled'' json ws"

definition wasm_OnOrderCanceled :: "'g guest \<Rightarrow> string + string \<Rightarrow> 'g wasm \<Rightarrow> 'g wasm \<times> (wasm_error + unit)" where
  "wasm_OnOrderCanceled G json ws = wasm_notify G ''on_order_canceled'' json ws"

definition wasm_SetParameters :: "'g guest \<Rightarrow> string + string \<Rightarrow> 'g wasm \<Rightarrow> 'g wasm \<times> (wasm_error + unit)" where
  "wasm_SetParameters G json ws = wasm_notify G ''set_parameters'' json ws"

definition wasm_GetParameters :: "'g guest \<Rightarrow> (string \<Rightarrow> 'p option) \<Rightarrow> 'p \<Rightarrow> 'g wasm \<Rightarrow> 'g wasm \<times> 'p" where
  "wasm_GetParameters G decode none ws =
     (case CallFunction G ''get_parameters'' [] ws of
        (ws1, Inl _) \<Rightarrow> (ws1, none)
      | (ws1, Inr results) \<Rightarrow>
          (ws1,
           case results of
             ptr # len # _ \<Rightarrow>
               (case mem_Read (ucast ptr) (ucast len) (ws_memory ws1) of
                  None \<Rightarrow> none
                | Some s \<Rightarrow> (case decode s of None \<Rightarrow> none | Some p \<Rightarrow> p))
           | _ \<Rightarrow> none))"

definition wasm_Reset :: "'g guest \<Rightarrow> 'g wasm \<Rightarrow> 'g wasm \<times> (wasm_error + unit)" where
  "wasm_Reset G ws =
     (case CallFunction G ''reset'' [] ws of
        (ws1, Inl e) \<Rightarrow> (ws1, Err e)
      | (ws1, Inr _) \<Rightarrow> (ws1\<lparr>ws_allocator := newMemoryAllocator\<rparr>, Ok ()))"

subsection \<open>Modules and their files\<close>

text \<open>
  The directory of the plugins is a clean path without a trailing slash. \<open>filepath.Base\<close>, \<open>filepath.Ext\<close> of a
  name without slashes and \<open>filepath.Join\<close> of the directory with one name are written out; the compiled modules
  are the engine's.
\<close>

definition path_Base :: "string \<Rightarrow> string" where
  "path_Base p =
     (if p = [] then ''.''
      else (let q = rev (dropWhile (\<lambda>c. c = CHR ''/'') (rev p)) in
            if q = [] then ''/'' else rev (takeWhile (\<lambda>c. c \<noteq> CHR ''/'') (rev q))))"

definition path_Ext :: "string \<Rightarrow> string" where
  "path_Ext n = (if CHR ''.'' \<in> set n then CHR ''.'' # rev (takeWhile (\<lambda>c. c \<noteq> CHR ''.'') (rev n)) else [])"

definition path_Join :: "string \<Rightarrow> string \<Rightarrow> string" where
  "path_Join dir n = dir @ CHR ''/'' # dropWhile (\<lambda>c. c = CHR ''/'') n"

record 'm wasm_runtime =
  rt_modules :: "(string \<times> 'm) list"

text \<open>Compiling replaces an older module of the same name; that its closing fails is only logged.\<close>

definition LoadModule ::
  "(string \<Rightarrow> string + string) \<Rightarrow> (string \<Rightarrow> string + 'm) \<Rightarrow> string \<Rightarrow> string \<Rightarrow> 'm wasm_runtime \<Rightarrow> 'm wasm_runtime \<times> (wasm_error + unit)" where
  "LoadModule readFile compile mid wasmPath r =
     (case readFile wasmPath of
        Inl e \<Rightarrow> (r, Err (ReadFile e))
      | Inr binary \<Rightarrow>
          (case compile binary of
             Inl e \<Rightarrow> (r, Err (Compile e))
           | Inr compiled \<Rightarrow> (r\<lparr>rt_modules := AList.update mid compiled (rt_modules r)\<rparr>, Ok ())))"

definition InstantiateModule :: "('m \<Rightarrow> string + wasm_mem \<times> 'g) \<Rightarrow> 'm wasm_runtime \<Rightarrow> string \<Rightarrow> wasm_error + wasm_mem \<times> 'g" where
  "InstantiateModule start r mid =
     (case map_of (rt_modules r) mid of
        None \<Rightarrow> Err (ModuleNotFound mid)
      | Some compiled \<Rightarrow> (case start compiled of Inl e \<Rightarrow> Err (Instantiate e) | Inr i \<Rightarrow> Ok i))"

definition wasm_file :: "string \<Rightarrow> string \<Rightarrow> string" where
  "wasm_file dir name = path_Join dir (path_Base name @ ''.wasm'')"

definition LoadFromFile ::
  "string \<Rightarrow> (string \<Rightarrow> string option) \<Rightarrow> (string \<Rightarrow> string + string) \<Rightarrow> (string \<Rightarrow> string + 'm) \<Rightarrow> string \<Rightarrow> 'm wasm_runtime \<Rightarrow>
     'm wasm_runtime \<times> (wasm_error + unit)" where
  "LoadFromFile pluginDir stat readFile compile name r =
     (case stat (wasm_file pluginDir name) of
        Some e \<Rightarrow> (r, Err (FileNotFound e))
      | None \<Rightarrow> LoadModule readFile compile name (wasm_file pluginDir name) r)"

text \<open>The entries of the directory with whether they are directories.\<close>

definition ListAvailableStrategies :: "string + (string \<times> bool) list \<Rightarrow> wasm_error + string list" where
  "ListAvailableStrategies readDir =
     (case readDir of
        Inl e \<Rightarrow> Err (ReadDir e)
      | Inr entries \<Rightarrow>
          Ok (map (\<lambda>x. take (length (fst x) - 5) (fst x)) (filter (\<lambda>x. \<not> snd x \<and> path_Ext (fst x) = ''.wasm'') entries)))"

definition ValidateWasmBinary :: "(string \<Rightarrow> string + 'm) \<Rightarrow> string \<Rightarrow> wasm_error + unit" where
  "ValidateWasmBinary compile binary = (case compile binary of Inl e \<Rightarrow> Err (InvalidBinary e) | Inr _ \<Rightarrow> Ok ())"

text \<open>
  Files by their path, with the faults of the calls. A copy reads the source after the destination was created, and a
  failing one leaves what it has written; two paths name the same file only if they are equal.
\<close>

type_synonym wasm_files = "string \<rightharpoonup> string"

record copy_faults =
  cf_read :: "string option"
  cf_open :: "string option"
  cf_create :: "string option"
  cf_copy :: "(nat \<times> string) option"

definition read_wasm :: "string option \<Rightarrow> string \<Rightarrow> wasm_files \<Rightarrow> string + string" where
  "read_wasm fault path fs =
     (case fault of Some e \<Rightarrow> Err e
      | None \<Rightarrow> (case fs path of None \<Rightarrow> Err ''no such file or directory'' | Some content \<Rightarrow> Ok content))"

definition ValidateWasmFile :: "string option \<Rightarrow> (string \<Rightarrow> string + 'm) \<Rightarrow> string \<Rightarrow> wasm_files \<Rightarrow> wasm_error + unit" where
  "ValidateWasmFile fault compile path fs =
     (case read_wasm fault path fs of Inl e \<Rightarrow> Err (ReadFile e) | Inr binary \<Rightarrow> ValidateWasmBinary compile binary)"

definition CopyWasmFile ::
  "copy_faults \<Rightarrow> (string \<Rightarrow> string + 'm) \<Rightarrow> string \<Rightarrow> string \<Rightarrow> string \<Rightarrow> wasm_files \<Rightarrow> wasm_files \<times> (wasm_error + unit)" where
  "CopyWasmFile F compile src destDir name fs =
     (case ValidateWasmFile (cf_read F) compile src fs of Inl e \<Rightarrow> (fs, Err e) | Inr _ \<Rightarrow>
      case read_wasm (cf_open F) src fs of Inl e \<Rightarrow> (fs, Err (OpenSource e)) | Inr _ \<Rightarrow>
      (let dest = wasm_file destDir name in
       case cf_create F of Some e \<Rightarrow> (fs, Err (CreateDest e)) | None \<Rightarrow>
       (let created = fs(dest \<mapsto> []); content = (case created src of None \<Rightarrow> [] | Some c \<Rightarrow> c) in
        case cf_copy F of
          Some (n, e) \<Rightarrow> (created(dest \<mapsto> take n content), Err (CopyFile e))
        | None \<Rightarrow> (created(dest \<mapsto> content), Ok ()))))"

text \<open>A copy that succeeds installs the validated module, and changes no other file, unless the source is the
  installed module itself: then creating the destination has emptied it.\<close>

lemma copied_module:
  assumes "CopyWasmFile F compile src destDir name fs = (fs', Ok ())"
  shows "ValidateWasmFile None compile src fs = Ok ()"
    and "fs' = fs(wasm_file destDir name \<mapsto> if src = wasm_file destDir name then [] else the (fs src))"
  using assms
  by (auto simp: CopyWasmFile_def ValidateWasmFile_def read_wasm_def Let_def split: option.splits sum.splits if_splits prod.splits)

theorem copying_a_module_onto_itself_empties_it:
  assumes "fs src = Some binary" "compile binary = Inr m" "src = wasm_file destDir name"
  shows "CopyWasmFile \<lparr>cf_read = None, cf_open = None, cf_create = None, cf_copy = None\<rparr> compile src destDir name fs =
    (fs(src \<mapsto> []), Ok ())"
  using assms by (simp add: CopyWasmFile_def ValidateWasmFile_def ValidateWasmBinary_def read_wasm_def)

text \<open>A copy that fails half way leaves a module that the listing shows.\<close>

theorem torn_copy_stays_installed:
  assumes "fs src = Some binary" "compile binary = Inr m" "src \<noteq> wasm_file destDir name"
  shows "CopyWasmFile \<lparr>cf_read = None, cf_open = None, cf_create = None, cf_copy = Some (n, e)\<rparr> compile src destDir name fs =
    (fs(wasm_file destDir name \<mapsto> take n binary), Err (CopyFile e))"
  using assms by (simp add: CopyWasmFile_def ValidateWasmFile_def ValidateWasmBinary_def read_wasm_def)

subsection \<open>The executor\<close>

text \<open>The loaded strategies by name; the module that is instantiated answers with its memory and state.\<close>

record 'g executor =
  ex_strategies :: "(string \<times> 'g wasm) list"

definition LoadStrategy ::
  "(string \<Rightarrow> wasm_error + wasm_mem \<times> 'g) \<Rightarrow> string \<Rightarrow> 'g executor \<Rightarrow> 'g executor \<times> (wasm_error + 'g wasm)" where
  "LoadStrategy instantiate sid se =
     (if map_of (ex_strategies se) sid \<noteq> None then (se, Err (AlreadyLoaded sid))
      else case instantiate sid of
        Inl e \<Rightarrow> (se, Err e)
      | Inr (m, g) \<Rightarrow>
          (let ws = NewWasmStrategy m g in (se\<lparr>ex_strategies := AList.update sid ws (ex_strategies se)\<rparr>, Ok ws)))"

definition ListLoadedStrategies :: "'g executor \<Rightarrow> string \<Rightarrow> 'g wasm option" where
  "ListLoadedStrategies se = map_of (ex_strategies se)"

definition GetStrategy :: "string \<Rightarrow> 'g executor \<Rightarrow> wasm_error + 'g wasm" where
  "GetStrategy sid se = (case map_of (ex_strategies se) sid of None \<Rightarrow> Err (NotLoaded sid) | Some ws \<Rightarrow> Ok ws)"

text \<open>A failing close is logged and the strategy is removed all the same.\<close>

definition UnloadStrategy :: "string \<Rightarrow> 'g executor \<Rightarrow> 'g executor \<times> (wasm_error + unit)" where
  "UnloadStrategy sid se =
     (case map_of (ex_strategies se) sid of
        None \<Rightarrow> (se, Err (NotLoaded sid))
      | Some _ \<Rightarrow> (se\<lparr>ex_strategies := AList.delete sid (ex_strategies se)\<rparr>, Ok ()))"

fun unload_loop :: "(string \<Rightarrow> string option) \<Rightarrow> string list \<Rightarrow> wasm_error option \<Rightarrow> 'g executor \<Rightarrow> 'g executor \<times> wasm_error option" where
  "unload_loop close_err [] lastErr se = (se, lastErr)"
| "unload_loop close_err (sid # sids) lastErr se =
     unload_loop close_err sids
       (case close_err sid of Some e \<Rightarrow> Some (CloseInstance e) | None \<Rightarrow> lastErr)
       (se\<lparr>ex_strategies := AList.delete sid (ex_strategies se)\<rparr>)"

definition UnloadAll :: "(string \<Rightarrow> string option) \<Rightarrow> 'g executor \<Rightarrow> 'g executor \<times> wasm_error option" where
  "UnloadAll close_err se = unload_loop close_err (map fst (ex_strategies se)) None se"

subsection \<open>One call at a time\<close>

definition fresh :: "'g wasm \<Rightarrow> bool" where
  "fresh ws \<longleftrightarrow> ws_allocator ws = newMemoryAllocator"

lemma fresh_simps [simp]:
  "fresh (NewWasmStrategy m g)"
  "alloc_reset newMemoryAllocator = newMemoryAllocator"
  by (simp_all add: fresh_def NewWasmStrategy_def alloc_reset_def newMemoryAllocator_def)

lemma allocate_max [simp]: "maxSize (fst (allocate sz ma)) = maxSize ma"
  by (simp add: allocate_def Let_def)

lemma writeToMemory_max: "maxSize (ws_allocator (fst (writeToMemory data ws))) = maxSize (ws_allocator ws)"
proof -
  obtain ma r where a: "allocate (of_nat (length data)) (ws_allocator ws) = (ma, r)" by fastforce
  then have "maxSize ma = maxSize (ws_allocator ws)" using allocate_max by (metis fst_conv)
  then show ?thesis by (auto simp: writeToMemory_def a Let_def split: sum.split option.split)
qed

lemma CallFunction_allocator [simp]: "ws_allocator (fst (CallFunction G f args ws)) = ws_allocator ws"
  by (auto simp: CallFunction_def split: prod.splits sum.splits)

lemma call_with_max: "maxSize (ws_allocator (fst (call_with G f json ws))) = maxSize (ws_allocator ws)"
proof (cases json)
  case (Inl e)
  then show ?thesis by (simp add: call_with_def)
next
  case (Inr data)
  obtain ws1 r where w: "writeToMemory data ws = (ws1, r)" by fastforce
  then have "maxSize (ws_allocator ws1) = maxSize (ws_allocator ws)"
    using writeToMemory_max [of data ws] by simp
  then show ?thesis by (cases r) (simp_all add: call_with_def Inr w)
qed

lemma with_reset_fresh: "maxSize (ws_allocator ws) = 1024 * 1024 \<Longrightarrow> fresh (with_reset ws)"
  by (simp add: fresh_def with_reset_def alloc_reset_def newMemoryAllocator_def)

text \<open>Every call leaves the allocator where it began.\<close>

lemma calls_fresh:
  assumes "fresh ws"
  shows "fresh (fst (wasm_OnTick G decode json ws))" "fresh (fst (wasm_notify G f json ws))"
    "fresh (fst (wasm_GetParameters G dec none ws))" "fresh (fst (wasm_Reset G ws))"
proof -
  have m: "maxSize (ws_allocator ws) = 1024 * 1024" using assms by (simp add: fresh_def newMemoryAllocator_def)
  have c: "fresh (with_reset (fst (call_with G h json ws)))" for h by (rule with_reset_fresh) (simp add: call_with_max m)
  obtain ws1 r where t: "call_with G ''on_tick'' json ws = (ws1, r)" by fastforce
  show "fresh (fst (wasm_OnTick G decode json ws))"
    using c [of "''on_tick''"] by (cases r) (simp_all add: wasm_OnTick_def t)
  obtain ws2 r2 where n: "call_with G f json ws = (ws2, r2)" by fastforce
  show "fresh (fst (wasm_notify G f json ws))"
    using c [of f] by (cases r2) (simp_all add: wasm_notify_def n)
  obtain ws3 r3 where p: "CallFunction G ''get_parameters'' [] ws = (ws3, r3)" by fastforce
  then have "ws_allocator ws3 = newMemoryAllocator"
    using CallFunction_allocator [of G "''get_parameters''" "[]" ws] assms by (simp add: fresh_def)
  then show "fresh (fst (wasm_GetParameters G dec none ws))"
    by (cases r3) (simp_all add: wasm_GetParameters_def p fresh_def)
  obtain ws4 r4 where q: "CallFunction G ''reset'' [] ws = (ws4, r4)" by fastforce
  then have "ws_allocator ws4 = newMemoryAllocator"
    using CallFunction_allocator [of G "''reset''" "[]" ws] assms by (simp add: fresh_def)
  then show "fresh (fst (wasm_Reset G ws))"
    by (cases r4) (simp_all add: wasm_Reset_def q fresh_def)
qed

text \<open>The pages to grow by are just enough; nothing wraps below 2 GiB.\<close>

lemma pages_needed:
  assumes "need < 2 ^ 31" "pages * 65536 < need"
  shows "unat ((of_nat need - of_nat (pages * 65536) + 65535) div 65536 :: 32 word) = (need - pages * 65536 + 65535) div 65536"
    and "need \<le> (pages + (need - pages * 65536 + 65535) div 65536) * 65536"
proof -
  have "(of_nat need - of_nat (pages * 65536) + 65535 :: 32 word) = of_nat (need - pages * 65536 + 65535)"
    using assms(2) by (simp add: of_nat_diff)
  moreover have "unat (of_nat (need - pages * 65536 + 65535) :: 32 word) = need - pages * 65536 + 65535"
    using assms(1) by (intro unat_w32) simp
  ultimately show "unat ((of_nat need - of_nat (pages * 65536) + 65535) div 65536 :: 32 word) = (need - pages * 65536 + 65535) div 65536"
    by (simp add: unat_div)
  show "need \<le> (pages + (need - pages * 65536 + 65535) div 65536) * 65536"
  proof -
    define k where "k = need - pages * 65536"
    have "k \<le> (k + 65535) div 65536 * 65536" by linarith
    then show ?thesis using assms(2) by (simp add: k_def [symmetric] add_mult_distrib) (simp add: k_def)
  qed
qed

text \<open>With a fresh allocator a text of up to 1 MiB ends up at 64 KiB, whole, and nothing else changes.\<close>

lemma fresh_allocate:
  assumes "sz \<le> 1024 * 1024"
  shows "\<exists>ma. allocate (of_nat sz) newMemoryAllocator = (ma, Ok 65536)"
proof -
  have "unat (of_nat sz :: 32 word) = sz" using assms by (intro unat_w32) simp
  then have "\<not> (of_nat sz :: 32 word) > 1048576" using assms by (simp add: word_less_nat_alt)
  then show ?thesis by (simp add: allocate_def newMemoryAllocator_def Let_def)
qed

lemma fresh_write:
  assumes "fresh ws" "length data \<le> 1024 * 1024" "mem_pages (ws_memory ws) < 65536"
    and "mem_pages (ws_memory ws) \<le> mem_max (ws_memory ws)" "17 \<le> mem_max (ws_memory ws)"
  shows "\<exists>ws'. writeToMemory data ws = (ws', Ok 65536) \<and> ws_guest ws' = ws_guest ws \<and>
     mem_Read 65536 (of_nat (length data)) (ws_memory ws') = Some data \<and>
     (\<forall>i. i < 65536 \<or> 65536 + length data \<le> i \<longrightarrow> mem_byte (ws_memory ws') i = mem_byte (ws_memory ws) i) \<and>
     mem_pages (ws_memory ws) \<le> mem_pages (ws_memory ws') \<and> mem_pages (ws_memory ws') \<le> mem_max (ws_memory ws)"
proof -
  define m need where "m = ws_memory ws" and "need = 65536 + length data"
  obtain ma where al: "allocate (of_nat (length data)) (ws_allocator ws) = (ma, Ok 65536)"
    using fresh_allocate assms(1,2) by (metis fresh_def)
  have n31: "need < 2 ^ 31" "need \<le> 17 * 65536" using assms(2) by (simp_all add: need_def)
  have req: "65536 + of_nat (length data) = (of_nat need :: 32 word)" by (simp add: need_def)
  have un: "unat (of_nat need :: 32 word) = need" using n31 by (intro unat_w32) simp
  have us: "unat (mem_Size m) = mem_pages m * 65536"
    unfolding mem_Size_def using assms(3) by (intro unat_w32) (simp add: m_def)
  have u: "unat (65536 :: 32 word) = 65536" by simp
  have gt: "mem_Size m < of_nat need \<longleftrightarrow> mem_pages m * 65536 < need"
    by (simp only: word_less_nat_alt un us)
  note a = assms(4,5) [folded m_def]
  obtain m1 where g: "(if 65536 + of_nat (length data) > mem_Size m
        then mem_Grow ((65536 + of_nat (length data) - mem_Size m + 65535) div 65536) m else Some m) = Some m1"
    and m1: "mem_byte m1 = mem_byte m" "mem_pages m \<le> mem_pages m1" "mem_pages m1 \<le> mem_max m" "need \<le> mem_pages m1 * 65536"
  proof (cases "mem_pages m * 65536 < need")
    case True
    define d where "d = (need - mem_pages m * 65536 + 65535) div 65536"
    have pn: "unat ((of_nat need - mem_Size m + 65535) div 65536) = d" "need \<le> (mem_pages m + d) * 65536"
      using pages_needed [OF n31(1) True] by (simp_all add: mem_Size_def d_def)
    have "mem_pages m + d \<le> 17" using True n31(2) by (simp add: d_def)
    then have "mem_Grow ((of_nat need - mem_Size m + 65535) div 65536) m = Some (m\<lparr>mem_pages := mem_pages m + d\<rparr>)"
      using assms(5) by (simp only: mem_Grow_def pn(1)) (simp add: m_def)
    then show ?thesis
      using True \<open>mem_pages m + d \<le> 17\<close> pn(2) a(2)
      by (intro that [of "m\<lparr>mem_pages := mem_pages m + d\<rparr>"]) (simp_all add: gt req)
  next
    case False
    then show ?thesis using a by (intro that [of m]) (simp_all add: gt req)
  qed
  obtain m2 where w: "mem_Write 65536 data m1 = Some m2"
    and m2: "m2 = m1\<lparr>mem_byte := (\<lambda>i. if 65536 \<le> i \<and> i < 65536 + length data then data ! (i - 65536) else mem_byte m1 i)\<rparr>"
    using m1(4) unfolding mem_Write_def u by (simp add: need_def)
  have "mem_Read 65536 (of_nat (length data)) m2 = Some data"
    using mem_Read_written [OF w] assms(2) by simp
  then show ?thesis
    using w m1 by (simp add: writeToMemory_def al Let_def g [unfolded m_def] m2) (simp add: m_def)
qed

text \<open>
  \<open>with_room\<close>: a text of up to 1 MiB fits the limits of the memory, which is below 4 GiB.
\<close>

definition with_room :: "'g wasm \<Rightarrow> string \<Rightarrow> bool" where
  "with_room ws data \<longleftrightarrow>
     length data \<le> 1024 * 1024 \<and> mem_pages (ws_memory ws) < 65536 \<and>
     mem_pages (ws_memory ws) \<le> mem_max (ws_memory ws) \<and> 17 \<le> mem_max (ws_memory ws)"

definition handed_over :: "string \<Rightarrow> wasm_mem \<Rightarrow> wasm_mem \<Rightarrow> bool" where
  "handed_over data m m' \<longleftrightarrow>
     mem_Read 65536 (of_nat (length data)) m' = Some data \<and>
     (\<forall>i. i < 65536 \<or> 65536 + length data \<le> i \<longrightarrow> mem_byte m' i = mem_byte m i) \<and> mem_pages m \<le> mem_pages m'"

lemma call_with_data:
  assumes "fresh ws" "with_room ws data" "gu_exported G f"
  shows "\<exists>m'. handed_over data (ws_memory ws) m' \<and>
     (let r = gu_call G f [65536, of_nat (length data)] (m', ws_guest ws)
      in maxSize (ws_allocator (fst (call_with G f (Inr data) ws))) = 1024 * 1024 \<and>
         ws_memory (fst (call_with G f (Inr data) ws)) = fst (fst r) \<and>
         ws_guest (fst (call_with G f (Inr data) ws)) = snd (fst r) \<and>
         snd (call_with G f (Inr data) ws) = (case snd r of Inl e \<Rightarrow> Err (CallFailed e) | Inr rs \<Rightarrow> Ok rs))"
proof -
  obtain ws' where w: "writeToMemory data ws = (ws', Ok 65536)" "ws_guest ws' = ws_guest ws"
    "handed_over data (ws_memory ws) (ws_memory ws')"
    using fresh_write [OF assms(1)] assms(2) by (auto simp: with_room_def handed_over_def)
  have mx: "maxSize (ws_allocator (fst (call_with G f (Inr data) ws))) = 1024 * 1024"
    using assms(1) by (simp add: call_with_max fresh_def newMemoryAllocator_def)
  obtain m2 g2 r2 where r: "gu_call G f [65536, of_nat (length data)] (ws_memory ws', ws_guest ws) = ((m2, g2), r2)"
    by (metis prod.exhaust)
  show ?thesis
    using w(3) mx assms(3)
    by (intro exI [of _ "ws_memory ws'"]) (cases r2; simp add: call_with_def w(1,2) CallFunction_def r)
qed

text \<open>C26: the data of a call arrives. With the allocator as every call leaves it and room in the memory, an exported
  notification (an order filled or cancelled, new parameters) is called once, with the place 65536 and the length of
  the data, on a memory that holds exactly the data there and is unchanged elsewhere; the memory and the guest state
  afterwards are the guest's, its error is the error of the call, and the allocator is again as it was.
\<close>

theorem guest_receives_the_data:
  assumes "fresh ws" "with_room ws data" "gu_exported G f"
  shows "\<exists>m'. handed_over data (ws_memory ws) m' \<and>
     (let r = gu_call G f [65536, of_nat (length data)] (m', ws_guest ws)
      in wasm_notify G f (Inr data) ws =
           (\<lparr>ws_memory = fst (fst r), ws_allocator = newMemoryAllocator, ws_guest = snd (fst r)\<rparr>,
            case snd r of Inl e \<Rightarrow> Err (CallFailed e) | Inr _ \<Rightarrow> Ok ()))"
proof -
  obtain m' where m: "handed_over data (ws_memory ws) m'"
    and c: "let r = gu_call G f [65536, of_nat (length data)] (m', ws_guest ws)
      in maxSize (ws_allocator (fst (call_with G f (Inr data) ws))) = 1024 * 1024 \<and>
         ws_memory (fst (call_with G f (Inr data) ws)) = fst (fst r) \<and>
         ws_guest (fst (call_with G f (Inr data) ws)) = snd (fst r) \<and>
         snd (call_with G f (Inr data) ws) = (case snd r of Inl e \<Rightarrow> Err (CallFailed e) | Inr rs \<Rightarrow> Ok rs)"
    using call_with_data [OF assms] by blast
  obtain ws1 a where k: "call_with G f (Inr data) ws = (ws1, a)" by fastforce
  obtain s2 r2 where g: "gu_call G f [65536, of_nat (length data)] (m', ws_guest ws) = (s2, r2)" by fastforce
  have "with_reset ws1 = \<lparr>ws_memory = fst s2, ws_allocator = newMemoryAllocator, ws_guest = snd s2\<rparr>"
    using c by (simp add: k g Let_def with_reset_def alloc_reset_def newMemoryAllocator_def)
  moreover have "a = (case r2 of Inl e \<Rightarrow> Err (CallFailed e) | Inr rs \<Rightarrow> Ok rs)" using c by (simp add: k g Let_def)
  ultimately show ?thesis
    using m by (intro exI [of _ m'] conjI) (cases r2; simp add: wasm_notify_def k g)+
qed

definition echo_guest :: "nat guest" where
  "echo_guest = \<lparr>gu_exported = (\<lambda>f. f = ''on_order_filled'' \<or> f = ''on_tick''),
     gu_call = (\<lambda>f args (m, g). ((m, g + length args), Inr [0]))\<rparr>"

definition small_wasm :: "nat wasm" where
  "small_wasm = NewWasmStrategy \<lparr>mem_byte = (\<lambda>_. CHR ''x''), mem_pages = 1, mem_max = 32\<rparr> 0"

lemma guest_receives_the_data_witness:
  "\<exists>m'. handed_over ''{}'' (ws_memory small_wasm) m' \<and>
     (let r = gu_call echo_guest ''on_order_filled'' [65536, of_nat (length ''{}'')] (m', ws_guest small_wasm)
      in wasm_notify echo_guest ''on_order_filled'' (Inr ''{}'') small_wasm =
           (\<lparr>ws_memory = fst (fst r), ws_allocator = newMemoryAllocator, ws_guest = snd (fst r)\<rparr>,
            case snd r of Inl e \<Rightarrow> Err (CallFailed e) | Inr _ \<Rightarrow> Ok ()))"
  by (rule guest_receives_the_data) (simp_all add: small_wasm_def with_room_def echo_guest_def NewWasmStrategy_def fresh_def)

text \<open>A guest whose tick returns one word crashes the agent: the result is indexed at 1 after a check for none only.\<close>

theorem one_result_panics:
  assumes "fresh ws" "with_room ws data" "gu_exported G ''on_tick''"
    and "\<And>args s. \<exists>s' p. gu_call G ''on_tick'' args s = (s', Inr [p])"
  shows "snd (wasm_OnTick G decode (Inr data) ws) = Panic"
proof -
  obtain m' where c: "let r = gu_call G ''on_tick'' [65536, of_nat (length data)] (m', ws_guest ws)
      in snd (call_with G ''on_tick'' (Inr data) ws) = (case snd r of Inl e \<Rightarrow> Err (CallFailed e) | Inr rs \<Rightarrow> Ok rs)"
    using call_with_data [OF assms(1-3)] by (auto simp: Let_def)
  obtain s' p where "gu_call G ''on_tick'' [65536, of_nat (length data)] (m', ws_guest ws) = (s', Inr [p])"
    using assms(4) by blast
  then have "snd (call_with G ''on_tick'' (Inr data) ws) = Ok [p]" using c by simp
  then show ?thesis by (cases "call_with G ''on_tick'' (Inr data) ws") (simp add: wasm_OnTick_def)
qed

lemma one_result_panics_witness: "snd (wasm_OnTick echo_guest (\<lambda>s. Inr s) (Inr ''{}'') small_wasm) = Panic"
  by (rule one_result_panics) (auto simp: small_wasm_def with_room_def echo_guest_def NewWasmStrategy_def fresh_def)

subsection \<open>Loading and unloading\<close>

lemma unload_loop_filters:
  "ex_strategies (fst (unload_loop close_err sids e se)) = filter (\<lambda>x. fst x \<notin> set sids) (ex_strategies se)"
proof (induction sids arbitrary: e se)
  case (Cons sid sids)
  have "filter (\<lambda>x. fst x \<notin> set sids) (AList.delete sid al) = filter (\<lambda>x. fst x \<notin> set (sid # sids)) al"
    for al :: "(string \<times> 'a wasm) list" by (induction al) (auto simp: AList.delete_eq)
  then show ?case by (simp add: Cons.IH)
qed simp

text \<open>Unloading everything leaves nothing loaded, whatever the closing of the instances answers.\<close>

theorem unload_all_empties: "ex_strategies (fst (UnloadAll close_err se)) = []"
  by (auto simp: UnloadAll_def unload_loop_filters filter_empty_conv)

text \<open>Loading and copying stay inside the directory of the plugins, whatever the name of the strategy.\<close>

lemma path_Base_no_slash: "CHR ''/'' \<notin> set (dropWhile (\<lambda>c. c = CHR ''/'') (path_Base p @ ''.wasm''))"
  by (auto simp: path_Base_def Let_def dest!: set_takeWhileD set_dropWhileD)

theorem strategy_files_stay_inside: "\<exists>n. wasm_file dir name = dir @ CHR ''/'' # n \<and> CHR ''/'' \<notin> set n"
  using path_Base_no_slash by (auto simp: wasm_file_def path_Join_def)

text \<open>A strategy that is listed is loaded from the file that was listed, unless its name is empty.\<close>

lemma Base_of_entry:
  assumes "CHR ''/'' \<notin> set n" "n \<noteq> []"
  shows "path_Base n = n"
proof -
  have "dropWhile (\<lambda>c. c = CHR ''/'') (rev n) = rev n"
    using assms by (cases n rule: rev_cases) auto
  moreover have "takeWhile (\<lambda>c. c \<noteq> CHR ''/'') (rev n) = rev n" using assms(1) by (auto simp: takeWhile_eq_all_conv)
  ultimately show ?thesis using assms(2) unfolding path_Base_def Let_def by (simp only: rev_rev_ident) simp
qed

lemma Ext_wasm:
  assumes "path_Ext n = ''.wasm''"
  shows "n = take (length n - 5) n @ ''.wasm''"
proof -
  have d: "CHR ''.'' \<in> set (rev n)" and w: "rev (takeWhile (\<lambda>c. c \<noteq> CHR ''.'') (rev n)) = ''wasm''"
    using assms by (auto simp: path_Ext_def split: if_splits)
  have t: "takeWhile (\<lambda>c. c \<noteq> CHR ''.'') (rev n) = rev ''wasm''" using w by (metis rev_rev_ident)
  have "dropWhile (\<lambda>c. c \<noteq> CHR ''.'') (rev n) \<noteq> []" using d by (simp add: dropWhile_eq_Nil_conv)
  then obtain r where r: "dropWhile (\<lambda>c. c \<noteq> CHR ''.'') (rev n) = CHR ''.'' # r"
    using hd_dropWhile [of "\<lambda>c. c \<noteq> CHR ''.''" "rev n"] by (metis list.collapse)
  have "rev n = rev ''wasm'' @ CHR ''.'' # r"
    using takeWhile_dropWhile_id [of "\<lambda>c. c \<noteq> CHR ''.''" "rev n"] t r by simp
  then have "n = rev r @ ''.wasm''" by (simp add: rev_swap)
  then show ?thesis by simp
qed

theorem listed_strategies_are_found:
  assumes "ListAvailableStrategies (Inr entries) = Inr names" "name \<in> set names" "name \<noteq> []"
    and "\<And>x. x \<in> set entries \<Longrightarrow> CHR ''/'' \<notin> set (fst x)"
  shows "\<exists>x\<in>set entries. wasm_file dir name = dir @ CHR ''/'' # fst x"
proof -
  obtain x where x: "x \<in> set entries" "path_Ext (fst x) = ''.wasm''" "name = take (length (fst x) - 5) (fst x)"
    using assms(1,2) by (auto simp: ListAvailableStrategies_def)
  have e: "fst x = name @ ''.wasm''" using Ext_wasm [OF x(2)] x(3) by simp
  then have n: "CHR ''/'' \<notin> set name" using assms(4) [OF x(1)] by simp
  have "dropWhile (\<lambda>c. c = CHR ''/'') (name @ ''.wasm'') = name @ ''.wasm''" using n assms(3) by (cases name) auto
  then show ?thesis using x(1) e Base_of_entry [OF n assms(3)] by (auto simp: wasm_file_def path_Join_def intro!: bexI [of _ x])
qed

lemma listed_strategies_are_found_witness:
  "\<exists>x\<in>set [(''grid.wasm'', False), (''notes.txt'', False)]. wasm_file ''plugins'' ''grid'' = ''plugins'' @ CHR ''/'' # fst x"
  by (rule listed_strategies_are_found [where names = "[''grid'']"]) (auto simp: ListAvailableStrategies_def path_Ext_def)

end
