(* ===== verification/Strategy_Repo.thy ===== *)
theory Strategy_Repo
  imports Sql_Table
begin

text \<open>
  The SQLite strategy repository, \<open>strategy_repository.go\<close>, on the table \<open>strategies\<close> with primary key \<open>id\<close>; and
  the reading of a table as a finite map, which this repository and the ones of \<open>Market_Repo\<close> are proved against.
\<close>

subsection \<open>A table as a map\<close>

text \<open>What a lookup by key reads: the first row of the key, if it parses.\<close>

definition table_map :: "('r \<Rightarrow> 'k) \<Rightarrow> ('r \<Rightarrow> 'e + 'o) \<Rightarrow> 'r list \<Rightarrow> 'k \<Rightarrow> 'o option" where
  "table_map key scan rows k =
     (case row_of key rows k of None \<Rightarrow> None | Some r \<Rightarrow> (case scan r of Inl e \<Rightarrow> None | Inr x \<Rightarrow> Some x))"

lemma table_map_Nil [simp]: "table_map key scan [] = Map.empty"
  by (simp add: table_map_def fun_eq_iff)

lemma table_map_append:
  assumes "row_of key rows (key r) = None" "scan r = Inr x"
  shows "table_map key scan (rows @ [r]) = (table_map key scan rows)(key r \<mapsto> x)"
  using assms by (auto simp: table_map_def row_of_append fun_eq_iff split: option.splits)

lemma row_of_at_key:
  assumes "\<And>r. key (f r) = key r"
  shows "row_of key (map (\<lambda>r. if key r = k then f r else r) rows) j =
    (if j = k then map_option f (row_of key rows j) else row_of key rows j)"
  using assms by (induction rows) auto

lemma table_map_update:
  assumes "\<And>r. key (f r) = key r" "row_of key rows k = Some r" "scan (f r) = Inr x"
  shows "table_map key scan (map (\<lambda>r. if key r = k then f r else r) rows) = (table_map key scan rows)(k \<mapsto> x)"
  using assms(2,3) by (auto simp: table_map_def row_of_at_key [of key f, OF assms(1)] fun_eq_iff)

lemma row_of_filter_key: "row_of key (filter (\<lambda>r. key r \<noteq> k) rows) j = (if j = k then None else row_of key rows j)"
  by (induction rows) auto

lemma table_map_delete: "table_map key scan (filter (\<lambda>r. key r \<noteq> k) rows) = (table_map key scan rows)(k := None)"
  by (auto simp: table_map_def row_of_filter_key fun_eq_iff)

text \<open>Every row parses, and the keys are distinct: the invariant of a table that only the repository writes.\<close>

definition table_ok :: "('r \<Rightarrow> 'k) \<Rightarrow> ('r \<Rightarrow> 'e + 'o) \<Rightarrow> 'r list \<Rightarrow> bool" where
  "table_ok key scan rows \<longleftrightarrow> distinct (map key rows) \<and> (\<forall>r \<in> set rows. \<exists>x. scan r = Inr x)"

lemma table_ok_Nil [simp]: "table_ok key scan []"
  by (simp add: table_ok_def)

lemma table_ok_append: "table_ok key scan rows \<Longrightarrow> row_of key rows (key r) = None \<Longrightarrow> scan r = Inr x \<Longrightarrow> table_ok key scan (rows @ [r])"
  by (auto simp: table_ok_def row_of_None_iff)

lemma table_ok_update:
  assumes "table_ok key scan rows" "\<And>r. key (f r) = key r" "\<And>r x. scan r = Inr x \<Longrightarrow> \<exists>y. scan (f r) = Inr y"
  shows "table_ok key scan (map (\<lambda>r. if key r = k then f r else r) rows)"
proof -
  have "map key (map (\<lambda>r. if key r = k then f r else r) rows) = map key rows" using assms(2) by simp
  then show ?thesis using assms(1,3) by (auto simp: table_ok_def simp del: map_map)
qed

lemma table_ok_filter: "table_ok key scan rows \<Longrightarrow> table_ok key scan (filter P rows)"
  by (auto simp: table_ok_def distinct_map_filter)

text \<open>In such a table a listing finds every entity whose row satisfies the condition, and nothing else.\<close>

lemma table_listing:
  assumes "table_ok key scan rows" "set sel = set (filter P rows)"
    and "\<And>r x. scan r = Inr x \<Longrightarrow> P r = Q x \<and> key r = okey x"
  shows "\<exists>xs. scan_all scan sel = Ok xs \<and> (\<forall>x. x \<in> set xs \<longleftrightarrow> table_map key scan rows (okey x) = Some x \<and> Q x)"
proof -
  have all: "\<forall>r \<in> set sel. \<exists>x. scan r = Inr x" using assms(1,2) by (auto simp: table_ok_def)
  define g where "g r = (case scan r of Inl e \<Rightarrow> undefined | Inr x \<Rightarrow> x)" for r
  have s: "scan_all scan sel = Ok (map g sel)" using all by (intro scan_all_total) (auto simp: g_def)
  have "x \<in> set (map g sel) \<longleftrightarrow> table_map key scan rows (okey x) = Some x \<and> Q x" for x
  proof
    assume "x \<in> set (map g sel)"
    then obtain r where r: "r \<in> set rows" "P r" "scan r = Inr x" using all assms(2) by (auto simp: g_def)
    have "row_of key rows (key r) = Some r" using assms(1) r(1) by (intro row_of_distinct) (simp_all add: table_ok_def)
    then show "table_map key scan rows (okey x) = Some x \<and> Q x" using assms(3) [OF r(3)] r by (simp add: table_map_def)
  next
    assume x: "table_map key scan rows (okey x) = Some x \<and> Q x"
    then obtain r where r: "row_of key rows (okey x) = Some r" "scan r = Inr x"
      by (auto simp: table_map_def split: option.splits sum.splits)
    then have "r \<in> set sel" using assms(2) assms(3) [OF r(2)] x row_of_Some_set [OF r(1)] by auto
    then show "x \<in> set (map g sel)" using r(2) by (force simp: g_def)
  qed
  then show ?thesis using s by blast
qed

subsection \<open>The table of strategies\<close>

record strategy_row =
  t_id :: string
  t_name :: string
  t_type :: strategy_type
  t_status :: strategy_status
  t_symbol :: string
  t_max_position_size :: string
  t_max_daily_loss :: string
  t_current_pnl :: string
  t_daily_pnl :: string
  t_total_trades :: int
  t_winning_trades :: int
  t_losing_trades :: int
  t_created_at :: string
  t_updated_at :: string
  t_started_at :: "string option"
  t_stopped_at :: "string option"

type_synonym strategy_table = "strategy_row list"

definition strategy_to_row :: "'d sql_env \<Rightarrow> 'd strategy \<Rightarrow> strategy_row" where
  "strategy_to_row E st =
     \<lparr>t_id = st_ID st, t_name = st_Name st, t_type = st_Type st, t_status = st_Status st, t_symbol = st_Symbol st,
      t_max_position_size = dec_text E (st_MaxPositionSize st), t_max_daily_loss = dec_text E (st_MaxDailyLoss st),
      t_current_pnl = dec_text E (st_CurrentPnL st), t_daily_pnl = dec_text E (st_DailyPnL st),
      t_total_trades = st_TotalTrades st, t_winning_trades = st_WinningTrades st, t_losing_trades = st_LosingTrades st,
      t_created_at = time_text E (st_CreatedAtUTC st), t_updated_at = time_text E (st_UpdatedAtUTC st),
      t_started_at = nullTime E (st_StartedAtUTC st), t_stopped_at = nullTime E (st_StoppedAtUTC st)\<rparr>"

definition strategy_Create ::
  "'d sql_env \<times> string option \<Rightarrow> 'd strategy \<Rightarrow> strategy_table \<Rightarrow> strategy_table \<times> (store_error + unit)" where
  "strategy_Create ef st rows =
     (case ef of (E, fault) \<Rightarrow>
       let failed = (\<lambda>msg. (rows, Err (if isConstraintError msg then SqliteErrDuplicateKey
                                        else DbError (''create strategy: '' @ msg))))
       in case fault of
            Some msg \<Rightarrow> failed msg
          | None \<Rightarrow> if \<exists>r \<in> set rows. t_id r = st_ID st then failed (unique_msg E)
                    else (rows @ [strategy_to_row E st], Ok ()))"

text \<open>The columns that \<open>UPDATE strategies SET\<close> writes: all but the key and the time of creation.\<close>

definition strategy_set_columns :: "'d sql_env \<times> string option \<Rightarrow> 'd strategy \<Rightarrow> strategy_row \<Rightarrow> strategy_row" where
  "strategy_set_columns ef st r =
     (case ef of (E, fault) \<Rightarrow>
        r\<lparr>t_name := st_Name st, t_type := st_Type st, t_status := st_Status st, t_symbol := st_Symbol st,
          t_max_position_size := dec_text E (st_MaxPositionSize st), t_max_daily_loss := dec_text E (st_MaxDailyLoss st),
          t_current_pnl := dec_text E (st_CurrentPnL st), t_daily_pnl := dec_text E (st_DailyPnL st),
          t_total_trades := st_TotalTrades st, t_winning_trades := st_WinningTrades st, t_losing_trades := st_LosingTrades st,
          t_updated_at := time_text E (st_UpdatedAtUTC st),
          t_started_at := nullTime E (st_StartedAtUTC st), t_stopped_at := nullTime E (st_StoppedAtUTC st)\<rparr>)"

definition strategy_Update ::
  "'d sql_env \<times> string option \<Rightarrow> 'd strategy \<Rightarrow> strategy_table \<Rightarrow> strategy_table \<times> (store_error + unit)" where
  "strategy_Update ef st rows =
     (case snd ef of
        Some msg \<Rightarrow> (rows, Err (DbError (''update strategy: '' @ msg)))
      | None \<Rightarrow>
          if \<exists>r \<in> set rows. t_id r = st_ID st
          then (map (\<lambda>r. if t_id r = st_ID st then strategy_set_columns ef st r else r) rows, Ok ())
          else (rows, Err SqliteErrNotFound))"

definition strategy_Delete ::
  "'d sql_env \<times> string option \<Rightarrow> string \<Rightarrow> strategy_table \<Rightarrow> strategy_table \<times> (store_error + unit)" where
  "strategy_Delete ef sid rows =
     (case snd ef of
        Some msg \<Rightarrow> (rows, Err (DbError (''delete strategy: '' @ msg)))
      | None \<Rightarrow>
          if \<exists>r \<in> set rows. t_id r = sid then (filter (\<lambda>r. t_id r \<noteq> sid) rows, Ok ())
          else (rows, Err SqliteErrNotFound))"

definition scanStrategy :: "'d sql_env \<Rightarrow> strategy_row \<Rightarrow> store_error + 'd strategy" where
  "scanStrategy E r =
     and_then (parseDecimalField E ''strategies.max_position_size'' (t_max_position_size r)) (\<lambda>maxPos.
     and_then (parseDecimalField E ''strategies.max_daily_loss'' (t_max_daily_loss r)) (\<lambda>maxLoss.
     and_then (parseDecimalField E ''strategies.current_pnl'' (t_current_pnl r)) (\<lambda>currentPnL.
     and_then (parseDecimalField E ''strategies.daily_pnl'' (t_daily_pnl r)) (\<lambda>dailyPnL.
     and_then (parseTimeField E ''strategies.created_at_utc'' (t_created_at r)) (\<lambda>createdAt.
     and_then (parseTimeField E ''strategies.updated_at_utc'' (t_updated_at r)) (\<lambda>updatedAt.
     and_then (parseNullTime E ''strategies.started_at_utc'' (t_started_at r)) (\<lambda>startedAt.
     and_then (parseNullTime E ''strategies.stopped_at_utc'' (t_stopped_at r)) (\<lambda>stoppedAt.
     Ok \<lparr>st_ID = t_id r, st_Name = t_name r, st_Type = t_type r, st_Status = t_status r, st_Symbol = t_symbol r,
         st_MaxPositionSize = maxPos, st_MaxDailyLoss = maxLoss, st_CurrentPnL = currentPnL, st_DailyPnL = dailyPnL,
         st_TotalTrades = t_total_trades r, st_WinningTrades = t_winning_trades r, st_LosingTrades = t_losing_trades r,
         st_CreatedAtUTC = createdAt, st_UpdatedAtUTC = updatedAt, st_StartedAtUTC = startedAt,
         st_StoppedAtUTC = stoppedAt\<rparr>))))))))"

definition strategy_GetByID :: "'d sql_env \<times> string option \<Rightarrow> string \<Rightarrow> strategy_table \<Rightarrow> store_error + 'd strategy" where
  "strategy_GetByID ef sid rows =
     (case snd ef of
        Some msg \<Rightarrow> Err (DbError (''get strategy by id: '' @ msg))
      | None \<Rightarrow> (case row_of t_id rows sid of None \<Rightarrow> Err SqliteErrNotFound | Some r \<Rightarrow> scanStrategy (fst ef) r))"

definition query_strategies ::
  "'d sql_env \<times> string option \<Rightarrow> string \<Rightarrow> strategy_table \<Rightarrow> store_error + 'd strategy list" where
  "query_strategies ef context result =
     (case snd ef of
        Some msg \<Rightarrow> Err (DbError (context @ msg))
      | None \<Rightarrow> scan_all (scanStrategy (fst ef)) result)"

definition strategy_List :: "'d sql_env \<times> string option \<Rightarrow> int \<Rightarrow> int \<Rightarrow> strategy_table \<Rightarrow> store_error + 'd strategy list" where
  "strategy_List ef limit offset rows =
     query_strategies ef ''list strategies: '' (page limit offset (order_desc t_created_at rows))"

definition strategy_ListActive :: "'d sql_env \<times> string option \<Rightarrow> strategy_table \<Rightarrow> store_error + 'd strategy list" where
  "strategy_ListActive ef rows =
     query_strategies ef ''list active strategies: ''
       (order_desc t_created_at (filter (\<lambda>r. t_status r = StrategyStatusActive) rows))"

subsection \<open>The repository is a map\<close>

datatype 'd strategy_op =
    SCreate "string option" "'d strategy" | SUpdate "string option" "'d strategy" | SDelete "string option" string

fun strategy_step :: "'d sql_env \<Rightarrow> 'd strategy_op \<Rightarrow> strategy_table \<Rightarrow> strategy_table \<times> (store_error + unit)" where
  "strategy_step E (SCreate f st) rows = strategy_Create (E, f) st rows"
| "strategy_step E (SUpdate f st) rows = strategy_Update (E, f) st rows"
| "strategy_step E (SDelete f sid) rows = strategy_Delete (E, f) sid rows"

definition strategies_run :: "'d sql_env \<Rightarrow> 'd strategy_op list \<Rightarrow> strategy_table \<Rightarrow> strategy_table" where
  "strategies_run E ops rows = fold (\<lambda>x t. fst (strategy_step E x t)) ops rows"

text \<open>The specification: a finite map; a statement that fails changes nothing.\<close>

fun strategy_spec :: "'d strategy_op \<Rightarrow> (string \<rightharpoonup> 'd strategy) \<Rightarrow> (string \<rightharpoonup> 'd strategy)" where
  "strategy_spec (SCreate f st) m = (if f = None \<and> m (st_ID st) = None then m(st_ID st \<mapsto> st) else m)"
| "strategy_spec (SUpdate f st) m =
     (case m (st_ID st) of
        Some old \<Rightarrow> if f = None then m(st_ID st \<mapsto> st\<lparr>st_CreatedAtUTC := st_CreatedAtUTC old\<rparr>) else m
      | None \<Rightarrow> m)"
| "strategy_spec (SDelete f sid) m = (if f = None then m(sid := None) else m)"

abbreviation strategy_map :: "'d sql_env \<Rightarrow> strategy_table \<Rightarrow> string \<Rightarrow> 'd strategy option" where
  "strategy_map E \<equiv> table_map t_id (scanStrategy E)"

abbreviation strategies_ok :: "'d sql_env \<Rightarrow> strategy_table \<Rightarrow> bool" where
  "strategies_ok E \<equiv> table_ok t_id (scanStrategy E)"

lemma strategy_key_simps [simp]:
  "t_id (strategy_to_row E st) = st_ID st" "t_id (strategy_set_columns ef st r) = t_id r"
  by (simp_all add: strategy_to_row_def strategy_set_columns_def split: prod.splits)

lemma scanStrategy_to_row [simp]: "codec_ok E \<Longrightarrow> scanStrategy E (strategy_to_row E st) = Ok st"
  by (simp add: scanStrategy_def strategy_to_row_def)

lemma scanStrategy_set_columns:
  assumes "codec_ok E" "scanStrategy E r = Ok old"
  shows "scanStrategy E (strategy_set_columns (E, f) st r) = Ok (st\<lparr>st_ID := t_id r, st_CreatedAtUTC := st_CreatedAtUTC old\<rparr>)"
  using assms by (auto simp: scanStrategy_def strategy_set_columns_def and_then_Ok)

lemma scanStrategy_Ok: "scanStrategy E r = Ok st \<Longrightarrow> st_ID st = t_id r \<and> st_Status st = t_status r"
  by (auto simp: scanStrategy_def and_then_Ok)

lemma strategies_ok_row:
  assumes "strategies_ok E rows"
  shows "(\<exists>r \<in> set rows. t_id r = k) \<longleftrightarrow> strategy_map E rows k \<noteq> None"
proof -
  have "row_of t_id rows k = Some r \<Longrightarrow> \<exists>x. scanStrategy E r = Inr x" for r
    using assms row_of_Some_set [of t_id rows k r] by (auto simp: table_ok_def)
  then show ?thesis
    using row_of_None_iff [of t_id rows k] by (cases "row_of t_id rows k") (auto simp: table_map_def)
qed

lemma strategy_step_refines:
  assumes "codec_ok E" "strategies_ok E rows"
  shows "strategies_ok E (fst (strategy_step E x rows)) \<and>
    strategy_map E (fst (strategy_step E x rows)) = strategy_spec x (strategy_map E rows)"
proof (cases x)
  case (SCreate f st)
  show ?thesis
  proof (cases "f = None \<and> strategy_map E rows (st_ID st) = None")
    case True
    then have "row_of t_id rows (st_ID st) = None"
      using strategies_ok_row [OF assms(2), of "st_ID st"] row_of_None_iff [of t_id rows "st_ID st"] by auto
    then show ?thesis
      using SCreate True assms table_ok_append [OF assms(2), of "strategy_to_row E st" st]
        table_map_append [of t_id rows "strategy_to_row E st" "scanStrategy E" st] strategies_ok_row [OF assms(2), of "st_ID st"]
      by (auto simp: strategy_Create_def)
  next
    case False
    then show ?thesis using SCreate assms(2) strategies_ok_row [OF assms(2), of "st_ID st"]
      by (auto simp: strategy_Create_def Let_def split: option.splits)
  qed
next
  case (SUpdate f st)
  show ?thesis
  proof (cases "strategy_map E rows (st_ID st)")
    case None
    then show ?thesis using SUpdate assms(2) strategies_ok_row [OF assms(2), of "st_ID st"]
      by (auto simp: strategy_Update_def split: option.splits)
  next
    case (Some old)
    then obtain r where r: "row_of t_id rows (st_ID st) = Some r" "scanStrategy E r = Ok old"
      by (auto simp: table_map_def split: option.splits sum.splits)
    have "strategies_ok E (map (\<lambda>r. if t_id r = st_ID st then strategy_set_columns (E, f) st r else r) rows)"
      using table_ok_update [OF assms(2), of "strategy_set_columns (E, f) st"] scanStrategy_set_columns [OF assms(1)] by fastforce
    moreover have "strategy_map E (map (\<lambda>r. if t_id r = st_ID st then strategy_set_columns (E, f) st r else r) rows) =
        (strategy_map E rows)(st_ID st \<mapsto> st\<lparr>st_CreatedAtUTC := st_CreatedAtUTC old\<rparr>)"
      using scanStrategy_set_columns [OF assms(1) r(2), of f st] row_of_Some_key [OF r(1)]
      by (intro table_map_update [OF _ r(1)]) simp_all
    ultimately show ?thesis using SUpdate Some assms(2) strategies_ok_row [OF assms(2), of "st_ID st"]
      by (auto simp: strategy_Update_def split: option.splits)
  qed
next
  case (SDelete f sid)
  have "(strategy_map E rows)(sid := None) = strategy_map E rows" if "strategy_map E rows sid = None"
    using that by (simp add: fun_upd_idem)
  then show ?thesis using SDelete assms(2) strategies_ok_row [OF assms(2), of sid]
    by (auto simp: strategy_Delete_def table_ok_filter table_map_delete split: option.splits)
qed

lemma strategies_run_refines:
  assumes "codec_ok E" "strategies_ok E rows"
  shows "strategies_ok E (strategies_run E ops rows) \<and>
    strategy_map E (strategies_run E ops rows) = fold strategy_spec ops (strategy_map E rows)"
  using assms(2)
proof (induction ops arbitrary: rows)
  case (Cons x ops)
  then show ?case using strategy_step_refines [OF assms(1) Cons.prems, of x] by (simp add: strategies_run_def)
qed (simp add: strategies_run_def)

text \<open>C34: the strategy repository is a map from ids to strategies. After any history of creations, updates and
  deletions on an empty table, any of which the driver may fail, \<open>GetByID\<close> returns what the map of the same history
  holds, and not found where it holds nothing; \<open>ListActive\<close> returns exactly its active strategies. A failed
  statement changes nothing, and an update never changes the time of creation.\<close>

theorem strategy_repository_is_a_map:
  assumes "codec_ok E" and "m = fold strategy_spec ops Map.empty" and "rows = strategies_run E ops []"
  shows "strategy_GetByID (E, None) sid rows = (case m sid of None \<Rightarrow> Err SqliteErrNotFound | Some st \<Rightarrow> Ok st) \<and>
    (\<exists>sts. strategy_ListActive (E, None) rows = Ok sts \<and>
      (\<forall>st. st \<in> set sts \<longleftrightarrow> m (st_ID st) = Some st \<and> st_Status st = StrategyStatusActive))"
proof -
  have ok: "strategies_ok E rows" and m: "strategy_map E rows = m"
    using strategies_run_refines [OF assms(1), of "[]" ops] assms(2,3) by simp_all
  have "row_of t_id rows sid = Some r \<Longrightarrow> \<exists>x. scanStrategy E r = Inr x" for r
    using ok row_of_Some_set [of t_id rows sid r] by (auto simp: table_ok_def)
  then have "strategy_GetByID (E, None) sid rows = (case strategy_map E rows sid of None \<Rightarrow> Err SqliteErrNotFound | Some st \<Rightarrow> Ok st)"
    by (cases "row_of t_id rows sid") (auto simp: strategy_GetByID_def table_map_def)
  moreover have "\<exists>sts. scan_all (scanStrategy E) (order_desc t_created_at (filter (\<lambda>r. t_status r = StrategyStatusActive) rows)) = Ok sts \<and>
      (\<forall>st. st \<in> set sts \<longleftrightarrow> strategy_map E rows (st_ID st) = Some st \<and> st_Status st = StrategyStatusActive)"
    by (rule table_listing [OF ok]) (auto dest: scanStrategy_Ok)
  ultimately show ?thesis unfolding m by (simp add: strategy_ListActive_def query_strategies_def)
qed

definition sample_strategy :: "int strategy" where
  "sample_strategy = \<lparr>st_ID = ''s1'', st_Name = ''sma'', st_Type = StrategyTypePaper, st_Status = StrategyStatusActive,
     st_Symbol = ''BTC'', st_MaxPositionSize = 5, st_MaxDailyLoss = 3, st_CurrentPnL = 0, st_DailyPnL = 0,
     st_TotalTrades = 0, st_WinningTrades = 0, st_LosingTrades = 0, st_CreatedAtUTC = 1, st_UpdatedAtUTC = 1,
     st_StartedAtUTC = None, st_StoppedAtUTC = None\<rparr>"

definition sample_strategy_ops :: "int strategy_op list" where
  "sample_strategy_ops = [SCreate None sample_strategy, SUpdate None (sample_strategy\<lparr>st_CreatedAtUTC := 7, st_DailyPnL := 2\<rparr>)]"

lemma strategy_repository_is_a_map_witness:
  "strategy_GetByID (sample_env, None) ''s1'' (strategies_run sample_env sample_strategy_ops []) = Ok (sample_strategy\<lparr>st_DailyPnL := 2\<rparr>)"
  using strategy_repository_is_a_map [of sample_env _ sample_strategy_ops _ "''s1''", OF sample_env_ok refl refl]
  by (simp add: sample_strategy_ops_def sample_strategy_def)

end
