(* ===== verification/Market_Repo.thy ===== *)
theory Market_Repo
  imports Strategy_Repo
begin

text \<open>
  The remaining SQLite repositories: symbols (\<open>symbol_repository.go\<close>), balance snapshots
  (\<open>balance_repository.go\<close>) and the schema migrations (\<open>migration_repository.go\<close>).
\<close>

subsection \<open>Symbols\<close>

record symbol_row =
  y_name :: string
  y_base_currency :: string
  y_quote_currency :: string
  y_status :: symbol_status
  y_min_order_qty :: string
  y_max_order_qty :: string
  y_min_price :: string
  y_max_price :: string
  y_tick_size :: string
  y_step_size :: string
  y_min_notional :: string
  y_maker_fee :: string
  y_taker_fee :: string
  y_updated_at :: string

type_synonym symbol_table = "symbol_row list"

definition symbol_to_row :: "'d sql_env \<Rightarrow> 'd symbol \<Rightarrow> symbol_row" where
  "symbol_to_row E s =
     \<lparr>y_name = s_Name s, y_base_currency = s_BaseCurrency s, y_quote_currency = s_QuoteCurrency s, y_status = s_Status s,
      y_min_order_qty = dec_text E (s_MinOrderQty s), y_max_order_qty = dec_text E (s_MaxOrderQty s),
      y_min_price = dec_text E (s_MinPrice s), y_max_price = dec_text E (s_MaxPrice s),
      y_tick_size = dec_text E (s_TickSize s), y_step_size = dec_text E (s_StepSize s),
      y_min_notional = dec_text E (s_MinNotional s), y_maker_fee = dec_text E (s_MakerFee s),
      y_taker_fee = dec_text E (s_TakerFee s), y_updated_at = time_text E (s_UpdatedAtUTC s)\<rparr>"

text \<open>\<open>ON CONFLICT(name) DO UPDATE\<close> sets every column but the name.\<close>

definition symbol_Upsert ::
  "'d sql_env \<times> string option \<Rightarrow> 'd symbol \<Rightarrow> symbol_table \<Rightarrow> symbol_table \<times> (store_error + unit)" where
  "symbol_Upsert ef s rows =
     (case ef of (E, fault) \<Rightarrow>
        (case fault of
           Some msg \<Rightarrow> (rows, Err (DbError (''upsert symbol: '' @ msg)))
         | None \<Rightarrow>
             if \<exists>r \<in> set rows. y_name r = s_Name s
             then (map (\<lambda>r. if y_name r = s_Name s then (symbol_to_row E s)\<lparr>y_name := y_name r\<rparr> else r) rows, Ok ())
             else (rows @ [symbol_to_row E s], Ok ())))"

definition scanSymbol :: "'d sql_env \<Rightarrow> symbol_row \<Rightarrow> store_error + 'd symbol" where
  "scanSymbol E r =
     and_then (parseDecimalField E ''symbols.min_order_qty'' (y_min_order_qty r)) (\<lambda>minQty.
     and_then (parseDecimalField E ''symbols.max_order_qty'' (y_max_order_qty r)) (\<lambda>maxQty.
     and_then (parseDecimalField E ''symbols.min_price'' (y_min_price r)) (\<lambda>minPrice.
     and_then (parseDecimalField E ''symbols.max_price'' (y_max_price r)) (\<lambda>maxPrice.
     and_then (parseDecimalField E ''symbols.tick_size'' (y_tick_size r)) (\<lambda>tick.
     and_then (parseDecimalField E ''symbols.step_size'' (y_step_size r)) (\<lambda>step.
     and_then (parseDecimalField E ''symbols.min_notional'' (y_min_notional r)) (\<lambda>notional.
     and_then (parseDecimalField E ''symbols.maker_fee'' (y_maker_fee r)) (\<lambda>maker.
     and_then (parseDecimalField E ''symbols.taker_fee'' (y_taker_fee r)) (\<lambda>taker.
     and_then (parseTimeField E ''symbols.updated_at_utc'' (y_updated_at r)) (\<lambda>updated.
     Ok \<lparr>s_Name = y_name r, s_BaseCurrency = y_base_currency r, s_QuoteCurrency = y_quote_currency r,
         s_Status = y_status r, s_MinOrderQty = minQty, s_MaxOrderQty = maxQty, s_MinPrice = minPrice,
         s_MaxPrice = maxPrice, s_TickSize = tick, s_StepSize = step, s_MinNotional = notional,
         s_MakerFee = maker, s_TakerFee = taker, s_UpdatedAtUTC = updated\<rparr>))))))))))"

definition symbol_GetByName :: "'d sql_env \<times> string option \<Rightarrow> string \<Rightarrow> symbol_table \<Rightarrow> store_error + 'd symbol" where
  "symbol_GetByName ef name rows =
     (case snd ef of
        Some msg \<Rightarrow> Err (DbError (''get symbol by name: '' @ msg))
      | None \<Rightarrow> (case row_of y_name rows name of None \<Rightarrow> Err SqliteErrNotFound | Some r \<Rightarrow> scanSymbol (fst ef) r))"

definition query_symbols :: "'d sql_env \<times> string option \<Rightarrow> string \<Rightarrow> symbol_table \<Rightarrow> store_error + 'd symbol list" where
  "query_symbols ef context result =
     (case snd ef of
        Some msg \<Rightarrow> Err (DbError (context @ msg))
      | None \<Rightarrow> scan_all (scanSymbol (fst ef)) result)"

definition symbol_List :: "'d sql_env \<times> string option \<Rightarrow> symbol_table \<Rightarrow> store_error + 'd symbol list" where
  "symbol_List ef rows = query_symbols ef ''list symbols: '' (order_asc y_name rows)"

definition symbol_ListByStatus :: "'d sql_env \<times> string option \<Rightarrow> symbol_status \<Rightarrow> symbol_table \<Rightarrow> store_error + 'd symbol list" where
  "symbol_ListByStatus ef status rows =
     query_symbols ef ''list symbols by status: '' (order_asc y_name (filter (\<lambda>r. y_status r = status) rows))"

abbreviation symbol_map :: "'d sql_env \<Rightarrow> symbol_table \<Rightarrow> string \<Rightarrow> 'd symbol option" where
  "symbol_map E \<equiv> table_map y_name (scanSymbol E)"

abbreviation symbols_ok :: "'d sql_env \<Rightarrow> symbol_table \<Rightarrow> bool" where
  "symbols_ok E \<equiv> table_ok y_name (scanSymbol E)"

lemma symbol_key [simp]: "y_name (symbol_to_row E s) = s_Name s"
  by (simp add: symbol_to_row_def)

lemma scanSymbol_to_row [simp]:
  "codec_ok E \<Longrightarrow> scanSymbol E ((symbol_to_row E s)\<lparr>y_name := n\<rparr>) = Ok (s\<lparr>s_Name := n\<rparr>)"
  "codec_ok E \<Longrightarrow> scanSymbol E (symbol_to_row E s) = Ok s"
  by (simp_all add: scanSymbol_def symbol_to_row_def)

lemma scanSymbol_Ok: "scanSymbol E r = Ok s \<Longrightarrow> s_Name s = y_name r \<and> s_Status s = y_status r"
  by (auto simp: scanSymbol_def and_then_Ok)

lemma symbol_Upsert_refines:
  assumes "codec_ok E" "symbols_ok E rows"
  shows "symbols_ok E (fst (symbol_Upsert (E, None) s rows)) \<and>
    symbol_map E (fst (symbol_Upsert (E, None) s rows)) = (symbol_map E rows)(s_Name s \<mapsto> s)"
proof (cases "row_of y_name rows (s_Name s)")
  case None
  then have "\<not> (\<exists>r \<in> set rows. y_name r = s_Name s)" by (metis imageI row_of_None_iff)
  then show ?thesis using None assms table_ok_append [OF assms(2), of "symbol_to_row E s" s]
      table_map_append [of y_name rows "symbol_to_row E s" "scanSymbol E" s]
    by (simp add: symbol_Upsert_def)
next
  case (Some r)
  then have ex: "\<exists>r \<in> set rows. y_name r = s_Name s" using row_of_Some_set row_of_Some_key by metis
  let ?f = "\<lambda>r. (symbol_to_row E s)\<lparr>y_name := y_name r\<rparr>"
  have "symbols_ok E (map (\<lambda>r. if y_name r = s_Name s then ?f r else r) rows)"
    using assms by (intro table_ok_update) simp_all
  moreover have "symbol_map E (map (\<lambda>r. if y_name r = s_Name s then ?f r else r) rows) = (symbol_map E rows)(s_Name s \<mapsto> s)"
    using assms(1) row_of_Some_key [OF Some] by (intro table_map_update [OF _ Some]) simp_all
  ultimately show ?thesis using ex by (simp add: symbol_Upsert_def)
qed

text \<open>A fold of upserts is read back as the last one of every name.\<close>

lemma symbols_run_refines:
  assumes "codec_ok E" "symbols_ok E rows"
  shows "symbols_ok E (fold (\<lambda>s t. fst (symbol_Upsert (E, None) s t)) ss rows) \<and>
    symbol_map E (fold (\<lambda>s t. fst (symbol_Upsert (E, None) s t)) ss rows) = fold (\<lambda>s m. m(s_Name s \<mapsto> s)) ss (symbol_map E rows)"
  using assms(2)
proof (induction ss arbitrary: rows)
  case (Cons s ss)
  then show ?case using symbol_Upsert_refines [OF assms(1) Cons.prems, of s] by simp
qed simp

text \<open>After any upserts on an empty table each name reads as its last upsert, and a listing by status is exact.\<close>

theorem symbols_are_a_map:
  assumes "codec_ok E" "rows = fold (\<lambda>s t. fst (symbol_Upsert (E, None) s t)) ss []" "m = fold (\<lambda>s m. m(s_Name s \<mapsto> s)) ss Map.empty"
  shows "symbol_GetByName (E, None) n rows = (case m n of None \<Rightarrow> Err SqliteErrNotFound | Some s \<Rightarrow> Ok s) \<and>
    (\<exists>xs. symbol_ListByStatus (E, None) status rows = Ok xs \<and> (\<forall>s. s \<in> set xs \<longleftrightarrow> m (s_Name s) = Some s \<and> s_Status s = status))"
proof -
  have ok: "symbols_ok E rows" and m: "symbol_map E rows = m"
    using symbols_run_refines [OF assms(1), of "[]" ss] assms(2,3) by simp_all
  have "row_of y_name rows n = Some r \<Longrightarrow> \<exists>x. scanSymbol E r = Inr x" for r
    using ok row_of_Some_set [of y_name rows n r] by (auto simp: table_ok_def)
  then have "symbol_GetByName (E, None) n rows = (case symbol_map E rows n of None \<Rightarrow> Err SqliteErrNotFound | Some s \<Rightarrow> Ok s)"
    by (cases "row_of y_name rows n") (auto simp: symbol_GetByName_def table_map_def)
  moreover have "\<exists>xs. scan_all (scanSymbol E) (order_asc y_name (filter (\<lambda>r. y_status r = status) rows)) = Ok xs \<and>
      (\<forall>s. s \<in> set xs \<longleftrightarrow> symbol_map E rows (s_Name s) = Some s \<and> s_Status s = status)"
    by (rule table_listing [OF ok]) (auto dest: scanSymbol_Ok)
  ultimately show ?thesis unfolding m by (simp add: symbol_ListByStatus_def query_symbols_def)
qed

subsection \<open>Balance snapshots\<close>

text \<open>The key of a row is its place in the list (\<open>AUTOINCREMENT\<close>). \<open>bal_stmt\<close> names the statement that fails.\<close>

record balance_row =
  l_asset :: string
  l_total :: string
  l_available :: string
  l_locked :: string
  l_updated_at :: string

type_synonym balance_table = "balance_row list"

datatype bal_stmt = BalBegin | BalInsert nat | BalCommit | BalSelect | BalSelectAt string

definition balance_to_row :: "'d sql_env \<Rightarrow> 'd balance \<Rightarrow> balance_row" where
  "balance_to_row E b =
     \<lparr>l_asset = b_Asset b, l_total = dec_text E (b_Total b), l_available = dec_text E (b_Available b),
      l_locked = dec_text E (b_Locked b), l_updated_at = time_text E (b_UpdatedAtUTC b)\<rparr>"

fun insert_balances ::
  "'d sql_env \<Rightarrow> (bal_stmt \<Rightarrow> string option) \<Rightarrow> nat \<Rightarrow> 'd balance list \<Rightarrow> balance_table \<Rightarrow> store_error + balance_table" where
  "insert_balances E fault i [] rows = Ok rows"
| "insert_balances E fault i (b # bs) rows =
     (case fault (BalInsert i) of
        Some msg \<Rightarrow> Err (DbError (''save balance for '' @ b_Asset b @ '': '' @ msg))
      | None \<Rightarrow> insert_balances E fault (Suc i) bs (rows @ [balance_to_row E b]))"

text \<open>One transaction: an error before the commit leaves the table as it was.\<close>

definition balance_Save ::
  "'d sql_env \<Rightarrow> (bal_stmt \<Rightarrow> string option) \<Rightarrow> 'd account_balance \<Rightarrow> balance_table \<Rightarrow> balance_table \<times> (store_error + unit)" where
  "balance_Save E fault ab rows =
     (case fault BalBegin of
        Some msg \<Rightarrow> (rows, Err (DbError (''begin transaction: '' @ msg)))
      | None \<Rightarrow>
          (case insert_balances E fault 0 (ab_Balances ab) rows of
             Inl e \<Rightarrow> (rows, Err e)
           | Inr rows' \<Rightarrow>
               (case fault BalCommit of
                  Some msg \<Rightarrow> (rows, Err (DbError (''commit transaction: '' @ msg)))
                | None \<Rightarrow> (rows', Ok ()))))"

definition scanBalance :: "'d sql_env \<Rightarrow> balance_row \<Rightarrow> store_error + 'd balance" where
  "scanBalance E r =
     and_then (parseDecimalField E ''balances.total'' (l_total r)) (\<lambda>total.
     and_then (parseDecimalField E ''balances.available'' (l_available r)) (\<lambda>available.
     and_then (parseDecimalField E ''balances.locked'' (l_locked r)) (\<lambda>locked.
     and_then (parseTimeField E ''balances.updated_at_utc'' (l_updated_at r)) (\<lambda>updated.
     Ok \<lparr>b_Asset = l_asset r, b_Total = total, b_Available = available, b_Locked = locked, b_UpdatedAtUTC = updated\<rparr>))))"

text \<open>\<open>SELECT MAX(updated_at_utc)\<close> compares text; on no rows it is NULL, which selects nothing.\<close>

definition max_updated :: "balance_table \<Rightarrow> string option" where
  "max_updated rows = (case map l_updated_at rows of [] \<Rightarrow> None | t # ts \<Rightarrow> Some (fold max ts t))"

definition GetLatest :: "'d sql_env \<Rightarrow> (bal_stmt \<Rightarrow> string option) \<Rightarrow> balance_table \<Rightarrow> store_error + 'd account_balance" where
  "GetLatest E fault rows =
     (case fault BalSelect of
        Some msg \<Rightarrow> Err (DbError (''get latest balance: '' @ msg))
      | None \<Rightarrow>
          and_then (scan_all (scanBalance E) (order_asc l_asset (filter (\<lambda>r. Some (l_updated_at r) = max_updated rows) rows)))
            (\<lambda>bals. if bals = [] then Err SqliteErrNotFound
              else Ok \<lparr>ab_Balances = bals,
                ab_UpdatedAtUTC = (case find (\<lambda>b. b_UpdatedAtUTC b \<noteq> 0) bals of None \<Rightarrow> 0 | Some b \<Rightarrow> b_UpdatedAtUTC b)\<rparr>))"

definition getSnapshotAt :: "'d sql_env \<Rightarrow> (bal_stmt \<Rightarrow> string option) \<Rightarrow> balance_table \<Rightarrow> time \<Rightarrow> store_error + 'd account_balance" where
  "getSnapshotAt E fault rows timestamp =
     (case fault (BalSelectAt (time_text E timestamp)) of
        Some msg \<Rightarrow> Err (DbError (''get snapshot: '' @ msg))
      | None \<Rightarrow>
          and_then (scan_all (scanBalance E) (order_asc l_asset (filter (\<lambda>r. l_updated_at r = time_text E timestamp) rows)))
            (\<lambda>bals. Ok \<lparr>ab_Balances = bals, ab_UpdatedAtUTC = timestamp\<rparr>))"

text \<open>A timestamp that does not parse becomes the zero time, its error is dropped.\<close>

definition GetHistory :: "'d sql_env \<Rightarrow> (bal_stmt \<Rightarrow> string option) \<Rightarrow> time \<Rightarrow> time \<Rightarrow> balance_table \<Rightarrow> store_error + 'd account_balance list" where
  "GetHistory E fault from to rows =
     (case fault BalSelect of
        Some msg \<Rightarrow> Err (DbError (''get balance history: '' @ msg))
      | None \<Rightarrow>
          (let stamps = order_desc id (remdups (filter (\<lambda>t. time_text E from \<le> t \<and> t \<le> time_text E to) (map l_updated_at rows)))
           in scan_all (\<lambda>ts. getSnapshotAt E fault rows (case time_parse E ts of Some t \<Rightarrow> t | None \<Rightarrow> 0)) stamps))"

lemma insert_balances_quiet: "insert_balances E (\<lambda>_. None) i bs rows = Ok (rows @ map (balance_to_row E) bs)"
  by (induction bs arbitrary: i rows) simp_all

lemma insert_balances_at: "insert_balances E fault i bs rows = Ok rows' \<Longrightarrow> rows' = rows @ map (balance_to_row E) bs"
proof (induction bs arbitrary: i rows)
  case (Cons b bs)
  then show ?case using Cons.IH [of "Suc i" "rows @ [balance_to_row E b]"] by (auto split: option.splits)
qed simp

text \<open>Saving is all or nothing.\<close>

lemma balance_Save_cases:
  "balance_Save E fault ab rows = (rows', r) \<Longrightarrow>
     (r = Ok () \<and> rows' = rows @ map (balance_to_row E) (ab_Balances ab)) \<or> ((\<exists>e. r = Err e) \<and> rows' = rows)"
  by (auto simp: balance_Save_def dest: insert_balances_at split: option.splits sum.splits)

lemma scanBalance_to_row [simp]: "codec_ok E \<Longrightarrow> scanBalance E (balance_to_row E b) = Ok b"
  by (simp add: scanBalance_def balance_to_row_def)

lemma scan_all_rows: "codec_ok E \<Longrightarrow> scan_all (scanBalance E) (map (balance_to_row E) bs) = Ok bs"
  by (induction bs) auto

lemma fold_max_eq:
  fixes t :: "'a::linorder"
  assumes "t \<in> set xs" "\<forall>x \<in> set xs. x \<le> t"
  shows "fold max (tl xs) (hd xs) = t"
proof -
  have "xs \<noteq> []" using assms(1) by auto
  then have "fold max (tl xs) (hd xs) = Max (set xs)" by (metis Max.set_eq_fold list.collapse)
  also have "\<dots> = t" using assms by (intro Max_eqI) auto
  finally show ?thesis .
qed

lemma max_updated_eq:
  assumes "t \<in> set (map l_updated_at rows)" "\<forall>r \<in> set rows. l_updated_at r \<le> t"
  shows "max_updated rows = Some t"
  using fold_max_eq [of t "map l_updated_at rows"] assms
  by (cases rows) (auto simp: max_updated_def)

lemma sort_rows:
  assumes "\<And>b. l_asset (balance_to_row E b) = b_Asset b"
  shows "order_asc l_asset (map (balance_to_row E) bs) = map (balance_to_row E) (sort_key b_Asset bs)"
proof -
  have "map (balance_to_row E) (insort_key b_Asset b bs) = insort_key l_asset (balance_to_row E b) (map (balance_to_row E) bs)" for b bs
    by (induction bs) (simp_all add: assms)
  then show ?thesis unfolding order_asc_def by (induction bs) simp_all
qed

text \<open>A snapshot whose balances carry one timestamp, the latest as text, is read back, sorted by asset.\<close>

theorem balance_snapshot_roundtrip:
  assumes "codec_ok E" "balance_Save E fault \<lparr>ab_Balances = bs, ab_UpdatedAtUTC = t\<rparr> rows = (rows', Ok ())" "bs \<noteq> []"
    and "\<forall>b \<in> set bs. b_UpdatedAtUTC b = t" "\<forall>r \<in> set rows. l_updated_at r < time_text E t"
  shows "GetLatest E (\<lambda>_. None) rows' = Ok \<lparr>ab_Balances = sort_key b_Asset bs, ab_UpdatedAtUTC = t\<rparr>"
proof -
  have rows': "rows' = rows @ map (balance_to_row E) bs" using balance_Save_cases [OF assms(2)] by auto
  have at: "l_updated_at (balance_to_row E b) = time_text E t" if "b \<in> set bs" for b
    using assms(4) that by (simp add: balance_to_row_def)
  obtain b where b: "b \<in> set bs" using assms(3) by (cases bs) auto
  have "time_text E t \<in> set (map l_updated_at rows')" using at [OF b] b by (force simp: rows')
  moreover have "\<forall>r \<in> set rows'. l_updated_at r \<le> time_text E t" using at assms(5) by (auto simp: rows' less_imp_le)
  ultimately have mx: "max_updated rows' = Some (time_text E t)" by (rule max_updated_eq)
  have "filter (\<lambda>r. Some (l_updated_at r) = max_updated rows') rows = []"
    using assms(5) by (auto simp: mx filter_empty_conv)
  moreover have "filter (\<lambda>r. Some (l_updated_at r) = max_updated rows') (map (balance_to_row E) bs) = map (balance_to_row E) bs"
    using at by (intro filter_True) (auto simp: mx)
  ultimately have "filter (\<lambda>r. Some (l_updated_at r) = max_updated rows') rows' = map (balance_to_row E) bs"
    unfolding rows' filter_append by simp
  then have "scan_all (scanBalance E) (order_asc l_asset (filter (\<lambda>r. Some (l_updated_at r) = max_updated rows') rows')) = Ok (sort_key b_Asset bs)"
    using scan_all_rows [OF assms(1)] by (simp add: sort_rows balance_to_row_def [of E])
  moreover have "(case find (\<lambda>b. b_UpdatedAtUTC b \<noteq> 0) (sort_key b_Asset bs) of None \<Rightarrow> 0 | Some b \<Rightarrow> b_UpdatedAtUTC b) = t"
  proof (cases "find (\<lambda>b. b_UpdatedAtUTC b \<noteq> 0) (sort_key b_Asset bs)")
    case None
    then have "t = 0" using b assms(4) by (auto simp: find_None_iff)
    then show ?thesis using None by simp
  next
    case (Some b)
    then have "b \<in> set (sort_key b_Asset bs)" by (auto simp: find_Some_iff simp del: set_sort length_sort)
    then have "b \<in> set bs" by simp
    then show ?thesis using Some assms(4) by simp
  qed
  moreover have "sort_key b_Asset bs \<noteq> []" using assms(3) by (metis length_0_conv length_sort)
  ultimately show ?thesis by (simp add: GetLatest_def)
qed

text \<open>
  The latest snapshot is the one whose text is the greatest, and the text of an instant with a fraction of a second
  is smaller than that of the full second before it (\<open>''.''\<close> comes before \<open>''Z''\<close>). So a later snapshot stays hidden
  behind an earlier one whenever its timestamp prints smaller.
\<close>

theorem later_balance_stays_hidden:
  assumes "codec_ok E" "time_text E later < time_text E earlier"
    and "balance_Save E (\<lambda>_. None) \<lparr>ab_Balances = [b], ab_UpdatedAtUTC = earlier\<rparr> [] = (rows1, Ok ())" "b_UpdatedAtUTC b = earlier"
    and "balance_Save E (\<lambda>_. None) \<lparr>ab_Balances = [b'], ab_UpdatedAtUTC = later\<rparr> rows1 = (rows2, Ok ())" "b_UpdatedAtUTC b' = later"
  shows "GetLatest E (\<lambda>_. None) rows2 = Ok \<lparr>ab_Balances = [b], ab_UpdatedAtUTC = earlier\<rparr>"
proof -
  have rows: "rows2 = [balance_to_row E b, balance_to_row E b']"
    using balance_Save_cases [OF assms(3)] balance_Save_cases [OF assms(5)] by auto
  have at: "l_updated_at (balance_to_row E b) = time_text E earlier" "l_updated_at (balance_to_row E b') = time_text E later"
    using assms(4,6) by (simp_all add: balance_to_row_def)
  have "max_updated rows2 = Some (time_text E earlier)"
    using assms(2) at by (intro max_updated_eq) (auto simp: rows)
  then have "filter (\<lambda>r. Some (l_updated_at r) = max_updated rows2) rows2 = [balance_to_row E b]"
    using assms(2) at by (simp add: rows)
  then show ?thesis using assms(1,4) by (simp add: GetLatest_def order_asc_def)
qed

text \<open>The fraction of a second as \<open>RFC3339Nano\<close> prints it: without trailing zeros, and nothing for a full second.\<close>

definition second_text :: "nat \<Rightarrow> nat \<Rightarrow> string" where
  "second_text s tenths = ''2026-01-01T00:00:'' @ nat_text (s div 10) @ nat_text (s mod 10) @
     (if tenths = 0 then ''Z'' else CHR ''.'' # nat_text tenths @ ''Z'')"

lemma fraction_prints_smaller: "second_text 7 5 < second_text 7 0"
  by (simp add: second_text_def nat_text.simps [of 7] nat_text.simps [of 0] nat_text.simps [of 5] digit_char_def less_char_def)

subsection \<open>Migrations\<close>

text \<open>
  A migration is its version, the hash it must have, and its SQL text; \<open>sd_executed\<close> is the history of executed
  texts. Executing and recording are two statements, either can fail; SHA-256 is a parameter.
\<close>

record schema_migration =
  mg_Version :: int
  mg_Hash :: string
  mg_SQL :: string

record schema_db =
  sd_applied :: "(int \<times> string) list"
  sd_executed :: "string list"

datatype mig_stmt = MigTable | MigVersion | MigExec int | MigRecord int

definition GetVersion :: "(mig_stmt \<Rightarrow> string option) \<Rightarrow> schema_db \<Rightarrow> string + int" where
  "GetVersion fault db = (case fault MigVersion of Some e \<Rightarrow> Err (''get schema version: '' @ e) | None \<Rightarrow> Ok (foldr max (map fst (sd_applied db)) 0))"

definition RecordMigration :: "(mig_stmt \<Rightarrow> string option) \<Rightarrow> int \<Rightarrow> string \<Rightarrow> schema_db \<Rightarrow> schema_db \<times> (string + unit)" where
  "RecordMigration fault v hash db =
     (case fault (MigRecord v) of
        Some e \<Rightarrow> (db, Err (''record migration: '' @ e))
      | None \<Rightarrow>
          if v \<in> fst ` set (sd_applied db) then (db, Err ''record migration: UNIQUE constraint failed'')
          else (db\<lparr>sd_applied := sd_applied db @ [(v, hash)]\<rparr>, Ok ()))"

definition ListMigrations :: "schema_db \<Rightarrow> (int \<times> string) list" where
  "ListMigrations db = sort_key fst (sd_applied db)"

fun migrate_loop ::
  "(mig_stmt \<Rightarrow> string option) \<Rightarrow> (string \<Rightarrow> string) \<Rightarrow> int \<Rightarrow> schema_migration list \<Rightarrow> schema_db \<Rightarrow> schema_db \<times> (string + unit)" where
  "migrate_loop fault sha cur [] db = (db, Ok ())"
| "migrate_loop fault sha cur (m # ms) db =
     (if mg_Version m \<le> cur then migrate_loop fault sha cur ms db
      else if sha (mg_SQL m) \<noteq> mg_Hash m then (db, Err ''hash mismatch'')
      else case fault (MigExec (mg_Version m)) of
        Some e \<Rightarrow> (db, Err (''apply migration: '' @ e))
      | None \<Rightarrow>
          (case RecordMigration fault (mg_Version m) (mg_Hash m) (db\<lparr>sd_executed := sd_executed db @ [mg_SQL m]\<rparr>) of
             (db', Inl e) \<Rightarrow> (db', Err e)
           | (db', Inr _) \<Rightarrow> migrate_loop fault sha cur ms db'))"

definition schema_ApplyMigrations ::
  "(mig_stmt \<Rightarrow> string option) \<Rightarrow> (string \<Rightarrow> string) \<Rightarrow> schema_migration list \<Rightarrow> schema_db \<Rightarrow> schema_db \<times> (string + unit)" where
  "schema_ApplyMigrations fault sha ms db =
     (case fault MigTable of
        Some e \<Rightarrow> (db, Err (''create schema_migrations table: '' @ e))
      | None \<Rightarrow>
          (case GetVersion fault db of
             Inl e \<Rightarrow> (db, Err (''get current version: '' @ e))
           | Inr cur \<Rightarrow> migrate_loop fault sha cur ms db))"

definition pending :: "int \<Rightarrow> schema_migration list \<Rightarrow> schema_migration list" where
  "pending cur ms = filter (\<lambda>m. cur < mg_Version m) ms"

lemma migrate_loop_Ok:
  assumes "migrate_loop fault sha cur ms db = (db', Ok ())"
  shows "sd_executed db' = sd_executed db @ map mg_SQL (pending cur ms) \<and>
    sd_applied db' = sd_applied db @ map (\<lambda>m. (mg_Version m, mg_Hash m)) (pending cur ms) \<and>
    (\<forall>m \<in> set (pending cur ms). sha (mg_SQL m) = mg_Hash m)"
  using assms
proof (induction ms arbitrary: db)
  case (Cons m ms)
  show ?case
  proof (cases "mg_Version m \<le> cur")
    case True
    then show ?thesis using Cons by (simp add: pending_def)
  next
    case False
    then obtain db1 where db1: "RecordMigration fault (mg_Version m) (mg_Hash m) (db\<lparr>sd_executed := sd_executed db @ [mg_SQL m]\<rparr>) = (db1, Ok ())"
      and rest: "migrate_loop fault sha cur ms db1 = (db', Ok ())" and h: "sha (mg_SQL m) = mg_Hash m"
      using Cons.prems by (auto split: if_splits option.splits prod.splits sum.splits)
    have "sd_executed db1 = sd_executed db @ [mg_SQL m]" "sd_applied db1 = sd_applied db @ [(mg_Version m, mg_Hash m)]"
      using db1 by (auto simp: RecordMigration_def split: option.splits if_splits)
    then show ?thesis using Cons.IH [OF rest] False h by (simp add: pending_def)
  qed
qed (simp add: pending_def)

lemma foldr_max_ge: "(x :: int) \<in> set xs \<Longrightarrow> x \<le> foldr max xs a" "(a :: int) \<le> foldr max xs a"
  by (induction xs) (auto simp: le_max_iff_disj)

lemma foldr_max_mono: "(a :: int) \<le> b \<Longrightarrow> foldr max xs a \<le> foldr max xs b"
  by (induction xs) auto

lemma migrate_loop_done: "(\<forall>m \<in> set ms. mg_Version m \<le> cur) \<Longrightarrow> migrate_loop fault sha cur ms db = (db, Ok ())"
  by (induction ms) auto

text \<open>
  A run of the migrations that succeeds has executed exactly the pending ones, in order, each with the hash it must
  have, and has recorded them, so that the next start executes nothing.
\<close>

theorem migrations_apply_once:
  assumes "schema_ApplyMigrations fault sha ms db = (db', Ok ())" "GetVersion (\<lambda>_. None) db = Ok cur"
  shows "sd_executed db' = sd_executed db @ map mg_SQL (pending cur ms) \<and>
    (\<forall>m \<in> set (pending cur ms). sha (mg_SQL m) = mg_Hash m) \<and>
    schema_ApplyMigrations (\<lambda>_. None) sha ms db' = (db', Ok ())"
proof -
  have cur: "cur = foldr max (map fst (sd_applied db)) 0" using assms(2) by (simp add: GetVersion_def)
  then have l: "migrate_loop fault sha cur ms db = (db', Ok ())"
    using assms(1) by (auto simp: schema_ApplyMigrations_def GetVersion_def split: option.splits)
  note r = migrate_loop_Ok [OF l]
  have "mg_Version m \<le> foldr max (map fst (sd_applied db')) 0" if "m \<in> set ms" for m
  proof (cases "cur < mg_Version m")
    case True
    then show ?thesis using r that by (intro foldr_max_ge) (force simp: pending_def)
  next
    case False
    have "foldr max (map fst (sd_applied db)) 0 \<le> foldr max (map fst (sd_applied db')) 0"
      using r foldr_max_ge(2) by (simp add: foldr_max_mono)
    then show ?thesis using False cur by simp
  qed
  then have "schema_ApplyMigrations (\<lambda>_. None) sha ms db' = (db', Ok ())"
    by (simp add: schema_ApplyMigrations_def GetVersion_def migrate_loop_done)
  then show ?thesis using r by blast
qed

end
