(* ===== verification/Sql_Connection.thy ===== *)
theory Sql_Connection
  imports Market_Repo Go_Text
begin

text \<open>
  The connections below the SQLite repositories: how the databases are opened
  (\<open>internal/providers/storage/sqlite/db.go\<close>, the constructors of the two dual-stream writers, the connections of
  \<open>internal/storage/storage.go\<close>), the pool of Go's \<open>database/sql\<close> behind each of them, and \<open>DB.WithTransaction\<close>.
  A call that waits for a connection nobody will give back is the value \<open>Hangs\<close>; contexts with a deadline are not
  modelled. What a pragma does inside SQLite is not modelled either: a connection keeps the pragmas executed on it.
\<close>

subsection \<open>Connection pools\<close>

text \<open>The settings of a connection are the pragmas executed on it; a new connection has none. The idle connections
  stand in the order of reuse. A limit of \<open>0\<close> open connections is no limit.\<close>

type_synonym settings = "string \<rightharpoonup> string"

record sql_pool =
  sp_idle :: "settings list"
  sp_busy :: "settings list"
  sp_max_open :: nat
  sp_max_idle :: nat

definition new_pool :: sql_pool where
  "new_pool = \<lparr>sp_idle = [], sp_busy = [], sp_max_open = 0, sp_max_idle = 2\<rparr>"

definition set_limits :: "nat \<Rightarrow> nat \<Rightarrow> sql_pool \<Rightarrow> sql_pool" where
  "set_limits mo mi p = p\<lparr>sp_max_open := mo, sp_max_idle := mi, sp_idle := drop (length (sp_idle p) - mi) (sp_idle p)\<rparr>"

text \<open>Taking a connection: an idle one, or a new one within the limit; \<open>None\<close> waits.\<close>

definition pool_take :: "sql_pool \<Rightarrow> (sql_pool \<times> settings) option" where
  "pool_take p =
     (case sp_idle p of
        c # cs \<Rightarrow> Some (p\<lparr>sp_idle := cs, sp_busy := c # sp_busy p\<rparr>, c)
      | [] \<Rightarrow>
          if 0 < sp_max_open p \<and> sp_max_open p \<le> length (sp_busy p) then None
          else Some (p\<lparr>sp_busy := Map.empty # sp_busy p\<rparr>, Map.empty))"

text \<open>Giving back a connection that was taken with the settings \<open>c\<close> and now has \<open>c'\<close>.\<close>

definition pool_put :: "settings \<Rightarrow> settings \<Rightarrow> sql_pool \<Rightarrow> sql_pool" where
  "pool_put c c' p =
     p\<lparr>sp_busy := remove1 c (sp_busy p),
       sp_idle := if length (sp_idle p) < sp_max_idle p then c' # sp_idle p else sp_idle p\<rparr>"

definition pool_pragma :: "string \<Rightarrow> string \<Rightarrow> sql_pool \<Rightarrow> sql_pool" where
  "pool_pragma name v p = (case pool_take p of None \<Rightarrow> p | Some (p1, c) \<Rightarrow> pool_put c (c(name \<mapsto> v)) p1)"

text \<open>The program's goroutines take and give back connections.\<close>

inductive pool_step :: "sql_pool \<Rightarrow> sql_pool \<Rightarrow> bool" where
  take_conn: "pool_take p = Some (p', c) \<Longrightarrow> pool_step p p'"
| put_conn: "c \<in> set (sp_busy p) \<Longrightarrow> pool_step p (pool_put c c p)"

subsection \<open>Opening\<close>

datatype stream = CriticalStream | AnalyticsStream
datatype open_call = SqlOpen stream | SqlPragma stream string | SqlMigrate stream | OpenFile

record opens =
  op_pool :: "stream \<rightharpoonup> sql_pool"
  op_file :: bool
  op_worker :: bool

definition nothing_open :: opens where
  "nothing_open = \<lparr>op_pool = Map.empty, op_file = False, op_worker = False\<rparr>"

text \<open>\<open>if err != nil { cleanup(); return fmt.Errorf(...) }\<close> and go on otherwise.\<close>

definition on_error ::
  "opens \<times> (string + unit) \<Rightarrow> (opens \<Rightarrow> opens) \<Rightarrow> (string \<Rightarrow> string) \<Rightarrow> (opens \<Rightarrow> opens \<times> (string + unit)) \<Rightarrow> opens \<times> (string + unit)" where
  "on_error m cleanup wrap k = (case m of (w, Inl e) \<Rightarrow> (cleanup w, Err (wrap e)) | (w, Inr _) \<Rightarrow> k w)"

definition sql_call :: "(open_call \<Rightarrow> string option) \<Rightarrow> open_call \<Rightarrow> (opens \<Rightarrow> opens) \<Rightarrow> opens \<Rightarrow> opens \<times> (string + unit)" where
  "sql_call E call f w = (case E call of Some e \<Rightarrow> (w, Err e) | None \<Rightarrow> (f w, Ok ()))"

definition on_pool :: "stream \<Rightarrow> (sql_pool \<Rightarrow> sql_pool) \<Rightarrow> opens \<Rightarrow> opens" where
  "on_pool st f w = w\<lparr>op_pool := (op_pool w)(st := map_option f (op_pool w st))\<rparr>"

definition sql_Open :: "(open_call \<Rightarrow> string option) \<Rightarrow> stream \<Rightarrow> opens \<Rightarrow> opens \<times> (string + unit)" where
  "sql_Open E st = sql_call E (SqlOpen st) (\<lambda>w. w\<lparr>op_pool := (op_pool w)(st \<mapsto> new_pool)\<rparr>)"

definition sql_Close :: "stream \<Rightarrow> opens \<Rightarrow> opens" where
  "sql_Close st w = w\<lparr>op_pool := (op_pool w)(st := None)\<rparr>"

definition sql_pragma :: "(open_call \<Rightarrow> string option) \<Rightarrow> stream \<Rightarrow> string \<Rightarrow> string \<Rightarrow> opens \<Rightarrow> opens \<times> (string + unit)" where
  "sql_pragma E st name v = sql_call E (SqlPragma st name) (on_pool st (pool_pragma name v))"

text \<open>\<open>sqlite.Open\<close>, \<open>OpenCritical\<close> and \<open>OpenAnalytics\<close> of \<open>db.go\<close>.\<close>

definition sqlite_Open :: "(open_call \<Rightarrow> string option) \<Rightarrow> stream \<Rightarrow> opens \<Rightarrow> opens \<times> (string + unit)" where
  "sqlite_Open E st w =
     on_error (sql_Open E st w) id (\<lambda>e. ''open sqlite: '' @ e) (\<lambda>w. (on_pool st (set_limits 1 1) w, Ok ()))"

definition OpenCritical :: "(open_call \<Rightarrow> string option) \<Rightarrow> opens \<Rightarrow> opens \<times> (string + unit)" where
  "OpenCritical E w =
     on_error (sqlite_Open E CriticalStream w) id id (\<lambda>w.
     on_error (sql_pragma E CriticalStream ''synchronous'' ''FULL'' w) (sql_Close CriticalStream) (\<lambda>e. ''set synchronous=FULL: '' @ e) (\<lambda>w.
     on_error (sql_pragma E CriticalStream ''journal_mode'' ''WAL'' w) (sql_Close CriticalStream) (\<lambda>e. ''set journal_mode=WAL: '' @ e) (\<lambda>w.
     (w, Ok ()))))"

definition OpenAnalytics :: "(open_call \<Rightarrow> string option) \<Rightarrow> opens \<Rightarrow> opens \<times> (string + unit)" where
  "OpenAnalytics E w =
     on_error (sqlite_Open E AnalyticsStream w) id id (\<lambda>w.
     on_error (sql_pragma E AnalyticsStream ''synchronous'' ''NORMAL'' w) (sql_Close AnalyticsStream) (\<lambda>e. ''set synchronous=NORMAL: '' @ e) (\<lambda>w.
     on_error (sql_pragma E AnalyticsStream ''journal_mode'' ''WAL'' w) (sql_Close AnalyticsStream) (\<lambda>e. ''set journal_mode=WAL: '' @ e) (\<lambda>w.
     (w, Ok ()))))"

text \<open>\<open>dual.NewWriter\<close> with its two openings.\<close>

fun run_pragmas :: "(open_call \<Rightarrow> string option) \<Rightarrow> stream \<Rightarrow> (string \<times> string) list \<Rightarrow> opens \<Rightarrow> opens \<times> (string + unit)" where
  "run_pragmas E st [] w = (w, Ok ())"
| "run_pragmas E st ((name, v) # ps) w =
     on_error (sql_pragma E st name v w) id
       (\<lambda>e. ''configure sqlite '' @ [CHR 0x22] @ ''PRAGMA '' @ name @ ''='' @ v @ [CHR 0x22] @ '': '' @ e) (run_pragmas E st ps)"

definition configureSQLite :: "(open_call \<Rightarrow> string option) \<Rightarrow> stream \<Rightarrow> string \<Rightarrow> opens \<Rightarrow> opens \<times> (string + unit)" where
  "configureSQLite E st synchronous =
     run_pragmas E st [(''busy_timeout'', ''5000''), (''journal_mode'', ''WAL''), (''synchronous'', synchronous)]"

definition openCriticalDB :: "(open_call \<Rightarrow> string option) \<Rightarrow> opens \<Rightarrow> opens \<times> (string + unit)" where
  "openCriticalDB E w =
     on_error (sql_Open E CriticalStream w) id id (\<lambda>w.
     on_error (configureSQLite E CriticalStream ''FULL'' (on_pool CriticalStream (set_limits 1 1) w))
       (sql_Close CriticalStream) id (\<lambda>w. (w, Ok ())))"

definition openAnalyticsDB :: "(open_call \<Rightarrow> string option) \<Rightarrow> opens \<Rightarrow> opens \<times> (string + unit)" where
  "openAnalyticsDB E w =
     on_error (sql_Open E AnalyticsStream w) id id (\<lambda>w.
     on_error (configureSQLite E AnalyticsStream ''NORMAL'' (on_pool AnalyticsStream (set_limits 10 5) w))
       (sql_Close AnalyticsStream) id (\<lambda>w. (w, Ok ())))"

definition NewWriter :: "(open_call \<Rightarrow> string option) \<Rightarrow> opens \<Rightarrow> opens \<times> (string + unit)" where
  "NewWriter E w =
     on_error (openCriticalDB E w) id id (\<lambda>w.
     on_error (sql_call E (SqlMigrate CriticalStream) id w) (sql_Close CriticalStream) (\<lambda>e. ''critical migrations: '' @ e) (\<lambda>w.
     on_error (openAnalyticsDB E w) (sql_Close CriticalStream) id (\<lambda>w.
     on_error (sql_call E (SqlMigrate AnalyticsStream) id w) (sql_Close AnalyticsStream \<circ> sql_Close CriticalStream)
       (\<lambda>e. ''analytics migrations: '' @ e) (\<lambda>w.
     (w\<lparr>op_worker := True\<rparr>, Ok ())))))"

text \<open>\<open>NewDualStreamWriter\<close>: the limits are set after the pragmas, and the cleanup grows with the second database.\<close>

definition NewDualStreamWriter :: "(open_call \<Rightarrow> string option) \<Rightarrow> opens \<Rightarrow> opens \<times> (string + unit)" where
  "NewDualStreamWriter E w =
     on_error (sql_Open E CriticalStream w) id (\<lambda>e. ''open critical db: '' @ e) (\<lambda>w.
     (let cleanup = sql_Close CriticalStream in
     on_error (sql_pragma E CriticalStream ''synchronous'' ''FULL'' w) cleanup (\<lambda>e. ''set critical pragma: '' @ e) (\<lambda>w.
     on_error (sql_pragma E CriticalStream ''journal_mode'' ''WAL'' w) cleanup (\<lambda>e. ''set critical journal mode: '' @ e) (\<lambda>w.
     on_error (sql_pragma E CriticalStream ''fsync'' ''NORMAL'' w) cleanup (\<lambda>e. ''set critical fsync: '' @ e) (\<lambda>w.
     on_error (sql_Open E AnalyticsStream (on_pool CriticalStream (set_limits 1 1) w)) cleanup (\<lambda>e. ''open analytics db: '' @ e) (\<lambda>w.
     (let cleanup = sql_Close AnalyticsStream \<circ> sql_Close CriticalStream in
     on_error (sql_pragma E AnalyticsStream ''synchronous'' ''NORMAL'' w) cleanup (\<lambda>e. ''set analytics pragma: '' @ e) (\<lambda>w.
     on_error (sql_pragma E AnalyticsStream ''journal_mode'' ''WAL'' w) cleanup (\<lambda>e. ''set analytics journal mode: '' @ e) (\<lambda>w.
     ((on_pool AnalyticsStream (set_limits 10 5) w)\<lparr>op_worker := True\<rparr>, Ok ()))))))))))"

text \<open>The connections of \<open>storage.Open\<close>; its file operations and migrations are \<open>storage_Open\<close> of the theory of the
  local storage. The three pragmas of a connection are one call.\<close>

definition pragma_script :: "string \<Rightarrow> sql_pool \<Rightarrow> sql_pool" where
  "pragma_script synchronous =
     pool_pragma ''busy_timeout'' ''5000'' \<circ> pool_pragma ''synchronous'' synchronous \<circ> pool_pragma ''journal_mode'' ''WAL''"

definition storage_connections :: "(open_call \<Rightarrow> string option) \<Rightarrow> opens \<Rightarrow> opens \<times> (string + unit)" where
  "storage_connections E w =
     on_error (sql_Open E CriticalStream w) id (\<lambda>e. ''open trades sqlite: '' @ e) (\<lambda>w.
     on_error (sql_Open E AnalyticsStream w) (sql_Close CriticalStream) (\<lambda>e. ''open analytics sqlite: '' @ e) (\<lambda>w.
     on_error (sql_call E (SqlPragma CriticalStream ''journal_mode'') (on_pool CriticalStream (pragma_script ''FULL''))
         (on_pool CriticalStream (set_limits 1 1) w)) id (\<lambda>e. ''configure critical sqlite: '' @ e) (\<lambda>w.
     on_error (sql_call E (SqlPragma AnalyticsStream ''journal_mode'') (on_pool AnalyticsStream (pragma_script ''NORMAL'')) w) id
         (\<lambda>e. ''configure analytics sqlite: '' @ e) (\<lambda>w.
     on_error (sql_call E (SqlMigrate CriticalStream) id w) id id (\<lambda>w.
     on_error (sql_call E OpenFile (\<lambda>w. w\<lparr>op_file := True\<rparr>) w) id (\<lambda>e. ''open trades sqlite handle: '' @ e) (\<lambda>w.
     (w, Ok ())))))))"

text \<open>\<open>Store.Close\<close> tries every resource and joins the errors.\<close>

definition to_list :: "'a option \<Rightarrow> 'a list" where
  "to_list x = (case x of None \<Rightarrow> [] | Some y \<Rightarrow> [y])"

definition storage_Close :: "(stream \<Rightarrow> string option) \<Rightarrow> string option \<Rightarrow> opens \<Rightarrow> opens \<times> (string + unit)" where
  "storage_Close E file w =
     (let errs = (case op_pool w CriticalStream of None \<Rightarrow> [] | Some _ \<Rightarrow> to_list (E CriticalStream)) @
                 (case op_pool w AnalyticsStream of None \<Rightarrow> [] | Some _ \<Rightarrow> to_list (E AnalyticsStream)) @
                 (if op_file w then to_list file else [])
      in (sql_Close AnalyticsStream (sql_Close CriticalStream w)\<lparr>op_file := False\<rparr>,
          if errs \<noteq> [] then Err (joined_errors errs) else Ok ()))"

subsection \<open>What an opening leaves\<close>

lemmas opening_defs = on_error_def sql_call_def sql_Open_def sql_Close_def sql_pragma_def on_pool_def

definition configured :: "nat \<Rightarrow> nat \<Rightarrow> (string \<times> string) list \<Rightarrow> sql_pool" where
  "configured mo mi pragmas = \<lparr>sp_idle = [map_of (rev pragmas)], sp_busy = [], sp_max_open = mo, sp_max_idle = mi\<rparr>"

lemmas pool_defs = pool_pragma_def pool_take_def pool_put_def set_limits_def new_pool_def configured_def

definition writer_pools :: "stream \<rightharpoonup> sql_pool" where
  "writer_pools =
     [CriticalStream \<mapsto> configured 1 1 [(''busy_timeout'', ''5000''), (''journal_mode'', ''WAL''), (''synchronous'', ''FULL'')],
      AnalyticsStream \<mapsto> configured 10 5 [(''busy_timeout'', ''5000''), (''journal_mode'', ''WAL''), (''synchronous'', ''NORMAL'')]]"

definition dual_stream_pools :: "stream \<rightharpoonup> sql_pool" where
  "dual_stream_pools =
     [CriticalStream \<mapsto> configured 1 1 [(''synchronous'', ''FULL''), (''journal_mode'', ''WAL''), (''fsync'', ''NORMAL'')],
      AnalyticsStream \<mapsto> configured 10 5 [(''synchronous'', ''NORMAL''), (''journal_mode'', ''WAL'')]]"

text \<open>A constructor of a writer is all or nothing: on an error both databases are closed and no worker runs.\<close>

lemma writer_opened:
  "NewWriter E nothing_open = (w, r) \<Longrightarrow>
     (\<exists>e. r = Err e \<and> w = nothing_open) \<or> (r = Ok () \<and> w = \<lparr>op_pool = writer_pools, op_file = False, op_worker = True\<rparr>)"
  by (auto simp: NewWriter_def openCriticalDB_def openAnalyticsDB_def configureSQLite_def opening_defs pool_defs
        nothing_open_def writer_pools_def fun_eq_iff split: option.splits sum.splits prod.splits stream.splits)

lemma dual_stream_opened:
  "NewDualStreamWriter E nothing_open = (w, r) \<Longrightarrow>
     (\<exists>e. r = Err e \<and> w = nothing_open) \<or>
     (r = Ok () \<and> w = \<lparr>op_pool = dual_stream_pools, op_file = False, op_worker = True\<rparr>)"
  by (auto simp: NewDualStreamWriter_def opening_defs pool_defs Let_def
        nothing_open_def dual_stream_pools_def fun_eq_iff split: option.splits sum.splits prod.splits)

lemma critical_opened:
  "OpenCritical E nothing_open = (w, r) \<Longrightarrow>
     (\<exists>e. r = Err e \<and> w = nothing_open) \<or>
     (r = Ok () \<and> w = nothing_open\<lparr>op_pool := [CriticalStream \<mapsto> configured 1 1 [(''synchronous'', ''FULL''), (''journal_mode'', ''WAL'')]]\<rparr>)"
  by (auto simp: OpenCritical_def sqlite_Open_def opening_defs pool_defs nothing_open_def fun_eq_iff
        split: option.splits sum.splits prod.splits)

text \<open>The local store does not: when its migrations fail, both databases stay open, and nobody can close them.\<close>

theorem failed_open_leaves_connections_open:
  assumes "E = (\<lambda>c. if c = SqlMigrate CriticalStream then Some e else None)" "storage_connections E nothing_open = (w, r)"
  shows "r = Err e \<and> op_pool w CriticalStream \<noteq> None \<and> op_pool w AnalyticsStream \<noteq> None"
  using assms by (auto simp: storage_connections_def opening_defs nothing_open_def)

lemma storage_Close_closes:
  "op_pool (fst (storage_Close E file w)) = (op_pool w)(CriticalStream := None, AnalyticsStream := None) \<and>
   \<not> op_file (fst (storage_Close E file w))"
  by (simp add: storage_Close_def sql_Close_def Let_def)

subsection \<open>The connections a statement can run on\<close>

text \<open>With one connection at most, every statement runs on the configured one.\<close>

definition one_connection :: "settings \<Rightarrow> sql_pool \<Rightarrow> bool" where
  "one_connection c p \<longleftrightarrow> sp_max_open p = 1 \<and> sp_max_idle p = 1 \<and>
     (sp_idle p = [c] \<and> sp_busy p = [] \<or> sp_idle p = [] \<and> sp_busy p = [c])"

lemma one_connection_step: "pool_step p q \<Longrightarrow> one_connection c p \<Longrightarrow> one_connection c q"
  by (induction rule: pool_step.induct) (auto simp: one_connection_def pool_take_def pool_put_def split: list.splits)

lemma one_connection_steps: "pool_step\<^sup>*\<^sup>* p q \<Longrightarrow> one_connection c p \<Longrightarrow> one_connection c q"
  by (induction rule: rtranclp_induct) (auto intro: one_connection_step)

lemma configured_one: "one_connection (map_of (rev ps)) (configured 1 1 ps)"
  by (simp add: one_connection_def configured_def)

text \<open>So every connection that a goroutine of an opened writer ever holds to the critical database writes with full
  synchronisation, whatever the interleaving.\<close>

theorem critical_writes_are_synchronous:
  assumes "NewWriter E nothing_open = (w, Ok ()) \<or> NewDualStreamWriter E nothing_open = (w, Ok ()) \<or>
      OpenCritical E nothing_open = (w, Ok ())"
    and "op_pool w CriticalStream = Some p" "pool_step\<^sup>*\<^sup>* p q" "c \<in> set (sp_busy q)"
  shows "c ''synchronous'' = Some ''FULL'' \<and> length (sp_busy q) = 1"
proof -
  obtain ps where ps: "p = configured 1 1 ps" "map_of (rev ps) ''synchronous'' = Some ''FULL''"
    using assms(1,2) writer_opened [of E w "Ok ()"] dual_stream_opened [of E w "Ok ()"] critical_opened [of E w "Ok ()"]
    by (auto simp: writer_pools_def dual_stream_pools_def)
  have "one_connection (map_of (rev ps)) q" using one_connection_steps [OF assms(3)] configured_one ps(1) by blast
  then show ?thesis using assms(4) ps(2) by (auto simp: one_connection_def)
qed

text \<open>The pragmas are executed once, on one connection, but the analytics pool has up to ten: of two statements at the
  same time the second runs on a connection with SQLite's defaults, without the timeout for a locked database.\<close>

theorem second_analytics_connection_is_unconfigured:
  assumes "NewWriter E nothing_open = (w, Ok ()) \<or> NewDualStreamWriter E nothing_open = (w, Ok ())"
  shows "\<exists>p q. op_pool w AnalyticsStream = Some p \<and> pool_step\<^sup>*\<^sup>* p q \<and> Map.empty \<in> set (sp_busy q)"
proof -
  obtain ps where p: "op_pool w AnalyticsStream = Some (configured 10 5 ps)"
    using assms writer_opened [of E w "Ok ()"] dual_stream_opened [of E w "Ok ()"]
    by (auto simp: writer_pools_def dual_stream_pools_def)
  let ?c = "map_of (rev ps)" and ?p = "configured 10 5 ps"
  have "pool_step ?p (?p\<lparr>sp_idle := [], sp_busy := [?c]\<rparr>)"
    by (rule pool_step.take_conn [where c = ?c]) (simp add: pool_take_def configured_def)
  moreover have "pool_step (?p\<lparr>sp_idle := [], sp_busy := [?c]\<rparr>) (?p\<lparr>sp_idle := [], sp_busy := [Map.empty, ?c]\<rparr>)"
    by (rule pool_step.take_conn [where c = Map.empty]) (simp add: pool_take_def configured_def)
  ultimately have "pool_step\<^sup>*\<^sup>* ?p (?p\<lparr>sp_idle := [], sp_busy := [Map.empty, ?c]\<rparr>)" by auto
  then show ?thesis using p by (intro exI conjI) (assumption | simp)+
qed

subsection \<open>Transactions (db.go)\<close>

text \<open>
  A database with one connection: the committed tables, and the working copy of the transaction that holds the
  connection. A context carries that transaction or none. A statement that fails inside a transaction has changed
  nothing itself. Ending a transaction gives the connection back, whatever the driver answers.
\<close>

datatype ('e, 'a) run = Ret 'a | Bad 'e | Panicked | Hangs

record 'd db_handle =
  dh_data :: 'd
  dh_tx :: "'d option"

datatype tx_executor = OnTx | OnConn

definition getTx :: "bool \<Rightarrow> tx_executor" where
  "getTx has_tx = (if has_tx then OnTx else OnConn)"

fun answer :: "'e + 'a \<Rightarrow> ('e, 'a) run" where
  "answer (Inl e) = Bad e"
| "answer (Inr a) = Ret a"

definition execute ::
  "tx_executor \<Rightarrow> ('d \<Rightarrow> 'd \<times> (store_error + 'a)) \<Rightarrow> 'd db_handle \<Rightarrow> 'd db_handle \<times> (store_error, 'a) run" where
  "execute x stmt h =
     (case x of
        OnTx \<Rightarrow>
          (case dh_tx h of
             None \<Rightarrow> (h, Bad (DbError ''sql: transaction has already been committed or rolled back''))
           | Some d \<Rightarrow> (h\<lparr>dh_tx := Some (fst (stmt d))\<rparr>, answer (snd (stmt d))))
      | OnConn \<Rightarrow>
          (case dh_tx h of
             Some _ \<Rightarrow> (h, Hangs)
           | None \<Rightarrow> (h\<lparr>dh_data := fst (stmt (dh_data h))\<rparr>, answer (snd (stmt (dh_data h))))))"

record tx_env =
  te_begin :: "string option"
  te_commit :: "string option"
  te_rollback :: "string option"
  te_text :: "store_error \<Rightarrow> string"

text \<open>The context in which \<open>WithTransaction\<close> itself is called plays no part: it always asks the pool.\<close>

definition WithTransaction ::
  "tx_env \<Rightarrow> (bool \<Rightarrow> 'd db_handle \<Rightarrow> 'd db_handle \<times> (store_error, unit) run) \<Rightarrow> 'd db_handle \<Rightarrow>
   'd db_handle \<times> (store_error, unit) run" where
  "WithTransaction F fn h =
     (if dh_tx h \<noteq> None then (h, Hangs)
      else case te_begin F of
        Some e \<Rightarrow> (h, Bad (DbError (''begin transaction: '' @ e)))
      | None \<Rightarrow>
          (case fn True (h\<lparr>dh_tx := Some (dh_data h)\<rparr>) of
             (h1, Bad e) \<Rightarrow>
               (h1\<lparr>dh_tx := None\<rparr>,
                Bad (case te_rollback F of
                       Some rb \<Rightarrow> DbError (''rollback after error '' @ te_text F e @ '': '' @ rb)
                     | None \<Rightarrow> e))
           | (h1, Ret _) \<Rightarrow>
               (case (te_commit F, dh_tx h1) of
                  (None, Some d) \<Rightarrow> (h1\<lparr>dh_data := d, dh_tx := None\<rparr>, Ret ())
                | (Some e, _) \<Rightarrow> (h1\<lparr>dh_tx := None\<rparr>, Bad (DbError (''commit transaction: '' @ e)))
                | (None, None) \<Rightarrow> (h1, Bad (DbError ''commit transaction: sql: transaction has already been committed or rolled back'')))
           | (h1, Panicked) \<Rightarrow> (h1, Panicked)
           | (h1, Hangs) \<Rightarrow> (h1, Hangs)))"

text \<open>A body that calls repositories one after the other and returns their first error.\<close>

fun run_calls ::
  "('d \<Rightarrow> 'd \<times> (store_error + unit)) list \<Rightarrow> bool \<Rightarrow> 'd db_handle \<Rightarrow> 'd db_handle \<times> (store_error, unit) run" where
  "run_calls [] tx h = (h, Ret ())"
| "run_calls (s # ss) tx h =
     (case execute (getTx tx) s h of
        (h1, Ret _) \<Rightarrow> run_calls ss tx h1
      | (h1, r) \<Rightarrow> (h1, r))"

text \<open>The specification: all calls, or none.\<close>

fun all_calls :: "('d \<Rightarrow> 'd \<times> (store_error + unit)) list \<Rightarrow> 'd \<Rightarrow> 'd \<times> (store_error + unit)" where
  "all_calls [] d = (d, Ok ())"
| "all_calls (s # ss) d =
     (case s d of
        (d1, Inr _) \<Rightarrow> all_calls ss d1
      | (d1, Inl e) \<Rightarrow> (d1, Err e))"

lemma run_calls_in_tx:
  "dh_tx h = Some d \<Longrightarrow> run_calls ss True h = (h\<lparr>dh_tx := Some (fst (all_calls ss d))\<rparr>, answer (snd (all_calls ss d)))"
  by (induction ss arbitrary: h d) (auto simp: getTx_def execute_def split: sum.splits prod.splits)

lemma transaction_is_atomic:
  assumes "dh_tx h = None"
  shows "WithTransaction F (run_calls ss) h =
    (case te_begin F of
       Some e \<Rightarrow> (h, Bad (DbError (''begin transaction: '' @ e)))
     | None \<Rightarrow>
         (case all_calls ss (dh_data h) of
            (_, Inl e) \<Rightarrow>
              (h, Bad (case te_rollback F of
                         Some rb \<Rightarrow> DbError (''rollback after error '' @ te_text F e @ '': '' @ rb)
                       | None \<Rightarrow> e))
          | (d, Inr _) \<Rightarrow>
              (case te_commit F of
                 Some e \<Rightarrow> (h, Bad (DbError (''commit transaction: '' @ e)))
               | None \<Rightarrow> (h\<lparr>dh_data := d\<rparr>, Ret ()))))"
  using assms by (auto simp: WithTransaction_def run_calls_in_tx split: option.splits sum.splits prod.splits)

subsection \<open>The contract of a transaction manager\<close>

text \<open>
  What \<open>storage.TransactionManager\<close> promises its callers: on a free database a transaction ends, leaves it free, and
  applies all its calls or none. Then whatever every complete batch of calls keeps is kept by any sequence of
  transactions, with any of them failing at any point.
\<close>

locale transaction_manager =
  fixes run_tx :: "'f \<Rightarrow> ('d \<Rightarrow> 'd \<times> (store_error + unit)) list \<Rightarrow> 's \<Rightarrow> 's \<times> (store_error, unit) run"
    and content :: "'s \<Rightarrow> 'd"
    and free :: "'s \<Rightarrow> bool"
  assumes stays_free: "free s \<Longrightarrow> run_tx F ss s = (s', r) \<Longrightarrow> free s'"
    and applies_all: "free s \<Longrightarrow> run_tx F ss s = (s', Ret u) \<Longrightarrow> all_calls ss (content s) = (content s', Ok ())"
    and applies_none: "free s \<Longrightarrow> run_tx F ss s = (s', Bad e) \<Longrightarrow> content s' = content s"
    and ends: "free s \<Longrightarrow> snd (run_tx F ss s) \<noteq> Hangs \<and> snd (run_tx F ss s) \<noteq> Panicked"
begin

lemma one_batch_keeps:
  assumes "free s" "I (content s)" "\<And>d d'. I d \<Longrightarrow> all_calls ss d = (d', Ok ()) \<Longrightarrow> I d'"
  shows "free (fst (run_tx F ss s)) \<and> I (content (fst (run_tx F ss s)))"
proof -
  obtain s' r where r: "run_tx F ss s = (s', r)" by fastforce
  show ?thesis
  proof (cases r)
    case (Ret u)
    then show ?thesis using r assms stays_free applies_all [of s F ss s' u] by auto
  next
    case (Bad e)
    then show ?thesis using r assms stays_free applies_none [of s F ss s' e] by auto
  qed (use r ends [OF assms(1), of F ss] in auto)
qed

lemma batches_keep:
  assumes "free s" "I (content s)" "\<And>F ss d d'. (F, ss) \<in> set batches \<Longrightarrow> I d \<Longrightarrow> all_calls ss d = (d', Ok ()) \<Longrightarrow> I d'"
  shows "free (fold (\<lambda>(F, ss) s. fst (run_tx F ss s)) batches s) \<and> I (content (fold (\<lambda>(F, ss) s. fst (run_tx F ss s)) batches s))"
  using assms
proof (induction batches arbitrary: s)
  case (Cons b batches)
  obtain F ss where b: "b = (F, ss)" by fastforce
  have "free (fst (run_tx F ss s)) \<and> I (content (fst (run_tx F ss s)))"
    using one_batch_keeps [of s I ss F] Cons.prems by (auto simp: b)
  then show ?case using Cons.IH [of "fst (run_tx F ss s)"] Cons.prems(3) by (auto simp: b)
qed simp

end

interpretation tm: transaction_manager "\<lambda>F ss. WithTransaction F (run_calls ss)" dh_data "\<lambda>h. dh_tx h = None"
proof (unfold_locales, goal_cases)
  case (1 s F ss s' r)
  then show ?case by (auto simp: transaction_is_atomic split: option.splits sum.splits prod.splits)
next
  case (2 s F ss s' u)
  then show ?case by (auto simp: transaction_is_atomic split: option.splits sum.splits prod.splits)
next
  case (3 s F ss s' e)
  then show ?case by (auto simp: transaction_is_atomic split: option.splits sum.splits prod.splits)
next
  case (4 s F ss)
  then show ?case by (simp add: transaction_is_atomic split: option.split sum.split prod.split)
qed

theorem transactions_keep_invariants:
  assumes "dh_tx h = None" "I (dh_data h)"
    and "\<And>F ss d d'. (F, ss) \<in> set batches \<Longrightarrow> I d \<Longrightarrow> all_calls ss d = (d', Ok ()) \<Longrightarrow> I d'"
    and "h' = fold (\<lambda>(F, ss) h. fst (WithTransaction F (run_calls ss) h)) batches h"
  shows "dh_tx h' = None \<and> I (dh_data h')"
  using tm.batches_keep [of h I batches] assms by blast

subsection \<open>What holds the only connection for ever\<close>

lemma held_connection_blocks:
  assumes "dh_tx h = Some d"
  shows "execute OnConn stmt h = (h, Hangs)" "WithTransaction F fn h = (h, Hangs)"
  using assms by (simp_all add: execute_def WithTransaction_def)

text \<open>A transaction inside a transaction waits for the connection its caller holds.\<close>

theorem nested_transaction_hangs:
  assumes "dh_tx h = None" "te_begin F = None"
  shows "snd (WithTransaction F (\<lambda>tx. WithTransaction G fn) h) = Hangs"
  using assms by (simp add: WithTransaction_def)

text \<open>\<open>BalanceRepository.Save\<close> is such a transaction: it asks the pool and not the context.\<close>

record 'o tables =
  tb_balances :: balance_table
  tb_others :: 'o

definition db_balance_Save ::
  "'d sql_env \<Rightarrow> (bal_stmt \<Rightarrow> string option) \<Rightarrow> 'd account_balance \<Rightarrow> 'o tables db_handle \<Rightarrow>
   'o tables db_handle \<times> (store_error, unit) run" where
  "db_balance_Save E fault ab =
     execute OnConn (\<lambda>t. (t\<lparr>tb_balances := fst (balance_Save E fault ab (tb_balances t))\<rparr>, snd (balance_Save E fault ab (tb_balances t))))"

definition calls_then ::
  "('d \<Rightarrow> 'd \<times> (store_error + unit)) list \<Rightarrow> ('d db_handle \<Rightarrow> 'd db_handle \<times> (store_error, unit) run) \<Rightarrow>
   bool \<Rightarrow> 'd db_handle \<Rightarrow> 'd db_handle \<times> (store_error, unit) run" where
  "calls_then ss k tx h = (case run_calls ss tx h of (h1, Ret _) \<Rightarrow> k h1 | (h1, r) \<Rightarrow> (h1, r))"

text \<open>So saving a balance after any successful calls of a transaction never returns, nothing of the transaction is
  committed, and no other operation on this database returns again.\<close>

theorem saving_balances_in_a_transaction_hangs:
  assumes "dh_tx h = None" "te_begin F = None" "snd (all_calls ss (dh_data h)) = Ok ()"
    and "WithTransaction F (calls_then ss (db_balance_Save E fault ab)) h = (h', r)"
  shows "r = Hangs \<and> dh_data h' = dh_data h \<and> (\<forall>stmt. execute OnConn stmt h' = (h', Hangs)) \<and>
    (\<forall>G fn. WithTransaction G fn h' = (h', Hangs))"
  using assms by (auto simp: WithTransaction_def calls_then_def run_calls_in_tx db_balance_Save_def held_connection_blocks)

text \<open>A panic in the body leaves the transaction open: \<open>WithTransaction\<close> has no deferred rollback. Where the panic is
  recovered, the database is lost for the rest of the process.\<close>

theorem panic_in_a_transaction_blocks_the_database:
  assumes "dh_tx h = None" "te_begin F = None" "snd (all_calls ss (dh_data h)) = Ok ()"
    and "WithTransaction F (calls_then ss (\<lambda>h. (h, Panicked))) h = (h', r)"
  shows "r = Panicked \<and> dh_data h' = dh_data h \<and> (\<forall>stmt. execute OnConn stmt h' = (h', Hangs)) \<and>
    (\<forall>G fn. WithTransaction G fn h' = (h', Hangs))"
  using assms by (auto simp: WithTransaction_def calls_then_def run_calls_in_tx held_connection_blocks)

end
