(* ===== verification/Snapshot_Store.thy ===== *)
theory Snapshot_Store
  imports Runtime_Manager
begin

text \<open>
  The file behind the runtime repository, \<open>internal/providers/runtime/snapshot_store.go\<close>: the text form of a status,
  and saving by a temporary file and a rename. JSON and RFC3339Nano are parameters. A file is its content; a save is
  a sequence of steps, each of which may fail, and after each of which the process may die.
\<close>

subsection \<open>The text form of a status\<close>

record runtime_snapshot =
  rs_Mode :: string
  rs_Connectivity :: string
  rs_License :: string
  rs_Integrity :: string
  rs_NTPDriftNanos :: int
  rs_NewEntriesBlocked :: bool
  rs_HaltReason :: string
  rs_HaltedAtUTC :: string
  rs_Banner :: string
  rs_AnalyticsDegraded :: bool
  rs_LastUpdatedAtUTC :: string

record snap_env =
  sn_text :: "time \<Rightarrow> string"
  sn_parse :: "string \<Rightarrow> time option"
  sn_encode :: "runtime_snapshot \<Rightarrow> string"
  sn_decode :: "string \<Rightarrow> string + runtime_snapshot"

text \<open>The named string types: a conversion gives the constant of that text, or the text itself.\<close>

definition run_mode_of :: "string \<Rightarrow> run_mode" where
  "run_mode_of s =
     (case find (\<lambda>m. run_mode_string m = s)
             [RunModeIdle, RunModeScanning, RunModePaperTrading, RunModeBacktesting, RunModeOptimizing, RunModeLiveTrading, RunModeHalted] of
        Some m \<Rightarrow> m | None \<Rightarrow> RunModeOther s)"

fun connectivity_string :: "connectivity_state \<Rightarrow> string" where
  "connectivity_string ConnectivityStateConnected = ''connected''"
| "connectivity_string ConnectivityStateReconnecting = ''reconnecting''"
| "connectivity_string ConnectivityStateNetworkWait = ''network_waiting''"
| "connectivity_string (ConnectivityStateOther s) = s"

definition connectivity_of :: "string \<Rightarrow> connectivity_state" where
  "connectivity_of s =
     (case find (\<lambda>m. connectivity_string m = s) [ConnectivityStateConnected, ConnectivityStateReconnecting, ConnectivityStateNetworkWait] of
        Some m \<Rightarrow> m | None \<Rightarrow> ConnectivityStateOther s)"

fun license_string :: "license_state \<Rightarrow> string" where
  "license_string LicenseStateDemo = ''demo''"
| "license_string LicenseStateLicensed = ''licensed''"
| "license_string LicenseStateGrace = ''grace''"
| "license_string LicenseStateRiskOnly = ''risk_only''"
| "license_string LicenseStateUnlicensed = ''unlicensed''"
| "license_string (LicenseStateOther s) = s"

definition license_of :: "string \<Rightarrow> license_state" where
  "license_of s =
     (case find (\<lambda>m. license_string m = s)
             [LicenseStateDemo, LicenseStateLicensed, LicenseStateGrace, LicenseStateRiskOnly, LicenseStateUnlicensed] of
        Some m \<Rightarrow> m | None \<Rightarrow> LicenseStateOther s)"

fun integrity_string :: "integrity_state \<Rightarrow> string" where
  "integrity_string IntegrityStateTrusted = ''trusted''"
| "integrity_string IntegrityStateDegraded = ''degraded''"
| "integrity_string (IntegrityStateOther s) = s"

definition integrity_of :: "string \<Rightarrow> integrity_state" where
  "integrity_of s =
     (case find (\<lambda>m. integrity_string m = s) [IntegrityStateTrusted, IntegrityStateDegraded] of
        Some m \<Rightarrow> m | None \<Rightarrow> IntegrityStateOther s)"

definition formatSnapshotTime :: "snap_env \<Rightarrow> time \<Rightarrow> string" where
  "formatSnapshotTime E t = (if t = 0 then [] else sn_text E t)"

definition parseSnapshotTime :: "snap_env \<Rightarrow> string \<Rightarrow> string \<Rightarrow> string + time" where
  "parseSnapshotTime E field raw =
     (if raw = [] then Ok 0
      else case sn_parse E raw of None \<Rightarrow> Err (''parse runtime snapshot '' @ field) | Some t \<Rightarrow> Ok t)"

definition snapshotFromDomain :: "snap_env \<Rightarrow> status \<Rightarrow> runtime_snapshot" where
  "snapshotFromDomain E st =
     \<lparr>rs_Mode = run_mode_string (Mode st), rs_Connectivity = connectivity_string (Connectivity st),
      rs_License = license_string (License st), rs_Integrity = integrity_string (Integrity st),
      rs_NTPDriftNanos = NTPDrift st, rs_NewEntriesBlocked = NewEntriesBlocked st, rs_HaltReason = HaltReason st,
      rs_HaltedAtUTC = (case HaltedAtUTC st of Some t \<Rightarrow> if t \<noteq> 0 then formatSnapshotTime E t else [] | None \<Rightarrow> []),
      rs_Banner = Banner st, rs_AnalyticsDegraded = AnalyticsDegraded st,
      rs_LastUpdatedAtUTC = formatSnapshotTime E (LastUpdatedAtUTC st)\<rparr>"

definition snapshot_toDomain :: "snap_env \<Rightarrow> runtime_snapshot \<Rightarrow> string + status" where
  "snapshot_toDomain E s =
     and_then (parseSnapshotTime E ''last_updated_at_utc'' (rs_LastUpdatedAtUTC s)) (\<lambda>lastUpdated.
     and_then (if rs_HaltedAtUTC s = [] then Ok None
               else and_then (parseSnapshotTime E ''halted_at_utc'' (rs_HaltedAtUTC s)) (\<lambda>t. Ok (Some t))) (\<lambda>haltedAt.
     Ok \<lparr>Mode = run_mode_of (rs_Mode s), Connectivity = connectivity_of (rs_Connectivity s),
         License = license_of (rs_License s), Integrity = integrity_of (rs_Integrity s), NTPDrift = rs_NTPDriftNanos s,
         NewEntriesBlocked = rs_NewEntriesBlocked s, HaltReason = rs_HaltReason s, HaltedAtUTC = haltedAt,
         Banner = rs_Banner s, AnalyticsDegraded = rs_AnalyticsDegraded s, LastUpdatedAtUTC = lastUpdated\<rparr>))"

subsection \<open>The file\<close>

record snap_fs =
  fs_main :: "string option"
  fs_tmp :: "string option"

datatype snap_step = SnMkdir | SnCreateTemp | SnWrite | SnSync | SnClose | SnChmod | SnRename

definition save_steps :: "snap_step list" where
  "save_steps = [SnMkdir, SnCreateTemp, SnWrite, SnSync, SnClose, SnChmod, SnRename]"

fun step_effect :: "string \<Rightarrow> snap_step \<Rightarrow> snap_fs \<Rightarrow> snap_fs" where
  "step_effect body SnCreateTemp fs = fs\<lparr>fs_tmp := Some []\<rparr>"
| "step_effect body SnWrite fs = fs\<lparr>fs_tmp := Some body\<rparr>"
| "step_effect body SnRename fs = \<lparr>fs_main = fs_tmp fs, fs_tmp = None\<rparr>"
| "step_effect body _ fs = fs"

text \<open>A step that fails; a write may have written a part.\<close>

fun step_failed :: "nat \<Rightarrow> string \<Rightarrow> snap_step \<Rightarrow> snap_fs \<Rightarrow> snap_fs" where
  "step_failed torn body SnWrite fs = fs\<lparr>fs_tmp := Some (take torn body)\<rparr>"
| "step_failed torn body _ fs = fs"

fun run_steps :: "(snap_step \<Rightarrow> string option) \<Rightarrow> nat \<Rightarrow> string \<Rightarrow> snap_step list \<Rightarrow> snap_fs \<Rightarrow> snap_fs \<times> (string + unit)" where
  "run_steps fault torn body [] fs = (fs, Ok ())"
| "run_steps fault torn body (x # xs) fs =
     (case fault x of
        Some e \<Rightarrow> (step_failed torn body x fs, Err e)
      | None \<Rightarrow> run_steps fault torn body xs (step_effect body x fs))"

text \<open>The deferred removal of the temporary file runs on every return.\<close>

definition snapshot_Save ::
  "snap_env \<Rightarrow> string \<Rightarrow> string option \<Rightarrow> (snap_step \<Rightarrow> string option) \<Rightarrow> nat \<Rightarrow> status \<Rightarrow> snap_fs \<Rightarrow> snap_fs \<times> (string + unit)" where
  "snapshot_Save E path ctx fault torn st fs =
     (if path = [] then (fs, Ok ())
      else case ctx of
        Some e \<Rightarrow> (fs, Err e)
      | None \<Rightarrow>
          (case run_steps fault torn (sn_encode E (snapshotFromDomain E st) @ [CHR 0x0A]) save_steps fs of
             (fs', r) \<Rightarrow> (fs'\<lparr>fs_tmp := None\<rparr>, r)))"

text \<open>The process dies after \<open>n\<close> steps; nothing is removed.\<close>

definition crashed_save :: "snap_env \<Rightarrow> nat \<Rightarrow> status \<Rightarrow> snap_fs \<Rightarrow> snap_fs" where
  "crashed_save E n st fs =
     fst (run_steps (\<lambda>_. None) 0 (sn_encode E (snapshotFromDomain E st) @ [CHR 0x0A]) (take n save_steps) fs)"

definition snapshot_Load :: "snap_env \<Rightarrow> string \<Rightarrow> string option \<Rightarrow> string option \<Rightarrow> snap_fs \<Rightarrow> string + status option" where
  "snapshot_Load E path ctx read_err fs =
     (if path = [] then Ok None
      else case ctx of
        Some e \<Rightarrow> Err e
      | None \<Rightarrow>
          (case fs_main fs of
             None \<Rightarrow> Ok None
           | Some body \<Rightarrow>
               (case read_err of
                  Some e \<Rightarrow> Err (''read runtime snapshot: '' @ e)
                | None \<Rightarrow>
                    (case sn_decode E body of
                       Inl e \<Rightarrow> Err (''decode runtime snapshot: '' @ e)
                     | Inr s \<Rightarrow> and_then (snapshot_toDomain E s) (\<lambda>st. Ok (Some st))))))"

subsection \<open>Laws of the formats\<close>

text \<open>
  What is used of them for one status: its instants are read back as written, and its encoding is decoded again (JSON
  replaces invalid UTF-8, RFC3339 ends with the year 9999, so neither holds of every value).
\<close>

definition snap_laws :: "snap_env \<Rightarrow> status \<Rightarrow> bool" where
  "snap_laws E st \<longleftrightarrow>
     (\<forall>t \<in> {LastUpdatedAtUTC st} \<union> set_option (HaltedAtUTC st). sn_parse E (sn_text E t) = Some t \<and> sn_text E t \<noteq> []) \<and>
     sn_decode E (sn_encode E (snapshotFromDomain E st) @ [CHR 0x0A]) = Ok (snapshotFromDomain E st)"

text \<open>A status whose named strings are constants where they spell one, and whose halt time is not the zero time.\<close>

definition canonical_status :: "status \<Rightarrow> bool" where
  "canonical_status st \<longleftrightarrow>
     run_mode_of (run_mode_string (Mode st)) = Mode st \<and>
     connectivity_of (connectivity_string (Connectivity st)) = Connectivity st \<and>
     license_of (license_string (License st)) = License st \<and>
     integrity_of (integrity_string (Integrity st)) = Integrity st \<and> HaltedAtUTC st \<noteq> Some 0"

lemma run_mode_constant: "(\<forall>s. m \<noteq> RunModeOther s) \<Longrightarrow> run_mode_of (run_mode_string m) = m"
  by (cases m) (simp_all add: run_mode_of_def)

lemma snapshot_text_roundtrip:
  assumes "snap_laws E st" "canonical_status st"
  shows "snapshot_toDomain E (snapshotFromDomain E st) = Ok st"
proof -
  have t: "parseSnapshotTime E f (formatSnapshotTime E (LastUpdatedAtUTC st)) = Ok (LastUpdatedAtUTC st)" for f
    using assms(1) by (simp add: parseSnapshotTime_def formatSnapshotTime_def snap_laws_def)
  show ?thesis
  proof (cases "HaltedAtUTC st")
    case None
    then show ?thesis using assms(2) t by (simp add: snapshot_toDomain_def snapshotFromDomain_def canonical_status_def)
  next
    case (Some h)
    then have "h \<noteq> 0" "sn_parse E (sn_text E h) = Some h" "sn_text E h \<noteq> []"
      using assms by (simp_all add: snap_laws_def canonical_status_def)
    then have "parseSnapshotTime E f (formatSnapshotTime E h) = Ok h" "formatSnapshotTime E h \<noteq> []" for f
      by (simp_all add: parseSnapshotTime_def formatSnapshotTime_def)
    then show ?thesis
      using assms(2) t Some \<open>h \<noteq> 0\<close> by (simp add: snapshot_toDomain_def snapshotFromDomain_def canonical_status_def)
  qed
qed

lemma Load_of_saved:
  assumes "snap_laws E st" "canonical_status st" "fs_main fs = Some (sn_encode E (snapshotFromDomain E st) @ [CHR 0x0A])" "path \<noteq> []"
  shows "snapshot_Load E path None None fs = Ok (Some st)"
  using assms snapshot_text_roundtrip [OF assms(1,2)] by (simp add: snapshot_Load_def snap_laws_def)

text \<open>Until the rename the file is the old one; the rename puts the whole new content.\<close>

lemma steps_before_rename:
  "SnRename \<notin> set xs \<Longrightarrow> fs_main (fst (run_steps fault torn body xs fs)) = fs_main fs"
proof (induction xs arbitrary: fs)
  case (Cons x xs)
  then show ?case by (cases x) (auto split: option.split)
qed simp

lemma run_save_steps:
  assumes "run_steps fault torn body save_steps fs = (fs', r)"
  shows "(r = Ok () \<and> fs_main fs' = Some body) \<or> ((\<exists>e. r = Err e) \<and> fs_main fs' = fs_main fs)"
  using assms by (auto simp: save_steps_def split: option.splits)

lemma crashed_cases:
  "fs_main (crashed_save E n st fs) = fs_main fs \<or>
   fs_main (crashed_save E n st fs) = Some (sn_encode E (snapshotFromDomain E st) @ [CHR 0x0A])"
proof (cases "n < 7")
  case True
  then have "SnRename \<notin> set (take n save_steps)"
    by (auto simp: save_steps_def take_Cons' split: if_splits)
  then show ?thesis using steps_before_rename by (simp add: crashed_save_def)
next
  case False
  then show ?thesis by (simp add: crashed_save_def save_steps_def)
qed

subsection \<open>The repository's file\<close>

text \<open>What \<open>Runtime_Manager\<close> takes the file to be.\<close>

definition snap_abs :: "snap_env \<Rightarrow> string \<Rightarrow> snap_fs \<Rightarrow> (string + status) option" where
  "snap_abs E path fs = (case snapshot_Load E path None None fs of Inl e \<Rightarrow> Some (Inl e) | Inr None \<Rightarrow> None | Inr (Some st) \<Rightarrow> Some (Inr st))"

lemma snap_abs_main: "fs_main fs' = fs_main fs \<Longrightarrow> snap_abs E path fs' = snap_abs E path fs"
  by (simp add: snap_abs_def snapshot_Load_def)

text \<open>C35: the snapshot file implements the persistence that the restart properties assume. When the file reads as the
  repository's snapshot, then after any save of a canonical status, whatever step of it fails and however much
  of a write gets through, the file reads as \<open>persist\<close> leaves the repository; and if the process dies after any
  number of steps, it reads as before the save or as after a successful one, never as a broken file.\<close>

theorem snapshot_file_implements_persist:
  assumes "snap_laws E (Snapshot (r_manager r))" "path \<noteq> []" "has_store r" "snap_abs E path fs = snap_file r" "canonical_status (Snapshot (r_manager r))"
    and "snapshot_Save E path ctx fault torn (Snapshot (r_manager r)) fs = (fs', res)"
  shows "snap_abs E path fs' = snap_file (fst (persist (case res of Inl e \<Rightarrow> Some e | Inr _ \<Rightarrow> None) r)) \<and>
    (snap_abs E path (crashed_save E n (Snapshot (r_manager r)) fs) = snap_file r \<or>
     snap_abs E path (crashed_save E n (Snapshot (r_manager r)) fs) = snap_file (fst (persist None r)))"
proof -
  let ?st = "Snapshot (r_manager r)" and ?body = "sn_encode E (snapshotFromDomain E (Snapshot (r_manager r))) @ [CHR 0x0A]"
  have new: "fs_main g = Some ?body \<Longrightarrow> snap_abs E path g = Some (Inr ?st)" for g
    using Load_of_saved [OF assms(1,5) _ assms(2)] by (simp add: snap_abs_def)
  have "snap_abs E path fs' = snap_file (fst (persist (case res of Inl e \<Rightarrow> Some e | Inr _ \<Rightarrow> None) r))"
  proof (cases ctx)
    case None
    obtain g where g: "run_steps fault torn ?body save_steps fs = (g, res)" "fs' = g\<lparr>fs_tmp := None\<rparr>"
      using assms(2,6) None by (auto simp: snapshot_Save_def split: prod.splits)
    have "fs_main fs' = fs_main g" using g(2) by simp
    then show ?thesis
      using run_save_steps [OF g(1)] new [of fs'] snap_abs_main [of fs' fs E path] assms(3,4) by (auto simp: persist_def)
  next
    case (Some e)
    then show ?thesis using assms(2,3,4,6) by (auto simp: snapshot_Save_def persist_def)
  qed
  moreover have "snap_abs E path (crashed_save E n ?st fs) = snap_file r \<or>
     snap_abs E path (crashed_save E n ?st fs) = snap_file (fst (persist None r))"
    using crashed_cases [of E n ?st fs] new snap_abs_main [of _ fs E path] assms(3,4) by (auto simp: persist_def)
  ultimately show ?thesis by blast
qed

text \<open>A status whose halt time is the zero time comes back without one.\<close>

definition one_snapshot :: "snap_env \<Rightarrow> status \<Rightarrow> snap_env" where
  "one_snapshot E st = E\<lparr>sn_encode := (\<lambda>_. ''{}''), sn_decode := (\<lambda>b. if b = ''{}'' @ [CHR 0x0A] then Ok (snapshotFromDomain E st) else Err ''syntax'')\<rparr>"

definition sample_snap_env :: snap_env where
  "sample_snap_env = \<lparr>sn_text = (\<lambda>_. ''T''), sn_parse = (\<lambda>_. Some 7),
     sn_encode = (\<lambda>_. []), sn_decode = (\<lambda>_. Err ''empty'')\<rparr>"

definition sample_repository :: repository where
  "sample_repository = \<lparr>r_manager = NewManager (\<lambda>_. make_chan 1) 7, has_store = True, snap_file = None\<rparr>"

lemma one_snapshot_simps [simp]:
  "sn_text (one_snapshot E st) = sn_text E" "sn_parse (one_snapshot E st) = sn_parse E"
  "snapshotFromDomain (one_snapshot E st) = snapshotFromDomain E"
  "sn_decode (one_snapshot E st) (sn_encode (one_snapshot E st) s @ [CHR 0x0A]) = Ok (snapshotFromDomain E st)"
  by (simp_all add: one_snapshot_def snapshotFromDomain_def fun_eq_iff formatSnapshotTime_def split: option.split)

lemma sample_snapshot_ok:
  "snap_laws (one_snapshot sample_snap_env (Snapshot (r_manager sample_repository))) (Snapshot (r_manager sample_repository))"
  "canonical_status (Snapshot (r_manager sample_repository))"
  by (simp add: snap_laws_def sample_snap_env_def)
    (simp_all add: sample_repository_def Snapshot_def NewManager_def
       canonical_status_def run_mode_of_def connectivity_of_def license_of_def integrity_of_def)

lemma snapshot_file_implements_persist_witness:
  "\<exists>E fs'. snapshot_Save E ''status.json'' None (\<lambda>_. None) 0 (Snapshot (r_manager sample_repository)) \<lparr>fs_main = None, fs_tmp = None\<rparr> = (fs', Ok ()) \<and>
     snap_abs E ''status.json'' fs' = snap_file (fst (persist None sample_repository))"
proof -
  let ?st = "Snapshot (r_manager sample_repository)" and ?fs = "\<lparr>fs_main = None, fs_tmp = None\<rparr>"
  let ?E = "one_snapshot sample_snap_env ?st"
  obtain fs' where s: "snapshot_Save ?E ''status.json'' None (\<lambda>_. None) 0 ?st ?fs = (fs', Ok ())"
    by (simp add: snapshot_Save_def save_steps_def)
  have "snap_abs ?E ''status.json'' ?fs = snap_file sample_repository"
    by (simp add: snap_abs_def snapshot_Load_def sample_repository_def)
  then show ?thesis
    using snapshot_file_implements_persist [OF sample_snapshot_ok(1) _ _ _ sample_snapshot_ok(2) s] s
    by (auto simp: sample_repository_def intro!: exI [of _ ?E])
qed

end
