(* ===== verification/Dual_Stream.thy ===== *)
theory Dual_Stream
  imports Order_Repo "HOL-Library.Word"
begin

text \<open>
  The two writers that split critical from analytics records: \<open>internal/providers/storage/dualstream.go\<close> and
  \<open>internal/storage/dual/writer.go\<close>, with the order repository on the second one
  (\<open>sqlite/order_repository_dual.go\<close>). Callers, the worker and \<open>Close\<close> interleave; taking an event from the channel
  and writing it are separate steps, and the database may refuse any write. Counters are 64-bit words.
\<close>

subsection \<open>State\<close>

datatype phase = Running | Draining | Exited

text \<open>
  \<open>du_accepted\<close>, \<open>du_handled\<close> and \<open>du_calls\<close> are histories for the statements: the events put into the channel, the
  events taken to the database with its answer, and the number of calls of \<open>WriteAnalytics\<close>.
\<close>

record 'e dual =
  du_queue :: "'e list"
  du_hand :: "'e option"
  du_phase :: phase
  du_closed :: bool
  du_stop :: bool
  du_dbclosed :: bool
  du_critical :: "64 word"
  du_analytics :: "64 word"
  du_dropped :: "64 word"
  du_accepted :: "'e list"
  du_handled :: "('e \<times> bool) list"
  du_calls :: nat

definition new_dual :: "'e dual" where
  "new_dual = \<lparr>du_queue = [], du_hand = None, du_phase = Running, du_closed = False, du_stop = False, du_dbclosed = False,
     du_critical = 0, du_analytics = 0, du_dropped = 0, du_accepted = [], du_handled = [], du_calls = 0\<rparr>"

definition stored :: "'e dual \<Rightarrow> 'e list" where
  "stored s = map fst (filter snd (du_handled s))"

definition WriteCritical :: "string option \<Rightarrow> 'e dual \<Rightarrow> 'e dual \<times> (string + unit)" where
  "WriteCritical fault s =
     (case fault of
        Some e \<Rightarrow> (s, Err (''critical write failed: '' @ e))
      | None \<Rightarrow> (s\<lparr>du_critical := du_critical s + 1\<rparr>, Ok ()))"

text \<open>The channel send of a writer whose buffer holds \<open>cap\<close> events.\<close>

definition enqueue :: "'e \<Rightarrow> 'e dual \<Rightarrow> 'e dual" where
  "enqueue ev s = s\<lparr>du_queue := du_queue s @ [ev], du_accepted := du_accepted s @ [ev]\<rparr>"

subsection \<open>DualStreamWriter (dualstream.go)\<close>

definition WriteAnalytics :: "nat \<Rightarrow> 'e \<Rightarrow> 'e dual \<Rightarrow> 'e dual" where
  "WriteAnalytics cap ev s =
     (let s1 = s\<lparr>du_calls := Suc (du_calls s)\<rparr> in
      if du_closed s then s1\<lparr>du_dropped := du_dropped s + 1\<rparr>
      else if length (du_queue s) < cap then enqueue ev s1
      else s1\<lparr>du_dropped := du_dropped s + 1\<rparr>)"

definition writeAnalyticsEvent :: "bool \<Rightarrow> 'e \<Rightarrow> 'e dual \<Rightarrow> 'e dual" where
  "writeAnalyticsEvent ok ev s =
     s\<lparr>du_hand := None, du_handled := du_handled s @ [(ev, ok)],
       du_analytics := (if ok then du_analytics s + 1 else du_analytics s)\<rparr>"

definition dual_Stats :: "'e dual \<Rightarrow> 64 word \<times> 64 word \<times> 64 word" where
  "dual_Stats s = (du_critical s, du_analytics s, du_dropped s)"

text \<open>
  \<open>analyticsWriter\<close> takes an event or sees the stop; then \<open>drainAnalytics\<close> takes what is left until the channel is
  empty. \<open>Close\<close> sets the flag under the lock that \<open>WriteAnalytics\<close> also holds, stops the worker and waits for it.
\<close>

inductive dsw_step :: "nat \<Rightarrow> 'e dual \<Rightarrow> 'e dual \<Rightarrow> bool" for cap :: nat where
  call_write: "dsw_step cap s (WriteAnalytics cap ev s)"
| critical: "dsw_step cap s (fst (WriteCritical f s))"
| take_event: "du_phase s \<noteq> Exited \<Longrightarrow> du_hand s = None \<Longrightarrow> du_queue s = ev # q \<Longrightarrow> dsw_step cap s (s\<lparr>du_queue := q, du_hand := Some ev\<rparr>)"
| write_event: "du_hand s = Some ev \<Longrightarrow> dsw_step cap s (writeAnalyticsEvent ok ev s)"
| close_flag: "\<not> du_closed s \<Longrightarrow> dsw_step cap s (s\<lparr>du_closed := True\<rparr>)"
| close_stop: "du_closed s \<Longrightarrow> \<not> du_stop s \<Longrightarrow> dsw_step cap s (s\<lparr>du_stop := True\<rparr>)"
| see_stop: "du_phase s = Running \<Longrightarrow> du_hand s = None \<Longrightarrow> du_stop s \<Longrightarrow> dsw_step cap s (s\<lparr>du_phase := Draining\<rparr>)"
| drained: "du_phase s = Draining \<Longrightarrow> du_hand s = None \<Longrightarrow> du_queue s = [] \<Longrightarrow> dsw_step cap s (s\<lparr>du_phase := Exited\<rparr>)"
| close_dbs: "du_stop s \<Longrightarrow> du_phase s = Exited \<Longrightarrow> dsw_step cap s (s\<lparr>du_dbclosed := True\<rparr>)"

definition dsw_reach :: "nat \<Rightarrow> 'e dual \<Rightarrow> bool" where
  "dsw_reach cap s \<longleftrightarrow> (dsw_step cap)\<^sup>*\<^sup>* new_dual s"

definition dsw_inv :: "nat \<Rightarrow> 'e dual \<Rightarrow> bool" where
  "dsw_inv cap s \<longleftrightarrow>
     du_accepted s = map fst (du_handled s) @ (case du_hand s of None \<Rightarrow> [] | Some ev \<Rightarrow> [ev]) @ du_queue s \<and>
     length (du_queue s) \<le> cap \<and>
     du_analytics s = of_nat (length (stored s)) \<and>
     length (du_accepted s) \<le> du_calls s \<and> du_dropped s = of_nat (du_calls s - length (du_accepted s)) \<and>
     (du_stop s \<longrightarrow> du_closed s) \<and> (du_phase s \<noteq> Running \<longrightarrow> du_stop s) \<and>
     (du_phase s = Exited \<longrightarrow> du_queue s = [] \<and> du_hand s = None) \<and> (du_dbclosed s \<longrightarrow> du_phase s = Exited)"

lemma dsw_inv_new: "dsw_inv cap new_dual"
  by (simp add: dsw_inv_def new_dual_def stored_def)

lemma WriteAnalytics_inv: "dsw_inv cap s \<Longrightarrow> dsw_inv cap (WriteAnalytics cap ev s)"
  by (auto simp: dsw_inv_def WriteAnalytics_def enqueue_def stored_def Let_def Suc_diff_le of_nat_Suc)

lemma writeAnalyticsEvent_inv: "dsw_inv cap s \<Longrightarrow> du_hand s = Some ev \<Longrightarrow> dsw_inv cap (writeAnalyticsEvent ok ev s)"
  by (auto simp: dsw_inv_def writeAnalyticsEvent_def stored_def)

lemma dsw_inv_critical: "dsw_inv cap (s\<lparr>du_critical := c\<rparr>) \<longleftrightarrow> dsw_inv cap s"
  by (simp add: dsw_inv_def stored_def)

lemma dsw_step_inv: "dsw_step cap s t \<Longrightarrow> dsw_inv cap s \<Longrightarrow> dsw_inv cap t"
proof (induction rule: dsw_step.induct)
  case (call_write s ev)
  then show ?case by (rule WriteAnalytics_inv)
next
  case (critical s f)
  then show ?case by (cases f) (simp_all add: WriteCritical_def dsw_inv_critical)
next
  case (write_event s ev ok)
  then show ?case by (simp add: writeAnalyticsEvent_inv)
qed (auto simp: dsw_inv_def stored_def)

lemma dsw_reach_inv: "dsw_reach cap s \<Longrightarrow> dsw_inv cap s"
  unfolding dsw_reach_def by (induction rule: rtranclp_induct) (auto intro: dsw_inv_new dsw_step_inv)

text \<open>Once the worker is told to stop, it can always finish by itself, one event after the other.\<close>

lemma dsw_drains:
  assumes "du_phase s = Draining"
  shows "\<exists>t. (dsw_step cap)\<^sup>*\<^sup>* s t \<and> du_phase t = Exited"
  using assms
proof (induction "length (du_queue s)" arbitrary: s)
  case 0
  show ?case
  proof (cases "du_hand s")
    case None
    then show ?thesis using dsw_step.drained [of s cap] 0 by (intro exI [of _ "s\<lparr>du_phase := Exited\<rparr>"]) auto
  next
    case (Some ev)
    let ?t = "writeAnalyticsEvent True ev s"
    have "dsw_step cap ?t (?t\<lparr>du_phase := Exited\<rparr>)"
      using 0 by (intro dsw_step.drained) (simp_all add: writeAnalyticsEvent_def)
    then show ?thesis using dsw_step.write_event [OF Some, of cap True]
      by (intro exI [of _ "?t\<lparr>du_phase := Exited\<rparr>"]) (auto intro: converse_rtranclp_into_rtranclp)
  qed
next
  case (Suc n)
  define u where "u = (case du_hand s of None \<Rightarrow> s | Some ev \<Rightarrow> writeAnalyticsEvent True ev s)"
  have u: "(dsw_step cap)\<^sup>*\<^sup>* s u" "du_hand u = None" "du_phase u = Draining" "du_queue u = du_queue s"
    using dsw_step.write_event [of s _ cap True] Suc.prems
    by (auto simp: u_def writeAnalyticsEvent_def split: option.split)
  obtain ev q where q: "du_queue u = ev # q" "length q = n" using Suc.hyps(2) u(4) by (cases "du_queue s") auto
  have t: "dsw_step cap u (u\<lparr>du_queue := q, du_hand := Some ev\<rparr>)"
    using u(2,3) q(1) by (intro dsw_step.take_event) simp_all
  obtain t where "(dsw_step cap)\<^sup>*\<^sup>* (u\<lparr>du_queue := q, du_hand := Some ev\<rparr>) t" "du_phase t = Exited"
    using Suc.hyps(1) [of "u\<lparr>du_queue := q, du_hand := Some ev\<rparr>"] q(2) u(3) by auto
  then show ?case using u(1) t by (meson converse_rtranclp_into_rtranclp rtranclp_trans)
qed


lemma dsw_sample_reach: "dsw_reach 1 (WriteAnalytics 1 ''b'' (WriteAnalytics 1 ''a'' new_dual))"
  unfolding dsw_reach_def
  by (meson dsw_step.call_write rtranclp.rtrancl_into_rtrancl rtranclp.rtrancl_refl)


subsection \<open>dual.Writer (writer.go)\<close>

text \<open>
  This writer does not look at the flag, counts an event when it is buffered, and its worker stops at once; \<open>Close\<close>
  itself drains the channel after the worker has gone, and then closes the databases.
\<close>

definition w_WriteAnalytics :: "nat \<Rightarrow> 'e \<Rightarrow> 'e dual \<Rightarrow> 'e dual" where
  "w_WriteAnalytics cap ev s =
     (let s1 = s\<lparr>du_calls := Suc (du_calls s)\<rparr> in
      if length (du_queue s) < cap then enqueue ev (s1\<lparr>du_analytics := du_analytics s + 1\<rparr>)
      else s1\<lparr>du_dropped := du_dropped s + 1\<rparr>)"

definition w_writeAnalyticsEvent :: "bool \<Rightarrow> 'e \<Rightarrow> 'e dual \<Rightarrow> 'e dual" where
  "w_writeAnalyticsEvent ok ev s = s\<lparr>du_hand := None, du_handled := du_handled s @ [(ev, ok)]\<rparr>"

inductive dual_step :: "nat \<Rightarrow> 'e dual \<Rightarrow> 'e dual \<Rightarrow> bool" for cap :: nat where
  call_write: "dual_step cap s (w_WriteAnalytics cap ev s)"
| critical: "dual_step cap s (fst (WriteCritical f s))"
| take_event: "du_phase s \<noteq> Exited \<Longrightarrow> du_hand s = None \<Longrightarrow> du_queue s = ev # q \<Longrightarrow> dual_step cap s (s\<lparr>du_queue := q, du_hand := Some ev\<rparr>)"
| write_event: "du_hand s = Some ev \<Longrightarrow> dual_step cap s (w_writeAnalyticsEvent ok ev s)"
| close_flag: "\<not> du_closed s \<Longrightarrow> dual_step cap s (s\<lparr>du_closed := True\<rparr>)"
| close_stop: "du_closed s \<Longrightarrow> \<not> du_stop s \<Longrightarrow> dual_step cap s (s\<lparr>du_stop := True\<rparr>)"
| worker_gone: "du_phase s = Running \<Longrightarrow> du_hand s = None \<Longrightarrow> du_stop s \<Longrightarrow> dual_step cap s (s\<lparr>du_phase := Draining\<rparr>)"
| drained: "du_phase s = Draining \<Longrightarrow> du_hand s = None \<Longrightarrow> du_queue s = [] \<Longrightarrow> dual_step cap s (s\<lparr>du_phase := Exited, du_dbclosed := True\<rparr>)"

definition dual_reach :: "nat \<Rightarrow> 'e dual \<Rightarrow> bool" where
  "dual_reach cap s \<longleftrightarrow> (dual_step cap)\<^sup>*\<^sup>* new_dual s"

definition dual_inv :: "'e dual \<Rightarrow> bool" where
  "dual_inv s \<longleftrightarrow>
     du_accepted s = map fst (du_handled s) @ (case du_hand s of None \<Rightarrow> [] | Some ev \<Rightarrow> [ev]) @ du_queue s \<and>
     du_analytics s = of_nat (length (du_accepted s)) \<and> (du_dbclosed s \<longrightarrow> du_phase s = Exited \<and> du_hand s = None)"

lemma dual_step_inv: "dual_step cap s t \<Longrightarrow> dual_inv s \<Longrightarrow> dual_inv t"
proof (induction rule: dual_step.induct)
  case (critical s f)
  then show ?case by (cases f) (simp_all add: WriteCritical_def dual_inv_def)
next
  case (call_write s ev)
  then show ?case by (auto simp: w_WriteAnalytics_def enqueue_def dual_inv_def Let_def)
qed (auto simp: dual_inv_def w_writeAnalyticsEvent_def)

lemma dual_inv_new: "dual_inv new_dual"
  by (simp add: dual_inv_def new_dual_def)

lemma dual_reach_inv: "dual_reach cap s \<Longrightarrow> dual_inv s"
  unfolding dual_reach_def by (induction rule: rtranclp_induct) (auto intro: dual_inv_new dual_step_inv)

lemma closed_stores_nothing:
  assumes "(dual_step cap)\<^sup>*\<^sup>* s t" "du_phase s = Exited" "du_hand s = None"
  shows "du_phase t = Exited \<and> du_hand t = None \<and> du_handled t = du_handled s"
  using assms(1)
proof (induction rule: rtranclp_induct)
  case (step t u)
  from step.hyps(2) step.IH assms(2,3) show ?case
  proof (cases rule: dual_step.cases)
    case (critical f)
    then show ?thesis using step.IH by (cases f) (simp_all add: WriteCritical_def)
  qed (auto simp: w_WriteAnalytics_def enqueue_def Let_def)
qed (simp add: assms)

text \<open>
  An event written after the databases are closed is accepted and counted as a write, and in no later state has it
  been taken to the database.
\<close>

theorem late_events_are_counted_and_lost:
  assumes "dual_reach cap s" "du_dbclosed s" "length (du_queue s) < cap" "(dual_step cap)\<^sup>*\<^sup>* (w_WriteAnalytics cap ev s) t"
  shows "du_analytics (w_WriteAnalytics cap ev s) = du_analytics s + 1 \<and>
    du_accepted (w_WriteAnalytics cap ev s) = du_accepted s @ [ev] \<and> du_handled t = du_handled s"
proof -
  have "du_phase s = Exited" "du_hand s = None" using dual_reach_inv [OF assms(1)] assms(2) by (simp_all add: dual_inv_def)
  then have "du_phase (w_WriteAnalytics cap ev s) = Exited" "du_hand (w_WriteAnalytics cap ev s) = None"
    "du_handled (w_WriteAnalytics cap ev s) = du_handled s"
    using assms(3) by (simp_all add: w_WriteAnalytics_def enqueue_def)
  then have "du_handled t = du_handled s" using closed_stores_nothing [OF assms(4)] by simp
  then show ?thesis using assms(3) by (simp add: w_WriteAnalytics_def enqueue_def)
qed

subsection \<open>The order repository on it (order_repository_dual.go)\<close>

text \<open>
  A database is its tables with their columns; \<open>CREATE TABLE IF NOT EXISTS\<close> adds a table that is missing, and an insert
  names columns, which the table must have.
\<close>

record sql_db =
  db_columns :: "string \<rightharpoonup> string list"
  db_rows :: "string \<Rightarrow> (string \<times> string option) list list"

definition create_table :: "string \<Rightarrow> string list \<Rightarrow> sql_db \<Rightarrow> sql_db" where
  "create_table t cols db = (if db_columns db t = None then db\<lparr>db_columns := (db_columns db)(t \<mapsto> cols)\<rparr> else db)"

definition RunMigrations :: "sql_db \<Rightarrow> sql_db" where
  "RunMigrations db =
     create_table ''risk_events'' [''id'', ''event_type'', ''severity'', ''description'', ''created_at'']
       (create_table ''balances'' [''id'', ''asset'', ''free'', ''locked'', ''updated_at'']
         (create_table ''orders'' [''id'', ''client_order_id'', ''symbol'', ''side'', ''quantity'', ''price'', ''status'', ''created_at'']
           (create_table ''analytics_events'' [''id'', ''event_type'', ''data'', ''timestamp''] db)))"

definition sql_insert :: "string \<Rightarrow> (string \<times> string option) list \<Rightarrow> sql_db \<Rightarrow> sql_db \<times> (string + unit)" where
  "sql_insert t vals db =
     (case db_columns db t of
        None \<Rightarrow> (db, Err (''no such table: '' @ t))
      | Some cols \<Rightarrow>
          (case find (\<lambda>v. fst v \<notin> set cols) vals of
             Some v \<Rightarrow> (db, Err (''table '' @ t @ '' has no column named '' @ fst v))
           | None \<Rightarrow> (db\<lparr>db_rows := (db_rows db)(t := db_rows db t @ [vals])\<rparr>, Ok ())))"

text \<open>\<open>text\<close> is what the driver binds for the named string types of an order.\<close>

definition dual_order_values :: "'d sql_env \<Rightarrow> ('d order \<Rightarrow> string \<Rightarrow> string) \<Rightarrow> 'd order \<Rightarrow> (string \<times> string option) list" where
  "dual_order_values E named ord =
     [(''id'', Some (o_ID ord)), (''client_order_id'', Some (o_ClientOrderID ord)),
      (''exchange_order_id'', nullString (o_ExchangeOrderID ord)), (''strategy_id'', Some (o_StrategyID ord)),
      (''symbol'', Some (o_Symbol ord)), (''side'', Some (named ord ''side'')), (''type'', Some (named ord ''type'')),
      (''status'', Some (named ord ''status'')), (''time_in_force'', Some (named ord ''time_in_force'')),
      (''quantity'', Some (dec_text E (o_Quantity ord))), (''price'', Some (dec_text E (o_Price ord))),
      (''filled_qty'', Some (dec_text E (o_FilledQty ord))), (''remaining_qty'', Some (dec_text E (o_RemainingQty ord))),
      (''avg_fill_price'', Some (dec_text E (o_AvgFillPrice ord))),
      (''created_at_utc'', Some (time_text E (o_CreatedAtUTC ord))), (''updated_at_utc'', Some (time_text E (o_UpdatedAtUTC ord))),
      (''submitted_at_utc'', nullTime E (o_SubmittedAtUTC ord)), (''filled_at_utc'', nullTime E (o_FilledAtUTC ord))]"

definition dual_order_Create ::
  "'d sql_env \<Rightarrow> ('d order \<Rightarrow> string \<Rightarrow> string) \<Rightarrow> 'd order \<Rightarrow> sql_db \<Rightarrow> sql_db \<times> (store_error + unit)" where
  "dual_order_Create E named ord db =
     (case sql_insert ''orders'' (dual_order_values E named ord) db of
        (db', Inr _) \<Rightarrow> (db', Ok ())
      | (db', Inl e) \<Rightarrow>
          (db', Err (if isConstraintError e then SqliteErrDuplicateKey else DbError (''create order (dual): '' @ e))))"

text \<open>
  The insert names columns that the migrations of the writer's own database do not create: on a new database every
  creation of an order fails, and nothing is stored.
\<close>

theorem dual_orders_are_never_stored:
  assumes "db_columns db = Map.empty"
  shows "dual_order_Create E named ord (RunMigrations db) =
    (RunMigrations db, Err (DbError ''create order (dual): table orders has no column named exchange_order_id''))"
proof -
  have "db_columns (RunMigrations db) ''orders'' =
      Some [''id'', ''client_order_id'', ''symbol'', ''side'', ''quantity'', ''price'', ''status'', ''created_at'']"
    using assms by (simp add: RunMigrations_def create_table_def)
  then show ?thesis by (simp add: dual_order_Create_def sql_insert_def dual_order_values_def isConstraintError_def)
qed

end
