(* ===== verification/Bybit_Adapter.thy ===== *)
theory Bybit_Adapter
  imports Engine "HOL-Library.Sublist"
begin

text \<open>
  The adapter between the agent and the exchange connector, \<open>internal/providers/bybit/adapter.go\<close>, with the
  permissions of \<open>internal/domain/connector\<close>. The connector is the third-party package \<open>kairos-contracts\<close>: its
  enumerations are a type \<open>'c\<close> with constants that are only assumed to differ, its calls are answers. A subscription
  is a goroutine between two channels; it is modelled by the steps it takes.
\<close>

subsection \<open>The connector's types\<close>

record 'c conn_consts =
  cc_Buy :: 'c
  cc_Sell :: 'c
  cc_Limit :: 'c
  cc_Market :: 'c
  cc_Pending :: 'c
  cc_Submitted :: 'c
  cc_Partial :: 'c
  cc_Filled :: 'c
  cc_Canceled :: 'c
  cc_Rejected :: 'c
  cc_GTC :: 'c
  cc_IOC :: 'c
  cc_FOK :: 'c
  cc_Trading :: 'c
  cc_Suspended :: 'c
  cc_Maintenance :: 'c
  cc_Long :: 'c
  cc_Short :: 'c
  cc_Disconnected :: 'c
  cc_Reconnected :: 'c
  cc_Gap :: 'c
  cc_text :: "'c \<Rightarrow> string"

text \<open>Within each enumeration the constants differ.\<close>

definition consts_ok :: "'c conn_consts \<Rightarrow> bool" where
  "consts_ok C \<longleftrightarrow> cc_Buy C \<noteq> cc_Sell C \<and> cc_Limit C \<noteq> cc_Market C \<and>
     distinct [cc_Pending C, cc_Submitted C, cc_Partial C, cc_Filled C, cc_Canceled C, cc_Rejected C] \<and>
     distinct [cc_GTC C, cc_IOC C, cc_FOK C]"

record ('c, 'd) conn_order =
  co_ID :: string
  co_ClientOrderID :: string
  co_ExchangeOrderID :: string
  co_StrategyID :: string
  co_Symbol :: string
  co_Side :: 'c
  co_Type :: 'c
  co_Status :: 'c
  co_TimeInForce :: 'c
  co_Quantity :: 'd
  co_Price :: 'd
  co_FilledQty :: 'd
  co_RemainingQty :: 'd
  co_AvgFillPrice :: 'd
  co_CreatedAtUTC :: time
  co_UpdatedAtUTC :: time
  co_SubmittedAtUTC :: "time option"
  co_FilledAtUTC :: "time option"

record ('c, 'd) conn_position =
  cp_Symbol :: string
  cp_Side :: 'c
  cp_Quantity :: 'd
  cp_EntryPrice :: 'd
  cp_CurrentPrice :: 'd
  cp_UnrealizedPnL :: 'd
  cp_RealizedPnL :: 'd

record ('c, 'd) conn_symbol =
  cy_Name :: string
  cy_BaseCurrency :: string
  cy_QuoteCurrency :: string
  cy_Status :: 'c
  cy_MinOrderQty :: 'd
  cy_MaxOrderQty :: 'd
  cy_StepSize :: 'd
  cy_MinPrice :: 'd
  cy_MaxPrice :: 'd
  cy_TickSize :: 'd
  cy_MinNotional :: 'd
  cy_MakerFee :: 'd
  cy_TakerFee :: 'd
  cy_UpdatedAtUTC :: time

record ('c, 'd) conn_order_update =
  cu_OrderID :: string
  cu_ClientOrderID :: string
  cu_ExchangeOrderID :: string
  cu_Status :: 'c
  cu_FilledQty :: 'd
  cu_RemainingQty :: 'd
  cu_AvgFillPrice :: 'd
  cu_UpdatedAtUTC :: time

record 'c conn_stream_event =
  ce_Type :: 'c
  ce_Source :: string
  ce_Reason :: string
  ce_OccurredAtUTC :: time

record 'd conn_balance =
  cb_Asset :: string
  cb_Total :: 'd
  cb_Available :: 'd
  cb_Locked :: 'd
  cb_UpdatedAtUTC :: time

record ('c, 'd) conn_position_update =
  cq_Symbol :: string
  cq_Side :: 'c
  cq_Quantity :: 'd
  cq_EntryPrice :: 'd
  cq_UnrealizedPnL :: 'd
  cq_UpdatedAtUTC :: time

record 'd conn_ticker =
  ct_Symbol :: string
  ct_LastPrice :: 'd
  ct_BidPrice :: 'd
  ct_AskPrice :: 'd
  ct_Volume24h :: 'd
  ct_UpdatedAtUTC :: time

text \<open>The domain's own update types of \<open>internal/domain/connector\<close>.\<close>

record 'd order_update =
  ou_OrderID :: string
  ou_ClientOrderID :: string
  ou_ExchangeOrderID :: string
  ou_Status :: order_status
  ou_FilledQty :: 'd
  ou_RemainingQty :: 'd
  ou_AvgFillPrice :: 'd
  ou_UpdatedAtUTC :: time

record 'd position_update =
  pu_Symbol :: string
  pu_Side :: position_side
  pu_Quantity :: 'd
  pu_EntryPrice :: 'd
  pu_UnrealizedPnL :: 'd
  pu_UpdatedAtUTC :: time

record 'd balance_update =
  bu_Asset :: string
  bu_Total :: 'd
  bu_Available :: 'd
  bu_Locked :: 'd
  bu_UpdatedAtUTC :: time

record 'd ticker_update =
  tk_Symbol :: string
  tk_LastPrice :: 'd
  tk_BidPrice :: 'd
  tk_AskPrice :: 'd
  tk_Volume24h :: 'd
  tk_UpdatedAtUTC :: time

subsection \<open>Mapping functions\<close>

definition mapOrderSide :: "'c conn_consts \<Rightarrow> order_side \<Rightarrow> 'c" where
  "mapOrderSide C side = (if side = OrderSideBuy then cc_Buy C else cc_Sell C)"

definition mapOrderType :: "'c conn_consts \<Rightarrow> order_type \<Rightarrow> 'c" where
  "mapOrderType C t = (if t = OrderTypeLimit then cc_Limit C else cc_Market C)"

fun mapOrderStatus :: "'c conn_consts \<Rightarrow> order_status \<Rightarrow> 'c" where
  "mapOrderStatus C OrderStatusPending = cc_Pending C"
| "mapOrderStatus C OrderStatusSubmitted = cc_Submitted C"
| "mapOrderStatus C OrderStatusPartial = cc_Partial C"
| "mapOrderStatus C OrderStatusFilled = cc_Filled C"
| "mapOrderStatus C OrderStatusCanceled = cc_Canceled C"
| "mapOrderStatus C OrderStatusRejected = cc_Rejected C"
| "mapOrderStatus C (OrderStatusOther s) = cc_Pending C"

fun mapTimeInForce :: "'c conn_consts \<Rightarrow> time_in_force \<Rightarrow> 'c" where
  "mapTimeInForce C TimeInForceGTC = cc_GTC C"
| "mapTimeInForce C TimeInForceIOC = cc_IOC C"
| "mapTimeInForce C TimeInForceFOK = cc_FOK C"
| "mapTimeInForce C (TimeInForceOther s) = cc_GTC C"

definition mapSymbolStatus :: "'c conn_consts \<Rightarrow> 'c \<Rightarrow> symbol_status" where
  "mapSymbolStatus C s =
     (if s = cc_Trading C then SymbolStatusTrading
      else if s = cc_Suspended C then SymbolStatusSuspended
      else if s = cc_Maintenance C then SymbolStatusMaintenance else SymbolStatusSuspended)"

definition unmapOrderSide :: "'c conn_consts \<Rightarrow> 'c \<Rightarrow> order_side" where
  "unmapOrderSide C s = (if s = cc_Buy C then OrderSideBuy else OrderSideSell)"

definition unmapOrderType :: "'c conn_consts \<Rightarrow> 'c \<Rightarrow> order_type" where
  "unmapOrderType C t = (if t = cc_Limit C then OrderTypeLimit else OrderTypeMarket)"

definition unmapOrderStatus :: "'c conn_consts \<Rightarrow> 'c \<Rightarrow> order_status" where
  "unmapOrderStatus C s =
     (if s = cc_Pending C then OrderStatusPending else if s = cc_Submitted C then OrderStatusSubmitted
      else if s = cc_Partial C then OrderStatusPartial else if s = cc_Filled C then OrderStatusFilled
      else if s = cc_Canceled C then OrderStatusCanceled else if s = cc_Rejected C then OrderStatusRejected
      else OrderStatusPending)"

definition unmapTimeInForce :: "'c conn_consts \<Rightarrow> 'c \<Rightarrow> time_in_force" where
  "unmapTimeInForce C t =
     (if t = cc_GTC C then TimeInForceGTC else if t = cc_IOC C then TimeInForceIOC
      else if t = cc_FOK C then TimeInForceFOK else TimeInForceGTC)"

definition unmapPositionSide :: "'c conn_consts \<Rightarrow> 'c \<Rightarrow> position_side" where
  "unmapPositionSide C s =
     (if s = cc_Long C then PositionSideLong else if s = cc_Short C then PositionSideShort else PositionSideFlat)"

definition unmapStreamEventType :: "'c conn_consts \<Rightarrow> 'c \<Rightarrow> stream_event_type" where
  "unmapStreamEventType C t =
     (if t = cc_Disconnected C then StreamEventDisconnected else if t = cc_Reconnected C then StreamEventReconnected
      else if t = cc_Gap C then StreamEventGap else StreamEventOther (cc_text C t))"

definition mapped_order :: "'c conn_consts \<Rightarrow> 'd order \<Rightarrow> ('c, 'd) conn_order" where
  "mapped_order C ord =
     \<lparr>co_ID = o_ID ord, co_ClientOrderID = o_ClientOrderID ord, co_ExchangeOrderID = o_ExchangeOrderID ord,
      co_StrategyID = o_StrategyID ord, co_Symbol = o_Symbol ord, co_Side = mapOrderSide C (o_Side ord),
      co_Type = mapOrderType C (o_Type ord), co_Status = mapOrderStatus C (o_Status ord),
      co_TimeInForce = mapTimeInForce C (o_TimeInForce ord), co_Quantity = o_Quantity ord, co_Price = o_Price ord,
      co_FilledQty = o_FilledQty ord, co_RemainingQty = o_RemainingQty ord, co_AvgFillPrice = o_AvgFillPrice ord,
      co_CreatedAtUTC = o_CreatedAtUTC ord, co_UpdatedAtUTC = o_UpdatedAtUTC ord,
      co_SubmittedAtUTC = o_SubmittedAtUTC ord, co_FilledAtUTC = o_FilledAtUTC ord\<rparr>"

definition unmapOrder :: "'c conn_consts \<Rightarrow> ('c, 'd) conn_order \<Rightarrow> 'd order" where
  "unmapOrder C co =
     \<lparr>o_ID = co_ID co, o_ClientOrderID = co_ClientOrderID co, o_ExchangeOrderID = co_ExchangeOrderID co,
      o_StrategyID = co_StrategyID co, o_Symbol = co_Symbol co, o_Side = unmapOrderSide C (co_Side co),
      o_Type = unmapOrderType C (co_Type co), o_Status = unmapOrderStatus C (co_Status co),
      o_TimeInForce = unmapTimeInForce C (co_TimeInForce co), o_Quantity = co_Quantity co, o_Price = co_Price co,
      o_FilledQty = co_FilledQty co, o_RemainingQty = co_RemainingQty co, o_AvgFillPrice = co_AvgFillPrice co,
      o_CreatedAtUTC = co_CreatedAtUTC co, o_UpdatedAtUTC = co_UpdatedAtUTC co,
      o_SubmittedAtUTC = co_SubmittedAtUTC co, o_FilledAtUTC = co_FilledAtUTC co\<rparr>"

text \<open>Identity, strategy and the instants of a position keep their zero values.\<close>

definition unmapPosition :: "'c conn_consts \<Rightarrow> ('c, 'd) conn_position \<Rightarrow> 'd position" where
  "unmapPosition C cp =
     \<lparr>p_ID = [], p_StrategyID = [], p_Symbol = cp_Symbol cp, p_Side = unmapPositionSide C (cp_Side cp),
      p_Quantity = cp_Quantity cp, p_EntryPrice = cp_EntryPrice cp, p_CurrentPrice = cp_CurrentPrice cp,
      p_UnrealizedPnL = cp_UnrealizedPnL cp, p_RealizedPnL = cp_RealizedPnL cp,
      p_OpenedAtUTC = 0, p_UpdatedAtUTC = 0, p_ClosedAtUTC = None\<rparr>"

definition unmap_symbol :: "'c conn_consts \<Rightarrow> ('c, 'd) conn_symbol \<Rightarrow> 'd symbol" where
  "unmap_symbol C y =
     \<lparr>s_Name = cy_Name y, s_BaseCurrency = cy_BaseCurrency y, s_QuoteCurrency = cy_QuoteCurrency y,
      s_Status = mapSymbolStatus C (cy_Status y), s_MinOrderQty = cy_MinOrderQty y, s_MaxOrderQty = cy_MaxOrderQty y,
      s_MinPrice = cy_MinPrice y, s_MaxPrice = cy_MaxPrice y, s_TickSize = cy_TickSize y, s_StepSize = cy_StepSize y,
      s_MinNotional = cy_MinNotional y, s_MakerFee = cy_MakerFee y, s_TakerFee = cy_TakerFee y,
      s_UpdatedAtUTC = cy_UpdatedAtUTC y\<rparr>"

subsection \<open>Calls\<close>

text \<open>What each call hands to the connector, or makes of its answer.\<close>

definition adapter_SubmitOrder :: "'c conn_consts \<Rightarrow> (('c, 'd) conn_order \<Rightarrow> string + string) \<Rightarrow> 'd order \<Rightarrow> string + string" where
  "adapter_SubmitOrder C conn ord = conn (mapped_order C ord)"

definition adapter_GetOpenOrders :: "'c conn_consts \<Rightarrow> string + ('c, 'd) conn_order list \<Rightarrow> string + 'd order list" where
  "adapter_GetOpenOrders C answer = and_then answer (\<lambda>cos. Ok (map (unmapOrder C) cos))"

definition adapter_QueryOrder :: "'c conn_consts \<Rightarrow> string + ('c, 'd) conn_order \<Rightarrow> string + 'd order" where
  "adapter_QueryOrder C answer = and_then answer (\<lambda>co. Ok (unmapOrder C co))"

definition adapter_GetPosition :: "'c conn_consts \<Rightarrow> string + ('c, 'd) conn_position \<Rightarrow> string + 'd position" where
  "adapter_GetPosition C answer = and_then answer (\<lambda>cp. Ok (unmapPosition C cp))"

text \<open>\<open>None\<close>: the connector has no position snapshots.\<close>

definition adapter_GetPositions :: "'c conn_consts \<Rightarrow> (string + ('c, 'd) conn_position list) option \<Rightarrow> string + 'd position list" where
  "adapter_GetPositions C reader =
     (case reader of
        None \<Rightarrow> Err ''position snapshots unsupported''
      | Some answer \<Rightarrow> and_then answer (\<lambda>cps. Ok (map (unmapPosition C) cps)))"

definition adapter_GetSymbol :: "'c conn_consts \<Rightarrow> string + ('c, 'd) conn_symbol \<Rightarrow> string + 'd symbol" where
  "adapter_GetSymbol C answer = and_then answer (\<lambda>y. Ok (unmap_symbol C y))"

definition unmap_balance :: "'d conn_balance \<Rightarrow> 'd balance" where
  "unmap_balance cb =
     \<lparr>b_Asset = cb_Asset cb, b_Total = cb_Total cb, b_Available = cb_Available cb, b_Locked = cb_Locked cb,
      b_UpdatedAtUTC = cb_UpdatedAtUTC cb\<rparr>"

definition adapter_GetBalance :: "string + 'd conn_balance list \<times> time \<Rightarrow> string + 'd account_balance" where
  "adapter_GetBalance answer =
     and_then answer (\<lambda>(cbs, updated). Ok \<lparr>ab_Balances = map unmap_balance cbs, ab_UpdatedAtUTC = updated\<rparr>)"

record permissions =
  CanRead :: bool
  CanTrade :: bool
  HasWithdraw :: bool
  HasTransfer :: bool

definition IsOverPrivileged :: "permissions \<Rightarrow> bool" where
  "IsOverPrivileged p \<longleftrightarrow> HasWithdraw p \<or> HasTransfer p"

definition IsSufficientForTrading :: "permissions \<Rightarrow> bool" where
  "IsSufficientForTrading p \<longleftrightarrow> CanRead p \<and> CanTrade p"

subsection \<open>Updates\<close>

definition mapped_order_update :: "'c conn_consts \<Rightarrow> ('c, 'd) conn_order_update \<Rightarrow> 'd order_update" where
  "mapped_order_update C u =
     \<lparr>ou_OrderID = cu_OrderID u, ou_ClientOrderID = cu_ClientOrderID u, ou_ExchangeOrderID = cu_ExchangeOrderID u,
      ou_Status = unmapOrderStatus C (cu_Status u), ou_FilledQty = cu_FilledQty u, ou_RemainingQty = cu_RemainingQty u,
      ou_AvgFillPrice = cu_AvgFillPrice u, ou_UpdatedAtUTC = cu_UpdatedAtUTC u\<rparr>"

definition mapped_position_update :: "'c conn_consts \<Rightarrow> ('c, 'd) conn_position_update \<Rightarrow> 'd position_update" where
  "mapped_position_update C u =
     \<lparr>pu_Symbol = cq_Symbol u, pu_Side = unmapPositionSide C (cq_Side u), pu_Quantity = cq_Quantity u,
      pu_EntryPrice = cq_EntryPrice u, pu_UnrealizedPnL = cq_UnrealizedPnL u, pu_UpdatedAtUTC = cq_UpdatedAtUTC u\<rparr>"

definition mapped_balance_update :: "'d conn_balance \<Rightarrow> 'd balance_update" where
  "mapped_balance_update u =
     \<lparr>bu_Asset = cb_Asset u, bu_Total = cb_Total u, bu_Available = cb_Available u, bu_Locked = cb_Locked u,
      bu_UpdatedAtUTC = cb_UpdatedAtUTC u\<rparr>"

definition mapped_ticker :: "'d conn_ticker \<Rightarrow> 'd ticker_update" where
  "mapped_ticker u =
     \<lparr>tk_Symbol = ct_Symbol u, tk_LastPrice = ct_LastPrice u, tk_BidPrice = ct_BidPrice u, tk_AskPrice = ct_AskPrice u,
      tk_Volume24h = ct_Volume24h u, tk_UpdatedAtUTC = ct_UpdatedAtUTC u\<rparr>"

definition mapped_stream_event :: "'c conn_consts \<Rightarrow> 'c conn_stream_event \<Rightarrow> stream_event" where
  "mapped_stream_event C ev =
     \<lparr>se_Type = unmapStreamEventType C (ce_Type ev), se_Source = ce_Source ev, se_Reason = ce_Reason ev,
      se_OccurredAtUTC = ce_OccurredAtUTC ev\<rparr>"

text \<open>
  One subscription: the connector's channel with what it still holds, the goroutine with the update it has in hand,
  the adapter's channel of capacity 100, and the reader. \<open>rl_sent\<close> and \<open>rl_got\<close> record what the connector sent and
  what the reader received. All five \<open>Subscribe\<close> functions start this goroutine; they differ in the mapping \<open>f\<close>.
\<close>

record ('u, 'v) relay =
  rl_source :: "'u list"
  rl_source_closed :: bool
  rl_hand :: "'v option"
  rl_out :: "'v chan"
  rl_ctx_done :: bool
  rl_exited :: bool
  rl_sent :: "'u list"
  rl_got :: "'v list"

definition subscribe :: "('u, 'v) relay" where
  "subscribe = \<lparr>rl_source = [], rl_source_closed = False, rl_hand = None, rl_out = make_chan 100, rl_ctx_done = False,
     rl_exited = False, rl_sent = [], rl_got = []\<rparr>"

text \<open>The goroutine's deferred \<open>close(ch)\<close>; an update in hand is gone.\<close>

definition relay_exit :: "('u, 'v) relay \<Rightarrow> ('u, 'v) relay" where
  "relay_exit r = r\<lparr>rl_exited := True, rl_hand := None, rl_out := (rl_out r)\<lparr>chan.closed := True\<rparr>\<rparr>"

inductive relay_step :: "('u \<Rightarrow> 'v) \<Rightarrow> ('u, 'v) relay \<Rightarrow> ('u, 'v) relay \<Rightarrow> bool" for f :: "'u \<Rightarrow> 'v" where
  connector_sends: "\<not> rl_source_closed r \<Longrightarrow>
     relay_step f r (r\<lparr>rl_source := rl_source r @ [u], rl_sent := rl_sent r @ [u]\<rparr>)"
| connector_closes: "relay_step f r (r\<lparr>rl_source_closed := True\<rparr>)"
| cancel: "relay_step f r (r\<lparr>rl_ctx_done := True\<rparr>)"
| take: "\<not> rl_exited r \<Longrightarrow> rl_hand r = None \<Longrightarrow> rl_source r = u # us \<Longrightarrow>
     relay_step f r (r\<lparr>rl_source := us, rl_hand := Some (f u)\<rparr>)"
| source_ended: "\<not> rl_exited r \<Longrightarrow> rl_hand r = None \<Longrightarrow> rl_source r = [] \<Longrightarrow> rl_source_closed r \<Longrightarrow>
     relay_step f r (relay_exit r)"
| forward: "\<not> rl_exited r \<Longrightarrow> rl_hand r = Some v \<Longrightarrow> try_send v (rl_out r) = Sent out \<Longrightarrow>
     relay_step f r (r\<lparr>rl_hand := None, rl_out := out\<rparr>)"
| ctx_ended: "\<not> rl_exited r \<Longrightarrow> rl_ctx_done r \<Longrightarrow> relay_step f r (relay_exit r)"
| receive: "buf (rl_out r) = v # vs \<Longrightarrow>
     relay_step f r (r\<lparr>rl_out := (rl_out r)\<lparr>buf := vs\<rparr>, rl_got := rl_got r @ [v]\<rparr>)"

text \<open>The five subscriptions: the connector's error, or the relay with its steps.\<close>

type_synonym ('u, 'v) relay_subscription = "('u, 'v) relay \<times> (('u, 'v) relay \<Rightarrow> ('u, 'v) relay \<Rightarrow> bool)"

definition subscription_of :: "('u \<Rightarrow> 'v) \<Rightarrow> string + unit \<Rightarrow> string + ('u, 'v) relay_subscription" where
  "subscription_of f answer = and_then answer (\<lambda>_. Ok (subscribe, relay_step f))"

definition SubscribeOrders ::
  "'c conn_consts \<Rightarrow> string + unit \<Rightarrow> string + (('c, 'd) conn_order_update, 'd order_update) relay_subscription" where
  "SubscribeOrders C answer = subscription_of (mapped_order_update C) answer"

definition SubscribePositions ::
  "'c conn_consts \<Rightarrow> string + unit \<Rightarrow> string + (('c, 'd) conn_position_update, 'd position_update) relay_subscription" where
  "SubscribePositions C answer = subscription_of (mapped_position_update C) answer"

definition SubscribeBalance :: "string + unit \<Rightarrow> string + ('d conn_balance, 'd balance_update) relay_subscription" where
  "SubscribeBalance answer = subscription_of mapped_balance_update answer"

definition SubscribeTicker :: "string + unit \<Rightarrow> string + ('d conn_ticker, 'd ticker_update) relay_subscription" where
  "SubscribeTicker answer = subscription_of mapped_ticker answer"

text \<open>\<open>None\<close>: the connector has no stream events.\<close>

definition SubscribeStreamEvents ::
  "'c conn_consts \<Rightarrow> (string + unit) option \<Rightarrow> string + ('c conn_stream_event, stream_event) relay_subscription" where
  "SubscribeStreamEvents C subscriber =
     (case subscriber of
        None \<Rightarrow> Err ''stream events unsupported''
      | Some answer \<Rightarrow> subscription_of (mapped_stream_event C) answer)"

text \<open>Everything that has left the connector, in the places where it is.\<close>

definition relay_in_flight :: "('u, 'v) relay \<Rightarrow> 'v list" where
  "relay_in_flight r = rl_got r @ buf (rl_out r) @ (case rl_hand r of None \<Rightarrow> [] | Some v \<Rightarrow> [v])"

definition relay_ok :: "('u \<Rightarrow> 'v) \<Rightarrow> ('u, 'v) relay \<Rightarrow> bool" where
  "relay_ok f r \<longleftrightarrow>
     length (buf (rl_out r)) \<le> 100 \<and> capacity (rl_out r) = 100 \<and> (chan.closed (rl_out r) \<longleftrightarrow> rl_exited r) \<and>
     (rl_exited r \<longrightarrow> rl_hand r = None \<and> prefix (relay_in_flight r) (map f (rl_sent r))) \<and>
     (\<not> rl_exited r \<longrightarrow> relay_in_flight r @ map f (rl_source r) = map f (rl_sent r)) \<and>
     (rl_exited r \<and> \<not> rl_ctx_done r \<longrightarrow> rl_source_closed r \<and> relay_in_flight r = map f (rl_sent r))"


subsection \<open>Properties of the mapping\<close>

text \<open>The values the domain knows by name.\<close>

fun known_type :: "order_type \<Rightarrow> bool" where
  "known_type (OrderTypeOther s) \<longleftrightarrow> False"
| "known_type t \<longleftrightarrow> True"

fun known_side :: "order_side \<Rightarrow> bool" where
  "known_side (OrderSideOther s) \<longleftrightarrow> False"
| "known_side t \<longleftrightarrow> True"

fun known_status :: "order_status \<Rightarrow> bool" where
  "known_status (OrderStatusOther s) \<longleftrightarrow> False"
| "known_status t \<longleftrightarrow> True"

fun known_tif :: "time_in_force \<Rightarrow> bool" where
  "known_tif (TimeInForceOther s) \<longleftrightarrow> False"
| "known_tif t \<longleftrightarrow> True"

definition known_order :: "'d order \<Rightarrow> bool" where
  "known_order ord \<longleftrightarrow> known_side (o_Side ord) \<and> known_type (o_Type ord) \<and> known_status (o_Status ord) \<and>
     known_tif (o_TimeInForce ord)"

lemma side_known: "unmapOrderSide C (mapOrderSide C s) = s \<Longrightarrow> known_side s"
  by (cases s) (auto simp: unmapOrderSide_def split: if_splits)

lemma type_known: "unmapOrderType C (mapOrderType C t) = t \<Longrightarrow> known_type t"
  by (cases t) (auto simp: unmapOrderType_def split: if_splits)

lemma status_known: "unmapOrderStatus C (mapOrderStatus C s) = s \<Longrightarrow> known_status s"
  by (cases s) (auto simp: unmapOrderStatus_def split: if_splits)

lemma tif_known: "unmapTimeInForce C (mapTimeInForce C t) = t \<Longrightarrow> known_tif t"
  by (cases t) (auto simp: unmapTimeInForce_def split: if_splits)

definition test_consts :: "nat conn_consts" where
  "test_consts = \<lparr>cc_Buy = 0, cc_Sell = 1, cc_Limit = 2, cc_Market = 3, cc_Pending = 4, cc_Submitted = 5,
     cc_Partial = 6, cc_Filled = 7, cc_Canceled = 8, cc_Rejected = 9, cc_GTC = 10, cc_IOC = 11, cc_FOK = 12,
     cc_Trading = 13, cc_Suspended = 14, cc_Maintenance = 15, cc_Long = 16, cc_Short = 17, cc_Disconnected = 18,
     cc_Reconnected = 19, cc_Gap = 20, cc_text = (\<lambda>n. ''text'')\<rparr>"

lemma test_consts_ok: "consts_ok test_consts"
  by (simp add: consts_ok_def test_consts_def)

lemma side_back: "consts_ok C \<Longrightarrow> known_side s \<Longrightarrow> unmapOrderSide C (mapOrderSide C s) = s"
  by (cases s) (auto simp: consts_ok_def unmapOrderSide_def mapOrderSide_def)

lemma type_back: "consts_ok C \<Longrightarrow> known_type t \<Longrightarrow> unmapOrderType C (mapOrderType C t) = t"
  by (cases t) (auto simp: consts_ok_def unmapOrderType_def mapOrderType_def)

lemma status_back: "consts_ok C \<Longrightarrow> known_status s \<Longrightarrow> unmapOrderStatus C (mapOrderStatus C s) = s"
  by (cases s) (auto simp: consts_ok_def unmapOrderStatus_def)

lemma tif_back: "consts_ok C \<Longrightarrow> known_tif t \<Longrightarrow> unmapTimeInForce C (mapTimeInForce C t) = t"
  by (cases t) (auto simp: consts_ok_def unmapTimeInForce_def)

text \<open>Orders reach the exchange and come back unchanged exactly when every enumeration holds one of the domain's
  own values: the order that the adapter reads back, when the connector reports the order it was handed, is the
  submitted one in every field; any other side, type, status or time in force is replaced by a default on the way.\<close>

theorem exchange_order_roundtrip:
  assumes "consts_ok C"
  shows "adapter_QueryOrder C (Inr (mapped_order C ord)) = Inr ord \<longleftrightarrow> known_order ord"
proof
  assume "adapter_QueryOrder C (Inr (mapped_order C ord)) = Inr ord"
  then have e: "unmapOrder C (mapped_order C ord) = ord"
    by (simp add: adapter_QueryOrder_def)
  have "unmapOrderSide C (mapOrderSide C (o_Side ord)) = o_Side ord"
    "unmapOrderType C (mapOrderType C (o_Type ord)) = o_Type ord"
    "unmapOrderStatus C (mapOrderStatus C (o_Status ord)) = o_Status ord"
    "unmapTimeInForce C (mapTimeInForce C (o_TimeInForce ord)) = o_TimeInForce ord"
    using arg_cong [OF e, of o_Side] arg_cong [OF e, of o_Type] arg_cong [OF e, of o_Status]
      arg_cong [OF e, of o_TimeInForce]
    by (simp_all add: unmapOrder_def mapped_order_def)
  then show "known_order ord"
    by (metis known_order_def side_known type_known status_known tif_known)
qed (use assms in \<open>simp add: adapter_QueryOrder_def unmapOrder_def mapped_order_def known_order_def
      side_back type_back status_back tif_back\<close>)

definition test_order :: "int order" where
  "test_order = \<lparr>o_ID = ''1'', o_ClientOrderID = ''c'', o_ExchangeOrderID = [], o_StrategyID = ''s'', o_Symbol = ''BTC'',
     o_Side = OrderSideBuy, o_Type = OrderTypeLimit, o_Status = OrderStatusPending, o_TimeInForce = TimeInForceIOC,
     o_Quantity = 2, o_Price = 7, o_FilledQty = 0, o_RemainingQty = 2, o_AvgFillPrice = 0, o_CreatedAtUTC = 1,
     o_UpdatedAtUTC = 1, o_SubmittedAtUTC = None, o_FilledAtUTC = None\<rparr>"

theorem exchange_order_roundtrip_witness:
  "adapter_QueryOrder test_consts (Inr (mapped_order test_consts test_order)) = Inr test_order \<and>
   adapter_QueryOrder test_consts (Inr (mapped_order test_consts (test_order\<lparr>o_Side := OrderSideOther ''short''\<rparr>)))
     \<noteq> Inr (test_order\<lparr>o_Side := OrderSideOther ''short''\<rparr>)"
  using exchange_order_roundtrip [OF test_consts_ok, of test_order]
    exchange_order_roundtrip [OF test_consts_ok, of "test_order\<lparr>o_Side := OrderSideOther ''short''\<rparr>"]
  by (simp add: known_order_def test_order_def)

text \<open>What the defaults are: an order of an unknown side is sold, one of an unknown type goes out as a market order,
  and a status of the exchange that the agent does not know makes the order pending again.\<close>

theorem unknown_enumerations_change_the_order:
  "co_Side (mapped_order C (ord\<lparr>o_Side := OrderSideOther s\<rparr>)) = cc_Sell C \<and>
   co_Type (mapped_order C (ord\<lparr>o_Type := OrderTypeOther s\<rparr>)) = cc_Market C \<and>
   (co_Status co \<notin> {cc_Submitted C, cc_Partial C, cc_Filled C, cc_Canceled C, cc_Rejected C} \<longrightarrow>
      o_Status (unmapOrder C co) = OrderStatusPending)"
  by (auto simp: mapped_order_def mapOrderSide_def mapOrderType_def unmapOrder_def unmapOrderStatus_def)

subsection \<open>Properties of a subscription\<close>

lemma relay_ok_subscribe: "relay_ok f subscribe"
  by (simp add: relay_ok_def subscribe_def relay_in_flight_def)

lemma relay_step_ok: "relay_step f r r' \<Longrightarrow> relay_ok f r \<Longrightarrow> relay_ok f r'"
proof (induction rule: relay_step.induct)
  case (connector_sends r u)
  then show ?case
    by (auto simp: relay_ok_def relay_in_flight_def)
next
  case (forward r v out)
  then show ?case
    using try_send_Sent [OF forward(3)] by (auto simp: relay_ok_def relay_in_flight_def)
next
  case (ctx_ended r)
  then show ?case
    by (auto simp: relay_ok_def relay_in_flight_def relay_exit_def) (metis append_assoc prefixI)
qed (auto simp: relay_ok_def relay_in_flight_def relay_exit_def split: option.splits)

lemma relay_reachable_ok: "(relay_step f)\<^sup>*\<^sup>* subscribe r \<Longrightarrow> relay_ok f r"
  by (induction rule: rtranclp_induct) (auto simp: relay_ok_subscribe relay_step_ok)


lemma relay_steps_ok: "(relay_step f)\<^sup>*\<^sup>* r r' \<Longrightarrow> relay_ok f r \<Longrightarrow> relay_ok f r'"
  by (induction rule: rtranclp_induct) (auto simp: relay_step_ok)

text \<open>The reader empties the adapter's channel.\<close>

definition received :: "('u, 'v) relay \<Rightarrow> ('u, 'v) relay" where
  "received r = r\<lparr>rl_out := (rl_out r)\<lparr>buf := []\<rparr>, rl_got := rl_got r @ buf (rl_out r)\<rparr>"

lemma receive_all: "(relay_step f)\<^sup>*\<^sup>* r (received r)"
proof (induction "buf (rl_out r)" arbitrary: r)
  case Nil
  then have "received r = r"
    by (simp add: received_def)
  then show ?case
    by simp
next
  case (Cons v vs)
  let ?r = "r\<lparr>rl_out := (rl_out r)\<lparr>buf := vs\<rparr>, rl_got := rl_got r @ [v]\<rparr>"
  have "relay_step f r ?r"
    by (rule receive) (simp add: Cons.hyps(2) [symmetric])
  moreover have "received ?r = received r"
    by (simp add: received_def Cons.hyps(2) [symmetric])
  ultimately show ?case
    using Cons.hyps(1) [of ?r] by (simp add: converse_rtranclp_into_rtranclp)
qed

lemma updates_can_arrive:
  assumes "relay_ok f r" "\<not> rl_exited r"
  shows "\<exists>r'. (relay_step f)\<^sup>*\<^sup>* r r' \<and> rl_got r' = map f (rl_sent r)"
  using assms
proof (induction "2 * length (rl_source r) + (case rl_hand r of None \<Rightarrow> 0 | Some v \<Rightarrow> 1)" arbitrary: r rule: less_induct)
  case less
  let ?e = "received r"
  have e: "(relay_step f)\<^sup>*\<^sup>* r ?e" "relay_ok f ?e"
    using receive_all relay_steps_ok less.prems by blast+
  have step: "\<exists>r'. (relay_step f)\<^sup>*\<^sup>* r r' \<and> rl_got r' = map f (rl_sent r)"
    if "relay_step f ?e t" "\<not> rl_exited t" "rl_sent t = rl_sent r"
      "2 * length (rl_source t) + (case rl_hand t of None \<Rightarrow> 0 | Some v \<Rightarrow> 1)
        < 2 * length (rl_source r) + (case rl_hand r of None \<Rightarrow> 0 | Some v \<Rightarrow> 1)" for t
    using less.hyps [OF that(4) relay_step_ok [OF that(1) e(2)] that(2)] e(1) that(1,3)
    by (metis rtranclp.rtrancl_into_rtrancl rtranclp_trans)
  show ?case
  proof (cases "rl_hand r")
    case (Some v)
    let ?out = "(rl_out ?e)\<lparr>buf := [v]\<rparr>"
    have "try_send v (rl_out ?e) = Sent ?out"
      using less.prems by (simp add: received_def try_send_def relay_ok_def)
    then have "relay_step f ?e (?e\<lparr>rl_hand := None, rl_out := ?out\<rparr>)"
      using less.prems(2) Some by (intro forward) (simp_all add: received_def)
    from step [OF this] show ?thesis
      using less.prems(2) Some by (simp add: received_def)
  next
    case None
    show ?thesis
    proof (cases "rl_source r")
      case Nil
      then have "rl_got ?e = map f (rl_sent r)"
        using less.prems None by (simp add: relay_ok_def relay_in_flight_def received_def)
      then show ?thesis
        using e(1) by blast
    next
      case (Cons u us)
      then have "relay_step f ?e (?e\<lparr>rl_source := us, rl_hand := Some (f u)\<rparr>)"
        using less.prems(2) None by (intro take) (simp_all add: received_def)
      from step [OF this] show ?thesis
        using less.prems(2) None Cons by (simp add: received_def)
    qed
  qed
qed

text \<open>A subscription neither reorders, repeats nor invents updates: what the reader has received is at any time
  an initial part of the mapped updates that the connector sent, and as long as the context is not cancelled the
  reader can still receive all of them, also when the connector has closed its channel and the goroutine has ended.\<close>

theorem subscriptions_deliver_in_order:
  assumes "SubscribeOrders C answer = Ok (r0, step)" "step\<^sup>*\<^sup>* r0 r"
  shows "prefix (rl_got r) (map (mapped_order_update C) (rl_sent r)) \<and>
    (\<not> rl_ctx_done r \<longrightarrow> (\<exists>r'. step\<^sup>*\<^sup>* r r' \<and> rl_got r' = map (mapped_order_update C) (rl_sent r)))"
proof -
  from assms(1) have s: "r0 = subscribe" "step = relay_step (mapped_order_update C)"
    by (auto simp: SubscribeOrders_def subscription_of_def and_then_Ok)
  have ok: "relay_ok (mapped_order_update C) r"
    using relay_reachable_ok assms(2) unfolding s .
  have "prefix (rl_got r) (map (mapped_order_update C) (rl_sent r))"
    using ok unfolding relay_ok_def relay_in_flight_def by (metis append.assoc append_prefixD prefixI)
  moreover have "rl_got (received r) = map (mapped_order_update C) (rl_sent r)" if "rl_exited r" "\<not> rl_ctx_done r"
    using ok that by (cases "rl_hand r") (simp_all add: relay_ok_def relay_in_flight_def received_def)
  ultimately show ?thesis
    using updates_can_arrive [OF ok] receive_all unfolding s by metis
qed

theorem subscriptions_deliver_in_order_witness:
  "\<exists>r u r'. (relay_step (mapped_order_update test_consts))\<^sup>*\<^sup>* subscribe r \<and> rl_sent r = [u :: (nat, int) conn_order_update] \<and>
     (relay_step (mapped_order_update test_consts))\<^sup>*\<^sup>* r r' \<and> rl_got r' = [mapped_order_update test_consts u]"
proof -
  let ?u = "\<lparr>cu_OrderID = ''1'', cu_ClientOrderID = ''c'', cu_ExchangeOrderID = ''x'', cu_Status = 7, cu_FilledQty = 2,
    cu_RemainingQty = 0, cu_AvgFillPrice = 5, cu_UpdatedAtUTC = 3\<rparr> :: (nat, int) conn_order_update"
  let ?s = "subscribe :: ((nat, int) conn_order_update, int order_update) relay"
  let ?r = "?s\<lparr>rl_source := rl_source ?s @ [?u], rl_sent := rl_sent ?s @ [?u]\<rparr>"
  have o: "SubscribeOrders test_consts (Inr ()) = Ok (?s, relay_step (mapped_order_update test_consts))"
    by (simp add: SubscribeOrders_def subscription_of_def)
  have r: "(relay_step (mapped_order_update test_consts))\<^sup>*\<^sup>* ?s ?r"
    by (rule r_into_rtranclp, rule connector_sends) (simp add: subscribe_def)
  have "rl_sent ?r = [?u]" "\<not> rl_ctx_done ?r"
    by (simp_all add: subscribe_def)
  with subscriptions_deliver_in_order [OF o r] obtain r' where
    "(relay_step (mapped_order_update test_consts))\<^sup>*\<^sup>* ?r r'" "rl_got r' = [mapped_order_update test_consts ?u]"
    by auto
  with r \<open>rl_sent ?r = [?u]\<close> show ?thesis
    by blast
qed

end
