(* ===== verification/Local_Storage.thy ===== *)
theory Local_Storage
  imports Strategy_Repo Go_Text "HOL-Library.Sublist"
begin

text \<open>
  The local trades database (\<open>internal/storage/storage.go\<close>), the CSV export (\<open>internal/export/csv.go\<close>) and the
  repository that joins them (\<open>internal/providers/storage/repository.go\<close>). The database is a record of tables with
  text columns as in \<open>Sql_Table\<close>; every statement, commit and file operation has a fault in the arguments.
\<close>

subsection \<open>Rows\<close>

record 'd rate_state =
  rs_BucketID :: string
  rs_Tokens :: 'd
  rs_Capacity :: 'd
  rs_RefillPerSecond :: 'd
  rs_UpdatedAtUTC :: time

record 'd partial_fill =
  pf_ClientOrderID :: string
  pf_Symbol :: string
  pf_FilledQty :: 'd
  pf_RemainingQty :: 'd
  pf_AvgFillPrice :: 'd
  pf_UpdatedAtUTC :: time

record 'd export_trade =
  et_Date :: time
  et_Pair :: string
  et_Side :: string
  et_Size :: 'd
  et_EntryPrice :: 'd
  et_ExitPrice :: 'd
  et_Fee :: 'd
  et_RealizedPNL :: 'd

record rate_row =
  rr_bucket_id :: string
  rr_tokens :: string
  rr_capacity :: string
  rr_refill_per_second :: string
  rr_updated_at :: string

record fill_row =
  fr_client_order_id :: string
  fr_symbol :: string
  fr_filled_qty :: string
  fr_remaining_qty :: string
  fr_avg_fill_price :: string
  fr_updated_at :: string

record trade_row =
  tr_date :: string
  tr_pair :: string
  tr_side :: string
  tr_size :: string
  tr_entry_price :: string
  tr_exit_price :: string
  tr_fee :: string
  tr_realized_pnl :: string

record applied_migration =
  am_version :: int
  am_hash :: string
  am_applied_at :: string
  am_agent_version :: string

record trades_db =
  td_tables :: "string list"
  td_migrations :: "applied_migration list"
  td_rate_state :: "rate_row list"
  td_partial_fills :: "fill_row list"
  td_closed_trades :: "trade_row list"

definition empty_db :: trades_db where
  "empty_db = \<lparr>td_tables = [], td_migrations = [], td_rate_state = [], td_partial_fills = [], td_closed_trades = []\<rparr>"

subsection \<open>Migrations\<close>

text \<open>A migration's query consists of \<open>CREATE TABLE IF NOT EXISTS\<close> statements; \<open>tm_creates\<close> lists the tables.\<close>

record trades_migration =
  tm_version :: int
  tm_hash :: string
  tm_creates :: "string list"

definition tradesMigrations :: "trades_migration list" where
  "tradesMigrations = [\<lparr>tm_version = 1, tm_hash = ''trades-v1-20260429'',
     tm_creates = [''schema_migrations'', ''partial_fills'', ''closed_trades'', ''rate_state'']\<rparr>]"

record migration_faults =
  mf_create :: "string option"
  mf_current :: "string option"
  mf_begin :: "int \<Rightarrow> string option"
  mf_exec :: "int \<Rightarrow> string option"
  mf_record :: "int \<Rightarrow> string option"
  mf_commit :: "int \<Rightarrow> string option"

definition with_table :: "string \<Rightarrow> trades_db \<Rightarrow> trades_db" where
  "with_table t db = (if t \<in> set (td_tables db) then db else db\<lparr>td_tables := td_tables db @ [t]\<rparr>)"

definition currentVersion :: "trades_db \<Rightarrow> int" where
  "currentVersion db = (case td_migrations db of [] \<Rightarrow> 0 | ms \<Rightarrow> Max (am_version ` set ms))"

text \<open>One transaction; any failure rolls it back.\<close>

definition apply_one ::
  "migration_faults \<Rightarrow> string \<Rightarrow> string \<Rightarrow> trades_migration \<Rightarrow> trades_db \<Rightarrow> trades_db \<times> (string + unit)" where
  "apply_one f now agentVersion m db =
     (case mf_begin f (tm_version m) of Some e \<Rightarrow> (db, Err e) | None \<Rightarrow>
      case mf_exec f (tm_version m) of Some e \<Rightarrow> (db, Err (''apply migration: '' @ e)) | None \<Rightarrow>
      if tm_version m \<in> am_version ` set (td_migrations db) then (db, Err ''record migration: UNIQUE constraint failed'') else
      case mf_record f (tm_version m) of Some e \<Rightarrow> (db, Err (''record migration: '' @ e)) | None \<Rightarrow>
      case mf_commit f (tm_version m) of Some e \<Rightarrow> (db, Err (''commit migration: '' @ e)) | None \<Rightarrow>
      (let db1 = fold with_table (tm_creates m) db in
       (db1\<lparr>td_migrations := td_migrations db1 @
          [\<lparr>am_version = tm_version m, am_hash = tm_hash m, am_applied_at = now, am_agent_version = agentVersion\<rparr>]\<rparr>, Ok ())))"

fun apply_loop ::
  "migration_faults \<Rightarrow> string \<Rightarrow> string \<Rightarrow> int \<Rightarrow> trades_migration list \<Rightarrow> trades_db \<Rightarrow> trades_db \<times> (string + unit)" where
  "apply_loop f now av cur [] db = (db, Ok ())"
| "apply_loop f now av cur (m # ms) db =
     (if tm_version m \<le> cur then apply_loop f now av cur ms db
      else case apply_one f now av m db of
             (db1, Inl e) \<Rightarrow> (db1, Err e)
           | (db1, Inr _) \<Rightarrow> apply_loop f now av cur ms db1)"

definition applyMigrations ::
  "migration_faults \<Rightarrow> string \<Rightarrow> string \<Rightarrow> trades_migration list \<Rightarrow> trades_db \<Rightarrow> trades_db \<times> (string + unit)" where
  "applyMigrations f now av ms db =
     (case mf_create f of Some e \<Rightarrow> (db, Err (''create schema_migrations: '' @ e)) | None \<Rightarrow>
      (let db0 = with_table ''schema_migrations'' db in
       case mf_current f of Some e \<Rightarrow> (db0, Err e) | None \<Rightarrow> apply_loop f now av (currentVersion db0) ms db0))"

subsection \<open>Opening\<close>

datatype backup_fault = NotCreated string | Incomplete string

record open_faults =
  of_mkdir :: "string option"
  of_pending_open :: "string option"
  of_pending_create :: "string option"
  of_pending_current :: "string option"
  of_backup :: "backup_fault option"
  of_open_critical :: "string option"
  of_open_analytics :: "string option"
  of_pragma_critical :: "string option"
  of_pragma_analytics :: "string option"
  of_migrations :: migration_faults
  of_handle :: "string option"

text \<open>The state directory: the trades database, when the file exists, and the backup files with their content,
  \<open>None\<close> for one that was not written to its end.\<close>

record state_dir =
  sd_trades :: "trades_db option"
  sd_backups :: "(string \<times> trades_db option) list"

definition latest_version :: "trades_migration list \<Rightarrow> int" where
  "latest_version ms = fold (\<lambda>m latest. if tm_version m > latest then tm_version m else latest) ms 0"

definition hasPendingMigrations :: "open_faults \<Rightarrow> trades_migration list \<Rightarrow> trades_db \<Rightarrow> trades_db \<times> (string + bool)" where
  "hasPendingMigrations f ms db =
     (case of_pending_open f of Some e \<Rightarrow> (db, Err e) | None \<Rightarrow>
      case of_pending_create f of Some e \<Rightarrow> (db, Err e) | None \<Rightarrow>
      (let db0 = with_table ''schema_migrations'' db in
       case of_pending_current f of Some e \<Rightarrow> (db0, Err e) | None \<Rightarrow> (db0, Ok (currentVersion db0 < latest_version ms))))"

definition put_backup :: "string \<Rightarrow> trades_db option \<Rightarrow> (string \<times> trades_db option) list \<Rightarrow> (string \<times> trades_db option) list" where
  "put_backup name content backups = filter (\<lambda>b. fst b \<noteq> name) backups @ [(name, content)]"

text \<open>The target's name ends with the second of the clock; \<open>os.Create\<close> replaces a file of that name.\<close>

definition createSQLiteBackup ::
  "open_faults \<Rightarrow> string \<Rightarrow> trades_db \<Rightarrow> (string \<times> trades_db option) list \<Rightarrow> (string \<times> trades_db option) list \<times> (string + unit)" where
  "createSQLiteBackup f seconds db backups =
     (let target = ''pre-migrate-trades.sqlite-'' @ seconds @ ''.bak'' in
      case of_backup f of
        Some (NotCreated e) \<Rightarrow> (backups, Err e)
      | Some (Incomplete e) \<Rightarrow> (put_backup target None backups, Err e)
      | None \<Rightarrow> (put_backup target (Some db) backups, Ok ()))"

text \<open>The part of \<open>Open\<close> for an existing file: look for pending migrations and copy the file if there are any.\<close>

definition prepare_existing :: "open_faults \<Rightarrow> string \<Rightarrow> trades_migration list \<Rightarrow> state_dir \<Rightarrow> state_dir \<times> (string + unit)" where
  "prepare_existing f seconds ms d =
     (case sd_trades d of
        None \<Rightarrow> (d, Ok ())
      | Some db \<Rightarrow>
          (case hasPendingMigrations f ms db of
             (db1, Inl e) \<Rightarrow> (d\<lparr>sd_trades := Some db1\<rparr>, Err e)
           | (db1, Inr pending) \<Rightarrow>
               (if pending then
                  (case createSQLiteBackup f seconds db1 (sd_backups d) of
                     (backups, r) \<Rightarrow> (d\<lparr>sd_trades := Some db1, sd_backups := backups\<rparr>, r))
                else (d\<lparr>sd_trades := Some db1\<rparr>, Ok ()))))"

text \<open>The first statement on the critical connection creates the file.\<close>

definition storage_Open ::
  "open_faults \<Rightarrow> string \<Rightarrow> string \<Rightarrow> string \<Rightarrow> trades_migration list \<Rightarrow> state_dir \<Rightarrow> state_dir \<times> (string + unit)" where
  "storage_Open f seconds now av ms d =
     (case of_mkdir f of Some e \<Rightarrow> (d, Err (''create state dir: '' @ e)) | None \<Rightarrow>
      case prepare_existing f seconds ms d of
        (d1, Inl e) \<Rightarrow> (d1, Err e)
      | (d1, Inr _) \<Rightarrow>
      (case of_open_critical f of Some e \<Rightarrow> (d1, Err (''open trades sqlite: '' @ e)) | None \<Rightarrow>
       case of_open_analytics f of Some e \<Rightarrow> (d1, Err (''open analytics sqlite: '' @ e)) | None \<Rightarrow>
       case of_pragma_critical f of Some e \<Rightarrow> (d1, Err (''configure critical sqlite: '' @ e)) | None \<Rightarrow>
       (let db = (case sd_trades d1 of None \<Rightarrow> empty_db | Some db \<Rightarrow> db) in
        case of_pragma_analytics f of Some e \<Rightarrow> (d1\<lparr>sd_trades := Some db\<rparr>, Err (''configure analytics sqlite: '' @ e)) | None \<Rightarrow>
        case applyMigrations (of_migrations f) now av ms db of
          (db1, Inl e) \<Rightarrow> (d1\<lparr>sd_trades := Some db1\<rparr>, Err e)
        | (db1, Inr _) \<Rightarrow>
            (d1\<lparr>sd_trades := Some db1\<rparr>,
             (case of_handle f of Some e \<Rightarrow> Err (''open trades sqlite handle: '' @ e) | None \<Rightarrow> Ok ())))))"

subsection \<open>Transactions\<close>

record tx_faults =
  tf_begin :: "string option"
  tf_exec :: "string option"
  tf_commit :: "string option"
  tf_sync :: "string option"

text \<open>The file is synchronised after the commit; the result of synchronising the log is ignored.\<close>

definition WithCriticalTx :: "tx_faults \<Rightarrow> (trades_db \<Rightarrow> trades_db \<times> (string + unit)) \<Rightarrow> trades_db \<Rightarrow> trades_db \<times> (string + unit)" where
  "WithCriticalTx f fn db =
     (case tf_begin f of Some e \<Rightarrow> (db, Err e) | None \<Rightarrow>
      case fn db of
        (_, Inl e) \<Rightarrow> (db, Err e)
      | (db1, Inr _) \<Rightarrow>
          (case tf_commit f of Some e \<Rightarrow> (db, Err e) | None \<Rightarrow>
           case tf_sync f of Some e \<Rightarrow> (db1, Err e) | None \<Rightarrow> (db1, Ok ())))"

text \<open>\<open>length(bucket_id)\<close> in SQL counts code points up to the first zero byte.\<close>

definition sql_length :: "string \<Rightarrow> nat" where
  "sql_length s = length (filter (\<lambda>c. (of_char c :: nat) div 64 \<noteq> 2) (takeWhile (\<lambda>c. c \<noteq> CHR 0x00) s))"

definition rate_to_row :: "'d sql_env \<Rightarrow> 'd rate_state \<Rightarrow> rate_row" where
  "rate_to_row E s =
     \<lparr>rr_bucket_id = rs_BucketID s, rr_tokens = dec_text E (rs_Tokens s), rr_capacity = dec_text E (rs_Capacity s),
      rr_refill_per_second = dec_text E (rs_RefillPerSecond s), rr_updated_at = time_text E (rs_UpdatedAtUTC s)\<rparr>"

definition fill_to_row :: "'d sql_env \<Rightarrow> 'd partial_fill \<Rightarrow> fill_row" where
  "fill_to_row E p =
     \<lparr>fr_client_order_id = pf_ClientOrderID p, fr_symbol = pf_Symbol p, fr_filled_qty = dec_text E (pf_FilledQty p),
      fr_remaining_qty = dec_text E (pf_RemainingQty p), fr_avg_fill_price = dec_text E (pf_AvgFillPrice p),
      fr_updated_at = time_text E (pf_UpdatedAtUTC p)\<rparr>"

text \<open>\<open>ON CONFLICT DO UPDATE\<close> sets every column but the key.\<close>

definition upsert :: "('r \<Rightarrow> string) \<Rightarrow> 'r \<Rightarrow> 'r list \<Rightarrow> 'r list" where
  "upsert key new rows =
     (if \<exists>r \<in> set rows. key r = key new then map (\<lambda>r. if key r = key new then new else r) rows else rows @ [new])"

definition SaveRateState :: "'d sql_env \<Rightarrow> tx_faults \<Rightarrow> 'd rate_state \<Rightarrow> trades_db \<Rightarrow> trades_db \<times> (string + unit)" where
  "SaveRateState E f s db =
     WithCriticalTx f
       (\<lambda>db. case tf_exec f of
          Some e \<Rightarrow> (db, Err e)
        | None \<Rightarrow>
            if sql_length (rs_BucketID s) > 128 then (db, Err ''CHECK constraint failed: length(bucket_id) <= 128'')
            else (db\<lparr>td_rate_state := upsert rr_bucket_id (rate_to_row E s) (td_rate_state db)\<rparr>, Ok ())) db"

definition SavePartialFill :: "'d sql_env \<Rightarrow> tx_faults \<Rightarrow> 'd partial_fill \<Rightarrow> trades_db \<Rightarrow> trades_db \<times> (string + unit)" where
  "SavePartialFill E f p db =
     WithCriticalTx f
       (\<lambda>db. case tf_exec f of
          Some e \<Rightarrow> (db, Err e)
        | None \<Rightarrow> (db\<lparr>td_partial_fills := upsert fr_client_order_id (fill_to_row E p) (td_partial_fills db)\<rparr>, Ok ())) db"

subsection \<open>Reading\<close>

datatype load_error = NoRateState | LoadFailed string | LoadParse string

definition parse_dec :: "'d sql_env \<Rightarrow> string \<Rightarrow> load_error + 'd" where
  "parse_dec E raw = (case dec_parse E raw of None \<Rightarrow> Err (LoadParse raw) | Some v \<Rightarrow> Ok v)"

definition parse_utc :: "'d sql_env \<Rightarrow> string \<Rightarrow> load_error + time" where
  "parse_utc E raw = (case time_parse E raw of None \<Rightarrow> Err (LoadParse raw) | Some v \<Rightarrow> Ok v)"

definition scan_rate :: "'d sql_env \<Rightarrow> rate_row \<Rightarrow> load_error + 'd rate_state" where
  "scan_rate E r =
     and_then (parse_dec E (rr_tokens r)) (\<lambda>tokens.
     and_then (parse_dec E (rr_capacity r)) (\<lambda>cap.
     and_then (parse_dec E (rr_refill_per_second r)) (\<lambda>refill.
     and_then (parse_utc E (rr_updated_at r)) (\<lambda>updated.
     Ok \<lparr>rs_BucketID = rr_bucket_id r, rs_Tokens = tokens, rs_Capacity = cap, rs_RefillPerSecond = refill,
         rs_UpdatedAtUTC = updated\<rparr>))))"

definition LoadRateState :: "'d sql_env \<Rightarrow> string option \<Rightarrow> string \<Rightarrow> trades_db \<Rightarrow> load_error + 'd rate_state" where
  "LoadRateState E fault bucketID db =
     (case fault of
        Some e \<Rightarrow> Err (LoadFailed e)
      | None \<Rightarrow>
          (case row_of rr_bucket_id (td_rate_state db) bucketID of
             None \<Rightarrow> Err NoRateState
           | Some r \<Rightarrow> scan_rate E r))"

definition scan_trade :: "'d sql_env \<Rightarrow> trade_row \<Rightarrow> load_error + 'd export_trade" where
  "scan_trade E r =
     and_then (parse_utc E (tr_date r)) (\<lambda>date.
     and_then (parse_dec E (tr_size r)) (\<lambda>amount.
     and_then (parse_dec E (tr_entry_price r)) (\<lambda>entry.
     and_then (parse_dec E (tr_exit_price r)) (\<lambda>exit.
     and_then (parse_dec E (tr_fee r)) (\<lambda>fee.
     and_then (parse_dec E (tr_realized_pnl r)) (\<lambda>pnl.
     Ok \<lparr>et_Date = date, et_Pair = tr_pair r, et_Side = tr_side r, et_Size = amount, et_EntryPrice = entry,
         et_ExitPrice = exit, et_Fee = fee, et_RealizedPNL = pnl\<rparr>))))))"

text \<open>The rows are in the order of their generated ids.\<close>

definition ListExportTrades :: "'d sql_env \<Rightarrow> string option \<Rightarrow> trades_db \<Rightarrow> load_error + 'd export_trade list" where
  "ListExportTrades E fault db =
     (case fault of Some e \<Rightarrow> Err (LoadFailed e) | None \<Rightarrow> scan_all (scan_trade E) (td_closed_trades db))"

subsection \<open>Export\<close>

text \<open>Go's \<open>encoding/csv\<close>: when a field is quoted, and how.\<close>

definition fieldNeedsQuotes :: "string \<Rightarrow> bool" where
  "fieldNeedsQuotes field \<longleftrightarrow> field \<noteq> [] \<and>
     (field = [CHR 0x5C, CHR ''.''] \<or>
      (\<exists>c \<in> set field. c = CHR 0x0A \<or> c = CHR 0x0D \<or> c = CHR 0x22 \<or> c = CHR '','') \<or>
      (\<exists>c \<in> set space_codes. HasPrefix field c))"

fun doubled :: "string \<Rightarrow> string" where
  "doubled [] = []"
| "doubled (c # cs) = (if c = CHR 0x22 then CHR 0x22 # CHR 0x22 # doubled cs else c # doubled cs)"

definition csv_field :: "string \<Rightarrow> string" where
  "csv_field field = (if fieldNeedsQuotes field then CHR 0x22 # doubled field @ [CHR 0x22] else field)"

fun csv_record :: "string list \<Rightarrow> string" where
  "csv_record [] = [CHR 0x0A]"
| "csv_record [f] = csv_field f @ [CHR 0x0A]"
| "csv_record (f # g # fs) = csv_field f @ CHR '','' # csv_record (g # fs)"

definition csv_header :: "string list" where
  "csv_header = [''date'', ''pair'', ''side'', ''size'', ''entry_price'', ''exit_price'', ''fee'', ''realized_pnl'']"

definition csv_values :: "(time \<Rightarrow> string) \<Rightarrow> ('d \<Rightarrow> string) \<Rightarrow> 'd export_trade \<Rightarrow> string list" where
  "csv_values local_text dec row =
     [local_text (et_Date row), et_Pair row, et_Side row, dec (et_Size row), dec (et_EntryPrice row),
      dec (et_ExitPrice row), dec (et_Fee row), dec (et_RealizedPNL row)]"

text \<open>\<open>load\<close> stands for \<open>time.LoadLocation\<close> with the RFC 3339 text of an instant there; \<open>fault\<close> is an error of the
  destination, which the buffered writer reports at the latest when it is flushed.\<close>

definition WriteCSV ::
  "(string \<Rightarrow> string + (time \<Rightarrow> string)) \<Rightarrow> ('d \<Rightarrow> string) \<Rightarrow> string option \<Rightarrow> string \<Rightarrow> 'd export_trade list \<Rightarrow> string + string" where
  "WriteCSV load dec fault timezone rows =
     (case load timezone of
        Inl e \<Rightarrow> Err (''load export timezone: '' @ e)
      | Inr local_text \<Rightarrow>
          (case fault of
             Some e \<Rightarrow> Err e
           | None \<Rightarrow> Ok (csv_record csv_header @ concat (map (\<lambda>r. csv_record (csv_values local_text dec r)) rows))))"

record export_faults =
  xf_list :: "string option"
  xf_create :: "string option"
  xf_write :: "string option"
  xf_written :: string

datatype export_error = ListFailed load_error | ExportFailed string

text \<open>The file is created, and so emptied, before the time zone is looked up. \<open>xf_written\<close> is what reached the file
  when a write failed.\<close>

definition ExportCSV ::
  "'d sql_env \<Rightarrow> (string \<Rightarrow> string + (time \<Rightarrow> string)) \<Rightarrow> export_faults \<Rightarrow> string \<Rightarrow> string \<Rightarrow> string \<Rightarrow> string \<Rightarrow>
   trades_db \<Rightarrow> (string \<rightharpoonup> string) \<Rightarrow> (string \<rightharpoonup> string) \<times> (export_error + string)" where
  "ExportCSV E load f defaultDir stamp timezone destination db fs =
     (let path = (if destination = [] then defaultDir @ ''/export-'' @ stamp @ ''.csv'' else destination) in
      case ListExportTrades E (xf_list f) db of
        Inl e \<Rightarrow> (fs, Err (ListFailed e))
      | Inr rows \<Rightarrow>
          (case xf_create f of Some e \<Rightarrow> (fs, Err (ExportFailed e)) | None \<Rightarrow>
           case WriteCSV load (dec_text E) (xf_write f) timezone rows of
             Inl e \<Rightarrow> (fs(path \<mapsto> (case load timezone of Inl _ \<Rightarrow> [] | Inr _ \<Rightarrow> xf_written f)), Err (ExportFailed e))
           | Inr text \<Rightarrow> (fs(path \<mapsto> text), Ok path)))"

subsection \<open>The rate state survives\<close>

datatype 'd storage_op = SaveRate tx_faults "'d rate_state" | SaveFill tx_faults "'d partial_fill"

fun storage_step :: "'d sql_env \<Rightarrow> 'd storage_op \<Rightarrow> trades_db \<Rightarrow> trades_db \<times> (string + unit)" where
  "storage_step E (SaveRate f s) db = SaveRateState E f s db"
| "storage_step E (SaveFill f p) db = SavePartialFill E f p db"

definition storage_run :: "'d sql_env \<Rightarrow> 'd storage_op list \<Rightarrow> trades_db \<Rightarrow> trades_db" where
  "storage_run E ops db = fold (\<lambda>op db. fst (storage_step E op db)) ops db"

text \<open>Which operations commit, and the map that they should maintain.\<close>

definition commits :: "tx_faults \<Rightarrow> bool" where
  "commits f \<longleftrightarrow> tf_begin f = None \<and> tf_exec f = None \<and> tf_commit f = None"

fun rate_spec :: "'d storage_op \<Rightarrow> (string \<rightharpoonup> 'd rate_state) \<Rightarrow> (string \<rightharpoonup> 'd rate_state)" where
  "rate_spec (SaveRate f s) m = (if commits f \<and> sql_length (rs_BucketID s) \<le> 128 then m(rs_BucketID s \<mapsto> s) else m)"
| "rate_spec (SaveFill f p) m = m"

lemma upsert_row_of: "row_of key (upsert key new rows) k = (if k = key new then Some new else row_of key rows k)"
proof (cases "\<exists>r \<in> set rows. key r = key new")
  case True
  then obtain r where "row_of key rows (key new) = Some r"
    by (metis imageI not_None_eq row_of_None_iff)
  moreover have "row_of key (map (\<lambda>r. if key r = key new then new else r) rows) k =
      (if k = key new then map_option (\<lambda>r. new) (row_of key rows k) else row_of key rows k)"
    by (induction rows) auto
  ultimately show ?thesis
    using True by (simp add: upsert_def)
next
  case False
  then have "row_of key rows (key new) = None"
    by (auto simp: row_of_None_iff)
  then show ?thesis
    using False by (auto simp: upsert_def row_of_append split: option.splits)
qed

lemma scan_rate_to_row: "codec_ok E \<Longrightarrow> scan_rate E (rate_to_row E s) = Ok s"
  by (simp add: scan_rate_def rate_to_row_def parse_dec_def parse_utc_def codec_ok_def)

text \<open>The table holds, for every bucket, the row of the state that the specification has.\<close>

definition rate_abs :: "'d sql_env \<Rightarrow> (string \<rightharpoonup> 'd rate_state) \<Rightarrow> trades_db \<Rightarrow> bool" where
  "rate_abs E m db \<longleftrightarrow> (\<forall>k. row_of rr_bucket_id (td_rate_state db) k = map_option (rate_to_row E) (m k))"

lemma SaveRateState_cases:
  "fst (SaveRateState E f s db) =
     (if commits f \<and> sql_length (rs_BucketID s) \<le> 128
      then db\<lparr>td_rate_state := upsert rr_bucket_id (rate_to_row E s) (td_rate_state db)\<rparr> else db) \<and>
   (snd (SaveRateState E f s db) = Ok () \<longleftrightarrow>
      commits f \<and> sql_length (rs_BucketID s) \<le> 128 \<and> tf_sync f = None)"
  by (simp add: SaveRateState_def WithCriticalTx_def commits_def split: option.split)

lemma SavePartialFill_cases:
  "fst (SavePartialFill E f p db) =
     (if commits f
      then db\<lparr>td_partial_fills := upsert fr_client_order_id (fill_to_row E p) (td_partial_fills db)\<rparr> else db) \<and>
   (snd (SavePartialFill E f p db) = Ok () \<longleftrightarrow> commits f \<and> tf_sync f = None)"
  by (simp add: SavePartialFill_def WithCriticalTx_def commits_def split: option.split)

lemma rate_to_row_key [simp]: "rr_bucket_id (rate_to_row E s) = rs_BucketID s"
  by (simp add: rate_to_row_def)

lemma storage_step_abs: "rate_abs E m db \<Longrightarrow> rate_abs E (rate_spec op m) (fst (storage_step E op db))"
  by (cases op) (simp_all add: rate_abs_def SaveRateState_cases SavePartialFill_cases upsert_row_of)

lemma storage_run_abs: "rate_abs E m db \<Longrightarrow> rate_abs E (fold rate_spec ops m) (storage_run E ops db)"
  by (induction ops arbitrary: m db) (simp_all add: storage_run_def storage_step_abs)

lemma LoadRateState_abs:
  assumes "codec_ok E" "rate_abs E m db"
  shows "LoadRateState E None k db = (case m k of None \<Rightarrow> Err NoRateState | Some s \<Rightarrow> Ok s)"
  using assms by (auto simp: LoadRateState_def rate_abs_def scan_rate_to_row split: option.splits)

text \<open>The stored rate limits refine a map: after any history of saves, each with any failures, a bucket loads as
  its last state whose transaction committed, and a bucket without one is reported as missing; a save that answers
  without an error has committed.\<close>

theorem rate_limits_survive:
  assumes "codec_ok E"
  shows "LoadRateState E None k (storage_run E ops empty_db) =
      (case fold rate_spec ops Map.empty k of None \<Rightarrow> Err NoRateState | Some s \<Rightarrow> Ok s) \<and>
    (snd (SaveRateState E f s (storage_run E ops empty_db)) = Ok () \<longrightarrow>
      LoadRateState E None (rs_BucketID s) (fst (SaveRateState E f s (storage_run E ops empty_db))) = Ok s)"
proof -
  have "rate_abs E Map.empty empty_db"
    by (simp add: rate_abs_def empty_db_def)
  then have abs: "rate_abs E (fold rate_spec ops Map.empty) (storage_run E ops empty_db)"
    by (rule storage_run_abs)
  from LoadRateState_abs [OF assms storage_step_abs [OF abs, of "SaveRate f s"], of "rs_BucketID s"]
  have "LoadRateState E None (rs_BucketID s) (fst (SaveRateState E f s (storage_run E ops empty_db))) = Ok s"
    if "snd (SaveRateState E f s (storage_run E ops empty_db)) = Ok ()"
    using that by (simp add: SaveRateState_cases)
  then show ?thesis
    by (simp add: LoadRateState_abs [OF assms abs])
qed

definition no_tx_fault :: tx_faults where
  "no_tx_fault = \<lparr>tf_begin = None, tf_exec = None, tf_commit = None, tf_sync = None\<rparr>"

definition sample_rate :: "int rate_state" where
  "sample_rate = \<lparr>rs_BucketID = ''orders'', rs_Tokens = 3, rs_Capacity = 10, rs_RefillPerSecond = 2, rs_UpdatedAtUTC = 5\<rparr>"

theorem rate_limits_survive_witness:
  "LoadRateState sample_env None ''orders''
     (storage_run sample_env [SaveRate no_tx_fault sample_rate, SaveRate (no_tx_fault\<lparr>tf_commit := Some ''full''\<rparr>) (sample_rate\<lparr>rs_Tokens := 0\<rparr>)]
        empty_db) = Ok sample_rate"
  using rate_limits_survive [OF sample_env_ok, of "''orders''"
      "[SaveRate no_tx_fault sample_rate, SaveRate (no_tx_fault\<lparr>tf_commit := Some ''full''\<rparr>) (sample_rate\<lparr>rs_Tokens := 0\<rparr>)]"]
  by (simp add: commits_def no_tx_fault_def sample_rate_def sql_length_def)

text \<open>The converse fails: when the file cannot be synchronised after the commit, the save answers with an error although
  its state is stored, so a caller that retries or rolls back on that error works with the wrong state.\<close>

theorem failed_sync_has_committed:
  assumes "codec_ok E" "commits f" "tf_sync f = Some e" "sql_length (rs_BucketID s) \<le> 128"
  shows "snd (SaveRateState E f s (storage_run E ops empty_db)) = Err e \<and>
    LoadRateState E None (rs_BucketID s) (fst (SaveRateState E f s (storage_run E ops empty_db))) = Ok s"
proof -
  have abs: "rate_abs E (fold rate_spec ops Map.empty) (storage_run E ops empty_db)"
    by (rule storage_run_abs) (simp add: rate_abs_def empty_db_def)
  have "snd (SaveRateState E f s (storage_run E ops empty_db)) = Err e"
    using assms by (auto simp: SaveRateState_def WithCriticalTx_def commits_def)
  then show ?thesis
    using LoadRateState_abs [OF assms(1) storage_step_abs [OF abs, of "SaveRate f s"], of "rs_BucketID s"] assms
    by simp
qed

lemma failed_sync_has_committed_witness:
  "snd (SaveRateState sample_env (no_tx_fault\<lparr>tf_sync := Some ''io''\<rparr>) sample_rate (storage_run sample_env [] empty_db)) = Err ''io'' \<and>
   LoadRateState sample_env None ''orders''
     (fst (SaveRateState sample_env (no_tx_fault\<lparr>tf_sync := Some ''io''\<rparr>) sample_rate (storage_run sample_env [] empty_db))) = Ok sample_rate"
  using failed_sync_has_committed [OF sample_env_ok, of "no_tx_fault\<lparr>tf_sync := Some ''io''\<rparr>" "''io''" sample_rate "[]"]
  by (simp add: commits_def no_tx_fault_def sample_rate_def sql_length_def)

subsection \<open>Migrations\<close>

lemma with_table_frame [simp]:
  "td_migrations (with_table t db) = td_migrations db" "td_rate_state (with_table t db) = td_rate_state db"
  "td_partial_fills (with_table t db) = td_partial_fills db" "td_closed_trades (with_table t db) = td_closed_trades db"
  by (simp_all add: with_table_def)

lemma with_tables_frame [simp]:
  "td_migrations (fold with_table ts db) = td_migrations db" "td_rate_state (fold with_table ts db) = td_rate_state db"
  "td_partial_fills (fold with_table ts db) = td_partial_fills db" "td_closed_trades (fold with_table ts db) = td_closed_trades db"
  by (induction ts arbitrary: db) simp_all

text \<open>The rows of the three data tables, which no migration may touch.\<close>

definition data_rows :: "trades_db \<Rightarrow> rate_row list \<times> fill_row list \<times> trade_row list" where
  "data_rows db = (td_rate_state db, td_partial_fills db, td_closed_trades db)"

definition versions :: "trades_db \<Rightarrow> int list" where
  "versions db = map am_version (td_migrations db)"

lemma versions_with_table [simp]: "versions (with_table t db) = versions db" "data_rows (with_table t db) = data_rows db"
  by (simp_all add: versions_def data_rows_def)

lemma currentVersion_eq: "currentVersion db = (case versions db of [] \<Rightarrow> 0 | vs \<Rightarrow> Max (set vs))"
  by (simp add: currentVersion_def versions_def split: list.split)

lemma apply_one_cases:
  assumes "apply_one f now av m db = (db', r)"
  shows "data_rows db' = data_rows db \<and> (r \<noteq> Ok () \<longrightarrow> db' = db) \<and>
    (r = Ok () \<longrightarrow> versions db' = versions db @ [tm_version m] \<and> tm_version m \<notin> set (versions db))"
  using assms by (auto simp: apply_one_def Let_def data_rows_def versions_def split: option.splits if_splits)

text \<open>A run of the loop applies an initial part of the migrations that are newer than the version it found; all of
  them when it answers without an error.\<close>

lemma apply_loop_result:
  assumes "apply_loop f now av cur ms db = (db', r)"
  shows "data_rows db' = data_rows db \<and>
    (\<exists>k. versions db' = versions db @ take k (filter (\<lambda>v. cur < v) (map tm_version ms)) \<and>
       (r = Ok () \<longrightarrow> length (filter (\<lambda>v. cur < v) (map tm_version ms)) \<le> k))"
  using assms
proof (induction ms arbitrary: db)
  case Nil
  then show ?case
    by simp
next
  case (Cons m ms)
  show ?case
  proof (cases "tm_version m \<le> cur")
    case True
    then show ?thesis
      using Cons by simp
  next
    case False
    obtain db1 r1 where one: "apply_one f now av m db = (db1, r1)"
      by fastforce
    note c = apply_one_cases [OF one]
    show ?thesis
    proof (cases r1)
      case (Inl e)
      then have "db' = db" "r = Err e"
        using Cons.prems False one c by auto
      then show ?thesis
        by (auto intro: exI [of _ 0])
    next
      case (Inr u)
      then have "apply_loop f now av cur ms db1 = (db', r)"
        using Cons.prems False one by simp
      from Cons.IH [OF this] obtain k where
        "data_rows db' = data_rows db1"
        "versions db' = versions db1 @ take k (filter (\<lambda>v. cur < v) (map tm_version ms))"
        "r = Ok () \<longrightarrow> length (filter (\<lambda>v. cur < v) (map tm_version ms)) \<le> k"
        by auto
      then show ?thesis
        using c Inr False by (auto intro!: exI [of _ "Suc k"])
    qed
  qed
qed

lemma latest_version_ge: "m \<in> set ms \<Longrightarrow> tm_version m \<le> latest_version ms"
proof -
  have "a \<le> fold (\<lambda>m latest. if tm_version m > latest then tm_version m else latest) ms a \<and>
    (\<forall>m \<in> set ms. tm_version m \<le> fold (\<lambda>m latest. if tm_version m > latest then tm_version m else latest) ms a)" for a
  proof (induction ms arbitrary: a)
    case (Cons m ms)
    from Cons [of "max a (tm_version m)"] show ?case
      by (auto simp: max_def split: if_splits)
  qed simp
  then show "m \<in> set ms \<Longrightarrow> tm_version m \<le> latest_version ms"
    by (simp add: latest_version_def)
qed

text \<open>Versions are positive and ascend, as those of the program do.\<close>

definition ascending :: "trades_migration list \<Rightarrow> bool" where
  "ascending ms \<longleftrightarrow> sorted_wrt (<) (0 # map tm_version ms)"

lemma tradesMigrations_ascending: "ascending tradesMigrations"
  by (simp add: ascending_def tradesMigrations_def)

lemma newer_versions:
  assumes "sorted_wrt (<) (0 # vs @ ws)"
  shows "filter (\<lambda>v. (case vs of [] \<Rightarrow> 0 | _ \<Rightarrow> Max (set vs)) < v) (vs @ ws) = (ws :: int list)"
proof (cases vs)
  case Nil
  then show ?thesis
    using assms by (auto simp: filter_id_conv)
next
  case (Cons v us)
  have "Max (set vs) \<in> set vs"
    using Cons by (intro Max_in) auto
  then have "filter (\<lambda>v. Max (set vs) < v) ws = ws"
    using assms by (auto simp: filter_id_conv sorted_wrt_append)
  moreover have "filter (\<lambda>v. Max (set vs) < v) vs = []"
    by (auto simp: filter_empty_conv not_less)
  ultimately show ?thesis
    using Cons by simp
qed

text \<open>A database that only \<open>Open\<close> has migrated has an initial part of the migrations.\<close>

lemma applyMigrations_result:
  assumes "ascending ms" "prefix (versions db) (map tm_version ms)" "applyMigrations f now av ms db = (db', r)"
  shows "data_rows db' = data_rows db \<and> prefix (versions db) (versions db') \<and> prefix (versions db') (map tm_version ms) \<and>
    (r = Ok () \<longrightarrow> versions db' = map tm_version ms) \<and>
    (versions db' \<noteq> versions db \<longrightarrow> currentVersion db < latest_version ms)"
proof -
  from assms(2) obtain ws where ws: "map tm_version ms = versions db @ ws"
    by (auto simp: prefix_def)
  let ?db = "with_table ''schema_migrations'' db"
  have new: "filter (\<lambda>v. currentVersion db < v) (map tm_version ms) = ws"
    using newer_versions [of "versions db" ws] assms(1) unfolding ws currentVersion_eq ascending_def by (cases "versions db") simp_all
  have cur: "currentVersion ?db = currentVersion db"
    by (simp add: currentVersion_def)
  consider "versions db' = versions db" "data_rows db' = data_rows db" "r \<noteq> Ok ()"
    | "apply_loop f now av (currentVersion db) ms ?db = (db', r)"
    using assms(3) by (auto simp: applyMigrations_def Let_def cur split: option.splits)
  then show ?thesis
  proof cases
    case 1
    then show ?thesis
      using assms(2) by simp
  next
    case 2
    from apply_loop_result [OF this] new obtain k where
      k: "data_rows db' = data_rows db" "versions db' = versions db @ take k ws" "r = Ok () \<longrightarrow> length ws \<le> k"
      by auto
    have "currentVersion db < latest_version ms" if "versions db' \<noteq> versions db"
    proof -
      from that k(2) have "ws \<noteq> []"
        by auto
      then obtain v where "v \<in> set ws"
        by (cases ws) auto
      then have "v \<in> set (filter (\<lambda>v. currentVersion db < v) (map tm_version ms))"
        by (simp only: new)
      then show ?thesis
        using latest_version_ge [of _ ms] by fastforce
    qed
    then show ?thesis
      using k by (auto simp: ws take_is_prefix)
  qed
qed

lemma put_backup_mem: "(name, content) \<in> set (put_backup name content backups)"
  by (simp add: put_backup_def)

lemma prepare_existing_result:
  assumes "sd_trades d = Some db" "prepare_existing f sec ms d = (d1, r)"
  shows "\<exists>db1. sd_trades d1 = Some db1 \<and> data_rows db1 = data_rows db \<and> versions db1 = versions db \<and>
    (r = Ok () \<and> currentVersion db < latest_version ms \<longrightarrow>
       (\<exists>name. (name, Some db1) \<in> set (sd_backups d1)))"
proof -
  have cur: "currentVersion (with_table t db) = currentVersion db" for t
    by (simp add: currentVersion_def)
  show ?thesis
    using assms
    by (auto simp: prepare_existing_def hasPendingMigrations_def createSQLiteBackup_def Let_def cur
        split: option.splits if_splits backup_fault.splits intro!: put_backup_mem exI)
qed

lemma Open_existing:
  assumes "ascending ms" "sd_trades d = Some db" "prefix (versions db) (map tm_version ms)"
    "storage_Open f sec now av ms d = (d', r)"
  shows "\<exists>db'. sd_trades d' = Some db' \<and> data_rows db' = data_rows db \<and> prefix (versions db) (versions db') \<and>
    prefix (versions db') (map tm_version ms) \<and> (r = Ok () \<longrightarrow> versions db' = map tm_version ms) \<and>
    (versions db' \<noteq> versions db \<longrightarrow> (\<exists>name copy. (name, Some copy) \<in> set (sd_backups d') \<and>
       data_rows copy = data_rows db \<and> versions copy = versions db))"
proof (cases "of_mkdir f")
  case (Some e)
  then show ?thesis
    using assms by (auto simp: storage_Open_def)
next
  case None
  obtain d1 r1 where pr: "prepare_existing f sec ms d = (d1, r1)"
    by fastforce
  from prepare_existing_result [OF assms(2) pr] obtain db1 where
    db1: "sd_trades d1 = Some db1" "data_rows db1 = data_rows db" "versions db1 = versions db"
    "r1 = Ok () \<and> currentVersion db < latest_version ms \<longrightarrow> (\<exists>name. (name, Some db1) \<in> set (sd_backups d1))"
    by auto
  obtain db2 r2 where ap: "applyMigrations (of_migrations f) now av ms db1 = (db2, r2)"
    by fastforce
  have cur: "currentVersion db1 = currentVersion db"
    by (simp add: currentVersion_eq db1(3))
  from assms(3) have "prefix (versions db1) (map tm_version ms)"
    by (simp add: db1(3))
  note res = applyMigrations_result [OF assms(1) this ap]
  consider "d' = d1" "r \<noteq> Ok ()" | "r1 = Ok ()" "d' = d1\<lparr>sd_trades := Some db2\<rparr>" "r = Ok () \<longrightarrow> r2 = Ok ()"
    using assms(4) None db1(1) by (auto simp: storage_Open_def Let_def pr ap split: option.splits sum.splits)
  then show ?thesis
  proof cases
    case 1
    then show ?thesis
      using db1 assms(3) by auto
  next
    case 2
    then show ?thesis
      using res db1 cur by auto
  qed
qed

lemma Open_fresh:
  assumes "ascending ms" "sd_trades d = None" "storage_Open f sec now av ms d = (d', r)"
  shows "(sd_trades d' = None \<and> r \<noteq> Ok ()) \<or> (\<exists>db'. sd_trades d' = Some db' \<and> data_rows db' = ([], [], []) \<and>
    prefix (versions db') (map tm_version ms) \<and> (r = Ok () \<longrightarrow> versions db' = map tm_version ms))"
proof -
  obtain db2 r2 where ap: "applyMigrations (of_migrations f) now av ms empty_db = (db2, r2)"
    by fastforce
  have e: "versions empty_db = []" "data_rows empty_db = ([], [], [])"
    by (simp_all add: versions_def data_rows_def empty_db_def)
  note res = applyMigrations_result [OF assms(1) _ ap]
  have "(sd_trades d' = None \<and> r \<noteq> Ok ()) \<or> (sd_trades d' = Some empty_db \<and> r \<noteq> Ok ()) \<or>
      (sd_trades d' = Some db2 \<and> (r = Ok () \<longrightarrow> r2 = Ok ()))"
    using assms(2,3) by (auto simp: storage_Open_def prepare_existing_def Let_def ap split: option.splits sum.splits)
  then show ?thesis
    using res e by auto
qed

text \<open>Any history of opening the database, each with any failures, and of saving rows in between.\<close>

datatype 'd storage_event =
    Opened open_faults string string string
  | Saved "'d storage_op"

fun storage_event_step :: "'d sql_env \<Rightarrow> trades_migration list \<Rightarrow> 'd storage_event \<Rightarrow> state_dir \<Rightarrow> state_dir" where
  "storage_event_step E ms (Opened f sec now av) d = fst (storage_Open f sec now av ms d)"
| "storage_event_step E ms (Saved op) d =
     (case sd_trades d of None \<Rightarrow> d | Some db \<Rightarrow> d\<lparr>sd_trades := Some (fst (storage_step E op db))\<rparr>)"

definition storage_history :: "'d sql_env \<Rightarrow> trades_migration list \<Rightarrow> 'd storage_event list \<Rightarrow> state_dir" where
  "storage_history E ms evs = fold (storage_event_step E ms) evs \<lparr>sd_trades = None, sd_backups = []\<rparr>"

lemma storage_step_frame: "versions (fst (storage_step E op db)) = versions db \<and>
    td_closed_trades (fst (storage_step E op db)) = td_closed_trades db"
  by (cases op) (simp_all add: SaveRateState_cases SavePartialFill_cases versions_def)

lemma storage_history_ok:
  assumes "ascending ms" "sd_trades (storage_history E ms evs) = Some db"
  shows "prefix (versions db) (map tm_version ms) \<and> td_closed_trades db = []"
  using assms(2)
proof (induction evs arbitrary: db rule: rev_induct)
  case Nil
  then show ?case
    by (simp add: storage_history_def)
next
  case (snoc ev evs)
  let ?d = "storage_history E ms evs"
  show ?case
  proof (cases ev)
    case (Opened f sec now av)
    obtain d' r where o: "storage_Open f sec now av ms ?d = (d', r)"
      by fastforce
    have d': "sd_trades d' = Some db"
      using snoc.prems Opened o by (simp add: storage_history_def)
    show ?thesis
    proof (cases "sd_trades ?d")
      case None
      from Open_fresh [OF assms(1) None o] d' show ?thesis
        by (auto simp: data_rows_def)
    next
      case (Some db0)
      from Open_existing [OF assms(1) Some _ o] snoc.IH [OF Some] d' show ?thesis
        by (auto simp: data_rows_def)
    qed
  next
    case (Saved op)
    then show ?thesis
      using snoc storage_step_frame [of E op] by (auto simp: storage_history_def split: option.splits)
  qed
qed


definition no_migration_faults :: migration_faults where
  "no_migration_faults = \<lparr>mf_create = None, mf_current = None, mf_begin = (\<lambda>_. None), mf_exec = (\<lambda>_. None),
     mf_record = (\<lambda>_. None), mf_commit = (\<lambda>_. None)\<rparr>"

definition no_open_faults :: open_faults where
  "no_open_faults = \<lparr>of_mkdir = None, of_pending_open = None, of_pending_create = None, of_pending_current = None,
     of_backup = None, of_open_critical = None, of_open_analytics = None, of_pragma_critical = None,
     of_pragma_analytics = None, of_migrations = no_migration_faults, of_handle = None\<rparr>"

definition failing_first :: "int storage_event list" where
  "failing_first = [Opened (no_open_faults\<lparr>of_migrations := no_migration_faults\<lparr>mf_commit := (\<lambda>_. Some ''disk full'')\<rparr>\<rparr>)
     ''100'' ''t1'' ''v1'']"

lemma failing_first_state:
  "storage_history sample_env tradesMigrations failing_first =
     \<lparr>sd_trades = Some (empty_db\<lparr>td_tables := [''schema_migrations'']\<rparr>), sd_backups = []\<rparr>"
  by (simp add: storage_history_def failing_first_def storage_Open_def prepare_existing_def no_open_faults_def
      no_migration_faults_def applyMigrations_def tradesMigrations_def apply_one_def currentVersion_def with_table_def
      empty_db_def)


text \<open>The closed trades that the export lists are written nowhere in the program: in every state that opening and saving
  reach, an export without failures consists of the header alone.\<close>

theorem exports_never_have_trades:
  assumes "sd_trades (storage_history E tradesMigrations evs) = Some db" "load tz = Inr local"
    and "xf_list f = None" "xf_create f = None" "xf_write f = None"
  shows "ExportCSV E load f dir stamp tz path db fs =
    (let p = (if path = [] then dir @ ''/export-'' @ stamp @ ''.csv'' else path) in
     (fs(p \<mapsto> csv_record csv_header), Ok p))"
  using storage_history_ok [OF tradesMigrations_ascending assms(1)] assms(2-5)
  by (simp add: ExportCSV_def ListExportTrades_def WriteCSV_def Let_def)

lemma exports_never_have_trades_witness:
  "fst (ExportCSV sample_env (\<lambda>tz. Inr (\<lambda>t. ''now'')) \<lparr>xf_list = None, xf_create = None, xf_write = None, xf_written = []\<rparr>
      ''/tmp'' ''0'' ''UTC'' ''e.csv'' (empty_db\<lparr>td_tables := [''schema_migrations'']\<rparr>) Map.empty) ''e.csv'' =
    Some (csv_record csv_header)"
  using exports_never_have_trades [of sample_env failing_first "empty_db\<lparr>td_tables := [''schema_migrations'']\<rparr>"
      "\<lambda>tz. Inr (\<lambda>t. ''now'')" "''UTC''" "\<lambda>t. ''now''" "\<lparr>xf_list = None, xf_create = None, xf_write = None, xf_written = []\<rparr>"
      "''/tmp''" "''0''" "''e.csv''" Map.empty]
  by (simp add: failing_first_state Let_def)

subsection \<open>The CSV text\<close>

text \<open>A reader of RFC 4180: an unquoted field ends before a comma or a newline; in a quoted one a doubled quote
  stands for a quote.\<close>

fun read_plain :: "string \<Rightarrow> string \<times> string" where
  "read_plain [] = ([], [])"
| "read_plain (c # cs) = (if c = CHR '','' \<or> c = CHR 0x0A then ([], c # cs)
     else (case read_plain cs of (f, rest) \<Rightarrow> (c # f, rest)))"

fun read_quoted :: "string \<Rightarrow> string \<times> string" where
  "read_quoted [] = ([], [])"
| "read_quoted [c] = (if c = CHR 0x22 then ([], []) else ([c], []))"
| "read_quoted (c # d # cs) =
     (if c = CHR 0x22
      then (if d = CHR 0x22 then (case read_quoted cs of (f, rest) \<Rightarrow> (CHR 0x22 # f, rest)) else ([], d # cs))
      else (case read_quoted (d # cs) of (f, rest) \<Rightarrow> (c # f, rest)))"

definition read_field :: "string \<Rightarrow> string \<times> string" where
  "read_field s = (case s of [] \<Rightarrow> ([], []) | c # cs \<Rightarrow> if c = CHR 0x22 then read_quoted cs else read_plain s)"

text \<open>\<open>read_row n\<close> reads \<open>n\<close> fields, each with the character behind it.\<close>

fun read_row :: "nat \<Rightarrow> string \<Rightarrow> string list \<times> string" where
  "read_row 0 s = ([], s)"
| "read_row (Suc n) s =
     (case read_field s of (f, rest) \<Rightarrow> case read_row n (drop 1 rest) of (fs, rest') \<Rightarrow> (f # fs, rest'))"

fun read_rows :: "nat \<Rightarrow> nat \<Rightarrow> string \<Rightarrow> string list list \<times> string" where
  "read_rows k 0 s = ([], s)"
| "read_rows k (Suc n) s = (case read_row k s of (r, rest) \<Rightarrow> case read_rows k n rest of (rs, rest') \<Rightarrow> (r # rs, rest'))"

lemma read_plain_field: "CHR '','' \<notin> set f \<Longrightarrow> CHR 0x0A \<notin> set f \<Longrightarrow> d = CHR '','' \<or> d = CHR 0x0A \<Longrightarrow>
    read_plain (f @ d # rest) = (f, d # rest)"
  by (induction f) auto

lemma read_quoted_doubled: "d \<noteq> CHR 0x22 \<Longrightarrow> read_quoted (doubled f @ CHR 0x22 # d # rest) = (f, d # rest)"
proof (induction f)
  case (Cons c f)
  obtain e es where "doubled f @ CHR 0x22 # d # rest = e # es"
    by (cases "doubled f") auto
  then show ?case
    using Cons by auto
qed simp

lemma read_field_csv: "d = CHR '','' \<or> d = CHR 0x0A \<Longrightarrow> read_field (csv_field f @ d # rest) = (f, d # rest)"
proof (cases "fieldNeedsQuotes f")
  case True
  assume "d = CHR '','' \<or> d = CHR 0x0A"
  then have "d \<noteq> CHR 0x22"
    by auto
  from read_quoted_doubled [OF this] True show ?thesis
    by (simp add: read_field_def csv_field_def)
next
  case False
  assume d: "d = CHR '','' \<or> d = CHR 0x0A"
  from False have "CHR '','' \<notin> set f" "CHR 0x0A \<notin> set f" "CHR 0x22 \<notin> set f"
    by (cases f; auto simp: fieldNeedsQuotes_def)+
  then show ?thesis
    using False d read_plain_field [of f d rest] by (cases f) (auto simp: read_field_def csv_field_def)
qed

lemma read_row_csv: "fs \<noteq> [] \<Longrightarrow> read_row (length fs) (csv_record fs @ rest) = (fs, rest)"
  by (induction fs rule: csv_record.induct) (simp_all add: read_field_csv)

lemma read_rows_csv:
  "0 < k \<Longrightarrow> (\<forall>r \<in> set rs. length r = k) \<Longrightarrow> read_rows k (length rs) (concat (map csv_record rs) @ rest) = (rs, rest)"
proof (induction rs)
  case (Cons r rs)
  then have "read_row k (csv_record r @ concat (map csv_record rs) @ rest) = (r, concat (map csv_record rs) @ rest)"
    by (metis list.size(3) less_nat_zero_code list.set_intros(1) read_row_csv)
  then show ?case
    using Cons by simp
qed simp

text \<open>An export can be read back: a reader of eight columns gets the header and then, row by row, exactly the texts
  of the exported trades, whatever commas, quotes, line breaks or blanks the pair and the side contain; no byte is left
  over.\<close>

theorem csv_export_roundtrip:
  assumes "WriteCSV load dec fault tz rows = Inr text" "load tz = Inr local_text"
  shows "read_rows 8 (Suc (length rows)) text = (csv_header # map (csv_values local_text dec) rows, [])"
proof -
  have "text = concat (map csv_record (csv_header # map (csv_values local_text dec) rows)) @ []"
    using assms by (auto simp: WriteCSV_def comp_def split: option.splits)
  moreover have "\<forall>r \<in> set (csv_header # map (csv_values local_text dec) rows). length r = 8"
    by (auto simp: csv_header_def csv_values_def)
  ultimately show ?thesis
    using read_rows_csv [of 8 "csv_header # map (csv_values local_text dec) rows" "[]"] by simp
qed

theorem csv_export_roundtrip_witness:
  "\<exists>out. WriteCSV (\<lambda>_. Inr (\<lambda>t. ''2026'')) unary None ''UTC''
      [\<lparr>et_Date = 1, et_Pair = ''a,b'', et_Side = [CHR 0x22], et_Size = 1, et_EntryPrice = 2, et_ExitPrice = 3, et_Fee = 0,
        et_RealizedPNL = 1\<rparr>] = Inr out \<and>
    map (\<lambda>r. r ! 1) (fst (read_rows 8 2 out)) = [''pair'', ''a,b'']"
proof -
  let ?row = "\<lparr>et_Date = 1, et_Pair = ''a,b'', et_Side = [CHR 0x22], et_Size = 1, et_EntryPrice = 2, et_ExitPrice = 3,
    et_Fee = 0, et_RealizedPNL = 1\<rparr> :: int export_trade"
  let ?load = "\<lambda>_ :: string. Inr (\<lambda>t :: time. ''2026'') :: string + (time \<Rightarrow> string)"
  obtain out where t: "WriteCSV ?load unary None ''UTC'' [?row] = Inr out"
    by (simp add: WriteCSV_def)
  from csv_export_roundtrip [OF t] have "read_rows 8 2 out = ([csv_header, csv_values (\<lambda>t. ''2026'') unary ?row], [])"
    by (simp add: numeral_2_eq_2)
  then have "map (\<lambda>r. r ! 1) (fst (read_rows 8 2 out)) = [''pair'', ''a,b'']"
    by (simp add: csv_header_def csv_values_def)
  with t show ?thesis
    by (intro exI conjI)
qed

end
