(* ===== verification/Backup.thy ===== *)
theory Backup
  imports Vault Config Go_Text
begin

text \<open>
  Backup and restore of the agent's state (\<open>internal/backup/backup.go\<close>), on the configuration loader of \<open>Config\<close> and
  the vault opener of \<open>Vault\<close>. The state directory is a map from file names to bytes. The tar and age formats, SHA-256
  and the SQLite file format are parameters; each file operation can fail.
\<close>

subsection \<open>State and environment\<close>

type_synonym files = "string \<rightharpoonup> string"

text \<open>\<open>be_untar\<close> gives the regular files of an archive in order; their names are plain file names, as those that
  \<open>Create\<close> writes. \<open>be_encrypt\<close> takes the random salt as its second argument.\<close>

record backup_lib =
  be_tar :: "(string \<times> string) list \<Rightarrow> string"
  be_untar :: "string \<Rightarrow> string + (string \<times> string) list"
  be_encrypt :: "string \<Rightarrow> string \<Rightarrow> string \<Rightarrow> string"
  be_decrypt :: "string \<Rightarrow> string \<Rightarrow> string + string"
  be_sha256_hex :: "string \<Rightarrow> string"
  be_db_bytes :: "store_db \<Rightarrow> string"
  be_db_read :: "string \<Rightarrow> store_db option"

text \<open>The documented behaviour of the formats.\<close>

definition backup_laws :: "backup_lib \<Rightarrow> bool" where
  "backup_laws B \<longleftrightarrow> (\<forall>es. distinct (map fst es) \<longrightarrow> be_untar B (be_tar B es) = Inr es) \<and>
     (\<forall>pw salt x. be_decrypt B pw (be_encrypt B pw salt x) = Inr x)"

datatype backup_error =
    PasswordRequired | NotADirectory | ConfigRequired | BackupIO string | ChecksumMismatch | BadArchive string
  | BadConfig config_error | RestoreSchema int | VaultRefused vault_error

datatype create_step =
    CStatDir | CStatConfig | CStatFile string | CReadFile string | CCreate | CEncrypt | CReadBack | CWriteSum

record create_env =
  ce_fault :: "create_step \<Rightarrow> string option"
  ce_is_dir :: bool
  ce_archive :: string
  ce_salt :: string
  ce_partial :: string

subsection \<open>Create\<close>

definition backup_files :: "string list" where
  "backup_files = [''audit.log'', ''config.yaml'', ''journal.log'', ''trades.sqlite'', ''vault.db'']"

text \<open>The loop over the sorted names: a missing file is skipped, any other failure ends the backup.\<close>

fun collect :: "create_env \<Rightarrow> files \<Rightarrow> string list \<Rightarrow> backup_error + (string \<times> string) list" where
  "collect E fs [] = Ok []"
| "collect E fs (n # ns) =
     (case ce_fault E (CStatFile n) of
        Some e \<Rightarrow> Err (BackupIO e)
      | None \<Rightarrow>
          (case fs n of
             None \<Rightarrow> collect E fs ns
           | Some content \<Rightarrow>
               (case ce_fault E (CReadFile n) of
                  Some e \<Rightarrow> Err (BackupIO e)
                | None \<Rightarrow> and_then (collect E fs ns) (\<lambda>es. Ok ((n, content) # es)))))"

definition sum_name :: "string \<Rightarrow> string" where
  "sum_name archive = archive @ ''.sha256''"

definition checksum_line :: "string \<Rightarrow> string \<Rightarrow> string" where
  "checksum_line digest archive = digest @ ''  '' @ archive @ [CHR 0x0A]"

text \<open>\<open>ce_archive\<close> is the name with the second of the clock, \<open>ce_partial\<close> what the archive file holds when its
  writing failed.\<close>

definition backup_Create :: "backup_lib \<Rightarrow> create_env \<Rightarrow> string \<Rightarrow> files \<Rightarrow> files \<times> (backup_error + string \<times> string)" where
  "backup_Create B E password fs =
     (if TrimSpace password = [] then (fs, Err PasswordRequired) else
      case ce_fault E CStatDir of Some e \<Rightarrow> (fs, Err (BackupIO e)) | None \<Rightarrow>
      if \<not> ce_is_dir E then (fs, Err NotADirectory) else
      case ce_fault E CStatConfig of Some e \<Rightarrow> (fs, Err (BackupIO e)) | None \<Rightarrow>
      if fs ''config.yaml'' = None then (fs, Err ConfigRequired) else
      case collect E fs backup_files of
        Inl e \<Rightarrow> (fs, Err e)
      | Inr es \<Rightarrow>
      (case ce_fault E CCreate of Some e \<Rightarrow> (fs, Err (BackupIO e)) | None \<Rightarrow>
       case ce_fault E CEncrypt of Some e \<Rightarrow> (fs(ce_archive E \<mapsto> ce_partial E), Err (BackupIO e)) | None \<Rightarrow>
       (let body = be_encrypt B password (ce_salt E) (be_tar B es);
            fs1 = fs(ce_archive E \<mapsto> body) in
        case ce_fault E CReadBack of Some e \<Rightarrow> (fs1, Err (BackupIO e)) | None \<Rightarrow>
        (let checksum = be_sha256_hex B body in
         case ce_fault E CWriteSum of
           Some e \<Rightarrow> (fs1, Err (BackupIO e))
         | None \<Rightarrow> (fs1(sum_name (ce_archive E) \<mapsto> checksum_line checksum (ce_archive E)), Ok (ce_archive E, checksum))))))"

subsection \<open>Restore\<close>

datatype restore_step =
    RReadArchive | RReadSum | RIdentity | RMkdirTemp | RExtract string | RReadDir | RReadEntry string

text \<open>\<open>re_write\<close> gives the error of a failing write to the state directory and what the file then holds.\<close>

record restore_env =
  re_fault :: "restore_step \<Rightarrow> string option"
  re_write :: "string \<Rightarrow> (string \<times> string option) option"
  re_store :: store_env

text \<open>Extraction into the temporary directory; a later entry of the same name replaces an earlier one.\<close>

fun extract_entries :: "restore_env \<Rightarrow> (string \<times> string) list \<Rightarrow> files \<Rightarrow> backup_error + files" where
  "extract_entries E [] tmp = Ok tmp"
| "extract_entries E ((n, content) # es) tmp =
     (case re_fault E (RExtract n) of
        Some e \<Rightarrow> Err (BackupIO e)
      | None \<Rightarrow> extract_entries E es (tmp(n \<mapsto> content)))"

text \<open>\<open>vault.OpenOrCreate\<close> on the extracted vault, which it creates when the archive has none; the copies that a
  migration makes go to a directory \<open>backups\<close> beside it.\<close>

definition verify_vault :: "backup_lib \<Rightarrow> crypto_lib \<Rightarrow> restore_env \<Rightarrow> string \<Rightarrow> files \<Rightarrow> backup_error + files \<times> bool" where
  "verify_vault B L E password tmp =
     (case (case tmp ''vault.db'' of
              None \<Rightarrow> Inr None
            | Some bytes \<Rightarrow> (case be_db_read B bytes of None \<Rightarrow> Inl () | Some d \<Rightarrow> Inr (Some d))) of
        Inl _ \<Rightarrow> Err (VaultRefused (vault_error.VaultDB ''file is not a database''))
      | Inr db \<Rightarrow>
          (case OpenOrCreate L (re_store E) password \<lparr>sf_db = db, sf_backups = []\<rparr> of
             (_, Inl e) \<Rightarrow> Err (VaultRefused e)
           | (vf, Inr _) \<Rightarrow>
               Ok (tmp(''vault.db'' := map_option (be_db_bytes B) (sf_db vf)), sf_backups vf \<noteq> [])))"

text \<open>The copying loop over the sorted entries. The directory \<open>backups\<close>, when the verification made one, is an
  entry too, and reading it as a file fails.\<close>

fun install :: "restore_env \<Rightarrow> bool \<Rightarrow> files \<Rightarrow> string list \<Rightarrow> files \<Rightarrow> files \<times> (backup_error + unit)" where
  "install E has_dir tmp [] fs = (fs, Ok ())"
| "install E has_dir tmp (n # ns) fs =
     (if has_dir \<and> n = ''backups'' then (fs, Err (BackupIO ''is a directory'')) else
      case re_fault E (RReadEntry n) of Some e \<Rightarrow> (fs, Err (BackupIO e)) | None \<Rightarrow>
      case re_write E n of
        Some (e, left) \<Rightarrow> (fs(n := left), Err (BackupIO e))
      | None \<Rightarrow> install E has_dir tmp ns (fs(n := tmp n)))"

definition entry_names :: "bool \<Rightarrow> (string \<times> string) list \<Rightarrow> string list" where
  "entry_names has_dir es =
     sorted_list_of_set (insert ''vault.db'' (set (map fst es)) \<union> (if has_dir then {''backups''} else {}))"

definition CurrentSchemaVersion :: int where
  "CurrentSchemaVersion = 1"

text \<open>\<open>archive\<close> and \<open>sums\<close> are the contents of the archive and of the checksum file beside it.\<close>

definition backup_Restore ::
  "backup_lib \<Rightarrow> crypto_lib \<Rightarrow> 'p config_env \<Rightarrow> restore_env \<Rightarrow> string \<Rightarrow> string option \<Rightarrow> string option \<Rightarrow> files \<Rightarrow>
   files \<times> (backup_error + unit)" where
  "backup_Restore B L V E password archive sums fs =
     (case (case re_fault E RReadArchive of Some e \<Rightarrow> Inl e | None \<Rightarrow>
              (case archive of None \<Rightarrow> Inl ''no such file'' | Some body \<Rightarrow> Inr body)) of
        Inl e \<Rightarrow> (fs, Err (BackupIO e))
      | Inr body \<Rightarrow>
      (case (case re_fault E RReadSum of Some e \<Rightarrow> Inl e | None \<Rightarrow>
               (case sums of None \<Rightarrow> Inl ''no such file'' | Some s \<Rightarrow> Inr s)) of
         Inl e \<Rightarrow> (fs, Err (BackupIO e))
       | Inr expected \<Rightarrow>
       if \<not> HasPrefix expected (be_sha256_hex B body) then (fs, Err ChecksumMismatch) else
       (case re_fault E RIdentity of Some e \<Rightarrow> (fs, Err (BackupIO e)) | None \<Rightarrow>
        case be_decrypt B password body of Inl e \<Rightarrow> (fs, Err (BadArchive e)) | Inr tar_bytes \<Rightarrow>
        case re_fault E RMkdirTemp of Some e \<Rightarrow> (fs, Err (BackupIO e)) | None \<Rightarrow>
        case be_untar B tar_bytes of Inl e \<Rightarrow> (fs, Err (BadArchive e)) | Inr es \<Rightarrow>
        case extract_entries E es Map.empty of Inl e \<Rightarrow> (fs, Err e) | Inr tmp \<Rightarrow>
        case config_Load V (tmp ''config.yaml'') of Inl e \<Rightarrow> (fs, Err (BadConfig e)) | Inr cfg \<Rightarrow>
        if SchemaVersion cfg \<noteq> CurrentSchemaVersion then (fs, Err (RestoreSchema (SchemaVersion cfg))) else
        (case verify_vault B L E password tmp of
           Inl e \<Rightarrow> (fs, Err e)
         | Inr (tmp1, has_dir) \<Rightarrow>
             (case re_fault E RReadDir of
                Some e \<Rightarrow> (fs, Err (BackupIO e))
              | None \<Rightarrow> install E has_dir tmp1 (entry_names has_dir es) fs)))))"

subsection \<open>Creating\<close>

lemma collect_calm:
  assumes "collect E fs ns = Ok es"
  shows "es = [(n, c). n \<leftarrow> ns, c \<leftarrow> (case fs n of None \<Rightarrow> [] | Some c \<Rightarrow> [c])]"
  using assms
proof (induction ns arbitrary: es)
  case (Cons n ns)
  then show ?case
    by (cases "fs n") (auto simp: and_then_Ok split: option.splits)
qed simp

lemma collect_map_of: "distinct ns \<Longrightarrow> collect E fs ns = Ok es \<Longrightarrow>
    distinct (map fst es) \<and> set (map fst es) \<subseteq> set ns \<and> map_of es = (\<lambda>n. if n \<in> set ns then fs n else None)"
proof (induction ns arbitrary: es)
  case (Cons n ns)
  show ?case
  proof (cases "fs n")
    case None
    then have "collect E fs ns = Ok es"
      using Cons.prems by (auto split: option.splits)
    with Cons.IH [OF _ this] Cons.prems(1) None show ?thesis
      by (auto simp: fun_eq_iff)
  next
    case (Some c)
    then obtain es' where es: "collect E fs ns = Ok es'" "es = (n, c) # es'"
      using Cons.prems by (auto simp: and_then_Ok split: option.splits)
    with Cons.IH [OF _ es(1)] Cons.prems(1) Some show ?thesis
      by (auto simp: fun_eq_iff)
  qed
qed (simp add: fun_eq_iff)

text \<open>A backup that answers without error has written the archive of exactly the state files and its checksum.\<close>

lemma Create_Ok:
  assumes "backup_Create B E pw fs = (fs', Ok (name, digest))"
  shows "\<exists>es body. collect E fs backup_files = Ok es \<and> fs ''config.yaml'' \<noteq> None \<and> body = be_encrypt B pw (ce_salt E) (be_tar B es) \<and>
    name = ce_archive E \<and> digest = be_sha256_hex B body \<and>
    fs' = fs(name \<mapsto> body, sum_name name \<mapsto> checksum_line digest name)"
  using assms by (auto simp: backup_Create_def Let_def split: if_splits option.splits sum.splits)

lemma Create_Err: "backup_Create B E pw fs = (fs', Err e) \<Longrightarrow> n \<noteq> ce_archive E \<Longrightarrow> fs' n = fs n"
  by (auto simp: backup_Create_def Let_def split: if_splits option.splits sum.splits)

subsection \<open>Restoring\<close>

lemma extract_calm: "(\<And>n. re_fault E (RExtract n) = None) \<Longrightarrow> distinct (map fst es) \<Longrightarrow>
    extract_entries E es tmp = Ok (tmp ++ map_of es)"
proof (induction es arbitrary: tmp)
  case (Cons e es)
  then have "map_of es (fst e) = None"
    by (auto simp: map_of_eq_None_iff)
  then have "(tmp(fst e \<mapsto> snd e)) ++ map_of es = tmp ++ map_of (e # es)"
    by (auto simp: fun_eq_iff map_add_def split: option.splits)
  moreover have "extract_entries E (e # es) tmp = extract_entries E es (tmp(fst e \<mapsto> snd e))"
    using Cons.prems(1) by (cases e) simp
  moreover have "extract_entries E es (tmp(fst e \<mapsto> snd e)) = Ok ((tmp(fst e \<mapsto> snd e)) ++ map_of es)"
    using Cons by auto
  ultimately show ?case
    by metis
qed simp

lemma install_calm: "re_fault E = (\<lambda>_. None) \<Longrightarrow> re_write E = (\<lambda>_. None) \<Longrightarrow> \<not> has_dir \<Longrightarrow>
    install E has_dir tmp ns fs = (\<lambda>n. if n \<in> set ns then tmp n else fs n, Ok ())"
  by (induction ns arbitrary: fs) (auto simp: fun_eq_iff)

text \<open>The vault that the verification sees in an archive of the state \<open>fs\<close>.\<close>

definition archived_vault :: "backup_lib \<Rightarrow> files \<Rightarrow> (unit + store_db option)" where
  "archived_vault B fs =
     (case fs ''vault.db'' of
        None \<Rightarrow> Inr None
      | Some bytes \<Rightarrow> (case be_db_read B bytes of None \<Rightarrow> Inl () | Some d \<Rightarrow> Inr (Some d)))"

lemma set_entry_names: "set (entry_names False es) = insert ''vault.db'' (set (map fst es))"
  unfolding entry_names_def by (subst set_sorted_list_of_set) simp_all

lemma config_Load_schema: "config_Load V f = Inr cfg \<Longrightarrow> SchemaVersion cfg = 1"
  by (auto simp: config_Load_def config_Validate_def and_then_Ok split: option.splits sum.splits if_splits)

text \<open>What \<open>Restore\<close> does with an archive that \<open>Create\<close> wrote, up to the verdict of the vault.\<close>

lemma Restore_of_created:
  assumes laws: "backup_laws B" and made: "backup_Create B E pw fs = (fs1, Ok (name, digest))"
    and calm: "re_fault R = (\<lambda>_. None)" and config: "config_Load V (fs ''config.yaml'') = Ok cfg"
  shows "\<exists>es. distinct (map fst es) \<and> set (map fst es) \<subseteq> set backup_files \<and>
    map_of es = (\<lambda>n. if n \<in> set backup_files then fs n else None) \<and>
    backup_Restore B L V R pw (fs1 name) (fs1 (sum_name name)) fs2 =
      (case verify_vault B L R pw (map_of es) of
         Inl e \<Rightarrow> (fs2, Err e)
       | Inr (tmp1, has_dir) \<Rightarrow> install R has_dir tmp1 (entry_names has_dir es) fs2)"
proof -
  from Create_Ok [OF made] obtain es body where
    es: "collect E fs backup_files = Ok es" and body: "body = be_encrypt B pw (ce_salt E) (be_tar B es)"
    and digest: "digest = be_sha256_hex B body"
    and fs1: "fs1 = fs(name \<mapsto> body, sum_name name \<mapsto> checksum_line digest name)"
    by auto
  have d: "distinct backup_files"
    by (simp add: backup_files_def)
  note c = collect_map_of [OF d es]
  have files: "fs1 name = Some body" "fs1 (sum_name name) = Some (checksum_line digest name)"
    by (auto simp: fs1 sum_name_def)
  have sums: "HasPrefix (checksum_line digest name) (be_sha256_hex B body)"
    by (simp add: digest HasPrefix_def checksum_line_def)
  have "be_decrypt B pw body = Inr (be_tar B es)" "be_untar B (be_tar B es) = Inr es"
    using laws c by (auto simp: backup_laws_def body)
  moreover have "extract_entries R es Map.empty = Ok (map_of es)"
    using extract_calm [of R es Map.empty] calm c by simp
  moreover have "map_of es ''config.yaml'' = fs ''config.yaml''"
    using c by (simp add: backup_files_def)
  ultimately show ?thesis
    using c config config_Load_schema [OF config] calm
    by (intro exI [of _ es]) (simp add: backup_Restore_def files sums CurrentSchemaVersion_def split: sum.split prod.split)
qed


text \<open>A concrete tar format for the examples: strings with a mark before every byte and one at the end.\<close>

fun put_text :: "string \<Rightarrow> string" where
  "put_text [] = [CHR 0x00]"
| "put_text (c # cs) = CHR 0x01 # c # put_text cs"

fun get_text :: "string \<Rightarrow> string \<times> string" where
  "get_text (a # c # r) = (if a = CHR 0x00 then ([], c # r) else (case get_text r of (s, t) \<Rightarrow> (c # s, t)))"
| "get_text r = ([], [])"

lemma get_put [simp]: "get_text (put_text s @ r) = (s, r)"
  by (induction s) (cases r; simp)+

fun toy_tar :: "(string \<times> string) list \<Rightarrow> string" where
  "toy_tar [] = []"
| "toy_tar ((n, c) # es) = CHR 0x01 # put_text n @ put_text c @ toy_tar es"

fun toy_untar :: "nat \<Rightarrow> string \<Rightarrow> (string \<times> string) list" where
  "toy_untar (Suc k) (a # s) =
     (case get_text s of (n, r) \<Rightarrow> case get_text r of (c, r') \<Rightarrow> (n, c) # toy_untar k r')"
| "toy_untar k s = []"

lemma toy_untar_tar: "length es \<le> k \<Longrightarrow> toy_untar k (toy_tar es) = es"
proof (induction es arbitrary: k)
  case Nil
  then show ?case
    by (cases k) simp_all
next
  case (Cons e es)
  then obtain j where "k = Suc j" "length es \<le> j"
    by (cases k) auto
  with Cons.IH show ?case
    by (cases e) simp
qed

lemma toy_tar_length: "length es \<le> length (toy_tar es)"
  by (induction es rule: toy_tar.induct) simp_all

definition toy_vault :: store_db where
  "toy_vault = \<lparr>db_versions = vaultMigrations, db_verifier = Some (''s'', ''n'', verifier_text), db_keys = []\<rparr>"

definition toy_lib :: backup_lib where
  "toy_lib = \<lparr>be_tar = toy_tar, be_untar = (\<lambda>s. Inr (toy_untar (length s) s)), be_encrypt = (\<lambda>pw salt x. x),
     be_decrypt = (\<lambda>pw x. Inr x), be_sha256_hex = (\<lambda>x. ''00''), be_db_bytes = (\<lambda>d. ''sqlite''), be_db_read = (\<lambda>x. Some toy_vault)\<rparr>"

lemma toy_lib_laws: "backup_laws toy_lib"
  by (simp add: backup_laws_def toy_lib_def toy_untar_tar toy_tar_length)

definition open_crypto :: crypto_lib where
  "open_crypto = \<lparr>argon2_3 = (\<lambda>pw s. replicate 32 CHR ''k''), argon2_1 = (\<lambda>pw s. replicate 32 CHR ''k''),
     gcm_seal = (\<lambda>k n p. p), gcm_open = (\<lambda>k n p. Some p), b64_enc = (\<lambda>x. x), b64_dec = Some\<rparr>"

definition toy_store :: store_env where
  "toy_store = \<lparr>st_fault = (\<lambda>_. None), st_salt = ''s'', st_nonce = ''n'', st_format = (\<lambda>t. ''t''), st_parse = (\<lambda>_. Some 0)\<rparr>"

definition toy_config :: "string config_env" where
  "toy_config = plain_env\<lparr>cv_unmarshal := (\<lambda>s. Inr (Default plain_env ''d''))\<rparr>"

definition calm_restore :: restore_env where
  "calm_restore = \<lparr>re_fault = (\<lambda>_. None), re_write = (\<lambda>_. None), re_store = toy_store\<rparr>"

definition calm_create :: create_env where
  "calm_create = \<lparr>ce_fault = (\<lambda>_. None), ce_is_dir = True, ce_archive = ''kairos-backup-1.tar.age'', ce_salt = [], ce_partial = []\<rparr>"

definition toy_files :: files where
  "toy_files = [''config.yaml'' \<mapsto> ''yaml'', ''trades.sqlite'' \<mapsto> ''trades'', ''vault.db'' \<mapsto> ''sqlite'']"

lemma toy_config_ok: "config_Load toy_config (Some ''yaml'') = Ok (Default plain_env ''d'')"
  by (simp add: config_Load_def toy_config_def config_Validate_def Default_def plain_env_def profile_Valid_def
      validateTrustedFingerprints_def validate_cloud_def)

lemma toy_open: "OpenOrCreate open_crypto toy_store pw \<lparr>sf_db = Some toy_vault, sf_backups = []\<rparr> =
    (\<lparr>sf_db = Some toy_vault, sf_backups = []\<rparr>, Ok (replicate 32 CHR ''k''))"
  by (simp add: OpenOrCreate_def step_ok_def toy_store_def hasPendingMigrations_def applyMigrations_def toy_vault_def
      vaultMigrations_def current_version_def bootstrapOrUnlock_def verified_key_def openSealed_def cipher_ok_def
      open_crypto_def)

lemma trim_secret: "TrimSpace ''secret'' = ''secret''"
  by (rule TrimSpace_untouched) (simp add: printable_not_space)

lemma toy_create: "\<exists>fs1 digest. backup_Create toy_lib calm_create ''secret'' toy_files = (fs1, Ok (''kairos-backup-1.tar.age'', digest))"
  by (simp add: backup_Create_def calm_create_def toy_files_def backup_files_def Let_def trim_secret)



lemma toy_restore:
  assumes "backup_Create toy_lib calm_create ''secret'' toy_files = (fs1, Ok (name, digest))"
  shows "\<exists>fs3. backup_Restore toy_lib open_crypto toy_config calm_restore ''secret'' (fs1 name) (fs1 (sum_name name)) Map.empty =
      (fs3, Ok ()) \<and> fs3 ''trades.sqlite'' = Some ''trades''"
proof -
  have calm: "re_fault calm_restore = (\<lambda>_. None)" "re_write calm_restore = (\<lambda>_. None)" "re_store calm_restore = toy_store"
    by (simp_all add: calm_restore_def)
  have cfg: "config_Load toy_config (toy_files ''config.yaml'') = Ok (Default plain_env ''d'')"
    by (simp add: toy_files_def toy_config_ok)
  obtain es where es: "map_of es = (\<lambda>n. if n \<in> set backup_files then toy_files n else None)"
    "backup_Restore toy_lib open_crypto toy_config calm_restore ''secret'' (fs1 name) (fs1 (sum_name name)) Map.empty =
      (case verify_vault toy_lib open_crypto calm_restore ''secret'' (map_of es) of
         Inl e \<Rightarrow> (Map.empty, Err e)
       | Inr (tmp1, has_dir) \<Rightarrow> install calm_restore has_dir tmp1 (entry_names has_dir es) Map.empty)"
    using Restore_of_created [OF toy_lib_laws assms calm(1) cfg, of open_crypto Map.empty] by blast
  have m: "map_of es ''vault.db'' = Some ''sqlite''" "map_of es ''trades.sqlite'' = Some ''trades''"
    by (simp_all add: es(1) backup_files_def toy_files_def)
  then have "''trades.sqlite'' \<in> set (map fst es)" by (metis list.set_map map_of_eq_None_iff option.distinct(1))
  moreover have "verify_vault toy_lib open_crypto calm_restore ''secret'' (map_of es) = Ok ((map_of es)(''vault.db'' \<mapsto> ''sqlite''), False)"
    by (simp add: verify_vault_def m(1) toy_lib_def calm(3) toy_open)
  ultimately show ?thesis
    using install_calm [OF calm(1,2), of False] m by (simp add: es(2) set_entry_names)
qed


text \<open>A backup is made with any password, but \<open>Restore\<close> opens the archived vault with the password of the backup: when
  that is not the vault's own, no restore of the archive ever succeeds, and the state directory stays as it is.\<close>

theorem backup_needs_the_vault_password:
  assumes "backup_laws B" "backup_Create B E pw fs = (fs1, Ok (name, digest))" "store_laws L (re_store R)"
    and "re_fault R = (\<lambda>_. None)" "st_fault (re_store R) = (\<lambda>_. None)" "config_Load V (fs ''config.yaml'') = Ok cfg"
    and "archived_vault B fs = Inr (Some d)" "db_versions d = vaultMigrations"
    and "db_verifier d = Some (salt, n, gcm_seal L (argon2_1 L vault_pw salt) n verifier_text)"
    and "argon2_1 L pw salt \<noteq> argon2_1 L vault_pw salt"
  shows "backup_Restore B L V R pw (fs1 name) (fs1 (sum_name name)) fs2 = (fs2, Err (VaultRefused ErrInvalidPassword))"
proof -
  obtain es where es: "map_of es = (\<lambda>n. if n \<in> set backup_files then fs n else None)"
    "backup_Restore B L V R pw (fs1 name) (fs1 (sum_name name)) fs2 =
      (case verify_vault B L R pw (map_of es) of
         Inl e \<Rightarrow> (fs2, Err e)
       | Inr (tmp1, has_dir) \<Rightarrow> install R has_dir tmp1 (entry_names has_dir es) fs2)"
    using Restore_of_created [OF assms(1,2,4,6), of L fs2] by blast
  have ok: "step_ok (re_store R) q = Ok ()" for q
    by (simp add: step_ok_def assms(5))
  have "verified_key L pw (salt, n, gcm_seal L (argon2_1 L vault_pw salt) n verifier_text) = Err ErrInvalidPassword"
    using verified_sealed [OF assms(3), of pw salt n vault_pw] assms(10) by simp
  moreover have "hasPendingMigrations (re_store R) d = Ok False" "applyMigrations (re_store R) d = (d, Ok ())"
    by (simp_all add: hasPendingMigrations_def applyMigrations_def ok current_version_def assms(8) vaultMigrations_def)
  ultimately have "OpenOrCreate L (re_store R) pw \<lparr>sf_db = Some d, sf_backups = []\<rparr> =
      (\<lparr>sf_db = Some d, sf_backups = []\<rparr>, Err ErrInvalidPassword)"
    by (simp add: OpenOrCreate_def ok bootstrapOrUnlock_def assms(9))
  moreover have "''vault.db'' \<in> set backup_files"
    by (simp add: backup_files_def)
  ultimately show ?thesis
    using assms(7) by (auto simp: es verify_vault_def archived_vault_def split: option.splits)
qed

text \<open>A state without a vault: restoring its backup creates a vault for the password and installs it, so the vault of
  the state directory, if it has one, is replaced by an empty one and its keys are lost.\<close>

theorem restore_replaces_the_vault_by_an_empty_one:
  assumes "backup_laws B" "backup_Create B E pw fs = (fs1, Ok (name, digest))"
    and "re_fault R = (\<lambda>_. None)" "re_write R = (\<lambda>_. None)" "config_Load V (fs ''config.yaml'') = Ok cfg"
    and "fs ''vault.db'' = None" "store_laws L (re_store R)" "st_fault (re_store R) = (\<lambda>_. None)"
  shows "\<exists>fs3 d. backup_Restore B L V R pw (fs1 name) (fs1 (sum_name name)) fs2 = (fs3, Ok ()) \<and>
    fs3 ''vault.db'' = Some (be_db_bytes B d) \<and> db_keys d = []"
proof -
  obtain es where es: "map_of es = (\<lambda>n. if n \<in> set backup_files then fs n else None)"
    "backup_Restore B L V R pw (fs1 name) (fs1 (sum_name name)) fs2 =
      (case verify_vault B L R pw (map_of es) of
         Inl e \<Rightarrow> (fs2, Err e)
       | Inr (tmp1, has_dir) \<Rightarrow> install R has_dir tmp1 (entry_names has_dir es) fs2)"
    using Restore_of_created [OF assms(1,2,3,5), of L fs2] by blast
  have ok: "step_ok (re_store R) q = Ok ()" for q
    by (simp add: step_ok_def assms(8))
  have "cipher_ok (argon2_1 L pw (st_salt (re_store R)))"
    using assms(7) by (simp add: store_laws_def cipher_ok_def)
  then obtain d where d: "OpenOrCreate L (re_store R) pw \<lparr>sf_db = None, sf_backups = []\<rparr> =
      (\<lparr>sf_db = Some d, sf_backups = []\<rparr>, Ok (argon2_1 L pw (st_salt (re_store R))))" "db_keys d = []"
    by (auto simp: OpenOrCreate_def ok applyMigrations_def vaultMigrations_def current_version_def new_db_def
        bootstrapOrUnlock_def seal_def)
  then have "verify_vault B L R pw (map_of es) = Ok ((map_of es)(''vault.db'' \<mapsto> be_db_bytes B d), False)"
    using assms(6) by (simp add: verify_vault_def es(1))
  then show ?thesis
    using d(2) install_calm [OF assms(3,4), of False] by (auto simp: es(2) set_entry_names)
qed

definition sealing_crypto :: crypto_lib where
  "sealing_crypto = open_crypto\<lparr>argon2_1 := (\<lambda>pw s. take 32 (pw @ replicate 32 CHR ''k'')),
     gcm_seal := (\<lambda>k n p. put_text k @ p), gcm_open := (\<lambda>k n c. case get_text c of (k', p) \<Rightarrow> if k = k' then Some p else None)\<rparr>"

definition dated_store :: store_env where
  "dated_store = toy_store\<lparr>st_format := (\<lambda>t. if 0 \<le> t then CHR ''p'' # replicate (nat t) CHR ''x'' else replicate (nat (- t)) CHR ''x''),
     st_parse := (\<lambda>s. case s of [] \<Rightarrow> None | c # cs \<Rightarrow> if c = CHR ''p'' then Some (int (length cs)) else Some (- int (length s)))\<rparr>"

lemma dated_store_parse: "st_parse dated_store (st_format dated_store t) = Some t"
proof (cases "0 \<le> t")
  case False
  then obtain k where "nat (- t) = Suc k"
    by (cases "nat (- t)") auto
  moreover from this have "t = - 1 - int k"
    by linarith
  ultimately show ?thesis
    using False by (simp add: dated_store_def)
qed (simp add: dated_store_def)

lemma sealing_laws: "store_laws sealing_crypto dated_store" "st_fault dated_store = (\<lambda>_. None)"
proof -
  show "store_laws sealing_crypto dated_store"
    unfolding store_laws_def dated_store_parse by (auto simp: sealing_crypto_def min_def)
qed (simp add: dated_store_def toy_store_def)

definition sealed_vault :: store_db where
  "sealed_vault = \<lparr>db_versions = vaultMigrations,
     db_verifier = Some (''s'', ''n'', gcm_seal sealing_crypto (argon2_1 sealing_crypto ''other'' ''s'') ''n'' verifier_text), db_keys = []\<rparr>"

definition sealed_lib :: backup_lib where
  "sealed_lib = toy_lib\<lparr>be_db_read := (\<lambda>x. Some sealed_vault)\<rparr>"

lemma backup_needs_the_vault_password_witness:
  "\<exists>fs1 digest. backup_Create sealed_lib calm_create ''secret'' toy_files = (fs1, Ok (''kairos-backup-1.tar.age'', digest)) \<and>
     backup_Restore sealed_lib sealing_crypto toy_config (calm_restore\<lparr>re_store := dated_store\<rparr>) ''secret'' (fs1 ''kairos-backup-1.tar.age'')
       (fs1 (sum_name ''kairos-backup-1.tar.age'')) Map.empty = (Map.empty, Err (VaultRefused ErrInvalidPassword))"
proof -
  have laws: "backup_laws sealed_lib"
    using toy_lib_laws by (simp add: backup_laws_def sealed_lib_def)
  obtain fs1 digest where c: "backup_Create sealed_lib calm_create ''secret'' toy_files = (fs1, Ok (''kairos-backup-1.tar.age'', digest))"
    by (simp add: backup_Create_def calm_create_def toy_files_def backup_files_def Let_def trim_secret)
  have calm: "re_fault (calm_restore\<lparr>re_store := dated_store\<rparr>) = (\<lambda>_. None)"
    "re_store (calm_restore\<lparr>re_store := dated_store\<rparr>) = dated_store"
    by (simp_all add: calm_restore_def)
  have v: "archived_vault sealed_lib toy_files = Inr (Some sealed_vault)"
    by (simp add: archived_vault_def toy_files_def sealed_lib_def)
  have cfg: "config_Load toy_config (toy_files ''config.yaml'') = Ok (Default plain_env ''d'')"
    by (simp add: toy_files_def toy_config_ok)
  have pw: "argon2_1 sealing_crypto ''secret'' ''s'' \<noteq> argon2_1 sealing_crypto ''other'' ''s''"
    by (simp add: sealing_crypto_def)
  have d: "db_versions sealed_vault = vaultMigrations"
    "db_verifier sealed_vault = Some (''s'', ''n'', gcm_seal sealing_crypto (argon2_1 sealing_crypto ''other'' ''s'') ''n'' verifier_text)"
    by (simp_all add: sealed_vault_def)
  show ?thesis
    using c backup_needs_the_vault_password [OF laws c _ calm(1) _ cfg v d pw, of Map.empty] sealing_laws
    unfolding calm(2) by blast
qed

end
