(* ===== verification/Command_Line.thy ===== *)
theory Command_Line
  imports Agent_Service
begin

text \<open>
  The commands of the shipped binary, \<open>cmd/kairos/cli\<close>: initialisation, health check, headless mode, plugin keys,
  export, backup, restore and update. They work on the files of the state directory; the service they build has
  stand-ins for the disclaimer, the export and the key store, and a runtime without a snapshot store.
\<close>

subsection \<open>The profile and the service of a command\<close>

type_synonym state_files = "string \<rightharpoonup> string"

record profile =
  pr_exists :: bool
  pr_mode :: int
  pr_files :: state_files

text \<open>\<open>config.NewManager\<close>: a missing file is written with the defaults, in a directory made with mode 0755 if it is
  missing; a failing write may leave anything.\<close>

definition with_config :: "string option \<Rightarrow> profile \<Rightarrow> profile" where
  "with_config body p =
     p\<lparr>pr_exists := True, pr_mode := (if pr_exists p then pr_mode p else 493),
       pr_files := (pr_files p)(''config.yaml'' := body)\<rparr>"

definition open_config ::
  "'p config_env \<Rightarrow> string \<Rightarrow> write_fault \<Rightarrow> profile \<Rightarrow> profile \<times> (config_error + 'p config_manager)" where
  "open_config V dir fault p =
     (let file = pr_files p ''config.yaml'' in
      case config_NewManager V dir file fault of
        Inr m \<Rightarrow> (with_config (cm_file m) p, Ok m)
      | Inl e \<Rightarrow>
          (case (file, fault) of
             (None, Some (_, Some left)) \<Rightarrow> (with_config (Some left) p, Err e)
           | _ \<Rightarrow> (p, Err e)))"

text \<open>The stand-ins: \<open>mockDisclaimerRepo\<close> always answers that the disclaimer was accepted, \<open>mockPluginTrustRepo\<close> and
  \<open>mockExportRepo\<close> answer without an error and store nothing.\<close>

definition mock_DisclaimerAccepted :: "audit_error + bool" where
  "mock_DisclaimerAccepted = Ok True"

definition mock_ExportCSV :: "string \<Rightarrow> string + string" where
  "mock_ExportCSV destination = Ok []"

definition mock_TrustPluginKey :: "string + unit" where
  "mock_TrustPluginKey = Ok ()"

definition cli_service :: "'p config_manager \<Rightarrow> time \<Rightarrow> 'p agent_svc" where
  "cli_service m now = \<lparr>ag_runtime = repo_New (\<lambda>_. make_chan 0) False None now now None, ag_config = m, ag_audit = [],
     ag_trusted = Map.empty\<rparr>"

text \<open>\<open>StartLive\<close> on any answer of the disclaimer repository.\<close>

definition StartLive_on :: "audit_error + bool \<Rightarrow> io \<Rightarrow> 'p agent_svc \<Rightarrow> 'p agent_result" where
  "StartLive_on accepted i a =
     (case accepted of
        Inl e \<Rightarrow> (a, Err (FromAudit e))
      | Inr False \<Rightarrow> (a, Err FinancialRiskDisclaimerRequired)
      | Inr True \<Rightarrow>
          (case repo_SetLicense LicenseStateLicensed (io_now i) (io_save1 i) (ag_runtime a) of
             (r1, Inl e) \<Rightarrow> (a\<lparr>ag_runtime := r1\<rparr>, Err (FromRuntime e))
           | (r1, Inr _) \<Rightarrow>
               (case repo_Transition RunModeLiveTrading ''live trading requested'' (io_then i) (io_save2 i) r1 of
                  (r2, res) \<Rightarrow> (a\<lparr>ag_runtime := r2\<rparr>, lift_err FromRuntime res))))"

lemma StartLive_is_StartLive_on:
  "StartLive L i a = StartLive_on (DisclaimerAccepted (gl_audit L) (io_audit_open i) (ag_audit a)) i a"
  by (simp add: StartLive_def StartLive_on_def)

subsection \<open>Prompts\<close>

text \<open>What \<open>Scanln\<close> read, or its error.\<close>

definition confirmPrompt :: "string + string \<Rightarrow> string + bool" where
  "confirmPrompt input =
     and_then input (\<lambda>response. Ok (response = ''y'' \<or> response = ''Y'' \<or> response = ''yes'' \<or> response = ''YES''))"

datatype command_result =
    CommandError string | CommandConfig config_error | CommandAgent agent_error | CommandAborted | CommandDone

subsection \<open>kairos headless\<close>

record headless_flags =
  hf_paper :: bool
  hf_scan :: bool
  hf_live :: bool
  hf_confirm :: bool

text \<open>The result with the service as it runs until the signal comes, if it does. \<open>i\<close> and \<open>j\<close> are the surroundings of
  the start and of the stop.\<close>

definition runHeadless ::
  "'p config_env \<Rightarrow> string \<Rightarrow> headless_flags \<Rightarrow> write_fault \<Rightarrow> time \<Rightarrow> io \<Rightarrow> io \<Rightarrow> profile \<Rightarrow>
   profile \<times> 'p agent_svc option \<times> command_result" where
  "runHeadless V dir flags fault now i j p =
     (let modeCount = length (filter id [hf_paper flags, hf_scan flags, hf_live flags]) in
      if modeCount = 0 then (p, None, CommandError ''mode flag required: --paper, --scan, or --live'')
      else if modeCount > 1 then (p, None, CommandError ''only one mode flag allowed'')
      else if hf_live flags \<and> \<not> hf_confirm flags
      then (p, None, CommandError ''live trading in headless mode requires --confirm flag'')
      else case open_config V dir fault p of
        (p1, Inl e) \<Rightarrow> (p1, None, CommandConfig e)
      | (p1, Inr m) \<Rightarrow>
          (let svc = cli_service m now;
               started = (if hf_paper flags then StartPaper i svc
                          else if hf_scan flags then StartScan i svc
                          else StartLive_on mock_DisclaimerAccepted i svc) in
           case started of
             (_, Inl e) \<Rightarrow> (p1, None, CommandAgent e)
           | (running, Inr _) \<Rightarrow>
               (case StopAll j running of
                  (_, Inl e) \<Rightarrow> (p1, Some running, CommandAgent e)
                | (_, Inr _) \<Rightarrow> (p1, Some running, CommandDone))))"

subsection \<open>kairos init\<close>

record init_input =
  in_force :: bool
  in_accept :: bool
  in_telemetry :: string
  in_reinit_answer :: "string + string"
  in_disclaimer_answer :: "string + string"
  in_telemetry_answer :: "string + string"
  in_remove_fault :: "(string \<times> state_files) option"
  in_mkdir_fault :: "string option"
  in_config_fault :: write_fault
  in_apply_fault :: write_fault
  in_record_fault :: "string option"

definition displayDisclaimer :: "init_input \<Rightarrow> string + unit" where
  "displayDisclaimer I =
     (if in_accept I then Ok ()
      else and_then (confirmPrompt (in_disclaimer_answer I)) (\<lambda>confirmed.
        if confirmed then Ok () else Err ''disclaimer not accepted - initialization aborted''))"

text \<open>\<open>lower\<close> is \<open>strings.ToLower\<close>.\<close>

definition telemetryPrompt :: "(string \<Rightarrow> string) \<Rightarrow> init_input \<Rightarrow> string + bool" where
  "telemetryPrompt lower I =
     and_then (in_telemetry_answer I) (\<lambda>line.
       let response = lower (TrimSpace line) in Ok (response = [] \<or> response = ''y'' \<or> response = ''yes''))"

definition with_telemetry :: "bool \<Rightarrow> 'p config \<Rightarrow> 'p config" where
  "with_telemetry enabled c =
     c\<lparr>Telemetry := (Telemetry c)\<lparr>tl_Enabled := enabled,
        tl_Profile := (if enabled then TelemetryProfileMinimal else TelemetryProfileOff)\<rparr>\<rparr>"

text \<open>\<open>None\<close>: nothing to apply.\<close>

definition telemetry_choice :: "(string \<Rightarrow> string) \<Rightarrow> init_input \<Rightarrow> string + bool option" where
  "telemetry_choice lower I =
     (let mode = lower (TrimSpace (in_telemetry I)) in
      if mode \<in> {''minimal'', ''on'', ''true'', ''yes''} then Ok (Some True)
      else if mode \<in> {''off'', ''false'', ''no''} then Ok (Some False)
      else if mode = ''ask'' \<or> mode = [] then
        (if in_accept I then Ok None else and_then (telemetryPrompt lower I) (\<lambda>enabled. Ok (Some enabled)))
      else Err ''invalid telemetry mode'')"

definition configureTelemetryConsent ::
  "(string \<Rightarrow> string) \<Rightarrow> 'p config_env \<Rightarrow> init_input \<Rightarrow> 'p config_manager \<Rightarrow> 'p config_manager \<times> command_result option" where
  "configureTelemetryConsent lower V I m =
     (case telemetry_choice lower I of
        Inl e \<Rightarrow> (m, Some (CommandError e))
      | Inr None \<Rightarrow> (m, None)
      | Inr (Some enabled) \<Rightarrow>
          (case config_Current m of
             None \<Rightarrow> (m, Some (CommandConfig NoCurrentConfig))
           | Some c \<Rightarrow>
               (case config_Apply V (in_apply_fault I) (with_telemetry enabled c) m of
                  (m1, Inl e) \<Rightarrow> (m1, Some (CommandConfig e))
                | (m1, Inr _) \<Rightarrow> (m1, None))))"

text \<open>The part after the directory exists.\<close>

definition init_profile ::
  "(string \<Rightarrow> string) \<Rightarrow> 'p config_env \<Rightarrow> string \<Rightarrow> init_input \<Rightarrow> profile \<Rightarrow> profile \<times> command_result" where
  "init_profile lower V dir I p =
     (case displayDisclaimer I of
        Inl e \<Rightarrow> (p, CommandError e)
      | Inr _ \<Rightarrow>
          (case open_config V dir (in_config_fault I) p of
             (p1, Inl e) \<Rightarrow> (p1, CommandConfig e)
           | (p1, Inr m) \<Rightarrow>
               (case configureTelemetryConsent lower V I m of
                  (m1, consent) \<Rightarrow>
                    (let p2 = p1\<lparr>pr_files := (pr_files p1)(''config.yaml'' := cm_file m1)\<rparr> in
                     case consent of
                       Some r \<Rightarrow> (p2, r)
                     | None \<Rightarrow>
                         (case in_record_fault I of
                            Some e \<Rightarrow> (p2, CommandError (''write disclaimer record: '' @ e))
                          | None \<Rightarrow>
                              (p2\<lparr>pr_files := (pr_files p2)(''disclaimer_accepted'' \<mapsto> ''cli-init'' @ [CHR 0x0A])\<rparr>, CommandDone))))))"

text \<open>An existing profile is removed when the user forces and confirms it; the disclaimer is asked for afterwards.\<close>

definition runInit ::
  "(string \<Rightarrow> string) \<Rightarrow> 'p config_env \<Rightarrow> string \<Rightarrow> init_input \<Rightarrow> profile \<Rightarrow> profile \<times> command_result" where
  "runInit lower V dir I p =
     (let continue = (\<lambda>p. case in_mkdir_fault I of
                         Some e \<Rightarrow> (p, CommandError (''create state directory: '' @ e))
                       | None \<Rightarrow> init_profile lower V dir I
                                  (if pr_exists p then p else \<lparr>pr_exists = True, pr_mode = 448, pr_files = Map.empty\<rparr>)) in
      if pr_exists p \<and> pr_files p ''config.yaml'' \<noteq> None then
        (if \<not> in_force I then (p, CommandError ''profile already initialized'')
         else case confirmPrompt (in_reinit_answer I) of
           Inl e \<Rightarrow> (p, CommandError e)
         | Inr False \<Rightarrow> (p, CommandAborted)
         | Inr True \<Rightarrow>
             (case in_remove_fault I of
                Some (e, left) \<Rightarrow> (p\<lparr>pr_files := left\<rparr>, CommandError (''remove existing state: '' @ e))
              | None \<Rightarrow> continue \<lparr>pr_exists = False, pr_mode = 0, pr_files = Map.empty\<rparr>))
      else continue p)"

subsection \<open>kairos check\<close>

datatype cli_check_status = CheckPass | CheckWarn | CheckFail

text \<open>What a check depends on: the errors of its file operations and writes of the default configuration.\<close>

record check_env =
  ck_stat_fault :: "string option"
  ck_write_fault :: "string option"
  ck_config_fault :: write_fault
  ck_now :: time

definition checkProfileInit :: "profile \<Rightarrow> cli_check_status" where
  "checkProfileInit p =
     (if \<not> pr_exists p \<or> pr_files p ''config.yaml'' = None then CheckFail
      else if pr_files p ''disclaimer_accepted'' = None then CheckWarn else CheckPass)"

definition checkConfiguration :: "'p config_env \<Rightarrow> string \<Rightarrow> check_env \<Rightarrow> profile \<Rightarrow> profile \<times> cli_check_status" where
  "checkConfiguration V dir E p =
     (case open_config V dir (ck_config_fault E) p of
        (p1, Inl _) \<Rightarrow> (p1, CheckFail)
      | (p1, Inr m) \<Rightarrow>
          (p1, case config_Current m of
                 None \<Rightarrow> CheckFail
               | Some c \<Rightarrow> (case config_Validate V c of Inl _ \<Rightarrow> CheckFail | Inr _ \<Rightarrow> CheckPass)))"

definition checkFilePermissions :: "check_env \<Rightarrow> profile \<Rightarrow> cli_check_status" where
  "checkFilePermissions E p =
     (if ck_stat_fault E \<noteq> None \<or> \<not> pr_exists p then CheckFail
      else if pr_mode p \<noteq> 448 then CheckWarn else CheckPass)"

text \<open>The file \<open>.diskcheck\<close> is written and removed again.\<close>

definition checkDiskSpace :: "check_env \<Rightarrow> profile \<Rightarrow> profile \<times> cli_check_status" where
  "checkDiskSpace E p =
     (if ck_write_fault E \<noteq> None \<or> \<not> pr_exists p then (p, CheckFail)
      else (p\<lparr>pr_files := (pr_files p)(''.diskcheck'' := None)\<rparr>, CheckPass))"

text \<open>The other checks load the configuration again and ask a new service.\<close>

definition with_service ::
  "'p config_env \<Rightarrow> string \<Rightarrow> check_env \<Rightarrow> ('p agent_svc \<Rightarrow> (agent_error, cli_check_status) outcome) \<Rightarrow> profile \<Rightarrow>
   (profile \<times> cli_check_status) option" where
  "with_service V dir E verdict p =
     (case open_config V dir (ck_config_fault E) p of
        (p1, Inl _) \<Rightarrow> Some (p1, CheckFail)
      | (p1, Inr m) \<Rightarrow>
          (case verdict (cli_service m (ck_now E)) of
             Return st \<Rightarrow> Some (p1, st)
           | Fail _ \<Rightarrow> Some (p1, CheckFail)
           | Panic \<Rightarrow> None))"

definition runtime_verdict :: "'p agent_svc \<Rightarrow> (agent_error, cli_check_status) outcome" where
  "runtime_verdict a = Return CheckPass"

definition license_status :: "license_state \<Rightarrow> cli_check_status" where
  "license_status l = (if l = LicenseStateDemo \<or> l = LicenseStateLicensed then CheckPass else CheckWarn)"

definition license_verdict :: "'p agent_svc \<Rightarrow> (agent_error, cli_check_status) outcome" where
  "license_verdict a = bind_outcome (service_Check a) (\<lambda>out. Return (license_status (License (co_Status out))))"

definition check_verdict :: "'p agent_svc \<Rightarrow> (agent_error, cli_check_status) outcome" where
  "check_verdict a = bind_outcome (service_Check a) (\<lambda>_. Return CheckPass)"

definition checkRuntimeStatus :: "'p config_env \<Rightarrow> string \<Rightarrow> check_env \<Rightarrow> profile \<Rightarrow> (profile \<times> cli_check_status) option" where
  "checkRuntimeStatus V dir E = with_service V dir E runtime_verdict"

definition checkLicenseStatus :: "'p config_env \<Rightarrow> string \<Rightarrow> check_env \<Rightarrow> profile \<Rightarrow> (profile \<times> cli_check_status) option" where
  "checkLicenseStatus V dir E = with_service V dir E license_verdict"

definition checkNetworkRequirements :: "'p config_env \<Rightarrow> string \<Rightarrow> check_env \<Rightarrow> profile \<Rightarrow> (profile \<times> cli_check_status) option" where
  "checkNetworkRequirements V dir E = with_service V dir E check_verdict"

definition checkTelemetrySettings :: "'p config_env \<Rightarrow> string \<Rightarrow> check_env \<Rightarrow> profile \<Rightarrow> (profile \<times> cli_check_status) option" where
  "checkTelemetrySettings V dir E = with_service V dir E check_verdict"

text \<open>The eight checks in order; \<open>None\<close> is a panic.\<close>

definition runCheck ::
  "'p config_env \<Rightarrow> string \<Rightarrow> check_env \<Rightarrow> profile \<Rightarrow> (profile \<times> cli_check_status list \<times> command_result) option" where
  "runCheck V dir E p =
     (let c1 = checkProfileInit p;
          (p2, c2) = checkConfiguration V dir E p;
          c3 = checkFilePermissions E p2;
          (p4, c4) = checkDiskSpace E p2 in
      case checkRuntimeStatus V dir E p4 of None \<Rightarrow> None | Some (p5, c5) \<Rightarrow>
      case checkLicenseStatus V dir E p5 of None \<Rightarrow> None | Some (p6, c6) \<Rightarrow>
      case checkNetworkRequirements V dir E p6 of None \<Rightarrow> None | Some (p7, c7) \<Rightarrow>
      case checkTelemetrySettings V dir E p7 of None \<Rightarrow> None | Some (p8, c8) \<Rightarrow>
      (let results = [c1, c2, c3, c4, c5, c6, c7, c8];
           failed = length (filter (\<lambda>c. c = CheckFail) results) in
       Some (p8, results,
         if failed > 0 then CommandError (''health check failed with '' @ nat_text failed @ '' errors'') else CommandDone)))"

subsection \<open>kairos plugin\<close>

text \<open>\<open>pubkey\<close> is \<open>None\<close> without the flag, else what reading the key file gave. The key goes to the stand-in.\<close>

definition runPluginTrust ::
  "'p config_env \<Rightarrow> string \<Rightarrow> string \<Rightarrow> (string + string) option \<Rightarrow> write_fault \<Rightarrow> profile \<Rightarrow> profile \<times> command_result" where
  "runPluginTrust V dir fingerprint pubkey fault p =
     (case pubkey of
        None \<Rightarrow> (p, CommandError ''--pubkey-file flag is required'')
      | Some (Inl e) \<Rightarrow> (p, CommandError (''read public key: '' @ e))
      | Some (Inr key) \<Rightarrow>
          (case open_config V dir fault p of
             (p1, Inl e) \<Rightarrow> (p1, CommandConfig e)
           | (p1, Inr m) \<Rightarrow>
               (case repo_Config m of
                  None \<Rightarrow> (p1, CommandConfig NoCurrentConfig)
                | Some c \<Rightarrow>
                    (p1, if fingerprint \<notin> set (a_TrustedPluginFingerprints c)
                         then CommandAgent (FingerprintNotListed fingerprint)
                         else case mock_TrustPluginKey of Inl e \<Rightarrow> CommandAgent (FromVault e) | Inr _ \<Rightarrow> CommandDone))))"

definition runPluginRevoke :: "string + string \<Rightarrow> string \<Rightarrow> profile \<Rightarrow> profile \<times> command_result" where
  "runPluginRevoke answer fingerprint p =
     (case confirmPrompt answer of
        Inl e \<Rightarrow> (p, CommandError e)
      | Inr confirmed \<Rightarrow> (p, if confirmed then CommandDone else CommandAborted))"

definition runPluginList :: "'p config_env \<Rightarrow> string \<Rightarrow> write_fault \<Rightarrow> profile \<Rightarrow> profile \<times> (config_error + string list)" where
  "runPluginList V dir fault p =
     (case open_config V dir fault p of
        (p1, Inl e) \<Rightarrow> (p1, Err e)
      | (p1, Inr m) \<Rightarrow>
          (p1, case config_Current m of None \<Rightarrow> Err NoCurrentConfig | Some c \<Rightarrow> Ok (TrustedPluginKeys c)))"

subsection \<open>kairos export, backup, restore and update\<close>

text \<open>The path that the command reports with a finished export.\<close>

definition runExport ::
  "'p config_env \<Rightarrow> string \<Rightarrow> string \<Rightarrow> string \<Rightarrow> write_fault \<Rightarrow> profile \<Rightarrow> profile \<times> command_result \<times> string" where
  "runExport V dir format output fault p =
     (if format \<noteq> ''csv'' then (p, CommandError (''unsupported format: '' @ format @ '' (only csv supported)''), [])
      else case open_config V dir fault p of
        (p1, Inl e) \<Rightarrow> (p1, CommandConfig e, [])
      | (p1, Inr m) \<Rightarrow>
          (case mock_ExportCSV output of
             Inl e \<Rightarrow> (p1, CommandError (''export failed: '' @ e), [])
           | Inr path \<Rightarrow> (p1, CommandDone, path)))"

text \<open>\<open>out\<close> is the name of the output in the state directory.\<close>

definition runBackup :: "string \<Rightarrow> string option \<Rightarrow> string option \<Rightarrow> profile \<Rightarrow> profile \<times> command_result" where
  "runBackup out mkdir_fault write_fault p =
     (case mkdir_fault of
        Some e \<Rightarrow> (p, CommandError (''create backup directory: '' @ e))
      | None \<Rightarrow>
          (case write_fault of
             Some e \<Rightarrow> (p, CommandError (''create backup: '' @ e))
           | None \<Rightarrow> (p\<lparr>pr_exists := True, pr_files := (pr_files p)(out \<mapsto> ''backup placeholder'')\<rparr>, CommandDone)))"

text \<open>\<open>file\<close> is empty without the flag; \<open>found\<close> tells whether it exists.\<close>

definition runRestore :: "bool \<Rightarrow> string \<Rightarrow> bool \<Rightarrow> string + string \<Rightarrow> profile \<Rightarrow> profile \<times> command_result" where
  "runRestore confirm file found answer p =
     (if \<not> confirm then (p, CommandError ''restore requires --confirm flag'')
      else if file = [] then (p, CommandError ''--file flag is required'')
      else if \<not> found then (p, CommandError (''backup file not found: '' @ file))
      else case confirmPrompt answer of
        Inl e \<Rightarrow> (p, CommandError e)
      | Inr confirmed \<Rightarrow> (p, if confirmed then CommandDone else CommandAborted))"

definition runUpdateApply :: "bool \<Rightarrow> string + string \<Rightarrow> profile \<Rightarrow> profile \<times> command_result" where
  "runUpdateApply confirm answer p =
     (if \<not> confirm then (p, CommandError ''update apply requires --confirm flag'')
      else case confirmPrompt answer of
        Inl e \<Rightarrow> (p, CommandError e)
      | Inr confirmed \<Rightarrow> (p, if confirmed then CommandDone else CommandAborted))"

subsection \<open>Lemmas\<close>

lemma config_Write_Ok: "config_Write V fault c m = (m1, Inr u) \<Longrightarrow> cm_file m1 \<noteq> None"
  by (auto simp: config_Write_def split: option.splits if_splits sum.splits prod.splits)

lemma config_Apply_file:
  "cm_file m \<noteq> None \<Longrightarrow> config_Apply V fault c m = (m1, Inr u) \<Longrightarrow> cm_file m1 \<noteq> None"
  by (auto simp: config_Apply_def dest: config_Write_Ok split: sum.splits prod.splits)

lemma config_NewManager_file: "config_NewManager V dir file fault = Inr m \<Longrightarrow> cm_file m \<noteq> None"
  by (auto simp: config_NewManager_def and_then_def Let_def dest: config_Write_Ok split: if_splits sum.splits prod.splits)

lemma open_config_Inr:
  assumes "open_config V dir fault p = (p1, Inr m)"
  shows "config_NewManager V dir (pr_files p ''config.yaml'') fault = Inr m" "p1 = with_config (cm_file m) p" "cm_file m \<noteq> None"
proof -
  show n: "config_NewManager V dir (pr_files p ''config.yaml'') fault = Inr m"
    using assms by (auto simp: open_config_def Let_def split: sum.splits option.splits prod.splits)
  then show "p1 = with_config (cm_file m) p" using assms by (simp add: open_config_def Let_def)
  show "cm_file m \<noteq> None" using n by (rule config_NewManager_file)
qed


lemma config_NewManager_live: "config_NewManager V dir file fault = Inr m \<Longrightarrow> \<exists>c. config_Current m = Some c"
  by (auto simp: config_NewManager_def config_Current_def and_then_def Let_def split: if_splits sum.splits prod.splits)

lemma confirmPrompt_yes:
  "confirmPrompt input = Ok True \<longleftrightarrow> (\<exists>r \<in> {''y'', ''Y'', ''yes'', ''YES''}. input = Ok r)"
  by (cases input) (auto simp: confirmPrompt_def and_then_def)

text \<open>A command's service is new: its runtime knows nothing of what ran before.\<close>

lemma cli_service_new:
  "r_manager (ag_runtime (cli_service m now)) = NewManager (\<lambda>_. make_chan 0) now"
  "has_store (ag_runtime (cli_service m now)) = False" "ag_config (cli_service m now) = m"
  by (simp_all add: cli_service_def repo_New_def restoreSnapshot_def)

lemma configure_keeps_file:
  assumes "cm_file m \<noteq> None" "configureTelemetryConsent lower V I m = (m1, None)"
  shows "cm_file m1 \<noteq> None"
proof (cases "telemetry_choice lower I")
  case (Inr c)
  then show ?thesis
    using assms config_Apply_file [OF assms(1)]
    by (auto simp: configureTelemetryConsent_def split: option.splits sum.splits prod.splits)
qed (use assms in \<open>simp add: configureTelemetryConsent_def\<close>)

lemma configure_not_done: "snd (configureTelemetryConsent lower V I m) \<noteq> Some CommandDone"
  by (simp add: configureTelemetryConsent_def case_prod_beta split: sum.split option.split)

lemma init_profile_done:
  assumes "init_profile lower V dir I p = (q, CommandDone)"
  shows "in_accept I \<or> confirmPrompt (in_disclaimer_answer I) = Ok True"
    and "\<exists>body. pr_files q ''config.yaml'' = Some body"
    and "pr_files q ''disclaimer_accepted'' = Some (''cli-init'' @ [CHR 0x0A])"
proof -
  obtain u where d: "displayDisclaimer I = Inr u"
    using assms by (cases "displayDisclaimer I") (auto simp: init_profile_def)
  obtain p1 r where o1: "open_config V dir (in_config_fault I) p = (p1, r)" by fastforce
  obtain m where o: "open_config V dir (in_config_fault I) p = (p1, Inr m)"
    using assms d o1 by (cases r) (simp_all add: init_profile_def)
  obtain m1 c where t: "configureTelemetryConsent lower V I m = (m1, c)" by fastforce
  have c: "c = None"
    using assms d o t configure_not_done [of lower V I m] by (cases c) (simp_all add: init_profile_def Let_def)
  have cf: "c = None \<and> in_record_fault I = None"
    using assms d o t c by (cases "in_record_fault I") (simp_all add: init_profile_def Let_def)
  then have q: "q = p1\<lparr>pr_files := (pr_files p1)(''config.yaml'' := cm_file m1, ''disclaimer_accepted'' \<mapsto> ''cli-init'' @ [CHR 0x0A])\<rparr>"
    using assms d o t by (simp add: init_profile_def Let_def)
  have "cm_file m1 \<noteq> None" using configure_keeps_file [OF open_config_Inr(3) [OF o]] t cf by blast
  then show "\<exists>body. pr_files q ''config.yaml'' = Some body" using q by auto
  show "pr_files q ''disclaimer_accepted'' = Some (''cli-init'' @ [CHR 0x0A])" using q by simp
  show "in_accept I \<or> confirmPrompt (in_disclaimer_answer I) = Ok True"
    using d by (auto simp: displayDisclaimer_def and_then_def split: if_splits sum.splits)
qed

subsection \<open>Properties of the initialisation\<close>

abbreviation initialized :: "profile \<Rightarrow> bool" where
  "initialized p \<equiv> pr_exists p \<and> pr_files p ''config.yaml'' \<noteq> None"

lemma runInit_kept:
  assumes "initialized p" "\<not> (in_force I \<and> confirmPrompt (in_reinit_answer I) = Ok True)"
  shows "fst (runInit lower V dir I p) = p \<and> snd (runInit lower V dir I p) \<noteq> CommandDone"
proof (cases "confirmPrompt (in_reinit_answer I)")
  case (Inr b)
  then show ?thesis using assms by (cases b) (simp_all add: runInit_def Let_def)
qed (use assms in \<open>simp add: runInit_def Let_def\<close>)

lemma runInit_cases:
  "snd (runInit lower V dir I p) \<noteq> CommandDone \<or> (\<exists>p0. runInit lower V dir I p = init_profile lower V dir I p0)"
  unfolding runInit_def Let_def by (simp split: option.split sum.split bool.split prod.split) blast

lemma runInit_done:
  "snd (runInit lower V dir I p) = CommandDone \<Longrightarrow> \<exists>p0. runInit lower V dir I p = init_profile lower V dir I p0"
  using runInit_cases by metis

text \<open>\<open>kairos init\<close> protects a profile and asks first: an initialised profile is left exactly as it is unless the
  user both forces and confirms the reset, and the command ends well only after the disclaimer was accepted, by flag
  or at the prompt, with the configuration and the acceptance on disk.\<close>

theorem init_protects_and_asks:
  shows "(initialized p \<and> \<not> (in_force I \<and> confirmPrompt (in_reinit_answer I) = Ok True) \<longrightarrow>
      fst (runInit lower V dir I p) = p \<and> snd (runInit lower V dir I p) \<noteq> CommandDone) \<and>
    (snd (runInit lower V dir I p) = CommandDone \<longrightarrow>
      (in_accept I \<or> confirmPrompt (in_disclaimer_answer I) = Ok True) \<and>
      (\<exists>body. pr_files (fst (runInit lower V dir I p)) ''config.yaml'' = Some body) \<and>
      pr_files (fst (runInit lower V dir I p)) ''disclaimer_accepted'' = Some (''cli-init'' @ [CHR 0x0A]))"
  using runInit_kept runInit_done init_profile_done by (metis prod.collapse)

text \<open>A sample: a fresh directory, the disclaimer accepted by flag.\<close>

definition sample_init :: init_input where
  "sample_init = \<lparr>in_force = False, in_accept = True, in_telemetry = ''ask'', in_reinit_answer = Err ''EOF'',
     in_disclaimer_answer = Err ''EOF'', in_telemetry_answer = Err ''EOF'', in_remove_fault = None, in_mkdir_fault = None,
     in_config_fault = None, in_apply_fault = None, in_record_fault = None\<rparr>"

abbreviation no_profile :: profile where
  "no_profile \<equiv> \<lparr>pr_exists = False, pr_mode = 0, pr_files = Map.empty\<rparr>"

lemma plain_open: "\<exists>m. open_config plain_env ''d'' None p = (with_config (cm_file m) p, Ok m) \<and> cm_file m \<noteq> None"
  if "pr_files p ''config.yaml'' = None"
  using that plain_start config_NewManager_file by (fastforce simp: open_config_def)

lemma sample_init_done: "snd (runInit id plain_env ''d'' sample_init no_profile) = CommandDone"
proof -
  obtain m where m: "open_config plain_env ''d'' None \<lparr>pr_exists = True, pr_mode = 448, pr_files = Map.empty\<rparr> =
      (with_config (cm_file m) \<lparr>pr_exists = True, pr_mode = 448, pr_files = Map.empty\<rparr>, Ok m)"
    using plain_open [of "\<lparr>pr_exists = True, pr_mode = 448, pr_files = Map.empty\<rparr>"] by auto
  have "telemetry_choice id sample_init = Ok None" by code_simp
  then show ?thesis
    using m by (simp add: runInit_def init_profile_def sample_init_def displayDisclaimer_def configureTelemetryConsent_def Let_def)
qed

theorem init_protects_and_asks_witness:
  "pr_files (fst (runInit id plain_env ''d'' sample_init no_profile)) ''disclaimer_accepted'' = Some (''cli-init'' @ [CHR 0x0A])"
  using init_protects_and_asks [of no_profile sample_init id plain_env "''d''"] sample_init_done by blast

text \<open>The disclaimer is asked for after the old profile is gone: declining it then leaves an empty directory, with the
  configuration, the vault and the keys of the old one deleted.\<close>

theorem declined_disclaimer_loses_the_profile:
  assumes "initialized p" "in_force I" "confirmPrompt (in_reinit_answer I) = Ok True" "in_remove_fault I = None"
    "in_mkdir_fault I = None" "\<not> in_accept I" "confirmPrompt (in_disclaimer_answer I) = Ok False"
  shows "pr_files (fst (runInit lower V dir I p)) = Map.empty \<and>
    snd (runInit lower V dir I p) = CommandError ''disclaimer not accepted - initialization aborted''"
  using assms by (simp add: runInit_def init_profile_def displayDisclaimer_def and_then_def Let_def)

subsection \<open>Properties of the other commands\<close>

lemma m_Transition_current: "m_Transition to arg m = Inr m' \<Longrightarrow> CurrentState m' = to"
  by (cases arg) (auto simp: m_Transition_def CurrentState_def split: sum.splits dest: mm_Transition_Ok)

lemma StartLive_on_new:
  "\<exists>svc. StartLive_on mock_DisclaimerAccepted i (cli_service m now) = (svc, Ok ()) \<and> agent_mode svc = RunModeLiveTrading \<and>
     License (service_Status svc) = LicenseStateLicensed \<and> ag_audit svc = []"
proof -
  let ?m = "SetLicense LicenseStateLicensed (io_now i) (NewManager (\<lambda>_. make_chan 0) now)"
  have "CurrentState ?m \<noteq> RunModeHalted" by (simp add: SetLicense_def NewManager_def mm_New_def CurrentState_def Let_def)
  then obtain m' where t: "m_Transition RunModeLiveTrading (''live trading requested'', io_then i) ?m = Inr m'"
      "m_status m' = commit_status RunModeLiveTrading ''live trading requested'' (io_then i) (m_status ?m)"
    by (rule m_Transition_succeeds [OF disjI1])
  have cur: "CurrentState m' = RunModeLiveTrading" by (rule m_Transition_current [OF t(1)])
  define svc where "svc = (cli_service m now)\<lparr>ag_runtime := (ag_runtime (cli_service m now))\<lparr>r_manager := m'\<rparr>\<rparr>"
  have "StartLive_on mock_DisclaimerAccepted i (cli_service m now) = (svc, Ok ())"
    by (simp add: StartLive_on_def mock_DisclaimerAccepted_def repo_SetLicense_def repo_Transition_def persist_def cli_service_new t svc_def)
  moreover have "agent_mode svc = RunModeLiveTrading" "ag_audit svc = []"
    by (simp_all add: svc_def agent_mode_def cur cli_service_def)
  moreover have "License (service_Status svc) = LicenseStateLicensed"
    by (simp add: svc_def service_Status_def repo_Status_def Snapshot_def t commit_status_def SetLicense_def)
  ultimately show ?thesis by blast
qed

text \<open>\<open>kairos headless --live --confirm\<close> trades live on any profile whose configuration loads: no answer of the
  disclaimer is read from the profile or the audit log, because the command's service holds a stand-in that always
  says yes, and the new runtime is licensed on the way whatever the configuration says.\<close>

theorem headless_live_asks_nobody:
  assumes "open_config V dir fault p = (p1, Inr m)"
  shows "\<exists>svc res. runHeadless V dir \<lparr>hf_paper = False, hf_scan = False, hf_live = True, hf_confirm = True\<rparr> fault now i j p =
      (p1, Some svc, res) \<and>
    agent_mode svc = RunModeLiveTrading \<and> License (service_Status svc) = LicenseStateLicensed \<and> ag_audit svc = [] \<and>
    pr_files p1 ''disclaimer_accepted'' = pr_files p ''disclaimer_accepted''"
proof -
  obtain svc where svc: "StartLive_on mock_DisclaimerAccepted i (cli_service m now) = (svc, Ok ())" "agent_mode svc = RunModeLiveTrading"
      "License (service_Status svc) = LicenseStateLicensed" "ag_audit svc = []"
    using StartLive_on_new by blast
  then have "\<exists>res. runHeadless V dir \<lparr>hf_paper = False, hf_scan = False, hf_live = True, hf_confirm = True\<rparr> fault now i j p =
      (p1, Some svc, res)"
    by (simp add: runHeadless_def assms Let_def case_prod_beta split: sum.split)
  moreover have "pr_files p1 ''disclaimer_accepted'' = pr_files p ''disclaimer_accepted''"
    using open_config_Inr(2) [OF assms] by (simp add: with_config_def)
  ultimately show ?thesis using svc by blast
qed

theorem headless_live_asks_nobody_witness:
  "\<exists>svc. fst (snd (runHeadless plain_env ''d'' \<lparr>hf_paper = False, hf_scan = False, hf_live = True, hf_confirm = True\<rparr> None 0
      sample_io sample_io no_profile)) = Some svc \<and> agent_mode svc = RunModeLiveTrading"
proof -
  obtain m where "open_config plain_env ''d'' None no_profile = (with_config (cm_file m) no_profile, Inr m)"
    using plain_open [of no_profile] by auto
  from headless_live_asks_nobody [OF this, of 0 sample_io sample_io] show ?thesis by auto
qed

subsection \<open>What the commands do not do\<close>

text \<open>The check of the licence, and all that ask a service, see a new one: in demo mode, so that they pass on any
  agent whose configuration loads.\<close>

theorem license_check_sees_a_new_agent:
  assumes "open_config V dir (ck_config_fault E) p = (p1, Inr m)"
  shows "with_service V dir E license_verdict p = Some (p1, CheckPass)"
    "with_service V dir E check_verdict p = Some (p1, CheckPass)"
    "with_service V dir E runtime_verdict p = Some (p1, CheckPass)"
proof -
  obtain c where c: "config_Current m = Some c"
    using config_NewManager_live [OF open_config_Inr(1) [OF assms]] by blast
  have "\<exists>out. service_Check (cli_service m (ck_now E)) = Return out \<and> License (co_Status out) = LicenseStateDemo"
    by (simp add: service_Check_def cli_service_new repo_Config_def c repo_Status_def Snapshot_def
        NewManager_def Let_def)
  then show "with_service V dir E license_verdict p = Some (p1, CheckPass)"
    "with_service V dir E check_verdict p = Some (p1, CheckPass)"
    by (auto simp: with_service_def assms license_verdict_def check_verdict_def license_status_def)
  show "with_service V dir E runtime_verdict p = Some (p1, CheckPass)"
    by (simp add: with_service_def assms runtime_verdict_def)
qed

text \<open>The check is not read-only: on a machine without a profile it creates one, and reports it missing.\<close>

theorem check_creates_the_profile:
  assumes "\<not> pr_exists p" "pr_files p ''config.yaml'' = None" "open_config V dir (ck_config_fault E) p = (p1, Inr m)"
  shows "checkProfileInit p = CheckFail \<and> initialized (fst (checkConfiguration V dir E p))"
  using assms open_config_Inr [OF assms(3)] by (simp add: checkProfileInit_def checkConfiguration_def with_config_def)

text \<open>Revoking a key, restoring a backup and applying an update report success and change nothing; trusting a key
  stores it nowhere; a backup holds no data.\<close>

lemma open_config_present:
  assumes "pr_files p ''config.yaml'' \<noteq> None"
  shows "pr_files (fst (open_config V dir fault p)) = pr_files p"
proof (cases "config_NewManager V dir (pr_files p ''config.yaml'') fault")
  case (Inl e)
  then show ?thesis using assms by (cases "pr_files p ''config.yaml''") (simp_all add: open_config_def)
next
  case (Inr m)
  then have "cm_file m = pr_files p ''config.yaml''"
    using assms by (auto simp: config_NewManager_def and_then_def Let_def split: sum.splits)
  then show ?thesis by (simp add: open_config_def Inr with_config_def fun_upd_idem)
qed

theorem commands_without_effect:
  shows "fst (runPluginRevoke answer fingerprint p) = p"
    and "fst (runRestore confirm file found answer p) = p"
    and "fst (runUpdateApply confirm answer p) = p"
    and "pr_files p ''config.yaml'' \<noteq> None \<Longrightarrow> pr_files (fst (runPluginTrust V dir fingerprint pubkey fault p)) = pr_files p"
    and "pr_files (fst (runBackup out None None p)) = (pr_files p)(out \<mapsto> ''backup placeholder'')"
proof -
  show "pr_files (fst (runPluginTrust V dir fingerprint pubkey fault p)) = pr_files p" if "pr_files p ''config.yaml'' \<noteq> None"
    using open_config_present [OF that, of V dir fault]
    by (simp add: runPluginTrust_def case_prod_beta split: option.split sum.split)
qed (simp_all add: runPluginRevoke_def runRestore_def runUpdateApply_def runBackup_def split: sum.split)

end
