(* ===== verification/Tui_Views.thy ===== *)
theory Tui_Views
  imports Decimal Entity Config "HOL-Library.Signed_Division"
begin

text \<open>
  What the terminal interface shows: the view models of \<open>internal/tui/viewmodel\<close> and the queries of
  \<open>internal/tui/query\<close> that build them from the answers of the readers. Where the code converts an enumeration to
  its string, the model keeps the enumeration. Formatting that Go's libraries do (the fixed-point text of a decimal,
  the time of day, one decimal place of seconds) is a parameter; whole hours, minutes and seconds are exact.
\<close>

record 'd view_lib =
  vw_dec :: "'d dec_lib"
  vw_text :: "'d \<Rightarrow> string"
  vw_fixed2 :: "'d \<Rightarrow> string"
  vw_percent :: "'d \<Rightarrow> string"
  vw_tenths :: "duration \<Rightarrow> string"
  vw_clock :: "time \<Rightarrow> string"

subsection \<open>Formatting\<close>

definition formatMoney :: "'d::linordered_idom view_lib \<Rightarrow> 'd \<Rightarrow> string" where
  "formatMoney L d = (if d < 0 then ''-$'' @ vw_fixed2 L \<bar>d\<bar> else ''+$'' @ vw_fixed2 L d)"

definition view_duration :: "'d view_lib \<Rightarrow> duration \<Rightarrow> string" where
  "view_duration L d =
     (if d < second then int_text (d sdiv millisecond) @ ''ms''
      else if d < minute then vw_tenths L d @ ''s''
      else if d < hour then int_text (d div minute) @ ''m '' @ int_text (d div second mod 60) @ ''s''
      else int_text (d div hour) @ ''h '' @ int_text (d div minute mod 60) @ ''m'')"

definition formatOptionalTime :: "'d view_lib \<Rightarrow> time option \<Rightarrow> string" where
  "formatOptionalTime L t = (case t of None \<Rightarrow> [] | Some x \<Rightarrow> if x = 0 then [] else vw_clock L x)"

subsection \<open>The dashboard\<close>

record system_status =
  ss_Mode :: run_mode
  ss_Connectivity :: connectivity_state
  ss_License :: license_state
  ss_Uptime :: string
  ss_NTPDrift :: string
  ss_HaltReason :: string
  ss_HaltedAt :: string

record performance =
  pf_TotalPnL :: string
  pf_DailyPnL :: string
  pf_OpenPositions :: nat
  pf_ActiveOrders :: nat
  pf_WinRate :: string
  pf_TotalTrades :: nat

record strategy_view =
  sv_Name :: string
  sv_Status :: strategy_status
  sv_PnL :: string

record order_view =
  ov_Symbol :: string
  ov_Side :: order_side
  ov_Type :: order_type
  ov_Qty :: string
  ov_Price :: string
  ov_Status :: order_status

record dashboard_view =
  dv_SystemStatus :: system_status
  dv_Performance :: performance
  dv_ActiveStrategies :: "strategy_view list"
  dv_ActiveOrders :: "order_view list"
  dv_RecentActivity :: "(string \<times> string) list"

text \<open>The summing loops.\<close>

definition pnl_total :: "'d::linordered_idom position list \<Rightarrow> 'd" where
  "pnl_total ps = foldl (\<lambda>acc p. acc + p_UnrealizedPnL p) 0 ps"

text \<open>Time counts from the zero instant, a midnight, so the start of a day is a multiple of a day.\<close>

definition day_start :: "time \<Rightarrow> time" where
  "day_start now = now - now mod (24 * hour)"

definition daily_total :: "time \<Rightarrow> 'd::linordered_idom position list \<Rightarrow> 'd" where
  "daily_total now ps =
     foldl (\<lambda>acc p. if p_OpenedAtUTC p > day_start now then acc + p_UnrealizedPnL p else acc) 0 ps"

definition strategy_total :: "string \<Rightarrow> 'd::linordered_idom position list \<Rightarrow> 'd" where
  "strategy_total sid ps = foldl (\<lambda>acc p. if p_StrategyID p = sid then acc + p_UnrealizedPnL p else acc) 0 ps"

definition order_view_of :: "'d view_lib \<Rightarrow> 'd order \<Rightarrow> order_view" where
  "order_view_of L x = \<lparr>ov_Symbol = o_Symbol x, ov_Side = o_Side x, ov_Type = o_Type x, ov_Qty = vw_text L (o_Quantity x),
     ov_Price = vw_text L (o_Price x), ov_Status = o_Status x\<rparr>"

text \<open>\<open>later\<close> is the second reading of the clock.\<close>

definition NewDashboard ::
  "'d::linordered_idom view_lib \<Rightarrow> time \<Rightarrow> time \<Rightarrow> status \<Rightarrow> 'd position list \<Rightarrow> 'd order list \<Rightarrow> 'd strategy list \<Rightarrow> dashboard_view" where
  "NewDashboard L now later st ps all_orders strats =
     (let orders = (if length all_orders > 5 then take 5 all_orders else all_orders) in
      \<lparr>dv_SystemStatus = \<lparr>ss_Mode = Mode st, ss_Connectivity = Connectivity st, ss_License = License st,
         ss_Uptime = view_duration L (later - LastUpdatedAtUTC st), ss_NTPDrift = view_duration L (NTPDrift st),
         ss_HaltReason = HaltReason st, ss_HaltedAt = formatOptionalTime L (HaltedAtUTC st)\<rparr>,
       dv_Performance = \<lparr>pf_TotalPnL = formatMoney L (pnl_total ps), pf_DailyPnL = formatMoney L (daily_total now ps),
         pf_OpenPositions = length ps, pf_ActiveOrders = length orders, pf_WinRate = ''0.0%'', pf_TotalTrades = 0\<rparr>,
       dv_ActiveStrategies =
         map (\<lambda>s. \<lparr>sv_Name = st_Name s, sv_Status = st_Status s, sv_PnL = formatMoney L (strategy_total (st_ID s) ps)\<rparr>) strats,
       dv_ActiveOrders = map (order_view_of L) orders, dv_RecentActivity = []\<rparr>)"

subsection \<open>The other views\<close>

record position_view =
  pv_Symbol :: string
  pv_Side :: position_side
  pv_Qty :: string
  pv_EntryPrice :: string
  pv_CurrentPrice :: string
  pv_PnL :: string
  pv_PnLPercent :: string
  pv_EntryTime :: string
  pv_StrategyID :: string

record positions_view =
  ps_Positions :: "position_view list"
  ps_TotalPnL :: string

text \<open>\<open>None\<close> is the panic of the decimal division.\<close>

definition pnl_percent :: "'d::linordered_idom view_lib \<Rightarrow> 'd position \<Rightarrow> 'd option" where
  "pnl_percent L p =
     (if p_EntryPrice p = 0 then Some 0
      else map_option (\<lambda>q. q * from_int 100) (dec_div (vw_dec L) (p_UnrealizedPnL p) (p_EntryPrice p * p_Quantity p)))"

definition position_view_of :: "'d::linordered_idom view_lib \<Rightarrow> 'd position \<Rightarrow> position_view option" where
  "position_view_of L p =
     map_option (\<lambda>pct. \<lparr>pv_Symbol = p_Symbol p, pv_Side = p_Side p, pv_Qty = vw_text L (p_Quantity p),
         pv_EntryPrice = vw_text L (p_EntryPrice p), pv_CurrentPrice = vw_text L (p_CurrentPrice p),
         pv_PnL = formatMoney L (p_UnrealizedPnL p), pv_PnLPercent = vw_percent L pct @ ''%'',
         pv_EntryTime = vw_clock L (p_OpenedAtUTC p), pv_StrategyID = p_StrategyID p\<rparr>)
       (pnl_percent L p)"

fun position_views :: "'d::linordered_idom view_lib \<Rightarrow> 'd position list \<Rightarrow> position_view list option" where
  "position_views L [] = Some []"
| "position_views L (p # ps) =
     (case position_view_of L p of
        None \<Rightarrow> None
      | Some v \<Rightarrow> map_option (\<lambda>vs. v # vs) (position_views L ps))"

definition NewPositions :: "'d::linordered_idom view_lib \<Rightarrow> 'd position list \<Rightarrow> positions_view option" where
  "NewPositions L ps =
     map_option (\<lambda>vs. \<lparr>ps_Positions = vs, ps_TotalPnL = formatMoney L (pnl_total ps)\<rparr>) (position_views L ps)"

record balance_item =
  bi_Asset :: string
  bi_Total :: string
  bi_Available :: string
  bi_Locked :: string

record balance_view =
  bv_Balances :: "balance_item list"
  bv_TotalEquity :: string

definition NewBalance :: "'d view_lib \<Rightarrow> 'd account_balance \<Rightarrow> balance_view" where
  "NewBalance L ab =
     \<lparr>bv_Balances = map (\<lambda>b. \<lparr>bi_Asset = b_Asset b, bi_Total = vw_text L (b_Total b), bi_Available = vw_text L (b_Available b),
        bi_Locked = vw_text L (b_Locked b)\<rparr>) (ab_Balances ab), bv_TotalEquity = ''$0.00''\<rparr>"

record market_view =
  mv_Symbol :: string
  mv_LastPrice :: string
  mv_BidPrice :: string
  mv_AskPrice :: string
  mv_Spread :: string
  mv_SpreadPct :: string
  mv_Volume24h :: string

definition NewMarket :: "string \<Rightarrow> market_view" where
  "NewMarket symbol = \<lparr>mv_Symbol = symbol, mv_LastPrice = ''0.00'', mv_BidPrice = ''0.00'', mv_AskPrice = ''0.00'',
     mv_Spread = ''$0.00'', mv_SpreadPct = ''0.00%'', mv_Volume24h = ''0.00''\<rparr>"

text \<open>The settings keep the profile as it is; the rest is text.\<close>

record settings_view =
  se_Risk :: "(string \<times> string) list"
  se_Trading :: "(string \<times> string) list"
  se_System :: "(string \<times> string) list"
  se_Profile :: telemetry_profile

definition NewSettings :: "agent_config \<Rightarrow> settings_view" where
  "NewSettings c =
     \<lparr>se_Risk = [(''max_position_size'', MaxPosition (a_Risk c))],
      se_Trading = [(''default_symbol'', DefaultSymbol (a_Exchange c))],
      se_System =
        [(''telemetry_enabled'', if tl_Enabled (a_Telemetry c) then ''true'' else ''false''),
         (''export_timezone'', a_ExportTimezone c),
         (''journal_max_size_mb'', int_text (a_JournalMaxSizeBytes c sdiv (1024 * 1024)))],
      se_Profile = tl_Profile (a_Telemetry c)\<rparr>"

subsection \<open>The queries\<close>

text \<open>The answers of the readers at the time of one query.\<close>

record ('e, 'd) readers =
  rd_now :: time
  rd_later :: time
  rd_status :: "'e + status"
  rd_positions :: "'e + 'd position list"
  rd_orders :: "'e + 'd order list"
  rd_strategies :: "'e + 'd strategy list"
  rd_balance :: "'e + 'd account_balance"
  rd_config :: "'e + agent_config"

definition GetDashboard :: "'d::linordered_idom view_lib \<Rightarrow> ('e, 'd) readers \<Rightarrow> 'e + dashboard_view" where
  "GetDashboard L R =
     and_then (rd_status R) (\<lambda>st. and_then (rd_positions R) (\<lambda>ps. and_then (rd_orders R) (\<lambda>os.
       and_then (rd_strategies R) (\<lambda>ss. Ok (NewDashboard L (rd_now R) (rd_later R) st ps os ss)))))"

definition GetPositions :: "'d::linordered_idom view_lib \<Rightarrow> ('e, 'd) readers \<Rightarrow> ('e, positions_view) outcome" where
  "GetPositions L R =
     (case rd_positions R of Inl e \<Rightarrow> Fail e | Inr ps \<Rightarrow> (case NewPositions L ps of None \<Rightarrow> Panic | Some v \<Rightarrow> Return v))"

definition query_GetBalance :: "'d view_lib \<Rightarrow> ('e, 'd) readers \<Rightarrow> 'e + balance_view" where
  "query_GetBalance L R = and_then (rd_balance R) (\<lambda>b. Ok (NewBalance L b))"

definition GetMarket :: "string \<Rightarrow> 'e + market_view" where
  "GetMarket symbol = Ok (NewMarket symbol)"

definition GetSettings :: "('e, 'd) readers \<Rightarrow> 'e + settings_view" where
  "GetSettings R = and_then (rd_config R) (\<lambda>c. Ok (NewSettings c))"

subsection \<open>Properties\<close>

lemma foldl_sum:
  "foldl (\<lambda>acc p. if P p then acc + f p else acc) a ps = a + (\<Sum>p \<leftarrow> filter P ps. f p)" for a :: "'d::comm_monoid_add"
  by (induction ps arbitrary: a) (simp_all add: add.assoc)

lemma pnl_total_sum: "pnl_total ps = (\<Sum>p \<leftarrow> ps. p_UnrealizedPnL p)"
  using foldl_sum [of "\<lambda>_. True" p_UnrealizedPnL 0 ps] by (simp add: pnl_total_def)

lemma strategy_total_sum: "strategy_total sid ps = (\<Sum>p \<leftarrow> filter (\<lambda>p. p_StrategyID p = sid) ps. p_UnrealizedPnL p)"
  by (simp add: strategy_total_def foldl_sum)

lemma strategy_totals:
  assumes "distinct ids" "\<forall>p \<in> set ps. p_StrategyID p \<in> set ids"
  shows "(\<Sum>i \<leftarrow> ids. strategy_total i ps) = pnl_total ps"
  using assms
proof (induction ps)
  case Nil
  then show ?case by (simp add: strategy_total_sum pnl_total_sum sum_list_0)
next
  case (Cons p ps)
  have "(\<Sum>i \<leftarrow> ids. if p_StrategyID p = i then x else 0) = x" for x :: 'a
    using Cons.prems by (subst sum_list_distinct_conv_sum_set) (auto simp: sum.delta)
  moreover have "strategy_total i (p # ps) = (if p_StrategyID p = i then p_UnrealizedPnL p else 0) + strategy_total i ps" for i
    by (simp add: strategy_total_sum)
  ultimately show ?case using Cons by (simp add: sum_list_addf pnl_total_sum)
qed

text \<open>The dashboard is consistent: it shows the sum of the open positions' profits as the total, for every active
  strategy the sum over its positions, and when every open position belongs to an active strategy the shown strategies
  add up to the shown total.\<close>

theorem dashboard_adds_up:
  assumes "GetDashboard L R = Ok v" "rd_positions R = Ok ps" "rd_strategies R = Ok strats"
    and "distinct (map st_ID strats)" "\<forall>p \<in> set ps. p_StrategyID p \<in> st_ID ` set strats"
  shows "pf_TotalPnL (dv_Performance v) = formatMoney L (\<Sum>p \<leftarrow> ps. p_UnrealizedPnL p) \<and>
    (\<Sum>s \<leftarrow> strats. strategy_total (st_ID s) ps) = (\<Sum>p \<leftarrow> ps. p_UnrealizedPnL p) \<and>
    map sv_PnL (dv_ActiveStrategies v) = map (\<lambda>s. formatMoney L (strategy_total (st_ID s) ps)) strats"
proof -
  obtain st os where "v = NewDashboard L (rd_now R) (rd_later R) st ps os strats"
    using assms(1-3) by (auto simp: GetDashboard_def and_then_Ok)
  moreover have "(\<Sum>s \<leftarrow> strats. strategy_total (st_ID s) ps) = pnl_total ps"
    using strategy_totals [OF assms(4), of ps] assms(5) by (simp add: comp_def)
  ultimately show ?thesis by (simp add: NewDashboard_def pnl_total_sum comp_def)
qed

text \<open>The number of active orders on the dashboard is the number of the listed ones, so it never exceeds five.\<close>

theorem dashboard_counts_at_most_five:
  assumes "GetDashboard L R = Ok v" "rd_orders R = Ok os"
  shows "pf_ActiveOrders (dv_Performance v) = min 5 (length os)"
  using assms by (auto simp: GetDashboard_def and_then_Ok NewDashboard_def)

text \<open>The query of the positions divides by the cost of a position: an open position with a zero quantity and an entry
  price crashes the interface.\<close>

lemma position_views_None: "position_views L ps = None \<longleftrightarrow> (\<exists>p \<in> set ps. position_view_of L p = None)"
  by (induction ps) (auto split: option.split)

theorem positions_query_panics_iff:
  assumes "div_total (vw_dec L)" "div_panics_on_zero (vw_dec L)"
  shows "GetPositions L R = Panic \<longleftrightarrow>
    (\<exists>ps. rd_positions R = Ok ps \<and> (\<exists>p \<in> set ps. p_EntryPrice p \<noteq> 0 \<and> p_Quantity p = 0))"
proof -
  have "position_view_of L p = None \<longleftrightarrow> p_EntryPrice p \<noteq> 0 \<and> p_Quantity p = 0" for p :: "'a position"
    using assms(2) div_totalD [OF assms(1), of "p_EntryPrice p * p_Quantity p" "p_UnrealizedPnL p"]
    by (cases "p_EntryPrice p = 0"; cases "p_Quantity p = 0")
      (simp_all add: position_view_of_def pnl_percent_def div_panics_on_zero_def)
  moreover have "GetPositions L R = Panic \<longleftrightarrow> position_views L ps = None" if "rd_positions R = Ok ps" for ps
    using that by (cases "position_views L ps") (simp_all add: GetPositions_def NewPositions_def)
  ultimately show ?thesis
    by (cases "rd_positions R") (simp_all add: GetPositions_def position_views_None)
qed

end
