(* ===== verification/Tui.thy ===== *)
theory Tui
  imports Tui_Views Command_Line "HOL-Library.Multiset"
begin

text \<open>
  The terminal interface, \<open>internal/tui\<close>: the model with its components, \<open>Update\<close> message by message, the handler
  that executes commands on the agent's service, and the loop that Bubble Tea runs around them: the commands of an
  update run concurrently and their messages come back in any order. The text field of the library is a parameter
  (\<open>input_lib\<close>), as are its styles; drawing is left out except where it changes sizes or panics.
\<close>

subsection \<open>Log viewer\<close>

datatype log_level = LogLevelInfo | LogLevelWarning | LogLevelError | LogLevelSuccess

record log_entry =
  le_Timestamp :: time
  le_Level :: log_level
  le_Message :: string

record log_viewer =
  lv_entries :: "log_entry list"
  lv_maxEntries :: nat
  lv_height :: int
  lv_width :: int
  lv_offset :: int
  lv_filterLevel :: "log_level option"
  lv_filterText :: string
  lv_showTimestamp :: bool

definition NewLogViewer :: "nat \<Rightarrow> log_viewer" where
  "NewLogViewer n = \<lparr>lv_entries = [], lv_maxEntries = n, lv_height = 0, lv_width = 0, lv_offset = 0, lv_filterLevel = None,
     lv_filterText = [], lv_showTimestamp = True\<rparr>"

fun contains_text :: "string \<Rightarrow> string \<Rightarrow> bool" where
  "contains_text [] t \<longleftrightarrow> t = []"
| "contains_text (c # s) t \<longleftrightarrow> HasPrefix (c # s) t \<or> contains_text s t"

text \<open>\<open>lower\<close> is \<open>strings.ToLower\<close>.\<close>

definition getFilteredEntries :: "(string \<Rightarrow> string) \<Rightarrow> log_viewer \<Rightarrow> log_entry list" where
  "getFilteredEntries lower lv =
     (if lv_filterLevel lv = None \<and> lv_filterText lv = [] then lv_entries lv
      else filter (\<lambda>e. (case lv_filterLevel lv of None \<Rightarrow> True | Some l \<Rightarrow> le_Level e = l) \<and>
                       (lv_filterText lv = [] \<or> contains_text (lower (le_Message e)) (lower (lv_filterText lv))))
             (lv_entries lv))"

definition log_maxOffset :: "(string \<Rightarrow> string) \<Rightarrow> log_viewer \<Rightarrow> int" where
  "log_maxOffset lower lv = max 0 (int (length (getFilteredEntries lower lv)) - lv_height lv)"

definition ScrollToBottom :: "(string \<Rightarrow> string) \<Rightarrow> log_viewer \<Rightarrow> log_viewer" where
  "ScrollToBottom lower lv = lv\<lparr>lv_offset := log_maxOffset lower lv\<rparr>"

definition AddLog :: "(string \<Rightarrow> string) \<Rightarrow> time \<Rightarrow> log_level \<Rightarrow> string \<Rightarrow> log_viewer \<Rightarrow> log_viewer" where
  "AddLog lower now level message lv =
     (let es = lv_entries lv @ [\<lparr>le_Timestamp = now, le_Level = level, le_Message = message\<rparr>];
          es' = (if length es > lv_maxEntries lv then drop (length es - lv_maxEntries lv) es else es)
      in ScrollToBottom lower (lv\<lparr>lv_entries := es'\<rparr>))"

definition log_SetSize :: "int \<Rightarrow> int \<Rightarrow> log_viewer \<Rightarrow> log_viewer" where
  "log_SetSize width height lv = lv\<lparr>lv_width := width, lv_height := height\<rparr>"

definition log_ScrollUp :: "log_viewer \<Rightarrow> log_viewer" where
  "log_ScrollUp lv = (if lv_offset lv > 0 then lv\<lparr>lv_offset := lv_offset lv - 1\<rparr> else lv)"

definition log_ScrollDown :: "(string \<Rightarrow> string) \<Rightarrow> log_viewer \<Rightarrow> log_viewer" where
  "log_ScrollDown lower lv = (if lv_offset lv < log_maxOffset lower lv then lv\<lparr>lv_offset := lv_offset lv + 1\<rparr> else lv)"

definition SetFilterLevel :: "log_level option \<Rightarrow> log_viewer \<Rightarrow> log_viewer" where
  "SetFilterLevel l lv = lv\<lparr>lv_filterLevel := l, lv_offset := 0\<rparr>"

definition SetFilterText :: "string \<Rightarrow> log_viewer \<Rightarrow> log_viewer" where
  "SetFilterText t lv = lv\<lparr>lv_filterText := t, lv_offset := 0\<rparr>"

definition ToggleTimestamp :: "log_viewer \<Rightarrow> log_viewer" where
  "ToggleTimestamp lv = lv\<lparr>lv_showTimestamp := \<not> lv_showTimestamp lv\<rparr>"

definition ClearFilters :: "log_viewer \<Rightarrow> log_viewer" where
  "ClearFilters lv = lv\<lparr>lv_filterLevel := None, lv_filterText := [], lv_offset := 0\<rparr>"

text \<open>The entries that the viewer draws.\<close>

definition visible_entries :: "(string \<Rightarrow> string) \<Rightarrow> log_viewer \<Rightarrow> log_entry list" where
  "visible_entries lower lv =
     (let fs = getFilteredEntries lower lv in
      take (nat (lv_height lv)) (drop (nat (lv_offset lv)) fs))"

text \<open>The text of an entry from its styled parts; cutting a line for a narrow terminal slices with a negative bound,
  which panics.\<close>

record log_style =
  ls_stamp :: "time \<Rightarrow> string"
  ls_level :: "log_level \<Rightarrow> string"
  ls_message :: "log_level \<Rightarrow> string \<Rightarrow> string"
  ls_width :: "string \<Rightarrow> int"

definition renderEntry :: "log_style \<Rightarrow> log_viewer \<Rightarrow> log_entry \<Rightarrow> string option" where
  "renderEntry S lv e =
     (let result = (if lv_showTimestamp lv then ls_stamp S (le_Timestamp e) @ '' '' else []) @
                   ls_level S (le_Level e) @ '' '' @ ls_message S (le_Level e) (le_Message e);
          maxWidth = lv_width lv - 8
      in if ls_width S result > maxWidth
         then (if 0 \<le> maxWidth - 3 \<and> maxWidth - 3 \<le> int (length result)
               then Some (take (nat (maxWidth - 3)) result @ ''...'') else None)
         else Some result)"

subsection \<open>Command input\<close>

record command =
  cmd_Name :: string
  cmd_Args :: "string list"

definition parseCommand :: "string \<Rightarrow> command" where
  "parseCommand input = (case Fields input of [] \<Rightarrow> \<lparr>cmd_Name = [], cmd_Args = []\<rparr> | p # ps \<Rightarrow> \<lparr>cmd_Name = p, cmd_Args = ps\<rparr>)"

datatype key_type = KeyUp | KeyDown | KeyTab | KeyShiftTab | KeyEnter | KeyOther

record key =
  k_type :: key_type
  k_string :: string

text \<open>The library's text field: its value, setting it, and its own reaction to a key.\<close>

record 'w input_lib =
  ti_value :: "'w \<Rightarrow> string"
  ti_set :: "string \<Rightarrow> 'w \<Rightarrow> 'w"
  ti_key :: "key \<Rightarrow> 'w \<Rightarrow> 'w"
  ti_new :: 'w

record 'w command_input =
  ci_textInput :: 'w
  ci_history :: "string list"
  ci_historyIndex :: int
  ci_suggestions :: "string list"
  ci_selectedSugg :: int
  ci_showSuggestions :: bool
  ci_width :: int

definition NewCommandInput :: "'w input_lib \<Rightarrow> 'w command_input" where
  "NewCommandInput I = \<lparr>ci_textInput = ti_new I, ci_history = [], ci_historyIndex = - 1, ci_suggestions = [],
     ci_selectedSugg = 0, ci_showSuggestions = False, ci_width = 0\<rparr>"

definition SetValue :: "'w input_lib \<Rightarrow> string \<Rightarrow> 'w command_input \<Rightarrow> 'w command_input" where
  "SetValue I s ci = ci\<lparr>ci_textInput := ti_set I s (ci_textInput ci)\<rparr>"

definition input_Reset :: "'w input_lib \<Rightarrow> 'w command_input \<Rightarrow> 'w command_input" where
  "input_Reset I ci = (SetValue I [] ci)\<lparr>ci_historyIndex := - 1, ci_showSuggestions := False\<rparr>"

definition input_submit :: "'w input_lib \<Rightarrow> 'w command_input \<Rightarrow> 'w command_input \<times> string option" where
  "input_submit I ci =
     (let v = ti_value I (ci_textInput ci) in
      if v = [] then (ci, None)
      else
        let h = ci_history ci @ [v];
            h' = (if length h > 100 then drop 1 h else h)
        in (input_Reset I (ci\<lparr>ci_history := h'\<rparr>), Some v))"

definition historyUp :: "'w input_lib \<Rightarrow> 'w command_input \<Rightarrow> 'w command_input" where
  "historyUp I ci =
     (if ci_history ci = [] then ci
      else
        let i = (if ci_historyIndex ci = - 1 then int (length (ci_history ci)) - 1
                 else if ci_historyIndex ci > 0 then ci_historyIndex ci - 1 else ci_historyIndex ci)
        in SetValue I (ci_history ci ! nat i) (ci\<lparr>ci_historyIndex := i\<rparr>))"

definition historyDown :: "'w input_lib \<Rightarrow> 'w command_input \<Rightarrow> 'w command_input" where
  "historyDown I ci =
     (if ci_historyIndex ci = - 1 then ci
      else
        let i = ci_historyIndex ci + 1
        in if i \<ge> int (length (ci_history ci)) then SetValue I [] (ci\<lparr>ci_historyIndex := - 1\<rparr>)
           else SetValue I (ci_history ci ! nat i) (ci\<lparr>ci_historyIndex := i\<rparr>))"

definition suggested_commands :: "string list" where
  "suggested_commands =
     [''/help'', ''/start live BTCUSDT'', ''/start paper BTCUSDT'', ''/stop'', ''/stopall'', ''/scan ALL --strategy=trend'',
      ''/backtest MA_Cross 30d'', ''/set max_position 1000'', ''/config ui'', ''/status'', ''/positions'', ''/orders'',
      ''/balance'', ''/update'', ''/exit'']"

definition getSuggestions :: "string \<Rightarrow> string list" where
  "getSuggestions input = filter (\<lambda>cmd. HasPrefix cmd input) suggested_commands"

definition updateSuggestions :: "'w input_lib \<Rightarrow> 'w command_input \<Rightarrow> 'w command_input" where
  "updateSuggestions I ci =
     (let v = ti_value I (ci_textInput ci) in
      if v = [] then ci\<lparr>ci_showSuggestions := False\<rparr>
      else ci\<lparr>ci_suggestions := getSuggestions v, ci_showSuggestions := getSuggestions v \<noteq> [], ci_selectedSugg := 0\<rparr>)"

definition nextSuggestion :: "'w input_lib \<Rightarrow> 'w command_input \<Rightarrow> 'w command_input" where
  "nextSuggestion I ci =
     (if \<not> ci_showSuggestions ci \<or> ci_suggestions ci = [] then ci
      else
        let i = (if ci_selectedSugg ci + 1 \<ge> int (length (ci_suggestions ci)) then 0 else ci_selectedSugg ci + 1)
        in SetValue I (ci_suggestions ci ! nat i) (ci\<lparr>ci_selectedSugg := i\<rparr>))"

definition prevSuggestion :: "'w input_lib \<Rightarrow> 'w command_input \<Rightarrow> 'w command_input" where
  "prevSuggestion I ci =
     (if \<not> ci_showSuggestions ci \<or> ci_suggestions ci = [] then ci
      else
        let i = (if ci_selectedSugg ci - 1 < 0 then int (length (ci_suggestions ci)) - 1 else ci_selectedSugg ci - 1)
        in SetValue I (ci_suggestions ci ! nat i) (ci\<lparr>ci_selectedSugg := i\<rparr>))"

text \<open>The reaction to any message: \<open>None\<close> is one that is not a key. The second component is a submitted line. The
  suggestions are computed before the text field sees the key.\<close>

definition input_Update :: "'w input_lib \<Rightarrow> key option \<Rightarrow> 'w command_input \<Rightarrow> 'w command_input \<times> string option" where
  "input_Update I k ci =
     (case k of
        None \<Rightarrow> (updateSuggestions I ci, None)
      | Some key \<Rightarrow>
          (case k_type key of
             KeyUp \<Rightarrow> (historyUp I ci, None)
           | KeyDown \<Rightarrow> (historyDown I ci, None)
           | KeyTab \<Rightarrow> (nextSuggestion I ci, None)
           | KeyShiftTab \<Rightarrow> (prevSuggestion I ci, None)
           | KeyEnter \<Rightarrow> input_submit I ci
           | KeyOther \<Rightarrow> ((updateSuggestions I ci)\<lparr>ci_textInput := ti_key I key (ci_textInput ci)\<rparr>, None)))"

subsection \<open>The handler\<close>

text \<open>An error is the text that is logged; \<open>show\<close> is the text of an error of the agent. The interface is built with a
  stand-in for the disclaimer, and the value of a setting is always text.\<close>

definition shown :: "(agent_error \<Rightarrow> string) \<Rightarrow> 'p agent_result \<Rightarrow> 'p agent_svc \<times> (string + unit)" where
  "shown show r = (fst r, case snd r of Inl e \<Rightarrow> Err (show e) | Inr _ \<Rightarrow> Ok ())"

definition handleStart ::
  "(agent_error \<Rightarrow> string) \<Rightarrow> io \<Rightarrow> string list \<Rightarrow> 'p agent_svc \<Rightarrow> 'p agent_svc \<times> (string + unit)" where
  "handleStart show i args a =
     (case args of
        [] \<Rightarrow> (a, Err ''start requires mode argument: paper, scan, or live'')
      | mode # _ \<Rightarrow>
          if mode = ''paper'' then shown show (StartPaper i a)
          else if mode = ''scan'' then shown show (StartScan i a)
          else if mode = ''live'' then shown show (StartLive_on mock_DisclaimerAccepted i a)
          else (a, Err (''unknown mode: '' @ mode @ '' (use paper, scan, or live)'')))"

definition handleSet ::
  "'p agent_lib \<Rightarrow> (agent_error \<Rightarrow> string) \<Rightarrow> io \<Rightarrow> string list \<Rightarrow> 'p agent_svc \<Rightarrow> 'p agent_svc \<times> (string + unit)" where
  "handleSet L show i args a =
     (case args of
        key # v # vs \<Rightarrow> shown show (service_UpdateConfig L key (CVString (joined (CHR '' '') (v # vs))) i a)
      | _ \<Rightarrow> (a, Err ''set requires key and value arguments''))"

definition handleExport :: "string list \<Rightarrow> string + unit" where
  "handleExport args =
     (case args of
        [] \<Rightarrow> Err ''export requires destination path argument''
      | path # _ \<Rightarrow> and_then (mock_ExportCSV path) (\<lambda>_. Ok ()))"

definition handler_Execute ::
  "'p agent_lib \<Rightarrow> (agent_error \<Rightarrow> string) \<Rightarrow> io \<Rightarrow> command \<Rightarrow> 'p agent_svc \<Rightarrow> 'p agent_svc \<times> (string + unit)" where
  "handler_Execute L show i cmd a =
     (if cmd_Name cmd = ''start'' then handleStart show i (cmd_Args cmd) a
      else if cmd_Name cmd = ''stop'' \<or> cmd_Name cmd = ''stopall'' then shown show (StopAll i a)
      else if cmd_Name cmd = ''backtest'' then shown show (QueueBacktest i a)
      else if cmd_Name cmd = ''set'' then handleSet L show i (cmd_Args cmd) a
      else if cmd_Name cmd = ''export'' then (a, handleExport (cmd_Args cmd))
      else (a, Err (''unknown command: '' @ cmd_Name cmd)))"

definition normalizeSubmittedCommand :: "command \<Rightarrow> string + command" where
  "normalizeSubmittedCommand c =
     (let name = TrimSpace (TrimPrefix (cmd_Name c) ''/'') in
      if name = [] then Err ''empty command'' else Ok \<lparr>cmd_Name = name, cmd_Args = cmd_Args c\<rparr>)"

subsection \<open>The model\<close>

text \<open>The messages; \<open>OtherMsg\<close> is one that only the library's text field looks at, such as the blinking of its cursor.\<close>

datatype tui_msg =
    WindowSizeMsg int int | KeyMsg key | CommandSubmittedMsg command | CommandResultMsg "string + unit"
  | DashboardLoadedMsg dashboard_view | PositionsLoadedMsg positions_view | BalanceLoadedMsg balance_view
  | MarketLoadedMsg market_view | SettingsLoadedMsg settings_view
  | OrderEventMsg log_level string | PositionEventMsg log_level string | BalanceEventMsg log_level string
  | RiskEventMsg log_level string | StrategyEventMsg log_level string
  | TickMsg | EngineEventMsg log_level string | OtherMsg

datatype tui_cmd =
    TickCmd | LoadDashboardCmd | LoadPositionsCmd | LoadBalanceCmd | LoadMarketCmd string | LoadSettingsCmd
  | ExecuteCommandCmd command | SubmitCmd command

datatype view_type = ViewDashboard | ViewMarket | ViewPositions | ViewBalance | ViewLogs | ViewSettings

record 'd status_bar =
  sb_mode :: run_mode
  sb_ping :: duration
  sb_ntpDrift :: duration
  sb_pnl :: 'd
  sb_uptime :: duration

record positions_table =
  pt_vm :: "positions_view option"
  pt_width :: int
  pt_height :: int
  pt_offset :: int

record ('d, 'w) tui =
  tui_statusBar :: "'d status_bar"
  tui_logViewer :: log_viewer
  tui_commandInput :: "'w command_input"
  tui_activeTab :: nat
  tui_dashboard :: "dashboard_view option"
  tui_positions :: positions_table
  tui_balance :: "balance_view option"
  tui_market :: "market_view option"
  tui_settings :: "settings_view option"
  tui_currentView :: view_type
  tui_activeSymbol :: string
  tui_width :: int
  tui_height :: int
  tui_ready :: bool
  tui_startTime :: time
  tui_ping :: duration
  tui_ntpDrift :: duration
  tui_pnl :: 'd

definition tui_New :: "'w input_lib \<Rightarrow> time \<Rightarrow> ('d::linordered_idom, 'w) tui" where
  "tui_New I now =
     \<lparr>tui_statusBar = \<lparr>sb_mode = RunModeOther [], sb_ping = 0, sb_ntpDrift = 0, sb_pnl = 0, sb_uptime = 0\<rparr>,
      tui_logViewer = NewLogViewer 1000, tui_commandInput = NewCommandInput I, tui_activeTab = 0, tui_dashboard = None,
      tui_positions = \<lparr>pt_vm = None, pt_width = 0, pt_height = 0, pt_offset = 0\<rparr>, tui_balance = None, tui_market = None,
      tui_settings = None, tui_currentView = ViewDashboard, tui_activeSymbol = ''BTCUSDT'', tui_width = 0, tui_height = 0,
      tui_ready = False, tui_startTime = now, tui_ping = 0, tui_ntpDrift = 0, tui_pnl = 0\<rparr>"

definition tui_Init :: "string \<Rightarrow> tui_cmd list" where
  "tui_Init symbol = [TickCmd, LoadDashboardCmd, LoadPositionsCmd, LoadBalanceCmd, LoadMarketCmd symbol, LoadSettingsCmd]"

fun view_number :: "view_type \<Rightarrow> nat" where
  "view_number ViewDashboard = 0"
| "view_number ViewMarket = 1"
| "view_number ViewPositions = 2"
| "view_number ViewBalance = 3"
| "view_number ViewLogs = 4"
| "view_number ViewSettings = 5"

definition view_of_number :: "nat \<Rightarrow> view_type" where
  "view_of_number n = [ViewDashboard, ViewMarket, ViewPositions, ViewBalance, ViewLogs, ViewSettings] ! n"

text \<open>The tab bar has six tabs and ignores other numbers.\<close>

definition SetActiveTab :: "nat \<Rightarrow> ('d, 'w) tui \<Rightarrow> ('d, 'w) tui" where
  "SetActiveTab n m = (if n < 6 then m\<lparr>tui_activeTab := n\<rparr> else m)"

definition switch_view :: "view_type \<Rightarrow> nat \<Rightarrow> ('d, 'w) tui \<Rightarrow> ('d, 'w) tui" where
  "switch_view v n m = SetActiveTab n (m\<lparr>tui_currentView := v\<rparr>)"

definition cycleViewForward :: "('d, 'w) tui \<Rightarrow> ('d, 'w) tui" where
  "cycleViewForward m =
     (let v = view_of_number ((view_number (tui_currentView m) + 1) mod 6) in switch_view v (view_number v) m)"

definition cycleViewBackward :: "('d, 'w) tui \<Rightarrow> ('d, 'w) tui" where
  "cycleViewBackward m =
     (let n = view_number (tui_currentView m);
          v = view_of_number (if n = 0 then 5 else n - 1) in switch_view v (view_number v) m)"

definition market_symbols :: "string list" where
  "market_symbols = [''BTCUSDT'', ''ETHUSDT'', ''SOLUSDT'', ''BNBUSDT'']"

text \<open>The loops over the symbols: the index of the active one, if it is listed.\<close>

fun symbol_index :: "string list \<Rightarrow> string \<Rightarrow> nat option" where
  "symbol_index [] s = None"
| "symbol_index (x # xs) s = (if x = s then Some 0 else map_option Suc (symbol_index xs s))"

definition cyclePreviousSymbol :: "('d, 'w) tui \<Rightarrow> ('d, 'w) tui" where
  "cyclePreviousSymbol m =
     (case symbol_index market_symbols (tui_activeSymbol m) of
        None \<Rightarrow> m
      | Some i \<Rightarrow> m\<lparr>tui_activeSymbol := market_symbols ! (if i = 0 then length market_symbols - 1 else i - 1)\<rparr>)"

definition cycleNextSymbol :: "('d, 'w) tui \<Rightarrow> ('d, 'w) tui" where
  "cycleNextSymbol m =
     (case symbol_index market_symbols (tui_activeSymbol m) of
        None \<Rightarrow> m
      | Some i \<Rightarrow> m\<lparr>tui_activeSymbol := market_symbols ! (if i = length market_symbols - 1 then 0 else i + 1)\<rparr>)"

definition on_log :: "(log_viewer \<Rightarrow> log_viewer) \<Rightarrow> ('d, 'w) tui \<Rightarrow> ('d, 'w) tui" where
  "on_log f m = m\<lparr>tui_logViewer := f (tui_logViewer m)\<rparr>"

definition on_positions :: "(positions_table \<Rightarrow> positions_table) \<Rightarrow> ('d, 'w) tui \<Rightarrow> ('d, 'w) tui" where
  "on_positions f m = m\<lparr>tui_positions := f (tui_positions m)\<rparr>"

definition positions_ScrollUp :: "positions_table \<Rightarrow> positions_table" where
  "positions_ScrollUp t = (if pt_offset t > 0 then t\<lparr>pt_offset := pt_offset t - 1\<rparr> else t)"

definition positions_ScrollDown :: "positions_table \<Rightarrow> positions_table" where
  "positions_ScrollDown t =
     (case pt_vm t of
        None \<Rightarrow> t
      | Some vm \<Rightarrow>
          if pt_offset t < max 0 (int (length (ps_Positions vm)) - (pt_height t - 4))
          then t\<lparr>pt_offset := pt_offset t + 1\<rparr> else t)"

text \<open>The keys of the model, by their text; \<open>ctrl+c\<close> is handled in \<open>tui_Update\<close>.\<close>

definition on_key :: "(string \<Rightarrow> string) \<Rightarrow> string \<Rightarrow> ('d, 'w) tui \<Rightarrow> ('d, 'w) tui \<times> tui_cmd list" where
  "on_key lower s m =
     (let logs = tui_currentView m = ViewLogs;
          filtered = (\<lambda>l. (if logs then on_log (SetFilterLevel (Some l)) m else m, [])) in
      if s = ''ctrl+l'' then
        (m\<lparr>tui_logViewer := NewLogViewer 1000, tui_commandInput := (tui_commandInput m)\<lparr>ci_width := tui_width m\<rparr>\<rparr>, [])
      else if s = ''pgup'' then
        (if logs then on_log log_ScrollUp m
         else if tui_currentView m = ViewPositions then on_positions positions_ScrollUp m else m, [])
      else if s = ''pgdown'' then
        (if logs then on_log (log_ScrollDown lower) m
         else if tui_currentView m = ViewPositions then on_positions positions_ScrollDown m else m, [])
      else if s = ''i'' then filtered LogLevelInfo
      else if s = ''w'' then filtered LogLevelWarning
      else if s = ''e'' then filtered LogLevelError
      else if s = ''a'' then (if logs then on_log ClearFilters m else m, [])
      else if s = ''t'' then (if logs then on_log ToggleTimestamp m else m, [])
      else if s = ''f1'' then (switch_view ViewDashboard 0 m, [])
      else if s = ''f2'' then (switch_view ViewMarket 1 m, [])
      else if s = ''f3'' then (switch_view ViewPositions 2 m, [])
      else if s = ''f4'' then (switch_view ViewBalance 3 m, [])
      else if s = ''f5'' then (switch_view ViewLogs 4 m, [])
      else if s = ''f6'' then (switch_view ViewSettings 5 m, [])
      else if s = ''ctrl+right'' then (cycleViewForward m, [])
      else if s = ''ctrl+left'' then (cycleViewBackward m, [])
      else if s = ''left'' \<and> tui_currentView m = ViewMarket then
        (let m' = cyclePreviousSymbol m in (m', [LoadMarketCmd (tui_activeSymbol m')]))
      else if s = ''right'' \<and> tui_currentView m = ViewMarket then
        (let m' = cycleNextSymbol m in (m', [LoadMarketCmd (tui_activeSymbol m')]))
      else (m, []))"

definition updateMetrics :: "time \<Rightarrow> ('d, 'w) tui \<Rightarrow> ('d, 'w) tui" where
  "updateMetrics now m =
     m\<lparr>tui_statusBar := \<lparr>sb_mode = RunModeIdle, sb_ping = tui_ping m, sb_ntpDrift = tui_ntpDrift m, sb_pnl = tui_pnl m,
          sb_uptime = now - tui_startTime m\<rparr>,
       tui_ping := 50 * millisecond, tui_ntpDrift := 10 * millisecond\<rparr>"

definition logged_msg :: "(string \<Rightarrow> string) \<Rightarrow> time \<Rightarrow> log_level \<Rightarrow> string \<Rightarrow> ('d, 'w) tui \<Rightarrow> ('d, 'w) tui" where
  "logged_msg lower now level text m = on_log (AddLog lower now level text) m"

text \<open>The switch of \<open>Update\<close>.\<close>

fun on_msg :: "(string \<Rightarrow> string) \<Rightarrow> time \<Rightarrow> tui_msg \<Rightarrow> ('d, 'w) tui \<Rightarrow> ('d, 'w) tui \<times> tui_cmd list" where
  "on_msg lower now (WindowSizeMsg w h) m =
     (m\<lparr>tui_width := w, tui_height := h, tui_ready := True, tui_commandInput := (tui_commandInput m)\<lparr>ci_width := w\<rparr>\<rparr>, [])"
| "on_msg lower now (KeyMsg k) m = on_key lower (k_string k) m"
| "on_msg lower now (CommandSubmittedMsg c) m =
     (case normalizeSubmittedCommand c of
        Inl e \<Rightarrow> (logged_msg lower now LogLevelError (''Parse error: '' @ e) m, [])
      | Inr cmd \<Rightarrow> (logged_msg lower now LogLevelInfo (''Executing: '' @ cmd_Name cmd) m, [ExecuteCommandCmd cmd]))"
| "on_msg lower now (CommandResultMsg r) m =
     (case r of
        Inl e \<Rightarrow> (logged_msg lower now LogLevelError (''Error: '' @ e) m, [])
      | Inr _ \<Rightarrow> (logged_msg lower now LogLevelSuccess ''Success'' m, []))"
| "on_msg lower now (DashboardLoadedMsg v) m = (m\<lparr>tui_dashboard := Some v\<rparr>, [])"
| "on_msg lower now (PositionsLoadedMsg v) m = (on_positions (\<lambda>t. t\<lparr>pt_vm := Some v, pt_offset := 0\<rparr>) m, [])"
| "on_msg lower now (BalanceLoadedMsg v) m = (m\<lparr>tui_balance := Some v\<rparr>, [])"
| "on_msg lower now (MarketLoadedMsg v) m = (m\<lparr>tui_market := Some v\<rparr>, [])"
| "on_msg lower now (SettingsLoadedMsg v) m = (m\<lparr>tui_settings := Some v\<rparr>, [])"
| "on_msg lower now (OrderEventMsg l text) m = (logged_msg lower now l text m, [LoadDashboardCmd])"
| "on_msg lower now (PositionEventMsg l text) m = (logged_msg lower now l text m, [LoadPositionsCmd, LoadDashboardCmd])"
| "on_msg lower now (BalanceEventMsg l text) m = (logged_msg lower now l text m, [LoadBalanceCmd])"
| "on_msg lower now (RiskEventMsg l text) m = (logged_msg lower now l text m, [])"
| "on_msg lower now (StrategyEventMsg l text) m = (logged_msg lower now l text m, [LoadDashboardCmd])"
| "on_msg lower now TickMsg m = (updateMetrics now m, [TickCmd, LoadDashboardCmd, LoadPositionsCmd, LoadBalanceCmd])"
| "on_msg lower now (EngineEventMsg l text) m = (logged_msg lower now l text m, [])"
| "on_msg lower now OtherMsg m = (m, [])"

fun key_of :: "tui_msg \<Rightarrow> key option" where
  "key_of (KeyMsg k) = Some k"
| "key_of _ = None"

text \<open>\<open>None\<close> quits. The command input sees every message after the model.\<close>

definition tui_Update ::
  "'w input_lib \<Rightarrow> (string \<Rightarrow> string) \<Rightarrow> time \<Rightarrow> tui_msg \<Rightarrow> ('d, 'w) tui \<Rightarrow> (('d, 'w) tui \<times> tui_cmd list \<times> string option) option" where
  "tui_Update I lower now msg m =
     (if (case key_of msg of Some k \<Rightarrow> k_string k = ''ctrl+c'' | None \<Rightarrow> False) then None
      else
        let (m1, cmds) = on_msg lower now msg m;
            (ci, line) = input_Update I (key_of msg) (tui_commandInput m1)
        in Some (m1\<lparr>tui_commandInput := ci\<rparr>,
                 cmds @ (case line of None \<Rightarrow> [] | Some v \<Rightarrow> [SubmitCmd (parseCommand v)]), line))"

text \<open>Drawing sets the size of the component it draws, and panics where a separator would have a negative length or an
  entry of the log cannot be cut.\<close>

definition tui_View :: "log_style \<Rightarrow> (string \<Rightarrow> string) \<Rightarrow> ('d, 'w) tui \<Rightarrow> ('d, 'w) tui option" where
  "tui_View S lower m =
     (let h = tui_height m - 8 in
      if \<not> tui_ready m then Some m
      else case tui_currentView m of
        ViewPositions \<Rightarrow>
          (let m' = on_positions (\<lambda>t. t\<lparr>pt_width := tui_width m, pt_height := h\<rparr>) m in
           case pt_vm (tui_positions m) of
             None \<Rightarrow> Some m'
           | Some vm \<Rightarrow> if ps_Positions vm \<noteq> [] \<and> tui_width m < 8 then None else Some m')
      | ViewBalance \<Rightarrow>
          (case tui_balance m of
             None \<Rightarrow> Some m
           | Some vm \<Rightarrow> if bv_Balances vm \<noteq> [] \<and> tui_width m < 8 then None else Some m)
      | ViewLogs \<Rightarrow>
          (let m' = on_log (log_SetSize (tui_width m) h) m in
           if \<exists>e \<in> set (visible_entries lower (tui_logViewer m')). renderEntry S (tui_logViewer m') e = None
           then None else Some m')
      | _ \<Rightarrow> Some m)"

subsection \<open>Domain events (eventbridge.go)\<close>

text \<open>The events with the fields that the bridge reads; sides and names are text, \<open>text\<close> prints a decimal.\<close>

datatype 'd ui_event =
    UiOrderCreated string 'd string 'd | UiOrderSubmitted string | UiOrderFilled 'd 'd | UiOrderPartial 'd 'd
  | UiOrderCanceled string | UiOrderRejected string | UiPositionOpened string 'd string 'd | UiPositionUpdated 'd
  | UiPositionClosed string 'd | UiBalanceUpdated string 'd | UiRiskViolation string string 'd 'd | UiRiskWarning string 'd
  | UiStrategyStarted string string | UiStrategyPaused string | UiStrategyStopped string 'd | UiUnknown

fun convertEvent :: "('d \<Rightarrow> string) \<Rightarrow> 'd ui_event \<Rightarrow> tui_msg option" where
  "convertEvent text (UiOrderCreated side q symbol p) =
     Some (OrderEventMsg LogLevelInfo (''Order created: '' @ side @ '' '' @ text q @ '' '' @ symbol @ '' @ '' @ text p))"
| "convertEvent text (UiOrderSubmitted eid) = Some (OrderEventMsg LogLevelSuccess (''Order submitted: '' @ eid))"
| "convertEvent text (UiOrderFilled q p) = Some (OrderEventMsg LogLevelSuccess (''Order filled: '' @ text q @ '' @ '' @ text p))"
| "convertEvent text (UiOrderPartial q r) =
     Some (OrderEventMsg LogLevelInfo (''Order partial fill: '' @ text q @ '' filled, '' @ text r @ '' remaining''))"
| "convertEvent text (UiOrderCanceled reason) = Some (OrderEventMsg LogLevelWarning (''Order canceled: '' @ reason))"
| "convertEvent text (UiOrderRejected reason) = Some (OrderEventMsg LogLevelError (''Order rejected: '' @ reason))"
| "convertEvent text (UiPositionOpened side q symbol p) =
     Some (PositionEventMsg LogLevelSuccess (''Position opened: '' @ side @ '' '' @ text q @ '' '' @ symbol @ '' @ '' @ text p))"
| "convertEvent text (UiPositionUpdated pnl) = Some (PositionEventMsg LogLevelInfo (''Position updated: PnL '' @ text pnl))"
| "convertEvent text (UiPositionClosed symbol pnl) =
     Some (PositionEventMsg LogLevelSuccess (''Position closed: '' @ symbol @ '' PnL '' @ text pnl))"
| "convertEvent text (UiBalanceUpdated asset amount) =
     Some (BalanceEventMsg LogLevelInfo (''Balance updated: '' @ asset @ '' = '' @ text amount))"
| "convertEvent text (UiRiskViolation kind action current limit) =
     Some (RiskEventMsg LogLevelError (''Risk violation: '' @ kind @ '' - '' @ action @ '' (current: '' @ text current @
       '', limit: '' @ text limit @ '')''))"
| "convertEvent text (UiRiskWarning kind pct) =
     Some (RiskEventMsg LogLevelWarning (''Risk warning: '' @ kind @ '' at '' @ text pct @ ''% of limit''))"
| "convertEvent text (UiStrategyStarted name kind) =
     Some (StrategyEventMsg LogLevelSuccess (''Strategy started: '' @ name @ '' ('' @ kind @ '')''))"
| "convertEvent text (UiStrategyPaused reason) = Some (StrategyEventMsg LogLevelWarning (''Strategy paused: '' @ reason))"
| "convertEvent text (UiStrategyStopped reason pnl) =
     Some (StrategyEventMsg LogLevelInfo (''Strategy stopped: '' @ reason @ '' (Final PnL: '' @ text pnl @ '')''))"
| "convertEvent text UiUnknown = None"

subsection \<open>The running interface\<close>

text \<open>What is fixed for a run, and the loop's state: the commands whose results are outstanding, the service, and for
  the statements the lines the user entered.\<close>

record ('p, 'd, 'w) tui_env =
  te_input :: "'w input_lib"
  te_lower :: "string \<Rightarrow> string"
  te_style :: log_style
  te_agent :: "'p agent_lib"
  te_show :: "agent_error \<Rightarrow> string"
  te_view :: "'d view_lib"

record ('p, 'd, 'w) tui_sys =
  ts_ui :: "('d, 'w) tui"
  ts_pending :: "tui_cmd list"
  ts_agent :: "'p agent_svc"
  ts_lines :: "string list"
  ts_running :: bool

text \<open>Messages from outside: keys, sizes, events and the library's own.\<close>

fun external_msg :: "tui_msg \<Rightarrow> bool" where
  "external_msg (WindowSizeMsg _ _) = True"
| "external_msg (KeyMsg _) = True"
| "external_msg (OrderEventMsg _ _) = True"
| "external_msg (PositionEventMsg _ _) = True"
| "external_msg (BalanceEventMsg _ _) = True"
| "external_msg (RiskEventMsg _ _) = True"
| "external_msg (StrategyEventMsg _ _) = True"
| "external_msg (EngineEventMsg _ _) = True"
| "external_msg OtherMsg = True"
| "external_msg _ = False"

definition loaded :: "('v \<Rightarrow> tui_msg) \<Rightarrow> string + 'v \<Rightarrow> tui_msg" where
  "loaded f r = (case r of Inl e \<Rightarrow> CommandResultMsg (Err e) | Inr v \<Rightarrow> f v)"

text \<open>A command runs on the service or on the readers; \<open>None\<close> is a panic of the query.\<close>

fun run_cmd ::
  "('p, 'd::linordered_idom, 'w) tui_env \<Rightarrow> io \<Rightarrow> (string, 'd) readers \<Rightarrow> tui_cmd \<Rightarrow> 'p agent_svc \<Rightarrow> ('p agent_svc \<times> tui_msg) option" where
  "run_cmd T i R TickCmd a = Some (a, TickMsg)"
| "run_cmd T i R LoadDashboardCmd a = Some (a, loaded DashboardLoadedMsg (GetDashboard (te_view T) R))"
| "run_cmd T i R LoadPositionsCmd a =
     (case GetPositions (te_view T) R of
        Panic \<Rightarrow> None
      | Fail e \<Rightarrow> Some (a, CommandResultMsg (Err e))
      | Return v \<Rightarrow> Some (a, PositionsLoadedMsg v))"
| "run_cmd T i R LoadBalanceCmd a = Some (a, loaded BalanceLoadedMsg (query_GetBalance (te_view T) R))"
| "run_cmd T i R (LoadMarketCmd s) a = Some (a, loaded MarketLoadedMsg (GetMarket s))"
| "run_cmd T i R LoadSettingsCmd a = Some (a, loaded SettingsLoadedMsg (GetSettings R))"
| "run_cmd T i R (ExecuteCommandCmd c) a =
     (case handler_Execute (te_agent T) (te_show T) i c a of (a', r) \<Rightarrow> Some (a', CommandResultMsg r))"
| "run_cmd T i R (SubmitCmd c) a = Some (a, CommandSubmittedMsg c)"

text \<open>After every update the model is drawn; a quit, and a panic anywhere, ends the loop.\<close>

definition tui_turn ::
  "('p, 'd, 'w) tui_env \<Rightarrow> time \<Rightarrow> tui_msg \<Rightarrow> ('p, 'd, 'w) tui_sys \<Rightarrow> ('p, 'd, 'w) tui_sys" where
  "tui_turn T now msg s =
     (case tui_Update (te_input T) (te_lower T) now msg (ts_ui s) of
        None \<Rightarrow> s\<lparr>ts_running := False\<rparr>
      | Some (m, cmds, line) \<Rightarrow>
          let s' = s\<lparr>ts_pending := ts_pending s @ cmds, ts_lines := ts_lines s @ (case line of None \<Rightarrow> [] | Some v \<Rightarrow> [v])\<rparr> in
          (case tui_View (te_style T) (te_lower T) m of
             None \<Rightarrow> s'\<lparr>ts_ui := m, ts_running := False\<rparr>
           | Some m' \<Rightarrow> s'\<lparr>ts_ui := m'\<rparr>))"

inductive tui_step :: "('p, 'd::linordered_idom, 'w) tui_env \<Rightarrow> ('p, 'd, 'w) tui_sys \<Rightarrow> ('p, 'd, 'w) tui_sys \<Rightarrow> bool" for T where
  outside: "ts_running s \<Longrightarrow> external_msg msg \<Longrightarrow> tui_step T s (tui_turn T now msg s)"
| command_done: "ts_running s \<Longrightarrow> c \<in> set (ts_pending s) \<Longrightarrow> run_cmd T i R c (ts_agent s) = Some (a, msg) \<Longrightarrow>
    tui_step T s (tui_turn T now msg (s\<lparr>ts_pending := remove1 c (ts_pending s), ts_agent := a\<rparr>))"
| command_panics: "ts_running s \<Longrightarrow> c \<in> set (ts_pending s) \<Longrightarrow> run_cmd T i R c (ts_agent s) = None \<Longrightarrow>
    tui_step T s (s\<lparr>ts_running := False\<rparr>)"

definition tui_start :: "('p, 'd::linordered_idom, 'w) tui_env \<Rightarrow> time \<Rightarrow> 'p agent_svc \<Rightarrow> ('p, 'd, 'w) tui_sys" where
  "tui_start T now a = \<lparr>ts_ui = tui_New (te_input T) now, ts_pending = tui_Init ''BTCUSDT'', ts_agent = a, ts_lines = [],
     ts_running = True\<rparr>"

abbreviation tui_reach :: "('p, 'd::linordered_idom, 'w) tui_env \<Rightarrow> time \<Rightarrow> 'p agent_svc \<Rightarrow> ('p, 'd, 'w) tui_sys \<Rightarrow> bool" where
  "tui_reach T now a s \<equiv> (tui_step T)\<^sup>*\<^sup>* (tui_start T now a) s"

subsection \<open>The invariant\<close>

definition log_ok :: "log_viewer \<Rightarrow> bool" where
  "log_ok lv \<longleftrightarrow> lv_maxEntries lv = 1000 \<and> length (lv_entries lv) \<le> 1000 \<and> 0 \<le> lv_offset lv"

definition input_ok :: "'w command_input \<Rightarrow> bool" where
  "input_ok ci \<longleftrightarrow> length (ci_history ci) \<le> 100 \<and> - 1 \<le> ci_historyIndex ci \<and>
     ci_historyIndex ci < int (length (ci_history ci)) \<and>
     (ci_showSuggestions ci \<longrightarrow> 0 \<le> ci_selectedSugg ci \<and> ci_selectedSugg ci < int (length (ci_suggestions ci)))"

definition tui_ok :: "('d, 'w) tui \<Rightarrow> bool" where
  "tui_ok m \<longleftrightarrow> log_ok (tui_logViewer m) \<and> input_ok (tui_commandInput m) \<and>
     tui_activeTab m = view_number (tui_currentView m) \<and> tui_activeSymbol m \<in> set market_symbols \<and>
     0 \<le> pt_offset (tui_positions m) \<and> sb_mode (tui_statusBar m) \<in> {RunModeOther [], RunModeIdle}"

lemma log_ops_ok:
  "log_ok (NewLogViewer 1000)"
  "log_ok lv \<Longrightarrow> log_ok (AddLog lower now level text lv)"
  "log_ok lv \<Longrightarrow> log_ok (log_ScrollUp lv)"
  "log_ok lv \<Longrightarrow> log_ok (log_ScrollDown lower lv)"
  "log_ok lv \<Longrightarrow> log_ok (SetFilterLevel l lv)"
  "log_ok lv \<Longrightarrow> log_ok (ClearFilters lv)"
  "log_ok lv \<Longrightarrow> log_ok (ToggleTimestamp lv)"
  "log_ok lv \<Longrightarrow> log_ok (log_SetSize w h lv)"
  by (auto simp: log_ok_def NewLogViewer_def AddLog_def ScrollToBottom_def log_maxOffset_def log_ScrollUp_def log_ScrollDown_def
      SetFilterLevel_def ClearFilters_def ToggleTimestamp_def log_SetSize_def Let_def)

lemma SetValue_simps [simp]:
  "ci_history (SetValue I v ci) = ci_history ci" "ci_historyIndex (SetValue I v ci) = ci_historyIndex ci"
  "ci_suggestions (SetValue I v ci) = ci_suggestions ci" "ci_selectedSugg (SetValue I v ci) = ci_selectedSugg ci"
  "ci_showSuggestions (SetValue I v ci) = ci_showSuggestions ci"
  by (simp_all add: SetValue_def)

lemma input_ops_ok:
  assumes "input_ok ci"
  shows "input_ok (updateSuggestions I ci)" "input_ok (historyUp I ci)" "input_ok (historyDown I ci)"
    "input_ok (nextSuggestion I ci)" "input_ok (prevSuggestion I ci)" "input_ok (fst (input_submit I ci))"
  using assms
  by (auto simp: input_ok_def updateSuggestions_def historyUp_def historyDown_def nextSuggestion_def prevSuggestion_def
      input_submit_def input_Reset_def Let_def)

lemma input_ok_textInput [simp]: "input_ok (ci\<lparr>ci_textInput := x\<rparr>) = input_ok ci" "input_ok (ci\<lparr>ci_width := w\<rparr>) = input_ok ci"
  by (simp_all add: input_ok_def)

lemma input_Update_ok: "input_ok ci \<Longrightarrow> input_ok (fst (input_Update I k ci))"
  using input_ops_ok [of ci I] by (simp add: input_Update_def split: option.split key_type.split)

lemma tui_ok_New: "tui_ok (tui_New I now)"
  by (simp add: tui_ok_def tui_New_def log_ops_ok input_ok_def NewCommandInput_def market_symbols_def)

lemma on_log_ok: "tui_ok m \<Longrightarrow> log_ok (f (tui_logViewer m)) \<Longrightarrow> tui_ok (on_log f m)"
  by (simp add: tui_ok_def on_log_def)

lemma on_positions_ok: "tui_ok m \<Longrightarrow> 0 \<le> pt_offset (f (tui_positions m)) \<Longrightarrow> tui_ok (on_positions f m)"
  by (simp add: tui_ok_def on_positions_def)

lemma positions_scroll_ok:
  "0 \<le> pt_offset t \<Longrightarrow> 0 \<le> pt_offset (positions_ScrollUp t)" "0 \<le> pt_offset t \<Longrightarrow> 0 \<le> pt_offset (positions_ScrollDown t)"
  by (simp_all add: positions_ScrollUp_def positions_ScrollDown_def split: option.split)

lemma view_number_less: "view_number v < 6"
  by (cases v) simp_all

lemma switch_view_ok: "tui_ok m \<Longrightarrow> n = view_number v \<Longrightarrow> tui_ok (switch_view v n m)"
  using view_number_less [of v] by (simp add: tui_ok_def switch_view_def SetActiveTab_def)

lemma symbol_index_bound: "symbol_index xs s = Some i \<Longrightarrow> i < length xs"
  by (induction xs arbitrary: i) (auto split: if_splits)

lemma cycle_symbol_ok: "tui_ok m \<Longrightarrow> tui_ok (cyclePreviousSymbol m)" "tui_ok m \<Longrightarrow> tui_ok (cycleNextSymbol m)"
proof -
  have "market_symbols ! j \<in> set market_symbols" if "j < length market_symbols" for j
    using that by simp
  moreover have "market_symbols \<noteq> []" by (simp add: market_symbols_def)
  ultimately show "tui_ok m \<Longrightarrow> tui_ok (cyclePreviousSymbol m)" "tui_ok m \<Longrightarrow> tui_ok (cycleNextSymbol m)"
    by (auto simp: tui_ok_def cyclePreviousSymbol_def cycleNextSymbol_def simp del: nth_mem
        dest!: symbol_index_bound split: option.split)
qed

lemma tui_ok_parts:
  "tui_ok m \<Longrightarrow> log_ok (tui_logViewer m)" "tui_ok m \<Longrightarrow> 0 \<le> pt_offset (tui_positions m)"
  "tui_ok m \<Longrightarrow> input_ok (tui_commandInput m)"
  by (simp_all add: tui_ok_def)

lemmas tui_oks = on_log_ok on_positions_ok positions_scroll_ok switch_view_ok cycle_symbol_ok log_ops_ok tui_ok_parts

lemma on_key_ok: "tui_ok m \<Longrightarrow> tui_ok (fst (on_key lower k m))"
proof -
  assume m: "tui_ok m"
  then have clear: "tui_ok (m\<lparr>tui_logViewer := NewLogViewer 1000, tui_commandInput := (tui_commandInput m)\<lparr>ci_width := w\<rparr>\<rparr>)" for w
    by (simp add: tui_ok_def log_ops_ok)
  have cycle: "tui_ok (cycleViewForward m)" "tui_ok (cycleViewBackward m)"
    using m by (simp_all add: cycleViewForward_def cycleViewBackward_def Let_def switch_view_ok)
  show ?thesis
    unfolding on_key_def Let_def by (simp add: m clear cycle tui_oks)
qed

lemma logged_msg_ok: "tui_ok m \<Longrightarrow> tui_ok (logged_msg lower now l text m)"
  by (simp add: logged_msg_def tui_oks)

lemma tui_ok_frame [simp]:
  "tui_ok (m\<lparr>tui_dashboard := d\<rparr>) = tui_ok m" "tui_ok (m\<lparr>tui_balance := b\<rparr>) = tui_ok m" "tui_ok (m\<lparr>tui_market := k\<rparr>) = tui_ok m"
  "tui_ok (m\<lparr>tui_settings := st\<rparr>) = tui_ok m"
  "tui_ok (m\<lparr>tui_width := w, tui_height := h, tui_ready := r, tui_commandInput := (tui_commandInput m)\<lparr>ci_width := w\<rparr>\<rparr>) = tui_ok m"
  by (simp_all add: tui_ok_def)

lemma updateMetrics_ok: "tui_ok m \<Longrightarrow> tui_ok (updateMetrics now m)"
  by (simp add: tui_ok_def updateMetrics_def)

lemma on_msg_ok: "tui_ok m \<Longrightarrow> tui_ok (fst (on_msg lower now msg m))"
  by (cases msg) (simp_all add: logged_msg_ok on_positions_ok on_key_ok updateMetrics_ok split: sum.split)

lemma tui_View_ok: "tui_ok m \<Longrightarrow> tui_View S lower m = Some m' \<Longrightarrow> tui_ok m'"
  unfolding tui_View_def Let_def
  by (simp add: tui_oks split: if_splits view_type.splits option.splits) (auto simp: tui_oks)

lemma tui_Update_ok: "tui_ok m \<Longrightarrow> tui_Update I lower now msg m = Some (m', cmds, line) \<Longrightarrow> tui_ok m'"
proof -
  assume m: "tui_ok m" and u: "tui_Update I lower now msg m = Some (m', cmds, line)"
  let ?m1 = "fst (on_msg lower now msg m)"
  have ok: "tui_ok ?m1" using m by (rule on_msg_ok)
  have "m' = ?m1\<lparr>tui_commandInput := fst (input_Update I (key_of msg) (tui_commandInput ?m1))\<rparr>"
    using u by (simp add: tui_Update_def Let_def case_prod_beta split: if_splits)
  then show ?thesis
    using ok input_Update_ok [OF tui_ok_parts(3) [OF ok]] by (simp add: tui_ok_def)
qed

subsection \<open>The loop\<close>

lemma on_key_cmds: "set (snd (on_key lower k m)) \<subseteq> range LoadMarketCmd"
  unfolding on_key_def Let_def by simp

lemma on_key_ticks: "count (mset (snd (on_key lower k m))) TickCmd = 0"
  using on_key_cmds [of lower k m] by (auto simp: count_eq_zero_iff)

lemma on_msg_ticks: "count (mset (snd (on_msg lower now msg m))) TickCmd = (if msg = TickMsg then 1 else 0)"
  by (cases msg) (simp_all add: on_key_ticks split: sum.split)

lemma on_msg_new:
  assumes "c \<in> set (snd (on_msg lower now msg m))"
  shows "c \<noteq> SubmitCmd d" "c = ExecuteCommandCmd d \<Longrightarrow> \<exists>c0. msg = CommandSubmittedMsg c0 \<and> normalizeSubmittedCommand c0 = Ok d"
  using assms on_key_cmds [of lower _ m] by (cases msg; auto split: sum.splits)+

text \<open>The lines that a turn adds, and the commands they make.\<close>

definition line_list :: "string option \<Rightarrow> string list" where
  "line_list line = (case line of None \<Rightarrow> [] | Some v \<Rightarrow> [v])"

lemma tui_turn_cases:
  obtains (quit) "tui_turn T now msg s = s\<lparr>ts_running := False\<rparr>"
  | (turn) m line r where "tui_turn T now msg s = s\<lparr>ts_pending := ts_pending s @ snd (on_msg (te_lower T) now msg (ts_ui s)) @
        map (\<lambda>v. SubmitCmd (parseCommand v)) (line_list line), ts_lines := ts_lines s @ line_list line, ts_ui := m, ts_running := r\<rparr>"
      "tui_ok (ts_ui s) \<Longrightarrow> tui_ok m" "r \<Longrightarrow> ts_running s"
proof (cases "tui_Update (te_input T) (te_lower T) now msg (ts_ui s)")
  case None
  then show ?thesis using quit by (simp add: tui_turn_def)
next
  case (Some x)
  then obtain m cmds line where u: "tui_Update (te_input T) (te_lower T) now msg (ts_ui s) = Some (m, cmds, line)"
    by (cases x) auto
  then have cmds: "cmds = snd (on_msg (te_lower T) now msg (ts_ui s)) @ map (\<lambda>v. SubmitCmd (parseCommand v)) (line_list line)"
    by (auto simp: tui_Update_def Let_def line_list_def case_prod_beta split: if_splits option.split)
  have ok: "tui_ok (ts_ui s) \<Longrightarrow> tui_ok m" using tui_Update_ok u by blast
  show ?thesis
  proof (cases "tui_View (te_style T) (te_lower T) m")
    case None
    then show ?thesis using turn [where m = m and line = line and r = False] ok by (simp add: tui_turn_def u cmds line_list_def)
  next
    case (Some m')
    have "tui_ok (ts_ui s) \<Longrightarrow> tui_ok m'" using ok tui_View_ok [OF _ Some] by blast
    then show ?thesis
      using turn [where m = m' and line = line and r = "ts_running s"] Some by (simp add: tui_turn_def u cmds line_list_def)
  qed
qed

lemma tui_turn_agent [simp]: "ts_agent (tui_turn T now msg s) = ts_agent s"
  by (cases rule: tui_turn_cases [of T now msg s]) simp_all

lemma tui_turn_lines: "set (ts_lines s) \<subseteq> set (ts_lines (tui_turn T now msg s))"
  by (cases rule: tui_turn_cases [of T now msg s]) auto

definition start_live :: "string \<Rightarrow> bool" where
  "start_live line \<longleftrightarrow>
     (\<exists>rest. normalizeSubmittedCommand (parseCommand line) = Ok \<lparr>cmd_Name = ''start'', cmd_Args = ''live'' # rest\<rparr>)"

text \<open>The invariant of the loop: one tick is outstanding, and every outstanding command comes from a line that was
  entered.\<close>

definition sys_ok :: "('p, 'd, 'w) tui_sys \<Rightarrow> bool" where
  "sys_ok s \<longleftrightarrow> tui_ok (ts_ui s) \<and>
     (ts_running s \<longrightarrow> count (mset (ts_pending s)) TickCmd = 1) \<and>
     (\<forall>c. SubmitCmd c \<in> set (ts_pending s) \<longrightarrow> (\<exists>line \<in> set (ts_lines s). parseCommand line = c)) \<and>
     (\<forall>c. ExecuteCommandCmd c \<in> set (ts_pending s) \<longrightarrow>
        (\<exists>line \<in> set (ts_lines s). normalizeSubmittedCommand (parseCommand line) = Ok c))"

text \<open>A turn on a state whose pending commands lack the one that produced the message.\<close>

lemma tui_turn_ok:
  assumes "tui_ok (ts_ui s)"
    and "count (mset (ts_pending s)) TickCmd = (if msg = TickMsg then 0 else 1)"
    and "\<forall>c. SubmitCmd c \<in> set (ts_pending s) \<longrightarrow> (\<exists>line \<in> set (ts_lines s). parseCommand line = c)"
    and "\<forall>c. ExecuteCommandCmd c \<in> set (ts_pending s) \<longrightarrow>
        (\<exists>line \<in> set (ts_lines s). normalizeSubmittedCommand (parseCommand line) = Ok c)"
    and "\<forall>c. msg = CommandSubmittedMsg c \<longrightarrow> (\<exists>line \<in> set (ts_lines s). parseCommand line = c)"
  shows "sys_ok (tui_turn T now msg s)"
proof (cases rule: tui_turn_cases [of T now msg s])
  case quit
  then show ?thesis using assms(1,3,4) by (simp add: sys_ok_def)
next
  case (turn m line r)
  let ?t = "tui_turn T now msg s" and ?new = "snd (on_msg (te_lower T) now msg (ts_ui s))"
  let ?sub = "map (\<lambda>v. SubmitCmd (parseCommand v)) (line_list line)"
  have t: "ts_ui ?t = m" "ts_running ?t = r" "ts_pending ?t = ts_pending s @ ?new @ ?sub" "ts_lines ?t = ts_lines s @ line_list line"
    by (simp_all add: turn(1))
  have "count (mset ?sub) TickCmd = 0" by (simp add: count_eq_zero_iff image_iff)
  then have "count (mset (ts_pending ?t)) TickCmd = 1"
    using assms(2) on_msg_ticks [of "te_lower T" now msg "ts_ui s"] by (simp add: t(3) split: if_splits)
  moreover have "\<exists>l \<in> set (ts_lines ?t). parseCommand l = c" if "SubmitCmd c \<in> set (ts_pending ?t)" for c
  proof -
    have "SubmitCmd c \<notin> set ?new" using on_msg_new(1) by blast
    then have "SubmitCmd c \<in> set (ts_pending s) \<or> SubmitCmd c \<in> set ?sub" using that by (auto simp: t(3))
    then show ?thesis using assms(3) by (auto simp: t(4))
  qed
  moreover have "\<exists>l \<in> set (ts_lines ?t). normalizeSubmittedCommand (parseCommand l) = Ok c"
    if "ExecuteCommandCmd c \<in> set (ts_pending ?t)" for c
  proof -
    have "ExecuteCommandCmd c \<in> set (ts_pending s) \<or> ExecuteCommandCmd c \<in> set ?new" using that by (auto simp: t(3))
    then have "\<exists>l \<in> set (ts_lines s). normalizeSubmittedCommand (parseCommand l) = Ok c"
      using assms(4,5) on_msg_new(2) by blast
    then show ?thesis by (auto simp: t(4))
  qed
  ultimately show ?thesis using turn(2) [OF assms(1)] by (simp add: sys_ok_def t(1))
qed

lemma run_cmd_tick: "run_cmd T i R c a = Some (a', msg) \<Longrightarrow> msg = TickMsg \<longleftrightarrow> c = TickCmd"
  by (cases c) (auto simp: loaded_def split: outcome.splits sum.splits prod.splits)

lemma run_cmd_submitted: "run_cmd T i R c a = Some (a', CommandSubmittedMsg d) \<Longrightarrow> c = SubmitCmd d"
  by (cases c) (auto simp: loaded_def split: outcome.splits sum.splits prod.splits)

lemma run_cmd_agent:
  "run_cmd T i R c a = Some (a', msg) \<Longrightarrow>
     a' = a \<or> (\<exists>d. c = ExecuteCommandCmd d \<and> a' = fst (handler_Execute (te_agent T) (te_show T) i d a))"
  by (cases c) (auto split: outcome.splits prod.splits)

lemma external_not_loop: "external_msg msg \<Longrightarrow> msg \<noteq> TickMsg \<and> (\<forall>c. msg \<noteq> CommandSubmittedMsg c)"
  by (cases msg) simp_all

lemma sys_ok_start: "sys_ok (tui_start T now a)"
  by (simp add: sys_ok_def tui_start_def tui_ok_New tui_Init_def)

lemma tui_step_ok:
  assumes "sys_ok s" "tui_step T s t"
  shows "sys_ok t"
  using assms(2,1)
proof cases
  case (outside msg now)
  then show ?thesis
    using assms(1) external_not_loop [OF outside(3)] tui_turn_ok [of s msg T now] by (simp add: sys_ok_def)
next
  case (command_done c i R a msg now)
  let ?u = "s\<lparr>ts_pending := remove1 c (ts_pending s), ts_agent := a\<rparr>"
  have sub: "set (ts_pending ?u) \<subseteq> set (ts_pending s)" by (simp add: set_remove1_subset)
  have "count (mset (ts_pending ?u)) TickCmd = (if msg = TickMsg then 0 else 1)"
    using assms(1) command_done(2) run_cmd_tick [OF command_done(4)] by (auto simp: sys_ok_def)
  moreover have "\<forall>d. msg = CommandSubmittedMsg d \<longrightarrow> (\<exists>line \<in> set (ts_lines s). parseCommand line = d)"
  proof (intro allI impI)
    fix d assume "msg = CommandSubmittedMsg d"
    then have "SubmitCmd d \<in> set (ts_pending s)" using command_done(3,4) run_cmd_submitted by metis
    then show "\<exists>line \<in> set (ts_lines s). parseCommand line = d" using assms(1) by (simp add: sys_ok_def)
  qed
  ultimately show ?thesis
    unfolding command_done(1) using assms(1) sub by (intro tui_turn_ok) (auto simp: sys_ok_def)
next
  case (command_panics c i R)
  then show ?thesis using assms(1) by (simp add: sys_ok_def)
qed

lemma tui_reach_ok: "tui_reach T now a s \<Longrightarrow> sys_ok s"
  by (induction rule: rtranclp_induct) (auto simp: sys_ok_start intro: tui_step_ok)

text \<open>Only the command \<open>start live\<close> brings the service to live trading.\<close>

lemma shown_fst [simp]: "fst (shown show r) = fst r"
  by (simp add: shown_def)

lemma StartLive_on_mode: "agent_mode (fst (StartLive_on accepted i a)) \<in> {agent_mode a, RunModeLiveTrading}"
  using repo_Transition_mode [of RunModeLiveTrading "''live trading requested''" "io_then i" "io_save2 i"
      "fst (repo_SetLicense LicenseStateLicensed (io_now i) (io_save1 i) (ag_runtime a))"]
  by (auto simp: StartLive_on_def agent_mode_def case_prod_beta split: sum.split bool.split)

lemma other_modes:
  "agent_mode (fst (StartPaper i a)) \<in> {agent_mode a, RunModePaperTrading}"
  "agent_mode (fst (StartScan i a)) \<in> {agent_mode a, RunModeScanning}"
  "agent_mode (fst (StopAll i a)) \<in> {agent_mode a, RunModeIdle}"
  "agent_mode (fst (QueueBacktest i a)) \<in> {agent_mode a, RunModeBacktesting}"
  "agent_mode (fst (service_UpdateConfig L k v i a)) = agent_mode a"
  using agent_transition_mode
  by (simp_all add: StartPaper_def StartScan_def StopAll_def QueueBacktest_def service_UpdateConfig_def agent_mode_def case_prod_beta)

lemma handler_mode:
  assumes "agent_mode (fst (handler_Execute L show i c a)) = RunModeLiveTrading" "agent_mode a \<noteq> RunModeLiveTrading"
  shows "\<exists>rest. c = \<lparr>cmd_Name = ''start'', cmd_Args = ''live'' # rest\<rparr>"
proof -
  have "cmd_Name c = ''start''"
    using assms other_modes(3) [of i a] other_modes(4) [of i a] other_modes(5) [of L _ _ i a]
    by (auto simp: handler_Execute_def handleSet_def split: if_splits list.splits)
  moreover from this have "\<exists>rest. cmd_Args c = ''live'' # rest"
    using assms other_modes(1) [of i a] other_modes(2) [of i a]
    by (auto simp: handler_Execute_def handleStart_def split: if_splits list.splits)
  ultimately show ?thesis by (cases c) auto
qed

subsection \<open>Properties\<close>

text \<open>The interface stays consistent however keys, sizes, events and answers arrive: the highlighted tab is the view
  that is drawn, the market symbol is a listed one, the log holds at most 1000 entries and the history at most 100
  lines, the positions in the history and in the suggestions point into their lists, so that no key panics, and while
  the interface runs exactly one tick is outstanding, so the clock neither stops nor doubles.\<close>

theorem interface_stays_consistent:
  assumes "tui_reach T now a s"
  shows "tui_activeTab (ts_ui s) = view_number (tui_currentView (ts_ui s)) \<and>
    tui_activeSymbol (ts_ui s) \<in> set market_symbols \<and> length (lv_entries (tui_logViewer (ts_ui s))) \<le> 1000 \<and>
    input_ok (tui_commandInput (ts_ui s)) \<and> (ts_running s \<longrightarrow> count (mset (ts_pending s)) TickCmd = 1)"
  using tui_reach_ok [OF assms] by (simp add: sys_ok_def tui_ok_def log_ok_def)

text \<open>C7: the interface starts live trading on request only: when the service trades live and did not at the start, the
  user has entered a line that is the command \<open>start live\<close>. No key, event, tick or other command does it.\<close>

theorem live_trading_was_typed:
  assumes "tui_reach T now a s" "agent_mode a \<noteq> RunModeLiveTrading" "agent_mode (ts_agent s) = RunModeLiveTrading"
  shows "\<exists>line \<in> set (ts_lines s). start_live line"
  using assms(1,3)
proof (induction rule: rtranclp_induct)
  case base
  then show ?case using assms(2) by (simp add: tui_start_def)
next
  case (step s t)
  from step.hyps(2) show ?case
  proof cases
    case (outside msg now')
    then show ?thesis using step.IH step.prems tui_turn_lines [of s T now' msg] by auto
  next
    case (command_done c i R b msg now')
    let ?u = "s\<lparr>ts_pending := remove1 c (ts_pending s), ts_agent := b\<rparr>"
    have b: "agent_mode b = RunModeLiveTrading" using step.prems command_done(1) by simp
    have lines: "set (ts_lines s) \<subseteq> set (ts_lines t)" using tui_turn_lines [of ?u T now' msg] command_done(1) by simp
    have "\<exists>line \<in> set (ts_lines s). start_live line"
    proof (cases "agent_mode (ts_agent s) = RunModeLiveTrading")
      case False
      then obtain d where d: "c = ExecuteCommandCmd d" "b = fst (handler_Execute (te_agent T) (te_show T) i d (ts_agent s))"
        using run_cmd_agent [OF command_done(4)] b by auto
      obtain line where "line \<in> set (ts_lines s)" "normalizeSubmittedCommand (parseCommand line) = Ok d"
        using tui_reach_ok [OF step.hyps(1)] command_done(3) d(1) by (auto simp: sys_ok_def)
      then show ?thesis using handler_mode [of "te_agent T" "te_show T" i d "ts_agent s"] b d(2) False by (auto simp: start_live_def)
    qed (use step.IH in blast)
    then show ?thesis using lines by blast
  next
    case (command_panics c i R)
    then show ?thesis using step.IH step.prems by simp
  qed
qed

subsection \<open>A session\<close>

definition plain_view :: "int view_lib" where
  "plain_view = \<lparr>vw_dec = int_dec, vw_text = int_text, vw_fixed2 = int_text, vw_percent = int_text, vw_tenths = int_text,
     vw_clock = int_text\<rparr>"

abbreviation plain_service :: "'p agent_svc" where
  "plain_service \<equiv> cli_service \<lparr>cm_path = ''p'', cm_live = None, cm_file = None\<rparr> 0"

definition plain_tui :: "'p agent_lib \<Rightarrow> ('p, int, string) tui_env" where
  "plain_tui L = \<lparr>te_input = \<lparr>ti_value = (\<lambda>w. w), ti_set = (\<lambda>v w. v), ti_key = (\<lambda>k w. w @ k_string k), ti_new = []\<rparr>,
     te_lower = (\<lambda>x. x), te_style = \<lparr>ls_stamp = (\<lambda>t. []), ls_level = (\<lambda>l. []), ls_message = (\<lambda>l x. x), ls_width = (\<lambda>x. 0)\<rparr>,
     te_agent = L, te_show = (\<lambda>e. ''error''), te_view = plain_view\<rparr>"

definition press :: "'p agent_lib \<Rightarrow> key_type \<Rightarrow> string \<Rightarrow> ('p, int, string) tui_sys \<Rightarrow> ('p, int, string) tui_sys" where
  "press L k text s = tui_turn (plain_tui L) 0 (KeyMsg \<lparr>k_type = k, k_string = text\<rparr>) s"

definition finish :: "'p agent_lib \<Rightarrow> tui_cmd \<Rightarrow> tui_msg \<Rightarrow> 'p agent_svc \<Rightarrow> ('p, int, string) tui_sys \<Rightarrow> ('p, int, string) tui_sys" where
  "finish L c msg a s = tui_turn (plain_tui L) 0 msg (s\<lparr>ts_pending := remove1 c (ts_pending s), ts_agent := a\<rparr>)"

lemma press_step: "tui_reach (plain_tui L) 0 a s \<Longrightarrow> ts_running s \<Longrightarrow> tui_reach (plain_tui L) 0 a (press L k text s)"
  unfolding press_def by (erule rtranclp.rtrancl_into_rtrancl) (rule outside, simp_all)

lemma finish_step:
  "tui_reach (plain_tui L) 0 a s \<Longrightarrow> ts_running s \<Longrightarrow> c \<in> set (ts_pending s) \<Longrightarrow>
     run_cmd (plain_tui L) i R c (ts_agent s) = Some (b, msg) \<Longrightarrow> tui_reach (plain_tui L) 0 a (finish L c msg b s)"
  unfolding finish_def by (erule rtranclp.rtrancl_into_rtrancl) (rule command_done)

text \<open>The user pastes the command and presses enter.\<close>

definition pasted :: "'p agent_lib \<Rightarrow> 'p agent_svc \<Rightarrow> ('p, int, string) tui_sys" where
  "pasted L a = press L KeyOther ''/start live'' (tui_start (plain_tui L) 0 a)"

lemma pasted_state:
  "ts_running (pasted L a)" "\<not> tui_ready (ts_ui (pasted L a))"
  "ci_textInput (tui_commandInput (ts_ui (pasted L a))) = ''/start live''"
  by code_simp+

lemma pasted_agent: "ts_agent (pasted L a) = a"
  by (simp add: pasted_def press_def tui_start_def)

lemma enter_state:
  assumes "\<not> tui_ready (ts_ui s)" "ts_running s" "ci_textInput (tui_commandInput (ts_ui s)) \<noteq> []"
  shows "\<not> tui_ready (ts_ui (press L KeyEnter ''enter'' s))" "ts_running (press L KeyEnter ''enter'' s)"
    "ts_agent (press L KeyEnter ''enter'' s) = ts_agent s"
    "SubmitCmd (parseCommand (ci_textInput (tui_commandInput (ts_ui s)))) \<in> set (ts_pending (press L KeyEnter ''enter'' s))"
  using assms
  by (simp_all add: press_def tui_turn_def plain_tui_def tui_Update_def on_key_def input_Update_def tui_View_def input_submit_def Let_def)

lemma execute_state:
  assumes "\<not> tui_ready (ts_ui s)" "ts_running s" "normalizeSubmittedCommand c = Ok d"
  shows "ts_running (finish L x (CommandSubmittedMsg c) a s)" "ts_agent (finish L x (CommandSubmittedMsg c) a s) = a"
    "ExecuteCommandCmd d \<in> set (ts_pending (finish L x (CommandSubmittedMsg c) a s))"
  using assms
  by (simp_all add: finish_def tui_turn_def plain_tui_def tui_Update_def input_Update_def tui_View_def logged_msg_def on_log_def Let_def)

lemma parse_live: "parseCommand ''/start live'' = \<lparr>cmd_Name = ''/start'', cmd_Args = [''live'']\<rparr>"
proof -
  have "Fields (''/start'' @ '' '' @ ''live'') = [''/start'', ''live'']"
    by (rule fields_pair) (simp_all add: printable_not_space)
  then show ?thesis by (simp add: parseCommand_def)
qed

lemma normalize_live: "normalizeSubmittedCommand \<lparr>cmd_Name = ''/start'', cmd_Args = args\<rparr> = Ok \<lparr>cmd_Name = ''start'', cmd_Args = args\<rparr>"
proof -
  have "TrimSpace ''start'' = ''start''" by (rule TrimSpace_untouched) (simp add: printable_not_space)
  then show ?thesis by (simp add: normalizeSubmittedCommand_def TrimPrefix_def HasPrefix_def)
qed

text \<open>The whole session, up to the service trading live.\<close>

lemma live_session:
  fixes L :: "'p agent_lib"
  shows "\<exists>s. tui_reach (plain_tui L) 0 plain_service s \<and> agent_mode (ts_agent s) = RunModeLiveTrading"
proof -
  let ?s1 = "pasted L plain_service" and ?s2 = "press L KeyEnter ''enter'' (pasted L plain_service)"
  let ?c = "\<lparr>cmd_Name = ''/start'', cmd_Args = [''live'']\<rparr>" and ?d = "\<lparr>cmd_Name = ''start'', cmd_Args = [''live'']\<rparr>"
  let ?s3 = "finish L (SubmitCmd ?c) (CommandSubmittedMsg ?c) plain_service ?s2"
  let ?r = "handler_Execute L (\<lambda>e. ''error'') sample_io ?d plain_service"
  have "tui_reach (plain_tui L) 0 plain_service ?s1"
    unfolding pasted_def by (rule press_step) (simp_all add: tui_start_def)
  then have s2: "tui_reach (plain_tui L) 0 plain_service ?s2" using pasted_state(1) by (rule press_step)
  have e: "\<not> tui_ready (ts_ui ?s2)" "ts_running ?s2" "ts_agent ?s2 = plain_service" "SubmitCmd ?c \<in> set (ts_pending ?s2)"
    using enter_state [OF pasted_state(2,1), of L plain_service] pasted_state(3) [of L plain_service]
    by (simp_all add: parse_live pasted_agent)
  have s3: "tui_reach (plain_tui L) 0 plain_service ?s3"
    using s2 e by (intro finish_step [where i = sample_io and R = undefined]) simp_all
  note x = execute_state [OF e(1,2) normalize_live [of "[''live'']"], of L "SubmitCmd ?c" plain_service]
  have r: "run_cmd (plain_tui L) sample_io undefined (ExecuteCommandCmd ?d) plain_service = Some (fst ?r, CommandResultMsg (snd ?r))"
    by (simp add: plain_tui_def case_prod_beta)
  have "tui_reach (plain_tui L) 0 plain_service (finish L (ExecuteCommandCmd ?d) (CommandResultMsg (snd ?r)) (fst ?r) ?s3)"
    using r by (intro finish_step [OF s3 x(1,3)]) (simp add: x(2))
  moreover have "agent_mode (fst ?r) = RunModeLiveTrading"
  proof -
    obtain svc :: "'p agent_svc" where "StartLive_on mock_DisclaimerAccepted sample_io plain_service = (svc, Ok ())"
        "agent_mode svc = RunModeLiveTrading"
      using StartLive_on_new by blast
    then show ?thesis by (simp add: handler_Execute_def handleStart_def)
  qed
  ultimately show ?thesis by (intro exI conjI) (auto simp: finish_def)
qed

theorem live_trading_was_typed_witness:
  "\<exists>s :: (string, int, string) tui_sys. tui_reach (plain_tui sample_lib) 0 plain_service s \<and> (\<exists>line \<in> set (ts_lines s). start_live line)"
proof -
  have "agent_mode (plain_service :: string agent_svc) \<noteq> RunModeLiveTrading"
    unfolding agent_mode_def cli_service_new by (simp add: NewManager_def mm_New_def CurrentState_def Let_def)
  moreover obtain s where "tui_reach (plain_tui sample_lib) 0 plain_service s" "agent_mode (ts_agent s) = RunModeLiveTrading"
    using live_session by blast
  ultimately show ?thesis using live_trading_was_typed by blast
qed

theorem interface_stays_consistent_witness:
  "\<exists>s :: (string, int, string) tui_sys. agent_mode (ts_agent s) = RunModeLiveTrading \<and>
     tui_activeTab (ts_ui s) = view_number (tui_currentView (ts_ui s))"
  using live_session [of sample_lib] interface_stays_consistent [of "plain_tui sample_lib" 0 plain_service] by blast

subsection \<open>Where the interface misleads\<close>

text \<open>The status bar never shows that the agent trades: the mode it is given is a constant.\<close>

theorem status_bar_shows_idle:
  assumes "tui_reach T now a s"
  shows "sb_mode (tui_statusBar (ts_ui s)) \<in> {RunModeOther [], RunModeIdle}"
  using tui_reach_ok [OF assms] by (simp add: sys_ok_def tui_ok_def)

text \<open>The symbol after \<open>/start live\<close>, which the suggestions offer, changes nothing.\<close>

theorem symbol_of_start_is_ignored:
  "handler_Execute L show i \<lparr>cmd_Name = ''start'', cmd_Args = mode # rest\<rparr> a =
   handler_Execute L show i \<lparr>cmd_Name = ''start'', cmd_Args = [mode]\<rparr> a"
  by (simp add: handler_Execute_def handleStart_def)

text \<open>Nine of the fifteen suggested commands are unknown to the handler, among them the help.\<close>

lemma normalize_printable:
  assumes "w \<noteq> []" "\<forall>c \<in> set w. c \<notin> space_bytes"
  shows "normalizeSubmittedCommand (parseCommand (''/'' @ w)) = Ok \<lparr>cmd_Name = w, cmd_Args = []\<rparr>"
    "normalizeSubmittedCommand (parseCommand (''/'' @ w @ '' '' @ rest)) = Ok \<lparr>cmd_Name = w, cmd_Args = Fields rest\<rparr>"
proof -
  have ok: "\<forall>c \<in> set (''/'' @ w). c \<notin> space_bytes" using assms(2) by (simp add: printable_not_space)
  have "TrimSpace w = w" using assms by (intro TrimSpace_untouched) simp
  then have n: "normalizeSubmittedCommand \<lparr>cmd_Name = ''/'' @ w, cmd_Args = args\<rparr> = Ok \<lparr>cmd_Name = w, cmd_Args = args\<rparr>" for args
    using assms(1) by (simp add: normalizeSubmittedCommand_def TrimPrefix_def HasPrefix_def)
  show "normalizeSubmittedCommand (parseCommand (''/'' @ w)) = Ok \<lparr>cmd_Name = w, cmd_Args = []\<rparr>"
    using fields_word(2) [OF ok, of "[]"] n by (simp add: parseCommand_def Fields_def)
  show "normalizeSubmittedCommand (parseCommand (''/'' @ w @ '' '' @ rest)) = Ok \<lparr>cmd_Name = w, cmd_Args = Fields rest\<rparr>"
    using fields_word(1) [OF ok, of "[]" rest] n by (simp add: parseCommand_def Fields_def)
qed

definition unknown_names :: "string list" where
  "unknown_names = [''help'', ''status'', ''positions'', ''orders'', ''balance'', ''update'', ''exit'', ''config'', ''scan'']"

theorem suggestions_are_unknown:
  assumes "w \<in> set unknown_names"
  shows "(\<exists>line \<in> set suggested_commands. HasPrefix line (''/'' @ w)) \<and>
    normalizeSubmittedCommand (parseCommand (''/'' @ w @ '' '' @ rest)) = Ok \<lparr>cmd_Name = w, cmd_Args = Fields rest\<rparr> \<and>
    handler_Execute L show i \<lparr>cmd_Name = w, cmd_Args = args\<rparr> a = (a, Err (''unknown command: '' @ w))"
proof -
  have "\<forall>c \<in> set w. c \<notin> space_bytes" "w \<noteq> []"
    using assms by (auto simp: unknown_names_def printable_not_space)
  moreover have "\<exists>line \<in> set suggested_commands. HasPrefix line (''/'' @ w)"
    using assms by (auto simp: unknown_names_def suggested_commands_def HasPrefix_def)
  moreover have "handler_Execute L show i \<lparr>cmd_Name = w, cmd_Args = args\<rparr> a = (a, Err (''unknown command: '' @ w))"
    using assms by (auto simp: unknown_names_def handler_Execute_def)
  ultimately show ?thesis using normalize_printable(2) by blast
qed

text \<open>The log scrolls to the bottom with the height it was last drawn with: until the log view has been opened that is
  zero, so the view opens below its last entry and shows nothing.\<close>

theorem logs_open_blank:
  assumes "lv_height lv = 0" "lv_filterLevel lv = None" "lv_filterText lv = []"
  shows "visible_entries lower (log_SetSize w h (AddLog lower now level text lv)) = []"
  using assms by (simp add: visible_entries_def log_SetSize_def AddLog_def ScrollToBottom_def log_maxOffset_def getFilteredEntries_def Let_def)

text \<open>A late answer wins: the market view shows the answer that came last, for whichever symbol it was asked, so after a
  switch it can stay on the previous symbol with no question outstanding.\<close>

definition switched :: "'p agent_lib \<Rightarrow> 'p agent_svc \<Rightarrow> ('p, int, string) tui_sys" where
  "switched L a = press L KeyOther ''right'' (press L KeyOther ''f2'' (tui_start (plain_tui L) 0 a))"

definition both_answered :: "'p agent_lib \<Rightarrow> 'p agent_svc \<Rightarrow> ('p, int, string) tui_sys" where
  "both_answered L a =
     finish L (LoadMarketCmd ''BTCUSDT'') (MarketLoadedMsg (NewMarket ''BTCUSDT'')) a
       (finish L (LoadMarketCmd ''ETHUSDT'') (MarketLoadedMsg (NewMarket ''ETHUSDT'')) a (switched L a))"

lemma f2_state:
  assumes "\<not> tui_ready (ts_ui s)" "ts_running s"
  shows "\<not> tui_ready (ts_ui (press L KeyOther ''f2'' s))" "ts_running (press L KeyOther ''f2'' s)"
    "ts_pending (press L KeyOther ''f2'' s) = ts_pending s" "tui_currentView (ts_ui (press L KeyOther ''f2'' s)) = ViewMarket"
    "tui_activeSymbol (ts_ui (press L KeyOther ''f2'' s)) = tui_activeSymbol (ts_ui s)"
  using assms
  by (simp_all add: press_def tui_turn_def plain_tui_def tui_Update_def on_key_def switch_view_def SetActiveTab_def input_Update_def
      tui_View_def Let_def)

lemma right_state:
  assumes "\<not> tui_ready (ts_ui s)" "ts_running s" "tui_currentView (ts_ui s) = ViewMarket" "tui_activeSymbol (ts_ui s) = ''BTCUSDT''"
  shows "\<not> tui_ready (ts_ui (press L KeyOther ''right'' s))" "ts_running (press L KeyOther ''right'' s)"
    "ts_pending (press L KeyOther ''right'' s) = ts_pending s @ [LoadMarketCmd ''ETHUSDT'']"
    "tui_activeSymbol (ts_ui (press L KeyOther ''right'' s)) = ''ETHUSDT''"
  using assms
  by (simp_all add: press_def tui_turn_def plain_tui_def tui_Update_def on_key_def cycleNextSymbol_def market_symbols_def input_Update_def
      tui_View_def Let_def)

lemma market_state:
  assumes "\<not> tui_ready (ts_ui s)" "ts_running s"
  shows "\<not> tui_ready (ts_ui (finish L c (MarketLoadedMsg v) a s))" "ts_running (finish L c (MarketLoadedMsg v) a s)"
    "ts_pending (finish L c (MarketLoadedMsg v) a s) = remove1 c (ts_pending s)"
    "tui_activeSymbol (ts_ui (finish L c (MarketLoadedMsg v) a s)) = tui_activeSymbol (ts_ui s)"
    "tui_market (ts_ui (finish L c (MarketLoadedMsg v) a s)) = Some v" "ts_agent (finish L c (MarketLoadedMsg v) a s) = a"
  using assms
  by (simp_all add: finish_def tui_turn_def plain_tui_def tui_Update_def input_Update_def tui_View_def Let_def)

theorem late_market_answer_wins:
  fixes L :: "'p agent_lib"
  shows "\<exists>s :: ('p, int, string) tui_sys. tui_reach (plain_tui L) 0 a s \<and> tui_activeSymbol (ts_ui s) = ''ETHUSDT'' \<and>
    map_option mv_Symbol (tui_market (ts_ui s)) = Some ''BTCUSDT'' \<and> (\<forall>c \<in> set (ts_pending s). \<forall>x. c \<noteq> LoadMarketCmd x)"
proof -
  let ?s0 = "tui_start (plain_tui L) 0 a :: ('p, int, string) tui_sys"
  let ?s1 = "press L KeyOther ''f2'' ?s0" and ?s2 = "switched L a"
  let ?s3 = "finish L (LoadMarketCmd ''ETHUSDT'') (MarketLoadedMsg (NewMarket ''ETHUSDT'')) a ?s2"
  have s0: "\<not> tui_ready (ts_ui ?s0)" "ts_running ?s0" "tui_activeSymbol (ts_ui ?s0) = ''BTCUSDT''"
    "ts_pending ?s0 = tui_Init ''BTCUSDT''" "ts_agent ?s0 = a"
    by (simp_all add: tui_start_def tui_New_def)
  note s1 = f2_state [OF s0(1,2), of L]
  note s2 = right_state [OF s1(1,2,4), of L, unfolded s1(5), OF s0(3), folded switched_def]
  note s3 = market_state [OF s2(1,2), of L "LoadMarketCmd ''ETHUSDT''" "NewMarket ''ETHUSDT''" a]
  note s4 = market_state [OF s3(1,2), of L "LoadMarketCmd ''BTCUSDT''" "NewMarket ''BTCUSDT''" a, folded both_answered_def]
  have agent: "ts_agent ?s2 = a" by (simp add: switched_def press_def s0(5))
  have r2: "tui_reach (plain_tui L) 0 a ?s2"
    unfolding switched_def by (intro press_step s1(2) s0(2) rtranclp.rtrancl_refl)
  have r3: "tui_reach (plain_tui L) 0 a ?s3"
    by (rule finish_step [OF r2 s2(2), where i = sample_io and R = undefined])
      (simp_all add: s2(3) agent loaded_def GetMarket_def)
  have "tui_reach (plain_tui L) 0 a (both_answered L a)"
    unfolding both_answered_def
    by (rule finish_step [OF r3 s3(2), where i = sample_io and R = undefined])
      (simp_all add: s3(3,6) s2(3) s1(3) s0(4) tui_Init_def loaded_def GetMarket_def)
  moreover have "\<forall>c \<in> set (ts_pending (both_answered L a)). \<forall>x. c \<noteq> LoadMarketCmd x"
    by (simp add: s4(3) s3(3) s2(3) s1(3) s0(4) tui_Init_def)
  ultimately show ?thesis
    using s4(4,5) s3(4) s2(4) by (intro exI [of _ "both_answered L a"]) (simp add: NewMarket_def)
qed

end
