(* ===== verification/Console.thy ===== *)
theory Console
  imports Strategy_Builder Agent_Service
begin

text \<open>
  The command console, \<open>internal/controllers/tui\<close>: a line editor whose commands call the agent's service and the
  strategy builder. Texts of errors are parameters, as are the parsing of floats and decimals and the lower-casing of
  Unicode text; the order in which Go iterates over the maps of templates and instances is the environment's.
\<close>

subsection \<open>State\<close>

record console =
  co_input :: string
  co_history :: "string list"
  co_lines :: "string list"

record ('p, 'd) console_sys =
  cs_console :: console
  cs_agent :: "'p agent_svc"
  cs_builder :: "'d builder option"

text \<open>What the libraries decide, once for a run; \<open>pl_count\<close> is the length of a map.\<close>

record ('p, 'd) console_lib =
  pl_lower :: "string \<Rightarrow> string"
  pl_float :: "string \<Rightarrow> string + float64"
  pl_decimal :: "string \<Rightarrow> string + 'd"
  pl_int_error :: "string \<Rightarrow> string"
  pl_bool_error :: "string \<Rightarrow> string"
  pl_agent_error :: "agent_error \<Rightarrow> string"
  pl_builder_error :: "'d builder_error \<Rightarrow> string"
  pl_count :: "'d params \<Rightarrow> nat"
  pl_agent :: "'p agent_lib"

text \<open>What the environment decides during one command; the two orders are those in which Go walks the maps.\<close>

record console_env =
  ce_io :: io
  ce_now :: time
  ce_uuid :: string
  ce_export :: "string + string"
  ce_template_order :: "string list"
  ce_instance_order :: "string list"

definition appendLine :: "string \<Rightarrow> console \<Rightarrow> console" where
  "appendLine line c =
     (let ls = co_lines c @ [line]
      in c\<lparr>co_lines := (if length ls > 12 then drop (length ls - 12) ls else ls)\<rparr>)"

definition append_lines :: "string list \<Rightarrow> console \<Rightarrow> console" where
  "append_lines ls c = fold appendLine ls c"

subsection \<open>Parsing\<close>

definition ParseCommand :: "(string \<Rightarrow> string) \<Rightarrow> string \<Rightarrow> string \<times> string list" where
  "ParseCommand lower raw = (case Fields (TrimSpace raw) of [] \<Rightarrow> ([], []) | f # fs \<Rightarrow> (lower f, fs))"

text \<open>\<open>strconv.Atoi\<close>: an optional sign and decimal digits, within 64 bits.\<close>

definition is_digit :: "char \<Rightarrow> bool" where
  "is_digit c \<longleftrightarrow> 48 \<le> (of_char c :: nat) \<and> (of_char c :: nat) \<le> 57"

definition Atoi :: "string \<Rightarrow> int option" where
  "Atoi s =
     (let (sign, ds) = (case s of [] \<Rightarrow> (1, []) | c # cs \<Rightarrow> if c = CHR ''-'' then (- 1, cs) else if c = CHR ''+'' then (1, cs) else (1, s));
          n = sign * int (foldl (\<lambda>acc c. acc * 10 + (of_char c - 48)) 0 ds)
      in if ds = [] \<or> \<not> list_all is_digit ds \<or> n < - (2 ^ 63) \<or> n \<ge> 2 ^ 63 then None else Some n)"

text \<open>\<open>strconv.ParseBool\<close>.\<close>

definition ParseBool :: "string \<Rightarrow> bool option" where
  "ParseBool s =
     (if s \<in> {''1'', ''t'', ''T'', ''true'', ''TRUE'', ''True''} then Some True
      else if s \<in> {''0'', ''f'', ''F'', ''false'', ''FALSE'', ''False''} then Some False else None)"

fun type_string :: "parameter_type \<Rightarrow> string" where
  "type_string ParameterTypeInt = ''int''"
| "type_string ParameterTypeFloat = ''float''"
| "type_string ParameterTypeDecimal = ''decimal''"
| "type_string ParameterTypeString = ''string''"
| "type_string ParameterTypeBool = ''bool''"
| "type_string ParameterTypeEnum = ''enum''"
| "type_string (ParameterTypeOther s) = s"

definition parseParameterValue :: "('p, 'd) console_lib \<Rightarrow> parameter_type \<Rightarrow> string \<Rightarrow> string + 'd val" where
  "parseParameterValue P ty s =
     (case ty of
        ParameterTypeInt \<Rightarrow> (case Atoi s of None \<Rightarrow> Err (pl_int_error P s) | Some n \<Rightarrow> Ok (VInt n))
      | ParameterTypeFloat \<Rightarrow> and_then (pl_float P s) (\<lambda>x. Ok (VFloat x))
      | ParameterTypeDecimal \<Rightarrow> and_then (pl_decimal P s) (\<lambda>x. Ok (VDec x))
      | ParameterTypeString \<Rightarrow> Ok (VStr s)
      | ParameterTypeBool \<Rightarrow> (case ParseBool s of None \<Rightarrow> Err (pl_bool_error P s) | Some b \<Rightarrow> Ok (VBool b))
      | ParameterTypeEnum \<Rightarrow> Ok (VStr s)
      | ParameterTypeOther t \<Rightarrow> Err (''unsupported parameter type: '' @ type_string ty))"

text \<open>\<open>strings.SplitN(arg, ''='', 2)\<close>: \<open>None\<close> without the sign.\<close>

fun split_pair :: "string \<Rightarrow> (string \<times> string) option" where
  "split_pair [] = None"
| "split_pair (c # cs) =
     (if c = CHR ''='' then Some ([], cs) else map_option (\<lambda>(k, v). (c # k, v)) (split_pair cs))"

text \<open>The loop over the arguments: the line that reports the first bad one, or the parameters.\<close>

fun parse_args ::
  "('p, 'd) console_lib \<Rightarrow> 'd parameter_definition list \<Rightarrow> string list \<Rightarrow> 'd params \<Rightarrow> string + 'd params" where
  "parse_args P defs [] ps = Ok ps"
| "parse_args P defs (arg # rest) ps =
     (case split_pair arg of
        None \<Rightarrow> Err (''invalid parameter format: '' @ arg)
      | Some (k, v) \<Rightarrow>
          (case find (\<lambda>def. pd_Key def = k) defs of
             None \<Rightarrow> Err (''unknown parameter: '' @ k)
           | Some def \<Rightarrow>
               (case parseParameterValue P (pd_Type def) v of
                  Inl e \<Rightarrow> Err (''invalid value for '' @ k @ '': '' @ e)
                | Inr x \<Rightarrow> parse_args P defs rest (ps(k \<mapsto> x)))))"

definition short_id :: "string \<Rightarrow> string" where
  "short_id s = (if length s > 8 then take 8 s else s)"

subsection \<open>The strategy commands\<close>

text \<open>Every command gives the lines it appends and the builder; \<open>None\<close> is a panic of the builder.\<close>

type_synonym 'd strategy_result = "(string list \<times> 'd builder) option"

fun category_string :: "strategy_category \<Rightarrow> string" where
  "category_string CategoryTrend = ''trend''"
| "category_string CategoryMeanRevert = ''mean_revert''"
| "category_string CategoryMomentum = ''momentum''"
| "category_string CategoryBreakout = ''breakout''"
| "category_string CategoryArbitrage = ''arbitrage''"
| "category_string CategoryCustom = ''custom''"
| "category_string (CategoryOther s) = s"

definition enabled_text :: "'d strategy_instance \<Rightarrow> string" where
  "enabled_text si = (if si_Enabled si then ''enabled'' else ''disabled'')"

definition template_line :: "'d strategy_template \<Rightarrow> string" where
  "template_line t = ''  '' @ t_ID t @ '': '' @ t_Name t @ '' ('' @ category_string (t_Category t) @ '')''"

definition listing :: "string \<Rightarrow> string \<Rightarrow> ('a \<Rightarrow> string) \<Rightarrow> 'a list \<Rightarrow> string list" where
  "listing none some line xs = (if xs = [] then [none] else (some @ '' ('' @ nat_text (length xs) @ ''):'') # map line xs)"

definition handleStrategyTemplates :: "console_env \<Rightarrow> 'd builder \<Rightarrow> string list" where
  "handleStrategyTemplates V b =
     listing ''no templates available'' ''available templates'' template_line (List.map_filter (bd_library b) (ce_template_order V))"

definition instance_line :: "'d strategy_instance \<Rightarrow> string" where
  "instance_line si = ''  ['' @ short_id (si_ID si) @ ''] '' @ si_Name si @ '': '' @ si_TemplateID si @ '' on '' @ si_Symbol si @
     '' ('' @ enabled_text si @ '')''"

definition handleStrategyList :: "console_env \<Rightarrow> 'd builder \<Rightarrow> string list" where
  "handleStrategyList V b =
     listing ''no strategies configured'' ''configured strategies'' instance_line (List.map_filter (bd_instances b) (ce_instance_order V))"

definition builder_answer ::
  "('p, 'd) console_lib \<Rightarrow> string \<Rightarrow> ('a \<Rightarrow> string) \<Rightarrow> 'd builder \<times> ('d builder_error, 'a) outcome \<Rightarrow> 'd strategy_result" where
  "builder_answer P failed done r =
     (case snd r of
        Panic \<Rightarrow> None
      | Fail e \<Rightarrow> Some ([failed @ pl_builder_error P e], fst r)
      | Return x \<Rightarrow> Some ([done x], fst r))"

text \<open>The description reads a value of the context that nobody sets; this is what \<open>fmt\<close> prints for it.\<close>

definition handleStrategyCreate ::
  "('p, 'd::linordered_idom) console_lib \<Rightarrow> console_env \<Rightarrow> string list \<Rightarrow> 'd builder \<Rightarrow> 'd strategy_result" where
  "handleStrategyCreate P V args b =
     (case args of
        tid # name # symbol # rest \<Rightarrow>
          (case lib_GetTemplate (bd_library b) tid of
             Inl e \<Rightarrow> Some ([''failed to get template: '' @ pl_builder_error P e], b)
           | Inr t \<Rightarrow>
               (case parse_args P (t_Parameters t) rest Map.empty of
                  Inl line \<Rightarrow> Some ([line], b)
                | Inr ps \<Rightarrow>
                    builder_answer P ''failed to create strategy: ''
                      (\<lambda>si. ''strategy created: '' @ si_Name si @ '' ('' @ short_id (si_ID si) @ '')'')
                      (CreateInstance (ce_uuid V) (ce_now V)
                        \<lparr>cr_TemplateID = tid, cr_Name = name, cr_Description = ''Created via TUI at %!s(<nil>)'',
                         cr_Symbol = symbol, cr_Parameters = ps\<rparr> b)))
      | _ \<Rightarrow> Some ([''usage: /strategy create <template_id> <name> <symbol> [param=value...]''], b))"

definition handleStrategyShow :: "('p, 'd) console_lib \<Rightarrow> string list \<Rightarrow> 'd builder \<Rightarrow> string list" where
  "handleStrategyShow P args b =
     (case args of
        [] \<Rightarrow> [''usage: /strategy show <instance_id>'']
      | iid # _ \<Rightarrow>
          (case GetInstance iid b of
             Inl e \<Rightarrow> [''failed to get strategy: '' @ pl_builder_error P e]
           | Inr si \<Rightarrow>
               [''strategy: '' @ si_Name si, ''  id: '' @ si_ID si, ''  template: '' @ si_TemplateID si,
                ''  symbol: '' @ si_Symbol si, ''  status: '' @ enabled_text si,
                ''  parameters: '' @ nat_text (pl_count P (si_Parameters si)) @ '' configured'',
                ''  indicators: '' @ nat_text (length (si_Indicators si)), ''  rules: '' @ nat_text (length (si_Rules si))]))"

definition handleStrategyUpdate ::
  "('p, 'd::linordered_idom) console_lib \<Rightarrow> console_env \<Rightarrow> string list \<Rightarrow> 'd builder \<Rightarrow> 'd strategy_result" where
  "handleStrategyUpdate P V args b =
     (case args of
        iid # arg # rest \<Rightarrow>
          (case GetInstance iid b of
             Inl e \<Rightarrow> Some ([''failed to get strategy: '' @ pl_builder_error P e], b)
           | Inr si \<Rightarrow>
               (case lib_GetTemplate (bd_library b) (si_TemplateID si) of
                  Inl e \<Rightarrow> Some ([''failed to get template: '' @ pl_builder_error P e], b)
                | Inr t \<Rightarrow>
                    (case parse_args P (t_Parameters t) (arg # rest) Map.empty of
                       Inl line \<Rightarrow> Some ([line], b)
                     | Inr ps \<Rightarrow>
                         builder_answer P ''failed to update strategy: '' (\<lambda>_. ''strategy updated: '' @ short_id iid)
                           (UpdateInstance iid (ce_now V)
                             \<lparr>up_Name = None, up_Description = None, up_Symbol = None, up_Enabled = None, up_Parameters = Some ps\<rparr> b))))
      | _ \<Rightarrow> Some ([''usage: /strategy update <instance_id> <param=value...>''], b))"

text \<open>Enabling, disabling and deleting share their shape.\<close>

definition on_instance ::
  "('p, 'd) console_lib \<Rightarrow> string \<Rightarrow> string \<Rightarrow> (string \<Rightarrow> 'd builder \<Rightarrow> 'd builder_error + 'd builder) \<Rightarrow> string list \<Rightarrow> 'd builder \<Rightarrow>
   string list \<times> 'd builder" where
  "on_instance P verb past f args b =
     (case args of
        [] \<Rightarrow> ([''usage: /strategy '' @ verb @ '' <instance_id>''], b)
      | iid # _ \<Rightarrow>
          (case f iid b of
             Inl e \<Rightarrow> ([''failed to '' @ verb @ '' strategy: '' @ pl_builder_error P e], b)
           | Inr b' \<Rightarrow> ([''strategy '' @ past @ '': '' @ short_id iid], b')))"

definition handleStrategyCommand ::
  "('p, 'd::linordered_idom) console_lib \<Rightarrow> console_env \<Rightarrow> string list \<Rightarrow> 'd builder \<Rightarrow> 'd strategy_result" where
  "handleStrategyCommand P V args b =
     (case args of
        [] \<Rightarrow> Some ([''usage: /strategy <list|templates|create|update|enable|disable|delete|show>''], b)
      | sub # rest \<Rightarrow>
          if sub = ''templates'' then Some (handleStrategyTemplates V b, b)
          else if sub = ''list'' then Some (handleStrategyList V b, b)
          else if sub = ''create'' then handleStrategyCreate P V rest b
          else if sub = ''show'' then Some (handleStrategyShow P rest b, b)
          else if sub = ''update'' then handleStrategyUpdate P V rest b
          else if sub = ''enable'' then Some (on_instance P ''enable'' ''enabled'' (\<lambda>iid. EnableInstance iid (ce_now V)) rest b)
          else if sub = ''disable'' then Some (on_instance P ''disable'' ''disabled'' (\<lambda>iid. DisableInstance iid (ce_now V)) rest b)
          else if sub = ''delete'' then Some (on_instance P ''delete'' ''deleted'' DeleteInstance rest b)
          else Some ([''unknown strategy subcommand: '' @ sub], b))"

subsection \<open>The commands of the agent\<close>

definition report :: "('p, 'd) console_lib \<Rightarrow> string \<Rightarrow> string \<Rightarrow> 'p agent_result \<Rightarrow> string \<times> 'p agent_svc" where
  "report P failed done r = (case r of (a, Inl e) \<Rightarrow> (failed @ pl_agent_error P e, a) | (a, Inr _) \<Rightarrow> (done, a))"

definition set_command ::
  "('p, 'd) console_lib \<Rightarrow> console_env \<Rightarrow> string \<Rightarrow> string list \<Rightarrow> 'p agent_svc \<Rightarrow> string \<times> 'p agent_svc" where
  "set_command P V verb args a =
     (case args of
        key # v # vs \<Rightarrow>
          report P (verb @ '' failed: '') (''config updated: '' @ key @ '' = '' @ joined (CHR '' '') (v # vs))
            (service_UpdateConfig (pl_agent P) key (CVString (joined (CHR '' '') (v # vs))) (ce_io V) a)
      | _ \<Rightarrow> (''usage: /'' @ verb @ '' <key> <value>'', a))"

definition start_command ::
  "('p, 'd) console_lib \<Rightarrow> console_env \<Rightarrow> string list \<Rightarrow> 'p agent_svc \<Rightarrow> string \<times> 'p agent_svc" where
  "start_command P V args a =
     (case args of
        [] \<Rightarrow> (''usage: /start paper|live'', a)
      | mode # _ \<Rightarrow>
          if mode = ''paper'' then report P [] ''paper trading started'' (StartPaper (ce_io V) a)
          else if mode = ''live'' then report P [] ''live trading started'' (StartLive (pl_agent P) (ce_io V) a)
          else (''usage: /start paper|live'', a))"

definition export_command :: "console_env \<Rightarrow> string list \<Rightarrow> string" where
  "export_command V args =
     (if args = [''csv''] then (case ce_export V of Inl e \<Rightarrow> ''export failed: '' @ e | Inr path \<Rightarrow> ''csv export written to '' @ path)
      else ''usage: /export csv'')"

definition help_text :: "bool \<Rightarrow> string" where
  "help_text with_builder =
     ''commands: /help /scan /start paper /start live /backtest /stopall /export csv /set <key> <value> /update <key> <value>'' @
     (if with_builder then '' /strategy <list|templates|create|update|enable|disable|delete|show>'' else [])"

definition handleCommand ::
  "('p, 'd::linordered_idom) console_lib \<Rightarrow> console_env \<Rightarrow> string \<Rightarrow> ('p, 'd) console_sys \<Rightarrow> ('p, 'd) console_sys option" where
  "handleCommand P V raw s =
     (let (name, args) = ParseCommand (pl_lower P) raw;
          say = (\<lambda>ls s. s\<lparr>cs_console := append_lines ls (cs_console s)\<rparr>);
          agent = (\<lambda>(line, a). Some (say [line] (s\<lparr>cs_agent := a\<rparr>)))
      in if name = ''/help'' then Some (say [help_text (cs_builder s \<noteq> None)] s)
         else if name = ''/strategy'' then
           (case cs_builder s of
              None \<Rightarrow> Some (say [''strategy builder not available''] s)
            | Some b \<Rightarrow>
                (case handleStrategyCommand P V args b of
                   None \<Rightarrow> None
                 | Some (ls, b') \<Rightarrow> Some (say ls (s\<lparr>cs_builder := Some b'\<rparr>))))
         else if name = ''/scan'' then agent (report P [] ''scanner enabled'' (StartScan (ce_io V) (cs_agent s)))
         else if name = ''/start'' then agent (start_command P V args (cs_agent s))
         else if name = ''/backtest'' then agent (report P [] ''backtest job queued'' (QueueBacktest (ce_io V) (cs_agent s)))
         else if name = ''/stopall'' then agent (report P [] ''runtime returned to idle'' (StopAll (ce_io V) (cs_agent s)))
         else if name = ''/export'' then Some (say [export_command V args] s)
         else if name = ''/set'' then agent (set_command P V ''set'' args (cs_agent s))
         else if name = ''/update'' then agent (set_command P V ''update'' args (cs_agent s))
         else Some (say [''unknown command''] s))"

subsection \<open>Keys\<close>

datatype console_key = CKeyCtrlC | CKeyEnter | CKeyBackspace | CKeyOther string

text \<open>The outer \<open>None\<close> is a panic; the inner \<open>None\<close> quits. The new line is cut off at twelve only with the next one.\<close>

definition console_Update ::
  "('p, 'd::linordered_idom) console_lib \<Rightarrow> console_env \<Rightarrow> console_key \<Rightarrow> ('p, 'd) console_sys \<Rightarrow> ('p, 'd) console_sys option option" where
  "console_Update P V k s =
     (let c = cs_console s in
      case k of
        CKeyCtrlC \<Rightarrow> Some None
      | CKeyEnter \<Rightarrow>
          (let command = TrimSpace (co_input c) in
           if command = [] then Some (Some (s\<lparr>cs_console := c\<lparr>co_input := []\<rparr>\<rparr>))
           else map_option Some (handleCommand P V command
             (s\<lparr>cs_console := c\<lparr>co_input := [], co_history := co_history c @ [command], co_lines := co_lines c @ [''> '' @ command]\<rparr>\<rparr>)))
      | CKeyBackspace \<Rightarrow> Some (Some (s\<lparr>cs_console := c\<lparr>co_input := butlast (co_input c)\<rparr>\<rparr>))
      | CKeyOther text \<Rightarrow> Some (Some (s\<lparr>cs_console := c\<lparr>co_input := co_input c @ text\<rparr>\<rparr>)))"

definition console_New :: "'p agent_svc \<Rightarrow> 'd builder option \<Rightarrow> ('p, 'd) console_sys" where
  "console_New a b =
     \<lparr>cs_console = \<lparr>co_input = [], co_history = [],
        co_lines = [''Kairos command center ready. Type /help to see available commands.'']\<rparr>, cs_agent = a, cs_builder = b\<rparr>"

text \<open>The orders go through each map once.\<close>

definition console_walk :: "console_env \<Rightarrow> 'd builder option \<Rightarrow> bool" where
  "console_walk V b =
     (case b of None \<Rightarrow> True
      | Some b \<Rightarrow> distinct (ce_template_order V) \<and> set (ce_template_order V) = dom (bd_library b) \<and>
          distinct (ce_instance_order V) \<and> set (ce_instance_order V) = dom (bd_instances b))"

inductive console_step ::
  "('p, 'd::linordered_idom) console_lib \<Rightarrow> ('p, 'd) console_sys \<Rightarrow> ('p, 'd) console_sys \<Rightarrow> bool" for P where
  console_key: "console_walk V (cs_builder s) \<Longrightarrow> console_Update P V k s = Some (Some t) \<Longrightarrow> console_step P s t"


subsection \<open>The console and its services\<close>

lemma appendLine_fields [simp]: "co_history (appendLine line c) = co_history c" "co_input (appendLine line c) = co_input c"
  by (simp_all add: appendLine_def Let_def)

lemma appendLine_length: "length (co_lines (appendLine line c)) \<le> 12"
  by (simp add: appendLine_def Let_def)

lemma append_lines_simps [simp]:
  "append_lines [] c = c" "append_lines (l # ls) c = append_lines ls (appendLine l c)"
  by (simp_all add: append_lines_def)

lemma append_lines_history [simp]: "co_history (append_lines ls c) = co_history c"
  by (induction ls arbitrary: c) simp_all

lemma append_lines_length: "ls \<noteq> [] \<or> length (co_lines c) \<le> 12 \<Longrightarrow> length (co_lines (append_lines ls c)) \<le> 12"
  by (induction ls arbitrary: c) (simp_all add: appendLine_length)

lemma listing_lines [simp]: "listing none some line xs \<noteq> []"
  by (simp add: listing_def)

text \<open>What a typed line calls on the agent's service.\<close>

definition line_call :: "string \<times> string list \<Rightarrow> io \<Rightarrow> agent_call option" where
  "line_call cmd i =
     (case cmd of (name, args) \<Rightarrow>
        if name = ''/scan'' then Some (CallScan i)
        else if name = ''/start'' then
          (case args of [] \<Rightarrow> None | mode # _ \<Rightarrow>
             if mode = ''paper'' then Some (CallPaper i) else if mode = ''live'' then Some (CallLive i) else None)
        else if name = ''/backtest'' then Some (CallBacktest i)
        else if name = ''/stopall'' then Some (CallStop i)
        else if name = ''/set'' \<or> name = ''/update'' then
          (case args of k # v # vs \<Rightarrow> Some (CallUpdateConfig k (CVString (joined (CHR '' '') (v # vs))) i) | _ \<Rightarrow> None)
        else None)"

definition call_of_line :: "('p, 'd) console_lib \<Rightarrow> string \<times> io \<Rightarrow> agent_call option" where
  "call_of_line P entry = line_call (ParseCommand (pl_lower P) (fst entry)) (snd entry)"

lemma report_agent [simp]: "snd (report P failed done r) = fst r"
  by (simp add: report_def split: prod.splits sum.splits)

definition call_effect :: "('p, 'd) console_lib \<Rightarrow> agent_call option \<Rightarrow> 'p agent_svc \<Rightarrow> 'p agent_svc" where
  "call_effect P c a = (case c of None \<Rightarrow> a | Some c \<Rightarrow> agent_apply (pl_agent P) c a)"

lemma call_effect_simps [simp]:
  "call_effect P None a = a" "call_effect P (Some c) a = agent_apply (pl_agent P) c a"
  by (simp_all add: call_effect_def)

lemma line_call_simps [simp]:
  "line_call (''/scan'', args) i = Some (CallScan i)"
  "line_call (''/backtest'', args) i = Some (CallBacktest i)"
  "line_call (''/stopall'', args) i = Some (CallStop i)"
  "line_call (''/start'', []) i = None"
  "line_call (''/start'', mode # rest) i =
     (if mode = ''paper'' then Some (CallPaper i) else if mode = ''live'' then Some (CallLive i) else None)"
  by (simp_all add: line_call_def)

lemma line_call_set [simp]:
  "verb = ''/set'' \<or> verb = ''/update'' \<Longrightarrow> line_call (verb, []) i = None"
  "verb = ''/set'' \<or> verb = ''/update'' \<Longrightarrow> line_call (verb, [k]) i = None"
  "verb = ''/set'' \<or> verb = ''/update'' \<Longrightarrow> line_call (verb, k # v # vs) i = Some (CallUpdateConfig k (CVString (joined (CHR '' '') (v # vs))) i)"
  by (auto simp: line_call_def simp del: joined.simps)

lemma line_call_others [simp]:
  "name \<notin> {''/scan'', ''/start'', ''/backtest'', ''/stopall'', ''/set'', ''/update''} \<Longrightarrow> line_call (name, args) i = None"
  by (simp add: line_call_def)

lemma args_cases: "P [] \<Longrightarrow> (\<And>k. P [k]) \<Longrightarrow> (\<And>k v vs. P (k # v # vs)) \<Longrightarrow> P args"
  by (metis list.exhaust)

lemma set_command_agent:
  "name = ''/set'' \<or> name = ''/update'' \<Longrightarrow> snd (set_command P V verb args a) = call_effect P (line_call (name, args) (ce_io V)) a"
  by (induction args rule: args_cases) (simp_all add: set_command_def del: joined.simps)

lemma start_command_agent:
  "snd (start_command P V args a) = call_effect P (line_call (''/start'', args) (ce_io V)) a"
  by (cases args) (simp_all add: start_command_def)

text \<open>Every strategy command prints a line, and is at most one operation of the builder.\<close>

definition one_builder_call :: "'d::linordered_idom builder \<Rightarrow> 'd strategy_result \<Rightarrow> bool" where
  "one_builder_call b r = (\<forall>ls b'. r = Some (ls, b') \<longrightarrow> ls \<noteq> [] \<and> (b' = b \<or> (\<exists>op. b' = builder_step op b)))"

lemma lines_only_call: "ls \<noteq> [] \<Longrightarrow> one_builder_call b (Some (ls, b))"
  by (simp add: one_builder_call_def)

lemma answer_call: "fst r = builder_step op b \<Longrightarrow> one_builder_call b (builder_answer P failed done r)"
  by (auto simp: one_builder_call_def builder_answer_def split: outcome.splits)

lemma create_call: "one_builder_call b (handleStrategyCreate P V args b)"
  unfolding handleStrategyCreate_def
  by (simp add: lines_only_call answer_call [OF builder_step.simps(1) [symmetric]] split: list.split sum.split)

lemma update_call: "one_builder_call b (handleStrategyUpdate P V args b)"
  unfolding handleStrategyUpdate_def
  by (simp add: lines_only_call answer_call [OF builder_step.simps(2) [symmetric]] split: list.split sum.split)

lemma on_instance_call:
  assumes "\<And>iid b'. f iid b = Inr b' \<Longrightarrow> \<exists>op. b' = builder_step op b"
  shows "one_builder_call b (Some (on_instance P verb past f args b))"
  using assms unfolding on_instance_def one_builder_call_def by (auto split: list.splits sum.splits)

lemma enable_call: "EnableInstance iid n b = Inr b' \<Longrightarrow> \<exists>op. b' = builder_step op b"
  by (intro exI [of _ "BuilderEnable iid n"]) simp

lemma disable_call: "DisableInstance iid n b = Inr b' \<Longrightarrow> \<exists>op. b' = builder_step op b"
  by (intro exI [of _ "BuilderDisable iid n"]) simp

lemma delete_call: "DeleteInstance iid b = Inr b' \<Longrightarrow> \<exists>op. b' = builder_step op b"
  by (intro exI [of _ "BuilderDelete iid"]) simp

lemma strategy_call: "one_builder_call b (handleStrategyCommand P V args b)"
proof (cases args)
  case Nil
  then show ?thesis by (simp add: handleStrategyCommand_def lines_only_call)
next
  case (Cons sub rest)
  have shown: "handleStrategyShow P rest b \<noteq> []"
    by (simp add: handleStrategyShow_def split: list.splits sum.splits)
  show ?thesis
    by (simp add: Cons handleStrategyCommand_def lines_only_call create_call update_call shown handleStrategyTemplates_def
        handleStrategyList_def)
      (auto intro!: on_instance_call intro: enable_call disable_call delete_call)
qed

definition command_ok :: "('p, 'd::linordered_idom) console_lib \<Rightarrow> agent_call option \<Rightarrow> ('p, 'd) console_sys \<Rightarrow> ('p, 'd) console_sys \<Rightarrow> bool" where
  "command_ok P c s t \<longleftrightarrow>
     cs_agent t = call_effect P c (cs_agent s) \<and>
     (\<exists>ops. cs_builder t = map_option (builder_run ops) (cs_builder s)) \<and>
     length (co_lines (cs_console t)) \<le> 12 \<and> co_history (cs_console t) = co_history (cs_console s)"

lemma builder_kept: "\<exists>ops. b = map_option (builder_run ops) b"
  by (intro exI [of _ "[]"]) (cases b, simp_all add: builder_run_def)

lemma builder_stepped: "\<exists>ops. builder_step op b = builder_run ops b"
  by (intro exI [of _ "[op]"]) (simp add: builder_run_def)

lemma said_ok [simp]:
  "command_ok P c s (s\<lparr>cs_agent := a', cs_console := appendLine l (cs_console s)\<rparr>) \<longleftrightarrow> a' = call_effect P c (cs_agent s)"
  "command_ok P c s (s\<lparr>cs_console := appendLine l (cs_console s)\<rparr>) \<longleftrightarrow> cs_agent s = call_effect P c (cs_agent s)"
  by (auto simp: command_ok_def appendLine_length builder_kept)

lemma strategy_ok:
  assumes "cs_builder s = Some b" "handleStrategyCommand P V args b = Some (ls, b')"
  shows "command_ok P None s (s\<lparr>cs_builder := Some b', cs_console := append_lines ls (cs_console s)\<rparr>)"
proof -
  have "ls \<noteq> []" "b' = b \<or> (\<exists>op. b' = builder_step op b)"
    using strategy_call [of b P V args] assms(2) by (auto simp: one_builder_call_def)
  then show ?thesis
    using assms(1) builder_kept [of "Some b"] builder_stepped [of _ b] by (auto simp: command_ok_def append_lines_length)
qed

lemma handleCommand_ok:
  assumes "handleCommand P V raw s = Some t"
  shows "command_ok P (line_call (ParseCommand (pl_lower P) raw) (ce_io V)) s t"
proof -
  obtain name args where cmd: "ParseCommand (pl_lower P) raw = (name, args)" by fastforce
  note run = assms [unfolded handleCommand_def Let_def cmd case_prod_beta, simplified]
  consider "name = ''/strategy''" | "name = ''/scan''" | "name = ''/start''" | "name = ''/backtest''" | "name = ''/stopall''"
    | "name = ''/set'' \<or> name = ''/update''"
    | "name \<noteq> ''/strategy'' \<and> name \<noteq> ''/scan'' \<and> name \<noteq> ''/start'' \<and> name \<noteq> ''/backtest'' \<and> name \<noteq> ''/stopall'' \<and>
       name \<noteq> ''/set'' \<and> name \<noteq> ''/update''"
    by argo
  then show ?thesis
  proof cases
    case 1
    show ?thesis
    proof (cases "cs_builder s")
      case None
      then have "t = s\<lparr>cs_console := appendLine ''strategy builder not available'' (cs_console s)\<rparr>" using 1 run by simp
      then show ?thesis using 1 by (simp add: cmd)
    next
      case (Some b)
      then show ?thesis
      proof (cases "handleStrategyCommand P V args b")
        case None
        then show ?thesis using 1 Some run by simp
      next
        case r: (Some r)
        then show ?thesis using 1 Some run strategy_ok [of s b P V args "fst r" "snd r"] by (simp add: cmd)
      qed
    qed
  next
    case 3
    then have "t = s\<lparr>cs_agent := snd (start_command P V args (cs_agent s)),
        cs_console := appendLine (fst (start_command P V args (cs_agent s))) (cs_console s)\<rparr>"
      using run by simp
    then show ?thesis using 3 by (simp add: cmd start_command_agent)
  next
    case 6
    then obtain verb where "t = s\<lparr>cs_agent := snd (set_command P V verb args (cs_agent s)),
        cs_console := appendLine (fst (set_command P V verb args (cs_agent s))) (cs_console s)\<rparr>"
      using run by auto
    then show ?thesis using 6 by (simp add: cmd set_command_agent [OF 6])
  next
    case 7
    then obtain l where "t = s\<lparr>cs_console := appendLine l (cs_console s)\<rparr>"
      using run by (auto split: if_splits)
    then show ?thesis using 7 by (simp add: cmd)
  qed (use run in \<open>auto simp: cmd\<close>)
qed

subsection \<open>The console replays its history\<close>

definition history_calls :: "('p, 'd) console_lib \<Rightarrow> string list \<Rightarrow> io list \<Rightarrow> agent_call list" where
  "history_calls P hs ios = List.map_filter (call_of_line P) (zip hs ios)"

lemma history_calls_snoc:
  "length hs = length ios \<Longrightarrow>
   agent_history L (history_calls P (hs @ [h]) (ios @ [i])) a =
     (case line_call (ParseCommand (pl_lower P) h) i of
        None \<Rightarrow> agent_history L (history_calls P hs ios) a
      | Some c \<Rightarrow> agent_apply L c (agent_history L (history_calls P hs ios) a))"
  by (auto simp: history_calls_def List.map_filter_def call_of_line_def split: option.split)

definition replays :: "('p, 'd::linordered_idom) console_lib \<Rightarrow> 'p agent_svc \<Rightarrow> 'd builder option \<Rightarrow> ('p, 'd) console_sys \<Rightarrow> bool" where
  "replays P a b s \<longleftrightarrow>
     (\<exists>ios. length ios = length (co_history (cs_console s)) \<and>
        cs_agent s = agent_history (pl_agent P) (history_calls P (co_history (cs_console s)) ios) a) \<and>
     (\<exists>ops. cs_builder s = map_option (builder_run ops) b) \<and> length (co_lines (cs_console s)) \<le> 12"

lemma builder_run_chain: "x = map_option (builder_run ops) y \<Longrightarrow> y = map_option (builder_run ops') z \<Longrightarrow> x = map_option (builder_run (ops' @ ops)) z"
  by (cases z) (simp_all add: builder_run_def)

lemma replays_command:
  assumes "replays P a b s" "command_ok P (line_call (ParseCommand (pl_lower P) h) i) (s\<lparr>cs_console := c\<rparr>) t"
    "co_history c = co_history (cs_console s) @ [h]"
  shows "replays P a b t"
proof -
  obtain ios ops where s: "length ios = length (co_history (cs_console s))"
      "cs_agent s = agent_history (pl_agent P) (history_calls P (co_history (cs_console s)) ios) a"
      "cs_builder s = map_option (builder_run ops) b"
    using assms(1) by (auto simp: replays_def)
  obtain ops' where t: "cs_builder t = map_option (builder_run ops') (cs_builder s)"
    using assms(2) by (auto simp: command_ok_def)
  have "cs_agent t = agent_history (pl_agent P) (history_calls P (co_history (cs_console t)) (ios @ [i])) a"
    using assms(2,3) s(1,2) by (simp add: command_ok_def history_calls_snoc call_effect_def)
  moreover have "length (ios @ [i]) = length (co_history (cs_console t))" "length (co_lines (cs_console t)) \<le> 12"
    using assms(2,3) s(1) by (simp_all add: command_ok_def)
  ultimately show ?thesis
    using builder_run_chain [OF t s(3)] unfolding replays_def by blast
qed

lemma replays_edit:
  "replays P a b s \<Longrightarrow> co_history c = co_history (cs_console s) \<Longrightarrow> co_lines c = co_lines (cs_console s) \<Longrightarrow>
   replays P a b (s\<lparr>cs_console := c\<rparr>)"
  by (simp add: replays_def)

lemma replays_step:
  assumes "console_step P s t" "replays P a b s"
  shows "replays P a b t"
  using assms(1)
proof cases
  case (console_key V k)
  show ?thesis
  proof (cases k)
    case CKeyEnter
    show ?thesis
    proof (cases "TrimSpace (co_input (cs_console s)) = []")
      case True
      then show ?thesis using console_key(2) CKeyEnter replays_edit [OF assms(2)] by (auto simp: console_Update_def)
    next
      case False
      let ?c = "(cs_console s)\<lparr>co_input := [], co_history := co_history (cs_console s) @ [TrimSpace (co_input (cs_console s))],
          co_lines := co_lines (cs_console s) @ [''> '' @ TrimSpace (co_input (cs_console s))]\<rparr>"
      have "handleCommand P V (TrimSpace (co_input (cs_console s))) (s\<lparr>cs_console := ?c\<rparr>) = Some t"
        using console_key(2) CKeyEnter False by (simp add: console_Update_def Let_def)
      from replays_command [OF assms(2) handleCommand_ok [OF this]] show ?thesis by simp
    qed
  qed (use console_key(2) replays_edit [OF assms(2)] in \<open>auto simp: console_Update_def Let_def\<close>)
qed

lemma replays_New: "replays P a b (console_New a b)"
  using builder_kept [of b] by (simp add: replays_def console_New_def history_calls_def)

lemma replays_reach: "(console_step P)\<^sup>*\<^sup>* (console_New a b) t \<Longrightarrow> replays P a b t"
  by (induction rule: rtranclp_induct) (blast intro: replays_New replays_step)+

lemma history_goes_live:
  "agent_mode a \<noteq> RunModeLiveTrading \<Longrightarrow> agent_mode (agent_history L cs a) = RunModeLiveTrading \<Longrightarrow> \<exists>i. CallLive i \<in> set cs"
proof (induction cs arbitrary: a)
  case (Cons c cs)
  then show ?case using agent_apply_live [of L c a] by (cases "agent_mode (agent_apply L c a) = RunModeLiveTrading") auto
qed simp

lemma line_call_live: "line_call (name, args) i = Some (CallLive j) \<Longrightarrow> \<exists>rest. (name, args) = (''/start'', ''live'' # rest)"
  unfolding line_call_def by (simp split: if_splits list.splits)

lemma history_calls_live:
  assumes "CallLive i \<in> set (history_calls P hs ios)"
  shows "\<exists>line \<in> set hs. \<exists>rest. ParseCommand (pl_lower P) line = (''/start'', ''live'' # rest)"
proof -
  obtain line j where l: "(line, j) \<in> set (zip hs ios)" "line_call (ParseCommand (pl_lower P) line) j = Some (CallLive i)"
    using assms by (auto simp: history_calls_def List.map_filter_def call_of_line_def)
  obtain name args where "ParseCommand (pl_lower P) line = (name, args)" by fastforce
  then show ?thesis using l line_call_live [of name args j i] set_zip_leftD [OF l(1)] by auto
qed

text \<open>C14: the console changes the agent and the strategies by what was typed, and by nothing else. After any session the
  agent's service is the one that started, with the calls that the lines of the history stand for made on it in that
  order, so it trades live only after a line \<open>/start live\<close>; a strategy in the builder still belongs to a
  template and passes its checks; and the window holds at most twelve lines.\<close>

theorem console_replays_its_history:
  assumes "(console_step P)\<^sup>*\<^sup>* (console_New a (Some b)) t"
    and "builder_inv lib b" "agent_mode a \<noteq> RunModeLiveTrading"
  shows "(\<exists>ios. length ios = length (co_history (cs_console t)) \<and>
        cs_agent t = agent_history (pl_agent P) (history_calls P (co_history (cs_console t)) ios) a) \<and>
     (agent_mode (cs_agent t) = RunModeLiveTrading \<longrightarrow>
        (\<exists>line \<in> set (co_history (cs_console t)). \<exists>rest. ParseCommand (pl_lower P) line = (''/start'', ''live'' # rest))) \<and>
     (\<exists>b'. cs_builder t = Some b' \<and> builder_inv lib b') \<and>
     length (co_lines (cs_console t)) \<le> 12"
proof -
  note r = replays_reach [OF assms(1), unfolded replays_def]
  obtain ios where ios: "length ios = length (co_history (cs_console t))"
      "cs_agent t = agent_history (pl_agent P) (history_calls P (co_history (cs_console t)) ios) a"
    using r by blast
  have "\<exists>line \<in> set (co_history (cs_console t)). \<exists>rest. ParseCommand (pl_lower P) line = (''/start'', ''live'' # rest)"
    if "agent_mode (cs_agent t) = RunModeLiveTrading"
    using that history_goes_live [OF assms(3)] history_calls_live ios(2) by metis
  moreover have "\<exists>b'. cs_builder t = Some b' \<and> builder_inv lib b'"
    using r builder_run_inv [OF assms(2)] by auto
  ultimately show ?thesis using ios r by blast
qed

definition plain_console :: "'p agent_lib \<Rightarrow> ('p, 'd) console_lib" where
  "plain_console L =
     \<lparr>pl_lower = id, pl_float = (\<lambda>_. Err ''float''), pl_decimal = (\<lambda>_. Err ''decimal''), pl_int_error = id, pl_bool_error = id,
      pl_agent_error = (\<lambda>_. ''error''), pl_builder_error = (\<lambda>_. ''error''), pl_count = (\<lambda>_. 0), pl_agent = L\<rparr>"

lemma plain_console_simps [simp]:
  "pl_lower (plain_console L) = id" "pl_agent (plain_console L) = L"
  by (simp_all add: plain_console_def)

definition plain_walk :: console_env where
  "plain_walk = \<lparr>ce_io = sample_io, ce_now = 0, ce_uuid = ''u1'', ce_export = Err ''disk'',
     ce_template_order = [''sma_crossover'', ''rsi_mean_revert''], ce_instance_order = []\<rparr>"

lemma plain_walk_ok: "console_walk plain_walk (Some (builder_NewService D))"
  by (auto simp: console_walk_def plain_walk_def builder_NewService_def NewTemplateLibrary_def dom_def split: if_splits)

lemma typed_live:
  "TrimSpace ''/start live'' = ''/start live''" "Fields ''/start live'' = [''/start'', ''live'']"
proof -
  show "TrimSpace ''/start live'' = ''/start live''" by (rule TrimSpace_untouched) (simp add: printable_not_space)
  have "Fields (''/start'' @ '' '' @ ''live'') = [''/start'', ''live'']"
    by (rule fields_pair) (simp_all add: printable_not_space)
  then show "Fields ''/start live'' = [''/start'', ''live'']" by simp
qed

lemma console_replays_its_history_witness:
  "\<exists>t. (console_step (plain_console sample_lib))\<^sup>*\<^sup>* (console_New (sample_agent LicenseStateDemo) (Some (builder_NewService rat_dec))) t \<and>
     agent_mode (cs_agent t) = RunModeLiveTrading \<and>
     (\<exists>line \<in> set (co_history (cs_console t)). \<exists>rest. ParseCommand id line = (''/start'', ''live'' # rest))"
proof -
  let ?P = "plain_console sample_lib :: (string, rat) console_lib" and ?b = "builder_NewService rat_dec"
  let ?s0 = "console_New (sample_agent LicenseStateDemo) (Some ?b)"
  let ?s1 = "?s0\<lparr>cs_console := (cs_console ?s0)\<lparr>co_input := ''/start live''\<rparr>\<rparr>"
  have 1: "console_step ?P ?s0 ?s1"
    by (rule console_step.intros [of plain_walk _ _ "CKeyOther ''/start live''"])
      (simp_all add: plain_walk_ok console_New_def console_Update_def)
  let ?c = "(cs_console ?s1)\<lparr>co_input := [], co_history := [''/start live''], co_lines := co_lines (cs_console ?s1) @ [''> /start live'']\<rparr>"
  let ?r = "StartLive sample_lib sample_io (sample_agent LicenseStateDemo)"
  have "\<exists>t. console_Update ?P plain_walk CKeyEnter ?s1 = Some (Some t) \<and> cs_agent t = fst ?r"
    by (simp add: console_Update_def console_New_def Let_def typed_live handleCommand_def ParseCommand_def start_command_def plain_walk_def
        case_prod_beta report_agent)
  then obtain t where t: "console_Update ?P plain_walk CKeyEnter ?s1 = Some (Some t)" "cs_agent t = fst ?r" by blast
  have "console_step ?P ?s1 t"
    by (rule console_step.intros [OF _ t(1)]) (simp add: plain_walk_ok console_New_def)
  with 1 have reach: "(console_step ?P)\<^sup>*\<^sup>* ?s0 t" by (meson converse_rtranclp_into_rtranclp rtranclp.rtrancl_refl)
  have live: "agent_mode (cs_agent t) = RunModeLiveTrading" using sample_agent_live t(2) by simp
  show ?thesis
    using console_replays_its_history [OF reach builder_start_inv] reach live by auto
qed

subsection \<open>What cannot be done from the console\<close>

text \<open>The list and the line of a creation show the first eight bytes of an id and the commands look it up whole: with ids
  as long as the service makes them (a UUID has 36 bytes) no strategy is found by the id on the screen.\<close>

theorem shown_id_is_not_found:
  assumes "\<forall>iid \<in> dom (bd_instances b). length iid > 8" "length (si_ID si) > 8"
  shows "GetInstance (short_id (si_ID si)) b = Err (InstanceNotFound (short_id (si_ID si)))"
    "handleStrategyCommand P V [''enable'', short_id (si_ID si)] b =
       Some ([''failed to enable strategy: '' @ pl_builder_error P (InstanceNotFound (short_id (si_ID si)))], b)"
    "handleStrategyCommand P V [''delete'', short_id (si_ID si)] b =
       Some ([''failed to delete strategy: '' @ pl_builder_error P (InstanceNotFound (short_id (si_ID si)))], b)"
proof -
  have "length (short_id (si_ID si)) = 8" using assms(2) by (simp add: short_id_def)
  then have "bd_instances b (short_id (si_ID si)) = None" using assms(1) by (metis domI less_irrefl not_None_eq)
  then show "GetInstance (short_id (si_ID si)) b = Err (InstanceNotFound (short_id (si_ID si)))"
    "handleStrategyCommand P V [''enable'', short_id (si_ID si)] b =
       Some ([''failed to enable strategy: '' @ pl_builder_error P (InstanceNotFound (short_id (si_ID si)))], b)"
    "handleStrategyCommand P V [''delete'', short_id (si_ID si)] b =
       Some ([''failed to delete strategy: '' @ pl_builder_error P (InstanceNotFound (short_id (si_ID si)))], b)"
    by (simp_all add: GetInstance_def handleStrategyCommand_def on_instance_def EnableInstance_def set_enabled_def DeleteInstance_def)
qed

text \<open>The update passes the parameters that were typed and nothing of the stored ones, and the builder wants every required
  one: changing a single parameter of a template with two required ones is always refused.\<close>

lemma missing_refused: "def \<in> set defs \<Longrightarrow> pd_Required def \<Longrightarrow> ps (pd_Key def) = None \<Longrightarrow> validateParameters defs ps \<noteq> Return ()"
  by (induction defs) (auto split: option.splits outcome.splits)

lemma update_unchanged:
  assumes "bd_instances b iid = Some si" "lib_GetTemplate (bd_library b) (si_TemplateID si) = Ok t"
    "validateParameters (t_Parameters t) ps \<noteq> Return ()"
  shows "\<exists>res. UpdateInstance iid now
      \<lparr>up_Name = None, up_Description = None, up_Symbol = None, up_Enabled = None, up_Parameters = Some ps\<rparr> b = (b, res) \<and>
    (\<forall>x. res \<noteq> Return x)"
  using assms
  by (cases "validateParameters (t_Parameters t) ps") (simp_all add: UpdateInstance_def update_fields_def map_upd_triv)

theorem single_parameter_update_is_refused:
  assumes "GetInstance iid b = Ok si" "lib_GetTemplate (bd_library b) (si_TemplateID si) = Ok t"
    and "def1 \<in> set (t_Parameters t)" "pd_Required def1" "def2 \<in> set (t_Parameters t)" "pd_Required def2" "pd_Key def1 \<noteq> pd_Key def2"
  shows "handleStrategyUpdate P V [iid, arg] b = None \<or>
    (\<exists>line. handleStrategyUpdate P V [iid, arg] b = Some ([line], b) \<and> line \<noteq> ''strategy updated: '' @ short_id iid)"
proof (cases "parse_args P (t_Parameters t) [arg] Map.empty")
  case (Inl line)
  then have "line \<noteq> ''strategy updated: '' @ short_id iid" by (auto split: option.splits sum.splits)
  then show ?thesis using assms(1,2) Inl by (simp add: handleStrategyUpdate_def)
next
  case (Inr ps)
  then have "ps (pd_Key def1) = None \<or> ps (pd_Key def2) = None"
    using assms(7) by (auto split: option.splits sum.splits)
  then have "validateParameters (t_Parameters t) ps \<noteq> Return ()" using assms(3-6) missing_refused by blast
  moreover have si: "bd_instances b iid = Some si" using assms(1) by (simp add: GetInstance_def split: option.splits)
  ultimately obtain res where "UpdateInstance iid (ce_now V)
      \<lparr>up_Name = None, up_Description = None, up_Symbol = None, up_Enabled = None, up_Parameters = Some ps\<rparr> b = (b, res)"
      "\<forall>x. res \<noteq> Return x"
    using update_unchanged [OF si assms(2)] by blast
  then show ?thesis
    using assms(1,2) Inr by (cases res) (simp_all add: handleStrategyUpdate_def builder_answer_def)
qed

text \<open>\<open>/set\<close> always passes a string, and the numbers and the switch of the configuration want another type: these
  keys cannot be set from a console.\<close>

theorem number_settings_are_refused:
  assumes "key \<in> {''telemetry.enabled'', ''journal_max_size_bytes'', ''memory_limit_bytes'', ''memory_degrade_threshold_percent''}"
    and "config_Current (ag_config a) = Some c"
  shows "set_command P V verb (key # v # vs) a = (verb @ '' failed: '' @ pl_agent_error P (FromConfig (UpdateKeyType key)), a)"
proof -
  have "applyConfigUpdate key (CVString x) c = Err (UpdateKeyType key)" for x
    using assms(1) by (auto simp: applyConfigUpdate_def)
  then show ?thesis
    using assms(2) by (simp add: set_command_def service_UpdateConfig_def repo_UpdateConfig_def report_def)
qed

end
