(* ===== verification/Application.thy ===== *)
theory Application
  imports Agent_Service Snapshot_Store
begin

text \<open>
  A process of the agent from its start to its end: \<open>internal/app\<close> opens the files of a profile and closes them,
  \<open>internal/bootstrap\<close> builds the services on them, and every command of \<open>internal/controllers/cli\<close> runs between the
  two. Of a process the profile stays: the configuration file, the audit log, the snapshot of the runtime and the trusted
  keys, which are the fields of \<open>agent_svc\<close>. The log of openings and closings is part of the result, so that leaks can
  be seen. Backup and restore work on the closed profile (theory Backup); the export is a parameter.
\<close>

subsection \<open>Opening and closing a profile\<close>

datatype resource = AuditLog | JournalLog | StoreDB | VaultDB

datatype resource_event = Opened resource | Closed resource

record boot_env =
  be_dir :: string
  be_mkdir :: "string option"
  be_open :: "resource \<Rightarrow> string option"
  be_close :: "resource \<Rightarrow> string option"
  be_heap :: "mode_transition chan_heap"
  be_io :: io
  be_stdin :: string
  be_pubkey :: "string + string"
  be_export :: "string + string"

datatype boot_error = BootMkdir string | BootConfig config_error | BootOpen resource string

text \<open>The next resource: when it fails, the deferred loop closes the ones already open, the last one first.\<close>

definition open_next ::
  "boot_env \<Rightarrow> resource \<Rightarrow> (resource list \<Rightarrow> resource_event list \<times> (boot_error + 'a)) \<Rightarrow> resource list \<Rightarrow>
   resource_event list \<times> (boot_error + 'a)" where
  "open_next E r k closers =
     (case be_open E r of
        Some e \<Rightarrow> (map Closed (rev closers), Err (BootOpen r e))
      | None \<Rightarrow> (case k (closers @ [r]) of (evs, res) \<Rightarrow> (Opened r # evs, res)))"

text \<open>The result is the memory limit that is applied; the configuration file may have been written before a later step fails.\<close>

definition Bootstrap :: "'p agent_lib \<Rightarrow> boot_env \<Rightarrow> 'p agent_svc \<Rightarrow> resource_event list \<times> 'p agent_svc \<times> (boot_error + int option)" where
  "Bootstrap L E a =
     (case be_mkdir E of
        Some e \<Rightarrow> ([], a, Err (BootMkdir e))
      | None \<Rightarrow>
          (case config_NewManager (gl_config L) (be_dir E) (cm_file (ag_config a)) (io_config_fault (be_io E)) of
             Inl e \<Rightarrow> ([], a, Err (BootConfig e))
           | Inr m \<Rightarrow>
               (let limit = (case config_Current m of None \<Rightarrow> None
                             | Some c \<Rightarrow> if MemoryLimitBytes c > 0 then Some (MemoryLimitBytes c) else None)
                in case open_next E AuditLog (open_next E JournalLog (open_next E StoreDB (open_next E VaultDB (\<lambda>_. ([], Ok limit))))) [] of
                     (evs, res) \<Rightarrow> (evs, a\<lparr>ag_config := m\<rparr>, res))))"

definition app_Close :: "boot_env \<Rightarrow> resource_event list \<times> string option" where
  "app_Close E =
     (let rs = [JournalLog, AuditLog, StoreDB, VaultDB]; errs = List.map_filter (be_close E) rs
      in (map Closed rs, if errs = [] then None else Some (joined_errors errs)))"

text \<open>\<open>Factory.Open\<close>: a new runtime manager over the snapshot file of the profile.\<close>

definition factory_Open :: "'p agent_lib \<Rightarrow> boot_env \<Rightarrow> 'p agent_svc \<Rightarrow> resource_event list \<times> 'p agent_svc \<times> (boot_error + int option)" where
  "factory_Open L E a =
     (case Bootstrap L E a of
        (evs, a1, Inl e) \<Rightarrow> (evs, a1, Err e)
      | (evs, a1, Inr limit) \<Rightarrow>
          (evs, a1\<lparr>ag_runtime := repo_New (be_heap E) True (snap_file (ag_runtime a1)) (io_now (be_io E)) (io_then (be_io E))
                     (io_save1 (be_io E))\<rparr>, Ok limit))"

subsection \<open>The commands\<close>

datatype ctl_error =
    CtlBoot boot_error | RestoreUnconfirmed | StopUnconfirmed | UnsupportedFormat string | CtlService agent_error
  | CtlPubkey string | CtlExportFailed string

datatype ctl_command =
    CtlInit bool | CtlCheck | CtlExport string | CtlEmergencyStop bool | CtlTrust string | CtlHeadless bool bool

type_synonym 'p ctl_result = "'p agent_svc \<times> (ctl_error, string) outcome"

definition with_container :: "'p agent_lib \<Rightarrow> boot_env \<Rightarrow> ('p agent_svc \<Rightarrow> 'p ctl_result) \<Rightarrow> 'p agent_svc \<Rightarrow> resource_event list \<times> 'p ctl_result" where
  "with_container L E f a =
     (case factory_Open L E a of
        (evs, a1, Inl e) \<Rightarrow> (evs, a1, Fail (CtlBoot e))
      | (evs, a1, Inr _) \<Rightarrow> (evs @ fst (app_Close E), f a1))"

definition profile_string :: "telemetry_profile \<Rightarrow> string" where
  "profile_string p =
     (case p of TelemetryProfileOff \<Rightarrow> ''off'' | TelemetryProfileMinimal \<Rightarrow> ''minimal'' | TelemetryProfileSupport \<Rightarrow> ''support''
      | TelemetryProfileSync \<Rightarrow> ''sync'' | TelemetryProfileOther s \<Rightarrow> s)"

definition line_of :: "string \<Rightarrow> string \<Rightarrow> string" where
  "line_of key v = key @ ''='' @ v @ [CHR 0x0A]"

definition FormatCheckOutput :: "check_output \<Rightarrow> string" where
  "FormatCheckOutput out =
     line_of ''schema_version'' (int_text (co_SchemaVersion out)) @
     line_of ''telemetry'' (profile_string (tl_Profile (co_Telemetry out))) @
     line_of ''outbound'' (joined CHR '','' (co_AllowedOutbound out)) @
     line_of ''mode'' (run_mode_string (Mode (co_Status out))) @
     line_of ''connectivity'' (connectivity_string (Connectivity (co_Status out))) @
     line_of ''license'' (license_string (License (co_Status out))) @
     line_of ''integrity'' (integrity_string (Integrity (co_Status out))) @
     line_of ''halt_reason'' (HaltReason (co_Status out))"

definition report_check :: "'p agent_svc \<Rightarrow> 'p ctl_result" where
  "report_check a =
     (a, case service_Check a of Panic \<Rightarrow> Panic | Fail e \<Rightarrow> Fail (CtlService e) | Return out \<Rightarrow> Return (FormatCheckOutput out))"

definition after_call :: "('p agent_svc \<Rightarrow> 'p ctl_result) \<Rightarrow> 'p agent_result \<Rightarrow> 'p ctl_result" where
  "after_call k r = (case r of (a, Inl e) \<Rightarrow> (a, Fail (CtlService e)) | (a, Inr _) \<Rightarrow> k a)"

definition says :: "string \<Rightarrow> 'p agent_svc \<Rightarrow> 'p ctl_result" where
  "says out a = (a, Return out)"

definition init_action :: "'p agent_lib \<Rightarrow> boot_env \<Rightarrow> bool \<Rightarrow> 'p agent_svc \<Rightarrow> 'p ctl_result" where
  "init_action L E accept a =
     (let done = says (''initialized '' @ be_dir E)
      in if accept \<or> TrimSpace (be_stdin E) = ''YES'' then after_call done (service_AcceptDisclaimer L ''kairos init'' (be_io E) a)
         else done a)"

definition trust_action :: "boot_env \<Rightarrow> string \<Rightarrow> 'p agent_svc \<Rightarrow> 'p ctl_result" where
  "trust_action E fingerprint a =
     (case be_pubkey E of
        Inl e \<Rightarrow> (a, Fail (CtlPubkey e))
      | Inr key \<Rightarrow>
          (case TrustPluginKey fingerprint key (be_io E) a of
             Panic \<Rightarrow> (a, Panic)
           | Fail e \<Rightarrow> (a, Fail (CtlService e))
           | Return r \<Rightarrow> after_call (says []) r))"

definition headless_action :: "'p agent_lib \<Rightarrow> boot_env \<Rightarrow> bool \<Rightarrow> bool \<Rightarrow> 'p agent_svc \<Rightarrow> 'p ctl_result" where
  "headless_action L E live scan a =
     after_call report_check
       (if live then StartLive L (be_io E) a else if scan then StartScan (be_io E) a else StopAll (be_io E) a)"

definition run_ctl :: "'p agent_lib \<Rightarrow> boot_env \<Rightarrow> ctl_command \<Rightarrow> 'p agent_svc \<Rightarrow> resource_event list \<times> 'p ctl_result" where
  "run_ctl L E c a =
     (case c of
        CtlInit accept \<Rightarrow> with_container L E (init_action L E accept) a
      | CtlCheck \<Rightarrow> with_container L E report_check a
      | CtlExport format \<Rightarrow>
          if format \<noteq> ''csv'' then ([], a, Fail (UnsupportedFormat format))
          else with_container L E (\<lambda>a. (a, case be_export E of Inl e \<Rightarrow> Fail (CtlExportFailed e) | Inr path \<Rightarrow> Return path)) a
      | CtlEmergencyStop confirm \<Rightarrow>
          if \<not> confirm then ([], a, Fail StopUnconfirmed)
          else with_container L E (\<lambda>a. after_call (says ''runtime halted'') (EmergencyStop (be_io E) a)) a
      | CtlTrust fingerprint \<Rightarrow> with_container L E (trust_action E fingerprint) a
      | CtlHeadless live scan \<Rightarrow> with_container L E (headless_action L E live scan) a)"

text \<open>One process after the other on the same profile.\<close>

fun ctl_session :: "'p agent_lib \<Rightarrow> (boot_env \<times> ctl_command) list \<Rightarrow> 'p agent_svc \<Rightarrow> 'p agent_svc" where
  "ctl_session L [] a = a"
| "ctl_session L ((E, c) # cs) a = ctl_session L cs (fst (snd (run_ctl L E c a)))"

subsection \<open>Nothing stays open\<close>

text \<open>The set of open resources after a log, unless it opens an open one or closes a closed one.\<close>

fun open_after :: "resource_event list \<Rightarrow> resource set \<Rightarrow> resource set option" where
  "open_after [] s = Some s"
| "open_after (Opened r # evs) s = (if r \<in> s then None else open_after evs (insert r s))"
| "open_after (Closed r # evs) s = (if r \<in> s then open_after evs (s - {r}) else None)"

lemma open_after_append: "open_after (l1 @ l2) s = Option.bind (open_after l1 s) (open_after l2)"
proof (induction l1 arbitrary: s)
  case (Cons x l1)
  then show ?case by (cases x) simp_all
qed simp

definition all_resources :: "resource set" where
  "all_resources = {AuditLog, JournalLog, StoreDB, VaultDB}"

lemma Bootstrap_log:
  "open_after (fst (Bootstrap L E a)) {} = Some (if isl (snd (snd (Bootstrap L E a))) then {} else all_resources)"
  by (auto simp: Bootstrap_def open_next_def all_resources_def Let_def split: option.split sum.split)

lemma app_Close_log: "open_after (fst (app_Close E)) all_resources = Some {}"
  by (auto simp: app_Close_def all_resources_def Let_def)

lemma factory_Open_cases:
  obtains (failed) evs m e where "factory_Open L E a = (evs, a\<lparr>ag_config := m\<rparr>, Inl e)" "open_after evs {} = Some {}"
  | (opened) evs m limit where
      "factory_Open L E a = (evs, a\<lparr>ag_config := m, ag_runtime := repo_New (be_heap E) True
         (snap_file (ag_runtime a)) (io_now (be_io E)) (io_then (be_io E)) (io_save1 (be_io E))\<rparr>, Inr limit)"
      "open_after evs {} = Some all_resources"
proof -
  obtain evs a1 res where b: "Bootstrap L E a = (evs, a1, res)" by (metis prod.collapse)
  have a1: "\<exists>m. a1 = a\<lparr>ag_config := m\<rparr>"
    using b by (auto simp: Bootstrap_def Let_def split: option.splits sum.splits prod.splits intro: exI [of _ "ag_config a"])
  show thesis
  proof (cases res)
    case (Inl e)
    then show thesis using a1 b Bootstrap_log [of L E a] by (auto simp: factory_Open_def intro!: failed)
  next
    case (Inr limit)
    then show thesis using a1 b Bootstrap_log [of L E a] by (auto simp: factory_Open_def intro!: opened)
  qed
qed

lemma with_container_log: "open_after (fst (with_container L E f a)) {} = Some {}"
proof (cases rule: factory_Open_cases [of L E a])
  case (failed evs m e)
  then show ?thesis by (simp add: with_container_def)
next
  case (opened evs m limit)
  then show ?thesis by (simp add: with_container_def open_after_append app_Close_log)
qed


subsection \<open>What a command does to the profile\<close>

definition ctl_call :: "boot_env \<Rightarrow> ctl_command \<Rightarrow> agent_call option" where
  "ctl_call E c =
     (case c of
        CtlInit accept \<Rightarrow> if accept \<or> TrimSpace (be_stdin E) = ''YES'' then Some (CallAccept ''kairos init'' (be_io E)) else None
      | CtlEmergencyStop confirm \<Rightarrow> Some (CallEmergencyStop (be_io E))
      | CtlTrust fingerprint \<Rightarrow> (case be_pubkey E of Inl e \<Rightarrow> None | Inr key \<Rightarrow> Some (CallTrust fingerprint key (be_io E)))
      | CtlHeadless live scan \<Rightarrow>
          Some (if live then CallLive (be_io E) else if scan then CallScan (be_io E) else CallStop (be_io E))
      | _ \<Rightarrow> None)"

definition opened_agent :: "boot_env \<Rightarrow> 'p config_manager \<Rightarrow> 'p agent_svc \<Rightarrow> 'p agent_svc" where
  "opened_agent E m a =
     a\<lparr>ag_config := m, ag_runtime := repo_New (be_heap E) True (snap_file (ag_runtime a)) (io_now (be_io E)) (io_then (be_io E)) (io_save1 (be_io E))\<rparr>"

lemma opened_agent_fields [simp]:
  "ag_audit (opened_agent E m a) = ag_audit a"
  "ag_runtime (opened_agent E m a) = repo_New (be_heap E) True (snap_file (ag_runtime a)) (io_now (be_io E)) (io_then (be_io E)) (io_save1 (be_io E))"
  by (simp_all add: opened_agent_def)

lemma after_call_state: "(\<And>a. fst (k a) = a) \<Longrightarrow> fst (after_call k r) = fst r"
  by (simp add: after_call_def split: prod.split sum.split)

lemma says_state [simp]: "fst (says out a) = a" "fst (report_check a) = a"
  by (simp_all add: says_def report_check_def)

lemma actions_call:
  "fst (init_action L E accept a) = (case ctl_call E (CtlInit accept) of None \<Rightarrow> a | Some call \<Rightarrow> agent_apply L call a)"
  "fst (trust_action E fp a) = (case ctl_call E (CtlTrust fp) of None \<Rightarrow> a | Some call \<Rightarrow> agent_apply L call a)"
  "fst (headless_action L E live scan a) = (case ctl_call E (CtlHeadless live scan) of None \<Rightarrow> a | Some call \<Rightarrow> agent_apply L call a)"
  by (simp_all add: init_action_def trust_action_def headless_action_def ctl_call_def after_call_state split: sum.split outcome.split prod.split)

lemma container_state:
  "\<exists>m. fst (snd (with_container L E f a)) = a\<lparr>ag_config := m\<rparr> \<or> fst (snd (with_container L E f a)) = fst (f (opened_agent E m a))"
  by (cases rule: factory_Open_cases [of L E a]) (auto simp: with_container_def opened_agent_def)

lemma run_ctl_effect:
  "\<exists>m. fst (snd (run_ctl L E c a)) \<in>
     {a\<lparr>ag_config := m\<rparr>, (case ctl_call E c of None \<Rightarrow> opened_agent E m a | Some call \<Rightarrow> agent_apply L call (opened_agent E m a))}"
proof -
  have keep: "\<exists>m. a = a\<lparr>ag_config := m\<rparr>" by (rule exI [of _ "ag_config a"]) simp
  show ?thesis
  proof (cases c)
    case (CtlInit x1)
    then show ?thesis using container_state [of L E "init_action L E x1" a] by (simp add: run_ctl_def actions_call(1))
  next
    case CtlCheck
    then show ?thesis using container_state [of L E report_check a] by (simp add: run_ctl_def ctl_call_def)
  next
    case (CtlExport x3)
    then show ?thesis
      using keep container_state [of L E "\<lambda>a. (a, case be_export E of Inl e \<Rightarrow> Fail (CtlExportFailed e) | Inr path \<Rightarrow> Return path)" a]
      by (cases "x3 = ''csv''") (simp_all add: run_ctl_def ctl_call_def, blast)
  next
    case (CtlEmergencyStop x4)
    then show ?thesis
      using keep container_state [of L E "\<lambda>a. after_call (says ''runtime halted'') (EmergencyStop (be_io E) a)" a]
      by (cases x4) (simp_all add: run_ctl_def ctl_call_def after_call_state, blast)
  next
    case (CtlTrust x5)
    then show ?thesis using container_state [of L E "trust_action E x5" a] by (simp add: run_ctl_def actions_call(2) [of _ _ _ L])
  next
    case (CtlHeadless x61 x62)
    then show ?thesis using container_state [of L E "headless_action L E x61 x62" a] by (simp add: run_ctl_def actions_call(3))
  qed
qed

subsection \<open>An emergency stop outlives the process\<close>

lemma repo_New_agrees: "mgr_agrees (r_manager (repo_New heap True f now later e))"
proof -
  have "mgr_agrees (NewManager heap now)" by simp
  then show ?thesis
    using mgr_apply_agrees [of "NewManager heap now" "OpRestore _ now later"]
    by (auto simp: repo_New_def restoreSnapshot_manager split: option.split sum.split)
qed

lemma repo_New_store [simp]: "has_store (repo_New heap True f now later e)"
  by (simp add: repo_New_def restoreSnapshot_def persist_def split: option.split sum.split)

lemma held_command:
  assumes "repo_held (ag_runtime a)" "c \<noteq> CtlHeadless False False"
  shows "repo_held (ag_runtime (fst (snd (run_ctl L E c a))))"
proof -
  obtain m where m: "fst (snd (run_ctl L E c a)) \<in>
      {a\<lparr>ag_config := m\<rparr>, (case ctl_call E c of None \<Rightarrow> opened_agent E m a | Some call \<Rightarrow> agent_apply L call (opened_agent E m a))}"
    using run_ctl_effect [of L E c a] by blast
  have "has_store (ag_runtime a)" using assms(1) by (simp add: repo_held_def)
  then have o: "repo_held (ag_runtime (opened_agent E m a))"
    using repo_held_New [OF assms(1)] by simp
  have "call \<noteq> CallStop i" if "ctl_call E c = Some call" for call i
    using that assms(2) by (auto simp: ctl_call_def split: ctl_command.splits if_splits sum.splits)
  then have "repo_held (ag_runtime (case ctl_call E c of None \<Rightarrow> opened_agent E m a | Some call \<Rightarrow> agent_apply L call (opened_agent E m a)))"
    using o agent_apply_held [OF o] by (simp split: option.split)
  then show ?thesis using m assms(1) by auto
qed

lemma held_session:
  "repo_held (ag_runtime a) \<Longrightarrow> \<forall>x \<in> set cs. snd x \<noteq> CtlHeadless False False \<Longrightarrow> repo_held (ag_runtime (ctl_session L cs a))"
  by (induction cs arbitrary: a) (auto simp: held_command)

lemma EmergencyStop_saved:
  assumes "EmergencyStop i a = (a', Inr u)" "mgr_agrees (r_manager (ag_runtime a))" "has_store (ag_runtime a)"
  shows "repo_held (ag_runtime a')"
proof -
  let ?r1 = "repo_Transition RunModeHalted ''emergency stop'' (io_now i) (io_save1 i) (ag_runtime a)"
  obtain r1 w where r1: "?r1 = (r1, Inr w)" using assms(1) by (auto simp: EmergencyStop_def split: prod.splits sum.splits)
  then have "io_save1 i = None" using assms(3) by (auto simp: repo_Transition_def persist_def split: sum.splits option.splits)
  then have h: "repo_held r1" using EmergencyStop_transition(4) [OF assms(2), of i] assms(3) r1 by simp
  have "a' = a\<lparr>ag_runtime := fst (repo_SetConnectivity ConnectivityStateNetworkWait (io_then i) (io_save2 i) r1)\<rparr>"
    using assms(1) r1 by (auto simp: EmergencyStop_def split: prod.splits)
  then show ?thesis using repo_held_set(2) [OF h] by simp
qed


definition quiet_env :: boot_env where
  "quiet_env = \<lparr>be_dir = ''d'', be_mkdir = None, be_open = (\<lambda>_. None), be_close = (\<lambda>_. None), be_heap = (\<lambda>_. make_chan 0),
     be_io = sample_io, be_stdin = ''no'', be_pubkey = Err ''no key'', be_export = Err ''disk''\<rparr>"

lemma EmergencyStop_quiet:
  assumes "io_save1 i = None" "io_save2 i = None"
  shows "\<exists>a'. EmergencyStop i a = (a', Inr ())"
proof -
  obtain m where "m_Transition RunModeHalted (''emergency stop'', io_now i) (r_manager (ag_runtime a)) = Inr m"
    by (rule m_Transition_succeeds [of "r_manager (ag_runtime a)" RunModeHalted]) auto
  then show ?thesis using assms by (simp add: EmergencyStop_def repo_Transition_def repo_SetConnectivity_def persist_def)
qed

lemma quiet_open: "\<exists>evs m limit. factory_Open sample_lib quiet_env (sample_agent l) = (evs, opened_agent quiet_env m (sample_agent l), Inr limit)"
proof -
  obtain m where "config_NewManager plain_env ''d'' None None = Ok m" using plain_start by blast
  then show ?thesis
    by (simp add: factory_Open_def Bootstrap_def open_next_def opened_agent_def quiet_env_def sample_agent_def sample_lib_def
        sample_io_def Let_def)
qed

lemma quiet_stop: "\<exists>evs a1. run_ctl sample_lib quiet_env (CtlEmergencyStop True) (sample_agent l) = (evs, a1, Return ''runtime halted'')"
proof -
  obtain evs m limit where o: "factory_Open sample_lib quiet_env (sample_agent l) = (evs, opened_agent quiet_env m (sample_agent l), Inr limit)"
    using quiet_open by blast
  obtain a' where "EmergencyStop (be_io quiet_env) (opened_agent quiet_env m (sample_agent l)) = (a', Inr ())"
    using EmergencyStop_quiet [of "be_io quiet_env"] by (auto simp: quiet_env_def sample_io_def)
  then show ?thesis using o by (simp add: run_ctl_def with_container_def after_call_def says_def)
qed


subsection \<open>The headless agent\<close>

lemma opened_run:
  assumes "factory_Open L E a = (evs, a0, Inr limit)"
  shows "fst (snd (run_ctl L E (CtlHeadless live scan) a)) = fst (headless_action L E live scan a0)"
    "a0 = opened_agent E (ag_config a0) a"
  using assms by (simp add: run_ctl_def with_container_def, cases rule: factory_Open_cases [of L E a]) (auto simp: opened_agent_def)

text \<open>Without a mode it asks for \<open>StopAll\<close>: that ends an emergency stop.\<close>

theorem headless_returns_a_halted_agent_to_idle:
  assumes "factory_Open L E a = (evs, a0, Inr limit)"
  shows "agent_mode (fst (snd (run_ctl L E (CtlHeadless False False) a))) = RunModeIdle"
proof -
  obtain m where m: "m_Transition RunModeIdle (''stop all requested'', io_now (be_io E)) (r_manager (ag_runtime a0)) = Inr m"
    by (rule m_Transition_succeeds [of "r_manager (ag_runtime a0)" RunModeIdle]) auto
  then have "CurrentState m = RunModeIdle" by (rule mgr.attempt_reaches)
  then show ?thesis
    using m opened_run(1) [OF assms, of False False]
    by (simp add: headless_action_def after_call_state StopAll_def agent_transition_def repo_Transition_def agent_mode_def case_prod_beta)
qed

text \<open>With \<open>--live\<close> the process ends at once, its mode is in the snapshot, and the next command, whichever it is,
  takes that for a crash and starts halted.\<close>

lemma lift_err_Ok [simp]: "lift_err f r = Inr u \<longleftrightarrow> r = Inr u"
  by (cases r) simp_all

lemma StartLive_saved:
  assumes "StartLive L i a = (a', Inr u)" "has_store (ag_runtime a)"
  shows "\<exists>st. snap_file (ag_runtime a') = Some (Inr st) \<and> Mode st = RunModeLiveTrading"
proof -
  obtain r where r: "fst (repo_SetLicense LicenseStateLicensed (io_now i) (io_save1 i) (ag_runtime a)) = r" by blast
  have s: "has_store r" using assms(2) r by (auto simp: repo_SetLicense_def persist_def split: option.splits)
  have "snd (repo_Transition RunModeLiveTrading ''live trading requested'' (io_then i) (io_save2 i) r) = Inr ()"
      "ag_runtime a' = fst (repo_Transition RunModeLiveTrading ''live trading requested'' (io_then i) (io_save2 i) r)"
    using assms(1) r by (auto simp: StartLive_def split: sum.splits bool.splits prod.splits)
  then show ?thesis
    using s mgr.attempt_reaches [of RunModeLiveTrading "(''live trading requested'', io_then i)" "r_manager r"] m_Transition_agrees
    by (auto simp: repo_Transition_def persist_def Snapshot_def mgr_agrees_def split: sum.splits option.splits)
qed

theorem headless_live_looks_like_a_crash:
  assumes "factory_Open L E a = (evs, a0, Inr limit)" "StartLive L (be_io E) a0 = (a1, Inr u)"
    and "factory_Open L F (fst (snd (run_ctl L E (CtlHeadless True scan) a))) = (evs', b0, Inr limit')"
  shows "agent_mode (fst (snd (run_ctl L E (CtlHeadless True scan) a))) = RunModeLiveTrading" "agent_mode b0 = RunModeHalted"
proof -
  let ?a = "fst (snd (run_ctl L E (CtlHeadless True scan) a))"
  have a: "?a = a1" using opened_run(1) [OF assms(1), of True scan] assms(2) by (simp add: headless_action_def after_call_state)
  obtain r where "ag_runtime a0 = repo_New (be_heap E) True r (io_now (be_io E)) (io_then (be_io E)) (io_save1 (be_io E))"
    using arg_cong [OF opened_run(2) [OF assms(1)], of ag_runtime] by simp
  then obtain st where st: "snap_file (ag_runtime a1) = Some (Inr st)" "Mode st = RunModeLiveTrading"
    using StartLive_saved [OF assms(2)] by auto
  have "agent_mode b0 = Mode (restore_status st (io_now (be_io F)))"
    using arg_cong [OF opened_run(2) [OF assms(3)], of agent_mode] st(1)
    by (simp add: a agent_mode_def repo_New_def restoreSnapshot_manager)
  then show "agent_mode b0 = RunModeHalted" using st(2) by (simp add: restore_mode_cases active_mode_def)
  show "agent_mode ?a = RunModeLiveTrading"
    using assms(2) unfolding a
    by (auto simp: StartLive_def agent_mode_def repo_Transition_def persist_def split: sum.splits bool.splits prod.splits option.splits if_splits
      dest: mgr.attempt_reaches)
qed

subsection \<open>Live trading was agreed to\<close>

definition agrees :: "boot_env \<times> ctl_command \<Rightarrow> bool" where
  "agrees x \<longleftrightarrow> (\<exists>accept. snd x = CtlInit accept \<and> (accept \<or> TrimSpace (be_stdin (fst x)) = ''YES''))"

lemma ctl_call_accept: "ctl_call E c = Some (CallAccept src i) \<Longrightarrow> agrees (E, c)"
  by (auto simp: ctl_call_def agrees_def split: ctl_command.splits if_splits sum.splits)

lemma command_without_consent:
  assumes "\<not> agrees (E, c)" "\<not> disclaimer_on_record L a" "agent_mode a \<noteq> RunModeLiveTrading"
  shows "\<not> disclaimer_on_record L (fst (snd (run_ctl L E c a))) \<and> agent_mode (fst (snd (run_ctl L E c a))) \<noteq> RunModeLiveTrading"
proof -
  obtain m where m: "fst (snd (run_ctl L E c a)) \<in>
      {a\<lparr>ag_config := m\<rparr>, (case ctl_call E c of None \<Rightarrow> opened_agent E m a | Some call \<Rightarrow> agent_apply L call (opened_agent E m a))}"
    using run_ctl_effect [of L E c a] by blast
  let ?o = "opened_agent E m a"
  have o: "\<not> disclaimer_on_record L ?o" "agent_mode ?o \<noteq> RunModeLiveTrading"
    using assms(2) repo_New_mode [of "be_heap E" True "snap_file (ag_runtime a)"]
    by (auto simp: disclaimer_on_record_def agent_mode_def) (metis insertE run_mode.distinct singletonD)
  have "\<not> disclaimer_on_record L (agent_apply L call ?o) \<and> agent_mode (agent_apply L call ?o) \<noteq> RunModeLiveTrading"
    if "ctl_call E c = Some call" for call
  proof -
    have "ag_audit (agent_apply L call ?o) = ag_audit ?o"
      by (rule agent_apply_audit) (use that assms(1) ctl_call_accept in blast)
    then show ?thesis using o agent_apply_live [of L call ?o] by (auto simp: disclaimer_on_record_def)
  qed
  then show ?thesis using m o assms(2,3)
    by (cases "ctl_call E c") (auto simp: disclaimer_on_record_def agent_mode_def)
qed

text \<open>The commands of this tree reach live trading only on a profile where somebody accepted the disclaimer: if it is not on
  record at first, one of the commands before was an \<open>init\<close> with the flag or with the answer YES.\<close>

theorem live_command_needs_consent:
  assumes "\<not> disclaimer_on_record L a" "agent_mode a \<noteq> RunModeLiveTrading" "agent_mode (ctl_session L cs a) = RunModeLiveTrading"
  shows "\<exists>x \<in> set cs. agrees x"
proof (rule ccontr)
  assume "\<not> (\<exists>x \<in> set cs. agrees x)"
  then have "\<not> disclaimer_on_record L (ctl_session L cs a) \<and> agent_mode (ctl_session L cs a) \<noteq> RunModeLiveTrading"
    using assms(1,2)
  proof (induction L cs a rule: ctl_session.induct)
    case (2 L E c cs a)
    then show ?case using command_without_consent [of E c L a] by simp
  qed simp
  then show False using assms(3) by simp
qed

subsection \<open>The application's clock check\<close>

text \<open>\<open>Bootstrap\<close> starts the NTP worker with a probe that measures nothing and answers zero. Every fifteen minutes the
  runtime is told that the clock is right, which also clears the flag that blocks new entries, an emergency halt's included.\<close>

definition RunNTPWorker_tick :: "string + duration \<Rightarrow> (duration \<Rightarrow> 'a \<Rightarrow> 'a) \<Rightarrow> 'a \<Rightarrow> 'a" where
  "RunNTPWorker_tick probed onDrift a = (case probed of Inl _ \<Rightarrow> a | Inr drift \<Rightarrow> onDrift drift a)"

definition app_ntp_tick :: "time \<Rightarrow> 'p agent_svc \<Rightarrow> 'p agent_svc" where
  "app_ntp_tick now =
     RunNTPWorker_tick (Ok 0)
       (\<lambda>drift a. a\<lparr>ag_runtime := (ag_runtime a)\<lparr>r_manager := UpdateNTPDrift drift now (r_manager (ag_runtime a))\<rparr>\<rparr>)"

theorem ntp_probe_never_blocks:
  "NTPDrift (service_Status (app_ntp_tick now a)) = 0 \<and> \<not> NewEntriesBlocked (service_Status (app_ntp_tick now a)) \<and>
   agent_mode (app_ntp_tick now a) = agent_mode a"
  by (simp add: app_ntp_tick_def RunNTPWorker_tick_def service_Status_def repo_Status_def UpdateNTPDrift_def Snapshot_def agent_mode_def CurrentState_def millisecond_def Let_def)

end
