(* ===== verification/Metrics.thy ===== *)
theory Metrics
  imports Event_Bus Engine_State
begin

text \<open>
  The Prometheus metrics of the engine, \<open>internal/metrics\<close>, and the places of \<open>internal/engine/engine.go\<close> that write
  them: registration behind a \<open>sync.Once\<close>, the ticks of the metrics worker, the counters of transitions and of
  NTP checks. The values are exact numbers where the library keeps floats. Of the library it is used that registering a
  name twice panics and that a counter panics on a negative addition.
\<close>

subsection \<open>What is registered\<close>

datatype metric_kind = Counter | CounterVec "string list" | Gauge | Histogram | HistogramVec "string list"

record metric_opts =
  mo_Kind :: metric_kind
  mo_Namespace :: string
  mo_Subsystem :: string
  mo_Name :: string

text \<open>The metrics in the order of their registration; \<open>of_subsystem\<close> gives a group its subsystem.\<close>

definition of_subsystem :: "string \<Rightarrow> (metric_kind \<times> string) list \<Rightarrow> string \<Rightarrow> metric_opts list" where
  "of_subsystem sub ms ns = map (\<lambda>(k, name). \<lparr>mo_Kind = k, mo_Namespace = ns, mo_Subsystem = sub, mo_Name = name\<rparr>) ms"

definition bus_descs :: "string \<Rightarrow> metric_opts list" where
  "bus_descs = of_subsystem ''eventbus''
     [(CounterVec [''event_type''], ''events_published_total''),
      (Counter, ''events_dropped_total''),
      (Gauge, ''subscribers_count''),
      (Histogram, ''event_delivery_seconds'')]"

definition engine_descs :: "string \<Rightarrow> metric_opts list" where
  "engine_descs = of_subsystem ''engine''
     [(CounterVec [''from'', ''to''], ''state_transitions_total''),
      (Gauge, ''current_state''),
      (Gauge, ''uptime_seconds'')]"

definition ntp_descs :: "string \<Rightarrow> metric_opts list" where
  "ntp_descs = of_subsystem ''ntp''
     [(Gauge, ''drift_milliseconds''),
      (Counter, ''sync_errors_total''),
      (Gauge, ''last_sync_timestamp'')]"

definition order_descs :: "string \<Rightarrow> metric_opts list" where
  "order_descs = of_subsystem ''orders''
     [(CounterVec [''symbol''], ''created_total''),
      (CounterVec [''symbol''], ''submitted_total''),
      (CounterVec [''symbol''], ''filled_total''),
      (CounterVec [''symbol''], ''canceled_total''),
      (CounterVec [''symbol''], ''rejected_total'')]"

definition system_descs :: "string \<Rightarrow> metric_opts list" where
  "system_descs = of_subsystem ''system''
     [(Gauge, ''goroutines_count''),
      (Gauge, ''memory_bytes''),
      (Gauge, ''cpu_usage_percent'')]"

definition storage_descs :: "string \<Rightarrow> metric_opts list" where
  "storage_descs = of_subsystem ''storage''
     [(Counter, ''critical_writes_total''),
      (Counter, ''analytics_writes_total''),
      (Counter, ''analytics_drops_total'')]"

definition connector_descs :: "string \<Rightarrow> metric_opts list" where
  "connector_descs = of_subsystem ''connector''
     [(CounterVec [''error_type''], ''errors_total''),
      (HistogramVec [''operation''], ''request_duration_seconds''),
      (CounterVec [''message_type''], ''websocket_messages_total'')]"

definition descs :: "string \<Rightarrow> metric_opts list" where
  "descs ns = concat (map (\<lambda>group. group ns)
     [bus_descs, engine_descs, ntp_descs, order_descs, system_descs, storage_descs, connector_descs])"

lemmas descs_defs = descs_def of_subsystem_def bus_descs_def engine_descs_def ntp_descs_def order_descs_def system_descs_def storage_descs_def connector_descs_def

text \<open>\<open>prometheus.BuildFQName\<close> for three non-empty parts.\<close>

definition fq_name :: "metric_opts \<Rightarrow> string" where
  "fq_name d = mo_Namespace d @ ''_'' @ mo_Subsystem d @ ''_'' @ mo_Name d"

text \<open>\<open>promauto\<close>: a name that the registry has already is a panic, \<open>None\<close>.\<close>

fun register_all :: "metric_opts list \<Rightarrow> string list \<Rightarrow> string list option" where
  "register_all [] reg = Some reg"
| "register_all (d # ds) reg = (if fq_name d \<in> set reg then None else register_all ds (reg @ [fq_name d]))"

subsection \<open>The values\<close>

record metrics =
  me_EventsPublished :: "string \<Rightarrow> nat"
  me_EventsDropped :: nat
  me_EventSubscribers :: int
  me_EventDeliveryTime :: "duration list"
  me_StateTransitions :: "string \<Rightarrow> string \<Rightarrow> nat"
  me_CurrentState :: int
  me_EngineUptime :: int
  me_NTPDrift :: int
  me_NTPSyncErrors :: nat
  me_NTPLastSync :: int
  me_OrdersCreated :: "string \<Rightarrow> nat"
  me_OrdersSubmitted :: "string \<Rightarrow> nat"
  me_OrdersFilled :: "string \<Rightarrow> nat"
  me_OrdersCanceled :: "string \<Rightarrow> nat"
  me_OrdersRejected :: "string \<Rightarrow> nat"
  me_GoroutineCount :: nat
  me_MemoryUsage :: nat
  me_CPUUsage :: int
  me_CriticalWrites :: nat
  me_AnalyticsWrites :: nat
  me_AnalyticsDrops :: nat
  me_ConnectorErrors :: "string \<Rightarrow> nat"
  me_ConnectorLatency :: "string \<Rightarrow> duration list"
  me_WebSocketMessages :: "string \<Rightarrow> nat"

text \<open>A histogram is the list of what was observed.\<close>

definition zero_metrics :: metrics where
  "zero_metrics =
     \<lparr>me_EventsPublished = (\<lambda>_. 0), me_EventsDropped = 0, me_EventSubscribers = 0, me_EventDeliveryTime = [],
      me_StateTransitions = (\<lambda>_ _. 0), me_CurrentState = 0, me_EngineUptime = 0, me_NTPDrift = 0, me_NTPSyncErrors = 0,
      me_NTPLastSync = 0, me_OrdersCreated = (\<lambda>_. 0), me_OrdersSubmitted = (\<lambda>_. 0), me_OrdersFilled = (\<lambda>_. 0),
      me_OrdersCanceled = (\<lambda>_. 0), me_OrdersRejected = (\<lambda>_. 0), me_GoroutineCount = 0, me_MemoryUsage = 0, me_CPUUsage = 0,
      me_CriticalWrites = 0, me_AnalyticsWrites = 0, me_AnalyticsDrops = 0, me_ConnectorErrors = (\<lambda>_. 0),
      me_ConnectorLatency = (\<lambda>_. []), me_WebSocketMessages = (\<lambda>_. 0)\<rparr>"

text \<open>The package's variables: the registry of the process, and \<open>instance\<close>, which is set exactly when \<open>once\<close> is done.\<close>

record metrics_pkg =
  mp_registry :: "string list"
  mp_instance :: "metrics option"

definition metrics_New :: "string \<Rightarrow> metrics_pkg \<Rightarrow> metrics_pkg option" where
  "metrics_New namespace p =
     (case mp_instance p of
        Some _ \<Rightarrow> Some p
      | None \<Rightarrow> map_option (\<lambda>reg. \<lparr>mp_registry = reg, mp_instance = Some zero_metrics\<rparr>)
          (register_all (descs (if namespace = [] then ''kairos'' else namespace)) (mp_registry p)))"

definition UpdateSystemMetrics :: "nat \<Rightarrow> nat \<Rightarrow> metrics \<Rightarrow> metrics" where
  "UpdateSystemMetrics goroutines alloc m = m\<lparr>me_GoroutineCount := goroutines, me_MemoryUsage := alloc\<rparr>"

definition RecordEventDropped :: "64 word \<Rightarrow> metrics \<Rightarrow> metrics" where
  "RecordEventDropped n m = m\<lparr>me_EventsDropped := me_EventsDropped m + unat n\<rparr>"

definition counter_Add :: "64 word \<Rightarrow> nat \<Rightarrow> nat option" where
  "counter_Add v c = (if sint v < 0 then None else Some (c + nat (sint v)))"

definition RecordStorageStats :: "64 word \<Rightarrow> 64 word \<Rightarrow> 64 word \<Rightarrow> metrics \<Rightarrow> metrics option" where
  "RecordStorageStats criticalWrites analyticsWrites analyticsDrops m =
     (case counter_Add criticalWrites (me_CriticalWrites m) of
        None \<Rightarrow> None
      | Some cw \<Rightarrow>
          (case counter_Add analyticsWrites (me_AnalyticsWrites m) of
             None \<Rightarrow> None
           | Some aw \<Rightarrow> map_option (\<lambda>ad. m\<lparr>me_CriticalWrites := cw, me_AnalyticsWrites := aw, me_AnalyticsDrops := ad\<rparr>)
               (counter_Add analyticsDrops (me_AnalyticsDrops m))))"

subsection \<open>Where the engine writes them\<close>

fun state_number :: "estate \<Rightarrow> int" where
  "state_number StateIdle = 0"
| "state_number StateScanning = 1"
| "state_number StateLiveTrading = 2"
| "state_number StatePaperTrading = 3"
| "state_number StateBacktesting = 4"
| "state_number StateOptimizing = 5"
| "state_number StateHalted = 6"
| "state_number (StateOther n) = n"

definition metricsWorker_tick :: "nat \<Rightarrow> nat \<Rightarrow> estate \<Rightarrow> 'e event_bus \<Rightarrow> metrics \<Rightarrow> metrics" where
  "metricsWorker_tick goroutines alloc st eb m =
     RecordEventDropped (GetDroppedEventCount eb) ((UpdateSystemMetrics goroutines alloc m)\<lparr>me_CurrentState := state_number st\<rparr>)"

definition record_transition :: "estate \<Rightarrow> estate \<Rightarrow> metrics \<Rightarrow> metrics" where
  "record_transition from to m =
     m\<lparr>me_StateTransitions := (me_StateTransitions m)(estate_String from :=
        (me_StateTransitions m (estate_String from))(estate_String to := me_StateTransitions m (estate_String from) (estate_String to) + 1))\<rparr>"

definition record_ntp_failure :: "metrics \<Rightarrow> metrics" where
  "record_ntp_failure m = m\<lparr>me_NTPSyncErrors := me_NTPSyncErrors m + 1\<rparr>"

definition record_ntp_success :: "int \<Rightarrow> int \<Rightarrow> metrics \<Rightarrow> metrics" where
  "record_ntp_success drift_ms last_sync m = m\<lparr>me_NTPDrift := drift_ms, me_NTPLastSync := last_sync\<rparr>"

subsection \<open>Registration happens once and never panics\<close>

lemma register_all_fresh:
  "distinct (map fq_name ds) \<Longrightarrow> set (map fq_name ds) \<inter> set reg = {} \<Longrightarrow> register_all ds reg = Some (reg @ map fq_name ds)"
  by (induction ds arbitrary: reg) auto

lemma descs_distinct: "distinct (map fq_name (descs ns))"
  by (simp add: descs_defs fq_name_def)

lemma register_descs: "register_all (descs ns) [] = Some (map fq_name (descs ns))"
  using register_all_fresh [OF descs_distinct, of ns "[]"] by simp

lemma length_descs: "length (descs ns) = 24"
  by (simp add: descs_defs)

text \<open>The first engine of a process registers the metrics under distinct names; every later one, whatever namespace it asks
  for, gets the same instance and registers nothing.\<close>

theorem metrics_register_once:
  assumes "mp_instance p = None" "mp_registry p = []"
  shows "\<exists>p'. metrics_New ns p = Some p' \<and> distinct (mp_registry p') \<and> length (mp_registry p') = 24 \<and>
     mp_instance p' = Some zero_metrics \<and> (\<forall>ns'. metrics_New ns' p' = Some p')"
proof -
  have "metrics_New ns p = Some \<lparr>mp_registry = map fq_name (descs (if ns = [] then ''kairos'' else ns)), mp_instance = Some zero_metrics\<rparr>"
    using assms by (simp add: metrics_New_def register_descs)
  then show ?thesis using descs_distinct by (simp add: metrics_New_def length_descs)
qed

lemma metrics_register_once_witness:
  "\<exists>p'. metrics_New ''kairos'' \<lparr>mp_registry = [], mp_instance = None\<rparr> = Some p' \<and> metrics_New ''other'' p' = Some p'"
  using metrics_register_once [of "\<lparr>mp_registry = [], mp_instance = None\<rparr>" "''kairos''"] by auto

subsection \<open>What the counters say after a run\<close>

datatype metrics_op =
    OpMetricsTick nat nat estate "64 word"
  | OpMetricsTransition estate estate
  | OpNtpFailed
  | OpNtpSucceeded int int

fun metrics_apply :: "metrics_op \<Rightarrow> metrics \<Rightarrow> metrics" where
  "metrics_apply (OpMetricsTick g al st n) m = RecordEventDropped n ((UpdateSystemMetrics g al m)\<lparr>me_CurrentState := state_number st\<rparr>)"
| "metrics_apply (OpMetricsTransition f t) m = record_transition f t m"
| "metrics_apply OpNtpFailed m = record_ntp_failure m"
| "metrics_apply (OpNtpSucceeded d l) m = record_ntp_success d l m"

lemma metricsWorker_tick_op: "metricsWorker_tick g al st eb = metrics_apply (OpMetricsTick g al st (GetDroppedEventCount eb))"
  by (rule ext) (simp add: metricsWorker_tick_def)

fun tick_total :: "metrics_op \<Rightarrow> nat" where
  "tick_total (OpMetricsTick g al st n) = unat n"
| "tick_total _ = 0"

fun moves_between :: "string \<Rightarrow> string \<Rightarrow> metrics_op \<Rightarrow> bool" where
  "moves_between f t (OpMetricsTransition f' t') \<longleftrightarrow> estate_String f' = f \<and> estate_String t' = t"
| "moves_between f t _ \<longleftrightarrow> False"

text \<open>The failed NTP checks and the transitions are counted one by one; the counter of dropped events gets the bus's
  running total at every tick; and the metrics of orders and of storage stay zero, since nothing writes them.\<close>

theorem engine_metrics_account:
  "me_NTPSyncErrors (fold metrics_apply ops m) = me_NTPSyncErrors m + length (filter (\<lambda>op. op = OpNtpFailed) ops) \<and>
   me_StateTransitions (fold metrics_apply ops m) f t = me_StateTransitions m f t + length (filter (moves_between f t) ops) \<and>
   me_EventsDropped (fold metrics_apply ops m) = me_EventsDropped m + sum_list (map tick_total ops) \<and>
   me_OrdersCreated (fold metrics_apply ops m) = me_OrdersCreated m \<and>
   me_OrdersFilled (fold metrics_apply ops m) = me_OrdersFilled m \<and>
   me_AnalyticsDrops (fold metrics_apply ops m) = me_AnalyticsDrops m"
proof (induction ops arbitrary: m)
  case (Cons op ops)
  show ?case
    by (cases op) (auto simp: Cons.IH RecordEventDropped_def UpdateSystemMetrics_def record_transition_def record_ntp_failure_def
      record_ntp_success_def)
qed simp

text \<open>One drop is counted again at every tick: on a bus at rest the metric grows by the number of dropped events each ten
  seconds, though nothing is dropped any more.\<close>

theorem drops_are_counted_at_every_tick:
  "me_EventsDropped ((metricsWorker_tick g al st eb ^^ n) m) = me_EventsDropped m + n * unat (GetDroppedEventCount eb)"
  by (induction n) (simp_all add: metricsWorker_tick_op RecordEventDropped_def UpdateSystemMetrics_def)

text \<open>The gauge tells the state: the number in its help text.\<close>

lemma state_number_inj: "s \<in> range StateOther \<or> t \<in> range StateOther \<or> (state_number s = state_number t \<longleftrightarrow> s = t)"
  by (cases s; cases t) simp_all

text \<open>A negative statistic is a panic of the library; the others add up.\<close>

theorem storage_stats_add_up:
  "RecordStorageStats cw aw ad m =
     (if sint cw < 0 \<or> sint aw < 0 \<or> sint ad < 0 then None
      else Some (m\<lparr>me_CriticalWrites := me_CriticalWrites m + nat (sint cw), me_AnalyticsWrites := me_AnalyticsWrites m + nat (sint aw),
        me_AnalyticsDrops := me_AnalyticsDrops m + nat (sint ad)\<rparr>))"
  by (simp add: RecordStorageStats_def counter_Add_def)

end
