(* ===== verification/Cloud_Client.thy ===== *)
theory Cloud_Client
  imports Go_Text "HOL-Library.List_Lexorder" "HOL-Library.Char_ord"
begin

text \<open>
  The client of the cloud service, \<open>internal/providers/cloud/client.go\<close>, and the command \<open>kairos update check\<close>: what a
  client accepts as its address, the request that is built with its query and headers, and what becomes of each answer.
  Parsing of URLs, the HTTP transport and JSON are parameters (\<open>cloud_lib\<close>); the encoding of a query is modelled, with the
  decoding of the server as its reference. The text that the command prints is left out.
\<close>

subsection \<open>The encoding of a query\<close>

definition unreserved :: "char \<Rightarrow> bool" where
  "unreserved c \<longleftrightarrow>
     (let n = of_char c :: nat
      in (48 \<le> n \<and> n \<le> 57) \<or> (65 \<le> n \<and> n \<le> 90) \<or> (97 \<le> n \<and> n \<le> 122) \<or> c \<in> {CHR ''-'', CHR ''_'', CHR ''.'', CHR ''~''})"

definition hex_char :: "nat \<Rightarrow> char" where
  "hex_char n = (if n < 10 then char_of (48 + n) else char_of (55 + n))"

text \<open>\<open>url.QueryEscape\<close>.\<close>

fun query_escape :: "string \<Rightarrow> string" where
  "query_escape [] = []"
| "query_escape (c # cs) =
     (if unreserved c then [c]
      else if c = CHR '' '' then ''+''
      else [CHR ''%'', hex_char (of_char c div 16), hex_char (of_char c mod 16)]) @ query_escape cs"

text \<open>\<open>Values.Encode\<close> for one value per key.\<close>

definition values_Encode :: "(string \<times> string) list \<Rightarrow> string" where
  "values_Encode vs = joined CHR ''&'' (map (\<lambda>(k, v). query_escape k @ ''='' @ query_escape v) (sort_key fst vs))"

subsection \<open>The client\<close>

type_synonym http_client = duration

record cloud_settings =
  cc_BaseURL :: string
  cc_AccessToken :: string
  cc_UserAgent :: string
  cc_Timeout :: duration
  cc_HTTPClient :: "http_client option"

record cloud_client =
  cl_baseURL :: string
  cl_accessToken :: string
  cl_userAgent :: string
  cl_httpClient :: http_client

record http_request =
  rq_Method :: string
  rq_URL :: string
  rq_Header :: "(string \<times> string) list"
  rq_Body :: "string option"

record http_response =
  rp_StatusCode :: int
  rp_Body :: string

record handshake_input =
  hs_OrganizationID :: string
  hs_Fingerprint :: string
  hs_Name :: string
  hs_Platform :: string
  hs_AgentVersion :: string
  hs_Status :: string
  hs_TelemetryOptIn :: bool

record handshake_output =
  ho_DeviceID :: string
  ho_TrustLevel :: string
  ho_TelemetryOn :: bool

record release_metadata =
  rm_ID :: string
  rm_Version :: string
  rm_Channel :: string
  rm_Criticality :: string
  rm_NotesURL :: string
  rm_PublishedAt :: string

record artifact =
  af_ID :: string
  af_OS :: string
  af_Arch :: string
  af_URL :: string
  af_SHA256 :: string
  af_Signature :: string
  af_SizeBytes :: int

record update_response =
  up_UpdateAvailable :: bool
  up_Release :: "release_metadata option"
  up_Artifact :: "artifact option"

record update_query =
  uq_CurrentVersion :: string
  uq_Channel :: string
  uq_OS :: string
  uq_Arch :: string

text \<open>The libraries: \<open>lb_parse\<close> gives the scheme and the host.\<close>

record cloud_lib =
  lb_parse :: "string \<Rightarrow> string + (string \<times> string)"
  lb_request_error :: "http_request \<Rightarrow> string option"
  lb_do :: "http_client \<Rightarrow> http_request \<Rightarrow> string + http_response"
  lb_encode :: "handshake_input \<Rightarrow> string + string"
  lb_decode_handshake :: "string \<Rightarrow> string + handshake_output"
  lb_decode_update :: "string \<Rightarrow> string + update_response"
  lb_goos :: string
  lb_goarch :: string

datatype cloud_error =
    ErrDisabled | ErrUnauthorized | ErrNoUpdateAvailable | InvalidBaseURL "string option" | SchemeNotHTTP
  | EncodeFailed string | RequestFailed string | TransportFailed string | StatusFailed int string | DecodeFailed string

definition trim_slashes :: "string \<Rightarrow> string" where
  "trim_slashes s = rev (dropWhile (\<lambda>c. c = CHR ''/'') (rev s))"

text \<open>The third error is what an address without a scheme or a host gets: the library had no error to wrap.\<close>

definition NewClient :: "cloud_lib \<Rightarrow> cloud_settings \<Rightarrow> cloud_error + cloud_client" where
  "NewClient B cfg =
     (let baseURL = trim_slashes (TrimSpace (cc_BaseURL cfg)) in
      if baseURL = [] then Err ErrDisabled
      else case lb_parse B baseURL of
        Inl e \<Rightarrow> Err (InvalidBaseURL (Some e))
      | Inr (scheme, host) \<Rightarrow>
          if scheme = [] \<or> host = [] then Err (InvalidBaseURL None)
          else if scheme \<noteq> ''http'' \<and> scheme \<noteq> ''https'' then Err SchemeNotHTTP
          else
            (let timeout = (if cc_Timeout cfg \<le> 0 then 10 * second else cc_Timeout cfg)
             in Ok \<lparr>cl_baseURL = baseURL, cl_accessToken = cc_AccessToken cfg,
                    cl_userAgent = (if cc_UserAgent cfg = [] then ''kairos-agent'' else cc_UserAgent cfg),
                    cl_httpClient = (case cc_HTTPClient cfg of None \<Rightarrow> timeout | Some t \<Rightarrow> if t = 0 then timeout else t)\<rparr>))"

definition cloud_request :: "cloud_client \<Rightarrow> string \<Rightarrow> string \<Rightarrow> string option \<Rightarrow> http_request" where
  "cloud_request c method path body =
     \<lparr>rq_Method = method, rq_URL = cl_baseURL c @ path,
      rq_Header = [(''Accept'', ''application/json''), (''User-Agent'', cl_userAgent c)] @
        (if body \<noteq> None then [(''Content-Type'', ''application/json'')] else []) @
        (if cl_accessToken c \<noteq> [] then [(''Authorization'', ''Bearer '' @ cl_accessToken c)] else []),
      rq_Body = body\<rparr>"

text \<open>\<open>input\<close> is the payload with the result of encoding it.\<close>

definition doJSON ::
  "cloud_lib \<Rightarrow> cloud_client \<Rightarrow> string \<Rightarrow> string \<Rightarrow> (string + string) option \<Rightarrow> (string \<Rightarrow> string + 'o) \<Rightarrow> cloud_error + 'o" where
  "doJSON B c method path input decode =
     (case input of
        Some (Inl e) \<Rightarrow> Err (EncodeFailed e)
      | _ \<Rightarrow>
          (let req = cloud_request c method path (case input of Some (Inr payload) \<Rightarrow> Some payload | _ \<Rightarrow> None) in
           case lb_request_error B req of
             Some e \<Rightarrow> Err (RequestFailed e)
           | None \<Rightarrow>
               (case lb_do B (cl_httpClient c) req of
                  Inl e \<Rightarrow> Err (TransportFailed e)
                | Inr resp \<Rightarrow>
                    if rp_StatusCode resp = 401 \<or> rp_StatusCode resp = 403 then Err ErrUnauthorized
                    else if rp_StatusCode resp < 200 \<or> 300 \<le> rp_StatusCode resp
                      then Err (StatusFailed (rp_StatusCode resp) (TrimSpace (take 512 (rp_Body resp))))
                    else (case decode (take (2 ^ 20) (rp_Body resp)) of Inl e \<Rightarrow> Err (DecodeFailed e) | Inr x \<Rightarrow> Ok x))))"

definition Handshake :: "cloud_lib \<Rightarrow> cloud_client \<Rightarrow> handshake_input \<Rightarrow> cloud_error + handshake_output" where
  "Handshake B c inp =
     (let inp' = (if hs_Platform inp = [] then inp\<lparr>hs_Platform := lb_goos B\<rparr> else inp)
      in doJSON B c ''POST'' ''/api/v1/agent/handshake'' (Some (lb_encode B inp')) (lb_decode_handshake B))"

definition query_values :: "cloud_lib \<Rightarrow> update_query \<Rightarrow> (string \<times> string) list" where
  "query_values B q =
     [(''current_version'', uq_CurrentVersion q),
      (''channel'', if uq_Channel q = [] then ''stable'' else uq_Channel q),
      (''os'', if uq_OS q = [] then lb_goos B else uq_OS q),
      (''arch'', if uq_Arch q = [] then lb_goarch B else uq_Arch q)]"

definition no_update :: update_response where
  "no_update = \<lparr>up_UpdateAvailable = False, up_Release = None, up_Artifact = None\<rparr>"

definition CheckUpdate :: "cloud_lib \<Rightarrow> cloud_client \<Rightarrow> update_query \<Rightarrow> update_response \<times> cloud_error option" where
  "CheckUpdate B c q =
     (case doJSON B c ''GET'' (''/api/v1/releases/update?'' @ values_Encode (query_values B q)) None (lb_decode_update B) of
        Inl e \<Rightarrow> (no_update, Some e)
      | Inr out \<Rightarrow> if up_UpdateAvailable out then (out, None) else (out, Some ErrNoUpdateAvailable))"

subsection \<open>The command\<close>

datatype update_check =
    CloudNotConfigured | LatestVersion | CheckFailed cloud_error | IncompleteMetadata
  | VerifiedUpdate release_metadata string string string

text \<open>\<open>VerifiedUpdate\<close> prints that signed metadata was verified, the release, the platform and the checksum.\<close>

definition update_report :: "update_response \<times> cloud_error option \<Rightarrow> update_check" where
  "update_report res =
     (case res of
        (out, Some e) \<Rightarrow> if e = ErrNoUpdateAvailable then LatestVersion else CheckFailed e
      | (out, None) \<Rightarrow>
          (case (up_Release out, up_Artifact out) of
             (Some r, Some f) \<Rightarrow> VerifiedUpdate r (af_OS f) (af_Arch f) (af_SHA256 f)
           | _ \<Rightarrow> IncompleteMetadata))"

definition runUpdateCheck :: "cloud_lib \<Rightarrow> string \<Rightarrow> string \<Rightarrow> string \<Rightarrow> string \<Rightarrow> update_check" where
  "runUpdateCheck B version channel cloudURL token =
     (case NewClient B \<lparr>cc_BaseURL = cloudURL, cc_AccessToken = token, cc_UserAgent = ''kairos-agent/'' @ version,
             cc_Timeout = 10 * second, cc_HTTPClient = None\<rparr> of
        Inl e \<Rightarrow> if e = ErrDisabled then CloudNotConfigured else CheckFailed e
      | Inr client \<Rightarrow>
          update_report (CheckUpdate B client
            \<lparr>uq_CurrentVersion = version, uq_Channel = channel, uq_OS = lb_goos B, uq_Arch = lb_goarch B\<rparr>))"

subsection \<open>The server reads what was asked\<close>

text \<open>The decoding of a query as the server's \<open>url.ParseQuery\<close> does it, for queries without a semicolon.\<close>

definition hex_value :: "char \<Rightarrow> nat option" where
  "hex_value c =
     (let n = of_char c :: nat
      in if 48 \<le> n \<and> n \<le> 57 then Some (n - 48) else if 65 \<le> n \<and> n \<le> 70 then Some (n - 55)
         else if 97 \<le> n \<and> n \<le> 102 then Some (n - 87) else None)"

fun query_unescape :: "string \<Rightarrow> string option" where
  "query_unescape [] = Some []"
| "query_unescape (c # cs) =
     (if c = CHR ''%'' then
        (case cs of
           h # l # rest \<Rightarrow>
             (case (hex_value h, hex_value l) of
                (Some x, Some y) \<Rightarrow> map_option ((#) (char_of (16 * x + y))) (query_unescape rest)
              | _ \<Rightarrow> None)
         | _ \<Rightarrow> None)
      else map_option ((#) (if c = CHR ''+'' then CHR '' '' else c)) (query_unescape cs))"

fun cut_equals :: "string \<Rightarrow> string \<times> string" where
  "cut_equals [] = ([], [])"
| "cut_equals (c # cs) = (if c = CHR ''='' then ([], cs) else (case cut_equals cs of (k, v) \<Rightarrow> (c # k, v)))"

definition parse_pair :: "string \<Rightarrow> (string \<times> string) option" where
  "parse_pair p =
     (case cut_equals p of
        (k, v) \<Rightarrow> (case (query_unescape k, query_unescape v) of (Some k', Some v') \<Rightarrow> Some (k', v') | _ \<Rightarrow> None))"

fun all_some :: "'a option list \<Rightarrow> 'a list option" where
  "all_some [] = Some []"
| "all_some (None # xs) = None"
| "all_some (Some x # xs) = map_option ((#) x) (all_some xs)"

definition ParseQuery :: "string \<Rightarrow> (string \<times> string) list option" where
  "ParseQuery s = all_some (map parse_pair (filter (\<lambda>p. p \<noteq> []) (split_at_char CHR ''&'' s)))"

lemma hex_value_char: "n < 16 \<Longrightarrow> hex_value (hex_char n) = Some n"
  by (simp add: hex_value_def hex_char_def Let_def)

lemma char_halves: "char_of (16 * (of_char c div 16) + of_char c mod 16 :: nat) = (c :: char)"
  by simp

lemma high_half: "(of_char c :: nat) div 16 < 16"
proof (rule less_mult_imp_div_less)
  show "(of_char c :: nat) < 16 * 16" by simp
qed

lemma plain_chars: "\<not> unreserved (CHR ''%'')" "\<not> unreserved (CHR ''+'')" "\<not> unreserved (CHR ''&'')" "\<not> unreserved (CHR ''='')"
  by (simp_all add: unreserved_def Let_def)

lemma unescape_escape: "query_unescape (query_escape s) = Some s"
proof (induction s)
  case (Cons c s)
  consider (kept) "unreserved c" "c \<noteq> CHR ''%''" "c \<noteq> CHR ''+''" | (space) "\<not> unreserved c" "c = CHR '' ''" | (coded) "\<not> unreserved c" "c \<noteq> CHR '' ''"
    using plain_chars by blast
  then show ?case using Cons by cases (simp_all add: hex_value_char char_halves high_half)
qed simp

lemma escape_chars: "c \<in> set (query_escape s) \<Longrightarrow> unreserved c \<or> c = CHR ''+'' \<or> c = CHR ''%''"
proof (induction s)
  case (Cons d s)
  have "unreserved (hex_char n)" if "n < 16" for n
    using that by (simp add: unreserved_def hex_char_def Let_def)
  then have "unreserved (hex_char (of_char d div 16))" "unreserved (hex_char (of_char d mod 16))"
    using high_half by simp_all
  then show ?case using Cons by (auto split: if_splits)
qed simp

lemma escape_plain: "CHR ''&'' \<notin> set (query_escape s)" "CHR ''='' \<notin> set (query_escape s)"
  using escape_chars plain_chars by fastforce+

lemma cut_equals_pair: "CHR ''='' \<notin> set k \<Longrightarrow> cut_equals (k @ CHR ''='' # v) = (k, v)"
  by (induction k) auto

lemma parse_pair_escaped: "parse_pair (query_escape k @ CHR ''='' # query_escape v) = Some (k, v)"
  by (simp add: parse_pair_def cut_equals_pair escape_plain unescape_escape)

lemma all_some_map: "all_some (map Some xs) = Some xs"
  by (induction xs) simp_all


subsection \<open>Clients and answers\<close>

lemma trim_slashes_last: "trim_slashes s \<noteq> [] \<Longrightarrow> last (trim_slashes s) \<noteq> CHR ''/''"
proof -
  assume "trim_slashes s \<noteq> []"
  then have "dropWhile (\<lambda>c. c = CHR ''/'') (rev s) \<noteq> []" by (simp add: trim_slashes_def)
  then show ?thesis using hd_dropWhile [of "\<lambda>c. c = CHR ''/''" "rev s"] by (simp add: trim_slashes_def last_rev)
qed

text \<open>A client that was made has an address of the web without a slash at its end, a name, and a time limit, so that
  paths can be appended and no request hangs.\<close>

theorem client_is_usable:
  assumes "NewClient B cfg = Ok c"
  shows "(\<exists>scheme host. lb_parse B (cl_baseURL c) = Ok (scheme, host) \<and> scheme \<in> {''http'', ''https''} \<and> host \<noteq> []) \<and>
     last (cl_baseURL c) \<noteq> CHR ''/'' \<and> cl_userAgent c \<noteq> [] \<and> cl_httpClient c \<noteq> 0"
  using assms trim_slashes_last [of "TrimSpace (cc_BaseURL cfg)"]
  by (auto simp: NewClient_def Let_def second_def millisecond_def split: if_splits sum.splits prod.splits option.splits)

definition lift_sum :: "('e \<Rightarrow> 'f) \<Rightarrow> 'e + 'a \<Rightarrow> 'f + 'a" where
  "lift_sum f r = (case r of Inl e \<Rightarrow> Err (f e) | Inr x \<Rightarrow> Ok x)"

text \<open>What the transport answers decides the result: a refused token, another status, or a body that decodes.\<close>

theorem answer_decides:
  assumes "lb_request_error B (cloud_request c method path None) = None"
    and "lb_do B (cl_httpClient c) (cloud_request c method path None) = Ok resp"
  shows "doJSON B c method path None decode =
     (if rp_StatusCode resp \<in> {401, 403} then Err ErrUnauthorized
      else if rp_StatusCode resp \<notin> {200..299} then Err (StatusFailed (rp_StatusCode resp) (TrimSpace (take 512 (rp_Body resp))))
      else lift_sum DecodeFailed (decode (take (2 ^ 20) (rp_Body resp))))"
  using assms by (auto simp: doJSON_def lift_sum_def Let_def split: sum.split)

text \<open>The command says that signed metadata was verified and looks at no signature: whatever signature and address the
  artifact of an answer has, the report is the same.\<close>

theorem update_check_verifies_nothing:
  assumes "up_UpdateAvailable out" "up_Release out = Some r" "up_Artifact out = Some f"
  shows "update_report (out\<lparr>up_Artifact := Some (f\<lparr>af_Signature := sig, af_URL := url\<rparr>)\<rparr>, None) =
     VerifiedUpdate r (af_OS f) (af_Arch f) (af_SHA256 f)"
  using assms by (simp add: update_report_def)

end
