(* ===== verification/Tui_Render.thy ===== *)
theory Tui_Render
  imports Tui Snapshot_Store
begin

text \<open>
  The drawing of the terminal interface: the styles of \<open>internal/tui/styles\<close> and the \<open>Render\<close> methods of
  \<open>internal/tui/components\<close> as the text they hand to the terminal. The lipgloss library (applying a style, joining blocks,
  measuring) is a parameter, as are the library's text field, the clock and the wording of the exchange's enumerations.
  \<open>None\<close> is a panic: a separator of negative length or a slice that does not fit.
\<close>

subsection \<open>Styles\<close>

datatype border = NoBorder | RoundedBorder | NormalBottomBorder

record style =
  sy_Foreground :: string
  sy_Background :: string
  sy_Bold :: bool
  sy_Italic :: bool
  sy_Padding :: "nat \<times> nat"
  sy_MarginRight :: nat
  sy_Border :: border
  sy_BorderForeground :: string
  sy_Width :: "int option"
  sy_Height :: "int option"

definition NewStyle :: style where
  "NewStyle = \<lparr>sy_Foreground = [], sy_Background = [], sy_Bold = False, sy_Italic = False, sy_Padding = (0, 0), sy_MarginRight = 0,
     sy_Border = NoBorder, sy_BorderForeground = [], sy_Width = None, sy_Height = None\<rparr>"

definition ColorPrimary :: string where "ColorPrimary = ''#00D9FF''"
definition ColorSuccess :: string where "ColorSuccess = ''#00FF88''"
definition ColorWarning :: string where "ColorWarning = ''#FFB800''"
definition ColorDanger :: string where "ColorDanger = ''#FF4444''"
definition ColorMuted :: string where "ColorMuted = ''#666666''"
definition ColorBackground :: string where "ColorBackground = ''#1a1a1a''"
definition ColorForeground :: string where "ColorForeground = ''#ffffff''"

definition coloured :: "string \<Rightarrow> style" where
  "coloured c = NewStyle\<lparr>sy_Foreground := c\<rparr>"

definition strong :: "string \<Rightarrow> style" where
  "strong c = (coloured c)\<lparr>sy_Bold := True\<rparr>"

definition BaseStyle :: style where "BaseStyle = (coloured ColorForeground)\<lparr>sy_Background := ColorBackground\<rparr>"
definition TopBarStyle :: style where
  "TopBarStyle = (strong ColorForeground)\<lparr>sy_Background := ''#2a2a2a'', sy_Padding := (0, 1)\<rparr>"
definition StatusIdleStyle :: style where "StatusIdleStyle = strong ColorMuted"
definition StatusActiveStyle :: style where "StatusActiveStyle = strong ColorSuccess"
definition StatusWarningStyle :: style where "StatusWarningStyle = strong ColorWarning"
definition StatusDangerStyle :: style where "StatusDangerStyle = strong ColorDanger"
definition BottomBarStyle :: style where
  "BottomBarStyle = (coloured ColorMuted)\<lparr>sy_Background := ''#2a2a2a'', sy_Padding := (0, 1)\<rparr>"
definition CommandInputStyle :: style where "CommandInputStyle = strong ColorPrimary"
definition LogInfoStyle :: style where "LogInfoStyle = coloured ColorForeground"
definition LogWarningStyle :: style where "LogWarningStyle = coloured ColorWarning"
definition LogErrorStyle :: style where "LogErrorStyle = coloured ColorDanger"
definition LogSuccessStyle :: style where "LogSuccessStyle = coloured ColorSuccess"
definition TableHeaderStyle :: style where
  "TableHeaderStyle = (strong ColorPrimary)\<lparr>sy_Border := NormalBottomBorder, sy_BorderForeground := ColorMuted\<rparr>"
definition BorderStyle :: style where
  "BorderStyle = NewStyle\<lparr>sy_Border := RoundedBorder, sy_BorderForeground := ColorMuted, sy_Padding := (1, 2)\<rparr>"
definition TitleStyle :: style where "TitleStyle = (strong ColorPrimary)\<lparr>sy_Padding := (0, 1)\<rparr>"
definition HelpStyle :: style where "HelpStyle = (coloured ColorMuted)\<lparr>sy_Italic := True\<rparr>"

definition sized :: "int \<Rightarrow> int \<Rightarrow> style \<Rightarrow> style" where
  "sized w h st = st\<lparr>sy_Width := Some w, sy_Height := Some h\<rparr>"

subsection \<open>The library\<close>

text \<open>Blocks are joined at their left or top edges only.\<close>

record ('d, 'w) screen =
  sc_render :: "style \<Rightarrow> string \<Rightarrow> string"
  sc_vertical :: "string list \<Rightarrow> string"
  sc_horizontal :: "string list \<Rightarrow> string"
  sc_width :: "string \<Rightarrow> int"
  sc_runes :: "string \<Rightarrow> nat"
  sc_clock :: "time \<Rightarrow> string"
  sc_fixed2 :: "'d \<Rightarrow> string"
  sc_input :: "'w \<Rightarrow> string"
  sc_side :: "order_side \<Rightarrow> string"
  sc_type :: "order_type \<Rightarrow> string"
  sc_status :: "order_status \<Rightarrow> string"
  sc_pside :: "position_side \<Rightarrow> string"
  sc_strategy :: "strategy_status \<Rightarrow> string"
  sc_mode :: "run_mode \<Rightarrow> string"

definition newline_joined :: "string list \<Rightarrow> string" where
  "newline_joined = joined (CHR 0x0A)"

text \<open>The verbs \<open>%-ns\<close> and \<open>%ns\<close> of \<open>fmt\<close>, and \<open>padRight\<close>.\<close>

definition fmt_left :: "('d, 'w) screen \<Rightarrow> nat \<Rightarrow> string \<Rightarrow> string" where
  "fmt_left S n s = s @ replicate (n - sc_runes S s) CHR '' ''"

definition fmt_right :: "('d, 'w) screen \<Rightarrow> nat \<Rightarrow> string \<Rightarrow> string" where
  "fmt_right S n s = replicate (n - sc_runes S s) CHR '' '' @ s"

definition padRight :: "('d, 'w) screen \<Rightarrow> string \<Rightarrow> int \<Rightarrow> string" where
  "padRight S s w = (if sc_width S s \<ge> w then s else s @ replicate (nat (w - sc_width S s)) CHR '' '')"

definition horizontal_bar :: string where "horizontal_bar = [CHR 0xE2, CHR 0x94, CHR 0x80]"
definition vertical_bar :: string where "vertical_bar = [CHR 0xE2, CHR 0x94, CHR 0x82]"
definition bullet :: string where "bullet = [CHR 0xE2, CHR 0x97, CHR 0x8F]"
definition left_arrow :: string where "left_arrow = [CHR 0xE2, CHR 0x86, CHR 0x90]"
definition right_arrow :: string where "right_arrow = [CHR 0xE2, CHR 0x86, CHR 0x92]"

text \<open>\<open>strings.Repeat\<close> panics on a negative count.\<close>

definition Repeat :: "string \<Rightarrow> int \<Rightarrow> string option" where
  "Repeat s n = (if n < 0 then None else Some (concat (replicate (nat n) s)))"

definition boxed :: "('d, 'w) screen \<Rightarrow> int \<Rightarrow> string \<Rightarrow> string" where
  "boxed S w content = sc_render S (BorderStyle\<lparr>sy_Width := Some w\<rparr>) content"

definition titled :: "('d, 'w) screen \<Rightarrow> string \<Rightarrow> string \<Rightarrow> string" where
  "titled S title box = sc_vertical S [sc_render S TitleStyle title, box]"

definition section_of :: "('d, 'w) screen \<Rightarrow> int \<Rightarrow> string \<Rightarrow> string \<Rightarrow> string" where
  "section_of S w title content = titled S title (boxed S (w - 4) content)"

definition plain_block :: "('d, 'w) screen \<Rightarrow> int \<Rightarrow> int \<Rightarrow> string \<Rightarrow> string" where
  "plain_block S w h s = sc_render S (sized w h NewStyle) s"

definition empty_box :: "('d, 'w) screen \<Rightarrow> int \<Rightarrow> int \<Rightarrow> string \<Rightarrow> string" where
  "empty_box S w h msg = sc_render S (sized (w - 4) (h - 2) BorderStyle) (sc_render S HelpStyle msg)"

subsection \<open>Dashboard\<close>

definition colorizeMode :: "('d, 'w) screen \<Rightarrow> string \<Rightarrow> string" where
  "colorizeMode S m =
     sc_render S
       (if m = ''live_trading'' then strong ColorDanger
        else if m = ''paper_trading'' then coloured ColorSuccess
        else if m = ''scanning'' then coloured ColorPrimary
        else coloured ColorMuted) m"

definition colorizeConnectivity :: "('d, 'w) screen \<Rightarrow> string \<Rightarrow> string" where
  "colorizeConnectivity S c =
     sc_render S
       (if c = ''connected'' then coloured ColorSuccess
        else if c = ''reconnecting'' then coloured ColorWarning
        else if c = ''network_waiting'' then coloured ColorDanger
        else coloured ColorMuted) c"

definition colorizeLicense :: "('d, 'w) screen \<Rightarrow> string \<Rightarrow> string" where
  "colorizeLicense S l =
     sc_render S
       (if l = ''licensed'' then coloured ColorSuccess
        else if l = ''demo'' then coloured ColorPrimary
        else if l = ''grace'' then coloured ColorWarning
        else coloured ColorDanger) l"

definition colorizePnL :: "('d, 'w) screen \<Rightarrow> string \<Rightarrow> string" where
  "colorizePnL S p =
     (if HasPrefix p ''+'' then sc_render S (strong ColorSuccess) p
      else if HasPrefix p ''-'' then sc_render S (strong ColorDanger) p
      else p)"

definition renderSystemStatus :: "('d, 'w) screen \<Rightarrow> int \<Rightarrow> system_status \<Rightarrow> string" where
  "renderSystemStatus S w st =
     (let content = ''Mode: '' @ colorizeMode S (run_mode_string (ss_Mode st)) @
            ''    Connectivity: '' @ colorizeConnectivity S (connectivity_string (ss_Connectivity st)) @ [CHR 0x0A] @
            ''License: '' @ colorizeLicense S (license_string (ss_License st)) @ ''     Uptime: '' @ ss_Uptime st;
          halt = ''Halted: '' @ ss_HaltReason st @ (if ss_HaltedAt st \<noteq> [] then '' at '' @ ss_HaltedAt st else [])
      in section_of S w ''System Status''
           (if ss_HaltReason st \<noteq> [] then content @ [CHR 0x0A] @ sc_render S LogErrorStyle halt else content))"

definition renderPerformance :: "('d, 'w) screen \<Rightarrow> int \<Rightarrow> performance \<Rightarrow> string" where
  "renderPerformance S w p =
     (let column = NewStyle\<lparr>sy_Width := Some ((w - 8) sdiv 2)\<rparr>
      in section_of S w ''Performance'' (sc_horizontal S
          [sc_render S column
             (''Total PnL:      '' @ colorizePnL S (pf_TotalPnL p) @ [CHR 0x0A] @ ''Daily PnL:      '' @ colorizePnL S (pf_DailyPnL p) @
              [CHR 0x0A] @ ''Open Positions: '' @ nat_text (pf_OpenPositions p)),
           sc_render S (NewStyle\<lparr>sy_Width := Some 4\<rparr>) vertical_bar,
           sc_render S column
             (''Win Rate:     '' @ pf_WinRate p @ [CHR 0x0A] @ ''Total Trades: '' @ nat_text (pf_TotalTrades p) @ [CHR 0x0A] @
              ''Active Orders: '' @ nat_text (pf_ActiveOrders p))]))"

definition renderActiveStrategies :: "('d, 'w) screen \<Rightarrow> int \<Rightarrow> strategy_view list \<Rightarrow> string" where
  "renderActiveStrategies S w xs =
     section_of S w ''Active Strategies'' (newline_joined
       (map (\<lambda>x. fmt_left S 20 (sv_Name x) @ '' '' @ fmt_left S 10 (sc_strategy S (sv_Status x)) @ '' PnL: '' @ colorizePnL S (sv_PnL x)) xs))"

definition renderActiveOrders :: "('d, 'w) screen \<Rightarrow> int \<Rightarrow> order_view list \<Rightarrow> string" where
  "renderActiveOrders S w xs =
     section_of S w ''Active Orders (Recent 5)'' (newline_joined
       (map (\<lambda>x. joined (CHR '' '')
          [fmt_left S 10 (ov_Symbol x), fmt_left S 4 (sc_side S (ov_Side x)), fmt_left S 5 (sc_type S (ov_Type x)),
           fmt_right S 8 (ov_Qty x), fmt_right S 10 (ov_Price x), fmt_left S 10 (sc_status S (ov_Status x))]) xs))"

definition renderRecentActivity :: "('d, 'w) screen \<Rightarrow> int \<Rightarrow> (string \<times> string) list \<Rightarrow> string" where
  "renderRecentActivity S w xs = section_of S w ''Recent Activity'' (newline_joined (map (\<lambda>(stamp, msg). stamp @ '' '' @ msg) xs))"

definition dashboard_Render :: "('d, 'w) screen \<Rightarrow> int \<Rightarrow> int \<Rightarrow> dashboard_view option \<Rightarrow> string" where
  "dashboard_Render S w h vm =
     (case vm of
        None \<Rightarrow> plain_block S w h ''Loading dashboard...''
      | Some v \<Rightarrow> sc_vertical S
          ([renderSystemStatus S w (dv_SystemStatus v), renderPerformance S w (dv_Performance v)] @
           (if dv_ActiveStrategies v \<noteq> [] then [renderActiveStrategies S w (dv_ActiveStrategies v)] else []) @
           (if dv_ActiveOrders v \<noteq> [] then [renderActiveOrders S w (dv_ActiveOrders v)] else []) @
           (if dv_RecentActivity v \<noteq> [] then [renderRecentActivity S w (dv_RecentActivity v)] else [])))"

subsection \<open>Tables\<close>

definition table_header :: "('d, 'w) screen \<Rightarrow> (string \<times> int) list \<Rightarrow> string" where
  "table_header S cols = sc_render S TableHeaderStyle (joined (CHR '' '') (map (\<lambda>(c, w). padRight S c w) cols))"

definition table_row :: "('d, 'w) screen \<Rightarrow> (string \<times> int) list \<Rightarrow> string" where
  "table_row S cols = joined (CHR '' '') (map (\<lambda>(c, w). padRight S c w) cols)"

text \<open>Title, header, rows and footer between two separators.\<close>

definition table_Render :: "('d, 'w) screen \<Rightarrow> int \<Rightarrow> string \<Rightarrow> string \<Rightarrow> string list \<Rightarrow> string \<Rightarrow> string option" where
  "table_Render S w title header rows footer =
     map_option (\<lambda>separator. section_of S w title (sc_vertical S [header, separator, newline_joined rows, separator, footer]))
       (Repeat horizontal_bar (w - 8))"

definition pnl_color :: "string \<Rightarrow> string" where
  "pnl_color p = (if HasPrefix p ''-'' then ColorDanger else ColorSuccess)"

definition positions_header :: "('d, 'w) screen \<Rightarrow> string" where
  "positions_header S = table_header S
     [(''Symbol'', 10), (''Side'', 6), (''Qty'', 10), (''Entry'', 12), (''Current'', 12), (''PnL'', 12), (''%'', 8), (''Time'', 10)]"

definition positions_row :: "('d, 'w) screen \<Rightarrow> position_view \<Rightarrow> string" where
  "positions_row S p =
     (let side = sc_pside S (pv_Side p);
          side_color = (if side = ''short'' \<or> side = ''SHORT'' then ColorDanger else ColorSuccess)
      in table_row S
        [(pv_Symbol p, 10), (sc_render S (coloured side_color) side, 6), (pv_Qty p, 10), (pv_EntryPrice p, 12), (pv_CurrentPrice p, 12),
         (sc_render S (strong (pnl_color (pv_PnL p))) (pv_PnL p), 12), (sc_render S (coloured (pnl_color (pv_PnL p))) (pv_PnLPercent p), 8),
         (pv_EntryTime p, 10)])"

definition positions_footer :: "('d, 'w) screen \<Rightarrow> positions_view \<Rightarrow> string" where
  "positions_footer S v = ''Total PnL: '' @ sc_render S (strong (pnl_color (ps_TotalPnL v))) (ps_TotalPnL v)"

text \<open>The positions between \<open>start\<close> and \<open>end\<close>.\<close>

definition shown_positions :: "positions_table \<Rightarrow> position_view list \<Rightarrow> position_view list" where
  "shown_positions t ps =
     (let start = pt_offset t; stop = min (pt_offset t + (pt_height t - 6)) (int (length ps))
      in take (nat (stop - start)) (drop (nat start) ps))"

definition positions_Render :: "('d, 'w) screen \<Rightarrow> positions_table \<Rightarrow> string option" where
  "positions_Render S t =
     (case pt_vm t of
        None \<Rightarrow> Some (plain_block S (pt_width t) (pt_height t) ''Loading positions...'')
      | Some v \<Rightarrow>
          if ps_Positions v = [] then Some (empty_box S (pt_width t) (pt_height t) ''No open positions'')
          else table_Render S (pt_width t) ''Open Positions'' (positions_header S)
                 (map (positions_row S) (shown_positions t (ps_Positions v))) (positions_footer S v))"

definition balance_header :: "('d, 'w) screen \<Rightarrow> string" where
  "balance_header S = table_header S [(''Asset'', 10), (''Total'', 16), (''Available'', 16), (''Locked'', 16)]"

definition balances_row :: "('d, 'w) screen \<Rightarrow> balance_item \<Rightarrow> string" where
  "balances_row S b = table_row S [(bi_Asset b, 10), (bi_Total b, 16), (bi_Available b, 16), (bi_Locked b, 16)]"

definition balance_footer :: "('d, 'w) screen \<Rightarrow> balance_view \<Rightarrow> string" where
  "balance_footer S v = ''Total Equity (USD): '' @ sc_render S (strong ColorPrimary) (bv_TotalEquity v)"

definition balance_Render :: "('d, 'w) screen \<Rightarrow> int \<Rightarrow> int \<Rightarrow> balance_view option \<Rightarrow> string option" where
  "balance_Render S w h vm =
     (case vm of
        None \<Rightarrow> Some (plain_block S w h ''Loading balances...'')
      | Some v \<Rightarrow>
          if bv_Balances v = [] then Some (empty_box S w h ''No balance data available'')
          else table_Render S w ''Account Balance'' (balance_header S) (map (balances_row S) (bv_Balances v)) (balance_footer S v))"

subsection \<open>Market and settings\<close>

definition market_content :: "('d, 'w) screen \<Rightarrow> market_view \<Rightarrow> string" where
  "market_content S v =
     (let label = sc_render S (coloured ColorMuted); val = sc_render S (strong ColorPrimary); price = sc_render S (strong ColorSuccess)
      in sc_vertical S
        [[], label ''Last Price:'' @ ''  '' @ price (mv_LastPrice v), label ''Bid:'' @ ''       '' @ val (mv_BidPrice v),
         label ''Ask:'' @ ''       '' @ val (mv_AskPrice v),
         label ''Spread:'' @ ''    '' @ val (mv_Spread v) @ '' ('' @ mv_SpreadPct v @ '')'',
         label ''Volume 24h:'' @ '' '' @ val (mv_Volume24h v), [], [],
         label (''['' @ left_arrow @ ''] Previous Symbol  ['' @ right_arrow @ ''] Next Symbol'')])"

definition market_Render :: "('d, 'w) screen \<Rightarrow> int \<Rightarrow> int \<Rightarrow> market_view option \<Rightarrow> string" where
  "market_Render S w h vm =
     (case vm of
        None \<Rightarrow> plain_block S w h ''Loading market data...''
      | Some v \<Rightarrow> titled S (''Market: '' @ mv_Symbol v) (sc_render S (sized (w - 4) (h - 4) BorderStyle) (market_content S v)))"

definition renderSection :: "('d, 'w) screen \<Rightarrow> string \<Rightarrow> (string \<times> string) list \<Rightarrow> string" where
  "renderSection S title items =
     newline_joined (sc_render S (strong ColorPrimary) title #
       map (\<lambda>(k, v). ''  '' @ sc_render S (coloured ColorMuted) (padRight S k 25) @ '': '' @ sc_render S (coloured ColorSuccess) v) items)"

fun blank_line_joined :: "string list \<Rightarrow> string" where
  "blank_line_joined [] = []"
| "blank_line_joined [s] = s"
| "blank_line_joined (s # ss) = s @ [CHR 0x0A, CHR 0x0A] @ blank_line_joined ss"

definition settings_content :: "('d, 'w) screen \<Rightarrow> settings_view \<Rightarrow> string" where
  "settings_content S v =
     blank_line_joined (map (\<lambda>(title, items). renderSection S title items)
       (filter (\<lambda>(title, items). items \<noteq> [])
         [(''Risk Management'', se_Risk v), (''Trading'', se_Trading v), (''System'', se_System v)])) @
     sc_render S HelpStyle ([CHR 0x0A] @ ''Use /set <key> <value> to change settings'')"

definition settings_Render :: "('d, 'w) screen \<Rightarrow> int \<Rightarrow> int \<Rightarrow> settings_view option \<Rightarrow> string" where
  "settings_Render S w h vm =
     (case vm of
        None \<Rightarrow> plain_block S w h ''Loading settings...''
      | Some v \<Rightarrow> titled S ''Configuration (Read-Only)'' (sc_render S (sized (w - 4) (h - 4) BorderStyle) (settings_content S v)))"

subsection \<open>Log\<close>

fun level_style :: "log_level \<Rightarrow> style" where
  "level_style LogLevelInfo = LogInfoStyle"
| "level_style LogLevelWarning = LogWarningStyle"
| "level_style LogLevelError = LogErrorStyle"
| "level_style LogLevelSuccess = LogSuccessStyle"

fun level_text :: "log_level \<Rightarrow> string" where
  "level_text LogLevelInfo = ''INFO ''"
| "level_text LogLevelWarning = ''WARN ''"
| "level_text LogLevelError = ''ERROR''"
| "level_text LogLevelSuccess = ''OK   ''"

fun level_name :: "log_level \<Rightarrow> string" where
  "level_name LogLevelInfo = ''INFO''"
| "level_name LogLevelWarning = ''WARN''"
| "level_name LogLevelError = ''ERROR''"
| "level_name LogLevelSuccess = ''OK''"

definition screen_log :: "('d, 'w) screen \<Rightarrow> log_style" where
  "screen_log S =
     \<lparr>ls_stamp = (\<lambda>t. sc_render S (coloured ColorMuted) (sc_clock S t)), ls_level = (\<lambda>l. sc_render S (level_style l) (level_text l)),
      ls_message = (\<lambda>l. sc_render S (level_style l)), ls_width = sc_width S\<rparr>"

definition renderFilterInfo :: "('d, 'w) screen \<Rightarrow> log_viewer \<Rightarrow> string" where
  "renderFilterInfo S lv =
     (let level = (case lv_filterLevel lv of None \<Rightarrow> [] | Some l \<Rightarrow> [''Level: '' @ level_name l]);
          txt = (if lv_filterText lv \<noteq> [] then [''Text: '' @ lv_filterText lv] else [])
      in case level @ txt of
           [] \<Rightarrow> []
         | [x] \<Rightarrow> sc_render S (coloured ColorWarning) (''Filters: '' @ x)
         | x # y # _ \<Rightarrow> sc_render S (coloured ColorWarning) (''Filters: '' @ x @ '' | '' @ y))"

fun rendered_all :: "'a option list \<Rightarrow> 'a list option" where
  "rendered_all [] = Some []"
| "rendered_all (None # xs) = None"
| "rendered_all (Some x # xs) = map_option ((#) x) (rendered_all xs)"

definition log_Render :: "('d, 'w) screen \<Rightarrow> (string \<Rightarrow> string) \<Rightarrow> log_viewer \<Rightarrow> string option" where
  "log_Render S lower lv =
     (let box = sized (lv_width lv - 4) (lv_height lv - 2) BorderStyle in
      if getFilteredEntries lower lv = [] then
        Some (sc_render S box (sc_render S HelpStyle
          (if lv_filterLevel lv \<noteq> None \<or> lv_filterText lv \<noteq> [] then ''No logs match current filters'' else ''No logs yet...'')))
      else map_option
        (\<lambda>lines.
          let content = newline_joined (lines @ replicate (nat (lv_height lv) - length lines) []);
              info = renderFilterInfo S lv
          in sc_render S box (if info \<noteq> [] then info @ [CHR 0x0A] @ content else content))
        (rendered_all (map (renderEntry (screen_log S) lv) (visible_entries lower lv))))"

subsection \<open>Bars\<close>

definition mode_style :: "run_mode \<Rightarrow> style" where
  "mode_style m =
     (if m = RunModeIdle then StatusIdleStyle
      else if m = RunModeLiveTrading then StatusActiveStyle
      else if m \<in> {RunModePaperTrading, RunModeBacktesting, RunModeOptimizing, RunModeScanning} then StatusWarningStyle
      else StatusDangerStyle)"

definition latency_color :: "duration \<Rightarrow> string" where
  "latency_color d = (if d > 500 * millisecond then ColorDanger else if d > 100 * millisecond then ColorWarning else ColorSuccess)"

text \<open>The hours, minutes and seconds of a duration as floats cut off, exact for the durations that occur.\<close>

definition formatDuration :: "duration \<Rightarrow> string" where
  "formatDuration d =
     (let hours = d sdiv hour; minutes = (d sdiv minute) smod 60; seconds = (d sdiv second) smod 60
      in if hours > 0 then int_text hours @ ''h '' @ int_text minutes @ ''m''
         else if minutes > 0 then int_text minutes @ ''m '' @ int_text seconds @ ''s''
         else int_text seconds @ ''s'')"

definition status_bar_Render :: "('d::linordered_idom, 'w) screen \<Rightarrow> int \<Rightarrow> 'd status_bar \<Rightarrow> string" where
  "status_bar_Render S w b =
     (let status = sc_render S (mode_style (sb_mode b)) (bullet @ '' '' @ sc_mode S (sb_mode b));
          ping = sc_render S (coloured (latency_color (sb_ping b))) (''Ping: '' @ int_text (sb_ping b sdiv millisecond) @ ''ms'');
          drift = sc_render S (coloured (latency_color (sb_ntpDrift b))) (''Drift: '' @ int_text (sb_ntpDrift b sdiv millisecond) @ ''ms'');
          pnl = sc_render S (strong (if sb_pnl b < 0 then ColorDanger else ColorSuccess))
                  (''PnL: '' @ (if sb_pnl b < 0 then [] else ''+'') @ ''$'' @ sc_fixed2 S (sb_pnl b));
          uptime = sc_render S (coloured ColorMuted) (''Uptime: '' @ formatDuration (sb_uptime b));
          left = sc_horizontal S [status, ''  '', ping, ''  '', drift];
          right = sc_horizontal S [pnl, ''  '', uptime];
          spacing = max 0 (w - sc_width S left - sc_width S right - 4)
      in sc_render S (TopBarStyle\<lparr>sy_Width := Some w\<rparr>) (sc_horizontal S [left, replicate (nat spacing) CHR '' '', right]))"

definition tabs :: "string list" where
  "tabs = [''F1 Dashboard'', ''F2 Market'', ''F3 Positions'', ''F4 Balance'', ''F5 Logs'', ''F6 Settings'']"

definition tabActiveStyle :: style where
  "tabActiveStyle = (strong ColorPrimary)\<lparr>sy_Background := ''#1a1a1a'', sy_Padding := (0, 2), sy_MarginRight := 1\<rparr>"
definition tabInactiveStyle :: style where
  "tabInactiveStyle = (coloured ColorMuted)\<lparr>sy_Background := ''#0a0a0a'', sy_Padding := (0, 2), sy_MarginRight := 1\<rparr>"

definition tab_bar_Render :: "('d, 'w) screen \<Rightarrow> int \<Rightarrow> nat \<Rightarrow> string" where
  "tab_bar_Render S w active =
     (let row = sc_horizontal S (map (\<lambda>(i, t). sc_render S (if i = active then tabActiveStyle else tabInactiveStyle) t) (enumerate 0 tabs));
          help = sc_render S HelpStyle
            (if active = 4 then ''I/W/E Filter | A All | T Time | PgUp/Dn Scroll''
             else ''? Help | Ctrl+'' @ left_arrow @ ''/'' @ right_arrow @ '' Switch | /help Commands'');
          spacing = max 0 (w - sc_width S row - sc_width S help - 2)
      in sc_horizontal S [row, sc_render S (NewStyle\<lparr>sy_Width := Some spacing\<rparr>) [], help])"

definition input_View :: "('d, 'w) screen \<Rightarrow> 'w command_input \<Rightarrow> string" where
  "input_View S ci =
     (if ci_showSuggestions ci \<and> ci_suggestions ci \<noteq> [] then
        newline_joined (map (\<lambda>(i, s). if int i = ci_selectedSugg ci then sc_render S CommandInputStyle (''> '' @ s)
          else sc_render S HelpStyle (''  '' @ s)) (enumerate 0 (ci_suggestions ci))) @ [CHR 0x0A] @ sc_input S (ci_textInput ci)
      else sc_input S (ci_textInput ci))"

subsection \<open>The whole screen\<close>

definition main_content :: "('d, 'w) screen \<Rightarrow> (string \<Rightarrow> string) \<Rightarrow> ('d, 'w) tui \<Rightarrow> string option" where
  "main_content S lower m =
     (let w = tui_width m; h = tui_height m - 8 in
      case tui_currentView m of
        ViewDashboard \<Rightarrow> Some (dashboard_Render S w h (tui_dashboard m))
      | ViewMarket \<Rightarrow> Some (market_Render S w h (tui_market m))
      | ViewPositions \<Rightarrow> positions_Render S ((tui_positions m)\<lparr>pt_width := w, pt_height := h\<rparr>)
      | ViewBalance \<Rightarrow> balance_Render S w h (tui_balance m)
      | ViewLogs \<Rightarrow> log_Render S lower (log_SetSize w h (tui_logViewer m))
      | ViewSettings \<Rightarrow> Some (settings_Render S w h (tui_settings m)))"

definition screen_View :: "('d::linordered_idom, 'w) screen \<Rightarrow> (string \<Rightarrow> string) \<Rightarrow> ('d, 'w) tui \<Rightarrow> string option" where
  "screen_View S lower m =
     (if \<not> tui_ready m then Some ''Initializing...''
      else map_option
        (\<lambda>content. sc_render S BaseStyle (sc_vertical S
           [status_bar_Render S (tui_width m) (tui_statusBar m), tab_bar_Render S (tui_width m) (tui_activeTab m), content,
            sc_render S (BottomBarStyle\<lparr>sy_Width := Some (tui_width m)\<rparr>) (input_View S (tui_commandInput m))]))
        (main_content S lower m))"

subsection \<open>What is drawn\<close>

lemma rendered_all_None: "rendered_all xs = None \<longleftrightarrow> None \<in> set xs"
  by (induction xs rule: rendered_all.induct) auto

lemma table_Render_None: "table_Render S w title header rows footer = None \<longleftrightarrow> w < 8"
  by (simp add: table_Render_def Repeat_def)

lemma table_Render_Some: "(\<exists>y. table_Render S w title header rows footer = Some y) \<longleftrightarrow> \<not> w < 8"
  using table_Render_None [of S w title header rows footer] by auto

lemma log_Render_None:
  "log_Render S lower lv = None \<longleftrightarrow> (\<exists>e \<in> set (visible_entries lower lv). renderEntry (screen_log S) lv e = None)"
proof (cases "getFilteredEntries lower lv = []")
  case True
  then show ?thesis by (simp add: log_Render_def visible_entries_def Let_def)
next
  case False
  have "None \<in> set (map f xs) \<longleftrightarrow> (\<exists>e \<in> set xs. f e = None)" for f :: "log_entry \<Rightarrow> string option" and xs
    by (induction xs) auto
  then show ?thesis using False by (simp add: log_Render_def rendered_all_None Let_def del: set_map)
qed

lemmas table_Render_result = table_Render_None table_Render_Some

text \<open>The screen is drawn exactly where the model of the interface says that drawing succeeds.\<close>

theorem drawing_panics_iff:
  "screen_View S lower m = None \<longleftrightarrow> tui_View (screen_log S) lower m = None"
proof (cases "tui_ready m")
  case True
  show ?thesis
  proof (cases "tui_currentView m")
    case ViewPositions
    then show ?thesis using True
      by (simp add: screen_View_def main_content_def tui_View_def positions_Render_def on_positions_def table_Render_result Let_def
          split: option.split)
  next
    case ViewBalance
    then show ?thesis using True
      by (simp add: screen_View_def main_content_def tui_View_def balance_Render_def table_Render_result Let_def split: option.split)
  next
    case ViewLogs
    then show ?thesis using True
      by (simp add: screen_View_def main_content_def tui_View_def log_Render_None on_log_def Let_def)
  qed (simp_all add: screen_View_def main_content_def tui_View_def True Let_def)
qed (simp add: screen_View_def tui_View_def)

text \<open>The table leaves two rows more for its frame than the scrolling reckons with: however far down the user scrolls, the last
  position of a table that does not fit is not on the screen.\<close>

lemma shown_bound:
  assumes "0 \<le> pt_offset t" "i < length ps" "ps ! i \<in> set (shown_positions t ps)" "distinct ps"
  shows "int i < pt_offset t + (pt_height t - 6)"
proof -
  let ?a = "nat (pt_offset t)" and ?k = "nat (min (pt_offset t + (pt_height t - 6)) (int (length ps)) - pt_offset t)"
  obtain j where j: "j < ?k" "?a + j < length ps" "ps ! i = ps ! (?a + j)"
    using assms(3) by (auto simp: shown_positions_def Let_def in_set_conv_nth)
  then have "i = ?a + j" using assms(2,4) by (simp add: nth_eq_iff_index_eq)
  then show ?thesis using j(1) assms(1) by linarith
qed

lemma ScrollDown_bound:
  assumes "pt_vm t = Some v" "0 \<le> pt_offset t" "pt_offset t \<le> max 0 (int (length (ps_Positions v)) - (pt_height t - 4))"
  shows "0 \<le> pt_offset ((positions_ScrollDown ^^ n) t) \<and> pt_vm ((positions_ScrollDown ^^ n) t) = Some v \<and>
     pt_height ((positions_ScrollDown ^^ n) t) = pt_height t \<and>
     pt_offset ((positions_ScrollDown ^^ n) t) \<le> max 0 (int (length (ps_Positions v)) - (pt_height t - 4))"
  using assms by (induction n) (auto simp: positions_ScrollDown_def)

theorem last_position_is_never_shown:
  assumes "pt_vm t = Some v" "pt_offset t = 0" "distinct (ps_Positions v)"
    and "int (length (ps_Positions v)) > pt_height t - 6" "ps_Positions v \<noteq> []"
  shows "last (ps_Positions v) \<notin> set (shown_positions ((positions_ScrollDown ^^ n) t) (ps_Positions v))"
proof
  let ?t = "(positions_ScrollDown ^^ n) t" and ?n = "length (ps_Positions v)"
  assume "last (ps_Positions v) \<in> set (shown_positions ?t (ps_Positions v))"
  then have "ps_Positions v ! (?n - 1) \<in> set (shown_positions ?t (ps_Positions v))" using assms(5) by (simp add: last_conv_nth)
  moreover have b: "0 \<le> pt_offset ?t" "pt_height ?t = pt_height t" "pt_offset ?t \<le> max 0 (int ?n - (pt_height t - 4))"
    using ScrollDown_bound [OF assms(1), of n] assms(2) by auto
  ultimately have "int (?n - 1) < pt_offset ?t + (pt_height t - 6)"
    using shown_bound [OF b(1) _ _ assms(3), of "?n - 1"] assms(5) by simp
  then show False using b(3) assms(4,5) by (cases "ps_Positions v") (auto simp: max_def split: if_splits)
qed

end
