(* ===== verification/Event_Publisher.thy ===== *)
theory Event_Publisher
  imports Prelude "HOL-Library.Multiset"
begin

text \<open>
  The publisher of \<open>internal/tui/eventpublisher.go\<close>: listeners are called in goroutines of their own, one per listener and
  event, which end in any order. The history of a listener is what it was called with, and what it is owed are the events
  published since it subscribed.
\<close>

record 'e event_publisher =
  ep_listeners :: "nat list"
  ep_running :: "(nat \<times> 'e) multiset"
  ep_called :: "nat \<Rightarrow> 'e list"
  ep_owed :: "nat \<Rightarrow> 'e list"

definition NewEventPublisher :: "'e event_publisher" where
  "NewEventPublisher = \<lparr>ep_listeners = [], ep_running = {#}, ep_called = (\<lambda>_. []), ep_owed = (\<lambda>_. [])\<rparr>"

text \<open>A listener is a function value; its number is its position.\<close>

definition ep_Subscribe :: "'e event_publisher \<Rightarrow> 'e event_publisher" where
  "ep_Subscribe p = p\<lparr>ep_listeners := ep_listeners p @ [length (ep_listeners p)]\<rparr>"

definition ep_Publish :: "'e \<Rightarrow> 'e event_publisher \<Rightarrow> 'e event_publisher" where
  "ep_Publish e p =
     p\<lparr>ep_running := ep_running p + mset (map (\<lambda>l. (l, e)) (ep_listeners p)),
       ep_owed := (\<lambda>l. if l \<in> set (ep_listeners p) then ep_owed p l @ [e] else ep_owed p l)\<rparr>"

inductive ep_step :: "'e event_publisher \<Rightarrow> 'e event_publisher \<Rightarrow> bool" where
  subscribe: "ep_step p (ep_Subscribe p)"
| publish: "ep_step p (ep_Publish e p)"
| listener_runs: "(l, e) \<in># ep_running p \<Longrightarrow>
     ep_step p (p\<lparr>ep_running := ep_running p - {#(l, e)#}, ep_called := (ep_called p)(l := ep_called p l @ [e])\<rparr>)"

inductive_cases ep_stepE: "ep_step p q"

definition events_for :: "nat \<Rightarrow> (nat \<times> 'e) multiset \<Rightarrow> 'e multiset" where
  "events_for l M = image_mset snd (filter_mset (\<lambda>x. fst x = l) M)"

definition ep_inv :: "'e event_publisher \<Rightarrow> bool" where
  "ep_inv p \<longleftrightarrow> ep_listeners p = [0..<length (ep_listeners p)] \<and>
     (\<forall>l. mset (ep_called p l) + events_for l (ep_running p) = mset (ep_owed p l))"

lemma events_for_simps [simp]:
  "events_for l {#} = {#}" "events_for l (M + N) = events_for l M + events_for l N"
  "events_for l (add_mset (l', e) M) = (if l' = l then add_mset e (events_for l M) else events_for l M)"
  by (simp_all add: events_for_def)

lemma events_for_listeners:
  "distinct ls \<Longrightarrow> events_for l (image_mset (\<lambda>k. (k, e)) (mset ls)) = (if l \<in> set ls then {#e#} else {#})"
  by (induction ls) auto

lemma ep_step_inv: "ep_step p q \<Longrightarrow> ep_inv p \<Longrightarrow> ep_inv q"
proof (elim ep_stepE)
  assume "ep_inv p" "q = ep_Subscribe p"
  then show "ep_inv q" by (simp add: ep_inv_def ep_Subscribe_def)
next
  fix e assume i: "ep_inv p" and q: "q = ep_Publish e p"
  have "distinct (ep_listeners p)" using i by (metis distinct_upt ep_inv_def)
  then show "ep_inv q" using i by (simp add: q ep_inv_def ep_Publish_def events_for_listeners)
next
  fix l e assume i: "ep_inv p" and r: "(l, e) \<in># ep_running p"
    and q: "q = p\<lparr>ep_running := ep_running p - {#(l, e)#}, ep_called := (ep_called p)(l := ep_called p l @ [e])\<rparr>"
  obtain M where M: "ep_running p = add_mset (l, e) M" using r by (metis mset_add)
  have key: "mset (ep_called p k) + (if l = k then add_mset e (events_for k M) else events_for k M) = mset (ep_owed p k)" for k
    using i by (simp add: ep_inv_def M)
  have "mset (ep_called q k) + events_for k (ep_running q) = mset (ep_owed q k)" for k
    using key [of k] by (cases "l = k") (simp_all add: q M)
  then show "ep_inv q" using i by (simp add: ep_inv_def q)
qed

text \<open>Each listener is called once for every event published since it subscribed: never twice, never with another event, and
  with all of them when no goroutine is left.\<close>

theorem publisher_calls_once:
  assumes "ep_step\<^sup>*\<^sup>* NewEventPublisher p"
  shows "mset (ep_called p l) \<subseteq># mset (ep_owed p l) \<and> (ep_running p = {#} \<longrightarrow> mset (ep_called p l) = mset (ep_owed p l))"
proof -
  have "ep_inv p"
    using assms by (induction rule: rtranclp_induct) (simp add: ep_inv_def NewEventPublisher_def, blast intro: ep_step_inv)
  then have "mset (ep_owed p l) = mset (ep_called p l) + events_for l (ep_running p)" by (simp add: ep_inv_def)
  then show ?thesis by simp
qed

text \<open>The order is not kept: of two events published one after the other, a listener may be called with the second first.\<close>

theorem events_may_arrive_reversed:
  "\<exists>p. ep_step\<^sup>*\<^sup>* NewEventPublisher p \<and> ep_owed p 0 = [a, b] \<and> ep_called p 0 = [b, a]"
proof -
  let ?p1 = "ep_Subscribe NewEventPublisher"
  let ?p3 = "ep_Publish b (ep_Publish a ?p1)"
  let ?p4 = "?p3\<lparr>ep_running := ep_running ?p3 - {#(0, b)#}, ep_called := (ep_called ?p3)(0 := ep_called ?p3 0 @ [b])\<rparr>"
  let ?p5 = "?p4\<lparr>ep_running := ep_running ?p4 - {#(0, a)#}, ep_called := (ep_called ?p4)(0 := ep_called ?p4 0 @ [a])\<rparr>"
  have "ep_step ?p3 ?p4" "ep_step ?p4 ?p5"
    by (rule listener_runs, simp add: ep_Publish_def ep_Subscribe_def NewEventPublisher_def)+
  then have "ep_step\<^sup>*\<^sup>* NewEventPublisher ?p5"
    by (meson publish rtranclp.rtrancl_into_rtrancl rtranclp.rtrancl_refl subscribe)
  moreover have "ep_owed ?p5 0 = [a, b]" "ep_called ?p5 0 = [b, a]"
    by (simp_all add: ep_Publish_def ep_Subscribe_def NewEventPublisher_def)
  ultimately show ?thesis by blast
qed

end
