(* ===== verification/Spec2Isabelle.thy ===== *)
theory Spec2Isabelle
  imports Risk Circuit_Breaker Engine_State Runtime_Manager Order_Service Paper Router Backtest Reconcile
    Jobs Event_Bus Engine Strategy_Builder Agent_Service Journal
    Qos_Bus Vault Indicators Strategy_Engine Wasm
    Strategy_Repo Market_Repo Sql_Connection Snapshot_Store Dual_Stream Bybit_Adapter Local_Storage Backup Command_Line Tui Console
    Application Metrics Cloud_Client Tui_Render Event_Publisher
begin

text \<open>
  A verification development of the Kairos trading agent (Go, under \<open>src/\<close>).

  The program. The agent runs trading strategies on a user's machine. A runtime manager
  (\<open>internal/runtime\<close>) holds the mode (idle, paper or live trading, halted) and the published
  status; a repository (\<open>internal/providers/runtime\<close>) persists the status so that a restart is
  safe. A trading gate (\<open>internal/service/tradinggate\<close>) reads the status before every new entry.
  The order service (\<open>internal/service/agent/order_service.go\<close>) creates orders after the risk
  engine (\<open>internal/domain/risk\<close>) accepted them, stores them in SQLite
  (\<open>internal/providers/storage/sqlite\<close>), submits, cancels and reconciles them with the exchange.
  The router (\<open>internal/service/router\<close>) sends orders to the exchange or to the paper simulator
  (\<open>internal/service/paper\<close>) with an in-flight table. The engine
  (\<open>internal/engine\<close>) has its own state machine and guards its NTP check with a circuit breaker
  (\<open>internal/circuitbreaker\<close>); it reacts to the events of the exchange stream, publishes on its event
  bus, and shuts the parts down in order. The agent service (\<open>internal/service/agent/service.go\<close>) is what
  the user interface calls: it starts and stops modes, checks the disclaimer in the audit log
  (\<open>internal/audit\<close>) and reads the configuration (\<open>internal/config\<close>) and the licence
  (\<open>internal/license\<close>, \<open>internal/entitlement\<close>). The journal (\<open>internal/journal\<close>) is meant to keep order
  intents over a crash. The strategy builder (\<open>internal/strategy/builder\<close>) makes strategies out of
  templates, the job manager (\<open>internal/service/jobs\<close>) runs background work by priority. Backtests
  (\<open>internal/service/backtest\<close>) replay candles. Strategies compiled to WebAssembly run in a sandbox
  (\<open>internal/strategy/wasm\<close>); secrets are kept in a vault (\<open>internal/vault\<close>); the state directory can be backed
  up and restored (\<open>internal/backup\<close>); a terminal interface (\<open>internal/tui\<close>) and a console
  (\<open>internal/controllers/tui\<close>) drive the agent, \<open>internal/app\<close> opens its files; the adapter (\<open>internal/providers/bybit\<close>) translates between the agent and
  the exchange's connector.

  Theories.
  \<^item> \<^bold>\<open>Prelude\<close>: errors as sums, panics as outcomes, time, decimal text of numbers, sums over maps.
  \<^item> \<^bold>\<open>Decimal\<close>: the third-party decimal type as a parameter, and what is assumed of it.
  \<^item> \<^bold>\<open>Entity\<close>: \<open>internal/domain/entity\<close>, one record or datatype per Go type, one definition per method.
  \<^item> \<^bold>\<open>Risk\<close>: \<open>ValidateOrder\<close> in code order; it accepts exactly the orders within all limits.
  \<^item> \<^bold>\<open>Trading_Gate\<close>: \<open>CheckNewEntry\<close>; the locale \<open>entry_gate\<close> is what its clients rely on.
  \<^item> \<^bold>\<open>Channel\<close>: buffered Go channels, non-blocking sends, fan-out to listeners.
  \<^item> \<^bold>\<open>Engine_State\<close>: \<open>internal/engine/state.go\<close>; the locale \<open>halting_machine\<close> states that a halt is
    always accepted and left only through idle; interpreted on the engine's and the runtime's machines.
  \<^item> \<^bold>\<open>Runtime_Manager\<close>: the runtime's machine, the manager's status, crash and restart, and the
    repository. Sequential histories are \<open>mgr_run\<close>; interleaved callers are \<open>mgr_step\<close>.
  \<^item> \<^bold>\<open>Circuit_Breaker\<close>: counters and generations as 64-bit and 32-bit words; \<open>cb_step\<close> interleaves
    callers between \<open>beforeRequest\<close> and \<open>afterRequest\<close>. The invariant is stated for generations that
    have not wrapped around.
  \<^item> \<^bold>\<open>Sql_Table, Order_Repo, Position_Repo\<close>: tables as lists of rows with text columns, uniqueness
    constraints and injected driver faults; the locale \<open>keyed_store\<close> states the laws of a table, its
    extension \<open>faulty_store\<close> when an update fails; both are interpreted on orders and positions.
  \<^item> \<^bold>\<open>Order_Service\<close>: every operation on a state of tables, published events and exchange calls. The
    answers of the exchange, the clock and the faults of one call are the record \<open>world\<close>, so a history
    (\<open>service_run\<close>) quantifies over all of them.
  \<^item> \<^bold>\<open>Paper\<close>: the simulator; a submission and its asynchronous fill are separate operations.
  \<^item> \<^bold>\<open>Router\<close>: the two critical sections of \<open>SubmitOrder\<close> as separate steps of \<open>router_step\<close>.
  \<^item> \<^bold>\<open>Reconcile\<close>: the reconciler after a crash or reconnect
    (\<open>internal/service/reconciliation\<close>) on both repositories, with the saving loop of \<open>faulty_store\<close>.
  \<^item> \<^bold>\<open>Backtest\<close>: the engine with the strategy as a parameter; the loop is structural in the candles.
  \<^item> \<^bold>\<open>Jobs\<close>: queues, workers and counters of the job manager; every interleaving of submitting, starting,
    finishing and stopping refines two pools of first-in first-out queues.
  \<^item> \<^bold>\<open>Event_Bus\<close>: \<open>internal/engine/eventbus.go\<close>; publishing and unsubscribing interleave in \<open>bus_step\<close>.
  \<^item> \<^bold>\<open>Engine\<close>: NTP worker, stream events, reconciliation and recovery of workers, start and stop, and the
    sequence of \<open>shutdown.go\<close>. The calls it makes are recorded in order in the state.
  \<^item> \<^bold>\<open>Strategy_Builder\<close>: parameter types, validation, resolution of placeholders, instances.
  \<^item> \<^bold>\<open>Go_Text\<close>: strings, line scanning and durations as Go's standard library has them.
  \<^item> \<^bold>\<open>License\<close>: tokens, licence states over time, editions and their limits.
  \<^item> \<^bold>\<open>Config\<close>: defaults, validation, reload from disk, and the repository on top.
  \<^item> \<^bold>\<open>Audit_Log\<close>: the log, the disclaimer, and the hash of the binary (\<open>internal/integrity\<close>).
  \<^item> \<^bold>\<open>Agent_Service\<close>: the use cases over runtime repository, configuration, audit log and trusted keys,
    in histories with failing writes and restarts; the command \<open>kairos emergency-stop\<close> beside it.
  \<^item> \<^bold>\<open>Journal\<close>: segments as a table of texts; append, rotation, replay, truncation, torn writes.
  \<^item> \<^bold>\<open>Qos_Bus\<close>: the synchronous publisher and the bus of \<open>internal/domain/events/qos\<close> with its worker.
  \<^item> \<^bold>\<open>Vault\<close>: the secrets of \<open>internal/vault\<close>; histories of its operations refine a map behind a password.
  \<^item> \<^bold>\<open>Indicators\<close>: \<open>internal/strategy/sdk/sdk.go\<close>, with the ranges of its results.
  \<^item> \<^bold>\<open>Strategy_Engine\<close>: the registry and \<open>internal/strategy/engine\<close>; strategies are objects at addresses,
    the accounts handed to them refine a specification per instance.
  \<^item> \<^bold>\<open>Wasm\<close>: \<open>internal/strategy/wasm\<close>; the guest is a parameter, its memory and the host's allocator are
    modelled with 32-bit offsets.
  \<^item> \<^bold>\<open>Strategy_Repo, Market_Repo\<close>: the tables of strategies, balances and symbols of the SQLite storage.
  \<^item> \<^bold>\<open>Sql_Connection\<close>: opening the databases (\<open>sqlite/db.go\<close>, the writers, the local store), their connection
    pools, and transactions as all-or-nothing batches with what never gives the connection back.
  \<^item> \<^bold>\<open>Snapshot_Store\<close>: the file of the runtime snapshot, written beside and renamed, with crashes between the
    steps; it implements the \<open>persist\<close> of \<open>Runtime_Manager\<close>.
  \<^item> \<^bold>\<open>Local_Storage\<close>: \<open>internal/storage\<close>: opening with backup and migrations, rate states and partial fills in
    critical transactions, and the CSV export (\<open>internal/export\<close>).
  \<^item> \<^bold>\<open>Dual_Stream\<close>: the writers of critical and analytics records, callers, worker and shutdown interleaved.
  \<^item> \<^bold>\<open>Bybit_Adapter\<close>: \<open>internal/providers/bybit\<close>: the conversions, the calls, and the subscriptions as relays
    between two channels.
  \<^item> \<^bold>\<open>Backup\<close>: \<open>internal/backup\<close>: creating and restoring an encrypted archive of the state directory, with a
    failure possible at every step.
  \<^item> \<^bold>\<open>Command_Line\<close>: the commands of \<open>cmd/kairos/cli\<close> on a state directory and a service of their own.
  \<^item> \<^bold>\<open>Tui_Views, Tui, Tui_Render\<close>: the terminal interface of \<open>internal/tui\<close>: what it reads, its messages, keys and
    commands with the queries and calls that are still running, and what it draws over a layout library.
  \<^item> \<^bold>\<open>Event_Publisher\<close>: the interface's publisher, whose listeners run in goroutines.
  \<^item> \<^bold>\<open>Console\<close>: the command console of \<open>internal/controllers/tui\<close> over the agent's service and the strategy builder;
    its reachable states replay the typed lines.
  \<^item> \<^bold>\<open>Application\<close>: \<open>internal/app\<close>, \<open>internal/bootstrap\<close> and the commands of \<open>internal/controllers/cli\<close> as processes
    that open a profile, act on it and close it.
  \<^item> \<^bold>\<open>Metrics\<close>: \<open>internal/metrics\<close> and the places of the engine that write them.
  \<^item> \<^bold>\<open>Cloud_Client\<close>: \<open>internal/providers/cloud\<close> with the encoding of its queries, and the command update check.
  \<^item> This theory: the components wired together, and the properties that span them.

  Correspondence. A Go struct is a record with the fields in source order, a method is a definition
  of the same name (prefixed where two types share it) that returns the new state; a mutex-protected
  method is one step. \<open>(T, error)\<close> is a sum; a panic is \<open>Panic\<close> or \<open>None\<close>. Instants and durations are
  integers counting nanoseconds and the clock readings of an operation are arguments. Text that the
  code formats or parses through libraries (decimals, timestamps, driver messages) is a
  parameter, with the round-trip as a named hypothesis. Logging is left out.

  What the lemmas show. Per component: operation lemmas on every branch, an invariant with one
  preservation lemma per operation (collected in \<open>step_invs\<close>), and from them the numbered properties
  C1, C2, and so on: functional contracts, safety under interleaving, round trips, accounting
  identities, restart safety, and the defects that modelling found, as theorems about the code as it is.

  Bounds. The loops of the modelled code range over finite collections and are structural recursions; only
  the removal of white space (\<open>strip_n\<close>) takes the length of the string as fuel, which is enough because
  every step removes at least one byte. A line the scanner reads has less than 64 KiB. Machine integers
  are words in the circuit breaker, the listener and subscription ids, the counters of the event buses and the
  offsets in a guest's memory, where the code's values can wrap; prices and quantities are unbounded decimals.

  Not modelled: the encodings that libraries produce (JSON, YAML, tar, SQL text) and cryptography, which are
  parameters; the transport of requests; the layout of the screen, which a library computes from the texts and styles that
  are modelled; flag parsing and most printing of the commands; logging.
\<close>

section \<open>The components together\<close>

text \<open>
  \<open>internal/bootstrap/factory.go\<close> builds one trading gate over the runtime repository, with the
  default policy; the order service and the router ask it before every entry. So the status the
  gate sees is the snapshot that the runtime manager holds at that moment.
\<close>

record 'd agent =
  a_manager :: manager
  a_service :: "'d service"
  a_router :: "'d router"

definition wired_gate :: "policy option" where
  "wired_gate = Some (new_gate DefaultPolicy)"

definition runtime_answer :: "'d agent \<Rightarrow> (string + status) option" where
  "runtime_answer a = Some (Inr (Snapshot (a_manager a)))"

fun at_runtime :: "(string + status) option \<Rightarrow> 'd service_op \<Rightarrow> 'd service_op" where
  "at_runtime rt (OpCreate W req) = OpCreate (W\<lparr>w_runtime := rt\<rparr>) req"
| "at_runtime rt (OpSubmit W oid) = OpSubmit (W\<lparr>w_runtime := rt\<rparr>) oid"
| "at_runtime rt (OpCancel W oid) = OpCancel (W\<lparr>w_runtime := rt\<rparr>) oid"
| "at_runtime rt (OpReconcile W) = OpReconcile (W\<lparr>w_runtime := rt\<rparr>)"

datatype 'd agent_op =
    RuntimeOp mgr_op
  | ServiceOp "'d service_op"
  | RouteOp "('d order \<Rightarrow> string + string) option" "('d order \<Rightarrow> string + string) option" time "'d order"

fun agent_step ::
  "(string \<Rightarrow> string) \<Rightarrow> 'd::linordered_idom service_config \<Rightarrow> 'd agent_op \<Rightarrow> 'd agent \<Rightarrow> 'd agent" where
  "agent_step sha S (RuntimeOp x) a = a\<lparr>a_manager := mgr_apply x (a_manager a)\<rparr>"
| "agent_step sha S (ServiceOp x) a =
     a\<lparr>a_service := service_step S (at_runtime (runtime_answer a) x) (a_service a)\<rparr>"
| "agent_step sha S (RouteOp connector simulator now ord) a =
     a\<lparr>a_router := fst (router_SubmitOrder sha connector simulator (runtime_answer a) now ord (a_router a))\<rparr>"

definition agent_run ::
  "(string \<Rightarrow> string) \<Rightarrow> 'd::linordered_idom service_config \<Rightarrow> 'd agent_op list \<Rightarrow> 'd agent \<Rightarrow> 'd agent" where
  "agent_run sha S ops a = fold (agent_step sha S) ops a"

definition halted_agent :: "'d agent \<Rightarrow> bool" where
  "halted_agent a \<longleftrightarrow> mgr_agrees (a_manager a) \<and> CurrentState (a_manager a) = RunModeHalted \<and> r_gate (a_router a) = wired_gate"

fun leaves_halt_alone :: "'d agent_op \<Rightarrow> bool" where
  "leaves_halt_alone (RuntimeOp x) = keeps_halt x"
| "leaves_halt_alone _ = True"

text \<open>The orders that a log of calls sent to the exchange, accepted or not.\<close>

definition sent_orders :: "exchange_call list \<Rightarrow> string list" where
  "sent_orders calls = concat (map (\<lambda>c. case c of SubmitCall oid _ \<Rightarrow> [oid] | CancelCall _ _ \<Rightarrow> []) calls)"

lemma sent_orders_append [simp]: "sent_orders (xs @ ys) = sent_orders xs @ sent_orders ys"
  by (simp add: sent_orders_def)

lemma sent_orders_cancel [simp]: "sent_orders [] = []" "sent_orders [CancelCall oid r] = []"
  by (simp_all add: sent_orders_def)

lemma wired_gate_blocks:
  assumes "halted_agent a"
  shows "\<exists>e. CheckNewEntry (new_gate DefaultPolicy) (runtime_answer a) = Err e"
proof -
  have "new_gate DefaultPolicy = DefaultPolicy" by (simp add: new_gate_def DefaultPolicy_def)
  moreover have "check_status DefaultPolicy (Snapshot (a_manager a)) \<noteq> Ok ()"
    using assms by (intro halted_gate_blocks) (simp_all add: halted_agent_def)
  ultimately show ?thesis
    by (cases "check_status DefaultPolicy (Snapshot (a_manager a))") (simp_all add: CheckNewEntry_def runtime_answer_def)
qed

lemma CancelOrder_sends_nothing: "sent_orders (sv_calls (fst (CancelOrder S W oid st))) = sent_orders (sv_calls st)"
  by (auto simp: CancelOrder_def Let_def dest!: save_orderD split: sum.splits option.splits prod.splits)

text \<open>No operation but \<open>CreateOrder\<close> adds an order.\<close>

lemma order_Update_ids: "map c_id (fst (order_Update ef ord rows)) = map c_id rows"
  by (auto simp: order_Update_def order_set_columns_def split: option.splits prod.splits)

lemma each_update_ids: "map c_id (fst (each_update g (\<lambda>x. order_Update (h x) x) xs rows)) = map c_id rows"
proof (induction xs arbitrary: rows)
  case (Cons x xs)
  then show ?case using order_Update_ids [of "h (the (g x))" "the (g x)" rows]
    by (cases "g x"; cases "order_Update (h (the (g x))) (the (g x)) rows") (auto split: sum.splits)
qed simp

lemma halted_step_keeps:
  assumes "halted_agent a" "leaves_halt_alone x" "gate_policy S = wired_gate"
  shows "halted_agent (agent_step sha S x a) \<and> a_router (agent_step sha S x a) = a_router a \<and>
     sent_orders (sv_calls (a_service (agent_step sha S x a))) = sent_orders (sv_calls (a_service a)) \<and>
     map c_id (sv_orders (a_service (agent_step sha S x a))) = map c_id (sv_orders (a_service a))"
proof -
  obtain e where e: "CheckNewEntry (new_gate DefaultPolicy) (runtime_answer a) = Err e"
    using wired_gate_blocks [OF assms(1)] by blast
  have shut: "checkNewEntry S (W\<lparr>w_runtime := runtime_answer a\<rparr>) = Err (GateRefused e)" for W
    using e assms(3) by (simp add: checkNewEntry_def wired_gate_def)
  show ?thesis
  proof (cases x)
    case (RuntimeOp op)
    then show ?thesis using assms mgr_apply_keeps_halt mgr_apply_agrees by (simp add: halted_agent_def)
  next
    case (ServiceOp op)
    have h: "halted_agent (agent_step sha S x a)" "a_router (agent_step sha S x a) = a_router a"
      using assms(1) ServiceOp by (simp_all add: halted_agent_def)
    show ?thesis
    proof (cases op)
      case (OpCreate W req)
      then show ?thesis using h ServiceOp shut by (simp add: CreateOrder_def)
    next
      case (OpSubmit W oid)
      then show ?thesis using h ServiceOp shut by (simp add: SubmitOrder_def submit_begin_def)
    next
      case (OpCancel W oid)
      have "map c_id (sv_orders (fst (CancelOrder S W' oid st))) = map c_id (sv_orders st)" for W' st
        by (cases rule: CancelOrder_table [of S W' oid st]) (simp_all add: order_Update_ids)
      then show ?thesis using h ServiceOp OpCancel by (simp add: CancelOrder_sends_nothing)
    next
      case (OpReconcile W)
      have "map c_id (sv_orders (fst (ReconcileOrders S W' st))) = map c_id (sv_orders st)" for W' st
        by (cases rule: ReconcileOrders_table [of S W' st]) (simp_all add: each_update_ids)
      then show ?thesis using h ServiceOp OpReconcile by (simp add: ReconcileOrders_calls)
    qed
  next
    case (RouteOp connector simulator now ord)
    have "router_checkNewEntry (runtime_answer a) (a_router a) = Err (RouterGate e)"
      using e assms(1) by (simp add: router_checkNewEntry_def halted_agent_def wired_gate_def)
    then show ?thesis using assms(1) RouteOp by (simp add: router_SubmitOrder_def halted_agent_def)
  qed
qed

lemma halted_run_keeps:
  assumes "gate_policy S = wired_gate"
  shows "halted_agent a \<Longrightarrow> \<forall>x \<in> set ops. leaves_halt_alone x \<Longrightarrow>
     halted_agent (agent_run sha S ops a) \<and> a_router (agent_run sha S ops a) = a_router a \<and>
     sent_orders (sv_calls (a_service (agent_run sha S ops a))) = sent_orders (sv_calls (a_service a)) \<and>
     map c_id (sv_orders (a_service (agent_run sha S ops a))) = map c_id (sv_orders (a_service a))"
proof (induction ops arbitrary: a)
  case (Cons x xs)
  have r: "agent_run sha S (x # xs) a = agent_run sha S xs (agent_step sha S x a)" for a by (simp add: agent_run_def)
  show ?case using halted_step_keeps [OF _ _ assms, of a x sha] Cons by (simp add: r)
qed (simp add: agent_run_def)

section \<open>Properties of the whole\<close>



end
